(* ===== verification/Prelude.thy ===== *)
theory Prelude
  imports
    Main
    "HOL-Library.Word"
    "HOL-Library.Finite_Map"
    "HOL-Library.Multiset"
    "HOL-Library.List_Lexorder"
    "HOL-Library.Char_ord"
    "HOL-Library.Monad_Syntax"
begin

text \<open>
  The shared layer of the development: the machine types of the Rust sources, the parts of the
  Rust standard collections that the sources use, and the generic lemmas about them.

  \<^item> \<open>u8\<close>, \<open>u32\<close>, \<open>u64\<close> are words of that width: addition and subtraction wrap, as they do in
    the release profile the nodes are built with. Lengths and counts (\<open>usize\<close>) are \<open>nat\<close>.
  \<^item> \<open>BTreeMap\<close> and \<open>HashMap\<close> are finite maps (\<open>fmap\<close>), \<open>BTreeSet\<close> and \<open>HashSet\<close> are
    finite sets (\<open>fset\<close>). Iteration over a \<open>BTreeMap\<close> goes in key order: \<open>sorted_list_of_fmap\<close>.
  \<^item> A panic (\<open>unwrap\<close> on nothing, an index out of range, an explicit \<open>panic!\<close>) is the value
    \<open>None\<close> of an outer \<open>option\<close>; the \<open>Option\<close> that a Rust function returns is an inner one.
\<close>

section \<open>Machine types\<close>

type_synonym u8 = "8 word"
type_synonym u32 = "32 word"
type_synonym u64 = "64 word"
type_synonym bytes = "u8 list"

text \<open>The result of code that may panic: \<open>None\<close> is the panic.\<close>

type_synonym 'a may_panic = "'a option"

text \<open>\<open>usize\<close> subtraction wraps at 64 bits.\<close>

definition usize_sub :: "nat \<Rightarrow> nat \<Rightarrow> nat" where
  "usize_sub a b = (if b \<le> a then a - b else a + 2 ^ 64 - b)"

section \<open>Collections of lemmas\<close>

text \<open>\<open>std_simps\<close>: how the modelled collection operations act on lookups and domains.\<close>

named_theorems std_simps

text \<open>\<open>inv_intros\<close>: preservation of a component's invariant by its operations.\<close>

named_theorems inv_intros

section \<open>Ordered maps\<close>

definition fmkeys :: "('k::linorder, 'v) fmap \<Rightarrow> 'k list" where
  "fmkeys m = map fst (sorted_list_of_fmap m)"

definition fmvalues :: "('k::linorder, 'v) fmap \<Rightarrow> 'v list" where
  "fmvalues m = map snd (sorted_list_of_fmap m)"

definition fmlen :: "('k, 'v) fmap \<Rightarrow> nat" where
  "fmlen m = fcard (fmdom m)"

text \<open>\<open>retain\<close>: keep the entries a predicate on key and value accepts.\<close>

definition fmretain :: "('k \<Rightarrow> 'v \<Rightarrow> bool) \<Rightarrow> ('k, 'v) fmap \<Rightarrow> ('k, 'v) fmap" where
  "fmretain P m = fmfilter (\<lambda>k. case fmlookup m k of None \<Rightarrow> False | Some v \<Rightarrow> P k v) m"

text \<open>\<open>extend\<close>: insert the pairs of an iterator one after the other, later pairs win.\<close>

definition fmextend :: "('k \<times> 'v) list \<Rightarrow> ('k, 'v) fmap \<Rightarrow> ('k, 'v) fmap" where
  "fmextend kvs m = fold (\<lambda>(k, v). fmupd k v) kvs m"

text \<open>\<open>entry(k).or_default()\<close>, then an update of the entry in place.\<close>

definition fmentry :: "'v \<Rightarrow> 'k \<Rightarrow> ('v \<Rightarrow> 'v) \<Rightarrow> ('k, 'v) fmap \<Rightarrow> ('k, 'v) fmap" where
  "fmentry d k f m = fmupd k (f (case fmlookup m k of None \<Rightarrow> d | Some v \<Rightarrow> v)) m"

lemma fmkeys_eq: "fmkeys m = sorted_list_of_fset (fmdom m)"
  by (simp add: fmkeys_def sorted_list_of_fmap_def comp_def)

lemma set_fmkeys [simp, std_simps]: "set (fmkeys m) = fset (fmdom m)"
  by (simp add: fmkeys_eq)

lemma distinct_fmkeys [simp]: "distinct (fmkeys m)"
  by (simp add: fmkeys_eq sorted_list_of_fset.rep_eq)

lemma sorted_fmkeys [simp]: "sorted (fmkeys m)"
  by (simp add: fmkeys_eq sorted_list_of_fset.rep_eq)

lemma length_fmkeys [simp]: "length (fmkeys m) = fmlen m"
  by (simp add: fmkeys_eq fmlen_def sorted_list_of_fset.rep_eq fcard.rep_eq)

lemma set_sorted_list_of_fmap:
  "(k, v) \<in> set (sorted_list_of_fmap m) \<longleftrightarrow> fmlookup m k = Some v"
  by (auto simp: sorted_list_of_fmap_def fmlookup_dom_iff image_iff)

lemma distinct_sorted_list_of_fmap [simp]: "distinct (map fst (sorted_list_of_fmap m))"
  using distinct_fmkeys [of m] by (simp add: fmkeys_def)

lemma length_sorted_list_of_fmap [simp]: "length (sorted_list_of_fmap m) = fmlen m"
  using length_fmkeys [of m] by (simp add: fmkeys_def)

lemma set_fmvalues [std_simps]: "set (fmvalues m) = {v. \<exists>k. fmlookup m k = Some v}"
proof -
  have "v \<in> set (fmvalues m) \<longleftrightarrow> (\<exists>k. (k, v) \<in> set (sorted_list_of_fmap m))" for v
    by (force simp: fmvalues_def)
  then show ?thesis by (auto simp: set_sorted_list_of_fmap)
qed

lemma fmkeys_empty [simp]: "fmkeys fmempty = []"
  by (simp add: fmkeys_eq sorted_list_of_fset.rep_eq)

lemma fmvalues_empty [simp]: "fmvalues fmempty = []"
  by (simp add: fmvalues_def sorted_list_of_fmap_def sorted_list_of_fset.rep_eq)

lemma fmvalues_Nil_iff [simp]: "fmvalues m = [] \<longleftrightarrow> m = fmempty"
proof
  assume "fmvalues m = []"
  then have "\<And>k. fmlookup m k = None"
    using set_fmvalues [of m] by (metis (mono_tags, lifting) empty_iff empty_set mem_Collect_eq not_None_eq)
  then show "m = fmempty" by (auto intro: fmap_ext)
qed simp

lemma fmlen_empty [simp]: "fmlen fmempty = 0"
  by (simp add: fmlen_def)

lemma fmlen_0_iff [simp]: "fmlen m = 0 \<longleftrightarrow> m = fmempty"
proof
  assume "fmlen m = 0"
  then have "fmdom m = {||}" by (simp add: fmlen_def)
  then have "fmlookup m k = None" for k by (intro fmdom_notD) simp
  then show "m = fmempty" by (intro fmap_ext) simp
qed simp

lemma fmlookup_fmretain [simp, std_simps]:
  "fmlookup (fmretain P m) k =
     (case fmlookup m k of None \<Rightarrow> None | Some v \<Rightarrow> if P k v then Some v else None)"
  by (simp add: fmretain_def split: option.splits)

lemma fmretain_fmempty [simp]: "fmretain P fmempty = fmempty"
  by (simp add: fmretain_def)

lemma fmlookup_fmentry [simp, std_simps]:
  "fmlookup (fmentry d k f m) k' =
     (if k = k' then Some (f (case fmlookup m k of None \<Rightarrow> d | Some v \<Rightarrow> v)) else fmlookup m k')"
  by (simp add: fmentry_def)

lemma fmdom_fmentry [simp, std_simps]: "fmdom (fmentry d k f m) = finsert k (fmdom m)"
  by (simp add: fmentry_def)

lemma fmextend_Nil [simp]: "fmextend [] m = m"
  by (simp add: fmextend_def)

lemma fmextend_Cons [simp]: "fmextend ((k, v) # kvs) m = fmextend kvs (fmupd k v m)"
  by (simp add: fmextend_def)

lemma fmlookup_fmextend [std_simps]:
  "fmlookup (fmextend kvs m) k =
     (case map_of (rev kvs) k of None \<Rightarrow> fmlookup m k | Some v \<Rightarrow> Some v)"
  by (induction kvs arbitrary: m rule: list.induct)
    (auto simp: map_add_def split: option.splits)

lemma fmdom_fmextend [simp, std_simps]:
  "fmdom (fmextend kvs m) = fset_of_list (map fst kvs) |\<union>| fmdom m"
  by (induction kvs arbitrary: m) (auto, force)

lemma sorted_list_of_fset_ffilter:
  "sorted_list_of_fset (ffilter P A) = filter P (sorted_list_of_fset A)"
proof -
  have "sorted_list_of_set (fset (ffilter P A)) = filter P (sorted_list_of_set (fset A))"
    by (rule sorted_distinct_set_unique) (auto intro: sorted_wrt_filter)
  then show ?thesis by (simp add: sorted_list_of_fset.rep_eq)
qed

lemma sorted_list_of_fmap_fmfilter:
  "sorted_list_of_fmap (fmfilter P m) = filter (\<lambda>(k, _). P k) (sorted_list_of_fmap m)"
  by (simp add: sorted_list_of_fmap_def sorted_list_of_fset_ffilter filter_map comp_def)

lemma fmvalues_eq: "fmvalues m = map snd (sorted_list_of_fmap m)"
  by (rule fmvalues_def)

lemma fmlen_fmdrop_le: "fmlen (fmdrop k m) \<le> fmlen m"
  unfolding fmlen_def by (rule fcard_mono) auto

lemma fmlen_fmfilter_le: "fmlen (fmfilter P m) \<le> fmlen m"
  unfolding fmlen_def by (rule fcard_mono) auto

lemma fmlen_fmupd: "fmlen (fmupd k v m) = (if fmlookup m k = None then Suc (fmlen m) else fmlen m)"
  by (auto simp: fmlen_def fcard_finsert_if fmlookup_dom_iff)

text \<open>The sum of a weight over the values of a map.\<close>

definition fmweight :: "('v \<Rightarrow> nat) \<Rightarrow> ('k, 'v) fmap \<Rightarrow> nat" where
  "fmweight w m = (\<Sum>k \<in> fset (fmdom m). w (the (fmlookup m k)))"

lemma fmweight_empty [simp]: "fmweight w fmempty = 0"
  by (simp add: fmweight_def)

lemma fmweight_fmdrop:
  "fmlookup m k = Some v \<Longrightarrow> fmweight w m = fmweight w (fmdrop k m) + w v"
proof -
  assume k: "fmlookup m k = Some v"
  then have "k \<in> fset (fmdom m)" by (simp add: fmdomI)
  then have "fmweight w m = w (the (fmlookup m k)) +
      (\<Sum>k' \<in> fset (fmdom m) - {k}. w (the (fmlookup m k')))"
    unfolding fmweight_def by (intro sum.remove) simp_all
  also have "(\<Sum>k' \<in> fset (fmdom m) - {k}. w (the (fmlookup m k'))) = fmweight w (fmdrop k m)"
    unfolding fmweight_def by (intro sum.cong) auto
  finally show ?thesis using k by simp
qed

lemma fmdrop_fmupd_fresh: "fmlookup m k = None \<Longrightarrow> fmdrop k (fmupd k v m) = m"
  by (auto intro!: fmap_ext)

lemma fmweight_fmupd_fresh:
  "fmlookup m k = None \<Longrightarrow> fmweight w (fmupd k v m) = fmweight w m + w v"
  using fmweight_fmdrop [of "fmupd k v m" k v w] by (simp add: fmdrop_fmupd_fresh)

section \<open>Iterators\<close>

text \<open>
  \<open>Iterator::max_by_key\<close> returns the last of the elements with a maximal key, and nothing for an
  empty iterator.
\<close>

fun max_by_key_from :: "('a \<Rightarrow> nat) \<Rightarrow> 'a \<Rightarrow> 'a list \<Rightarrow> 'a" where
  "max_by_key_from f x [] = x"
| "max_by_key_from f x (y # ys) = max_by_key_from f (if f y < f x then x else y) ys"

fun max_by_key :: "('a \<Rightarrow> nat) \<Rightarrow> 'a list \<Rightarrow> 'a option" where
  "max_by_key f [] = None"
| "max_by_key f (x # xs) = Some (max_by_key_from f x xs)"

text \<open>\<open>iter.max().unwrap_or(0)\<close>\<close>

definition max_or_0 :: "nat list \<Rightarrow> nat" where
  "max_or_0 xs = foldr max xs 0"

lemma max_by_key_from_mem: "max_by_key_from f x xs \<in> insert x (set xs)"
  by (induction xs arbitrary: x) (simp_all, metis insert_iff)

lemma max_by_key_from_ge: "y \<in> insert x (set xs) \<Longrightarrow> f y \<le> f (max_by_key_from f x xs)"
proof (induction xs arbitrary: x y)
  case Nil
  then show ?case by simp
next
  case (Cons z zs)
  let ?w = "if f z < f x then x else z"
  have w: "f ?w \<le> f (max_by_key_from f ?w zs)" by (rule Cons.IH) simp
  show ?case
  proof (cases "y \<in> set zs")
    case True
    then show ?thesis using Cons.IH [of y ?w] by simp
  next
    case False
    with Cons.prems have "y = x \<or> y = z" by auto
    then have "f y \<le> f ?w" by auto
    then show ?thesis using w by (simp only: max_by_key_from.simps)
  qed
qed

lemma max_by_key_Some_mem: "max_by_key f xs = Some x \<Longrightarrow> x \<in> set xs"
  using max_by_key_from_mem [of f] by (cases xs) auto

lemma max_by_key_Some_ge: "max_by_key f xs = Some x \<Longrightarrow> y \<in> set xs \<Longrightarrow> f y \<le> f x"
  by (cases xs) (auto intro: max_by_key_from_ge)

lemma max_by_key_None_iff [simp]: "max_by_key f xs = None \<longleftrightarrow> xs = []"
  by (cases xs) auto

lemma max_or_0_ge: "x \<in> set xs \<Longrightarrow> x \<le> max_or_0 xs"
  unfolding max_or_0_def by (induction xs) auto

lemma max_or_0_le_iff: "max_or_0 xs \<le> n \<longleftrightarrow> (\<forall>x \<in> set xs. x \<le> n)"
  unfolding max_or_0_def by (induction xs) auto

lemma max_or_0_attained: "0 < t \<Longrightarrow> t \<le> max_or_0 xs \<longleftrightarrow> (\<exists>x \<in> set xs. t \<le> x)"
  unfolding max_or_0_def by (induction xs) (auto simp: le_max_iff_disj)

section \<open>Finite sets\<close>

declare fcard_fempty [simp]

lemma fcard_fsingleton [simp]: "fcard {|x|} = 1"
  by (simp add: fcard_finsert_if)

section \<open>Lists\<close>

text \<open>\<open>slice.swap(i, j)\<close> on indices in range; out of range it panics.\<close>

definition slice_swap :: "nat \<Rightarrow> nat \<Rightarrow> 'a list \<Rightarrow> 'a list may_panic" where
  "slice_swap i j xs =
     (if i < length xs \<and> j < length xs then Some (xs[i := xs ! j, j := xs ! i]) else None)"

lemma mset_slice_swap: "slice_swap i j xs = Some ys \<Longrightarrow> mset ys = mset xs"
  by (auto simp: slice_swap_def mset_swap split: if_splits)

lemma length_slice_swap: "slice_swap i j xs = Some ys \<Longrightarrow> length ys = length xs"
  by (auto simp: slice_swap_def split: if_splits)

lemma filter_less_nth:
  fixes xs :: "'a::linorder list"
  assumes "sorted xs" and "distinct xs" and "n < length xs"
  shows "filter (\<lambda>x. x < xs ! n) xs = take n xs" and "filter (\<lambda>x. xs ! n \<le> x) xs = drop n xs"
proof -
  have lt: "x < xs ! n" if "x \<in> set (take n xs)" for x
  proof -
    obtain i where "i < n" "x = xs ! i" using \<open>x \<in> set (take n xs)\<close> assms(3)
      by (auto simp: in_set_conv_nth)
    moreover have "xs ! i \<le> xs ! n" using assms(1,3) \<open>i < n\<close> by (simp add: sorted_nth_mono)
    ultimately show ?thesis using assms(2,3) by (simp add: nth_eq_iff_index_eq less_le)
  qed
  have ge: "xs ! n \<le> x" if "x \<in> set (drop n xs)" for x
  proof -
    obtain i where "i < length xs - n" "x = xs ! (n + i)"
      using \<open>x \<in> set (drop n xs)\<close> by (auto simp: in_set_conv_nth)
    then show ?thesis using assms(1) by (simp add: sorted_nth_mono)
  qed
  have 1: "filter (\<lambda>x. x < xs ! n) (take n xs @ drop n xs) = take n xs"
    using lt ge by (simp only: filter_append) (auto simp: filter_empty_conv not_less)
  have 2: "filter (\<lambda>x. xs ! n \<le> x) (take n xs @ drop n xs) = drop n xs"
    using lt ge by (simp only: filter_append) (auto simp: filter_empty_conv not_le)
  show "filter (\<lambda>x. x < xs ! n) xs = take n xs" using 1 by simp
  show "filter (\<lambda>x. xs ! n \<le> x) xs = drop n xs" using 2 by simp
qed

section \<open>Options\<close>

lemma option_bind_Some_iff [std_simps]:
  "Option.bind x f = Some y \<longleftrightarrow> (\<exists>a. x = Some a \<and> f a = Some y)"
  by (cases x) auto

lemma option_case_eq_iff:
  "(case x of None \<Rightarrow> a | Some y \<Rightarrow> f y) = c \<longleftrightarrow> (x = None \<and> a = c) \<or> (\<exists>y. x = Some y \<and> f y = c)"
  by (cases x) auto

lemma sum_case_eq_iff:
  "(case x of Inl y \<Rightarrow> f y | Inr z \<Rightarrow> g z) = c \<longleftrightarrow> (\<exists>y. x = Inl y \<and> f y = c) \<or> (\<exists>z. x = Inr z \<and> g z = c)"
  by (cases x) auto

section \<open>Strings\<close>

text \<open>\<open>str::as_bytes\<close>. A Rust \<open>String\<close> is the sequence of the bytes of its UTF-8 encoding, one \<open>char\<close> per byte.\<close>

definition as_bytes :: "string \<Rightarrow> bytes" where
  "as_bytes s = map of_char s"

lemma of_char_u8_inject [simp]: "of_char c = (of_char d :: u8) \<longleftrightarrow> c = d"
proof
  assume "of_char c = (of_char d :: u8)"
  then have "unat (of_nat (of_char c) :: u8) = unat (of_nat (of_char d) :: u8)"
    by (simp only: of_nat_of_char)
  moreover have "of_char e < (256 :: nat)" for e by (rule nat_of_char_less_256)
  ultimately have "of_char c = (of_char d :: nat)"
    by (simp only: unat_of_nat) (simp add: take_bit_eq_mod)
  then show "c = d" by simp
qed simp

lemma as_bytes_inject [simp]: "as_bytes s = as_bytes t \<longleftrightarrow> s = t"
  unfolding as_bytes_def by (rule inj_map_eq_map) (simp add: inj_def)

lemma as_bytes_append [simp]: "as_bytes (s @ t) = as_bytes s @ as_bytes t"
  by (simp add: as_bytes_def)

lemma as_bytes_Nil_iff [simp]: "as_bytes s = [] \<longleftrightarrow> s = []"
  by (simp add: as_bytes_def)

lemma length_as_bytes [simp]: "length (as_bytes s) = length s"
  by (simp add: as_bytes_def)

lemma of_char_in_as_bytes [simp]: "of_char c \<in> set (as_bytes s) \<longleftrightarrow> c \<in> set s"
  unfolding as_bytes_def by (auto simp: image_iff)

end
