(* ===== verification/Residues.thy ===== *)
theory Residues
  imports Prelude
begin

text \<open>
  Arithmetic modulo a prime \<open>p\<close> with \<open>p mod 4 = 3\<close>, as far as the sloth function of
  \<^verbatim>\<open>src/unicorn.rs\<close> needs it: Fermat's theorem, Euler's dichotomy, and that raising to
  \<open>(p + 1) div 4\<close> is a square root up to sign. Nothing here models code.
\<close>

section \<open>Primes\<close>

definition prime_modulus :: "int \<Rightarrow> bool" where
  "prime_modulus p \<longleftrightarrow> 1 < p \<and> (\<forall>d \<in> {2..<p}. \<not> d dvd p)"

lemma prime_modulus_gt_1: "prime_modulus p \<Longrightarrow> 1 < p"
  by (simp add: prime_modulus_def)

lemma prime_modulus_coprime:
  assumes "prime_modulus p" and "\<not> p dvd a"
  shows "coprime p a"
proof (rule ccontr)
  assume "\<not> coprime p a"
  then have ne1: "gcd p a \<noteq> 1" by (simp add: coprime_iff_gcd_eq_1)
  have p: "1 < p" using assms(1) by (rule prime_modulus_gt_1)
  have pos: "0 < gcd p a" using p by simp
  have "gcd p a \<noteq> p" using assms(2) by (metis gcd_dvd2)
  moreover have "gcd p a \<le> p" using p by (simp add: zdvd_imp_le)
  moreover have "2 \<le> gcd p a" using ne1 pos by linarith
  ultimately have "gcd p a \<in> {2..<p}" by simp
  then show False using assms(1) unfolding prime_modulus_def by (metis gcd_dvd1)
qed

lemma prime_modulus_dvd_mult:
  assumes "prime_modulus p" and "p dvd a * b"
  shows "p dvd a \<or> p dvd b"
  using prime_modulus_coprime [OF assms(1), of a] assms(2)
  by (metis coprime_dvd_mult_right_iff)

lemma prime_modulus_dvd_power:
  assumes "prime_modulus p" and "p dvd a ^ n"
  shows "p dvd a"
  using assms(2)
proof (induction n)
  case 0
  then show ?case using prime_modulus_gt_1 [OF assms(1)] by simp
next
  case (Suc n)
  then show ?case using prime_modulus_dvd_mult [OF assms(1), of a "a ^ n"] by auto
qed

lemma prime_modulus_dvd_prod:
  assumes "prime_modulus p" and "finite A" and "p dvd prod f A"
  shows "\<exists>x \<in> A. p dvd f x"
  using assms(2,3)
proof (induction A rule: finite_induct)
  case empty
  then show ?case using prime_modulus_gt_1 [OF assms(1)] by simp
next
  case (insert x A)
  then show ?case using prime_modulus_dvd_mult [OF assms(1), of "f x" "prod f A"] by auto
qed

section \<open>Fermat's theorem\<close>

lemma mult_mod_inj_on:
  assumes p: "prime_modulus p" and a: "\<not> p dvd a"
  shows "inj_on (\<lambda>x. a * x mod p) {1..<p}"
proof (rule inj_onI)
  fix x y assume x: "x \<in> {1..<p}" and y: "y \<in> {1..<p}" and eq: "a * x mod p = a * y mod p"
  then have "p dvd a * (x - y)" by (simp add: mod_eq_dvd_iff algebra_simps)
  then have "p dvd x - y" using prime_modulus_dvd_mult [OF p] a by blast
  moreover have "\<bar>x - y\<bar> < p" using x y by auto
  ultimately show "x = y" using zdvd_not_zless [of "\<bar>x - y\<bar>" p] by auto
qed

lemma mult_mod_image:
  assumes p: "prime_modulus p" and a: "\<not> p dvd a"
  shows "(\<lambda>x. a * x mod p) ` {1..<p} = {1..<p}"
proof (rule card_subset_eq)
  show "(\<lambda>x. a * x mod p) ` {1..<p} \<subseteq> {1..<p}"
  proof (rule image_subsetI)
    fix x assume x: "x \<in> {1..<p}"
    have "\<not> p dvd x" using x zdvd_not_zless [of x p] by auto
    then have "\<not> p dvd a * x" using prime_modulus_dvd_mult [OF p, of a x] a by blast
    then have ne: "a * x mod p \<noteq> 0" by (simp only: dvd_eq_mod_eq_0 not_False_eq_True)
    have g: "0 < p" using prime_modulus_gt_1 [OF p] by linarith
    have "0 \<le> a * x mod p" by (rule pos_mod_sign [OF g])
    moreover have "a * x mod p < p" by (rule pos_mod_bound [OF g])
    ultimately show "a * x mod p \<in> {1..<p}" using ne by simp
  qed
next
  show "card ((\<lambda>x. a * x mod p) ` {1..<p}) = card {1..<p}"
    by (rule card_image [OF mult_mod_inj_on [OF assms]])
qed simp

theorem fermat_int:
  assumes p: "prime_modulus p" and a: "\<not> p dvd a"
  shows "a ^ nat (p - 1) mod p = 1"
proof -
  let ?S = "{1..<p}" and ?P = "\<Prod>x \<in> {1..<p}. x"
  have "?P = (\<Prod>x \<in> ?S. a * x mod p)"
    using mult_mod_image [OF assms] prod.reindex [OF mult_mod_inj_on [OF assms], of "\<lambda>x. x"]
    by simp
  then have "?P mod p = (\<Prod>x \<in> ?S. a * x) mod p" by (simp add: mod_prod_eq)
  also have "(\<Prod>x \<in> ?S. a * x) = a ^ nat (p - 1) * ?P" by (simp add: prod.distrib)
  finally have "p dvd (a ^ nat (p - 1) - 1) * ?P"
    by (simp add: mod_eq_dvd_iff algebra_simps dvd_diff_commute)
  moreover have "\<not> p dvd ?P"
  proof
    assume "p dvd ?P"
    then obtain x where "x \<in> ?S" "p dvd x" using prime_modulus_dvd_prod [OF p] by blast
    then show False using zdvd_not_zless [of x p] by auto
  qed
  ultimately have "p dvd a ^ nat (p - 1) - 1" using prime_modulus_dvd_mult [OF p] by blast
  then have "a ^ nat (p - 1) mod p = 1 mod p" by (simp add: mod_eq_dvd_iff)
  then show ?thesis using prime_modulus_gt_1 [OF p] by simp
qed

section \<open>Quadratic residues\<close>

text \<open>Euler's criterion, as an executable test.\<close>

definition residue :: "int \<Rightarrow> int \<Rightarrow> bool" where
  "residue p a \<longleftrightarrow> a ^ nat ((p - 1) div 2) mod p = 1"

lemma euler_dichotomy:
  assumes p: "prime_modulus p" "odd p" and a: "\<not> p dvd a" and "\<not> residue p a"
  shows "p dvd a ^ nat ((p - 1) div 2) + 1"
proof -
  let ?h = "a ^ nat ((p - 1) div 2)"
  have g: "1 < p" using p(1) by (rule prime_modulus_gt_1)
  have "nat (p - 1) = nat ((p - 1) div 2) + nat ((p - 1) div 2)"
    using p(2) g by (auto elim!: oddE simp: nat_add_distrib [symmetric])
  then have "?h * ?h mod p = 1" using fermat_int [OF p(1) a] by (simp add: power_add)
  then have "?h * ?h mod p = 1 mod p" using g by simp
  then have "p dvd (?h - 1) * (?h + 1)" by (simp add: mod_eq_dvd_iff algebra_simps)
  then have "p dvd ?h - 1 \<or> p dvd ?h + 1" by (rule prime_modulus_dvd_mult [OF p(1)])
  moreover have "\<not> p dvd ?h - 1"
    using assms(4) g by (simp add: residue_def mod_eq_dvd_iff [symmetric])
  ultimately show ?thesis by blast
qed

text \<open>The exponent \<open>(p + 1) div 4\<close> gives a square root of \<open>a\<close> or of \<open>- a\<close>.\<close>

lemma sqrt_exponent_square:
  assumes p: "prime_modulus p" "p mod 4 = 3" and a: "\<not> p dvd a"
  shows "(a ^ nat ((p + 1) div 4))\<^sup>2 mod p = (if residue p a then a else - a) mod p"
proof -
  let ?h = "a ^ nat ((p - 1) div 2)"
  have odd: "odd p" using p(2) by presburger
  define k where "k = p div 4"
  have k: "p = 4 * k + 3" "0 \<le> k"
    using p(2) prime_modulus_gt_1 [OF p(1)] unfolding k_def by presburger+
  have "(p + 1) div 4 = k + 1" "(p - 1) div 2 = 2 * k + 1" using k(1) by simp_all
  then have "2 * nat ((p + 1) div 4) = Suc (nat ((p - 1) div 2))"
    using k(2) by (simp add: nat_add_distrib nat_mult_distrib)
  then have sq: "(a ^ nat ((p + 1) div 4))\<^sup>2 = a * ?h"
    by (simp add: power_mult [symmetric] mult.commute)
  show ?thesis
  proof (cases "residue p a")
    case True
    then have "?h mod p = 1" by (simp add: residue_def)
    then have "a * ?h mod p = a * 1 mod p" by (metis mod_mult_right_eq)
    then show ?thesis using True by (simp add: sq)
  next
    case False
    then have "p dvd ?h + 1" by (rule euler_dichotomy [OF p(1) odd a])
    then have "p dvd a * (?h + 1)" by (rule dvd_mult)
    then have "p dvd a * ?h - - a" by (simp add: distrib_left)
    then have "a * ?h mod p = - a mod p" by (simp only: mod_eq_dvd_iff)
    then show ?thesis using False by (simp add: sq)
  qed
qed

end
