(* ===== verification/Interfaces.thy ===== *)
theory Interfaces
  imports Prelude
begin

text \<open>
  The data the nodes exchange and store: the blockchain types (blocks, transactions, assets, as
  the frozen copy in \<^verbatim>\<open>src/upgrade/frozen_last_version.rs\<close> declares them) and the structs of
  \<^verbatim>\<open>src/interfaces.rs\<close>. A field name that two structs share carries a prefix here.
  \<open>OutPoint\<close> and \<open>SocketAddr\<close> are instances of \<open>linorder\<close> with the order of the language, because
  the UTXO set and the lists of miners and users are iterated in that order.
\<close>

section \<open>Addresses\<close>

text \<open>
  \<open>std::net::SocketAddr\<close>: the sources compare, order and copy it. V4 addresses come before V6
  ones, then the address decides, then the port.
\<close>

datatype SocketAddr = V4 u32 "16 word" | V6 "128 word" "16 word"

instantiation SocketAddr :: linorder
begin

fun less_SocketAddr :: "SocketAddr \<Rightarrow> SocketAddr \<Rightarrow> bool" where
  "less_SocketAddr (V4 a p) (V4 b q) \<longleftrightarrow> a < b \<or> a = b \<and> p < q"
| "less_SocketAddr (V6 a p) (V6 b q) \<longleftrightarrow> a < b \<or> a = b \<and> p < q"
| "less_SocketAddr (V4 _ _) (V6 _ _) \<longleftrightarrow> True"
| "less_SocketAddr (V6 _ _) (V4 _ _) \<longleftrightarrow> False"

definition less_eq_SocketAddr :: "SocketAddr \<Rightarrow> SocketAddr \<Rightarrow> bool" where
  "less_eq_SocketAddr a b \<longleftrightarrow> a = b \<or> a < b"

instance
proof
  fix x y z :: SocketAddr
  show "x < y \<longleftrightarrow> x \<le> y \<and> \<not> y \<le> x" by (cases x; cases y) (auto simp: less_eq_SocketAddr_def)
  show "x \<le> x" by (simp add: less_eq_SocketAddr_def)
  show "x \<le> y \<Longrightarrow> y \<le> z \<Longrightarrow> x \<le> z" by (cases x; cases y; cases z) (auto simp: less_eq_SocketAddr_def)
  show "x \<le> y \<Longrightarrow> y \<le> x \<Longrightarrow> x = y" by (cases x; cases y) (auto simp: less_eq_SocketAddr_def)
  show "x \<le> y \<or> y \<le> x" by (cases x; cases y) (auto simp: less_eq_SocketAddr_def)
qed

end

section \<open>Assets\<close>

type_synonym i32 = int

text \<open>\<open>TokenAmount(pub u64)\<close>\<close>

type_synonym TokenAmount = u64

record ReceiptAsset =
  receipt_amount :: u64
  drs_tx_hash :: "string option"
  metadata :: "string option"

record DataAsset =
  data_bytes :: bytes
  data_amount :: u64

datatype Asset = Token TokenAmount | Data DataAsset | Receipt ReceiptAsset

record AssetValues =
  tokens :: TokenAmount
  receipts :: "(string, u64) fmap"

section \<open>Transactions\<close>

record OutPoint =
  t_hash :: string
  out_n :: i32

instantiation OutPoint_ext :: (linorder) linorder
begin

definition less_OutPoint_ext :: "'a OutPoint_ext \<Rightarrow> 'a OutPoint_ext \<Rightarrow> bool" where
  "less_OutPoint_ext x y \<longleftrightarrow>
     t_hash x < t_hash y \<or> t_hash x = t_hash y \<and>
       (out_n x < out_n y \<or> out_n x = out_n y \<and> OutPoint.more x < OutPoint.more y)"

definition less_eq_OutPoint_ext :: "'a OutPoint_ext \<Rightarrow> 'a OutPoint_ext \<Rightarrow> bool" where
  "less_eq_OutPoint_ext x y \<longleftrightarrow> x = y \<or> x < y"

instance
  by standard
    (auto simp: less_OutPoint_ext_def less_eq_OutPoint_ext_def intro: OutPoint.equality)

end

datatype OpCodes =
    OP_DUP | OP_HASH256 | OP_EQUALVERIFY | OP_CHECKSIG | OP_CREATE | OP_HASH256_V0
  | OP_HASH256_TEMP

datatype StackEntry =
    Op OpCodes
  | Signature bytes
  | PubKey bytes
  | PubKeyHash string
  | Num nat
  | Bytes string

record Script =
  stack :: "StackEntry list"

record TxIn =
  previous_out :: "OutPoint option"
  script_signature :: Script

record TxOut =
  txout_value :: Asset
  locktime :: u64
  drs_block_hash :: "string option"
  script_public_key :: "string option"

record DruidExpectation =
  exp_from :: string
  exp_to :: string
  exp_asset :: Asset

record DdeValues =
  druid :: string
  dde_participants :: nat
  expectations :: "DruidExpectation list"

record Transaction =
  inputs :: "TxIn list"
  outputs :: "TxOut list"
  tx_version :: nat
  druid_info :: "DdeValues option"

type_synonym TxMap = "(string, Transaction) fmap"
type_synonym UtxoSet = "(OutPoint, TxOut) fmap"

record OutPointData =
  od_out_point :: OutPoint
  od_value :: Asset

type_synonym AddressesWithOutPoints = "(string, OutPointData list) fmap"

section \<open>Blocks\<close>

record BlockHeader =
  header_version :: u32
  bits :: nat
  nonce_and_mining_tx_hash :: "bytes \<times> string"
  b_num :: u64
  seed_value :: bytes
  previous_hash :: "string option"
  txs_merkle_root_and_hash :: "string \<times> string"

record Block =
  header :: BlockHeader
  transactions :: "string list"

record BlockStoredInfo =
  block_hash :: string
  block_num :: u64
  stored_nonce :: bytes
  mining_transactions :: TxMap
  stored_shutdown :: bool

record WinningPoWInfo =
  pow_nonce :: bytes
  mining_tx :: "string \<times> Transaction"
  p_value :: u8
  d_value :: u8

record MinedBlockExtraInfo =
  mined_shutdown :: bool

section \<open>The blockchain library\<close>

text \<open>
  The functions of the \<open>naom\<close> crate that the nodes call, as parameters. \<open>tx_outs_of\<close> is
  \<open>get_tx_out_with_out_point\<close> (and its cloning variant), \<open>inputs_of\<close> is
  \<open>get_inputs_previous_out_point\<close>; the token operations are those of \<open>TokenAmount\<close>.
\<close>

record naom_ext =
  tx_outs_of :: "(string \<times> Transaction) list \<Rightarrow> (OutPoint \<times> TxOut) list"
  inputs_of :: "Transaction list \<Rightarrow> OutPoint list"
  with_fixed_hash :: "Asset \<Rightarrow> OutPoint \<Rightarrow> Asset"
  update_add :: "AssetValues \<Rightarrow> Asset \<Rightarrow> AssetValues"
  token_amount :: "Asset \<Rightarrow> TokenAmount"
  token_sum :: "TokenAmount list \<Rightarrow> TokenAmount"
  token_add :: "TokenAmount \<Rightarrow> TokenAmount \<Rightarrow> TokenAmount"
  token_div :: "TokenAmount \<Rightarrow> u64 \<Rightarrow> TokenAmount may_panic"
  TOTAL_TOKENS :: u64
  Block_new :: Block
  set_txs_merkle_root_and_hash :: "Block \<Rightarrow> Block"

definition AssetValues_default :: AssetValues where
  "AssetValues_default = \<lparr>tokens = 0, receipts = fmempty\<rparr>"

section \<open>Stored blockchain items\<close>

datatype BlockchainItemMeta =
    BlockMeta (meta_block_num: u64) (meta_tx_len: u32)
  | TxMeta (meta_block_num: u64) (meta_tx_num: u32)

record BlockchainItem =
  item_version :: u32
  item_meta :: BlockchainItemMeta
  item_key :: bytes
  item_data :: bytes
  item_data_json :: bytes

definition blockchain_item_is_empty :: "BlockchainItem \<Rightarrow> bool" where
  "blockchain_item_is_empty item \<longleftrightarrow> item_key item = []"

section \<open>Keys of consensus proposals\<close>

record RaftContextKey =
  key_proposer_id :: u64
  proposer_run :: u64
  proposal_id :: u64

instantiation RaftContextKey_ext :: (linorder) linorder
begin

definition less_RaftContextKey_ext :: "'a RaftContextKey_ext \<Rightarrow> 'a RaftContextKey_ext \<Rightarrow> bool" where
  "less_RaftContextKey_ext x y \<longleftrightarrow>
     key_proposer_id x < key_proposer_id y \<or> key_proposer_id x = key_proposer_id y \<and>
       (proposer_run x < proposer_run y \<or> proposer_run x = proposer_run y \<and>
         (proposal_id x < proposal_id y \<or> proposal_id x = proposal_id y \<and>
           RaftContextKey.more x < RaftContextKey.more y))"

definition less_eq_RaftContextKey_ext :: "'a RaftContextKey_ext \<Rightarrow> 'a RaftContextKey_ext \<Rightarrow> bool" where
  "less_eq_RaftContextKey_ext x y \<longleftrightarrow> x = y \<or> x < y"

instance
  by standard
    (auto simp: less_RaftContextKey_ext_def less_eq_RaftContextKey_ext_def
       intro: RaftContextKey.equality)

end

end
