(* ===== verification/Unicorn.thy ===== *)
theory Unicorn
  imports Residues Interfaces
begin

text \<open>
  The verifiable delay function of \<^verbatim>\<open>src/unicorn.rs\<close>. \<open>rug::Integer\<close> is \<open>int\<close>:
  \<open>div_rem_floor\<close> is \<open>div\<close>/\<open>mod\<close>, \<open>^=\<close> is \<open>XOR\<close> on two's complement, \<open>pow_mod\<close> is the
  power reduced into \<open>0..<\<bar>m\<bar>\<close>. Hashing, serialisation, number parsing and printing and the
  primality test are third-party code and stay parameters (\<open>unicorn_ext\<close>).
  A loop that does not end and a panic are both \<open>None\<close>.
\<close>

unbundle bit_operations_syntax

section \<open>Model\<close>

datatype IsPrime = No | Probably | Yes

record unicorn_ext =
  is_probably_prime :: "int \<Rightarrow> u32 \<Rightarrow> IsPrime"
  to_digits :: "int \<Rightarrow> bytes"
  from_str_radix :: "string \<Rightarrow> nat \<Rightarrow> int option"
  hex_encode :: "bytes \<Rightarrow> string"
  sha3_256_digest :: "bytes \<Rightarrow> bytes"
  serialize_strings :: "string list \<Rightarrow> bytes"
  serialize_addrs :: "SocketAddr list \<Rightarrow> bytes"
  serialize_string_set :: "string fset \<Rightarrow> bytes"
  serialize_u64_opt :: "u64 option \<Rightarrow> bytes"

definition MR_PRIME_ITERS :: u32 where
  "MR_PRIME_ITERS = 15"

record UnicornFixedParam =
  fixed_modulus :: string
  fixed_iterations :: u64
  fixed_security :: u32

record Unicorn =
  iterations :: u64
  security_level :: u32
  seed :: int
  modulus :: int

record UnicornInfo =
  unicorn :: Unicorn
  g_value :: string
  witness :: int

text \<open>\<open>Integer::to_u64\<close>\<close>

definition to_u64 :: "int \<Rightarrow> u64 option" where
  "to_u64 i = (if 0 \<le> i \<and> i < 2 ^ 64 then Some (word_of_int i) else None)"

definition pow_mod :: "int \<Rightarrow> nat \<Rightarrow> int \<Rightarrow> int may_panic" where
  "pow_mod w e m = (if m = 0 then None else Some (w ^ e mod \<bar>m\<bar>))"

definition div_rem_floor :: "int \<Rightarrow> int \<Rightarrow> int may_panic" where
  "div_rem_floor a m = (if m = 0 then None else Some (a mod m))"

definition construct_seed ::
    "unicorn_ext \<Rightarrow> string list \<Rightarrow> SocketAddr list \<Rightarrow> string fset \<Rightarrow> int may_panic" where
  "construct_seed E tx_inputs participant_list last_winning_hashes =
     (let soot = hex_encode E (sha3_256_digest E (serialize_strings E tx_inputs));
          soma = hex_encode E (sha3_256_digest E (serialize_addrs E participant_list));
          soms = hex_encode E (sha3_256_digest E (serialize_string_set E last_winning_hashes));
          final_seed = hex_encode E (sha3_256_digest E (serialize_strings E [soot, soma, soms]))
      in from_str_radix E final_seed 16)"

text \<open>The seed setter returns the commitment value.\<close>

definition set_seed :: "unicorn_ext \<Rightarrow> Unicorn \<Rightarrow> int \<Rightarrow> Unicorn \<times> string" where
  "set_seed E self sd =
     (let u = hex_encode E (sha3_256_digest E (serialize_u64_opt E (to_u64 sd)));
          c = hex_encode E (sha3_256_digest E (as_bytes u))
      in (self\<lparr>seed := sd\<rparr>, c))"

definition is_valid_modulus :: "unicorn_ext \<Rightarrow> Unicorn \<Rightarrow> bool" where
  "is_valid_modulus E self \<longleftrightarrow>
     uint ((2 :: u64) ^ unat (2 * security_level self)) \<le> modulus self \<and>
     is_probably_prime E (modulus self) MR_PRIME_ITERS \<noteq> No"

partial_function (option) xor_loop :: "int \<Rightarrow> int \<Rightarrow> int option" where
  "xor_loop m w = (if m \<le> w \<or> w = 0 then xor_loop m (w XOR 1) else Some w)"

definition xor_for_overflow :: "Unicorn \<Rightarrow> int \<Rightarrow> int may_panic" where
  "xor_for_overflow self w = xor_loop (modulus self) (w XOR 1)"

fun eval_loop :: "Unicorn \<Rightarrow> nat \<Rightarrow> nat \<Rightarrow> int \<Rightarrow> int may_panic" where
  "eval_loop self ex 0 w = Some w"
| "eval_loop self ex (Suc l) w =
     do { w \<leftarrow> xor_for_overflow self w;
          w \<leftarrow> pow_mod w ex (modulus self);
          eval_loop self ex l w }"

definition eval :: "unicorn_ext \<Rightarrow> Unicorn \<Rightarrow> (int \<times> string) option may_panic" where
  "eval E self =
     (if \<not> is_valid_modulus E self then Some None
      else do {
        w \<leftarrow> div_rem_floor (seed self) (modulus self);
        w \<leftarrow> eval_loop self (nat ((modulus self + 1) div 4)) (unat (iterations self)) w;
        let g = hex_encode E (to_digits E w);
        Some (Some (w, g)) })"

fun verify_loop :: "Unicorn \<Rightarrow> nat \<Rightarrow> int \<Rightarrow> int may_panic" where
  "verify_loop self 0 w = Some w"
| "verify_loop self (Suc l) w =
     do { w \<leftarrow> pow_mod w 2 (modulus self);
          w \<leftarrow> div_rem_floor (- w) (modulus self);
          w \<leftarrow> xor_for_overflow self w;
          verify_loop self l w }"

definition verify :: "Unicorn \<Rightarrow> int \<Rightarrow> int \<Rightarrow> bool may_panic" where
  "verify self sd wit =
     do { w \<leftarrow> verify_loop self (unat (iterations self)) wit;
          s \<leftarrow> div_rem_floor sd (modulus self);
          Some (w = s) }"

definition construct_unicorn ::
    "unicorn_ext \<Rightarrow> int \<Rightarrow> UnicornFixedParam \<Rightarrow> UnicornInfo may_panic" where
  "construct_unicorn E sd fixed_params =
     do { md \<leftarrow> from_str_radix E (fixed_modulus fixed_params) 10;
          let u = \<lparr>iterations = fixed_iterations fixed_params,
                   security_level = fixed_security fixed_params, seed = sd, modulus = md\<rparr>;
          r \<leftarrow> eval E u;
          case r of
            Some (w, g) \<Rightarrow> Some \<lparr>unicorn = u, g_value = g, witness = w\<rparr>
          | None \<Rightarrow> None }"

section \<open>The permutation against overflow\<close>

text \<open>What \<open>xor_for_overflow\<close> computes on \<open>0..<p\<close> for an odd modulus.\<close>

definition flip :: "int \<Rightarrow> int \<Rightarrow> int" where
  "flip p w = (if w \<le> 1 then 1 else if w = p - 1 then p - 1
     else if even w then w + 1 else w - 1)"

lemma xor_1: "(w :: int) XOR 1 = (if even w then w + 1 else w - 1)"
  by (simp add: xor_one_eq)

lemma xor_for_overflow_flip:
  assumes "odd (modulus u)" and "3 \<le> modulus u" and "0 \<le> w" and "w < modulus u"
  shows "xor_for_overflow u w = Some (flip (modulus u) w)"
proof -
  let ?p = "modulus u"
  consider "w = 0" | "w = 1" | "w = ?p - 1" "1 < w" | "1 < w" "w < ?p - 1"
    using assms(3,4) by linarith
  then show ?thesis
    by cases
      (use assms in \<open>auto simp: xor_for_overflow_def flip_def xor_1 xor_loop.simps [of ?p]
         xor_loop.simps [of ?p 0] elim!: evenE oddE\<close>)
qed

lemma flip_range: "3 \<le> p \<Longrightarrow> odd p \<Longrightarrow> w < p \<Longrightarrow> 0 < flip p w \<and> flip p w < p"
  by (auto simp: flip_def elim!: evenE oddE)

lemma flip_flip: "3 \<le> p \<Longrightarrow> odd p \<Longrightarrow> 0 < w \<Longrightarrow> w < p \<Longrightarrow> flip p (flip p w) = w"
  by (auto simp: flip_def elim!: oddE)

lemma flip_neg: "odd p \<Longrightarrow> 0 < w \<Longrightarrow> w < p \<Longrightarrow> flip p (p - w) = p - flip p w"
  by (auto simp: flip_def)

lemma flip_inj:
  assumes "3 \<le> p" "odd p" "0 < v" "v < p" "0 < w" "w < p" "flip p v = flip p w"
  shows "v = w"
  by (metis flip_flip assms)

section \<open>One round, forwards and backwards\<close>

text \<open>The moduli the paper asks for.\<close>

definition sloth_modulus :: "int \<Rightarrow> bool" where
  "sloth_modulus p \<longleftrightarrow> prime_modulus p \<and> p mod 4 = 3"

definition sloth :: "int \<Rightarrow> int \<Rightarrow> int" where
  "sloth p w = flip p w ^ nat ((p + 1) div 4) mod p"

definition unsloth :: "int \<Rightarrow> int \<Rightarrow> int" where
  "unsloth p w = flip p (- (w\<^sup>2 mod p) mod p)"

lemma sloth_modulusD:
  assumes "sloth_modulus p"
  shows "prime_modulus p" "p mod 4 = 3" "odd p" "3 \<le> p"
proof -
  show "prime_modulus p" and 3: "p mod 4 = 3" using assms by (simp_all add: sloth_modulus_def)
  then have "1 < p" by (simp add: prime_modulus_gt_1)
  then show "odd p" "3 \<le> p" using 3 by presburger+
qed

lemma in_range_not_dvd: "0 < w \<Longrightarrow> w < p \<Longrightarrow> \<not> p dvd (w :: int)"
  using zdvd_not_zless by blast

lemma sloth_range:
  assumes "sloth_modulus p" and "w < p"
  shows "0 < sloth p w" "sloth p w < p"
proof -
  note p = sloth_modulusD [OF assms(1)]
  have "0 < flip p w \<and> flip p w < p" by (rule flip_range [OF p(4,3) assms(2)])
  then have "\<not> p dvd flip p w" by (simp add: in_range_not_dvd)
  then have "\<not> p dvd flip p w ^ nat ((p + 1) div 4)"
    using prime_modulus_dvd_power [OF p(1)] by blast
  then have "sloth p w \<noteq> 0" unfolding sloth_def dvd_eq_mod_eq_0 .
  moreover have "0 \<le> sloth p w" and "sloth p w < p" using p(4) by (simp_all add: sloth_def)
  ultimately show "0 < sloth p w" "sloth p w < p" by simp_all
qed

lemma square_neg_range:
  assumes "sloth_modulus p" and "0 < w" and "w < p"
  shows "0 < - (w\<^sup>2 mod p) mod p" "- (w\<^sup>2 mod p) mod p < p"
proof -
  note p = sloth_modulusD [OF assms(1)]
  have "\<not> p dvd w\<^sup>2"
    using prime_modulus_dvd_power [OF p(1)] in_range_not_dvd [OF assms(2,3)] by blast
  then have "\<not> p dvd - (w\<^sup>2 mod p)" by (simp add: dvd_mod_iff)
  then have "- (w\<^sup>2 mod p) mod p \<noteq> 0" by (simp only: dvd_eq_mod_eq_0 not_False_eq_True)
  moreover have "0 \<le> - (w\<^sup>2 mod p) mod p" using p(4) by simp
  ultimately show "0 < - (w\<^sup>2 mod p) mod p" by linarith
  show "- (w\<^sup>2 mod p) mod p < p" using p(4) by simp
qed

lemma unsloth_range:
  assumes "sloth_modulus p" and "0 < w" and "w < p"
  shows "0 < unsloth p w" "unsloth p w < p"
  using flip_range [of p "- (w\<^sup>2 mod p) mod p"] square_neg_range [OF assms]
    sloth_modulusD [OF assms(1)] by (simp_all add: unsloth_def)

lemma unsloth_neg: "unsloth p (p - w) = unsloth p w"
proof -
  have "p dvd (p - w)\<^sup>2 - w\<^sup>2" by (simp add: power2_eq_square algebra_simps)
  then have "(p - w)\<^sup>2 mod p = w\<^sup>2 mod p" by (simp only: mod_eq_dvd_iff)
  then show ?thesis by (simp add: unsloth_def)
qed

text \<open>A backward round undoes a forward round exactly on the non-residues, and up to sign else.\<close>

lemma unsloth_sloth:
  assumes "sloth_modulus p" and "0 < w" and "w < p"
  shows "unsloth p (sloth p w) = (if residue p (flip p w) then p - w else w)"
proof -
  note p = sloth_modulusD [OF assms(1)]
  let ?x = "flip p w"
  have x: "0 < ?x" "?x < p" using flip_range [OF p(4,3) assms(3)] by simp_all
  have "(sloth p w)\<^sup>2 mod p = (?x ^ nat ((p + 1) div 4))\<^sup>2 mod p"
    by (simp add: sloth_def power_mod)
  also have "\<dots> = (if residue p ?x then ?x else - ?x) mod p"
    by (rule sqrt_exponent_square [OF p(1,2) in_range_not_dvd [OF x]])
  finally have "unsloth p (sloth p w) = flip p ((if residue p ?x then - ?x else ?x) mod p)"
    by (simp add: unsloth_def mod_minus_eq)
  moreover have "- ?x mod p = p - ?x" using x by (simp add: zmod_zminus1_eq_if)
  moreover have "flip p (p - ?x) = p - w"
    using flip_neg [OF p(3) x] flip_flip [OF p(4,3) assms(2,3)] by simp
  ultimately show ?thesis using x flip_flip [OF p(4,3) assms(2,3)] by simp
qed

lemma unsloth_sloth_funpow:
  assumes "sloth_modulus p" and "0 < w" and "w < p"
  shows "(unsloth p ^^ Suc l) ((sloth p ^^ Suc l) w) = unsloth p (sloth p w)"
  using assms(2,3)
proof (induction l arbitrary: w)
  case 0
  then show ?case by simp
next
  case (Suc l)
  let ?v = "sloth p w"
  have v: "0 < ?v" "?v < p" using sloth_range [OF assms(1)] Suc.prems by simp_all
  have "(unsloth p ^^ Suc (Suc l)) ((sloth p ^^ Suc (Suc l)) w)
      = unsloth p ((unsloth p ^^ Suc l) ((sloth p ^^ Suc l) ?v))"
    by (simp add: funpow_swap1)
  also have "\<dots> = unsloth p (unsloth p (sloth p ?v))" by (simp only: Suc.IH [OF v])
  also have "\<dots> = unsloth p ?v" by (simp add: unsloth_sloth [OF assms(1) v] unsloth_neg)
  finally show ?case .
qed

section \<open>The loops\<close>

lemma eval_loop_sloth:
  assumes "sloth_modulus (modulus u)" and "0 \<le> w" and "w < modulus u"
  shows "eval_loop u (nat ((modulus u + 1) div 4)) l w = Some ((sloth (modulus u) ^^ l) w)"
  using assms(2,3)
proof (induction l arbitrary: w)
  case 0
  then show ?case by simp
next
  case (Suc l)
  note p = sloth_modulusD [OF assms(1)]
  have v: "0 \<le> sloth (modulus u) w" "sloth (modulus u) w < modulus u"
    using sloth_range [OF assms(1) Suc.prems(2)] by simp_all
  show ?case
    using p(4) Suc.prems Suc.IH [OF v]
    by (simp add: xor_for_overflow_flip [OF p(3,4)] pow_mod_def sloth_def [symmetric] funpow_swap1)
qed

lemma verify_loop_unsloth:
  assumes "odd (modulus u)" and "3 \<le> modulus u"
  shows "verify_loop u l w = Some ((unsloth (modulus u) ^^ l) w)"
proof (induction l arbitrary: w)
  case 0
  then show ?case by simp
next
  case (Suc l)
  have "xor_for_overflow u (- (w\<^sup>2 mod modulus u) mod modulus u)
      = Some (unsloth (modulus u) w)"
    using assms by (simp add: unsloth_def xor_for_overflow_flip)
  then show ?case
    using assms(2) by (simp add: pow_mod_def div_rem_floor_def Suc.IH funpow_swap1)
qed

section \<open>Witnesses are unique up to sign\<close>

lemma neg_square_not_square:
  assumes "sloth_modulus p" and "0 < v" and "v < p"
  shows "- (v\<^sup>2) mod p \<noteq> w\<^sup>2 mod p"
proof
  assume eq: "- (v\<^sup>2) mod p = w\<^sup>2 mod p"
  note p = sloth_modulusD [OF assms(1)]
  let ?h = "nat ((p - 1) div 2)"
  define k where "k = p div 4"
  have k: "p = 4 * k + 3" "0 \<le> k" using p(2,4) unfolding k_def by presburger+
  have "(p - 1) div 2 = 2 * k + 1" using k(1) by simp
  then have h: "odd ?h" "2 * ?h = nat (p - 1)" using k by (simp_all add: even_nat_iff)
  have v: "\<not> p dvd v" by (rule in_range_not_dvd [OF assms(2,3)])
  then have "\<not> p dvd - (v\<^sup>2)" using prime_modulus_dvd_power [OF p(1), of v 2] by auto
  then have "\<not> p dvd w\<^sup>2" using eq by (metis dvd_eq_mod_eq_0)
  then have w: "\<not> p dvd w" by (auto simp: power2_eq_square)
  have square: "x ^ (2 * ?h) mod p = 1" if "\<not> p dvd x" for x
    using fermat_int [OF p(1) that] h(2) by simp
  have "(- (v\<^sup>2)) ^ ?h mod p = (w\<^sup>2) ^ ?h mod p" by (metis eq power_mod)
  then have "(- (v ^ (2 * ?h))) mod p = 1"
    using square [OF w] h(1) by (simp add: power_mult [symmetric] power_minus_odd)
  then have "p - 1 = 1"
    using square [OF v] p(4) by (simp add: zmod_zminus1_eq_if)
  then show False using p(4) by simp
qed

lemma unsloth_eq_imp:
  assumes "sloth_modulus p" and v: "0 < v" "v < p" and w: "0 < w" "w < p"
    and eq: "unsloth p v = unsloth p w"
  shows "w = v \<or> w = p - v"
proof -
  note p = sloth_modulusD [OF assms(1)]
  have "- (v\<^sup>2 mod p) mod p = - (w\<^sup>2 mod p) mod p"
    using eq flip_inj [OF p(4,3) square_neg_range [OF assms(1) v] square_neg_range [OF assms(1) w]]
    by (simp add: unsloth_def)
  then have "p dvd w\<^sup>2 - v\<^sup>2" by (simp add: mod_minus_eq mod_eq_dvd_iff)
  then have "p dvd (w - v) * (w + v)" by (simp add: power2_eq_square algebra_simps)
  then have "p dvd w - v \<or> p dvd w + v" by (rule prime_modulus_dvd_mult [OF p(1)])
  then show ?thesis
  proof
    assume "p dvd w - v"
    then have "w mod p = v mod p" by (simp add: mod_eq_dvd_iff)
    then show ?thesis using v w by simp
  next
    assume "p dvd w + v"
    then have "w mod p = (p - v) mod p"
      by (simp add: mod_eq_dvd_iff)
    moreover have "w mod p = w" "(p - v) mod p = p - v"
      by (rule mod_pos_pos_trivial; use v w in simp)+
    ultimately show ?thesis by simp
  qed
qed

lemma unsloth_funpow_range:
  assumes "sloth_modulus p" and "0 < w" and "w < p"
  shows "0 < (unsloth p ^^ l) w \<and> (unsloth p ^^ l) w < p"
  using assms by (induction l) (auto simp: unsloth_range)

lemma unsloth_funpow_eq_imp:
  assumes "sloth_modulus p" and "0 < v" "v < p" and "0 < w" "w < p"
    and "(unsloth p ^^ Suc l) v = (unsloth p ^^ Suc l) w"
  shows "w = v \<or> w = p - v"
  using assms(2-6)
proof (induction l arbitrary: v w)
  case 0
  then show ?case using unsloth_eq_imp [OF assms(1)] by simp
next
  case (Suc l)
  note p = sloth_modulusD [OF assms(1)]
  let ?v = "unsloth p v" and ?w = "unsloth p w"
  have "(unsloth p ^^ Suc l) ?v = (unsloth p ^^ Suc l) ?w"
    using Suc.prems(5) by (simp add: funpow_swap1)
  then have "?w = ?v \<or> ?w = p - ?v"
    using Suc.IH unsloth_range [OF assms(1)] Suc.prems(1-4) by simp
  then show ?case
  proof
    assume "?w = ?v"
    then show ?thesis using unsloth_eq_imp [OF assms(1) Suc.prems(1-4)] by simp
  next
    let ?a = "- (v\<^sup>2 mod p) mod p" and ?b = "- (w\<^sup>2 mod p) mod p"
    assume "?w = p - ?v"
    note a = square_neg_range [OF assms(1) Suc.prems(1,2)]
      and b = square_neg_range [OF assms(1) Suc.prems(3,4)]
    have "flip p ?b = flip p (p - ?a)"
      using \<open>?w = p - ?v\<close> flip_neg [OF p(3) a] by (simp add: unsloth_def)
    then have "?b = p - ?a" using flip_inj [OF p(4,3) b] a by simp
    then have "?b = - ?a mod p" using a by (simp add: zmod_zminus1_eq_if)
    then have "- (w\<^sup>2) mod p = v\<^sup>2 mod p" by (simp add: mod_minus_eq)
    then show ?thesis using neg_square_not_square [OF assms(1) Suc.prems(3,4)] by blast
  qed
qed

section \<open>Properties\<close>

text \<open>C36: for a prime modulus congruent 3 modulo 4 that passes \<open>is_valid_modulus\<close>, and at least one
  iteration, \<open>eval\<close> returns a witness in \<open>1..<p\<close>, and \<open>verify\<close> accepts that witness for the seed
  exactly when the first permuted seed is a quadratic non-residue: the unconditional negation in
  \<open>verify\<close> makes it reject the honest witness for the other half of the seeds.\<close>

theorem verify_eval_iff:
  assumes "prime_modulus (modulus u)" and "modulus u mod 4 = 3"
    and "is_valid_modulus E u" and "iterations u \<noteq> 0"
  shows "\<exists>w g. eval E u = Some (Some (w, g)) \<and> 0 < w \<and> w < modulus u \<and>
     verify u (seed u) w = Some (\<not> residue (modulus u) (flip (modulus u) (seed u mod modulus u)))"
proof -
  let ?p = "modulus u" and ?s = "seed u mod modulus u"
  have sm: "sloth_modulus ?p" using assms(1,2) by (simp add: sloth_modulus_def)
  note p = sloth_modulusD [OF sm]
  obtain l where l: "unat (iterations u) = Suc l"
    using assms(4) by (metis not0_implies_Suc unat_eq_zero)
  have s: "0 \<le> ?s" "?s < ?p" using p(4) by simp_all
  let ?w = "(sloth ?p ^^ Suc l) ?s"
  have "0 < (sloth ?p ^^ Suc l) ?s \<and> (sloth ?p ^^ Suc l) ?s < ?p"
    by (induction l) (use sloth_range [OF sm] s in auto)
  moreover have "eval E u = Some (Some (?w, hex_encode E (to_digits E ?w)))"
    using assms(3) p(4) eval_loop_sloth [OF sm s, of "Suc l"]
    by (simp add: eval_def div_rem_floor_def l del: eval_loop.simps)
  moreover have "verify u (seed u) ?w = Some (\<not> residue ?p (flip ?p ?s))"
  proof -
    define r where "r = max 1 ?s"
    have r: "0 < r" "r < ?p" using s p(4) by (auto simp: r_def)
    have flip: "flip ?p ?s = flip ?p r" by (auto simp: flip_def r_def)
    then have "sloth ?p ?s = sloth ?p r" by (simp add: sloth_def)
    then have "?w = (sloth ?p ^^ Suc l) r" by (simp add: funpow_swap1)
    then have "verify u (seed u) ?w = Some (unsloth ?p (sloth ?p r) = ?s)"
      using verify_loop_unsloth [OF p(3,4)] unsloth_sloth_funpow [OF sm r, of l] p(4)
      by (simp add: verify_def div_rem_floor_def l del: funpow.simps verify_loop.simps)
    moreover have "(unsloth ?p (sloth ?p r) = ?s) = (\<not> residue ?p (flip ?p r))"
    proof (cases "?s = 0")
      case True
      then have "r = 1" by (simp add: r_def)
      moreover have "residue ?p (flip ?p 1)" using p(4) by (simp add: residue_def flip_def)
      ultimately show ?thesis using True p(4) unfolding unsloth_sloth [OF sm r] by simp
    next
      case False
      then have "?s = r" using s(1) unfolding r_def by linarith
      moreover have "?p - r \<noteq> r" using p(3) by presburger
      ultimately show ?thesis unfolding unsloth_sloth [OF sm r] by simp
    qed
    ultimately show ?thesis by (simp only: flip)
  qed
  ultimately show ?thesis by blast
qed

text \<open>A small modulus, and stand-ins for the third-party functions, to evaluate the model on.\<close>

definition ext7 :: unicorn_ext where
  "ext7 = \<lparr>is_probably_prime = (\<lambda>_ _. Yes), to_digits = (\<lambda>w. [word_of_int w]),
     from_str_radix = (\<lambda>s _. Some (int (length s))), hex_encode = (\<lambda>bs. replicate (length bs) CHR ''0''),
     sha3_256_digest = (\<lambda>bs. bs), serialize_strings = (\<lambda>ss. map (\<lambda>_. 0) ss),
     serialize_addrs = (\<lambda>as. map (\<lambda>_. 0) as), serialize_string_set = (\<lambda>_. [0]),
     serialize_u64_opt = (\<lambda>_. [0])\<rparr>"

definition unicorn7 :: "int \<Rightarrow> Unicorn" where
  "unicorn7 sd = \<lparr>iterations = 2, security_level = 1, seed = sd, modulus = 7\<rparr>"

lemma prime_modulus_7: "prime_modulus 7"
proof -
  have "{2..<7 :: int} = {2, 3, 4, 5, 6}" by auto
  then show ?thesis by (simp add: prime_modulus_def)
qed

lemma unicorn7_valid: "is_valid_modulus ext7 (unicorn7 sd)"
  by (simp add: is_valid_modulus_def ext7_def unicorn7_def)

theorem verify_eval_iff_witness:
  "(\<exists>w g. eval ext7 (unicorn7 2) = Some (Some (w, g)) \<and> 0 < w \<and> w < 7 \<and>
      verify (unicorn7 2) 2 w = Some True) \<and>
   (\<exists>w g. eval ext7 (unicorn7 3) = Some (Some (w, g)) \<and> 0 < w \<and> w < 7 \<and>
      verify (unicorn7 3) 3 w = Some False)"
proof
  show "\<exists>w g. eval ext7 (unicorn7 2) = Some (Some (w, g)) \<and> 0 < w \<and> w < 7 \<and>
      verify (unicorn7 2) 2 w = Some True"
    using verify_eval_iff [of "unicorn7 2" ext7] unicorn7_valid prime_modulus_7
    by (simp add: unicorn7_def residue_def flip_def)
  show "\<exists>w g. eval ext7 (unicorn7 3) = Some (Some (w, g)) \<and> 0 < w \<and> w < 7 \<and>
      verify (unicorn7 3) 3 w = Some False"
    using verify_eval_iff [of "unicorn7 3" ext7] unicorn7_valid prime_modulus_7
    by (simp add: unicorn7_def residue_def flip_def)
qed

text \<open>The witness is unique up to sign: two witnesses in \<open>1..<p\<close> that \<open>verify\<close> accepts for the
  same seed are equal or add up to the modulus.\<close>

lemma verify_unique:
  assumes "prime_modulus (modulus u)" and "modulus u mod 4 = 3" and "iterations u \<noteq> 0"
    and "0 < v" "v < modulus u" and "0 < w" "w < modulus u"
    and "verify u sd v = Some True" and "verify u sd w = Some True"
  shows "w = v \<or> w = modulus u - v"
proof -
  have sm: "sloth_modulus (modulus u)" using assms(1,2) by (simp add: sloth_modulus_def)
  note p = sloth_modulusD [OF sm]
  obtain l where "unat (iterations u) = Suc l"
    using assms(3) by (metis not0_implies_Suc unat_eq_zero)
  then have "(unsloth (modulus u) ^^ Suc l) v = (unsloth (modulus u) ^^ Suc l) w"
    using assms(8,9) p(4) verify_loop_unsloth [OF p(3,4)]
    by (simp add: verify_def div_rem_floor_def del: funpow.simps verify_loop.simps)
  then show ?thesis using unsloth_funpow_eq_imp [OF sm assms(4-7)] by blast
qed

lemma verify_unique_demo:
  "verify (unicorn7 2) 2 5 = Some True \<and> verify (unicorn7 2) 2 2 = Some True \<and>
   ((2 :: int) = 5 \<or> (2 :: int) = 7 - 5)"
proof -
  have twice: "(unsloth 7 ^^ 2) w = unsloth 7 (unsloth 7 w)" for w by (simp add: numeral_2_eq_2)
  have v: "verify (unicorn7 2) 2 w = Some (unsloth 7 (unsloth 7 w) = 2)" for w
    using verify_loop_unsloth [of "unicorn7 2" 2 w]
    by (simp add: verify_def unicorn7_def div_rem_floor_def twice)
  have "verify (unicorn7 2) 2 5 = Some True" "verify (unicorn7 2) 2 2 = Some True"
    by (simp_all add: v unsloth_def flip_def)
  then show ?thesis
    using verify_unique [of "unicorn7 2" 5 2 2] prime_modulus_7 by (simp add: unicorn7_def)
qed

end
