(* ===== verification/Block_Pipeline.thy ===== *)
theory Block_Pipeline
  imports Unicorn
begin

text \<open>
  The mining pipeline of \<^verbatim>\<open>src/block_pipeline.rs\<close>: a consensus-driven state machine
  (halted, participant intake, proof-of-work intake) with its participant sets, its votes and the
  UNICORN-driven selections. \<open>MiningPipelineInfo\<close> is the record of that name; every method is a
  function from the state to the new state, \<open>None\<close> where the code panics. The CSPRNG of
  \<open>keccak_prime\<close> and the printing of big integers are parameters (\<open>pipeline_ext\<close>).
\<close>

section \<open>Model\<close>

subsection \<open>Data\<close>

record pipeline_ext =
  unicorn_fns :: unicorn_ext
  fortuna_bytes :: "bytes \<Rightarrow> nat \<Rightarrow> nat \<Rightarrow> bytes option"
  integer_to_string :: "int \<Rightarrow> string"

datatype MiningPipelineStatus = Halted | ParticipantOnlyIntake | AllItemsIntake

datatype MiningPipelinePhaseChange = StartPhasePowIntake | StartPhaseHalted | Reset

datatype MiningPipelineItem =
    MiningParticipant SocketAddr MiningPipelineStatus
  | CompleteParticipant
  | WinningPoW SocketAddr WinningPoWInfo
  | CompleteMining
  | ResetPipeline

record Participants =
  unsorted :: "SocketAddr list"
  lookup :: "SocketAddr fset"

record PipelineEventInfo =
  proposer_id :: u64
  sufficient_majority :: nat
  unanimous_majority :: nat
  partition_full_size :: nat

record MiningPipelineInfo =
  participants_intake :: "(u64, Participants) fmap"
  participants_mining :: "(u64, Participants) fmap"
  empty_participants :: Participants
  last_winning_hashes :: "string fset"
  all_winning_pow :: "(SocketAddr \<times> WinningPoWInfo) list"
  unicorn_info :: UnicornInfo
  winning_pow :: "(SocketAddr \<times> WinningPoWInfo) option"
  mining_pipeline_status :: MiningPipelineStatus
  current_phase_timeout_peer_ids :: "u64 fset"
  current_phase_reset_pipeline_peer_ids :: "u64 fset"
  unicorn_fixed_param :: UnicornFixedParam
  current_block_num :: "u64 option"
  current_block :: "Block option"
  current_block_tx :: TxMap
  current_reward :: TokenAmount
  proposed_keys :: "RaftContextKey fset"

record MiningPipelineInfoImport =
  import_unicorn_fixed_param :: UnicornFixedParam
  import_current_block_num :: "u64 option"
  import_current_block :: "Block option"

record UnicornFixedInfo =
  info_modulus :: string
  info_iterations :: u64
  info_security :: u32

definition WINNING_MINER_UN :: nat where
  "WINNING_MINER_UN = 3"

definition MINER_PARTICIPATION_UN :: nat where
  "MINER_PARTICIPATION_UN = 2"

subsection \<open>Participants\<close>

definition Participants_default :: Participants where
  "Participants_default = \<lparr>unsorted = [], lookup = {||}\<rparr>"

definition Participants_len :: "Participants \<Rightarrow> nat" where
  "Participants_len self = length (unsorted self)"

definition Participants_contains :: "Participants \<Rightarrow> SocketAddr \<Rightarrow> bool" where
  "Participants_contains self k \<longleftrightarrow> k |\<in>| lookup self"

definition Participants_push :: "Participants \<Rightarrow> SocketAddr \<Rightarrow> Participants \<times> bool" where
  "Participants_push self k =
     (if k |\<notin>| lookup self
      then (\<lparr>unsorted = unsorted self @ [k], lookup = finsert k (lookup self)\<rparr>, True)
      else (self, False))"

definition Participants_retain :: "SocketAddr list \<Rightarrow> Participants \<Rightarrow> Participants" where
  "Participants_retain inactive_miners self =
     \<lparr>unsorted = filter (\<lambda>addr. addr \<notin> set inactive_miners) (unsorted self),
      lookup = ffilter (\<lambda>addr. addr \<notin> set inactive_miners) (lookup self)\<rparr>"

subsection \<open>Construction and block accessors\<close>

definition UnicornInfo_default :: UnicornInfo where
  "UnicornInfo_default =
     \<lparr>unicorn = \<lparr>iterations = 0, security_level = 0, seed = 0, modulus = 0\<rparr>,
      g_value = [], witness = 0\<rparr>"

definition MiningPipelineInfo_default :: MiningPipelineInfo where
  "MiningPipelineInfo_default =
     \<lparr>participants_intake = fmempty, participants_mining = fmempty,
      empty_participants = Participants_default, last_winning_hashes = {||},
      all_winning_pow = [], unicorn_info = UnicornInfo_default, winning_pow = None,
      mining_pipeline_status = Halted, current_phase_timeout_peer_ids = {||},
      current_phase_reset_pipeline_peer_ids = {||},
      unicorn_fixed_param = \<lparr>fixed_modulus = [], fixed_iterations = 0, fixed_security = 0\<rparr>,
      current_block_num = None, current_block = None, current_block_tx = fmempty,
      current_reward = 0, proposed_keys = {||}\<rparr>"

definition with_unicorn_fixed_param ::
    "MiningPipelineInfo \<Rightarrow> UnicornFixedInfo \<Rightarrow> MiningPipelineInfo" where
  "with_unicorn_fixed_param self info =
     self\<lparr>unicorn_fixed_param := \<lparr>fixed_modulus = info_modulus info,
       fixed_iterations = info_iterations info, fixed_security = info_security info\<rparr>\<rparr>"

definition pipeline_set_committed_mining_block ::
    "MiningPipelineInfo \<Rightarrow> Block \<Rightarrow> TxMap \<Rightarrow> MiningPipelineInfo" where
  "pipeline_set_committed_mining_block self block block_tx =
     self\<lparr>current_block := Some block, current_block_tx := block_tx\<rparr>"

definition pipeline_take_mining_block ::
    "MiningPipelineInfo \<Rightarrow> MiningPipelineInfo \<times> (Block \<times> TxMap) option" where
  "pipeline_take_mining_block self =
     (self\<lparr>current_block := None, current_block_tx := fmempty\<rparr>,
      map_option (\<lambda>b. (b, current_block_tx self)) (current_block self))"

definition pipeline_apply_ready_block_stored_info ::
    "MiningPipelineInfo \<Rightarrow> u64 \<Rightarrow> TokenAmount \<Rightarrow> MiningPipelineInfo" where
  "pipeline_apply_ready_block_stored_info self bn reward =
     self\<lparr>current_block := None, current_block_tx := fmempty,
          current_block_num := Some bn, current_reward := reward\<rparr>"

definition from_import :: "MiningPipelineInfoImport \<Rightarrow> MiningPipelineInfo" where
  "from_import v = MiningPipelineInfo_default\<lparr>
     unicorn_fixed_param := import_unicorn_fixed_param v,
     current_block_num := import_current_block_num v,
     current_block := import_current_block v\<rparr>"

definition into_import :: "MiningPipelineInfo \<Rightarrow> MiningPipelineInfoImport" where
  "into_import self =
     \<lparr>import_unicorn_fixed_param = unicorn_fixed_param self,
      import_current_block_num = current_block_num self,
      import_current_block = current_block self\<rparr>"

subsection \<open>Selections by UNICORN\<close>

definition get_unicorn_prn ::
    "pipeline_ext \<Rightarrow> MiningPipelineInfo \<Rightarrow> nat \<Rightarrow> u64 may_panic" where
  "get_unicorn_prn E self usage_number =
     (let gb = as_bytes (g_value (unicorn_info self)) in
      if length gb < 32 then None
      else do {
        val \<leftarrow> fortuna_bytes E (take 32 gb) usage_number 8;
        if length val < 8 then None else Some (word_rcat (take 8 val)) })"

definition get_unicorn_item ::
    "pipeline_ext \<Rightarrow> MiningPipelineInfo \<Rightarrow> nat \<Rightarrow> 'a list \<Rightarrow> 'a option may_panic" where
  "get_unicorn_item E self usage_number items =
     (if items = [] then Some None
      else do {
        prn \<leftarrow> get_unicorn_prn E self usage_number;
        let selection = unat prn mod length items;
        Some (Some (items ! selection)) })"

fun swap_loop ::
    "pipeline_ext \<Rightarrow> MiningPipelineInfo \<Rightarrow> nat \<Rightarrow> nat list \<Rightarrow> 'a list \<Rightarrow> 'a list may_panic" where
  "swap_loop E self usage_number [] items = Some items"
| "swap_loop E self usage_number (i # idxs) items =
     do { prn \<leftarrow> get_unicorn_prn E self usage_number;
          let selection = i + unat prn mod (length items - i);
          items \<leftarrow> slice_swap i selection items;
          swap_loop E self usage_number idxs items }"

definition swap_with_unicorn ::
    "pipeline_ext \<Rightarrow> MiningPipelineInfo \<Rightarrow> nat \<Rightarrow> 'a list \<Rightarrow> 'a list may_panic" where
  "swap_with_unicorn E self usage_number items =
     swap_loop E self usage_number [0..<length items] items"

definition select_participants ::
    "pipeline_ext \<Rightarrow> MiningPipelineInfo \<Rightarrow> nat \<Rightarrow> Participants \<Rightarrow> Participants may_panic" where
  "select_participants E self full_size ps =
     (if length (unsorted ps) \<le> full_size then Some ps
      else do {
        us \<leftarrow> swap_with_unicorn E self MINER_PARTICIPATION_UN (unsorted ps);
        let us = take full_size us;
        Some \<lparr>unsorted = us, lookup = fset_of_list us\<rparr> })"

fun select_entries ::
    "pipeline_ext \<Rightarrow> MiningPipelineInfo \<Rightarrow> nat \<Rightarrow> (u64 \<times> Participants) list \<Rightarrow>
     (u64 \<times> Participants) list may_panic" where
  "select_entries E self full_size [] = Some []"
| "select_entries E self full_size ((k, ps) # es) =
     do { ps \<leftarrow> select_participants E self full_size ps;
          es \<leftarrow> select_entries E self full_size es;
          Some ((k, ps) # es) }"

definition unicorn_select_participants_mining ::
    "pipeline_ext \<Rightarrow> MiningPipelineInfo \<Rightarrow> nat \<Rightarrow> MiningPipelineInfo may_panic" where
  "unicorn_select_participants_mining E self full_size =
     do { es \<leftarrow> select_entries E self full_size (sorted_list_of_fmap (participants_intake self));
          Some (self\<lparr>participants_intake := fmempty, participants_mining := fmap_of_list es\<rparr>) }"

text \<open>\<open>construct_unicorn\<close> and the seed it writes into the block header\<close>

definition get_unicorn_seed_value :: "pipeline_ext \<Rightarrow> UnicornInfo \<Rightarrow> bytes" where
  "get_unicorn_seed_value E u =
     as_bytes (integer_to_string E (seed (unicorn u)) @ ''-'' @ integer_to_string E (witness u))"

definition pipeline_construct_unicorn ::
    "pipeline_ext \<Rightarrow> MiningPipelineInfo \<Rightarrow> MiningPipelineInfo may_panic" where
  "pipeline_construct_unicorn E self =
     do { block \<leftarrow> current_block self;
          let all_participants = concat (map unsorted (fmvalues (participants_mining self)));
          sd \<leftarrow> construct_seed (unicorn_fns E) (transactions block) all_participants
                 (last_winning_hashes self);
          info \<leftarrow> construct_unicorn (unicorn_fns E) sd (unicorn_fixed_param self);
          Some (self\<lparr>unicorn_info := info,
            current_block := Some (block\<lparr>header :=
              (header block)\<lparr>seed_value := get_unicorn_seed_value E info\<rparr>\<rparr>)\<rparr>) }"

subsection \<open>Phases\<close>

definition start_items_intake ::
    "pipeline_ext \<Rightarrow> MiningPipelineInfo \<Rightarrow> PipelineEventInfo \<Rightarrow> MiningPipelineInfo may_panic" where
  "start_items_intake E self extra =
     do { self \<leftarrow>
            (if participants_intake self = fmempty
             then Some (self\<lparr>mining_pipeline_status := ParticipantOnlyIntake\<rparr>)
             else do {
               self \<leftarrow> unicorn_select_participants_mining E self (partition_full_size extra);
               Some (self\<lparr>mining_pipeline_status := AllItemsIntake\<rparr>) });
          Some (self\<lparr>last_winning_hashes := {||}, all_winning_pow := [], winning_pow := None,
            current_phase_timeout_peer_ids := {||},
            current_phase_reset_pipeline_peer_ids := {||}\<rparr>) }"

definition init_block_pipeline_status ::
    "pipeline_ext \<Rightarrow> MiningPipelineInfo \<Rightarrow> PipelineEventInfo \<Rightarrow> MiningPipelineInfo may_panic" where
  "init_block_pipeline_status E self extra =
     (if current_block self \<noteq> None then start_items_intake E self extra else Some self)"

definition get_mining_participants :: "MiningPipelineInfo \<Rightarrow> u64 \<Rightarrow> Participants" where
  "get_mining_participants self pid =
     (case fmlookup (participants_mining self) pid of
        Some ps \<Rightarrow> ps | None \<Rightarrow> empty_participants self)"

definition add_to_participants ::
    "MiningPipelineInfo \<Rightarrow> u64 \<Rightarrow> SocketAddr \<Rightarrow> MiningPipelineInfo" where
  "add_to_participants self pid participant =
     self\<lparr>participants_intake :=
       fmentry Participants_default pid (\<lambda>ps. fst (Participants_push ps participant))
         (participants_intake self)\<rparr>"

definition add_to_winning_pow ::
    "MiningPipelineInfo \<Rightarrow> u64 \<Rightarrow> SocketAddr \<times> WinningPoWInfo \<Rightarrow> MiningPipelineInfo" where
  "add_to_winning_pow self pid pow =
     (if \<not> Participants_contains (get_mining_participants self pid) (fst pow) then self
      else self\<lparr>all_winning_pow := all_winning_pow self @ [pow]\<rparr>)"

definition has_ready_select_participating_miners :: "MiningPipelineInfo \<Rightarrow> nat \<Rightarrow> bool" where
  "has_ready_select_participating_miners self majority \<longleftrightarrow>
     majority \<le> fcard (current_phase_timeout_peer_ids self) \<and>
     majority \<le> fmlen (participants_intake self)"

definition has_ready_reset_pipeline :: "MiningPipelineInfo \<Rightarrow> nat \<Rightarrow> bool" where
  "has_ready_reset_pipeline self unanimous \<longleftrightarrow>
     unanimous \<le> fcard (current_phase_reset_pipeline_peer_ids self)"

definition has_ready_select_winning_miner :: "MiningPipelineInfo \<Rightarrow> nat \<Rightarrow> bool" where
  "has_ready_select_winning_miner self majority \<longleftrightarrow>
     (if fcard (current_phase_timeout_peer_ids self) < majority then False
      else all_winning_pow self \<noteq> [])"

definition start_winning_pow_halted ::
    "pipeline_ext \<Rightarrow> MiningPipelineInfo \<Rightarrow> MiningPipelineInfo may_panic" where
  "start_winning_pow_halted E self =
     (let pows = all_winning_pow self;
          self = self\<lparr>all_winning_pow := [], current_phase_timeout_peer_ids := {||}\<rparr>
      in do {
        w \<leftarrow> get_unicorn_item E self WINNING_MINER_UN pows;
        Some (self\<lparr>winning_pow := w,
          last_winning_hashes := fset_of_list (map (\<lambda>(_, pow). fst (mining_tx pow)) pows),
          mining_pipeline_status := Halted\<rparr>) })"

definition append_current_phase_timeout :: "MiningPipelineInfo \<Rightarrow> u64 \<Rightarrow> MiningPipelineInfo" where
  "append_current_phase_timeout self pid =
     self\<lparr>current_phase_timeout_peer_ids := finsert pid (current_phase_timeout_peer_ids self)\<rparr>"

definition append_reset_pipeline_timeout :: "MiningPipelineInfo \<Rightarrow> u64 \<Rightarrow> MiningPipelineInfo" where
  "append_reset_pipeline_timeout self pid =
     self\<lparr>current_phase_reset_pipeline_peer_ids :=
       finsert pid (current_phase_reset_pipeline_peer_ids self)\<rparr>"

definition handle_reset_pipeline ::
    "pipeline_ext \<Rightarrow> MiningPipelineInfo \<Rightarrow> PipelineEventInfo \<Rightarrow>
     (MiningPipelineInfo \<times> MiningPipelinePhaseChange option) may_panic" where
  "handle_reset_pipeline E self extra =
     (let self = self\<lparr>current_phase_timeout_peer_ids := {||},
            current_phase_reset_pipeline_peer_ids := {||},
            participants_intake := fmempty, participants_mining := fmempty\<rparr>
      in do {
        self \<leftarrow> start_items_intake E self extra;
        Some (self, Some Reset) })"

text \<open>The first \<open>match\<close> of \<open>handle_mining_pipeline_item\<close>: what the item changes.\<close>

fun apply_pipeline_item ::
    "MiningPipelineInfo \<Rightarrow> u64 \<Rightarrow> MiningPipelineItem \<Rightarrow> MiningPipelineStatus \<Rightarrow> MiningPipelineInfo" where
  "apply_pipeline_item self pid (MiningParticipant addr ParticipantOnlyIntake) ParticipantOnlyIntake =
     add_to_participants self pid addr"
| "apply_pipeline_item self pid (MiningParticipant addr AllItemsIntake) AllItemsIntake =
     add_to_participants self pid addr"
| "apply_pipeline_item self pid CompleteParticipant ParticipantOnlyIntake =
     append_current_phase_timeout self pid"
| "apply_pipeline_item self pid (WinningPoW addr info) AllItemsIntake =
     add_to_winning_pow self pid (addr, info)"
| "apply_pipeline_item self pid CompleteMining AllItemsIntake =
     append_current_phase_timeout self pid"
| "apply_pipeline_item self pid ResetPipeline _ = append_reset_pipeline_timeout self pid"
| "apply_pipeline_item self pid _ _ = self"

definition handle_mining_pipeline_item ::
    "pipeline_ext \<Rightarrow> MiningPipelineInfo \<Rightarrow> MiningPipelineItem \<Rightarrow> PipelineEventInfo \<Rightarrow>
     (MiningPipelineInfo \<times> MiningPipelinePhaseChange option) may_panic" where
  "handle_mining_pipeline_item E self pipeline_item extra =
     (let pipeline_status = mining_pipeline_status self;
          self = apply_pipeline_item self (proposer_id extra) pipeline_item pipeline_status
      in if has_ready_reset_pipeline self (unanimous_majority extra)
         then handle_reset_pipeline E self extra
         else case pipeline_status of
           Halted \<Rightarrow> Some (self, None)
         | ParticipantOnlyIntake \<Rightarrow>
             if has_ready_select_participating_miners self (sufficient_majority extra)
             then do { self \<leftarrow> start_items_intake E self extra;
                       Some (self, Some StartPhasePowIntake) }
             else Some (self, None)
         | AllItemsIntake \<Rightarrow>
             if has_ready_select_winning_miner self (sufficient_majority extra)
             then do { self \<leftarrow> start_winning_pow_halted E self;
                       Some (self, Some StartPhaseHalted) }
             else Some (self, None))"

subsection \<open>Remaining operations\<close>

definition clear_proposed_keys :: "MiningPipelineInfo \<Rightarrow> MiningPipelineInfo" where
  "clear_proposed_keys self = self\<lparr>proposed_keys := {||}\<rparr>"

definition add_proposed_key :: "MiningPipelineInfo \<Rightarrow> RaftContextKey \<Rightarrow> MiningPipelineInfo" where
  "add_proposed_key self key = self\<lparr>proposed_keys := finsert key (proposed_keys self)\<rparr>"

definition cleanup_participant_intake ::
    "MiningPipelineInfo \<Rightarrow> SocketAddr list \<Rightarrow> MiningPipelineInfo" where
  "cleanup_participant_intake self inactive_miners =
     self\<lparr>participants_intake :=
       fmmap (Participants_retain inactive_miners) (participants_intake self)\<rparr>"

definition cleanup_participants_mining ::
    "MiningPipelineInfo \<Rightarrow> SocketAddr list \<Rightarrow> MiningPipelineInfo" where
  "cleanup_participants_mining self inactive_miners =
     self\<lparr>participants_mining :=
       fmmap (Participants_retain inactive_miners) (participants_mining self)\<rparr>"

definition mining_event_at_timeout :: "MiningPipelineInfo \<Rightarrow> MiningPipelineItem option" where
  "mining_event_at_timeout self =
     (case mining_pipeline_status self of
        ParticipantOnlyIntake \<Rightarrow> Some CompleteParticipant
      | AllItemsIntake \<Rightarrow> Some CompleteMining
      | Halted \<Rightarrow> None)"

definition usize_MAX :: nat where
  "usize_MAX = 2 ^ 64 - 1"

definition pipeline_test_skip_mining ::
    "pipeline_ext \<Rightarrow> MiningPipelineInfo \<Rightarrow> SocketAddr \<times> WinningPoWInfo \<Rightarrow> bytes \<Rightarrow>
     MiningPipelineInfo may_panic" where
  "pipeline_test_skip_mining E self pow sd =
     do { block \<leftarrow> current_block self;
          let self = self\<lparr>current_block :=
            Some (block\<lparr>header := (header block)\<lparr>seed_value := sd\<rparr>\<rparr>)\<rparr>;
          self \<leftarrow> unicorn_select_participants_mining E self usize_MAX;
          start_winning_pow_halted E (self\<lparr>all_winning_pow := all_winning_pow self @ [pow]\<rparr>) }"

section \<open>Participant sets\<close>

definition participants_ok :: "Participants \<Rightarrow> bool" where
  "participants_ok ps \<longleftrightarrow> distinct (unsorted ps) \<and> lookup ps = fset_of_list (unsorted ps)"

lemma participants_ok_default [inv_intros]: "participants_ok Participants_default"
  by (simp add: participants_ok_def Participants_default_def)

lemma participants_ok_push [inv_intros]:
  "participants_ok ps \<Longrightarrow> participants_ok (fst (Participants_push ps k))"
  by (auto simp: participants_ok_def Participants_push_def fset_of_list_elem)

lemma participants_ok_retain [inv_intros]:
  "participants_ok ps \<Longrightarrow> participants_ok (Participants_retain ms ps)"
  by (auto simp: participants_ok_def Participants_retain_def fset_of_list_elem)

lemma participants_contains_iff:
  "participants_ok ps \<Longrightarrow> Participants_contains ps k \<longleftrightarrow> k \<in> set (unsorted ps)"
  by (simp add: participants_ok_def Participants_contains_def fset_of_list_elem)

section \<open>The selections\<close>

lemma swap_loop_mset: "swap_loop E self un idxs xs = Some ys \<Longrightarrow> mset ys = mset xs"
proof (induction idxs arbitrary: xs)
  case (Cons i idxs)
  then obtain j zs where "slice_swap i j xs = Some zs" and "swap_loop E self un idxs zs = Some ys"
    by (auto simp: option_bind_Some_iff Let_def)
  then show ?case using Cons.IH mset_slice_swap by metis
qed simp

lemma swap_loop_defined:
  assumes "get_unicorn_prn E self un = Some prn" and "\<forall>i \<in> set idxs. i < length xs"
  shows "\<exists>ys. swap_loop E self un idxs xs = Some ys"
  using assms(2)
proof (induction idxs arbitrary: xs)
  case (Cons i idxs)
  have "i + unat prn mod (length xs - i) < length xs"
    using Cons.prems mod_less_divisor [of "length xs - i" "unat prn"] by (auto simp: less_diff_conv)
  then obtain zs where zs: "slice_swap i (i + unat prn mod (length xs - i)) xs = Some zs"
    using Cons.prems by (simp add: slice_swap_def)
  then have "\<forall>i \<in> set idxs. i < length zs" using Cons.prems length_slice_swap by fastforce
  then show ?case using Cons.IH zs assms(1) by simp
qed simp

lemma select_participants_spec:
  assumes "select_participants E self sz ps = Some ps'" and "participants_ok ps"
  shows "participants_ok ps'" and "set (unsorted ps') \<subseteq> set (unsorted ps)"
    and "length (unsorted ps') = min sz (length (unsorted ps))"
proof -
  have *: "participants_ok ps' \<and> set (unsorted ps') \<subseteq> set (unsorted ps) \<and>
    length (unsorted ps') = min sz (length (unsorted ps))"
  proof (cases "length (unsorted ps) \<le> sz")
    case True
    then show ?thesis using assms by (simp add: select_participants_def)
  next
    case False
    then obtain us where us: "swap_with_unicorn E self MINER_PARTICIPATION_UN (unsorted ps) = Some us"
      and ps': "ps' = \<lparr>unsorted = take sz us, lookup = fset_of_list (take sz us)\<rparr>"
      using assms(1) by (auto simp: select_participants_def option_bind_Some_iff Let_def)
    have m: "mset us = mset (unsorted ps)"
      using us unfolding swap_with_unicorn_def by (rule swap_loop_mset)
    then have "distinct us" "length us = length (unsorted ps)" "set us = set (unsorted ps)"
      using assms(2) mset_eq_setD [OF m] mset_eq_length [OF m] mset_eq_imp_distinct_iff [OF m]
      by (simp_all add: participants_ok_def)
    then show ?thesis using ps' set_take_subset [of sz us] by (simp add: participants_ok_def)
  qed
  then show "participants_ok ps'" "set (unsorted ps') \<subseteq> set (unsorted ps)"
    "length (unsorted ps') = min sz (length (unsorted ps))" by simp_all
qed

lemma select_entries_spec:
  "select_entries E self sz es = Some es' \<Longrightarrow>
   map_of es' k = (case map_of es k of None \<Rightarrow> None | Some ps \<Rightarrow> select_participants E self sz ps)"
  by (induction es arbitrary: es') (auto simp: option_bind_Some_iff split: if_splits)

lemma select_mining_lookup:
  assumes "unicorn_select_participants_mining E self sz = Some self'"
  shows "fmlookup (participants_mining self') k =
     Option.bind (fmlookup (participants_intake self) k) (select_participants E self sz)"
    and "participants_intake self' = fmempty"
proof -
  obtain es where es: "select_entries E self sz (sorted_list_of_fmap (participants_intake self)) = Some es"
    and s': "self' = self\<lparr>participants_intake := fmempty, participants_mining := fmap_of_list es\<rparr>"
    using assms by (auto simp: unicorn_select_participants_mining_def option_bind_Some_iff)
  show "fmlookup (participants_mining self') k =
     Option.bind (fmlookup (participants_intake self) k) (select_participants E self sz)"
    using select_entries_spec [OF es, of k] by (simp add: s' fmlookup_of_list split: option.splits)
  show "participants_intake self' = fmempty" by (simp add: s')
qed

section \<open>The invariant\<close>

definition pipeline_inv :: "MiningPipelineInfo \<Rightarrow> bool" where
  "pipeline_inv self \<longleftrightarrow>
     fmpred (\<lambda>_. participants_ok) (participants_intake self) \<and>
     fmpred (\<lambda>_. participants_ok) (participants_mining self) \<and>
     empty_participants self = Participants_default \<and>
     (winning_pow self \<noteq> None \<longrightarrow> mining_pipeline_status self = Halted) \<and>
     (all_winning_pow self \<noteq> [] \<longrightarrow> mining_pipeline_status self = AllItemsIntake) \<and>
     (mining_pipeline_status self = AllItemsIntake \<longrightarrow> participants_mining self \<noteq> fmempty)"

lemma pipeline_inv_default [inv_intros]: "pipeline_inv MiningPipelineInfo_default"
  by (simp add: pipeline_inv_def MiningPipelineInfo_default_def)

lemma pipeline_inv_from_import [inv_intros]: "pipeline_inv (from_import v)"
  using pipeline_inv_default by (simp add: from_import_def pipeline_inv_def)

lemma fmpred_participants_fmentry:
  assumes "fmpred (\<lambda>_. participants_ok) m"
  shows "fmpred (\<lambda>_. participants_ok)
     (fmentry Participants_default pid (\<lambda>ps. fst (Participants_push ps a)) m)"
  using assms unfolding fmentry_def
  by (intro fmpred_upd) (auto intro!: inv_intros split: option.splits)

lemma pipeline_inv_apply_item [inv_intros]:
  assumes "pipeline_inv self"
  shows "pipeline_inv (apply_pipeline_item self pid item (mining_pipeline_status self))"
  using assms
  by (cases "(self, pid, item, mining_pipeline_status self)" rule: apply_pipeline_item.cases)
    (auto simp: pipeline_inv_def add_to_participants_def append_current_phase_timeout_def
      add_to_winning_pow_def append_reset_pipeline_timeout_def intro!: fmpred_participants_fmentry)

lemma fmempty_iff_lookup: "m = fmempty \<longleftrightarrow> (\<forall>k. fmlookup m k = None)"
  by (auto intro: fmap_ext)

lemma unicorn_select_frame:
  assumes "unicorn_select_participants_mining E self sz = Some self'"
  shows "self' = self\<lparr>participants_intake := fmempty, participants_mining := participants_mining self'\<rparr>"
  using assms by (auto simp: unicorn_select_participants_mining_def option_bind_Some_iff)

lemma select_mining_ok:
  assumes "unicorn_select_participants_mining E self sz = Some self'"
    and "fmpred (\<lambda>_. participants_ok) (participants_intake self)"
  shows "fmpred (\<lambda>_. participants_ok) (participants_mining self')"
proof (rule fmpredI)
  fix k ps' assume "fmlookup (participants_mining self') k = Some ps'"
  then obtain ps where "fmlookup (participants_intake self) k = Some ps"
    and "select_participants E self sz ps = Some ps'"
    by (auto simp: select_mining_lookup(1) [OF assms(1)] option_bind_Some_iff)
  then show "participants_ok ps'" using select_participants_spec(1) assms(2) by blast
qed

lemma select_entries_keys: "select_entries E self sz es = Some es' \<Longrightarrow> map fst es' = map fst es"
  by (induction es arbitrary: es') (auto simp: option_bind_Some_iff)

lemma fmap_of_list_empty_iff: "fmap_of_list es = fmempty \<longleftrightarrow> es = []"
  by (cases es) auto

lemma select_mining_empty_iff:
  assumes "unicorn_select_participants_mining E self sz = Some self'"
  shows "participants_mining self' = fmempty \<longleftrightarrow> participants_intake self = fmempty"
proof -
  obtain es where es: "select_entries E self sz (sorted_list_of_fmap (participants_intake self)) = Some es"
    and s': "participants_mining self' = fmap_of_list es"
    using assms by (auto simp: unicorn_select_participants_mining_def option_bind_Some_iff)
  have "es = [] \<longleftrightarrow> fmlen (participants_intake self) = 0"
    using select_entries_keys [OF es] by (metis length_0_conv length_map length_sorted_list_of_fmap)
  then show ?thesis by (simp add: s' fmap_of_list_empty_iff)
qed

lemma start_items_intake_cases:
  assumes "start_items_intake E self extra = Some self'"
  obtains
    (participants) "participants_intake self = fmempty"
      "self' = self\<lparr>mining_pipeline_status := ParticipantOnlyIntake, last_winning_hashes := {||},
         all_winning_pow := [], winning_pow := None, current_phase_timeout_peer_ids := {||},
         current_phase_reset_pipeline_peer_ids := {||}\<rparr>"
  | (pow) self1 where "participants_intake self \<noteq> fmempty"
      "unicorn_select_participants_mining E self (partition_full_size extra) = Some self1"
      "self' = self1\<lparr>mining_pipeline_status := AllItemsIntake, last_winning_hashes := {||},
         all_winning_pow := [], winning_pow := None, current_phase_timeout_peer_ids := {||},
         current_phase_reset_pipeline_peer_ids := {||}\<rparr>"
  using assms by (auto simp: start_items_intake_def option_bind_Some_iff split: if_splits)

lemma pipeline_inv_start_items_intake [inv_intros]:
  assumes "pipeline_inv self" and "start_items_intake E self extra = Some self'"
  shows "pipeline_inv self'"
  using assms(2)
proof (cases rule: start_items_intake_cases)
  case participants
  then show ?thesis using assms(1) by (simp add: pipeline_inv_def)
next
  case (pow self1)
  have "empty_participants self1 = empty_participants self"
    by (subst unicorn_select_frame [OF pow(2)]) simp
  then show ?thesis
    using pow assms(1) select_mining_ok [OF pow(2)] select_mining_empty_iff [OF pow(2)]
      select_mining_lookup(2) [OF pow(2)]
    by (simp add: pipeline_inv_def)
qed

lemma pipeline_inv_start_halted [inv_intros]:
  assumes "pipeline_inv self" and "start_winning_pow_halted E self = Some self'"
  shows "pipeline_inv self'"
  using assms by (auto simp: start_winning_pow_halted_def pipeline_inv_def option_bind_Some_iff Let_def)

text \<open>The state right after the item is applied, and after a reset.\<close>

definition item_applied :: "MiningPipelineInfo \<Rightarrow> MiningPipelineItem \<Rightarrow> PipelineEventInfo \<Rightarrow> MiningPipelineInfo" where
  "item_applied self item extra =
     apply_pipeline_item self (proposer_id extra) item (mining_pipeline_status self)"

definition pipeline_cleared :: "MiningPipelineInfo \<Rightarrow> MiningPipelineInfo" where
  "pipeline_cleared self = self\<lparr>participants_intake := fmempty, participants_mining := fmempty,
     last_winning_hashes := {||}, all_winning_pow := [], winning_pow := None,
     mining_pipeline_status := ParticipantOnlyIntake, current_phase_timeout_peer_ids := {||},
     current_phase_reset_pipeline_peer_ids := {||}\<rparr>"

lemma handle_cases:
  assumes "handle_mining_pipeline_item E self item extra = Some (self', c)"
  obtains
    (reset) "has_ready_reset_pipeline (item_applied self item extra) (unanimous_majority extra)"
      "c = Some Reset" "self' = pipeline_cleared (item_applied self item extra)"
  | (pow) "\<not> has_ready_reset_pipeline (item_applied self item extra) (unanimous_majority extra)"
      "mining_pipeline_status self = ParticipantOnlyIntake"
      "has_ready_select_participating_miners (item_applied self item extra) (sufficient_majority extra)"
      "c = Some StartPhasePowIntake" "start_items_intake E (item_applied self item extra) extra = Some self'"
  | (halted) "\<not> has_ready_reset_pipeline (item_applied self item extra) (unanimous_majority extra)"
      "mining_pipeline_status self = AllItemsIntake"
      "has_ready_select_winning_miner (item_applied self item extra) (sufficient_majority extra)"
      "c = Some StartPhaseHalted" "start_winning_pow_halted E (item_applied self item extra) = Some self'"
  | (stay) "\<not> has_ready_reset_pipeline (item_applied self item extra) (unanimous_majority extra)"
      "c = None" "self' = item_applied self item extra"
proof -
  have reset: "handle_reset_pipeline E s extra = Some (pipeline_cleared s, Some Reset)" for s
    by (simp add: handle_reset_pipeline_def start_items_intake_def pipeline_cleared_def Let_def)
  show thesis
    using assms that
    unfolding handle_mining_pipeline_item_def Let_def item_applied_def [symmetric] reset
    by (auto simp: option_bind_Some_iff split: if_splits MiningPipelineStatus.splits)
qed

lemma pipeline_inv_cleared: "pipeline_inv self \<Longrightarrow> pipeline_inv (pipeline_cleared self)"
  by (simp add: pipeline_inv_def pipeline_cleared_def)

lemma pipeline_inv_handle [inv_intros]:
  assumes "pipeline_inv self" and "handle_mining_pipeline_item E self item extra = Some (self', c)"
  shows "pipeline_inv self'"
proof -
  have "pipeline_inv (item_applied self item extra)"
    using assms(1) unfolding item_applied_def by (rule pipeline_inv_apply_item)
  note inv = this
  from assms(2) show ?thesis
    by (cases rule: handle_cases)
      (use inv in \<open>auto intro: pipeline_inv_cleared pipeline_inv_start_items_intake
         pipeline_inv_start_halted\<close>)
qed

section \<open>Reachable states\<close>

text \<open>One rule per operation the compute node calls on its pipeline.\<close>

inductive pipeline_step :: "pipeline_ext \<Rightarrow> MiningPipelineInfo \<Rightarrow> MiningPipelineInfo \<Rightarrow> bool"
  for E where
  handle: "handle_mining_pipeline_item E s item extra = Some (t, c) \<Longrightarrow> pipeline_step E s t"
| start: "start_items_intake E s extra = Some t \<Longrightarrow> pipeline_step E s t"
| unicorn: "pipeline_construct_unicorn E s = Some t \<Longrightarrow> pipeline_step E s t"
| flush: "pipeline_step E s
     (cleanup_participants_mining (cleanup_participant_intake s miners) miners)"
| commit: "pipeline_step E s (pipeline_set_committed_mining_block s block block_tx)"
| taken: "pipeline_step E s (fst (pipeline_take_mining_block s))"
| stored: "pipeline_step E s (pipeline_apply_ready_block_stored_info s bn reward)"
| proposed: "pipeline_step E s (add_proposed_key s key)"
| cleared: "pipeline_step E s (clear_proposed_keys s)"
| fixed_param: "pipeline_step E s (with_unicorn_fixed_param s info)"
| init_status: "init_block_pipeline_status E s extra = Some t \<Longrightarrow> pipeline_step E s t"
| skip: "pipeline_test_skip_mining E s pow sd = Some t \<Longrightarrow> pipeline_step E s t"

inductive pipeline_reachable :: "pipeline_ext \<Rightarrow> MiningPipelineInfo \<Rightarrow> bool" for E where
  fresh: "pipeline_reachable E MiningPipelineInfo_default"
| imported: "pipeline_reachable E (from_import v)"
| step: "pipeline_reachable E s \<Longrightarrow> pipeline_step E s t \<Longrightarrow> pipeline_reachable E t"

inductive_cases pipeline_stepE: "pipeline_step E s t"

lemma fmmap_empty_iff: "fmmap f m = fmempty \<longleftrightarrow> m = fmempty"
  by (simp add: fmempty_iff_lookup)

lemma pipeline_inv_flush [inv_intros]:
  "pipeline_inv s \<Longrightarrow>
   pipeline_inv (cleanup_participants_mining (cleanup_participant_intake s ms) ms)"
  by (auto simp: pipeline_inv_def cleanup_participants_mining_def cleanup_participant_intake_def
      fmmap_empty_iff fmpred_iff intro!: participants_ok_retain)

lemma pipeline_inv_skip [inv_intros]:
  assumes "pipeline_inv s" and "pipeline_test_skip_mining E s pow sd = Some t"
  shows "pipeline_inv t"
proof -
  obtain b s1 where s1: "unicorn_select_participants_mining E (s\<lparr>current_block := b\<rparr>) usize_MAX = Some s1"
    and t: "start_winning_pow_halted E (s1\<lparr>all_winning_pow := all_winning_pow s1 @ [pow]\<rparr>) = Some t"
    using assms(2) by (auto simp: pipeline_test_skip_mining_def option_bind_Some_iff Let_def)
  have "fmpred (\<lambda>_. participants_ok) (participants_mining s1)"
    using select_mining_ok [OF s1] assms(1) by (simp add: pipeline_inv_def)
  moreover have "empty_participants s1 = Participants_default"
    by (subst unicorn_select_frame [OF s1]) (use assms(1) in \<open>simp add: pipeline_inv_def\<close>)
  moreover have "participants_intake s1 = fmempty" by (rule select_mining_lookup(2) [OF s1])
  ultimately show ?thesis
    using t by (auto simp: start_winning_pow_halted_def pipeline_inv_def option_bind_Some_iff Let_def)
qed

text \<open>Updates the invariant does not read.\<close>

lemma pipeline_inv_frame [simp]:
  "pipeline_inv (s\<lparr>current_block := b\<rparr>) = pipeline_inv s"
  "pipeline_inv (s\<lparr>current_block_tx := txs\<rparr>) = pipeline_inv s"
  "pipeline_inv (s\<lparr>current_block_num := bn\<rparr>) = pipeline_inv s"
  "pipeline_inv (s\<lparr>current_reward := r\<rparr>) = pipeline_inv s"
  "pipeline_inv (s\<lparr>proposed_keys := ks\<rparr>) = pipeline_inv s"
  "pipeline_inv (s\<lparr>unicorn_fixed_param := fp\<rparr>) = pipeline_inv s"
  "pipeline_inv (s\<lparr>unicorn_info := ui\<rparr>) = pipeline_inv s"
  by (simp_all add: pipeline_inv_def)

lemma pipeline_inv_step:
  assumes "pipeline_inv s" and "pipeline_step E s t"
  shows "pipeline_inv t"
  using assms(2)
proof (cases rule: pipeline_step.cases)
  case (init_status extra)
  then show ?thesis using assms(1)
    by (auto simp: init_block_pipeline_status_def split: if_splits intro: inv_intros)
next
  case unicorn
  then show ?thesis using assms(1)
    by (auto simp: pipeline_construct_unicorn_def option_bind_Some_iff Let_def)
next
  case (handle item extra c)
  with assms(1) show ?thesis by (rule pipeline_inv_handle)
next
  case (start extra)
  with assms(1) show ?thesis by (rule pipeline_inv_start_items_intake)
next
  case (skip pow sd)
  with assms(1) show ?thesis by (rule pipeline_inv_skip)
next
  case (flush miners)
  with assms(1) show ?thesis by (simp only: pipeline_inv_flush)
qed (use assms(1) in \<open>simp_all add: pipeline_set_committed_mining_block_def
        pipeline_take_mining_block_def pipeline_apply_ready_block_stored_info_def
        add_proposed_key_def clear_proposed_keys_def with_unicorn_fixed_param_def\<close>)

section \<open>Absence of panics\<close>

lemma get_unicorn_prn_cong:
  "unicorn_info s = unicorn_info t \<Longrightarrow> get_unicorn_prn E s un = get_unicorn_prn E t un"
  by (simp add: get_unicorn_prn_def)

lemma unicorn_info_item_applied [simp]:
  "unicorn_info (item_applied self item extra) = unicorn_info self"
  unfolding item_applied_def
  by (cases "(self, proposer_id extra, item, mining_pipeline_status self)" rule: apply_pipeline_item.cases)
    (auto simp: add_to_participants_def append_current_phase_timeout_def
      add_to_winning_pow_def append_reset_pipeline_timeout_def)

lemma status_item_applied [simp]:
  "mining_pipeline_status (item_applied self item extra) = mining_pipeline_status self"
  unfolding item_applied_def
  by (cases "(self, proposer_id extra, item, mining_pipeline_status self)" rule: apply_pipeline_item.cases)
    (auto simp: add_to_participants_def append_current_phase_timeout_def
      add_to_winning_pow_def append_reset_pipeline_timeout_def)

lemma select_entries_defined:
  assumes "get_unicorn_prn E self MINER_PARTICIPATION_UN = Some prn"
  shows "\<exists>es'. select_entries E self sz es = Some es'"
proof (induction es)
  case (Cons e es)
  obtain us where "swap_with_unicorn E self MINER_PARTICIPATION_UN (unsorted (snd e)) = Some us"
    using swap_loop_defined [OF assms, of "[0..<length (unsorted (snd e))]" "unsorted (snd e)"]
    by (auto simp: swap_with_unicorn_def)
  then show ?case using Cons by (cases e) (auto simp: select_participants_def Let_def)
qed simp

lemma start_items_intake_defined:
  assumes "get_unicorn_prn E self MINER_PARTICIPATION_UN = Some prn"
  shows "\<exists>t. start_items_intake E self extra = Some t"
  using select_entries_defined [OF assms, of "partition_full_size extra"
      "sorted_list_of_fmap (participants_intake self)"]
  by (auto simp: start_items_intake_def unicorn_select_participants_mining_def)

lemma start_winning_pow_halted_defined:
  assumes "get_unicorn_prn E self WINNING_MINER_UN = Some prn"
  shows "\<exists>t. start_winning_pow_halted E self = Some t"
  using assms get_unicorn_prn_cong [of "self\<lparr>all_winning_pow := [], current_phase_timeout_peer_ids := {||}\<rparr>" self]
  by (simp add: start_winning_pow_halted_def get_unicorn_item_def Let_def)

section \<open>Properties\<close>

subsection \<open>A concrete pipeline to evaluate\<close>

definition demo_ext :: pipeline_ext where
  "demo_ext = \<lparr>unicorn_fns = ext7, fortuna_bytes = (\<lambda>_ _ k. Some (replicate k 1)),
     integer_to_string = (\<lambda>_. ''0'')\<rparr>"

definition demo_extra :: PipelineEventInfo where
  "demo_extra = \<lparr>proposer_id = 1, sufficient_majority = 1, unanimous_majority = 2,
     partition_full_size = 1\<rparr>"

definition demo_addr :: SocketAddr where
  "demo_addr = V4 0 8080"

definition demo_pow :: WinningPoWInfo where
  "demo_pow = \<lparr>pow_nonce = [], mining_tx = (''g0'', \<lparr>inputs = [], outputs = [], tx_version = 1,
     druid_info = None\<rparr>), p_value = 0, d_value = 0\<rparr>"

definition demo_unicorn_info :: UnicornInfo where
  "demo_unicorn_info = UnicornInfo_default\<lparr>g_value := replicate 32 CHR ''0''\<rparr>"

text \<open>Participant intake with two miners of one proposer.\<close>

definition demo_intake :: MiningPipelineInfo where
  "demo_intake = MiningPipelineInfo_default\<lparr>mining_pipeline_status := ParticipantOnlyIntake,
     unicorn_info := demo_unicorn_info,
     participants_intake := fmupd 1 \<lparr>unsorted = [demo_addr, V4 1 8080],
       lookup = {|demo_addr, V4 1 8080|}\<rparr> fmempty\<rparr>"

text \<open>Proof-of-work intake with one participant and no proof of work yet.\<close>

definition demo_mining :: MiningPipelineInfo where
  "demo_mining = MiningPipelineInfo_default\<lparr>mining_pipeline_status := AllItemsIntake,
     unicorn_info := demo_unicorn_info, current_phase_timeout_peer_ids := {|1|},
     participants_mining := fmupd 1 \<lparr>unsorted = [demo_addr], lookup = {|demo_addr|}\<rparr> fmempty\<rparr>"

lemmas demo_defs = demo_extra_def demo_addr_def demo_pow_def demo_unicorn_info_def
  demo_intake_def demo_mining_def MiningPipelineInfo_default_def UnicornInfo_default_def
  Participants_default_def

lemma demo_mining_inv: "pipeline_inv demo_mining"
  by (auto simp: pipeline_inv_def participants_ok_def demo_defs fmpred_iff split: if_splits)

lemma demo_intake_inv: "pipeline_inv demo_intake"
  by (auto simp: pipeline_inv_def participants_ok_def demo_defs fmpred_iff split: if_splits)

lemma demo_prn: "get_unicorn_prn demo_ext s un =
    (if length (g_value (unicorn_info s)) < 32 then None else Some (word_rcat (replicate 8 (1 :: u8))))"
  by (simp add: get_unicorn_prn_def demo_ext_def as_bytes_def Let_def)

lemma demo_mining_halts:
  "\<exists>t. handle_mining_pipeline_item demo_ext demo_mining (WinningPoW demo_addr demo_pow) demo_extra
     = Some (t, Some StartPhaseHalted)"
  by (simp add: handle_mining_pipeline_item_def Let_def has_ready_reset_pipeline_def
      has_ready_select_winning_miner_def start_winning_pow_halted_def get_unicorn_item_def demo_prn
      add_to_winning_pow_def get_mining_participants_def Participants_contains_def demo_defs)

lemma demo_intake_starts:
  "\<exists>t. start_items_intake demo_ext demo_intake demo_extra = Some t"
  by (rule start_items_intake_defined) (simp add: demo_prn demo_defs)

text \<open>C6: in every state the pipeline can reach, each participant collection lists distinct miners
  and its lookup set holds exactly the listed ones; a winner is recorded only while halted, proofs
  of work are collected only in the proof-of-work phase, and that phase has mining participants.\<close>

theorem pipeline_reachable_inv:
  "pipeline_reachable E s \<Longrightarrow> pipeline_inv s"
proof (induction rule: pipeline_reachable.induct)
  case fresh
  show ?case by (rule pipeline_inv_default)
next
  case (imported v)
  show ?case by (rule pipeline_inv_from_import)
next
  case (step s t)
  then show ?case by (blast intro: pipeline_inv_step)
qed

theorem pipeline_reachable_inv_witness:
  "pipeline_reachable demo_ext (add_proposed_key (from_import
     \<lparr>import_unicorn_fixed_param = \<lparr>fixed_modulus = ''7'', fixed_iterations = 2, fixed_security = 1\<rparr>,
      import_current_block_num = Some 4, import_current_block = None\<rparr>)
     \<lparr>key_proposer_id = 1, proposer_run = 0, proposal_id = 1\<rparr>) \<and>
   pipeline_inv (add_proposed_key (from_import
     \<lparr>import_unicorn_fixed_param = \<lparr>fixed_modulus = ''7'', fixed_iterations = 2, fixed_security = 1\<rparr>,
      import_current_block_num = Some 4, import_current_block = None\<rparr>)
     \<lparr>key_proposer_id = 1, proposer_run = 0, proposal_id = 1\<rparr>)"
  using pipeline_reachable_inv
    [OF pipeline_reachable.step [OF pipeline_reachable.imported pipeline_step.proposed]]
    pipeline_reachable.step [OF pipeline_reachable.imported pipeline_step.proposed]
  by blast

text \<open>C18: the phase graph of \<open>handle_mining_pipeline_item\<close>. With no reported change the status stays;
  proof-of-work intake starts only from participant intake, with a sufficient majority of timeout
  votes and of proposers with participants; the pipeline halts only from proof-of-work intake, with
  a sufficient majority of timeout votes; a reset needs the unanimous majority of reset votes and
  leaves an empty participant intake phase.\<close>

theorem pipeline_transitions:
  assumes "handle_mining_pipeline_item E s item extra = Some (t, c)"
    and "0 < sufficient_majority extra"
  defines "s1 \<equiv> item_applied s item extra"
  shows "case c of
      None \<Rightarrow> mining_pipeline_status t = mining_pipeline_status s
    | Some StartPhasePowIntake \<Rightarrow>
        mining_pipeline_status s = ParticipantOnlyIntake \<and> mining_pipeline_status t = AllItemsIntake \<and>
        sufficient_majority extra \<le> fcard (current_phase_timeout_peer_ids s1) \<and>
        sufficient_majority extra \<le> fmlen (participants_intake s1) \<and>
        participants_intake t = fmempty
    | Some StartPhaseHalted \<Rightarrow>
        mining_pipeline_status s = AllItemsIntake \<and> mining_pipeline_status t = Halted \<and>
        sufficient_majority extra \<le> fcard (current_phase_timeout_peer_ids s1) \<and>
        all_winning_pow s1 \<noteq> []
    | Some Reset \<Rightarrow>
        mining_pipeline_status t = ParticipantOnlyIntake \<and>
        unanimous_majority extra \<le> fcard (current_phase_reset_pipeline_peer_ids s1) \<and>
        participants_intake t = fmempty \<and> participants_mining t = fmempty \<and>
        current_phase_reset_pipeline_peer_ids t = {||}"
  using assms(1)
proof (cases rule: handle_cases)
  case reset
  then show ?thesis by (simp add: has_ready_reset_pipeline_def s1_def pipeline_cleared_def)
next
  case pow
  have ready: "sufficient_majority extra \<le> fcard (current_phase_timeout_peer_ids s1)"
    "sufficient_majority extra \<le> fmlen (participants_intake s1)"
    using pow(3) by (simp_all add: s1_def has_ready_select_participating_miners_def)
  with assms(2) have "participants_intake s1 \<noteq> fmempty" by auto
  with pow(5) have "mining_pipeline_status t = AllItemsIntake \<and> participants_intake t = fmempty"
    unfolding s1_def by (cases rule: start_items_intake_cases) (auto dest: select_mining_lookup(2))
  then show ?thesis using pow(2,4) ready by simp
next
  case halted
  then show ?thesis
    by (auto simp: s1_def has_ready_select_winning_miner_def start_winning_pow_halted_def
        option_bind_Some_iff Let_def split: if_splits)
next
  case stay
  then show ?thesis by simp
qed

theorem pipeline_transitions_witness:
  "\<exists>t. handle_mining_pipeline_item demo_ext demo_mining (WinningPoW demo_addr demo_pow) demo_extra
      = Some (t, Some StartPhaseHalted) \<and> mining_pipeline_status t = Halted"
proof -
  obtain t where t: "handle_mining_pipeline_item demo_ext demo_mining (WinningPoW demo_addr demo_pow)
      demo_extra = Some (t, Some StartPhaseHalted)" using demo_mining_halts by blast
  have "0 < sufficient_majority demo_extra" by (simp add: demo_extra_def)
  from pipeline_transitions [OF t this] t show ?thesis by simp
qed

text \<open>C35: when the pipeline halts, the recorded winner is one of the collected proofs of work, at
  the index the UNICORN number selects, and a proof of work that the last item adds comes from a
  miner that takes part in the round for that proposer.\<close>

theorem pipeline_winner:
  assumes "handle_mining_pipeline_item E s item extra = Some (t, Some StartPhaseHalted)"
    and "pipeline_inv s"
  shows "\<exists>prn pows. get_unicorn_prn E s WINNING_MINER_UN = Some prn \<and>
     (pows = all_winning_pow s \<or>
      (\<exists>a info. item = WinningPoW a info \<and> pows = all_winning_pow s @ [(a, info)] \<and>
         a \<in> set (unsorted (get_mining_participants s (proposer_id extra))))) \<and>
     pows \<noteq> [] \<and> winning_pow t = Some (pows ! (unat prn mod length pows)) \<and>
     last_winning_hashes t = fset_of_list (map (\<lambda>p. fst (mining_tx (snd p))) pows)"
  using assms(1)
proof (cases rule: handle_cases)
  case halted
  define s1 where "s1 = item_applied s item extra"
  let ?s2 = "s1\<lparr>all_winning_pow := [], current_phase_timeout_peer_ids := {||}\<rparr>"
  have ne: "all_winning_pow s1 \<noteq> []"
    using halted(3) by (simp add: s1_def has_ready_select_winning_miner_def split: if_splits)
  have "get_unicorn_prn E ?s2 WINNING_MINER_UN = get_unicorn_prn E s WINNING_MINER_UN"
    by (rule get_unicorn_prn_cong) (simp add: s1_def)
  then obtain prn where prn: "get_unicorn_prn E s WINNING_MINER_UN = Some prn"
    and t: "winning_pow t = Some (all_winning_pow s1 ! (unat prn mod length (all_winning_pow s1)))"
      "last_winning_hashes t = fset_of_list (map (\<lambda>p. fst (mining_tx (snd p))) (all_winning_pow s1))"
    using halted(5) ne
    by (auto simp: s1_def [symmetric] start_winning_pow_halted_def get_unicorn_item_def
        option_bind_Some_iff Let_def case_prod_unfold)
  have ok: "participants_ok (get_mining_participants s pid)" for pid
    using assms(2) participants_ok_default
    by (auto simp: pipeline_inv_def get_mining_participants_def split: option.splits)
  have "all_winning_pow s1 = all_winning_pow s \<or>
      (\<exists>a info. item = WinningPoW a info \<and> all_winning_pow s1 = all_winning_pow s @ [(a, info)] \<and>
         a \<in> set (unsorted (get_mining_participants s (proposer_id extra))))"
    using halted(2) participants_contains_iff [OF ok] unfolding s1_def item_applied_def
    by (cases "(s, proposer_id extra, item, mining_pipeline_status s)" rule: apply_pipeline_item.cases)
      (auto simp: add_to_participants_def append_current_phase_timeout_def
        add_to_winning_pow_def append_reset_pipeline_timeout_def)
  then show ?thesis using prn t ne by blast
qed simp_all

theorem pipeline_winner_witness:
  "\<exists>t. handle_mining_pipeline_item demo_ext demo_mining (WinningPoW demo_addr demo_pow) demo_extra
      = Some (t, Some StartPhaseHalted) \<and> winning_pow t = Some (demo_addr, demo_pow)"
proof -
  obtain t where t: "handle_mining_pipeline_item demo_ext demo_mining (WinningPoW demo_addr demo_pow)
      demo_extra = Some (t, Some StartPhaseHalted)" using demo_mining_halts by blast
  have "all_winning_pow demo_mining = []" by (simp add: demo_defs)
  with pipeline_winner [OF t demo_mining_inv] t show ?thesis by auto
qed

text \<open>The participant selection of the proof-of-work phase. From a well-formed intake, every
  proposer keeps a duplicate-free subset of the miners it had, of size the smaller of the
  partition size and what it had, and no proposer is added or dropped.\<close>

lemma participants_selection:
  assumes "start_items_intake E s extra = Some t" and "pipeline_inv s"
    and "participants_intake s \<noteq> fmempty"
  shows "case fmlookup (participants_intake s) pid of
      None \<Rightarrow> fmlookup (participants_mining t) pid = None
    | Some ps \<Rightarrow> (\<exists>ps'. fmlookup (participants_mining t) pid = Some ps' \<and>
        distinct (unsorted ps') \<and> set (unsorted ps') \<subseteq> set (unsorted ps) \<and>
        length (unsorted ps') = min (partition_full_size extra) (length (unsorted ps)) \<and>
        lookup ps' = fset_of_list (unsorted ps'))"
  using assms(1)
proof (cases rule: start_items_intake_cases)
  case participants
  then show ?thesis using assms(3) by simp
next
  case (pow s1)
  obtain es where es: "select_entries E s (partition_full_size extra)
      (sorted_list_of_fmap (participants_intake s)) = Some es"
    and s1: "participants_mining s1 = fmap_of_list es"
    using pow(2) by (auto simp: unicorn_select_participants_mining_def option_bind_Some_iff)
  have keys: "fst ` set es = fset (fmdom (participants_intake s))"
    using select_entries_keys [OF es] by (metis fmkeys_def list.set_map set_fmkeys)
  show ?thesis
  proof (cases "fmlookup (participants_intake s) pid")
    case None
    then show ?thesis using pow(3) select_mining_lookup(1) [OF pow(2), of pid] by simp
  next
    case (Some ps)
    then have "pid \<in> fst ` set es" by (simp add: keys fmdomI)
    then obtain ps' where "fmlookup (participants_mining s1) pid = Some ps'"
      by (metis s1 fmlookup_of_list map_of_eq_None_iff not_None_eq)
    moreover from this have "select_participants E s (partition_full_size extra) ps = Some ps'"
      using Some select_mining_lookup(1) [OF pow(2), of pid] by simp
    moreover have "participants_ok ps" using assms(2) Some by (auto simp: pipeline_inv_def)
    ultimately show ?thesis
      using Some pow(3) select_participants_spec by (fastforce simp: participants_ok_def)
  qed
qed

lemma participants_selection_demo:
  "\<exists>t ps'. start_items_intake demo_ext demo_intake demo_extra = Some t \<and>
     fmlookup (participants_mining t) 1 = Some ps' \<and> length (unsorted ps') = 1"
proof -
  obtain t where t: "start_items_intake demo_ext demo_intake demo_extra = Some t"
    using demo_intake_starts by blast
  have "participants_intake demo_intake \<noteq> fmempty"
    by (simp add: demo_defs)
  from participants_selection [OF t demo_intake_inv this, of 1] t show ?thesis
    by (auto simp: demo_defs)
qed

text \<open>Handling an item never panics once the UNICORN value has the 32 bytes the generator is
  seeded with, given that the generator delivers the eight bytes it is asked for.\<close>

lemma pipeline_no_panic:
  assumes "32 \<le> length (g_value (unicorn_info s))"
    and fortuna: "\<And>sd un. \<exists>bs. fortuna_bytes E sd un 8 = Some bs \<and> length bs = 8"
  shows "\<exists>t c. handle_mining_pipeline_item E s item extra = Some (t, c)"
proof -
  let ?s1 = "item_applied s item extra"
  have prn: "\<exists>prn. get_unicorn_prn E ?s1 un = Some prn" for un
  proof -
    obtain bs where "fortuna_bytes E (take 32 (as_bytes (g_value (unicorn_info s)))) un 8 = Some bs"
      and "length bs = 8" using fortuna by blast
    then show ?thesis using assms(1) by (simp add: get_unicorn_prn_def Let_def as_bytes_def)
  qed
  obtain t1 where "start_items_intake E ?s1 extra = Some t1"
    using prn start_items_intake_defined by blast
  moreover obtain t2 where "start_winning_pow_halted E ?s1 = Some t2"
    using prn start_winning_pow_halted_defined by blast
  moreover have "\<exists>t c. handle_reset_pipeline E ?s1 extra = Some (t, c)"
    by (simp add: handle_reset_pipeline_def start_items_intake_def Let_def)
  ultimately show ?thesis
    unfolding handle_mining_pipeline_item_def Let_def item_applied_def [symmetric]
    by (auto split: MiningPipelineStatus.splits)
qed

lemma pipeline_no_panic_demo:
  "\<exists>t c. handle_mining_pipeline_item demo_ext demo_intake CompleteParticipant demo_extra = Some (t, c)"
  by (rule pipeline_no_panic) (simp_all add: demo_defs demo_ext_def)

end
