(* ===== verification/Raft_Util.thy ===== *)
theory Raft_Util
  imports Interfaces
begin

text \<open>
  The proposal side of consensus: \<^verbatim>\<open>src/active_raft.rs\<close> (the handle on the RAFT loop, as the
  commands it has sent and the commits it has buffered) and \<^verbatim>\<open>src/raft_util.rs\<close> (the
  proposals in flight, with their keys and their de-duplication by content hash). The RAFT
  algorithm itself is third-party code behind the command channel; serialisation and hashing are
  parameters (\<open>raft_codec\<close>).
\<close>

section \<open>Model\<close>

subsection \<open>The RAFT handle\<close>

type_synonym RaftData = bytes

datatype RaftCommitData = Proposed RaftData RaftData | CommitSnapshot RaftData | NewLeader

record RaftCommit =
  commit_term :: u64
  commit_index :: u64
  commit_data :: RaftCommitData

text \<open>A RAFT protocol message is carried as its serialised bytes.\<close>

datatype RaftCmd = Propose RaftData RaftData | Snapshot u64 RaftData bool | RaftMsg bytes | Close

record ActiveRaft =
  use_raft :: bool
  peer_id :: u64
  cmd_tx :: "RaftCmd list"
  committed_rx :: "RaftCommit list"
  peer_addr :: "(u64, SocketAddr) fmap"
  raft_peers_to_connect :: "SocketAddr list"
  raft_peer_addrs :: "SocketAddr list"

definition ActiveRaft_new :: "nat \<Rightarrow> SocketAddr list \<Rightarrow> bool \<Rightarrow> ActiveRaft may_panic" where
  "ActiveRaft_new node_idx node_specs raft =
     (if node_idx < length node_specs then
        let peers = map (\<lambda>idx. word_of_nat idx + 1) [0..<length node_specs];
            pid = peers ! node_idx;
            peer_addr_vec = filter (\<lambda>(idx, _). raft \<or> idx = pid) (zip peers node_specs)
        in Some \<lparr>use_raft = raft, peer_id = pid, cmd_tx = [], committed_rx = [],
             peer_addr = fmextend peer_addr_vec fmempty,
             raft_peers_to_connect = map snd (filter (\<lambda>(idx, _). idx < pid) peer_addr_vec),
             raft_peer_addrs = map snd (filter (\<lambda>(idx, _). idx \<noteq> pid) peer_addr_vec)\<rparr>
      else None)"

definition peers_len :: "ActiveRaft \<Rightarrow> nat" where
  "peers_len self = fmlen (peer_addr self)"

definition propose_data :: "ActiveRaft \<Rightarrow> RaftData \<Rightarrow> RaftData \<Rightarrow> ActiveRaft" where
  "propose_data self data ctx =
     (if use_raft self then self\<lparr>cmd_tx := cmd_tx self @ [Propose data ctx]\<rparr>
      else self\<lparr>committed_rx := committed_rx self @
        [\<lparr>commit_term = 0, commit_index = 0, commit_data = Proposed data ctx\<rparr>]\<rparr>)"

definition create_snapshot :: "ActiveRaft \<Rightarrow> u64 \<Rightarrow> RaftData \<Rightarrow> bool \<Rightarrow> ActiveRaft" where
  "create_snapshot self idx data backup =
     (if use_raft self then self\<lparr>cmd_tx := cmd_tx self @ [Snapshot idx data backup]\<rparr> else self)"

definition raft_received_message :: "ActiveRaft \<Rightarrow> bytes \<Rightarrow> ActiveRaft" where
  "raft_received_message self msg = self\<lparr>cmd_tx := cmd_tx self @ [RaftMsg msg]\<rparr>"

text \<open>\<open>next_commit\<close>: the oldest buffered commit; with an empty buffer it waits for the channel.\<close>

definition next_commit :: "ActiveRaft \<Rightarrow> (ActiveRaft \<times> RaftCommit) option" where
  "next_commit self =
     (case committed_rx self of
        [] \<Rightarrow> None
      | c # cs \<Rightarrow> Some (self\<lparr>committed_rx := cs\<rparr>, c))"

subsection \<open>Proposals in flight\<close>

record 'i raft_codec =
  item_serialize :: "'i \<Rightarrow> bytes option"
  item_deserialize :: "bytes \<Rightarrow> 'i option"
  key_serialize :: "RaftContextKey \<Rightarrow> bytes option"
  key_deserialize :: "bytes \<Rightarrow> RaftContextKey option"
  codec_digest :: "bytes \<Rightarrow> bytes"

record RaftInFlightProposals =
  proposed_in_flight :: "(RaftContextKey, RaftData \<times> RaftData) fmap"
  proposed_keys_b_num :: "(RaftContextKey, u64) fmap"
  proposed_last_id :: u64
  proposed_key_run :: "u64 option"
  already_proposed_hashes :: "(bytes, RaftContextKey \<times> u64) fmap"
  min_b_num :: u64

definition RaftInFlightProposals_default :: RaftInFlightProposals where
  "RaftInFlightProposals_default =
     \<lparr>proposed_in_flight = fmempty, proposed_keys_b_num = fmempty, proposed_last_id = 0,
      proposed_key_run = None, already_proposed_hashes = fmempty, min_b_num = 0\<rparr>"

definition in_flight_set_key_run :: "RaftInFlightProposals \<Rightarrow> u64 \<Rightarrow> RaftInFlightProposals" where
  "in_flight_set_key_run self key_run = self\<lparr>proposed_key_run := Some key_run\<rparr>"

definition in_flight_received_commit_proposal ::
    "'i raft_codec \<Rightarrow> RaftInFlightProposals \<Rightarrow> RaftData \<Rightarrow> RaftData \<Rightarrow>
     RaftInFlightProposals \<times> (RaftContextKey \<times> 'i \<times> bool) option" where
  "in_flight_received_commit_proposal C self raft_data raft_ctx =
     (case (item_deserialize C raft_data, key_deserialize C raft_ctx) of
        (Some item, Some key) \<Rightarrow>
          (self\<lparr>proposed_in_flight := fmdrop key (proposed_in_flight self),
                proposed_keys_b_num := fmdrop key (proposed_keys_b_num self)\<rparr>,
           Some (key, item, fmlookup (proposed_in_flight self) key \<noteq> None))
      | (None, Some _) \<Rightarrow> (self, None)
      | (_, None) \<Rightarrow> (self, None))"

definition check_deduplication ::
    "'i raft_codec \<Rightarrow> (bytes, RaftContextKey \<times> u64) fmap \<Rightarrow> u64 \<Rightarrow> bytes \<Rightarrow> u64 option \<Rightarrow>
     (bytes \<times> u64) option option" where
  "check_deduplication C hashes min_num idata dedup_b_num =
     (case dedup_b_num of
        Some bn \<Rightarrow>
          if min_num > bn then None
          else let data_hash = codec_digest C idata in
            (case fmlookup hashes data_hash of
               Some _ \<Rightarrow> None
             | None \<Rightarrow> Some (Some (data_hash, bn)))
      | None \<Rightarrow> Some None)"

definition in_flight_propose_item ::
    "'i raft_codec \<Rightarrow> RaftInFlightProposals \<Rightarrow> ActiveRaft \<Rightarrow> 'i \<Rightarrow> u64 option \<Rightarrow>
     (RaftInFlightProposals \<times> ActiveRaft \<times> RaftContextKey option) may_panic" where
  "in_flight_propose_item C self raft_active item dedup_b_num =
     do { data \<leftarrow> item_serialize C item;
          case check_deduplication C (already_proposed_hashes self) (min_b_num self) data dedup_b_num of
            None \<Rightarrow> Some (self, raft_active, None)
          | Some dedup_info \<Rightarrow> do {
              let self = self\<lparr>proposed_last_id := proposed_last_id self + 1\<rparr>;
              run \<leftarrow> proposed_key_run self;
              let key = \<lparr>key_proposer_id = peer_id raft_active, proposer_run = run,
                         proposal_id = proposed_last_id self\<rparr>;
              ctx \<leftarrow> key_serialize C key;
              let self = self\<lparr>proposed_in_flight :=
                fmupd key (data, ctx) (proposed_in_flight self)\<rparr>;
              let self = (case dedup_info of
                  Some (item_hash, bn) \<Rightarrow>
                    self\<lparr>already_proposed_hashes :=
                           fmupd item_hash (key, bn) (already_proposed_hashes self),
                         proposed_keys_b_num := fmupd key bn (proposed_keys_b_num self)\<rparr>
                | None \<Rightarrow> self);
              Some (self, propose_data raft_active data ctx, Some key) } }"

definition remove_key :: "RaftContextKey \<Rightarrow> RaftInFlightProposals \<Rightarrow> RaftInFlightProposals" where
  "remove_key key self =
     self\<lparr>proposed_in_flight := fmdrop key (proposed_in_flight self),
          proposed_keys_b_num := fmdrop key (proposed_keys_b_num self),
          already_proposed_hashes := fmretain (\<lambda>_ (k, _). k \<noteq> key) (already_proposed_hashes self)\<rparr>"

definition remove_all_keys :: "RaftInFlightProposals \<Rightarrow> RaftContextKey fset \<Rightarrow> RaftInFlightProposals" where
  "remove_all_keys self keys = fold remove_key (sorted_list_of_fset keys) self"

definition re_propose_item ::
    "RaftInFlightProposals \<Rightarrow> ActiveRaft \<Rightarrow> RaftContextKey \<Rightarrow> ActiveRaft" where
  "re_propose_item self raft_active key =
     (case fmlookup (proposed_in_flight self) key of
        Some (data, ctx) \<Rightarrow> propose_data raft_active data ctx
      | None \<Rightarrow> raft_active)"

definition re_propose_all_items :: "RaftInFlightProposals \<Rightarrow> ActiveRaft \<Rightarrow> ActiveRaft" where
  "re_propose_all_items self raft_active =
     fold (\<lambda>(data, ctx) r. propose_data r data ctx) (fmvalues (proposed_in_flight self))
       raft_active"

definition in_flight_re_propose_uncommitted_current_b_num ::
    "RaftInFlightProposals \<Rightarrow> ActiveRaft \<Rightarrow> u64 \<Rightarrow> ActiveRaft" where
  "in_flight_re_propose_uncommitted_current_b_num self raft_active current_bn =
     fold (\<lambda>(key, bn) r. if bn = current_bn then re_propose_item self r key else r)
       (sorted_list_of_fmap (proposed_keys_b_num self)) raft_active"

definition ignore_dedeup_b_num_less_than ::
    "RaftInFlightProposals \<Rightarrow> u64 \<Rightarrow> RaftInFlightProposals" where
  "ignore_dedeup_b_num_less_than self min_num =
     self\<lparr>min_b_num := min_num,
          already_proposed_hashes :=
            fmretain (\<lambda>_ (_, bn). min_num > bn) (already_proposed_hashes self),
          proposed_keys_b_num := fmretain (\<lambda>_ bn. min_num > bn) (proposed_keys_b_num self)\<rparr>"

subsection \<open>Backups\<close>

text \<open>\<open>BackupCheck\<close> of \<^verbatim>\<open>src/utils.rs\<close>, which both consensus nodes use.\<close>

record BackupCheck =
  backup_modulo_block_num :: "u64 option"

definition need_backup_at :: "BackupCheck \<Rightarrow> u64 \<Rightarrow> bool may_panic" where
  "need_backup_at self cur =
     (case backup_modulo_block_num self of
        None \<Rightarrow> Some False
      | Some m \<Rightarrow>
          if cur = 0 then Some False
          else if m = 0 then None else Some (cur mod m = 0))"

section \<open>Lemmas\<close>

subsection \<open>Outcomes of a proposal\<close>

lemma check_deduplication_Some:
  "check_deduplication C hashes mn data dedup = Some info \<Longrightarrow>
   info = map_option (\<lambda>bn. (codec_digest C data, bn)) dedup"
  by (auto simp: check_deduplication_def Let_def split: option.splits if_splits)

lemma propose_item_cases:
  assumes "in_flight_propose_item C s r item dedup = Some (s', r', ko)"
  obtains
    (ignored) data where "item_serialize C item = Some data"
      "check_deduplication C (already_proposed_hashes s) (min_b_num s) data dedup = None"
      "s' = s" "r' = r" "ko = None"
  | (proposed) data run ctx key where "item_serialize C item = Some data"
      "check_deduplication C (already_proposed_hashes s) (min_b_num s) data dedup \<noteq> None"
      "proposed_key_run s = Some run"
      "key = \<lparr>key_proposer_id = peer_id r, proposer_run = run, proposal_id = proposed_last_id s + 1\<rparr>"
      "key_serialize C key = Some ctx" "ko = Some key" "r' = propose_data r data ctx"
      "proposed_in_flight s' = fmupd key (data, ctx) (proposed_in_flight s)"
      "proposed_last_id s' = proposed_last_id s + 1" "proposed_key_run s' = proposed_key_run s"
      "min_b_num s' = min_b_num s"
      "case dedup of
         None \<Rightarrow> already_proposed_hashes s' = already_proposed_hashes s \<and>
                 proposed_keys_b_num s' = proposed_keys_b_num s
       | Some bn \<Rightarrow>
           already_proposed_hashes s' =
             fmupd (codec_digest C data) (key, bn) (already_proposed_hashes s) \<and>
           proposed_keys_b_num s' = fmupd key bn (proposed_keys_b_num s)"
proof -
  obtain data where data: "item_serialize C item = Some data"
    using assms by (auto simp: in_flight_propose_item_def option_bind_Some_iff)
  show thesis
  proof (cases "check_deduplication C (already_proposed_hashes s) (min_b_num s) data dedup")
    case None
    then show thesis
      using assms data by (intro ignored) (simp_all add: in_flight_propose_item_def)
  next
    case (Some info)
    obtain run where run: "proposed_key_run s = Some run"
      using assms data Some
      by (cases "proposed_key_run s") (simp_all add: in_flight_propose_item_def Let_def)
    let ?key = "\<lparr>key_proposer_id = peer_id r, proposer_run = run, proposal_id = proposed_last_id s + 1\<rparr>"
    obtain ctx where ctx: "key_serialize C ?key = Some ctx"
      using assms data Some run
      by (cases "key_serialize C ?key") (simp_all add: in_flight_propose_item_def Let_def)
    have info: "info = map_option (\<lambda>bn. (codec_digest C data, bn)) dedup"
      using Some by (rule check_deduplication_Some)
    show thesis
      by (rule proposed [of data run ?key ctx])
        (use assms data Some run ctx info in
          \<open>auto simp: in_flight_propose_item_def Let_def split: option.splits\<close>)
  qed
qed

lemma propose_item_no_dedup:
  "in_flight_propose_item C s r item None = Some (s', r', ko) \<Longrightarrow> ko \<noteq> None"
  by (auto simp: in_flight_propose_item_def check_deduplication_def option_bind_Some_iff Let_def)

lemma commit_in_flight:
  assumes "in_flight_received_commit_proposal C s data ctx = (s', Some (key, item, removed))"
  shows "item_deserialize C data = Some item" "key_deserialize C ctx = Some key"
    "proposed_in_flight s' = fmdrop key (proposed_in_flight s)"
    "removed \<longleftrightarrow> fmlookup (proposed_in_flight s) key \<noteq> None"
    "already_proposed_hashes s' = already_proposed_hashes s" "proposed_last_id s' = proposed_last_id s"
    "proposed_key_run s' = proposed_key_run s"
    "proposed_keys_b_num s' = fmdrop key (proposed_keys_b_num s)" "min_b_num s' = min_b_num s"
  using assms by (auto simp: in_flight_received_commit_proposal_def split: option.splits)

lemma commit_ignored:
  "in_flight_received_commit_proposal C s data ctx = (s', None) \<Longrightarrow> s' = s"
  by (auto simp: in_flight_received_commit_proposal_def split: option.splits)

lemma peer_id_propose_data [simp]: "peer_id (propose_data r data ctx) = peer_id r"
  by (simp add: propose_data_def)

subsection \<open>The log of proposals in flight, as its clients see it\<close>

text \<open>
  The interface: a finite map of pending proposals; a proposal enters under a fresh key, a commit
  takes its key out and reports whether it was pending here. The clients use it to account for
  what they have proposed: a weight summed over the pending proposals.
\<close>

locale in_flight_log =
  fixes pending :: "'s \<Rightarrow> ('k, 'v) fmap"
    and proposes :: "'s \<Rightarrow> 'k \<Rightarrow> 'v \<Rightarrow> 's \<Rightarrow> bool"
    and commits :: "'s \<Rightarrow> 'k \<Rightarrow> bool \<Rightarrow> 's \<Rightarrow> bool"
    and log_inv :: "'s \<Rightarrow> bool"
  assumes proposes_fresh: "log_inv s \<Longrightarrow> proposes s k v s' \<Longrightarrow> fmlookup (pending s) k = None"
    and proposes_pending: "log_inv s \<Longrightarrow> proposes s k v s' \<Longrightarrow> pending s' = fmupd k v (pending s)"
    and proposes_inv: "log_inv s \<Longrightarrow> proposes s k v s' \<Longrightarrow> log_inv s'"
    and commits_pending: "commits s k own s' \<Longrightarrow> pending s' = fmdrop k (pending s)"
    and commits_own: "commits s k own s' \<Longrightarrow> own \<longleftrightarrow> fmlookup (pending s) k \<noteq> None"
    and commits_inv: "log_inv s \<Longrightarrow> commits s k own s' \<Longrightarrow> log_inv s'"
begin

lemma weight_proposes:
  assumes "log_inv s" and "proposes s k v s'"
  shows "fmweight w (pending s') = fmweight w (pending s) + w v"
  using proposes_fresh [OF assms] proposes_pending [OF assms] by (simp add: fmweight_fmupd_fresh)

lemma weight_commits_own:
  assumes "commits s k True s'"
  obtains v where "fmlookup (pending s) k = Some v"
    and "fmweight w (pending s) = fmweight w (pending s') + w v"
proof -
  obtain v where "fmlookup (pending s) k = Some v" using commits_own [OF assms] by blast
  then show thesis using that fmweight_fmdrop [of "pending s" k v w] commits_pending [OF assms] by simp
qed

lemma weight_commits_other:
  assumes "commits s k False s'"
  shows "pending s' = pending s"
  using commits_own [OF assms] commits_pending [OF assms] by (auto intro!: fmap_ext)

lemma commits_once: "commits s k own s' \<Longrightarrow> commits s' k own' s'' \<Longrightarrow> \<not> own'"
  using commits_pending [of s k own s'] commits_own [of s' k own' s''] by simp

lemma commits_after_proposes:
  assumes "log_inv s" and "proposes s k v s'" and "commits s' k own s''"
  shows "own \<and> pending s'' = pending s"
  using proposes_fresh [OF assms(1,2)] proposes_pending [OF assms(1,2)]
    commits_own [OF assms(3)] commits_pending [OF assms(3)]
  by (simp add: fmdrop_fmupd_fresh)

end

text \<open>Keys of this peer and this run are numbered up to the last id.\<close>

definition in_flight_inv :: "u64 \<Rightarrow> RaftInFlightProposals \<Rightarrow> bool" where
  "in_flight_inv pid s \<longleftrightarrow>
     fmpred (\<lambda>k _. key_proposer_id k = pid \<and> proposed_key_run s = Some (proposer_run k) \<and>
        proposal_id k \<le> proposed_last_id s) (proposed_in_flight s)"

definition proposes_in_flight ::
    "'i raft_codec \<Rightarrow> RaftInFlightProposals \<times> ActiveRaft \<Rightarrow> RaftContextKey \<Rightarrow> RaftData \<times> RaftData \<Rightarrow>
     RaftInFlightProposals \<times> ActiveRaft \<Rightarrow> bool" where
  "proposes_in_flight C = (\<lambda>(s, r) k v (s', r').
     \<exists>item dedup. in_flight_propose_item C s r item dedup = Some (s', r', Some k) \<and>
       fmlookup (proposed_in_flight s') k = Some v \<and> proposed_last_id s + 1 \<noteq> 0)"

definition commits_in_flight ::
    "'i raft_codec \<Rightarrow> RaftInFlightProposals \<times> ActiveRaft \<Rightarrow> RaftContextKey \<Rightarrow> bool \<Rightarrow>
     RaftInFlightProposals \<times> ActiveRaft \<Rightarrow> bool" where
  "commits_in_flight C = (\<lambda>(s, r) k own (s', r'). r' = r \<and>
     (\<exists>data ctx item. in_flight_received_commit_proposal C s data ctx = (s', Some (k, item, own))))"

lemma word_less_succ: "x + 1 \<noteq> 0 \<Longrightarrow> x < (x :: u64) + 1"
  using unatSuc [of x] by (simp add: word_less_nat_alt add.commute)

lemma in_flight_inv_propose:
  assumes "in_flight_inv (peer_id r) s" and "proposed_last_id s + 1 \<noteq> 0"
    and "in_flight_propose_item C s r item dedup = Some (s', r', ko)"
  shows "in_flight_inv (peer_id r') s'"
    and "ko = Some k \<Longrightarrow> fmlookup (proposed_in_flight s) k = None"
proof -
  have "in_flight_inv (peer_id r') s' \<and> (ko = Some k \<longrightarrow> fmlookup (proposed_in_flight s) k = None)"
    using assms(3)
  proof (cases rule: propose_item_cases)
    case (ignored data)
    then show ?thesis using assms(1) by simp
  next
    case (proposed data run ctx key)
    have lt: "proposed_last_id s < proposed_last_id s + 1"
      using assms(2) by (rule word_less_succ)
    have "fmlookup (proposed_in_flight s) key = None"
    proof (rule ccontr)
      assume "fmlookup (proposed_in_flight s) key \<noteq> None"
      then have "proposal_id key \<le> proposed_last_id s"
        using assms(1) by (auto simp: in_flight_inv_def fmpred_iff)
      then show False using lt proposed(4) by simp
    qed
    moreover have "in_flight_inv (peer_id r') s'"
      using assms(1) proposed order_trans [OF _ less_imp_le [OF lt]]
      by (auto simp: in_flight_inv_def fmpred_iff split: if_splits)
    ultimately show ?thesis using proposed(6) by auto
  qed
  then show "in_flight_inv (peer_id r') s'"
    and "ko = Some k \<Longrightarrow> fmlookup (proposed_in_flight s) k = None" by simp_all
qed

lemma in_flight_inv_commit:
  assumes "in_flight_inv pid s" and "in_flight_received_commit_proposal C s data ctx = (s', res)"
  shows "in_flight_inv pid s'"
  using assms
  by (auto simp: in_flight_received_commit_proposal_def in_flight_inv_def fmpred_iff
      split: option.splits if_splits)

interpretation inflight: in_flight_log
  "\<lambda>(s, r). proposed_in_flight s" "proposes_in_flight C" "commits_in_flight C"
  "\<lambda>(s, r). in_flight_inv (peer_id r) s" for C :: "'i raft_codec"
proof (unfold_locales, goal_cases)
  case (1 s k v s')
  then show ?case
    by (cases s, cases s') (auto simp: proposes_in_flight_def dest: in_flight_inv_propose(2))
next
  case (2 s k v s')
  then show ?case
    by (cases s, cases s') (auto simp: proposes_in_flight_def elim!: propose_item_cases)
next
  case (3 s k v s')
  then show ?case
    by (cases s, cases s') (auto simp: proposes_in_flight_def dest: in_flight_inv_propose(1))
next
  case (4 s k own s')
  then show ?case by (cases s, cases s') (auto simp: commits_in_flight_def dest: commit_in_flight(3))
next
  case (5 s k own s')
  then show ?case by (cases s, cases s') (auto simp: commits_in_flight_def dest: commit_in_flight(4))
next
  case (6 s k own s')
  then show ?case
    by (cases s, cases s') (auto simp: commits_in_flight_def intro: in_flight_inv_commit)
qed

subsection \<open>The effect of advancing the block number\<close>

lemma fold_re_propose_none:
  assumes "\<forall>(key, bn) \<in> set xs. bn \<noteq> cur"
  shows "fold (\<lambda>(key, bn) r. if bn = cur then re_propose_item s r key else r) xs r = r"
  using assms by (induction xs arbitrary: r) auto

lemma ignore_dedup_b_nums:
  "fmlookup (proposed_keys_b_num (ignore_dedeup_b_num_less_than s m)) key = Some bn \<Longrightarrow> bn < m"
  "fmlookup (already_proposed_hashes (ignore_dedeup_b_num_less_than s m)) h = Some (key, bn) \<Longrightarrow> bn < m"
  by (auto simp: ignore_dedeup_b_num_less_than_def split: option.splits if_splits)

lemma commits_keep_hashes:
  "already_proposed_hashes
     (fold (\<lambda>(data, ctx) t. fst (in_flight_received_commit_proposal C t data ctx)) commits s)
   = already_proposed_hashes s"
  by (induction commits arbitrary: s)
    (auto simp: in_flight_received_commit_proposal_def split: option.splits)

lemma known_hash_ignored:
  "fmlookup hashes (codec_digest C data) \<noteq> None \<Longrightarrow>
   check_deduplication C hashes mn data (Some bn) = None"
  by (auto simp: check_deduplication_def)

section \<open>Properties\<close>

text \<open>A codec and states to evaluate the model on.\<close>

definition demo_codec :: "u8 raft_codec" where
  "demo_codec = \<lparr>item_serialize = (\<lambda>i. Some [i]),
     item_deserialize = (\<lambda>bs. case bs of [i] \<Rightarrow> Some i | _ \<Rightarrow> None),
     key_serialize = (\<lambda>k. Some [ucast (key_proposer_id k), ucast (proposer_run k), ucast (proposal_id k)]),
     key_deserialize = (\<lambda>bs. case bs of
         [p, r, i] \<Rightarrow> Some \<lparr>key_proposer_id = ucast p, proposer_run = ucast r, proposal_id = ucast i\<rparr>
       | _ \<Rightarrow> None),
     codec_digest = (\<lambda>bs. bs)\<rparr>"

definition demo_raft :: ActiveRaft where
  "demo_raft = \<lparr>use_raft = True, peer_id = 1, cmd_tx = [], committed_rx = [],
     peer_addr = fmempty, raft_peers_to_connect = [], raft_peer_addrs = []\<rparr>"

definition demo_flight :: RaftInFlightProposals where
  "demo_flight = in_flight_set_key_run RaftInFlightProposals_default 5"

definition demo_key :: RaftContextKey where
  "demo_key = \<lparr>key_proposer_id = 1, proposer_run = 5, proposal_id = 1\<rparr>"

definition demo_flight1 :: RaftInFlightProposals where
  "demo_flight1 = \<lparr>proposed_in_flight = fmupd demo_key ([9], [1, 5, 1]) fmempty,
     proposed_keys_b_num = fmupd demo_key 3 fmempty, proposed_last_id = 1,
     proposed_key_run = Some 5, already_proposed_hashes = fmupd [9] (demo_key, 3) fmempty,
     min_b_num = 0\<rparr>"

lemmas demo_flight_defs = demo_codec_def demo_raft_def demo_flight_def demo_key_def demo_flight1_def
  RaftInFlightProposals_default_def in_flight_set_key_run_def

lemma demo_propose:
  "in_flight_propose_item demo_codec demo_flight demo_raft 9 (Some 3)
   = Some (demo_flight1, propose_data demo_raft [9] [1, 5, 1], Some demo_key)"
  by (simp add: in_flight_propose_item_def check_deduplication_def Let_def demo_flight_defs)

lemma demo_flight_inv: "in_flight_inv (peer_id demo_raft) demo_flight"
  by (simp add: in_flight_inv_def demo_flight_defs)

text \<open>A proposal gets a key no pending proposal has, enters the pending proposals under that key
  and is handed to the RAFT loop once; the numbering invariant is kept. (The counter is 64 bits
  wide; the hypothesis excludes its wrap-around.)\<close>

lemma propose_item_fresh:
  assumes "in_flight_inv (peer_id r) s" and "proposed_last_id s + 1 \<noteq> 0"
    and "in_flight_propose_item C s r item dedup = Some (s', r', Some key)"
  shows "fmlookup (proposed_in_flight s) key = None \<and> in_flight_inv (peer_id r') s' \<and>
     (\<exists>data ctx. item_serialize C item = Some data \<and> key_serialize C key = Some ctx \<and>
        proposed_in_flight s' = fmupd key (data, ctx) (proposed_in_flight s) \<and>
        r' = propose_data r data ctx)"
proof -
  have "fmlookup (proposed_in_flight s) key = None" and "in_flight_inv (peer_id r') s'"
    using in_flight_inv_propose [OF assms] by blast+
  moreover from assms(3) have "\<exists>data ctx. item_serialize C item = Some data \<and>
      key_serialize C key = Some ctx \<and>
      proposed_in_flight s' = fmupd key (data, ctx) (proposed_in_flight s) \<and>
      r' = propose_data r data ctx"
    by (cases rule: propose_item_cases) auto
  ultimately show ?thesis by blast
qed

lemma propose_item_fresh_demo:
  "fmlookup (proposed_in_flight demo_flight) demo_key = None \<and>
   in_flight_inv 1 demo_flight1 \<and> demo_key \<in> fset (fmdom (proposed_in_flight demo_flight1))"
proof -
  have "proposed_last_id demo_flight + 1 \<noteq> 0" by (simp add: demo_flight_defs)
  from propose_item_fresh [OF demo_flight_inv this demo_propose] show ?thesis
    by (auto simp: demo_raft_def propose_data_def)
qed

text \<open>A commit of a proposal's own bytes reports the key and the item as proposed here, puts the
  pending proposals back as they were before, and a second commit of the same bytes is reported as
  not pending. The decoder is assumed to invert the encoder on this item and this key, as
  \<open>bincode\<close> documents.\<close>

lemma commit_of_own_proposal:
  assumes "in_flight_inv (peer_id r) s" and "proposed_last_id s + 1 \<noteq> 0"
    and item_roundtrip: "Option.bind (item_serialize C item) (item_deserialize C) = Some item"
    and key_roundtrip: "Option.bind (key_serialize C key) (key_deserialize C) = Some key"
    and "in_flight_propose_item C s r item dedup = Some (s', r', Some key)"
  shows "\<exists>data ctx s''. fmlookup (proposed_in_flight s') key = Some (data, ctx) \<and>
     in_flight_received_commit_proposal C s' data ctx = (s'', Some (key, item, True)) \<and>
     proposed_in_flight s'' = proposed_in_flight s \<and>
     snd (in_flight_received_commit_proposal C s'' data ctx) = Some (key, item, False)"
proof -
  from assms(5) obtain data ctx where d: "item_serialize C item = Some data"
    and c: "key_serialize C key = Some ctx"
    and f: "fmlookup (proposed_in_flight s') key = Some (data, ctx)"
    by (cases rule: propose_item_cases) auto
  have p: "proposes_in_flight C (s, r) key (data, ctx) (s', r')"
    using assms(2,5) f by (auto simp: proposes_in_flight_def)
  have decoded: "\<exists>t' own. in_flight_received_commit_proposal C t data ctx = (t', Some (key, item, own))" for t
    using item_roundtrip d key_roundtrip c by (simp add: in_flight_received_commit_proposal_def)
  obtain s'' own where s'': "in_flight_received_commit_proposal C s' data ctx = (s'', Some (key, item, own))"
    using decoded by blast
  then have q: "commits_in_flight C (s', r') key own (s'', r')" by (auto simp: commits_in_flight_def)
  obtain s3 own' where s3: "in_flight_received_commit_proposal C s'' data ctx = (s3, Some (key, item, own'))"
    using decoded by blast
  then have "commits_in_flight C (s'', r') key own' (s3, r')" by (auto simp: commits_in_flight_def)
  then have "\<not> own'" using inflight.commits_once [OF q] by blast
  moreover have "own \<and> proposed_in_flight s'' = proposed_in_flight s"
    using inflight.commits_after_proposes [OF _ p q] assms(1) by simp
  ultimately show ?thesis using f s'' s3 by auto
qed

lemma commit_of_own_proposal_demo:
  "\<exists>data ctx s''. fmlookup (proposed_in_flight demo_flight1) demo_key = Some (data, ctx) \<and>
     in_flight_received_commit_proposal demo_codec demo_flight1 data ctx
       = (s'', Some (demo_key, 9, True)) \<and>
     proposed_in_flight s'' = fmempty"
proof -
  have l: "proposed_last_id demo_flight + 1 \<noteq> 0" by (simp add: demo_flight_defs)
  have i: "Option.bind (item_serialize demo_codec 9) (item_deserialize demo_codec) = Some 9"
    by (simp add: demo_codec_def)
  have k: "Option.bind (key_serialize demo_codec demo_key) (key_deserialize demo_codec) = Some demo_key"
    by (simp add: demo_codec_def demo_key_def)
  have e: "proposed_in_flight demo_flight = fmempty" by (simp add: demo_flight_defs)
  show ?thesis using commit_of_own_proposal [OF demo_flight_inv l i k demo_propose] e by auto
qed

text \<open>An item proposed for a block is proposed once: until its key is removed, another proposal
  of the same item for any block, before or after commits, is ignored and changes nothing.\<close>

lemma propose_item_deduplicated:
  assumes "in_flight_propose_item C s r item (Some bn) = Some (s', r', Some key)"
    and "s'' = fold (\<lambda>(data, ctx) t. fst (in_flight_received_commit_proposal C t data ctx)) commits s'"
  shows "in_flight_propose_item C s'' r2 item (Some bn2) = Some (s'', r2, None)"
proof -
  have "already_proposed_hashes s'' = already_proposed_hashes s'"
    unfolding assms(2) by (rule commits_keep_hashes)
  moreover from assms(1) obtain data where "item_serialize C item = Some data"
    and "fmlookup (already_proposed_hashes s') (codec_digest C data) \<noteq> None"
    by (cases rule: propose_item_cases) auto
  ultimately show ?thesis by (simp add: in_flight_propose_item_def known_hash_ignored)
qed

lemma propose_item_deduplicated_demo:
  "in_flight_propose_item demo_codec demo_flight1 demo_raft 9 (Some 4)
   = Some (demo_flight1, demo_raft, None)"
  using propose_item_deduplicated [OF demo_propose, of demo_flight1 "[]"] by simp

text \<open>C37: moving the minimum block number to \<open>m\<close> forgets the proposals for the blocks from \<open>m\<close> on:
  none of them is re-proposed for such a block any more, and an item already proposed for such a
  block is accepted and handed to the RAFT loop a second time, under another key.\<close>

theorem ignore_dedup_forgets_current:
  assumes "in_flight_propose_item C s r item (Some bn) = Some (s', r', Some key)"
    and "m \<le> bn" and "\<And>k. key_serialize C k \<noteq> None"
  shows "in_flight_re_propose_uncommitted_current_b_num (ignore_dedeup_b_num_less_than s' m) r2 bn = r2 \<and>
     (\<exists>s'' r'' key'. in_flight_propose_item C (ignore_dedeup_b_num_less_than s' m) r' item (Some bn)
         = Some (s'', r'', Some key') \<and> key' \<noteq> key)"
proof -
  let ?t = "ignore_dedeup_b_num_less_than s' m"
  from assms(1) obtain data run where d: "item_serialize C item = Some data"
    and h: "fmlookup (already_proposed_hashes s') (codec_digest C data) = Some (key, bn)"
    and run: "proposed_key_run s' = Some run" and id: "proposal_id key = proposed_last_id s'"
    by (cases rule: propose_item_cases) auto
  have "check_deduplication C (already_proposed_hashes ?t) (min_b_num ?t) data (Some bn)
      = Some (Some (codec_digest C data, bn))"
    using h assms(2) by (simp add: check_deduplication_def ignore_dedeup_b_num_less_than_def)
  moreover have "proposed_key_run ?t = Some run" "proposed_last_id ?t = proposed_last_id s'"
    using run by (simp_all add: ignore_dedeup_b_num_less_than_def)
  moreover define key' where "key' = \<lparr>key_proposer_id = peer_id r', proposer_run = run,
      proposal_id = proposed_last_id s' + 1\<rparr>"
  moreover obtain ctx where "key_serialize C key' = Some ctx" using assms(3) by blast
  ultimately have "\<exists>s'' r''. in_flight_propose_item C ?t r' item (Some bn) = Some (s'', r'', Some key')"
    using d by (simp add: in_flight_propose_item_def Let_def)
  moreover have "key' \<noteq> key" using id by (auto simp: key'_def)
  moreover have "in_flight_re_propose_uncommitted_current_b_num ?t r2 bn = r2"
    unfolding in_flight_re_propose_uncommitted_current_b_num_def
    using ignore_dedup_b_nums(1) [of s' m _ bn] assms(2)
    by (intro fold_re_propose_none) (auto simp: set_sorted_list_of_fmap not_less [symmetric])
  ultimately show ?thesis by blast
qed

theorem ignore_dedup_forgets_current_witness:
  "in_flight_re_propose_uncommitted_current_b_num demo_flight1 demo_raft 3
     = propose_data demo_raft [9] [1, 5, 1] \<and>
   in_flight_re_propose_uncommitted_current_b_num (ignore_dedeup_b_num_less_than demo_flight1 3)
     demo_raft 3 = demo_raft"
proof -
  have "\<And>k. key_serialize demo_codec k \<noteq> None" by (simp add: demo_codec_def)
  from ignore_dedup_forgets_current [OF demo_propose _ this, of 3 demo_raft]
  have "in_flight_re_propose_uncommitted_current_b_num (ignore_dedeup_b_num_less_than demo_flight1 3)
     demo_raft 3 = demo_raft" by simp
  moreover have "in_flight_re_propose_uncommitted_current_b_num demo_flight1 demo_raft 3
     = propose_data demo_raft [9] [1, 5, 1]"
    by code_simp
  ultimately show ?thesis by simp
qed

end
