(* ===== verification/Tracked_Utxo.thy ===== *)
theory Tracked_Utxo
  imports Interfaces
begin

text \<open>
  The UTXO set with its index by address: \<^verbatim>\<open>src/tracked_utxo.rs\<close>, with the iterator helpers
  it takes from \<^verbatim>\<open>src/utils.rs\<close>. The state is the record \<open>TrackedUtxoSet\<close>: the set itself
  (\<open>base\<close>) and the outpoints of each \<open>script_public_key\<close> (\<open>pk_cache\<close>). Proved: when the index is
  sound and when it is exact, and what a balance query adds up. The locale \<open>utxo_view\<close> is what the
  block generation of the compute node relies on.
\<close>

section \<open>Model\<close>

record TrackedUtxoBalance =
  bal_total :: AssetValues
  bal_address_list :: AddressesWithOutPoints

record TrackedUtxoSet =
  base :: UtxoSet
  pk_cache :: "(string, OutPoint fset) fmap"

definition TrackedUtxoSet_default :: TrackedUtxoSet where
  "TrackedUtxoSet_default = \<lparr>base = fmempty, pk_cache = fmempty\<rparr>"

definition get_pk_with_out_point ::
    "naom_ext \<Rightarrow> (string \<times> Transaction) list \<Rightarrow> (string \<times> OutPoint) list" where
  "get_pk_with_out_point N txs =
     List.map_filter (\<lambda>(op, txout). map_option (\<lambda>spk. (spk, op)) (script_public_key txout))
       (tx_outs_of N txs)"

definition get_pk_with_out_point_from_utxo_set ::
    "(OutPoint \<times> TxOut) list \<Rightarrow> (string \<times> OutPoint) list" where
  "get_pk_with_out_point_from_utxo_set utxo_set =
     List.map_filter (\<lambda>(op, txout). map_option (\<lambda>spk. (spk, op)) (script_public_key txout)) utxo_set"

definition extend_pk_cache_vec ::
    "(string, OutPoint fset) fmap \<Rightarrow> (string \<times> OutPoint) list \<Rightarrow> (string, OutPoint fset) fmap" where
  "extend_pk_cache_vec cache spks =
     fold (\<lambda>(spk, op). fmentry {||} spk (finsert op)) spks cache"

definition create_pk_cache_from_base :: "UtxoSet \<Rightarrow> (string, OutPoint fset) fmap" where
  "create_pk_cache_from_base b =
     extend_pk_cache_vec fmempty (get_pk_with_out_point_from_utxo_set (sorted_list_of_fmap b))"

definition re_align :: "TrackedUtxoSet \<Rightarrow> TrackedUtxoSet" where
  "re_align self = self\<lparr>pk_cache := create_pk_cache_from_base (base self)\<rparr>"

definition get_base_outpoint_count :: "TrackedUtxoSet \<Rightarrow> u64" where
  "get_base_outpoint_count self = word_of_nat (fmlen (base self))"

definition get_tracked_outpoint_count :: "TrackedUtxoSet \<Rightarrow> u64" where
  "get_tracked_outpoint_count self =
     sum_list (map (\<lambda>v. word_of_nat (fcard v)) (fmvalues (pk_cache self)))"

definition TrackedUtxoSet_new :: "UtxoSet \<Rightarrow> TrackedUtxoSet" where
  "TrackedUtxoSet_new b = \<lparr>base = b, pk_cache = create_pk_cache_from_base b\<rparr>"

definition into_utxoset :: "TrackedUtxoSet \<Rightarrow> UtxoSet" where
  "into_utxoset self = base self"

definition get_pk_cache_vec :: "TrackedUtxoSet \<Rightarrow> string \<Rightarrow> OutPoint fset option" where
  "get_pk_cache_vec self key = fmlookup (pk_cache self) key"

definition extend_tracked_utxo_set :: "naom_ext \<Rightarrow> TrackedUtxoSet \<Rightarrow> TxMap \<Rightarrow> TrackedUtxoSet" where
  "extend_tracked_utxo_set N self block_tx =
     (let self = self\<lparr>base := fmextend (tx_outs_of N (sorted_list_of_fmap block_tx)) (base self)\<rparr>
      in self\<lparr>pk_cache := extend_pk_cache_vec (pk_cache self)
           (get_pk_with_out_point N (sorted_list_of_fmap block_tx))\<rparr>)"

definition remove_tracked_utxo_entry ::
    "TrackedUtxoSet \<Rightarrow> OutPoint \<Rightarrow> TrackedUtxoSet \<times> OutPoint option" where
  "remove_tracked_utxo_entry self key =
     (case fmlookup (base self) key of
        None \<Rightarrow> (self, None)
      | Some txout \<Rightarrow>
          let self = self\<lparr>base := fmdrop key (base self)\<rparr> in
          (case script_public_key txout of
             None \<Rightarrow> (self, None)
           | Some spk \<Rightarrow>
               (case fmlookup (pk_cache self) spk of
                  None \<Rightarrow> (self, None)
                | Some pk_cache_entry \<Rightarrow>
                    let pk_cache_entry =
                      ffilter (\<lambda>op. t_hash op \<noteq> t_hash key \<and> out_n op \<noteq> out_n key) pk_cache_entry
                    in (self\<lparr>pk_cache :=
                          (if pk_cache_entry = {||} then fmdrop spk (pk_cache self)
                           else fmupd spk pk_cache_entry (pk_cache self))\<rparr>,
                        Some key))))"

text \<open>The loop state of a balance query: the outpoints seen, the list by address, the total.\<close>

type_synonym balance_acc = "OutPoint fset \<times> AddressesWithOutPoints \<times> AssetValues"

definition balance_step ::
    "naom_ext \<Rightarrow> TrackedUtxoSet \<Rightarrow> string \<Rightarrow> OutPoint \<Rightarrow> balance_acc \<Rightarrow> balance_acc may_panic" where
  "balance_step N self address op = (\<lambda>(known_op, address_list, total).
     if op |\<in>| known_op then Some (known_op, address_list, total)
     else do {
       t_out \<leftarrow> fmlookup (base self) op;
       let asset = with_fixed_hash N (txout_value t_out) op;
       Some (finsert op known_op,
         fmentry [] address (\<lambda>l. l @ [\<lparr>od_out_point = op, od_value = asset\<rparr>]) address_list,
         update_add N total asset) })"

fun balance_ops ::
    "naom_ext \<Rightarrow> TrackedUtxoSet \<Rightarrow> string \<Rightarrow> OutPoint list \<Rightarrow> balance_acc \<Rightarrow> balance_acc may_panic" where
  "balance_ops N self address [] acc = Some acc"
| "balance_ops N self address (op # ops) acc =
     do { acc \<leftarrow> balance_step N self address op acc; balance_ops N self address ops acc }"

fun balance_addresses ::
    "naom_ext \<Rightarrow> TrackedUtxoSet \<Rightarrow> string list \<Rightarrow> balance_acc \<Rightarrow> balance_acc may_panic" where
  "balance_addresses N self [] acc = Some acc"
| "balance_addresses N self (address # addresses) acc =
     do { acc \<leftarrow> (case get_pk_cache_vec self address of
              Some ops \<Rightarrow> balance_ops N self address (sorted_list_of_fset ops) acc
            | None \<Rightarrow> Some acc);
          balance_addresses N self addresses acc }"

definition get_balance_for_addresses ::
    "naom_ext \<Rightarrow> TrackedUtxoSet \<Rightarrow> string list \<Rightarrow> TrackedUtxoBalance may_panic" where
  "get_balance_for_addresses N self addresses =
     map_option (\<lambda>(_, address_list, total).
         \<lparr>bal_total = total, bal_address_list = address_list\<rparr>)
       (balance_addresses N self addresses ({||}, fmempty, AssetValues_default))"

definition get_all_addresses :: "TrackedUtxoSet \<Rightarrow> string list" where
  "get_all_addresses self = List.map_filter script_public_key (fmvalues (base self))"

section \<open>Specification of the index\<close>

text \<open>The outpoints of an address according to the index, and according to the set itself.\<close>

definition cached :: "TrackedUtxoSet \<Rightarrow> string \<Rightarrow> OutPoint set" where
  "cached s spk = (case fmlookup (pk_cache s) spk of None \<Rightarrow> {} | Some ops \<Rightarrow> fset ops)"

definition owned :: "UtxoSet \<Rightarrow> string \<Rightarrow> OutPoint set" where
  "owned b spk = {op. \<exists>t. fmlookup b op = Some t \<and> script_public_key t = Some spk}"

definition pk_cache_sound :: "TrackedUtxoSet \<Rightarrow> bool" where
  "pk_cache_sound s \<longleftrightarrow> (\<forall>spk. cached s spk \<subseteq> owned (base s) spk)"

definition pk_cache_exact :: "TrackedUtxoSet \<Rightarrow> bool" where
  "pk_cache_exact s \<longleftrightarrow> (\<forall>spk. cached s spk = owned (base s) spk)"

section \<open>Lemmas\<close>

lemma exact_sound: "pk_cache_exact s \<Longrightarrow> pk_cache_sound s"
  by (simp add: pk_cache_exact_def pk_cache_sound_def)

lemma owned_unique: "op \<in> owned b spk \<Longrightarrow> op \<in> owned b spk' \<Longrightarrow> spk = spk'"
  by (auto simp: owned_def)

lemma cached_extend_pk_cache_vec:
  "cached (s\<lparr>pk_cache := extend_pk_cache_vec c spks\<rparr>) spk =
   cached (s\<lparr>pk_cache := c\<rparr>) spk \<union> {op. (spk, op) \<in> set spks}"
  unfolding extend_pk_cache_vec_def
  by (induction spks arbitrary: c)
    (auto simp: cached_def split: option.splits if_splits)

lemma set_get_pk:
  "(spk, op) \<in> set (get_pk_with_out_point_from_utxo_set xs) \<longleftrightarrow>
   (\<exists>t. (op, t) \<in> set xs \<and> script_public_key t = Some spk)"
  by (force simp: get_pk_with_out_point_from_utxo_set_def List.map_filter_def)

lemma get_pk_with_out_point_eq:
  "get_pk_with_out_point N txs = get_pk_with_out_point_from_utxo_set (tx_outs_of N txs)"
  by (simp add: get_pk_with_out_point_def get_pk_with_out_point_from_utxo_set_def)

lemma cached_create:
  "cached (s\<lparr>pk_cache := create_pk_cache_from_base b\<rparr>) spk = owned b spk"
proof -
  have "cached (s\<lparr>pk_cache := fmempty\<rparr>) spk = {}" by (simp add: cached_def)
  then show ?thesis
    by (auto simp: create_pk_cache_from_base_def cached_extend_pk_cache_vec set_get_pk owned_def
        set_sorted_list_of_fmap)
qed

lemma re_align_exact: "pk_cache_exact (re_align s)"
  using cached_create [where s = s and b = "base s"] by (simp add: pk_cache_exact_def re_align_def)

lemma new_exact: "pk_cache_exact (TrackedUtxoSet_new b)"
  using cached_create [where s = "\<lparr>base = b, pk_cache = fmempty\<rparr>" and b = b]
  by (simp add: pk_cache_exact_def TrackedUtxoSet_new_def)

subsection \<open>Extending the set\<close>

definition fresh_outs :: "(OutPoint \<times> TxOut) list \<Rightarrow> UtxoSet \<Rightarrow> bool" where
  "fresh_outs outs b \<longleftrightarrow> distinct (map fst outs) \<and> (\<forall>op \<in> set (map fst outs). fmlookup b op = None)"

lemma fmlookup_fmextend_fresh:
  assumes "fresh_outs outs b"
  shows "fmlookup (fmextend outs b) op = Some t \<longleftrightarrow> fmlookup b op = Some t \<or> (op, t) \<in> set outs"
proof -
  have m: "map_of (rev outs) op = Some t' \<longleftrightarrow> (op, t') \<in> set outs" for t'
    using assms map_of_eq_Some_iff [of "rev outs" op t'] by (simp add: fresh_outs_def rev_map [symmetric])
  show ?thesis
  proof (cases "map_of (rev outs) op")
    case None
    then have "(op, t) \<notin> set outs" using m [of t] by simp
    with None show ?thesis by (simp add: fmlookup_fmextend)
  next
    case (Some t')
    then have "fmlookup b op = None" using m [of t'] assms by (force simp: fresh_outs_def)
    with Some m [of t] show ?thesis by (simp add: fmlookup_fmextend)
  qed
qed

lemma base_extend [simp]:
  "base (extend_tracked_utxo_set N s txs) = fmextend (tx_outs_of N (sorted_list_of_fmap txs)) (base s)"
  by (simp add: extend_tracked_utxo_set_def Let_def)

lemma cached_extend:
  "cached (extend_tracked_utxo_set N s txs) spk = cached s spk \<union>
     {op. \<exists>t. (op, t) \<in> set (tx_outs_of N (sorted_list_of_fmap txs)) \<and> script_public_key t = Some spk}"
  using cached_extend_pk_cache_vec
      [where s = "s\<lparr>base := fmextend (tx_outs_of N (sorted_list_of_fmap txs)) (base s)\<rparr>"
        and c = "pk_cache s" and spk = spk]
  by (simp add: extend_tracked_utxo_set_def Let_def get_pk_with_out_point_eq set_get_pk cached_def)

lemma owned_extend:
  assumes "fresh_outs outs b"
  shows "owned (fmextend outs b) spk =
     owned b spk \<union> {op. \<exists>t. (op, t) \<in> set outs \<and> script_public_key t = Some spk}"
  by (auto simp: owned_def fmlookup_fmextend_fresh [OF assms])

lemma extend_exact:
  assumes "fresh_outs (tx_outs_of N (sorted_list_of_fmap txs)) (base s)" and "pk_cache_exact s"
  shows "pk_cache_exact (extend_tracked_utxo_set N s txs)"
  using assms by (simp add: pk_cache_exact_def cached_extend owned_extend)

lemma extend_sound:
  assumes "fresh_outs (tx_outs_of N (sorted_list_of_fmap txs)) (base s)" and "pk_cache_sound s"
  shows "pk_cache_sound (extend_tracked_utxo_set N s txs)"
  using assms by (force simp: pk_cache_sound_def cached_extend owned_extend)

subsection \<open>Removing an outpoint\<close>

lemma base_remove [simp]: "base (fst (remove_tracked_utxo_entry s key)) = fmdrop key (base s)"
  by (auto simp: remove_tracked_utxo_entry_def Let_def fmdom'_notD intro!: fmap_ext split: option.splits)

lemma cached_remove:
  "cached (fst (remove_tracked_utxo_entry s key)) spk =
     (if key \<in> owned (base s) spk
      then {op \<in> cached s spk. t_hash op \<noteq> t_hash key \<and> out_n op \<noteq> out_n key}
      else cached s spk)"
  by (auto simp: remove_tracked_utxo_entry_def Let_def cached_def owned_def split: option.splits)

lemma owned_fmdrop: "owned (fmdrop key b) spk = owned b spk - {key}"
  by (auto simp: owned_def split: if_splits)

lemma remove_sound:
  assumes "pk_cache_sound s"
  shows "pk_cache_sound (fst (remove_tracked_utxo_entry s key))"
  using assms by (auto simp: pk_cache_sound_def cached_remove owned_fmdrop subset_iff split: if_splits)

text \<open>An outpoint of the same address is dropped with \<open>key\<close> as soon as it shares its hash or its index.\<close>

definition collides :: "OutPoint \<Rightarrow> OutPoint \<Rightarrow> bool" where
  "collides key op \<longleftrightarrow> op \<noteq> key \<and> (t_hash op = t_hash key \<or> out_n op = out_n key)"

lemma OutPoint_eqI: "t_hash a = t_hash b \<Longrightarrow> out_n a = out_n b \<Longrightarrow> (a :: OutPoint) = b"
  by simp

lemma remove_exact_iff:
  assumes "pk_cache_exact s"
  shows "pk_cache_exact (fst (remove_tracked_utxo_entry s key)) \<longleftrightarrow>
     (\<forall>spk op. key \<in> owned (base s) spk \<longrightarrow> op \<in> owned (base s) spk \<longrightarrow> \<not> collides key op)"
proof -
  have "cached (fst (remove_tracked_utxo_entry s key)) spk = owned (fmdrop key (base s)) spk \<longleftrightarrow>
      (key \<in> owned (base s) spk \<longrightarrow> (\<forall>op \<in> owned (base s) spk. \<not> collides key op))" for spk
    using assms by (auto simp: pk_cache_exact_def cached_remove owned_fmdrop collides_def
        intro: OutPoint_eqI)
  then show ?thesis by (auto simp: pk_cache_exact_def)
qed

subsection \<open>Balances\<close>

text \<open>What a query has done so far, as the log of the outpoints it counted, with their address.\<close>

definition asset_at :: "naom_ext \<Rightarrow> TrackedUtxoSet \<Rightarrow> OutPoint \<Rightarrow> Asset" where
  "asset_at N s op = with_fixed_hash N (txout_value (the (fmlookup (base s) op))) op"

definition listed :: "AddressesWithOutPoints \<Rightarrow> string \<Rightarrow> OutPointData list" where
  "listed al a = (case fmlookup al a of None \<Rightarrow> [] | Some l \<Rightarrow> l)"

definition balance_log :: "naom_ext \<Rightarrow> TrackedUtxoSet \<Rightarrow> (string \<times> OutPoint) list \<Rightarrow> balance_acc \<Rightarrow> bool" where
  "balance_log N s log = (\<lambda>(known, al, total).
     distinct (map snd log) \<and> known = fset_of_list (map snd log) \<and>
     (\<forall>(a, op) \<in> set log. op \<in> cached s a) \<and>
     (\<forall>a. listed al a = map (\<lambda>(_, op). \<lparr>od_out_point = op, od_value = asset_at N s op\<rparr>)
        (filter (\<lambda>(a', _). a' = a) log)) \<and>
     total = fold (\<lambda>(_, op) t. update_add N t (asset_at N s op)) log AssetValues_default)"

lemma balance_step_log:
  assumes "pk_cache_sound s" and "balance_log N s log acc" and "op \<in> cached s a"
  shows "\<exists>log' acc'. balance_step N s a op acc = Some acc' \<and> balance_log N s log' acc' \<and>
     set (map snd log') = insert op (set (map snd log)) \<and> set (map fst log') \<subseteq> insert a (set (map fst log))"
proof -
  obtain known al total where acc: "acc = (known, al, total)" by (cases acc)
  show ?thesis
  proof (cases "op |\<in>| known")
    case True
    then show ?thesis
      using assms(2) acc
      by (intro exI [of _ log] exI [of _ acc])
        (auto simp: balance_step_def balance_log_def fset_of_list_elem)
  next
    case False
    obtain t where t: "fmlookup (base s) op = Some t"
      using assms(1,3) by (auto simp: pk_cache_sound_def owned_def)
    let ?acc = "(finsert op known,
        fmentry [] a (\<lambda>l. l @ [\<lparr>od_out_point = op, od_value = asset_at N s op\<rparr>]) al,
        update_add N total (asset_at N s op))"
    have "balance_step N s a op acc = Some ?acc"
      using False t acc by (simp add: balance_step_def asset_at_def Let_def)
    moreover have "balance_log N s (log @ [(a, op)]) ?acc"
      using assms(2,3) acc False
      by (auto simp: balance_log_def listed_def fset_of_list_elem split: option.splits)
    ultimately show ?thesis by (intro exI [of _ "log @ [(a, op)]"] exI [of _ ?acc]) auto
  qed
qed

lemma balance_ops_log:
  assumes "pk_cache_sound s" and "balance_log N s log acc" and "set ops \<subseteq> cached s a"
  shows "\<exists>log' acc'. balance_ops N s a ops acc = Some acc' \<and> balance_log N s log' acc' \<and>
     set (map snd log') = set ops \<union> set (map snd log) \<and> set (map fst log') \<subseteq> insert a (set (map fst log))"
  using assms(2,3)
proof (induction ops arbitrary: log acc)
  case Nil
  then show ?case by auto
next
  case (Cons op ops)
  obtain log1 acc1 where 1: "balance_step N s a op acc = Some acc1" "balance_log N s log1 acc1"
    "set (map snd log1) = insert op (set (map snd log))" "set (map fst log1) \<subseteq> insert a (set (map fst log))"
    using balance_step_log [OF assms(1) Cons.prems(1)] Cons.prems(2) by force
  obtain log2 acc2 where 2: "balance_ops N s a ops acc1 = Some acc2" "balance_log N s log2 acc2"
    "set (map snd log2) = set ops \<union> set (map snd log1)" "set (map fst log2) \<subseteq> insert a (set (map fst log1))"
    using Cons.IH [OF 1(2)] Cons.prems(2) by force
  have "set (map fst log2) \<subseteq> insert a (set (map fst log))" using 1(4) 2(4) by blast
  moreover have "set (map snd log2) = set (op # ops) \<union> set (map snd log)" using 1(3) 2(3) by simp
  moreover have "balance_ops N s a (op # ops) acc = Some acc2" using 1(1) 2(1) by simp
  ultimately show ?case using 2(2) by blast
qed

lemma balance_addresses_log:
  assumes "pk_cache_sound s" and "balance_log N s log acc"
  shows "\<exists>log' acc'. balance_addresses N s as acc = Some acc' \<and> balance_log N s log' acc' \<and>
     set (map snd log') = (\<Union>a \<in> set as. cached s a) \<union> set (map snd log) \<and>
     set (map fst log') \<subseteq> set as \<union> set (map fst log)"
  using assms(2)
proof (induction as arbitrary: log acc)
  case Nil
  then show ?case by auto
next
  case (Cons a as)
  have "\<exists>log1 acc1. (case get_pk_cache_vec s a of
        Some ops \<Rightarrow> balance_ops N s a (sorted_list_of_fset ops) acc
      | None \<Rightarrow> Some acc) = Some acc1 \<and> balance_log N s log1 acc1 \<and>
      set (map snd log1) = cached s a \<union> set (map snd log) \<and>
      set (map fst log1) \<subseteq> insert a (set (map fst log))"
  proof (cases "get_pk_cache_vec s a")
    case None
    then show ?thesis
      using Cons.prems by (intro exI [of _ log] exI [of _ acc]) (auto simp: cached_def get_pk_cache_vec_def)
  next
    case (Some ops)
    then have "set (sorted_list_of_fset ops) = cached s a"
      by (simp add: cached_def get_pk_cache_vec_def)
    then show ?thesis
      using Some balance_ops_log [OF assms(1) Cons.prems, of "sorted_list_of_fset ops" a] by simp
  qed
  then obtain log1 acc1 where 1: "(case get_pk_cache_vec s a of
        Some ops \<Rightarrow> balance_ops N s a (sorted_list_of_fset ops) acc
      | None \<Rightarrow> Some acc) = Some acc1" "balance_log N s log1 acc1"
      "set (map snd log1) = cached s a \<union> set (map snd log)"
      "set (map fst log1) \<subseteq> insert a (set (map fst log))" by blast
  from Cons.IH [OF 1(2)] obtain log2 acc2 where 2: "balance_addresses N s as acc1 = Some acc2"
    "balance_log N s log2 acc2"
    "set (map snd log2) = (\<Union>a \<in> set as. cached s a) \<union> set (map snd log1)"
    "set (map fst log2) \<subseteq> set as \<union> set (map fst log1)" by blast
  have "set (map fst log2) \<subseteq> set (a # as) \<union> set (map fst log)"
    using 1(4) 2(4) by (simp only: list.set) blast
  moreover have "set (map snd log2) = (\<Union>a \<in> set (a # as). cached s a) \<union> set (map snd log)"
    unfolding 2(3) 1(3) by auto
  moreover have "balance_addresses N s (a # as) acc = Some acc2" using 1(1) 2(1) by simp
  ultimately show ?case using 2(2) by blast
qed

section \<open>The set as the block generation sees it\<close>

text \<open>
  The interface: a UTXO set that outpoints can be spent from and that the outputs of a block can
  be added to, with an invariant on what is kept beside the set. Every client sees the set only.
\<close>

locale utxo_view =
  fixes view :: "'s \<Rightarrow> ('k, 'v) fmap"
    and spend :: "'s \<Rightarrow> 'k \<Rightarrow> 's"
    and add :: "'s \<Rightarrow> 'b \<Rightarrow> 's"
    and outs :: "'b \<Rightarrow> ('k \<times> 'v) list"
    and fresh :: "('k \<times> 'v) list \<Rightarrow> ('k, 'v) fmap \<Rightarrow> bool"
    and view_inv :: "'s \<Rightarrow> bool"
  assumes view_spend: "view (spend s k) = fmdrop k (view s)"
    and view_add: "view (add s b) = fmextend (outs b) (view s)"
    and inv_spend: "view_inv s \<Longrightarrow> view_inv (spend s k)"
    and inv_add: "view_inv s \<Longrightarrow> fresh (outs b) (view s) \<Longrightarrow> view_inv (add s b)"
begin

lemma view_spends: "fmlookup (view (fold (\<lambda>k s. spend s k) ks s)) k
    = (if k \<in> set ks then None else fmlookup (view s) k)"
  by (induction ks arbitrary: s) (auto simp: view_spend)

lemma inv_spends: "view_inv s \<Longrightarrow> view_inv (fold (\<lambda>k s. spend s k) ks s)"
  by (induction ks arbitrary: s) (auto intro: inv_spend)

lemma view_spends_add:
  "fmlookup (view (add (fold (\<lambda>k s. spend s k) ks s) b)) k =
     (case map_of (rev (outs b)) k of
        Some v \<Rightarrow> Some v
      | None \<Rightarrow> if k \<in> set ks then None else fmlookup (view s) k)"
  by (simp add: view_add fmlookup_fmextend view_spends split: option.split)

end

interpretation tracked: utxo_view base "\<lambda>s op. fst (remove_tracked_utxo_entry s op)"
  "extend_tracked_utxo_set N" "\<lambda>txs. tx_outs_of N (sorted_list_of_fmap txs)" fresh_outs pk_cache_sound
  for N
  by unfold_locales (auto intro: remove_sound extend_sound)

section \<open>Properties\<close>

text \<open>A library and a set with two outputs of one transaction, to evaluate the model on.\<close>

definition demo_naom :: naom_ext where
  "demo_naom = \<lparr>
     tx_outs_of = (\<lambda>txs. concat (map (\<lambda>(h, tx).
        map (\<lambda>(i, out). (\<lparr>t_hash = h, out_n = int i\<rparr>, out)) (List.enumerate 0 (outputs tx))) txs)),
     inputs_of = (\<lambda>txs. concat (map (\<lambda>tx. List.map_filter previous_out (inputs tx)) txs)),
     with_fixed_hash = (\<lambda>a _. a),
     update_add = (\<lambda>t a. case a of Token n \<Rightarrow> t\<lparr>tokens := tokens t + n\<rparr> | _ \<Rightarrow> t),
     token_amount = (\<lambda>a. case a of Token n \<Rightarrow> n | _ \<Rightarrow> 0),
     token_sum = sum_list, token_add = (+), token_div = (\<lambda>a b. if b = 0 then None else Some (a div b)), TOTAL_TOKENS = 2 ^ 40,
     Block_new = \<lparr>header = \<lparr>header_version = 0, bits = 0, nonce_and_mining_tx_hash = ([], []), b_num = 0,
         seed_value = [], previous_hash = None, txs_merkle_root_and_hash = ([], [])\<rparr>,
       transactions = []\<rparr>,
     set_txs_merkle_root_and_hash = (\<lambda>b. b)\<rparr>"

definition demo_out :: "u64 \<Rightarrow> string \<Rightarrow> TxOut" where
  "demo_out v spk = \<lparr>txout_value = Token v, locktime = 0, drs_block_hash = None,
     script_public_key = Some spk\<rparr>"

definition demo_op :: "string \<Rightarrow> int \<Rightarrow> OutPoint" where
  "demo_op h i = \<lparr>t_hash = h, out_n = i\<rparr>"

definition demo_utxo :: UtxoSet where
  "demo_utxo = fmupd (demo_op ''t'' 0) (demo_out 3 ''a'') (fmupd (demo_op ''t'' 1) (demo_out 4 ''a'') fmempty)"

definition demo_tx :: Transaction where
  "demo_tx = \<lparr>inputs = [], outputs = [demo_out 5 ''b''], tx_version = 0, druid_info = None\<rparr>"

text \<open>The index is exact after construction and after a re-alignment, whatever it was before, and
  stays exact when a block's outputs are added whose outpoints are new.\<close>

lemma pk_cache_exact_kept:
  "pk_cache_exact (TrackedUtxoSet_new b) \<and> pk_cache_exact (re_align s) \<and>
   (pk_cache_exact s \<and> fresh_outs (tx_outs_of N (sorted_list_of_fmap txs)) (base s) \<longrightarrow>
      pk_cache_exact (extend_tracked_utxo_set N s txs))"
  using new_exact re_align_exact extend_exact by blast

lemma pk_cache_exact_kept_demo:
  "pk_cache_exact (extend_tracked_utxo_set demo_naom (TrackedUtxoSet_new demo_utxo)
     (fmupd ''u'' demo_tx fmempty))"
proof -
  have "fresh_outs (tx_outs_of demo_naom (sorted_list_of_fmap (fmupd ''u'' demo_tx fmempty)))
      (base (TrackedUtxoSet_new demo_utxo))"
    by code_simp
  then show ?thesis
    using pk_cache_exact_kept [of demo_utxo "TrackedUtxoSet_new demo_utxo" demo_naom] by blast
qed

text \<open>C38: removing an outpoint from a set with an exact index keeps the index exact if and only if
  the address that owns it owns no other outpoint with the same transaction hash or the same output
  index; otherwise the index loses those outpoints, which the set still has.\<close>

theorem remove_entry_exact_iff:
  assumes "pk_cache_exact s"
  shows "base (fst (remove_tracked_utxo_entry s key)) = fmdrop key (base s) \<and>
    (pk_cache_exact (fst (remove_tracked_utxo_entry s key)) \<longleftrightarrow>
      (\<forall>spk op. key \<in> owned (base s) spk \<longrightarrow> op \<in> owned (base s) spk \<longrightarrow> \<not> collides key op)) \<and>
    (\<forall>spk op. key \<in> owned (base s) spk \<and> op \<in> owned (base s) spk \<and> collides key op \<longrightarrow>
      op \<in> owned (base (fst (remove_tracked_utxo_entry s key))) spk \<and>
      op \<notin> cached (fst (remove_tracked_utxo_entry s key)) spk)"
  using remove_exact_iff [OF assms]
  by (auto simp: owned_fmdrop cached_remove collides_def)

theorem remove_entry_exact_iff_witness:
  "pk_cache_exact (TrackedUtxoSet_new demo_utxo) \<and>
   \<not> pk_cache_exact (fst (remove_tracked_utxo_entry (TrackedUtxoSet_new demo_utxo) (demo_op ''t'' 0)))"
proof -
  have e: "pk_cache_exact (TrackedUtxoSet_new demo_utxo)" by (rule new_exact)
  have "demo_op ''t'' i \<in> owned (base (TrackedUtxoSet_new demo_utxo)) ''a''" if "i = 0 \<or> i = 1" for i
    using that by (auto simp: owned_def TrackedUtxoSet_new_def demo_utxo_def demo_op_def demo_out_def)
  moreover have "collides (demo_op ''t'' 0) (demo_op ''t'' 1)" by (simp add: collides_def demo_op_def)
  ultimately show ?thesis using e remove_entry_exact_iff [OF e, of "demo_op ''t'' 0"] by blast
qed

text \<open>With a sound index a balance query does not panic; it counts every outpoint indexed under
  one of the addresses exactly once, however often the address is asked for, lists each under an
  address that owns it, and its total is the sum over the listed assets in that order.\<close>

lemma balance_for_addresses:
  assumes "pk_cache_sound s"
  shows "\<exists>bal log. get_balance_for_addresses N s addresses = Some bal \<and>
     distinct (map snd log) \<and> set (map snd log) = (\<Union>a \<in> set addresses. cached s a) \<and>
     (\<forall>(a, op) \<in> set log. a \<in> set addresses \<and> op \<in> cached s a) \<and>
     (\<forall>a. listed (bal_address_list bal) a =
        map (\<lambda>(_, op). \<lparr>od_out_point = op, od_value = asset_at N s op\<rparr>) (filter (\<lambda>(a', _). a' = a) log)) \<and>
     bal_total bal = fold (\<lambda>(_, op) t. update_add N t (asset_at N s op)) log AssetValues_default"
proof -
  have init: "balance_log N s [] ({||}, fmempty, AssetValues_default)"
    by (simp add: balance_log_def listed_def)
  obtain log known al total where
    b: "balance_addresses N s addresses ({||}, fmempty, AssetValues_default) = Some (known, al, total)"
    and l: "balance_log N s log (known, al, total)"
    and c: "set (map snd log) = (\<Union>a \<in> set addresses. cached s a)"
    and a: "set (map fst log) \<subseteq> set addresses"
    using balance_addresses_log [OF assms init, of addresses] by auto
  have "a \<in> set addresses" if "(a, op) \<in> set log" for a op
    using that a by force
  then show ?thesis
    using b l c
    by (intro exI [of _ "\<lparr>bal_total = total, bal_address_list = al\<rparr>"] exI [of _ log])
      (auto simp: get_balance_for_addresses_def balance_log_def)
qed

lemma balance_for_addresses_demo:
  "\<exists>bal. get_balance_for_addresses demo_naom (TrackedUtxoSet_new demo_utxo) [''a'', ''a''] = Some bal \<and>
     tokens (bal_total bal) = 7"
proof -
  have "pk_cache_sound (TrackedUtxoSet_new demo_utxo)" by (rule exact_sound [OF new_exact])
  from balance_for_addresses [OF this, of demo_naom "[''a'', ''a'']"]
  obtain bal where "get_balance_for_addresses demo_naom (TrackedUtxoSet_new demo_utxo) [''a'', ''a''] = Some bal"
    by blast
  moreover have "map_option (\<lambda>bal. tokens (bal_total bal))
      (get_balance_for_addresses demo_naom (TrackedUtxoSet_new demo_utxo) [''a'', ''a'']) = Some 7"
    by code_simp
  ultimately show ?thesis by simp
qed

end
