(* ===== verification/Genesis.thy ===== *)
theory Genesis
  imports Interfaces
begin

text \<open>
  The genesis transactions a compute node starts from: \<open>make_utxo_set_from_seed\<close> of
  \<^verbatim>\<open>src/utils.rs\<close> with the key decoding it calls. The routine caches decoded addresses
  in a map that its closures share; the model passes that map along. Hex decoding, key parsing and
  address construction are third-party functions (\<open>genesis_ext\<close>).
\<close>

section \<open>Model\<close>

record TxOutSpec =
  spec_public_key :: string
  spec_amount :: TokenAmount

type_synonym UtxoSetSpec = "(string, TxOutSpec list) fmap"

record genesis_ext =
  hex_decode :: "string \<Rightarrow> bytes option"
  PublicKey_from_slice :: "bytes \<Rightarrow> bytes option"
  construct_address :: "bytes \<Rightarrow> string"
  TxOut_new_token_amount :: "string \<Rightarrow> TokenAmount \<Rightarrow> TxOut"
  Script_new :: Script
  Transaction_default :: Transaction

datatype StringError = StringError string

definition decode_pub_key :: "genesis_ext \<Rightarrow> string \<Rightarrow> StringError + bytes" where
  "decode_pub_key G key =
     (case Option.bind (hex_decode G key) (PublicKey_from_slice G) of
        Some k \<Rightarrow> Inr k
      | None \<Rightarrow> Inl (StringError (''Public key decoding error: '' @ key)))"

definition decode_pub_key_as_address :: "genesis_ext \<Rightarrow> string \<Rightarrow> string may_panic" where
  "decode_pub_key_as_address G key =
     (case decode_pub_key G key of Inr k \<Rightarrow> Some (construct_address G k) | Inl _ \<Rightarrow> None)"

definition genesis_tx_out ::
    "genesis_ext \<Rightarrow> (string, string) fmap \<Rightarrow> TxOutSpec \<Rightarrow> ((string, string) fmap \<times> TxOut) may_panic" where
  "genesis_tx_out G pk_to_address out =
     do { (pk_to_address, addr) \<leftarrow>
            (case fmlookup pk_to_address (spec_public_key out) of
               Some addr \<Rightarrow> Some (pk_to_address, addr)
             | None \<Rightarrow> do {
                 addr \<leftarrow> decode_pub_key_as_address G (spec_public_key out);
                 Some (fmupd (spec_public_key out) addr pk_to_address, addr) });
          Some (pk_to_address, TxOut_new_token_amount G addr (spec_amount out)) }"

fun genesis_tx_outs ::
    "genesis_ext \<Rightarrow> (string, string) fmap \<Rightarrow> TxOutSpec list \<Rightarrow>
     ((string, string) fmap \<times> TxOut list) may_panic" where
  "genesis_tx_outs G cache [] = Some (cache, [])"
| "genesis_tx_outs G cache (out # outs) =
     do { (cache, t) \<leftarrow> genesis_tx_out G cache out;
          (cache, ts) \<leftarrow> genesis_tx_outs G cache outs;
          Some (cache, t # ts) }"

fun genesis_txs ::
    "genesis_ext \<Rightarrow> TxIn option \<Rightarrow> (string, string) fmap \<Rightarrow> (string \<times> TxOutSpec list) list \<Rightarrow>
     (string \<times> Transaction) list may_panic" where
  "genesis_txs G genesis_tx_in cache [] = Some []"
| "genesis_txs G genesis_tx_in cache ((tx_hash, tx_out) # seed) =
     do { (cache, outs) \<leftarrow> genesis_tx_outs G cache tx_out;
          txs \<leftarrow> genesis_txs G genesis_tx_in cache seed;
          Some ((tx_hash, (Transaction_default G)\<lparr>outputs := outs,
            inputs := (case genesis_tx_in of None \<Rightarrow> [] | Some i \<Rightarrow> [i])\<rparr>) # txs) }"

definition make_utxo_set_from_seed ::
    "genesis_ext \<Rightarrow> UtxoSetSpec \<Rightarrow> string option \<Rightarrow> TxMap may_panic" where
  "make_utxo_set_from_seed G seed_spec tx_in_str =
     do { let genesis_tx_in = map_option (\<lambda>tx_in.
            \<lparr>previous_out = None,
             script_signature = (Script_new G)\<lparr>stack := stack (Script_new G) @ [Bytes tx_in]\<rparr>\<rparr>) tx_in_str;
          txs \<leftarrow> genesis_txs G genesis_tx_in fmempty (sorted_list_of_fmap seed_spec);
          Some (fmap_of_list txs) }"

section \<open>The reference without the cache\<close>

definition direct_tx_out :: "genesis_ext \<Rightarrow> TxOutSpec \<Rightarrow> TxOut may_panic" where
  "direct_tx_out G out =
     map_option (\<lambda>addr. TxOut_new_token_amount G addr (spec_amount out))
       (decode_pub_key_as_address G (spec_public_key out))"

definition direct_tx :: "genesis_ext \<Rightarrow> TxIn list \<Rightarrow> TxOutSpec list \<Rightarrow> Transaction may_panic" where
  "direct_tx G ins outs =
     map_option (\<lambda>ts. (Transaction_default G)\<lparr>outputs := ts, inputs := ins\<rparr>)
       (those (map (direct_tx_out G) outs))"

definition genesis_inputs :: "genesis_ext \<Rightarrow> string option \<Rightarrow> TxIn list" where
  "genesis_inputs G tx_in_str =
     (case tx_in_str of None \<Rightarrow> []
      | Some tx_in \<Rightarrow> [\<lparr>previous_out = None,
          script_signature = (Script_new G)\<lparr>stack := stack (Script_new G) @ [Bytes tx_in]\<rparr>\<rparr>])"

text \<open>A cache is right when it only holds decoded addresses.\<close>

definition cache_ok :: "genesis_ext \<Rightarrow> (string, string) fmap \<Rightarrow> bool" where
  "cache_ok G cache \<longleftrightarrow>
     (\<forall>pk addr. fmlookup cache pk = Some addr \<longrightarrow> decode_pub_key_as_address G pk = Some addr)"

lemma genesis_tx_out_direct:
  assumes "cache_ok G cache"
  shows "map_option snd (genesis_tx_out G cache out) = direct_tx_out G out"
    and "genesis_tx_out G cache out = Some (cache', t) \<Longrightarrow> cache_ok G cache'"
  using assms
  by (auto simp: genesis_tx_out_def direct_tx_out_def cache_ok_def split: option.splits bind_splits if_splits)

lemma genesis_tx_outs_direct:
  assumes "cache_ok G cache"
  shows "those (map (direct_tx_out G) outs) = map_option snd (genesis_tx_outs G cache outs) \<and>
     (\<forall>cache' ts. genesis_tx_outs G cache outs = Some (cache', ts) \<longrightarrow> cache_ok G cache')"
  using assms
proof (induction outs arbitrary: cache)
  case Nil
  then show ?case by simp
next
  case (Cons out outs)
  show ?case
  proof (cases "genesis_tx_out G cache out")
    case None
    then show ?thesis using genesis_tx_out_direct(1) [OF Cons.prems, of out] by simp
  next
    case (Some r)
    obtain cache1 t where r: "r = (cache1, t)" by (cases r)
    have ok: "cache_ok G cache1" using genesis_tx_out_direct(2) [OF Cons.prems] Some r by simp
    have "direct_tx_out G out = Some t"
      using genesis_tx_out_direct(1) [OF Cons.prems, of out] Some r by simp
    then show ?thesis
      using Cons.IH [OF ok] Some r by (cases "genesis_tx_outs G cache1 outs") auto
  qed
qed

lemma genesis_txs_direct:
  assumes "cache_ok G cache"
  shows "genesis_txs G i cache seed_spec =
     those (map (\<lambda>(h, outs). map_option (Pair h)
       (direct_tx G (case i of None \<Rightarrow> [] | Some x \<Rightarrow> [x]) outs)) seed_spec)"
  using assms
proof (induction seed_spec arbitrary: cache)
  case Nil
  then show ?case by simp
next
  case (Cons p seed_spec)
  obtain h outs where p: "p = (h, outs)" by (cases p)
  have d: "those (map (direct_tx_out G) outs) = map_option snd (genesis_tx_outs G cache outs)"
    and ok: "\<And>cache' ts. genesis_tx_outs G cache outs = Some (cache', ts) \<Longrightarrow> cache_ok G cache'"
    using genesis_tx_outs_direct [OF Cons.prems, of outs] by blast+
  show ?case
  proof (cases "genesis_tx_outs G cache outs")
    case None
    then show ?thesis using p d by (simp add: direct_tx_def)
  next
    case (Some r)
    obtain cache1 ts where r: "r = (cache1, ts)" by (cases r)
    have "direct_tx G (case i of None \<Rightarrow> [] | Some x \<Rightarrow> [x]) outs
        = Some ((Transaction_default G)\<lparr>outputs := ts, inputs := (case i of None \<Rightarrow> [] | Some x \<Rightarrow> [x])\<rparr>)"
      using d Some r by (simp add: direct_tx_def)
    then show ?thesis
      using p Some r Cons.IH [OF ok] by (auto simp: map_option_case split: option.splits)
  qed
qed

section \<open>Properties\<close>

text \<open>The address cache changes nothing: the genesis transactions are those that decode every key
  afresh, one per entry of the seed, and the routine panics exactly when some key does not decode.\<close>

lemma genesis_cache_transparent:
  "make_utxo_set_from_seed G seed_spec tx_in_str =
     map_option fmap_of_list
       (those (map (\<lambda>(h, outs). map_option (Pair h) (direct_tx G (genesis_inputs G tx_in_str) outs))
         (sorted_list_of_fmap seed_spec)))"
proof -
  have ok: "cache_ok G fmempty" by (simp add: cache_ok_def)
  let ?i = "map_option (\<lambda>tx_in. \<lparr>previous_out = None,
    script_signature = (Script_new G)\<lparr>stack := stack (Script_new G) @ [Bytes tx_in]\<rparr>\<rparr>) tx_in_str"
  have "(case ?i of None \<Rightarrow> [] | Some x \<Rightarrow> [x]) = genesis_inputs G tx_in_str"
    by (simp add: genesis_inputs_def split: option.split)
  then show ?thesis
    by (simp add: make_utxo_set_from_seed_def genesis_txs_direct [OF ok] Let_def)
      (simp add: map_conv_bind_option comp_def)
qed

end
