(* ===== verification/Votes.thy ===== *)
theory Votes
  imports Prelude
begin

text \<open>
  Votes of the peers of a consensus group, counted per value. The compute node counts votes for
  block information and for coordinated commands, the storage node for blocks: each keeps a map
  from a value to the set of proposers. The locale \<open>vote_box\<close> states that interface; every
  counter of the model interprets it, and the quorum arguments are made here once.
\<close>

lemma fcard_fset: "fcard A = card (fset A)"
  by (rule fcard.rep_eq)

lemma majorities_meet:
  assumes "finite P" and "A \<subseteq> P" and "B \<subseteq> P"
    and "card P div 2 + 1 \<le> card A" and "card P div 2 + 1 \<le> card B"
  shows "A \<inter> B \<noteq> {}"
proof
  assume "A \<inter> B = {}"
  moreover have "finite A" "finite B" using assms(1-3) finite_subset by auto
  ultimately have "card A + card B = card (A \<union> B)" by (simp add: card_Un_disjoint)
  also have "\<dots> \<le> card P" using assms(1-3) by (intro card_mono) auto
  finally show False using assms(4,5) by linarith
qed

text \<open>A sequence of votes \<open>(value, voter)\<close>, each recorded by one step of the counter.\<close>

inductive casts :: "('s \<Rightarrow> 'v \<Rightarrow> 'p \<Rightarrow> 's \<Rightarrow> bool) \<Rightarrow> 's \<Rightarrow> ('v \<times> 'p) list \<Rightarrow> 's \<Rightarrow> bool"
  for voted where
  casts_Nil: "casts voted s [] s"
| casts_snoc: "casts voted s cs t \<Longrightarrow> voted t v p u \<Longrightarrow> casts voted s (cs @ [(v, p)]) u"

locale vote_box =
  fixes votes :: "'s \<Rightarrow> 'k \<Rightarrow> 'p fset"
    and key :: "'v \<Rightarrow> 'k"
    and voted :: "'s \<Rightarrow> 'v \<Rightarrow> 'p \<Rightarrow> 's \<Rightarrow> bool"
  assumes votes_voted: "voted s v p t \<Longrightarrow> votes t k = (if k = key v then finsert p (votes s k) else votes s k)"
begin

lemma votes_casts:
  "casts voted s cs t \<Longrightarrow> fset (votes t k) = fset (votes s k) \<union> {p. \<exists>v. (v, p) \<in> set cs \<and> key v = k}"
  by (induction rule: casts.induct) (auto simp: votes_voted)

lemma votes_of:
  assumes "casts voted s cs t" and "\<And>k. votes s k = {||}"
    and "\<forall>(v', p) \<in> set cs. key v' = key v \<longrightarrow> v' = v"
  shows "fset (votes t (key v)) = {p. (v, p) \<in> set cs}"
  using votes_casts [OF assms(1), of "key v"] assms(2,3) by auto

text \<open>When no peer votes for two values, at most one value gets a majority of the peers.\<close>

lemma majority_unique:
  assumes "finite P" and "snd ` set cs \<subseteq> P"
    and "\<forall>(v, p) \<in> set cs. \<forall>(v', p') \<in> set cs. p = p' \<longrightarrow> v = v'"
    and "card P div 2 + 1 \<le> card {p. (v1, p) \<in> set cs}"
    and "card P div 2 + 1 \<le> card {p. (v2, p) \<in> set cs}"
  shows "v1 = v2"
proof -
  have "{p. (v1, p) \<in> set cs} \<inter> {p. (v2, p) \<in> set cs} \<noteq> {}"
    using assms by (intro majorities_meet [of P]) force+
  then show ?thesis using assms(3) by fast
qed

text \<open>A unanimous value has the vote of every peer.\<close>

lemma unanimous_all:
  assumes "finite P" and "snd ` set cs \<subseteq> P" and "card P \<le> card {p. (v, p) \<in> set cs}"
  shows "{p. (v, p) \<in> set cs} = P"
  using assms by (intro card_seteq) force+

end

text \<open>A counter that is keyed by a hash also keeps the value it has hashed.\<close>

locale hashed_vote_box = vote_box votes key voted
  for votes :: "'s \<Rightarrow> 'k \<Rightarrow> 'p fset" and key :: "'v \<Rightarrow> 'k" and voted +
  fixes stored :: "'s \<Rightarrow> 'k \<Rightarrow> 'v option"
  assumes stored_voted: "voted s v p t \<Longrightarrow>
     stored t k = (if k = key v then Some (case stored s k of None \<Rightarrow> v | Some v0 \<Rightarrow> v0) else stored s k)"
begin

lemma stored_casts:
  assumes "casts voted s cs t" and "\<And>k. stored s k = None"
  shows "stored t k = Some v \<Longrightarrow> key v = k \<and> (\<exists>p. (v, p) \<in> set cs)"
  using assms by (induction arbitrary: v rule: casts.induct)
    (auto simp: stored_voted split: if_splits option.splits)

lemma stored_of_voted:
  assumes "casts voted s cs t" and "(v, p) \<in> set cs"
    and "\<And>k. stored s k = None" and "\<forall>(v', p') \<in> set cs. key v' = key v \<longrightarrow> v' = v"
  shows "stored t (key v) = Some v"
proof -
  have "stored t (key v) \<noteq> None"
    using assms(1-3) by (induction rule: casts.induct) (auto simp: stored_voted split: option.splits)
  then obtain v' where "stored t (key v) = Some v'" by blast
  then show ?thesis using stored_casts [OF assms(1,3)] assms(4) by fast
qed

end

section \<open>The two shapes of vote counters\<close>

text \<open>A map from the value to its voters, and a map from the value's hash to the value and its voters.\<close>

definition plain_votes :: "('k, 'p fset) fmap \<Rightarrow> 'k \<Rightarrow> 'p fset" where
  "plain_votes m k = (case fmlookup m k of None \<Rightarrow> {||} | Some ps \<Rightarrow> ps)"

definition hashed_votes :: "('h, 'v \<times> 'p fset) fmap \<Rightarrow> 'h \<Rightarrow> 'p fset" where
  "hashed_votes m h = (case fmlookup m h of None \<Rightarrow> {||} | Some (_, ps) \<Rightarrow> ps)"

definition hashed_value :: "('h, 'v \<times> 'p fset) fmap \<Rightarrow> 'h \<Rightarrow> 'v option" where
  "hashed_value m h = map_option fst (fmlookup m h)"

lemma plain_votes_entry:
  "plain_votes (fmentry {||} v (finsert p) m) k = (if k = v then finsert p (plain_votes m k) else plain_votes m k)"
  by (simp add: plain_votes_def split: option.splits)

lemma hashed_votes_entry:
  "hashed_votes (fmentry (v, {||}) h (\<lambda>(b, ids). (b, finsert p ids)) m) k =
     (if k = h then finsert p (hashed_votes m k) else hashed_votes m k)"
  by (auto simp: hashed_votes_def split: option.splits)

lemma hashed_value_entry:
  "hashed_value (fmentry (v, {||}) h (\<lambda>(b, ids). (b, finsert p ids)) m) k =
     (if k = h then Some (case hashed_value m k of None \<Rightarrow> v | Some v0 \<Rightarrow> v0) else hashed_value m k)"
  by (auto simp: hashed_value_def split: option.splits)

lemma hashed_votes_empty [simp]: "hashed_votes fmempty k = {||}"
  by (simp add: hashed_votes_def)

lemma hashed_value_empty [simp]: "hashed_value fmempty k = None"
  by (simp add: hashed_value_def)

lemma plain_votes_empty [simp]: "plain_votes fmempty k = {||}"
  by (simp add: plain_votes_def)

lemma fmlookup_hashed:
  "fmlookup m h = Some (v, ids) \<longleftrightarrow> hashed_value m h = Some v \<and> hashed_votes m h = ids"
  by (auto simp: hashed_value_def hashed_votes_def)

text \<open>\<open>max().unwrap_or(0)\<close> over the vote counts reaches a positive threshold when some value does.\<close>

lemma max_votes_iff:
  "0 < t \<Longrightarrow> t \<le> max_or_0 (map f (fmvalues m)) \<longleftrightarrow> (\<exists>k v. fmlookup m k = Some v \<and> t \<le> f v)"
  by (auto simp: max_or_0_attained set_fmvalues)

lemma max_by_votes_ready:
  assumes "t \<le> max_or_0 (map f (fmvalues m))" and "max_by_key f (fmvalues m) = Some v"
  shows "t \<le> f v \<and> (\<exists>k. fmlookup m k = Some v)"
proof -
  have "max_or_0 (map f (fmvalues m)) \<le> f v"
    using max_by_key_Some_ge [OF assms(2)] by (auto simp: max_or_0_le_iff)
  moreover have "v \<in> set (fmvalues m)" using assms(2) by (rule max_by_key_Some_mem)
  ultimately show ?thesis using assms(1) by (auto simp: set_fmvalues)
qed

end
