(* ===== verification/Compute_Consensused.thy ===== *)
theory Compute_Consensused
  imports Block_Pipeline Tracked_Utxo Votes
begin

text \<open>
  The state the compute nodes agree on, \<open>ComputeConsensused\<close> of \<^verbatim>\<open>src/compute_raft.rs\<close>: the
  committed transaction pools, the UTXO set, the votes for the next block information and for
  coordinated commands, the token circulation and the mining pipeline; with the reward functions of
  \<^verbatim>\<open>src/utils.rs\<close>. Every operation of the struct is a definition on the record. Proved: the
  selection of transactions spends every outpoint at most once and only outpoints of the set, the
  vote counting, the circulation, and the imports and exports of an upgrade.
\<close>

section \<open>Model\<close>

subsection \<open>Data\<close>

datatype CoordinatedCommand = PauseNodes u64 | ResumeNodes | ApplySharedConfig

instantiation CoordinatedCommand :: linorder
begin

fun CoordinatedCommand_rank :: "CoordinatedCommand \<Rightarrow> nat" where
  "CoordinatedCommand_rank (PauseNodes _) = 0"
| "CoordinatedCommand_rank ResumeNodes = 1"
| "CoordinatedCommand_rank ApplySharedConfig = 2"

fun less_CoordinatedCommand :: "CoordinatedCommand \<Rightarrow> CoordinatedCommand \<Rightarrow> bool" where
  "less_CoordinatedCommand (PauseNodes a) (PauseNodes b) \<longleftrightarrow> a < b"
| "less_CoordinatedCommand c d \<longleftrightarrow> CoordinatedCommand_rank c < CoordinatedCommand_rank d"

definition less_eq_CoordinatedCommand :: "CoordinatedCommand \<Rightarrow> CoordinatedCommand \<Rightarrow> bool" where
  "less_eq_CoordinatedCommand c d \<longleftrightarrow> c = d \<or> c < d"

instance
proof
  fix x y z :: CoordinatedCommand
  show "x < y \<longleftrightarrow> x \<le> y \<and> \<not> y \<le> x"
    by (cases x; cases y) (auto simp: less_eq_CoordinatedCommand_def)
  show "x \<le> x" by (simp add: less_eq_CoordinatedCommand_def)
  show "x \<le> y \<Longrightarrow> y \<le> z \<Longrightarrow> x \<le> z"
    by (cases x; cases y; cases z) (auto simp: less_eq_CoordinatedCommand_def)
  show "x \<le> y \<Longrightarrow> y \<le> x \<Longrightarrow> x = y"
    by (cases x; cases y) (auto simp: less_eq_CoordinatedCommand_def)
  show "x \<le> y \<or> y \<le> x"
    by (cases x; cases y) (auto simp: less_eq_CoordinatedCommand_def)
qed

end

definition CoordinatedCommand_default :: CoordinatedCommand where
  "CoordinatedCommand_default = ResumeNodes"

record MinerWhitelist =
  whitelist_active :: bool
  miner_api_keys :: "string fset option"
  miner_addresses :: "SocketAddr fset option"

datatype ComputeRuntimeItem =
    AddMiningApiKeys "(SocketAddr \<times> string) list"
  | RemoveMiningApiKeys "SocketAddr list"

datatype AccumulatingBlockStoredInfo = AccFirstBlock TxMap | AccBlock BlockStoredInfo

datatype SpecialHandling = Shutdown | FirstUpgradeBlock

record ComputeConsensusedRuntimeData =
  mining_api_keys :: "(SocketAddr, string) fmap"

record ComputeConsensused =
  c_unanimous_majority :: nat
  c_sufficient_majority :: nat
  c_partition_full_size :: nat
  tx_pool :: TxMap
  tx_druid_pool :: "TxMap list"
  tx_current_block_previous_hash :: "string option"
  initial_utxo_txs :: "TxMap option"
  utxo_set :: TrackedUtxoSet
  current_block_stored_info :: "(bytes, AccumulatingBlockStoredInfo \<times> u64 fset) fmap"
  current_raft_coordinated_cmd_stored_info :: "(CoordinatedCommand, u64 fset) fmap"
  last_committed_raft_idx_and_term :: "u64 \<times> u64"
  current_circulation :: TokenAmount
  block_pipeline :: MiningPipelineInfo
  last_mining_transaction_hashes :: "string list"
  special_handling :: "SpecialHandling option"
  miner_whitelist :: MinerWhitelist
  runtime_data :: ComputeConsensusedRuntimeData

record ComputeConsensusedImport =
  ci_unanimous_majority :: nat
  ci_sufficient_majority :: nat
  ci_partition_full_size :: nat
  ci_unicorn_fixed_param :: UnicornFixedParam
  ci_tx_current_block_num :: "u64 option"
  ci_current_block :: "Block option"
  ci_utxo_set :: UtxoSet
  ci_last_committed_raft_idx_and_term :: "u64 \<times> u64"
  ci_current_circulation :: TokenAmount
  ci_special_handling :: "SpecialHandling option"
  ci_miner_whitelist :: MinerWhitelist

text \<open>
  What the consensused state calls outside this program: the blockchain library, the pipeline's
  parameters, the serialisation of a vote and the digest of it.
\<close>

record compute_ext =
  naom :: naom_ext
  pipe :: pipeline_ext
  acc_info_serialize :: "AccumulatingBlockStoredInfo \<Rightarrow> bytes option"
  acc_digest :: "bytes \<Rightarrow> bytes"

definition BLOCK_SIZE :: nat where
  "BLOCK_SIZE = 1000000"

definition BLOCK_SIZE_IN_TX :: nat where
  "BLOCK_SIZE_IN_TX = BLOCK_SIZE div 500"

definition MinerWhitelist_default :: MinerWhitelist where
  "MinerWhitelist_default = \<lparr>whitelist_active = False, miner_api_keys = None, miner_addresses = None\<rparr>"

definition ComputeConsensused_default :: ComputeConsensused where
  "ComputeConsensused_default =
     \<lparr>c_unanimous_majority = 0, c_sufficient_majority = 0, c_partition_full_size = 0,
      tx_pool = fmempty, tx_druid_pool = [], tx_current_block_previous_hash = None,
      initial_utxo_txs = None, utxo_set = TrackedUtxoSet_default,
      current_block_stored_info = fmempty, current_raft_coordinated_cmd_stored_info = fmempty,
      last_committed_raft_idx_and_term = (0, 0), current_circulation = 0,
      block_pipeline = MiningPipelineInfo_default, last_mining_transaction_hashes = [],
      special_handling = None, miner_whitelist = MinerWhitelist_default,
      runtime_data = \<lparr>mining_api_keys = fmempty\<rparr>\<rparr>"

subsection \<open>Rewards\<close>

definition REWARD_ISSUANCE_VAL :: nat where
  "REWARD_ISSUANCE_VAL = 25"

definition calculate_reward :: "naom_ext \<Rightarrow> TokenAmount \<Rightarrow> TokenAmount" where
  "calculate_reward N circulation = drop_bit REWARD_ISSUANCE_VAL (TOTAL_TOKENS N - circulation)"

definition get_total_coinbase_tokens :: "naom_ext \<Rightarrow> TxMap \<Rightarrow> TokenAmount" where
  "get_total_coinbase_tokens N coinbase_tx =
     fold (\<lambda>tx total. token_add N total
         (token_sum N (map (\<lambda>x. token_amount N (txout_value x)) (outputs tx))))
       (fmvalues coinbase_tx) 0"

subsection \<open>Settings\<close>

definition set_runtime_data :: "ComputeConsensused \<Rightarrow> ComputeConsensusedRuntimeData \<Rightarrow> ComputeConsensused" where
  "set_runtime_data self rd = self\<lparr>runtime_data := rd\<rparr>"

definition re_align_utxo_set :: "ComputeConsensused \<Rightarrow> ComputeConsensused" where
  "re_align_utxo_set self = self\<lparr>utxo_set := re_align (utxo_set self)\<rparr>"

definition update_partition_full_size :: "ComputeConsensused \<Rightarrow> nat \<Rightarrow> ComputeConsensused" where
  "update_partition_full_size self sz = self\<lparr>c_partition_full_size := sz\<rparr>"

definition update_miner_whitelist_addresses ::
    "ComputeConsensused \<Rightarrow> SocketAddr fset option \<Rightarrow> ComputeConsensused" where
  "update_miner_whitelist_addresses self addrs =
     self\<lparr>miner_whitelist := (miner_whitelist self)\<lparr>miner_addresses := addrs\<rparr>\<rparr>"

definition update_miner_whitelist_active :: "ComputeConsensused \<Rightarrow> bool \<Rightarrow> ComputeConsensused" where
  "update_miner_whitelist_active self active =
     self\<lparr>miner_whitelist := (miner_whitelist self)\<lparr>whitelist_active := active\<rparr>\<rparr>"

definition update_miner_whitelist_api_keys ::
    "ComputeConsensused \<Rightarrow> string fset option \<Rightarrow> ComputeConsensused" where
  "update_miner_whitelist_api_keys self keys =
     self\<lparr>miner_whitelist := (miner_whitelist self)\<lparr>miner_api_keys := keys\<rparr>\<rparr>"

definition with_peers_len :: "ComputeConsensused \<Rightarrow> nat \<Rightarrow> ComputeConsensused" where
  "with_peers_len self len =
     self\<lparr>c_unanimous_majority := len, c_sufficient_majority := len div 2 + 1\<rparr>"

definition with_partition_full_size :: "ComputeConsensused \<Rightarrow> nat \<Rightarrow> ComputeConsensused" where
  "with_partition_full_size self sz = self\<lparr>c_partition_full_size := sz\<rparr>"

definition compute_with_unicorn_fixed_param ::
    "ComputeConsensused \<Rightarrow> UnicornFixedInfo \<Rightarrow> ComputeConsensused" where
  "compute_with_unicorn_fixed_param self info =
     self\<lparr>block_pipeline := with_unicorn_fixed_param (block_pipeline self) info\<rparr>"

text \<open>The event description the consensused state hands to its pipeline.\<close>

definition event_info :: "ComputeConsensused \<Rightarrow> u64 \<Rightarrow> PipelineEventInfo" where
  "event_info self pid =
     \<lparr>proposer_id = pid, sufficient_majority = c_sufficient_majority self,
      unanimous_majority = c_unanimous_majority self,
      partition_full_size = c_partition_full_size self\<rparr>"

definition compute_init_block_pipeline_status ::
    "compute_ext \<Rightarrow> ComputeConsensused \<Rightarrow> ComputeConsensused may_panic" where
  "compute_init_block_pipeline_status E self =
     do { bp \<leftarrow> init_block_pipeline_status (pipe E) (block_pipeline self) (event_info self 0);
          Some (self\<lparr>block_pipeline := bp\<rparr>) }"

subsection \<open>Upgrade\<close>

definition compute_from_import :: "ComputeConsensusedImport \<Rightarrow> ComputeConsensused" where
  "compute_from_import v =
     \<lparr>c_unanimous_majority = ci_unanimous_majority v, c_sufficient_majority = ci_sufficient_majority v,
      c_partition_full_size = ci_partition_full_size v, tx_pool = fmempty, tx_druid_pool = [],
      tx_current_block_previous_hash = None, initial_utxo_txs = None,
      utxo_set = TrackedUtxoSet_new (ci_utxo_set v), current_block_stored_info = fmempty,
      current_raft_coordinated_cmd_stored_info = fmempty,
      last_committed_raft_idx_and_term = ci_last_committed_raft_idx_and_term v,
      current_circulation = ci_current_circulation v,
      block_pipeline = from_import
        \<lparr>import_unicorn_fixed_param = ci_unicorn_fixed_param v,
         import_current_block_num = ci_tx_current_block_num v,
         import_current_block = ci_current_block v\<rparr>,
      last_mining_transaction_hashes = [], special_handling = ci_special_handling v,
      miner_whitelist = ci_miner_whitelist v, runtime_data = \<lparr>mining_api_keys = fmempty\<rparr>\<rparr>"

definition compute_into_import ::
    "ComputeConsensused \<Rightarrow> SpecialHandling option \<Rightarrow> ComputeConsensusedImport" where
  "compute_into_import self handling =
     (let bp = into_import (block_pipeline self) in
      \<lparr>ci_unanimous_majority = c_unanimous_majority self,
       ci_sufficient_majority = c_sufficient_majority self,
       ci_partition_full_size = c_partition_full_size self,
       ci_unicorn_fixed_param = import_unicorn_fixed_param bp,
       ci_tx_current_block_num = import_current_block_num bp,
       ci_current_block = import_current_block bp,
       ci_utxo_set = into_utxoset (utxo_set self),
       ci_last_committed_raft_idx_and_term = last_committed_raft_idx_and_term self,
       ci_current_circulation = current_circulation self,
       ci_special_handling = handling, ci_miner_whitelist = miner_whitelist self\<rparr>)"

subsection \<open>Generating blocks\<close>

definition compute_set_committed_mining_block ::
    "compute_ext \<Rightarrow> ComputeConsensused \<Rightarrow> Block \<Rightarrow> TxMap \<Rightarrow> ComputeConsensused" where
  "compute_set_committed_mining_block E self block block_tx =
     self\<lparr>utxo_set := extend_tracked_utxo_set (naom E) (utxo_set self) block_tx,
          block_pipeline := pipeline_set_committed_mining_block (block_pipeline self) block block_tx\<rparr>"

definition compute_take_mining_block ::
    "ComputeConsensused \<Rightarrow> ComputeConsensused \<times> (Block \<times> TxMap) option" where
  "compute_take_mining_block self =
     (let (bp, b) = pipeline_take_mining_block (block_pipeline self)
      in (self\<lparr>block_pipeline := bp\<rparr>, b))"

definition generate_first_block :: "compute_ext \<Rightarrow> ComputeConsensused \<Rightarrow> ComputeConsensused may_panic" where
  "generate_first_block E self =
     do { next_block_tx \<leftarrow> initial_utxo_txs self;
          let self = self\<lparr>initial_utxo_txs := None\<rparr>;
          let next_block = (Block_new (naom E))\<lparr>transactions := fmkeys next_block_tx\<rparr>;
          let next_block = set_txs_merkle_root_and_hash (naom E) next_block;
          Some (compute_set_committed_mining_block E self next_block next_block_tx) }"

text \<open>
  \<open>find_invalid_new_txs\<close>: the inner loop over the inputs of one transaction, with the roll back of
  what it has taken, and the outer loop over the transactions in hash order.
\<close>

fun check_tx_inputs ::
    "UtxoSet \<Rightarrow> OutPoint list \<Rightarrow> OutPoint fset \<Rightarrow> OutPoint list \<Rightarrow> OutPoint fset \<times> bool" where
  "check_tx_inputs utxos [] removed_all removed_roll_back = (removed_all, True)"
| "check_tx_inputs utxos (hash_in # hash_ins) removed_all removed_roll_back =
     (if fmlookup utxos hash_in \<noteq> None \<and> hash_in |\<notin>| removed_all
      then check_tx_inputs utxos hash_ins (finsert hash_in removed_all) (removed_roll_back @ [hash_in])
      else (fold (\<lambda>h r. r |-| {|h|}) removed_roll_back removed_all, False))"

fun find_invalid_loop ::
    "naom_ext \<Rightarrow> UtxoSet \<Rightarrow> (string \<times> Transaction) list \<Rightarrow> OutPoint fset \<Rightarrow> string list \<Rightarrow> string list" where
  "find_invalid_loop N utxos [] removed_all invalid = invalid"
| "find_invalid_loop N utxos ((hash_tx, tx) # new_txs) removed_all invalid =
     (let (removed_all, ok) = check_tx_inputs utxos (inputs_of N [tx]) removed_all []
      in find_invalid_loop N utxos new_txs removed_all (if ok then invalid else invalid @ [hash_tx]))"

definition find_invalid_new_txs :: "compute_ext \<Rightarrow> ComputeConsensused \<Rightarrow> TxMap \<Rightarrow> string list" where
  "find_invalid_new_txs E self new_txs =
     find_invalid_loop (naom E) (base (utxo_set self)) (sorted_list_of_fmap new_txs) {||} []"

definition take_first_n ::
    "nat \<Rightarrow> ('k::linorder, 'v) fmap \<Rightarrow> ('k, 'v) fmap \<times> ('k, 'v) fmap" where
  "take_first_n n from =
     (if n < length (fmkeys from)
      then let max_key = fmkeys from ! n
           in (fmfilter (\<lambda>k. k < max_key) from, fmfilter (\<lambda>k. max_key \<le> k) from)
      else (from, fmempty))"

type_synonym block_acc = "ComputeConsensused \<times> Block \<times> TxMap"

definition update_current_block_tx_with_given_valid_txs ::
    "compute_ext \<Rightarrow> TxMap \<Rightarrow> block_acc \<Rightarrow> block_acc" where
  "update_current_block_tx_with_given_valid_txs E txs = (\<lambda>(self, block, block_tx).
     (self\<lparr>utxo_set := fold (\<lambda>op u. fst (remove_tracked_utxo_entry u op))
         (inputs_of (naom E) (fmvalues txs)) (utxo_set self)\<rparr>,
      block\<lparr>transactions := transactions block @ fmkeys txs\<rparr>,
      block_tx ++\<^sub>f txs))"

fun committed_dde_loop :: "compute_ext \<Rightarrow> TxMap list \<Rightarrow> block_acc \<Rightarrow> block_acc" where
  "committed_dde_loop E [] acc = acc"
| "committed_dde_loop E (txs # pool) acc =
     committed_dde_loop E pool
       (if find_invalid_new_txs E (fst acc) txs \<noteq> [] then acc
        else update_current_block_tx_with_given_valid_txs E txs acc)"

definition update_committed_dde_tx :: "compute_ext \<Rightarrow> block_acc \<Rightarrow> block_acc" where
  "update_committed_dde_tx E = (\<lambda>(self, block, block_tx).
     committed_dde_loop E (tx_druid_pool self) (self\<lparr>tx_druid_pool := []\<rparr>, block, block_tx))"

definition update_current_block_tx :: "compute_ext \<Rightarrow> block_acc \<Rightarrow> block_acc" where
  "update_current_block_tx E = (\<lambda>(self, block, block_tx).
     let pool = fold fmdrop (find_invalid_new_txs E self (tx_pool self)) (tx_pool self);
         (txs, rest) = take_first_n BLOCK_SIZE_IN_TX pool
     in update_current_block_tx_with_given_valid_txs E txs (self\<lparr>tx_pool := rest\<rparr>, block, block_tx))"

definition update_block_header ::
    "compute_ext \<Rightarrow> ComputeConsensused \<Rightarrow> Block \<Rightarrow> (ComputeConsensused \<times> Block) may_panic" where
  "update_block_header E self block =
     do { prev \<leftarrow> tx_current_block_previous_hash self;
          let self = self\<lparr>tx_current_block_previous_hash := None\<rparr>;
          bn \<leftarrow> current_block_num (block_pipeline self);
          let block = block\<lparr>header := (header block)\<lparr>previous_hash := Some prev, b_num := bn\<rparr>\<rparr>;
          Some (self, set_txs_merkle_root_and_hash (naom E) block) }"

definition generate_block :: "compute_ext \<Rightarrow> ComputeConsensused \<Rightarrow> ComputeConsensused may_panic" where
  "generate_block E self =
     do { let (self, next_block, next_block_tx) =
            update_current_block_tx E (update_committed_dde_tx E (self, Block_new (naom E), fmempty));
          (self, next_block) \<leftarrow> update_block_header E self next_block;
          Some (compute_set_committed_mining_block E self next_block next_block_tx) }"

subsection \<open>Votes\<close>

definition is_first_block :: "ComputeConsensused \<Rightarrow> bool" where
  "is_first_block self \<longleftrightarrow> current_block_num (block_pipeline self) = None"

definition is_current_block :: "ComputeConsensused \<Rightarrow> u64 \<Rightarrow> bool" where
  "is_current_block self bn \<longleftrightarrow>
     (case current_block_num (block_pipeline self) of Some cur \<Rightarrow> bn = cur | None \<Rightarrow> False)"

definition has_different_coordinated_raft_cmd_stored_info :: "ComputeConsensused \<Rightarrow> bool" where
  "has_different_coordinated_raft_cmd_stored_info self \<longleftrightarrow>
     1 < fmlen (current_raft_coordinated_cmd_stored_info self)"

definition has_different_block_stored_info :: "ComputeConsensused \<Rightarrow> bool" where
  "has_different_block_stored_info self \<longleftrightarrow> 1 < fmlen (current_block_stored_info self)"

definition max_agreeing_coordinated_raft_cmd_stored_info :: "ComputeConsensused \<Rightarrow> nat" where
  "max_agreeing_coordinated_raft_cmd_stored_info self =
     max_or_0 (map fcard (fmvalues (current_raft_coordinated_cmd_stored_info self)))"

definition max_agreeing_block_stored_info :: "ComputeConsensused \<Rightarrow> nat" where
  "max_agreeing_block_stored_info self =
     max_or_0 (map (\<lambda>v. fcard (snd v)) (fmvalues (current_block_stored_info self)))"

definition has_coordinated_raft_cmd_info_ready :: "ComputeConsensused \<Rightarrow> bool" where
  "has_coordinated_raft_cmd_info_ready self \<longleftrightarrow>
     c_unanimous_majority self \<le> max_agreeing_coordinated_raft_cmd_stored_info self"

definition has_block_stored_info_ready :: "ComputeConsensused \<Rightarrow> bool" where
  "has_block_stored_info_ready self \<longleftrightarrow>
     (if is_first_block self then c_unanimous_majority self else c_sufficient_majority self)
       \<le> max_agreeing_block_stored_info self"

fun add_mining_api_key ::
    "SocketAddr \<times> string \<Rightarrow> (SocketAddr, string) fmap \<Rightarrow> (SocketAddr, string) fmap" where
  "add_mining_api_key (address, mining_api_key) keys =
     (if mining_api_key |\<notin>| fmran keys then fmupd address mining_api_key keys else keys)"

fun handle_runtime_item :: "ComputeConsensused \<Rightarrow> ComputeRuntimeItem \<Rightarrow> ComputeConsensused" where
  "handle_runtime_item self (AddMiningApiKeys keys) =
     self\<lparr>runtime_data := (runtime_data self)\<lparr>mining_api_keys :=
       fold add_mining_api_key keys (mining_api_keys (runtime_data self))\<rparr>\<rparr>"
| "handle_runtime_item self (RemoveMiningApiKeys addresses) =
     self\<lparr>runtime_data := (runtime_data self)\<lparr>mining_api_keys :=
       fold fmdrop addresses (mining_api_keys (runtime_data self))\<rparr>\<rparr>"

definition append_current_block_stored_info ::
    "compute_ext \<Rightarrow> ComputeConsensused \<Rightarrow> RaftContextKey \<Rightarrow> AccumulatingBlockStoredInfo \<Rightarrow>
     ComputeConsensused may_panic" where
  "append_current_block_stored_info E self key block =
     do { block_ser \<leftarrow> acc_info_serialize E block;
          Some (self\<lparr>current_block_stored_info :=
            fmentry (block, {||}) (acc_digest E block_ser)
              (\<lambda>(b, ids). (b, finsert (key_proposer_id key) ids)) (current_block_stored_info self)\<rparr>) }"

definition append_first_block_info ::
    "compute_ext \<Rightarrow> ComputeConsensused \<Rightarrow> RaftContextKey \<Rightarrow> TxMap \<Rightarrow> ComputeConsensused may_panic" where
  "append_first_block_info E self key txs =
     append_current_block_stored_info E self key (AccFirstBlock txs)"

definition append_block_stored_info ::
    "compute_ext \<Rightarrow> ComputeConsensused \<Rightarrow> RaftContextKey \<Rightarrow> BlockStoredInfo \<Rightarrow>
     ComputeConsensused may_panic" where
  "append_block_stored_info E self key block =
     append_current_block_stored_info E self key (AccBlock block)"

definition append_current_coordinated_raft_cmd_stored_info ::
    "ComputeConsensused \<Rightarrow> RaftContextKey \<Rightarrow> CoordinatedCommand \<Rightarrow> ComputeConsensused" where
  "append_current_coordinated_raft_cmd_stored_info self key cmd =
     self\<lparr>current_raft_coordinated_cmd_stored_info :=
       fmentry {||} cmd (finsert (key_proposer_id key)) (current_raft_coordinated_cmd_stored_info self)\<rparr>"

definition take_ready_block_stored_info ::
    "ComputeConsensused \<Rightarrow> (ComputeConsensused \<times> AccumulatingBlockStoredInfo) may_panic" where
  "take_ready_block_stored_info self =
     do { (block_info, _) \<leftarrow>
            max_by_key (\<lambda>(_, vote_ids). fcard vote_ids) (fmvalues (current_block_stored_info self));
          Some (self\<lparr>current_block_stored_info := fmempty\<rparr>, block_info) }"

definition apply_ready_block_stored_info ::
    "compute_ext \<Rightarrow> ComputeConsensused \<Rightarrow> ComputeConsensused may_panic" where
  "apply_ready_block_stored_info E self =
     do { (self, taken) \<leftarrow> take_ready_block_stored_info self;
          let (self, bn_opt) = (case taken of
              AccFirstBlock utxos \<Rightarrow>
                (self\<lparr>current_circulation := get_total_coinbase_tokens (naom E) utxos,
                      initial_utxo_txs := Some utxos\<rparr>, Some 0)
            | AccBlock info \<Rightarrow>
                if special_handling self = None \<and> stored_shutdown info
                then (self\<lparr>special_handling := Some Shutdown\<rparr>, None)
                else (self\<lparr>special_handling := None,
                        current_circulation := token_add (naom E) (current_circulation self)
                          (get_total_coinbase_tokens (naom E) (mining_transactions info)),
                        tx_current_block_previous_hash := Some (block_hash info),
                        utxo_set := extend_tracked_utxo_set (naom E) (utxo_set self)
                          (mining_transactions info),
                        last_mining_transaction_hashes := fmkeys (mining_transactions info)\<rparr>,
                      Some (block_num info + 1)));
          case bn_opt of
            None \<Rightarrow> Some self
          | Some bn \<Rightarrow> do {
              reward \<leftarrow> token_div (naom E) (calculate_reward (naom E) (current_circulation self))
                (word_of_nat (c_unanimous_majority self));
              Some (self\<lparr>block_pipeline :=
                pipeline_apply_ready_block_stored_info (block_pipeline self) bn reward\<rparr>) } }"

definition take_ready_coordinated_raft_cmd ::
    "ComputeConsensused \<Rightarrow> ComputeConsensused \<times> CoordinatedCommand" where
  "take_ready_coordinated_raft_cmd self =
     (let current_max_vote = 0 in
      (self\<lparr>current_raft_coordinated_cmd_stored_info := fmempty\<rparr>,
       fold (\<lambda>(val, votes) cmd. if current_max_vote < fcard votes then val else cmd)
         (sorted_list_of_fmap (current_raft_coordinated_cmd_stored_info self))
         CoordinatedCommand_default))"

subsection \<open>The pipeline\<close>

definition compute_start_items_intake ::
    "compute_ext \<Rightarrow> ComputeConsensused \<Rightarrow> ComputeConsensused may_panic" where
  "compute_start_items_intake E self =
     do { bp \<leftarrow> pipeline_construct_unicorn (pipe E) (block_pipeline self);
          bp \<leftarrow> start_items_intake (pipe E) bp (event_info self 0);
          Some (self\<lparr>block_pipeline := bp\<rparr>) }"

definition compute_handle_mining_pipeline_item ::
    "compute_ext \<Rightarrow> ComputeConsensused \<Rightarrow> MiningPipelineItem \<Rightarrow> RaftContextKey \<Rightarrow>
     (ComputeConsensused \<times> MiningPipelinePhaseChange option) may_panic" where
  "compute_handle_mining_pipeline_item E self pipeline_item key =
     do { (bp, change) \<leftarrow> handle_mining_pipeline_item (pipe E) (block_pipeline self) pipeline_item
            (event_info self (key_proposer_id key));
          Some (self\<lparr>block_pipeline := bp\<rparr>, change) }"

section \<open>Lemmas on the selection of transactions\<close>

subsection \<open>Validity of a batch of transactions\<close>

lemma fold_fset_minus: "fold (\<lambda>h r. r |-| {|h|}) hs A = A |-| fset_of_list hs"
  by (induction hs arbitrary: A) (auto intro!: fset_eqI)

lemma check_tx_inputs_eq:
  "check_tx_inputs u hs ra rb =
     (if distinct hs \<and> (\<forall>h \<in> set hs. fmlookup u h \<noteq> None \<and> h |\<notin>| ra)
      then (ra |\<union>| fset_of_list hs, True) else (ra |-| fset_of_list rb, False))"
proof (induction hs arbitrary: ra rb)
  case Nil
  then show ?case by simp
next
  case (Cons h hs)
  show ?case
  proof (cases "fmlookup u h \<noteq> None \<and> h |\<notin>| ra")
    case True
    then have "finsert h ra |-| fset_of_list (rb @ [h]) = ra |-| fset_of_list rb"
      by (auto intro!: fset_eqI simp: fset_of_list_elem)
    then show ?thesis using True by (auto simp: Cons.IH)
  next
    case False
    then show ?thesis by (auto simp: fold_fset_minus)
  qed
qed

text \<open>The reference: keep a transaction when its inputs are distinct, in the set and not yet used.\<close>

fun select_valid ::
    "naom_ext \<Rightarrow> UtxoSet \<Rightarrow> OutPoint fset \<Rightarrow> (string \<times> Transaction) list \<Rightarrow> (string \<times> Transaction) list" where
  "select_valid N u used [] = []"
| "select_valid N u used ((h, tx) # txs) =
     (if distinct (inputs_of N [tx]) \<and> (\<forall>op \<in> set (inputs_of N [tx]). fmlookup u op \<noteq> None \<and> op |\<notin>| used)
      then (h, tx) # select_valid N u (used |\<union>| fset_of_list (inputs_of N [tx])) txs
      else select_valid N u used txs)"

lemma select_valid_subset: "set (select_valid N u used txs) \<subseteq> set txs"
  by (induction txs arbitrary: used) (auto split: if_splits, blast+)

lemma find_invalid_loop_set:
  assumes "distinct (map fst txs)"
  shows "set (find_invalid_loop N u txs used bad) =
     set bad \<union> (set (map fst txs) - set (map fst (select_valid N u used txs)))"
  using assms
proof (induction txs arbitrary: used bad)
  case Nil
  then show ?case by simp
next
  case (Cons p txs)
  obtain h tx where p: "p = (h, tx)" by (cases p)
  have d: "distinct (map fst txs)" "h \<notin> set (map fst txs)" using Cons.prems p by simp_all
  then have "h \<notin> set (map fst (select_valid N u used' txs))" for used'
    using select_valid_subset [of N u used' txs] by force
  then show ?case using d p by (auto simp: check_tx_inputs_eq Cons.IH)
qed

text \<open>The inputs of the selected transactions: no outpoint twice, all in the set, none used before.\<close>

definition spends_once :: "naom_ext \<Rightarrow> UtxoSet \<Rightarrow> OutPoint fset \<Rightarrow> Transaction list \<Rightarrow> bool" where
  "spends_once N u used txs \<longleftrightarrow>
     distinct (concat (map (\<lambda>tx. inputs_of N [tx]) txs)) \<and>
     (\<forall>op \<in> set (concat (map (\<lambda>tx. inputs_of N [tx]) txs)). fmlookup u op \<noteq> None \<and> op |\<notin>| used)"

lemma select_valid_spends_once: "spends_once N u used (map snd (select_valid N u used txs))"
proof (induction txs arbitrary: used)
  case Nil
  then show ?case by (simp add: spends_once_def)
next
  case (Cons p txs)
  obtain h tx where p: "p = (h, tx)" by (cases p)
  show ?case
    using Cons.IH [of used] Cons.IH [of "used |\<union>| fset_of_list (inputs_of N [tx])"] p
    by (auto simp: spends_once_def fset_of_list_elem)
qed

lemma spends_once_take: "spends_once N u used txs \<Longrightarrow> spends_once N u used (take n txs)"
proof -
  assume s: "spends_once N u used txs"
  have "concat (map (\<lambda>tx. inputs_of N [tx]) txs) =
      concat (map (\<lambda>tx. inputs_of N [tx]) (take n txs)) @ concat (map (\<lambda>tx. inputs_of N [tx]) (drop n txs))"
    by (metis append_take_drop_id concat_append map_append)
  then show ?thesis using s by (simp add: spends_once_def)
qed

lemma select_valid_filter:
  assumes "distinct (map fst txs)"
  shows "select_valid N u used txs =
     filter (\<lambda>(h, _). h \<in> set (map fst (select_valid N u used txs))) txs"
  using assms
proof (induction txs arbitrary: used)
  case (Cons p txs)
  obtain h tx where p: "p = (h, tx)" by (cases p)
  have d: "distinct (map fst txs)" and h: "h \<notin> fst ` set txs" using Cons.prems p by simp_all
  have nh: "h \<notin> fst ` set (select_valid N u used' txs)" for used'
    using h select_valid_subset [of N u used' txs] by force
  have eq: "filter (\<lambda>(h', _). h' = h \<or> h' \<in> fst ` S) txs = filter (\<lambda>(h', _). h' \<in> fst ` S) txs" for S
    using h by (intro filter_cong) (auto, force)
  show ?case
    using Cons.IH [OF d] p nh
    by (auto simp: eq [of "set (select_valid N u (used |\<union>| fset_of_list (inputs_of N [tx])) txs)", simplified])
qed simp

subsection \<open>Taking the first entries\<close>

lemma sorted_list_of_fmap_keys_filter:
  "map fst (filter (\<lambda>(k, _). P k) (sorted_list_of_fmap m)) = filter P (fmkeys m)"
  by (simp add: fmkeys_def filter_map comp_def case_prod_unfold)

lemma filter_fst_take:
  assumes "distinct (map fst xs)" and "filter P (map fst xs) = take n (map fst xs)"
  shows "filter (\<lambda>(k, _). P k) xs = take n xs"
proof -
  have "map fst (filter (\<lambda>(k, _). P k) xs) = map fst (take n xs)"
    using assms(2) by (simp add: filter_map comp_def case_prod_unfold take_map)
  moreover have "inj_on fst (set xs)" using assms(1) by (simp add: distinct_map)
  ultimately show ?thesis
    by (metis (no_types, lifting) filter_is_subset inj_on_map_eq_map inj_on_subset set_take_subset sup.bounded_iff)
qed

lemma take_first_n_spec:
  "sorted_list_of_fmap (fst (take_first_n n m)) = take n (sorted_list_of_fmap m)"
  "fmlookup (snd (take_first_n n m)) k =
     (if k \<in> set (take n (fmkeys m)) then None else fmlookup m k)"
proof -
  have "n < length (fmkeys m) \<Longrightarrow> filter (\<lambda>k. k < fmkeys m ! n) (fmkeys m) = take n (fmkeys m)"
    by (rule filter_less_nth) simp_all
  then show "sorted_list_of_fmap (fst (take_first_n n m)) = take n (sorted_list_of_fmap m)"
    by (auto simp: take_first_n_def Let_def sorted_list_of_fmap_fmfilter fmkeys_def intro!: filter_fst_take)
  show "fmlookup (snd (take_first_n n m)) k =
     (if k \<in> set (take n (fmkeys m)) then None else fmlookup m k)"
  proof (cases "n < length (fmkeys m)")
    case True
    have "filter (\<lambda>k. k < fmkeys m ! n) (fmkeys m) = take n (fmkeys m)"
      using True by (intro filter_less_nth) simp_all
    then have "k \<in> set (take n (fmkeys m)) \<longleftrightarrow> k \<in> set (fmkeys m) \<and> k < fmkeys m ! n"
      by (metis (mono_tags, lifting) mem_Collect_eq set_filter)
    then show ?thesis
      using True by (auto simp: take_first_n_def Let_def not_less intro: fmdom_notD)
  next
    case False
    then have "fmlookup m k = None" if "k \<notin> set (take n (fmkeys m))"
      using that by (intro fmdom_notD) (simp del: length_fmkeys)
    then show ?thesis using False by (auto simp: take_first_n_def)
  qed
qed

lemma fmlookup_fold_fmdrop: "fmlookup (fold fmdrop ks m) k = (if k \<in> set ks then None else fmlookup m k)"
  by (induction ks arbitrary: m) auto

lemma fold_fmdrop_filter: "fold fmdrop ks m = fmfilter (\<lambda>k. k \<notin> set ks) m"
  by (rule fmap_ext) (simp add: fmlookup_fold_fmdrop)

subsection \<open>The batches of a block\<close>

text \<open>\<open>get_inputs_previous_out_point\<close> chains the inputs of the transactions it is given.\<close>

definition inputs_chained :: "naom_ext \<Rightarrow> bool" where
  "inputs_chained N \<longleftrightarrow> (\<forall>txs. inputs_of N txs = concat (map (\<lambda>tx. inputs_of N [tx]) txs))"

definition batch_inputs :: "naom_ext \<Rightarrow> TxMap \<Rightarrow> OutPoint list" where
  "batch_inputs N txs = inputs_of N (fmvalues txs)"

definition batch_valid :: "naom_ext \<Rightarrow> UtxoSet \<Rightarrow> TxMap \<Rightarrow> bool" where
  "batch_valid N u txs \<longleftrightarrow>
     distinct (batch_inputs N txs) \<and> (\<forall>op \<in> set (batch_inputs N txs). fmlookup u op \<noteq> None)"

lemma batch_valid_spends_once:
  "inputs_chained N \<Longrightarrow> batch_valid N u txs \<longleftrightarrow> spends_once N u {||} (fmvalues txs)"
  unfolding batch_valid_def spends_once_def batch_inputs_def inputs_chained_def
  by (metis fempty_iff)

text \<open>A transaction set is accepted as a whole when nothing in it is invalid.\<close>

lemma no_invalid_batch_valid:
  assumes "inputs_chained (naom E)" and "find_invalid_new_txs E self txs = []"
  shows "batch_valid (naom E) (base (utxo_set self)) txs"
proof -
  let ?xs = "sorted_list_of_fmap txs" and ?u = "base (utxo_set self)"
  let ?sel = "select_valid (naom E) ?u {||} ?xs"
  have "set (map fst ?xs) \<subseteq> set (map fst ?sel)"
    using assms(2) find_invalid_loop_set [of ?xs "naom E" ?u "{||}" "[]"]
    by (simp add: find_invalid_new_txs_def)
  then have "filter (\<lambda>(h, _). h \<in> set (map fst ?sel)) ?xs = ?xs"
    by (intro filter_True) force
  then have "?sel = ?xs" using select_valid_filter [of ?xs "naom E" ?u "{||}"] by simp
  then show ?thesis
    using select_valid_spends_once [of "naom E" ?u "{||}" ?xs] assms(1)
    by (simp add: batch_valid_spends_once fmvalues_def)
qed

text \<open>The pool without its invalid transactions is the reference selection; so is each prefix of it.\<close>

lemma pool_selection:
  "sorted_list_of_fmap (fold fmdrop (find_invalid_new_txs E self pool) pool) =
   select_valid (naom E) (base (utxo_set self)) {||} (sorted_list_of_fmap pool)"
proof -
  let ?xs = "sorted_list_of_fmap pool" and ?u = "base (utxo_set self)"
  let ?sel = "select_valid (naom E) ?u {||} ?xs"
  have "set (find_invalid_new_txs E self pool) = set (map fst ?xs) - set (map fst ?sel)"
    using find_invalid_loop_set [of ?xs "naom E" ?u "{||}" "[]"] by (simp add: find_invalid_new_txs_def)
  then have "filter (\<lambda>(h, _). h \<notin> set (find_invalid_new_txs E self pool)) ?xs
      = filter (\<lambda>(h, _). h \<in> set (map fst ?sel)) ?xs"
    by (intro filter_cong) force+
  then show ?thesis
    using select_valid_filter [of ?xs "naom E" ?u "{||}"]
    by (simp add: fold_fmdrop_filter sorted_list_of_fmap_fmfilter)
qed

lemma pool_prefix_valid:
  assumes "inputs_chained (naom E)"
  shows "batch_valid (naom E) (base (utxo_set self))
     (fst (take_first_n n (fold fmdrop (find_invalid_new_txs E self pool) pool)))"
  using select_valid_spends_once
  by (simp add: batch_valid_spends_once [OF assms] fmvalues_def take_first_n_spec(1) pool_selection
      take_map [symmetric] spends_once_take)

text \<open>
  What a partly built block has done, as the list of the batches it took: the outpoints they spend
  are distinct and in the set the block started from, and are removed from it; the block lists
  their transactions.
\<close>

definition block_spends :: "naom_ext \<Rightarrow> TxMap list \<Rightarrow> OutPoint list" where
  "block_spends N bs = concat (map (batch_inputs N) bs)"

definition block_built :: "compute_ext \<Rightarrow> ComputeConsensused \<Rightarrow> TxMap list \<Rightarrow> block_acc \<Rightarrow> bool" where
  "block_built E s bs = (\<lambda>(self, block, block_tx).
     distinct (block_spends (naom E) bs) \<and>
     (\<forall>op \<in> set (block_spends (naom E) bs). fmlookup (base (utxo_set s)) op \<noteq> None) \<and>
     utxo_set self = fold (\<lambda>op u. fst (remove_tracked_utxo_entry u op)) (block_spends (naom E) bs)
       (utxo_set s) \<and>
     block = (Block_new (naom E))\<lparr>transactions :=
       transactions (Block_new (naom E)) @ concat (map fmkeys bs)\<rparr> \<and>
     block_tx = fold (\<lambda>b acc. acc ++\<^sub>f b) bs fmempty \<and>
     self\<lparr>utxo_set := utxo_set s, tx_pool := tx_pool s, tx_druid_pool := tx_druid_pool s\<rparr> = s)"

lemma block_built_batch:
  assumes "block_built E s bs acc" and "batch_valid (naom E) (base (utxo_set (fst acc))) txs"
  shows "block_built E s (bs @ [txs]) (update_current_block_tx_with_given_valid_txs E txs acc)"
proof -
  obtain self block block_tx where acc: "acc = (self, block, block_tx)" by (cases acc)
  have u: "fmlookup (base (utxo_set self)) op =
      (if op \<in> set (block_spends (naom E) bs) then None else fmlookup (base (utxo_set s)) op)" for op
    using assms(1) acc
      tracked.view_spends [where ks = "block_spends (naom E) bs" and s = "utxo_set s" and k = op]
    by (simp add: block_built_def)
  have "distinct (batch_inputs (naom E) txs)"
    and "\<forall>op \<in> set (batch_inputs (naom E) txs).
      op \<notin> set (block_spends (naom E) bs) \<and> fmlookup (base (utxo_set s)) op \<noteq> None"
    using assms(2) acc by (auto simp: batch_valid_def u split: if_splits)
  then show ?thesis
    using assms(1) acc
    by (auto simp: block_built_def update_current_block_tx_with_given_valid_txs_def
        block_spends_def batch_inputs_def)
qed

lemma block_built_frame:
  "block_built E s bs (self, block, block_tx) \<Longrightarrow> block_built E s bs (self\<lparr>tx_pool := p\<rparr>, block, block_tx)"
  by (auto simp: block_built_def)

lemma committed_dde_built:
  assumes "inputs_chained (naom E)" and "block_built E s bs acc"
  shows "\<exists>bs'. block_built E s (bs @ bs') (committed_dde_loop E pool acc) \<and> set bs' \<subseteq> set pool"
  using assms(2)
proof (induction pool arbitrary: bs acc)
  case Nil
  then show ?case by (intro exI [of _ "[]"]) simp
next
  case (Cons txs pool)
  show ?case
  proof (cases "find_invalid_new_txs E (fst acc) txs = []")
    case True
    then have "block_built E s (bs @ [txs]) (update_current_block_tx_with_given_valid_txs E txs acc)"
      using Cons.prems no_invalid_batch_valid [OF assms(1) True] by (intro block_built_batch) simp_all
    from Cons.IH [OF this] obtain bs' where "set bs' \<subseteq> set pool"
      and "block_built E s ((bs @ [txs]) @ bs') (committed_dde_loop E (txs # pool) acc)"
      using True by auto
    then show ?thesis by (intro exI [of _ "txs # bs'"]) auto
  next
    case False
    then show ?thesis using Cons.IH [OF Cons.prems] by fastforce
  qed
qed

lemma committed_dde_pool: "tx_pool (fst (committed_dde_loop E pool acc)) = tx_pool (fst acc)"
  by (induction pool arbitrary: acc)
    (auto simp: update_current_block_tx_with_given_valid_txs_def case_prod_unfold)

lemma block_built_fields:
  assumes "block_built E s bs (self, block, block_tx)"
  shows "tx_current_block_previous_hash self = tx_current_block_previous_hash s"
    and "block_pipeline self = block_pipeline s"
proof -
  have "self\<lparr>utxo_set := utxo_set s, tx_pool := tx_pool s, tx_druid_pool := tx_druid_pool s\<rparr> = s"
    using assms by (simp add: block_built_def)
  from arg_cong [OF this, of tx_current_block_previous_hash] arg_cong [OF this, of block_pipeline]
  show "tx_current_block_previous_hash self = tx_current_block_previous_hash s"
    and "block_pipeline self = block_pipeline s" by simp_all
qed

lemma take_first_n_fst:
  "fst (take_first_n n m) \<subseteq>\<^sub>f m" "fmlen (fst (take_first_n n m)) \<le> n"
  using arg_cong [OF take_first_n_spec(1) [of n m], of length]
  by (auto simp: take_first_n_def Let_def fmsubset.rep_eq map_le_def)

lemma generate_block_built:
  assumes "inputs_chained (naom E)" and "generate_block E s = Some s'"
  shows "\<exists>ds txs self block block_tx prev bn.
     block_built E s (ds @ [txs]) (self, block, block_tx) \<and>
     set ds \<subseteq> set (tx_druid_pool s) \<and> txs \<subseteq>\<^sub>f tx_pool s \<and> fmlen txs \<le> BLOCK_SIZE_IN_TX \<and>
     tx_current_block_previous_hash s = Some prev \<and> current_block_num (block_pipeline s) = Some bn \<and>
     s' = compute_set_committed_mining_block E (self\<lparr>tx_current_block_previous_hash := None\<rparr>)
       (set_txs_merkle_root_and_hash (naom E)
          (block\<lparr>header := (header block)\<lparr>previous_hash := Some prev, b_num := bn\<rparr>\<rparr>)) block_tx"
proof -
  have "block_built E s [] (s\<lparr>tx_druid_pool := []\<rparr>, Block_new (naom E), fmempty)"
    by (simp add: block_built_def block_spends_def)
  from committed_dde_built [OF assms(1) this, of "tx_druid_pool s"] obtain ds self1 block1 tx1 where
    dde: "update_committed_dde_tx E (s, Block_new (naom E), fmempty) = (self1, block1, tx1)"
    and ds: "set ds \<subseteq> set (tx_druid_pool s)" and b1: "block_built E s ds (self1, block1, tx1)"
    by (cases "update_committed_dde_tx E (s, Block_new (naom E), fmempty)")
      (auto simp: update_committed_dde_tx_def)
  define pool where "pool = fold fmdrop (find_invalid_new_txs E self1 (tx_pool self1)) (tx_pool self1)"
  obtain txs rest where t: "take_first_n BLOCK_SIZE_IN_TX pool = (txs, rest)" by (cases "take_first_n BLOCK_SIZE_IN_TX pool")
  have "batch_valid (naom E) (base (utxo_set self1)) txs"
    using pool_prefix_valid [OF assms(1), of self1 BLOCK_SIZE_IN_TX "tx_pool self1"] t
    by (simp add: pool_def)
  then have b2: "block_built E s (ds @ [txs])
      (update_current_block_tx_with_given_valid_txs E txs (self1\<lparr>tx_pool := rest\<rparr>, block1, tx1))"
    using b1 by (intro block_built_batch block_built_frame) simp_all
  obtain self block block_tx where
    upd: "update_current_block_tx_with_given_valid_txs E txs (self1\<lparr>tx_pool := rest\<rparr>, block1, tx1)
      = (self, block, block_tx)" by (cases "update_current_block_tx_with_given_valid_txs E txs (self1\<lparr>tx_pool := rest\<rparr>, block1, tx1)")
  then have cur: "update_current_block_tx E (update_committed_dde_tx E (s, Block_new (naom E), fmempty))
      = (self, block, block_tx)"
    using dde t by (simp add: update_current_block_tx_def pool_def Let_def)
  have b3: "block_built E s (ds @ [txs]) (self, block, block_tx)" using b2 upd by simp
  have "tx_pool self1 = tx_pool s"
    using committed_dde_pool [of E "tx_druid_pool s" "(s\<lparr>tx_druid_pool := []\<rparr>, Block_new (naom E), fmempty)"] dde
    by (simp add: update_committed_dde_tx_def)
  then have "pool \<subseteq>\<^sub>f tx_pool s"
    by (simp add: pool_def fold_fmdrop_filter fmsubset.rep_eq map_le_def)
  then have "txs \<subseteq>\<^sub>f tx_pool s"
    using take_first_n_fst(1) [of BLOCK_SIZE_IN_TX pool] t
    unfolding fmsubset.rep_eq fst_conv by (metis fst_conv map_le_trans)
  moreover have "fmlen txs \<le> BLOCK_SIZE_IN_TX"
    using take_first_n_fst(2) [of BLOCK_SIZE_IN_TX pool] t by simp
  moreover obtain prev bn where "tx_current_block_previous_hash s = Some prev"
    "current_block_num (block_pipeline s) = Some bn"
    "s' = compute_set_committed_mining_block E (self\<lparr>tx_current_block_previous_hash := None\<rparr>)
       (set_txs_merkle_root_and_hash (naom E)
          (block\<lparr>header := (header block)\<lparr>previous_hash := Some prev, b_num := bn\<rparr>\<rparr>)) block_tx"
    using assms(2) block_built_fields [OF b3] cur
    by (auto simp: generate_block_def update_block_header_def option_bind_Some_iff Let_def)
  ultimately show ?thesis using b3 ds by blast
qed

section \<open>Lemmas on votes\<close>

definition info_key :: "compute_ext \<Rightarrow> AccumulatingBlockStoredInfo \<Rightarrow> bytes" where
  "info_key E info = acc_digest E (the (acc_info_serialize E info))"

definition info_voted ::
    "compute_ext \<Rightarrow> ComputeConsensused \<Rightarrow> AccumulatingBlockStoredInfo \<Rightarrow> u64 \<Rightarrow> ComputeConsensused \<Rightarrow> bool" where
  "info_voted E s info p t \<longleftrightarrow>
     (\<exists>key. key_proposer_id key = p \<and> append_current_block_stored_info E s key info = Some t)"

definition cmd_voted ::
    "ComputeConsensused \<Rightarrow> CoordinatedCommand \<Rightarrow> u64 \<Rightarrow> ComputeConsensused \<Rightarrow> bool" where
  "cmd_voted s cmd p t \<longleftrightarrow>
     (\<exists>key. key_proposer_id key = p \<and> t = append_current_coordinated_raft_cmd_stored_info s key cmd)"

interpretation infos: hashed_vote_box "\<lambda>s. hashed_votes (current_block_stored_info s)" "info_key E"
  "info_voted E" "\<lambda>s. hashed_value (current_block_stored_info s)" for E
  by unfold_locales
    (auto simp: info_voted_def append_current_block_stored_info_def info_key_def option_bind_Some_iff
      hashed_votes_entry hashed_value_entry)

interpretation cmds: vote_box "\<lambda>s. plain_votes (current_raft_coordinated_cmd_stored_info s)" "\<lambda>c. c" cmd_voted
  by unfold_locales
    (auto simp: cmd_voted_def append_current_coordinated_raft_cmd_stored_info_def plain_votes_entry)

lemma info_casts_frame:
  "casts (info_voted E) s cs t \<Longrightarrow> is_first_block t = is_first_block s \<and>
     c_unanimous_majority t = c_unanimous_majority s \<and> c_sufficient_majority t = c_sufficient_majority s"
  by (induction rule: casts.induct)
    (auto simp: info_voted_def append_current_block_stored_info_def option_bind_Some_iff is_first_block_def)

lemma cmd_casts_frame:
  "casts cmd_voted s cs t \<Longrightarrow> c_unanimous_majority t = c_unanimous_majority s"
  by (induction rule: casts.induct)
    (auto simp: cmd_voted_def append_current_coordinated_raft_cmd_stored_info_def)

definition block_info_threshold :: "ComputeConsensused \<Rightarrow> nat" where
  "block_info_threshold s =
     (if is_first_block s then c_unanimous_majority s else c_sufficient_majority s)"

text \<open>No two values voted for have the same hash.\<close>

definition no_collision :: "compute_ext \<Rightarrow> (AccumulatingBlockStoredInfo \<times> u64) list \<Rightarrow> bool" where
  "no_collision E cs \<longleftrightarrow> (\<forall>(v, _) \<in> set cs. \<forall>(v', _) \<in> set cs. info_key E v = info_key E v' \<longrightarrow> v = v')"

lemma info_votes_of:
  assumes "casts (info_voted E) s cs t" and "current_block_stored_info s = fmempty" and "no_collision E cs"
    and "fmlookup (current_block_stored_info t) h = Some (v, ids)"
  shows "h = info_key E v \<and> fset ids = {p. (v, p) \<in> set cs}"
proof -
  have v: "hashed_value (current_block_stored_info t) h = Some v"
    and i: "hashed_votes (current_block_stored_info t) h = ids"
    using assms(4) by (simp_all add: fmlookup_hashed)
  have h: "info_key E v = h" and "\<exists>p. (v, p) \<in> set cs"
    using infos.stored_casts [OF assms(1) _ v] assms(2) by simp_all
  then have "\<forall>(v', p) \<in> set cs. info_key E v' = info_key E v \<longrightarrow> v' = v"
    using assms(3) by (fastforce simp: no_collision_def)
  then show ?thesis using infos.votes_of [OF assms(1)] assms(2) h i by auto
qed

lemma info_ready_iff:
  assumes "casts (info_voted E) s cs t" and "current_block_stored_info s = fmempty" and "no_collision E cs"
    and "0 < block_info_threshold s"
  shows "has_block_stored_info_ready t \<longleftrightarrow> (\<exists>v. block_info_threshold s \<le> card {p. (v, p) \<in> set cs})"
proof -
  have "has_block_stored_info_ready t \<longleftrightarrow> block_info_threshold s \<le> max_agreeing_block_stored_info t"
    using info_casts_frame [OF assms(1)]
    by (auto simp: has_block_stored_info_ready_def block_info_threshold_def)
  also have "\<dots> \<longleftrightarrow> (\<exists>h v ids. fmlookup (current_block_stored_info t) h = Some (v, ids) \<and>
      block_info_threshold s \<le> fcard ids)"
    using max_votes_iff [OF assms(4), of "\<lambda>v. fcard (snd v)"]
    by (auto simp: max_agreeing_block_stored_info_def)
  also have "\<dots> \<longleftrightarrow> (\<exists>v. block_info_threshold s \<le> card {p. (v, p) \<in> set cs})" (is "?L \<longleftrightarrow> ?R")
  proof
    assume ?L
    then show ?R using info_votes_of [OF assms(1-3)] by (auto simp: fcard_fset)
  next
    assume ?R
    then obtain v where v: "block_info_threshold s \<le> card {p. (v, p) \<in> set cs}" by blast
    then have "{p. (v, p) \<in> set cs} \<noteq> {}" using assms(4) by (auto simp del: Collect_empty_eq)
    then obtain p where p: "(v, p) \<in> set cs" by blast
    then have "\<forall>(v', p') \<in> set cs. info_key E v' = info_key E v \<longrightarrow> v' = v"
      using assms(3) by (fastforce simp: no_collision_def)
    then have "hashed_value (current_block_stored_info t) (info_key E v) = Some v"
      using infos.stored_of_voted [OF assms(1) p] assms(2) by simp
    then obtain ids where "fmlookup (current_block_stored_info t) (info_key E v) = Some (v, ids)"
      by (auto simp: hashed_value_def)
    then show ?L using info_votes_of [OF assms(1-3)] v by (force simp: fcard_fset)
  qed
  finally show ?thesis .
qed

lemma take_ready_info:
  assumes "0 < k" and "k \<le> max_agreeing_block_stored_info t"
  shows "\<exists>h info ids. take_ready_block_stored_info t
       = Some (t\<lparr>current_block_stored_info := fmempty\<rparr>, info) \<and>
     fmlookup (current_block_stored_info t) h = Some (info, ids) \<and> k \<le> fcard ids"
proof -
  let ?vs = "fmvalues (current_block_stored_info t)"
  have "max_by_key (\<lambda>v. fcard (snd v)) ?vs \<noteq> None"
    using assms by (auto simp: max_agreeing_block_stored_info_def max_or_0_def)
  then obtain info ids where m: "max_by_key (\<lambda>v. fcard (snd v)) ?vs = Some (info, ids)"
    by (metis option.exhaust surj_pair)
  then have "k \<le> fcard ids" and "\<exists>h. fmlookup (current_block_stored_info t) h = Some (info, ids)"
    using max_by_votes_ready [OF assms(2) [unfolded max_agreeing_block_stored_info_def] m] by simp_all
  moreover have "take_ready_block_stored_info t = Some (t\<lparr>current_block_stored_info := fmempty\<rparr>, info)"
    using m by (simp add: take_ready_block_stored_info_def case_prod_unfold)
  ultimately show ?thesis by blast
qed

subsection \<open>Coordinated commands\<close>

text \<open>Every command in the counter has at least one vote.\<close>

lemma cmd_casts_lookup:
  assumes "casts cmd_voted s cs t" and "current_raft_coordinated_cmd_stored_info s = fmempty"
  shows "fmlookup (current_raft_coordinated_cmd_stored_info t) c =
     (if c \<in> fst ` set cs then Some (plain_votes (current_raft_coordinated_cmd_stored_info t) c) else None)"
  using assms
  by (induction rule: casts.induct)
    (auto simp: cmd_voted_def append_current_coordinated_raft_cmd_stored_info_def plain_votes_def
      image_iff split: option.splits if_splits)

lemma cmd_votes_of:
  assumes "casts cmd_voted s cs t" and "current_raft_coordinated_cmd_stored_info s = fmempty"
  shows "fset (plain_votes (current_raft_coordinated_cmd_stored_info t) c) = {p. (c, p) \<in> set cs}"
  using cmds.votes_of [OF assms(1), of c] assms(2) by auto

lemma cmd_ready_iff:
  assumes "casts cmd_voted s cs t" and "current_raft_coordinated_cmd_stored_info s = fmempty"
    and "0 < c_unanimous_majority s"
  shows "has_coordinated_raft_cmd_info_ready t \<longleftrightarrow>
     (\<exists>c. c_unanimous_majority s \<le> card {p. (c, p) \<in> set cs})"
proof -
  have "has_coordinated_raft_cmd_info_ready t \<longleftrightarrow>
      (\<exists>c ids. fmlookup (current_raft_coordinated_cmd_stored_info t) c = Some ids \<and>
         c_unanimous_majority s \<le> fcard ids)"
    using cmd_casts_frame [OF assms(1)] max_votes_iff [OF assms(3)]
    by (simp add: has_coordinated_raft_cmd_info_ready_def max_agreeing_coordinated_raft_cmd_stored_info_def)
  also have "\<dots> \<longleftrightarrow> (\<exists>c. c_unanimous_majority s \<le> card {p. (c, p) \<in> set cs})" (is "?L \<longleftrightarrow> ?R")
  proof
    assume ?L
    then show ?R
      using cmd_casts_lookup [OF assms(1,2)] cmd_votes_of [OF assms(1,2)]
      by (auto simp: fcard_fset split: if_splits)
  next
    assume ?R
    then obtain c where c: "c_unanimous_majority s \<le> card {p. (c, p) \<in> set cs}" by blast
    then have "{p. (c, p) \<in> set cs} \<noteq> {}" using assms(3) by (auto simp del: Collect_empty_eq)
    then have "c \<in> fst ` set cs" by force
    then show ?L
      using c cmd_casts_lookup [OF assms(1,2), of c] cmd_votes_of [OF assms(1,2), of c]
      by (metis fcard_fset)
  qed
  finally show ?thesis .
qed

lemma fold_last_voted:
  assumes "\<forall>(c, v) \<in> set xs. 0 < fcard v"
  shows "fold (\<lambda>(c, v) cmd. if 0 < fcard v then c else cmd) xs d = (if xs = [] then d else fst (last xs))"
  using assms by (induction xs arbitrary: d) auto

text \<open>Taking the command returns the greatest one that was voted for at all.\<close>

lemma taken_cmd_greatest:
  assumes "casts cmd_voted s cs t" and "current_raft_coordinated_cmd_stored_info s = fmempty" and "cs \<noteq> []"
  shows "take_ready_coordinated_raft_cmd t =
     (t\<lparr>current_raft_coordinated_cmd_stored_info := fmempty\<rparr>, Max (fst ` set cs))"
proof -
  let ?m = "current_raft_coordinated_cmd_stored_info t"
  let ?xs = "sorted_list_of_fmap ?m"
  have keys: "set (map fst ?xs) = fst ` set cs"
    using cmd_casts_lookup [OF assms(1,2)]
    by (simp add: fmkeys_def [symmetric] del: set_map)
      (auto simp: fmlookup_dom_iff rev_image_eqI split: if_splits)
  have "0 < fcard v" if "(c, v) \<in> set ?xs" for c v
  proof -
    have l: "fmlookup ?m c = Some v" using that by (simp add: set_sorted_list_of_fmap)
    then have "c \<in> fst ` set cs" using cmd_casts_lookup [OF assms(1,2), of c] by (simp split: if_splits)
    moreover have "fset v = {p. (c, p) \<in> set cs}"
      using cmd_votes_of [OF assms(1,2), of c] l by (simp add: plain_votes_def)
    ultimately have "fset v \<noteq> {}" by force
    then show ?thesis by (simp add: fcard_fset card_gt_0_iff)
  qed
  then have "fold (\<lambda>(c, v) cmd. if 0 < fcard v then c else cmd) ?xs CoordinatedCommand_default
      = (if ?xs = [] then CoordinatedCommand_default else fst (last ?xs))"
    by (intro fold_last_voted) auto
  moreover have ne: "?xs \<noteq> []" using keys assms(3) by auto
  moreover have "fst (last ?xs) = Max (fst ` set cs)"
  proof -
    have "fst (last ?xs) = last (fmkeys ?m)" using ne by (simp add: fmkeys_def last_map)
    also have "\<dots> = Max (set (fmkeys ?m))"
    proof (rule sym, rule Max_eqI)
      have k: "fmkeys ?m \<noteq> []" using ne by (simp add: fmkeys_def)
      then show "last (fmkeys ?m) \<in> set (fmkeys ?m)" by (rule last_in_set)
      show "y \<le> last (fmkeys ?m)" if y: "y \<in> set (fmkeys ?m)" for y
        using y k sorted_fmkeys [of ?m] by (metis append_butlast_last_id in_set_conv_decomp
            sorted_append order_refl list.set_intros(1) Un_iff set_append set_ConsD empty_iff empty_set)
    qed simp
    finally show ?thesis using keys by (simp add: fmkeys_def)
  qed
  ultimately show ?thesis by (simp add: take_ready_coordinated_raft_cmd_def)
qed

section \<open>Lemmas on rewards and settings\<close>

lemma calculate_reward_bound:
  assumes "circ \<le> TOTAL_TOKENS N"
  shows "unat circ + unat (calculate_reward N circ) \<le> unat (TOTAL_TOKENS N)"
proof -
  have "unat (calculate_reward N circ) \<le> unat (TOTAL_TOKENS N - circ)"
    by (simp only: calculate_reward_def unat_drop_bit_eq) (simp add: drop_bit_eq_div)
  also have "\<dots> = unat (TOTAL_TOKENS N) - unat circ" using assms by (rule unat_sub)
  finally show ?thesis using assms by (simp add: word_le_nat_alt)
qed

lemma share_bound:
  fixes r :: u64
  assumes "n < 2 ^ 64"
  shows "n * unat (r div word_of_nat n) \<le> unat r"
proof -
  have "unat (word_of_nat n :: u64) = n" using assms by (simp add: unat_of_nat)
  then have "unat (r div word_of_nat n) = unat r div n" by (simp add: unat_div)
  then show ?thesis by simp
qed

definition api_keys_unique :: "(SocketAddr, string) fmap \<Rightarrow> bool" where
  "api_keys_unique keys \<longleftrightarrow>
     (\<forall>a b k. fmlookup keys a = Some k \<longrightarrow> fmlookup keys b = Some k \<longrightarrow> a = b)"

lemma api_keys_unique_add [inv_intros]: "api_keys_unique keys \<Longrightarrow> api_keys_unique (add_mining_api_key e keys)"
  by (cases e) (auto simp: api_keys_unique_def fmlookup_ran_iff)

lemma api_keys_unique_fmdrop [inv_intros]: "api_keys_unique keys \<Longrightarrow> api_keys_unique (fmdrop a keys)"
  by (simp add: api_keys_unique_def)

lemma api_keys_unique_adds [inv_intros]:
  "api_keys_unique keys \<Longrightarrow> api_keys_unique (fold add_mining_api_key es keys)"
  by (induction es arbitrary: keys) (auto intro: api_keys_unique_add simp del: add_mining_api_key.simps)

lemma api_keys_unique_fmdrops [inv_intros]:
  "api_keys_unique keys \<Longrightarrow> api_keys_unique (fold fmdrop as keys)"
  by (induction as arbitrary: keys) (auto intro: api_keys_unique_fmdrop)

section \<open>Properties\<close>

text \<open>A state with two outputs to spend and two transactions in the pool that spend the same one.\<close>

definition demo_cext :: compute_ext where
  "demo_cext = \<lparr>naom = demo_naom, pipe = demo_ext,
     acc_info_serialize = (\<lambda>i. case i of AccFirstBlock _ \<Rightarrow> Some [0] | AccBlock b \<Rightarrow> Some [1, ucast (block_num b)]),
     acc_digest = (\<lambda>bs. bs)\<rparr>"

definition demo_spend :: "OutPoint list \<Rightarrow> u64 \<Rightarrow> Transaction" where
  "demo_spend ops v =
     \<lparr>inputs = map (\<lambda>op. \<lparr>previous_out = Some op, script_signature = \<lparr>stack = []\<rparr>\<rparr>) ops,
      outputs = [demo_out v ''b''], tx_version = 0, druid_info = None\<rparr>"

definition demo_pool :: TxMap where
  "demo_pool = fmupd ''x'' (demo_spend [demo_op ''t'' 0] 3) (fmupd ''y'' (demo_spend [demo_op ''t'' 0] 3) fmempty)"

definition demo_cstate :: ComputeConsensused where
  "demo_cstate = with_peers_len ComputeConsensused_default 3
     \<lparr>tx_pool := demo_pool, tx_current_block_previous_hash := Some ''p'',
      utxo_set := TrackedUtxoSet_new demo_utxo,
      block_pipeline := MiningPipelineInfo_default\<lparr>current_block_num := Some 4\<rparr>\<rparr>"

lemma BLOCK_SIZE_IN_TX_eq [code]: "BLOCK_SIZE_IN_TX = 2000"
  by (simp add: BLOCK_SIZE_IN_TX_def BLOCK_SIZE_def)

lemma demo_inputs_chained: "inputs_chained (naom demo_cext)"
  by (simp add: inputs_chained_def demo_cext_def demo_naom_def)

text \<open>C1: a generated block spends every outpoint at most once over all its transactions, DRUID
  droplets and pool together, and only outpoints of the UTXO set before it; afterwards the set has
  exactly lost them and gained the outputs of the block. The transactions come from the two pools,
  at most the block size of them from the transaction pool.\<close>

theorem generate_block_spends_once:
  assumes chained: "inputs_chained (naom E)" and "generate_block E s = Some s'"
  shows "\<exists>ds txs spends block_tx.
     set ds \<subseteq> set (tx_druid_pool s) \<and> txs \<subseteq>\<^sub>f tx_pool s \<and> fmlen txs \<le> BLOCK_SIZE_IN_TX \<and>
     spends = concat (map (\<lambda>b. inputs_of (naom E) (fmvalues b)) (ds @ [txs])) \<and>
     block_tx = fold (\<lambda>b acc. acc ++\<^sub>f b) (ds @ [txs]) fmempty \<and>
     current_block_tx (block_pipeline s') = block_tx \<and>
     distinct spends \<and> (\<forall>op \<in> set spends. fmlookup (base (utxo_set s)) op \<noteq> None) \<and>
     (\<forall>op. fmlookup (base (utxo_set s')) op =
        (case map_of (rev (tx_outs_of (naom E) (sorted_list_of_fmap block_tx))) op of
           Some out \<Rightarrow> Some out
         | None \<Rightarrow> if op \<in> set spends then None else fmlookup (base (utxo_set s)) op))"
proof -
  obtain ds txs self block block_tx block' where
    b: "block_built E s (ds @ [txs]) (self, block, block_tx)"
    and p: "set ds \<subseteq> set (tx_druid_pool s)" "txs \<subseteq>\<^sub>f tx_pool s" "fmlen txs \<le> BLOCK_SIZE_IN_TX"
    and s': "s' = compute_set_committed_mining_block E (self\<lparr>tx_current_block_previous_hash := None\<rparr>) block' block_tx"
    using generate_block_built [OF assms] by blast
  have u: "utxo_set s' = extend_tracked_utxo_set (naom E)
      (fold (\<lambda>op u. fst (remove_tracked_utxo_entry u op)) (block_spends (naom E) (ds @ [txs])) (utxo_set s))
      block_tx"
    using b s' by (simp add: compute_set_committed_mining_block_def block_built_def)
  have "fmlookup (base (utxo_set s')) op =
        (case map_of (rev (tx_outs_of (naom E) (sorted_list_of_fmap block_tx))) op of
           Some out \<Rightarrow> Some out
         | None \<Rightarrow> if op \<in> set (block_spends (naom E) (ds @ [txs])) then None
            else fmlookup (base (utxo_set s)) op)" for op
    unfolding u by (rule tracked.view_spends_add)
  moreover have "current_block_tx (block_pipeline s') = block_tx"
    using s' by (simp add: compute_set_committed_mining_block_def pipeline_set_committed_mining_block_def)
  moreover have "block_spends (naom E) (ds @ [txs])
      = concat (map (\<lambda>b. inputs_of (naom E) (fmvalues b)) (ds @ [txs]))"
    by (simp add: block_spends_def batch_inputs_def [abs_def])
  moreover have "distinct (block_spends (naom E) (ds @ [txs]))"
    "\<forall>op \<in> set (block_spends (naom E) (ds @ [txs])). fmlookup (base (utxo_set s)) op \<noteq> None"
    "block_tx = fold (\<lambda>b acc. acc ++\<^sub>f b) (ds @ [txs]) fmempty"
    using b unfolding block_built_def prod.case by blast+
  ultimately show ?thesis
    using p by (intro exI [of _ ds], intro exI [of _ txs],
        intro exI [of _ "block_spends (naom E) (ds @ [txs])"]) blast
qed

theorem generate_block_spends_once_witness:
  "\<exists>s'. generate_block demo_cext demo_cstate = Some s' \<and>
     fmdom (current_block_tx (block_pipeline s')) = {|''x''|} \<and>
     fmlookup (base (utxo_set s')) (demo_op ''t'' 0) = None"
proof -
  have g: "map_option (\<lambda>s'. (fmdom (current_block_tx (block_pipeline s')),
      tx_outs_of (naom demo_cext) (sorted_list_of_fmap (current_block_tx (block_pipeline s'))),
      fmlookup (base (utxo_set s')) (demo_op ''t'' 0)))
      (generate_block demo_cext demo_cstate)
    = Some ({|''x''|}, [(demo_op ''x'' 0, demo_out 3 ''b'')], None)"
    by code_simp
  then obtain s' where "generate_block demo_cext demo_cstate = Some s'"
    "fmdom (current_block_tx (block_pipeline s')) = {|''x''|}"
    "fmlookup (base (utxo_set s')) (demo_op ''t'' 0) = None" by auto
  with generate_block_spends_once [OF demo_inputs_chained, of demo_cstate s'] show ?thesis by auto
qed

text \<open>C29: \<open>find_invalid_new_txs\<close> reports exactly the transactions the greedy reference selection in
  hash order leaves out; the others together spend every outpoint at most once and only outpoints
  of the UTXO set.\<close>

theorem find_invalid_new_txs_exact:
  "\<exists>valid. valid = select_valid (naom E) (base (utxo_set s)) {||} (sorted_list_of_fmap txs) \<and>
     set (find_invalid_new_txs E s txs) = fset (fmdom txs) - set (map fst valid) \<and>
     set valid \<subseteq> set (sorted_list_of_fmap txs) \<and>
     distinct (concat (map (\<lambda>(_, tx). inputs_of (naom E) [tx]) valid)) \<and>
     (\<forall>(_, tx) \<in> set valid. \<forall>op \<in> set (inputs_of (naom E) [tx]). fmlookup (base (utxo_set s)) op \<noteq> None)"
proof -
  let ?xs = "sorted_list_of_fmap txs" and ?u = "base (utxo_set s)"
  have "spends_once (naom E) ?u {||} (map snd (select_valid (naom E) ?u {||} ?xs))"
    by (rule select_valid_spends_once)
  moreover have "set (map fst ?xs) = fset (fmdom txs)"
    using set_fmkeys [of txs] by (simp add: fmkeys_def)
  ultimately show ?thesis
    using find_invalid_loop_set [of ?xs "naom E" ?u "{||}" "[]"] select_valid_subset [of "naom E" ?u "{||}" ?xs]
    by (auto simp: find_invalid_new_txs_def spends_once_def comp_def case_prod_unfold)
qed

text \<open>An instance: of two transactions that spend the same outpoint the second one is reported.\<close>

theorem find_invalid_new_txs_exact_witness:
  "find_invalid_new_txs demo_cext demo_cstate demo_pool = [''y''] \<and>
   set (find_invalid_new_txs demo_cext demo_cstate demo_pool) \<subseteq> fset (fmdom demo_pool)"
proof -
  have "find_invalid_new_txs demo_cext demo_cstate demo_pool = [''y'']" by code_simp
  moreover have "set (find_invalid_new_txs demo_cext demo_cstate demo_pool) \<subseteq> fset (fmdom demo_pool)"
    using find_invalid_new_txs_exact [of demo_cext demo_cstate demo_pool] by blast
  ultimately show ?thesis by blast
qed

text \<open>C8: votes for the block information. Starting from no votes, and when no two values voted for have
  the same hash, the information is ready exactly when some value has the required number of
  distinct proposers; then taking it does not panic, empties the counter and returns a value with that
  many proposers, and if no peer voted for two values and the requirement is a majority of the peers,
  no other value has that many.\<close>

theorem block_info_quorum:
  assumes "casts (info_voted E) s cs t" and "current_block_stored_info s = fmempty"
    and "no_collision E cs" and "0 < block_info_threshold s"
  shows "(has_block_stored_info_ready t \<longleftrightarrow> (\<exists>v. block_info_threshold s \<le> card {p. (v, p) \<in> set cs})) \<and>
     (has_block_stored_info_ready t \<longrightarrow>
       (\<exists>info. take_ready_block_stored_info t = Some (t\<lparr>current_block_stored_info := fmempty\<rparr>, info) \<and>
          block_info_threshold s \<le> card {p. (info, p) \<in> set cs} \<and>
          (\<forall>P info'. finite P \<and> snd ` set cs \<subseteq> P \<and> card P div 2 + 1 \<le> block_info_threshold s \<and>
             (\<forall>(v, p) \<in> set cs. \<forall>(v', p') \<in> set cs. p = p' \<longrightarrow> v = v') \<and>
             block_info_threshold s \<le> card {p. (info', p) \<in> set cs} \<longrightarrow> info' = info)))"
proof (intro conjI impI)
  show "has_block_stored_info_ready t \<longleftrightarrow> (\<exists>v. block_info_threshold s \<le> card {p. (v, p) \<in> set cs})"
    by (rule info_ready_iff [OF assms])
  assume "has_block_stored_info_ready t"
  then have "block_info_threshold s \<le> max_agreeing_block_stored_info t"
    using info_casts_frame [OF assms(1)]
    by (auto simp: has_block_stored_info_ready_def block_info_threshold_def split: if_splits)
  from take_ready_info [OF assms(4) this] obtain h info ids where
    t: "take_ready_block_stored_info t = Some (t\<lparr>current_block_stored_info := fmempty\<rparr>, info)"
    and l: "fmlookup (current_block_stored_info t) h = Some (info, ids)" "block_info_threshold s \<le> fcard ids"
    by blast
  then have c: "block_info_threshold s \<le> card {p. (info, p) \<in> set cs}"
    using info_votes_of [OF assms(1-3) l(1)] by (simp add: fcard_fset)
  have "info' = info" if "finite P \<and> snd ` set cs \<subseteq> P \<and> card P div 2 + 1 \<le> block_info_threshold s \<and>
      (\<forall>(v, p) \<in> set cs. \<forall>(v', p') \<in> set cs. p = p' \<longrightarrow> v = v') \<and>
      block_info_threshold s \<le> card {p. (info', p) \<in> set cs}" for P info'
    using that c by (intro infos.majority_unique [of P cs info' info]) (auto elim: order_trans)
  then show "\<exists>info. take_ready_block_stored_info t = Some (t\<lparr>current_block_stored_info := fmempty\<rparr>, info) \<and>
      block_info_threshold s \<le> card {p. (info, p) \<in> set cs} \<and>
      (\<forall>P info'. finite P \<and> snd ` set cs \<subseteq> P \<and> card P div 2 + 1 \<le> block_info_threshold s \<and>
         (\<forall>(v, p) \<in> set cs. \<forall>(v', p') \<in> set cs. p = p' \<longrightarrow> v = v') \<and>
         block_info_threshold s \<le> card {p. (info', p) \<in> set cs} \<longrightarrow> info' = info)"
    using t c by blast
qed

definition demo_info :: BlockStoredInfo where
  "demo_info = \<lparr>block_hash = ''h'', block_num = 4, stored_nonce = [], mining_transactions = fmempty,
     stored_shutdown = False\<rparr>"

definition demo_vote_key :: "u64 \<Rightarrow> RaftContextKey" where
  "demo_vote_key p = \<lparr>key_proposer_id = p, proposer_run = 0, proposal_id = 1\<rparr>"

definition demo_voted :: ComputeConsensused where
  "demo_voted = demo_cstate\<lparr>current_block_stored_info := fmupd [1, 4] (AccBlock demo_info, {|1, 2|}) fmempty\<rparr>"

lemma demo_votes: "casts (info_voted demo_cext) demo_cstate [(AccBlock demo_info, 1), (AccBlock demo_info, 2)] demo_voted"
proof -
  let ?t = "demo_cstate\<lparr>current_block_stored_info := fmupd [1, 4] (AccBlock demo_info, {|1|}) fmempty\<rparr>"
  have "current_block_stored_info demo_cstate = fmempty"
    by (simp add: demo_cstate_def with_peers_len_def ComputeConsensused_default_def)
  then have "append_current_block_stored_info demo_cext demo_cstate (demo_vote_key 1) (AccBlock demo_info) = Some ?t"
    by (simp add: append_current_block_stored_info_def demo_cext_def demo_info_def demo_vote_key_def fmentry_def)
  then have "info_voted demo_cext demo_cstate (AccBlock demo_info) 1 ?t"
    unfolding info_voted_def by (intro exI [of _ "demo_vote_key 1"]) (simp add: demo_vote_key_def)
  then have "casts (info_voted demo_cext) demo_cstate [(AccBlock demo_info, 1)] ?t"
    using casts_snoc [OF casts_Nil] by fastforce
  moreover have "append_current_block_stored_info demo_cext ?t (demo_vote_key 2) (AccBlock demo_info) = Some demo_voted"
    by (simp add: append_current_block_stored_info_def demo_cext_def demo_info_def demo_vote_key_def
        fmentry_def demo_voted_def finsert_commute)
  then have "info_voted demo_cext ?t (AccBlock demo_info) 2 demo_voted"
    unfolding info_voted_def by (intro exI [of _ "demo_vote_key 2"]) (simp add: demo_vote_key_def)
  ultimately show ?thesis using casts_snoc by fastforce
qed

theorem block_info_quorum_witness:
  "has_block_stored_info_ready demo_voted \<and>
   (\<exists>info. take_ready_block_stored_info demo_voted
      = Some (demo_voted\<lparr>current_block_stored_info := fmempty\<rparr>, info) \<and>
      2 \<le> card {p. (info, p) \<in> set [(AccBlock demo_info, 1 :: u64), (AccBlock demo_info, 2)]})"
proof -
  have e: "current_block_stored_info demo_cstate = fmempty"
    by (simp add: demo_cstate_def with_peers_len_def ComputeConsensused_default_def)
  have n: "no_collision demo_cext [(AccBlock demo_info, 1), (AccBlock demo_info, 2)]"
    by (simp add: no_collision_def)
  have t: "block_info_threshold demo_cstate = 2" by code_simp
  then have "0 < block_info_threshold demo_cstate" by simp
  moreover have "has_block_stored_info_ready demo_voted" by code_simp
  ultimately show ?thesis using block_info_quorum [OF demo_votes e n] unfolding t by blast
qed

text \<open>C39: coordinated commands. Starting from no votes, a command is ready exactly when some command has
  as many distinct proposers as the group has peers; and the command that is then taken is the
  greatest one in the order of the enum that has any vote, not the one that is agreed: it is the
  agreed one whenever all votes are for the same command.\<close>

theorem coordinated_cmd_votes:
  assumes "casts cmd_voted s cs t" and "current_raft_coordinated_cmd_stored_info s = fmempty"
    and "0 < c_unanimous_majority s" and "cs \<noteq> []"
  shows "(has_coordinated_raft_cmd_info_ready t \<longleftrightarrow>
       (\<exists>c. c_unanimous_majority s \<le> card {p. (c, p) \<in> set cs})) \<and>
     take_ready_coordinated_raft_cmd t =
       (t\<lparr>current_raft_coordinated_cmd_stored_info := fmempty\<rparr>, Max (fst ` set cs)) \<and>
     (\<forall>c. fst ` set cs = {c} \<longrightarrow> snd (take_ready_coordinated_raft_cmd t) = c)"
  using cmd_ready_iff [OF assms(1-3)] taken_cmd_greatest [OF assms(1,2,4)] by simp

definition demo_pause_votes :: "(CoordinatedCommand \<times> u64) list" where
  "demo_pause_votes = [(ResumeNodes, 3), (PauseNodes 9, 1), (PauseNodes 9, 2), (PauseNodes 9, 3)]"

definition demo_paused :: ComputeConsensused where
  "demo_paused = fold (\<lambda>(c, p) s. append_current_coordinated_raft_cmd_stored_info s (demo_vote_key p) c)
     demo_pause_votes demo_cstate"

lemma cmd_voted_append:
  "cmd_voted s c p (append_current_coordinated_raft_cmd_stored_info s (demo_vote_key p) c)"
  unfolding cmd_voted_def by (intro exI [of _ "demo_vote_key p"]) (simp add: demo_vote_key_def)

lemma casts_fold_append:
  "casts cmd_voted s cs
     (fold (\<lambda>(c, p) s. append_current_coordinated_raft_cmd_stored_info s (demo_vote_key p) c) cs s)"
  by (induction cs rule: rev_induct) (auto intro: casts_Nil casts_snoc cmd_voted_append)

text \<open>Three peers of three vote for the pause, one of them has voted for the resumption before.\<close>

theorem coordinated_cmd_votes_witness:
  "has_coordinated_raft_cmd_info_ready demo_paused \<and>
   card {p. (PauseNodes 9, p) \<in> set demo_pause_votes} = 3 \<and>
   snd (take_ready_coordinated_raft_cmd demo_paused) = ResumeNodes"
proof -
  have "casts cmd_voted demo_cstate demo_pause_votes demo_paused"
    unfolding demo_paused_def by (rule casts_fold_append)
  moreover have "current_raft_coordinated_cmd_stored_info demo_cstate = fmempty"
    "c_unanimous_majority demo_cstate = 3"
    by (simp_all add: demo_cstate_def with_peers_len_def ComputeConsensused_default_def)
  moreover have "{p. (PauseNodes 9, p) \<in> set demo_pause_votes} = {1, 2, 3}"
    by (auto simp: demo_pause_votes_def)
  then have "card {p. (PauseNodes 9, p) \<in> set demo_pause_votes} = 3" by simp
  moreover have "Max (fst ` set demo_pause_votes) = ResumeNodes"
    by (auto simp: demo_pause_votes_def less_eq_CoordinatedCommand_def intro!: Max_eqI)
  moreover have "demo_pause_votes \<noteq> []" by (simp add: demo_pause_votes_def)
  moreover note coordinated_cmd_votes [of demo_cstate demo_pause_votes demo_paused]
  ultimately have "has_coordinated_raft_cmd_info_ready demo_paused \<longleftrightarrow>
      (\<exists>c. 3 \<le> card {p. (c, p) \<in> set demo_pause_votes})"
    and "snd (take_ready_coordinated_raft_cmd demo_paused) = ResumeNodes"
    and "card {p. (PauseNodes 9, p) \<in> set demo_pause_votes} = 3" by simp_all
  then show ?thesis by (metis order_refl)
qed

lemma take_ready_most_votes:
  "case take_ready_block_stored_info s of
     None \<Rightarrow> current_block_stored_info s = fmempty
   | Some (t, info) \<Rightarrow> t = s\<lparr>current_block_stored_info := fmempty\<rparr> \<and>
       (\<exists>key votes. fmlookup (current_block_stored_info s) key = Some (info, votes) \<and>
          (\<forall>key' info' votes'. fmlookup (current_block_stored_info s) key' = Some (info', votes') \<longrightarrow> fcard votes' \<le> fcard votes))"
proof (cases "max_by_key (\<lambda>(_, vote_ids). fcard vote_ids) (fmvalues (current_block_stored_info s))")
  case None
  then show ?thesis by (simp add: take_ready_block_stored_info_def)
next
  case (Some x)
  obtain info votes where x: "x = (info, votes)" by (cases x)
  have mem: "(info, votes) \<in> set (fmvalues (current_block_stored_info s))" using max_by_key_Some_mem [OF Some] x by simp
  have ge: "fcard v' \<le> fcard votes" if "fmlookup (current_block_stored_info s) k' = Some (i', v')" for k' i' v'
    using max_by_key_Some_ge [OF Some, of "(i', v')"] that x by (auto simp: set_fmvalues)
  show ?thesis using mem ge Some x by (auto simp: take_ready_block_stored_info_def set_fmvalues)
qed

text \<open>The reward is what is left of the supply, shared by the group.\<close>

lemma reward_share:
  assumes "\<And>a b. b \<noteq> 0 \<Longrightarrow> token_div N a b = Some (a div b)" and "0 < n" and "n < 2 ^ 64"
  shows "token_div N (calculate_reward N c) (word_of_nat n) = Some (calculate_reward N c div word_of_nat n)"
    and "c \<le> TOTAL_TOKENS N \<Longrightarrow> unat c + n * unat (calculate_reward N c div word_of_nat n) \<le> unat (TOTAL_TOKENS N)"
proof -
  have "(word_of_nat n :: u64) \<noteq> 0" using assms(2,3) by (auto simp: word_of_nat_eq_0_iff dest: dvd_imp_le)
  then show "token_div N (calculate_reward N c) (word_of_nat n) = Some (calculate_reward N c div word_of_nat n)" by (rule assms(1))
  show "unat c + n * unat (calculate_reward N c div word_of_nat n) \<le> unat (TOTAL_TOKENS N)" if "c \<le> TOTAL_TOKENS N"
    using calculate_reward_bound [OF that] share_bound [OF assms(3), of "calculate_reward N c"] by simp
qed

text \<open>The circulation, with the reward of every node of the group, is within the total supply.\<close>

definition within_supply :: "compute_ext \<Rightarrow> ComputeConsensused \<Rightarrow> bool" where
  "within_supply E s \<longleftrightarrow> (current_circulation s \<le> TOTAL_TOKENS (naom E) \<longrightarrow>
     unat (current_circulation s) + c_unanimous_majority s * unat (current_reward (block_pipeline s)) \<le> unat (TOTAL_TOKENS (naom E)))"


definition demo_genesis :: ComputeConsensused where
  "demo_genesis = demo_cstate\<lparr>current_block_stored_info := fmupd [0] (AccFirstBlock fmempty, {|1, 2|}) fmempty\<rparr>"


text \<open>An upgrade's import gives back what the export wrote, and an imported state has an exact UTXO
  index, no pending transactions and no pending votes.\<close>

lemma compute_import_roundtrip:
  "compute_into_import (compute_from_import v) (ci_special_handling v) = v \<and>
   pk_cache_exact (utxo_set (compute_from_import v)) \<and>
   tx_pool (compute_from_import v) = fmempty \<and> tx_druid_pool (compute_from_import v) = [] \<and>
   current_block_stored_info (compute_from_import v) = fmempty \<and>
   pipeline_inv (block_pipeline (compute_from_import v))"
proof (intro conjI)
  show "compute_into_import (compute_from_import v) (ci_special_handling v) = v"
    by (simp add: compute_into_import_def compute_from_import_def into_import_def from_import_def
        into_utxoset_def TrackedUtxoSet_new_def)
  show "pk_cache_exact (utxo_set (compute_from_import v))"
    by (simp add: compute_from_import_def new_exact)
  show "pipeline_inv (block_pipeline (compute_from_import v))"
    by (simp add: compute_from_import_def pipeline_inv_from_import)
qed (simp_all add: compute_from_import_def)

text \<open>Handling a runtime item keeps the mining API keys unique: no two addresses have the same key.\<close>

lemma runtime_api_keys_unique:
  assumes "api_keys_unique (mining_api_keys (runtime_data s))"
  shows "api_keys_unique (mining_api_keys (runtime_data (handle_runtime_item s item)))"
  using assms by (cases item) (auto intro: api_keys_unique_adds api_keys_unique_fmdrops)

lemma runtime_api_keys_unique_demo:
  "api_keys_unique (mining_api_keys (runtime_data
     (handle_runtime_item demo_cstate (AddMiningApiKeys [(demo_addr, ''k''), (V4 1 80, ''k'')]))))"
  by (rule runtime_api_keys_unique)
    (simp add: api_keys_unique_def demo_cstate_def with_peers_len_def ComputeConsensused_default_def)

end
