(* ===== verification/Compute_Raft.thy ===== *)
theory Compute_Raft
  imports Compute_Consensused Raft_Util Genesis
begin

text \<open>
  The consensus side of a compute node, \<open>ComputeRaft\<close> of \<^verbatim>\<open>src/compute_raft.rs\<close>: the
  committed items it processes, the proposals it makes, its local transaction pools and the
  accounting of the transactions it has proposed. The state is the record \<open>ComputeRaft\<close> around
  \<open>ComputeConsensused\<close>; time is an argument (\<open>now\<close>, in milliseconds), serialisation is a
  parameter (\<open>compute_raft_ext\<close>). The step relation \<open>compute_raft_step\<close> has a rule per
  operation; the transaction accounting is an invariant of it.
\<close>

section \<open>Model\<close>

subsection \<open>Data\<close>

datatype ComputeRaftItem =
    ItemFirstBlock TxMap
  | ItemBlock BlockStoredInfo
  | ItemTransactions TxMap
  | ItemDruidTransactions "TxMap list"
  | ItemPipelineItem MiningPipelineItem u64
  | ItemCoordinatedCmd CoordinatedCommand
  | ItemRuntimeData ComputeRuntimeItem

datatype CommittedItem =
    CommittedFirstBlock
  | CommittedBlock
  | CommittedBlockShutdown
  | CommittedStartPhasePowIntake
  | CommittedStartPhaseHalted
  | CommittedResetPipeline
  | CommittedTransactions
  | CommittedSnapshot
  | CommittedCoordinatedCmd CoordinatedCommand

fun CommittedItem_from :: "MiningPipelinePhaseChange \<Rightarrow> CommittedItem" where
  "CommittedItem_from StartPhasePowIntake = CommittedStartPhasePowIntake"
| "CommittedItem_from StartPhaseHalted = CommittedStartPhaseHalted"
| "CommittedItem_from Reset = CommittedResetPipeline"

datatype InitialProposal =
    PendingAll
  | PendingAuthorized
  | PendingItem ComputeRaftItem "u64 option"

record UtxoReAlignCheck =
  re_align_modulo_block_num :: "u64 option"

definition need_check :: "UtxoReAlignCheck \<Rightarrow> u64 \<Rightarrow> bool may_panic" where
  "need_check self cur =
     (case re_align_modulo_block_num self of
        None \<Rightarrow> Some False
      | Some m \<Rightarrow>
          if cur = 0 then Some False
          else if m = 0 then None else Some (cur mod m = 0))"

record ComputeRaft =
  first_raft_peer :: bool
  raft_active :: ActiveRaft
  consensused :: ComputeConsensused
  consensused_snapshot_applied :: bool
  local_initial_proposal :: "InitialProposal option"
  local_tx_pool :: TxMap
  local_tx_druid_pool :: "TxMap list"
  local_tx_hash_last_commited :: "string list"
  propose_transactions_timeout_duration :: nat
  propose_transactions_timeout_at :: nat
  propose_mining_event_timeout_duration :: nat
  propose_mining_event_timeout_at :: nat
  in_flight :: RaftInFlightProposals
  proposed_tx_pool_len :: nat
  proposed_tx_pool_len_max :: nat
  proposed_and_consensused_tx_pool_len_max :: nat
  shutdown_no_commit_process :: bool
  backup_check :: BackupCheck
  utxo_re_align_check :: UtxoReAlignCheck

record compute_raft_ext =
  cext :: compute_ext
  codec :: "ComputeRaftItem raft_codec"
  cons_serialize :: "ComputeConsensused \<Rightarrow> bytes option"
  cons_deserialize :: "bytes \<Rightarrow> ComputeConsensused option"

definition TX_POOL_LIMIT :: nat where
  "TX_POOL_LIMIT = 10000000"

subsection \<open>Construction\<close>

text \<open>The configuration entries the consensus side reads.\<close>

record ComputeNodeConfig =
  compute_node_idx :: nat
  compute_unicorn_fixed_param :: UnicornFixedInfo
  compute_nodes :: "SocketAddr list"
  compute_raft :: nat
  compute_mining_event_timeout :: nat
  compute_transaction_timeout :: nat
  compute_seed_utxo :: UtxoSetSpec
  compute_genesis_tx_in :: "string option"
  compute_partition_full_size :: nat
  backup_block_modulo :: "u64 option"
  utxo_re_align_block_modulo :: "u64 option"

definition ComputeRaft_new ::
    "compute_raft_ext \<Rightarrow> genesis_ext \<Rightarrow> nat \<Rightarrow> ComputeNodeConfig \<Rightarrow> ComputeRaft may_panic" where
  "ComputeRaft_new E G now config =
     do { let raft_used = (compute_raft config \<noteq> 0);
          r \<leftarrow> ActiveRaft_new (compute_node_idx config) (compute_nodes config) raft_used;
          utxos \<leftarrow> make_utxo_set_from_seed G (compute_seed_utxo config) (compute_genesis_tx_in config);
          let len = peers_len r;
          cons \<leftarrow> compute_init_block_pipeline_status (cext E)
            (compute_with_unicorn_fixed_param
              (with_partition_full_size (with_peers_len ComputeConsensused_default len)
                (compute_partition_full_size config))
              (compute_unicorn_fixed_param config));
          if len = 0 then None
          else Some
            \<lparr>first_raft_peer = (compute_node_idx config = 0 \<or> \<not> use_raft r),
             raft_active = r, consensused = cons, consensused_snapshot_applied = (\<not> raft_used),
             local_initial_proposal = Some (PendingItem (ItemFirstBlock utxos) None),
             local_tx_pool = fmempty, local_tx_druid_pool = [], local_tx_hash_last_commited = [],
             propose_transactions_timeout_duration = compute_transaction_timeout config,
             propose_transactions_timeout_at = now,
             propose_mining_event_timeout_duration = compute_mining_event_timeout config,
             propose_mining_event_timeout_at = now,
             in_flight = RaftInFlightProposals_default, proposed_tx_pool_len = 0,
             proposed_tx_pool_len_max = BLOCK_SIZE_IN_TX div len,
             proposed_and_consensused_tx_pool_len_max = BLOCK_SIZE_IN_TX * 2,
             shutdown_no_commit_process = False,
             backup_check = \<lparr>backup_modulo_block_num = backup_block_modulo config\<rparr>,
             utxo_re_align_check = \<lparr>re_align_modulo_block_num = utxo_re_align_block_modulo config\<rparr>\<rparr> }"

definition set_key_run :: "ComputeRaft \<Rightarrow> u64 \<Rightarrow> ComputeRaft" where
  "set_key_run self key_run = self\<lparr>in_flight := in_flight_set_key_run (in_flight self) key_run\<rparr>"

definition set_initial_proposal_done :: "ComputeRaft \<Rightarrow> ComputeRaft" where
  "set_initial_proposal_done self = self\<lparr>local_initial_proposal := None\<rparr>"

definition update_mining_event_timeout_duration :: "ComputeRaft \<Rightarrow> nat \<Rightarrow> ComputeRaft" where
  "update_mining_event_timeout_duration self ms = self\<lparr>propose_mining_event_timeout_duration := ms\<rparr>"

text \<open>The settings that all compute nodes share, and the whitelist they read.\<close>

definition raft_update_partition_full_size :: "ComputeRaft \<Rightarrow> nat \<Rightarrow> ComputeRaft" where
  "raft_update_partition_full_size self n = self\<lparr>consensused := update_partition_full_size (consensused self) n\<rparr>"

definition update_compute_miner_whitelist_active :: "ComputeRaft \<Rightarrow> bool \<Rightarrow> ComputeRaft" where
  "update_compute_miner_whitelist_active self active =
     self\<lparr>consensused := update_miner_whitelist_active (consensused self) active\<rparr>"

definition update_compute_miner_whitelist_api_keys :: "ComputeRaft \<Rightarrow> string fset option \<Rightarrow> ComputeRaft" where
  "update_compute_miner_whitelist_api_keys self api_keys =
     self\<lparr>consensused := update_miner_whitelist_api_keys (consensused self) api_keys\<rparr>"

definition update_compute_miner_whitelist_addresses :: "ComputeRaft \<Rightarrow> SocketAddr fset option \<Rightarrow> ComputeRaft" where
  "update_compute_miner_whitelist_addresses self addresses =
     self\<lparr>consensused := update_miner_whitelist_addresses (consensused self) addresses\<rparr>"

definition get_compute_whitelisting_active :: "ComputeRaft \<Rightarrow> bool" where
  "get_compute_whitelisting_active self = whitelist_active (miner_whitelist (consensused self))"

definition get_mining_api_key_entry :: "ComputeRaft \<Rightarrow> SocketAddr \<Rightarrow> string option" where
  "get_mining_api_key_entry self address = fmlookup (mining_api_keys (runtime_data (consensused self))) address"

definition raft_get_mining_participants :: "ComputeRaft \<Rightarrow> Participants" where
  "raft_get_mining_participants self =
     get_mining_participants (block_pipeline (consensused self)) (peer_id (raft_active self))"

definition need_initial_state :: "ComputeRaft \<Rightarrow> bool" where
  "need_initial_state self \<longleftrightarrow> \<not> consensused_snapshot_applied self"

definition received_message :: "ComputeRaft \<Rightarrow> bytes \<Rightarrow> ComputeRaft" where
  "received_message self msg = self\<lparr>raft_active := raft_received_message (raft_active self) msg\<rparr>"

definition set_next_propose_transactions_timeout_at :: "nat \<Rightarrow> ComputeRaft \<Rightarrow> ComputeRaft" where
  "set_next_propose_transactions_timeout_at now self =
     self\<lparr>propose_transactions_timeout_at := now + propose_transactions_timeout_duration self\<rparr>"

definition set_next_propose_mining_event_timeout_at :: "nat \<Rightarrow> ComputeRaft \<Rightarrow> ComputeRaft" where
  "set_next_propose_mining_event_timeout_at now self =
     self\<lparr>propose_mining_event_timeout_at := now + propose_mining_event_timeout_duration self\<rparr>"

subsection \<open>Checks\<close>

definition is_shutdown_on_commit :: "ComputeRaft \<Rightarrow> bool" where
  "is_shutdown_on_commit self \<longleftrightarrow> special_handling (consensused self) = Some Shutdown"

definition need_backup :: "ComputeRaft \<Rightarrow> bool may_panic" where
  "need_backup self =
     (case current_block_num (block_pipeline (consensused self)) of
        Some bn \<Rightarrow> need_backup_at (backup_check self) bn
      | None \<Rightarrow> Some False)"

definition need_utxo_re_alignment :: "ComputeRaft \<Rightarrow> u64 \<Rightarrow> bool may_panic" where
  "need_utxo_re_alignment self bn =
     do { due \<leftarrow> need_check (utxo_re_align_check self) bn;
          Some (due \<and> get_base_outpoint_count (utxo_set (consensused self))
            \<noteq> get_tracked_outpoint_count (utxo_set (consensused self))) }"

definition proposed_and_consensused_tx_pool_len :: "ComputeRaft \<Rightarrow> nat" where
  "proposed_and_consensused_tx_pool_len self =
     proposed_tx_pool_len self + fmlen (tx_pool (consensused self))"

definition combined_tx_pool_len :: "ComputeRaft \<Rightarrow> nat" where
  "combined_tx_pool_len self =
     fmlen (local_tx_pool self) + proposed_and_consensused_tx_pool_len self"

definition tx_pool_can_accept :: "ComputeRaft \<Rightarrow> nat \<Rightarrow> bool" where
  "tx_pool_can_accept self extra_len \<longleftrightarrow> combined_tx_pool_len self + extra_len \<le> TX_POOL_LIMIT"

definition get_current_block_num :: "ComputeRaft \<Rightarrow> u64" where
  "get_current_block_num self =
     (case current_block (block_pipeline (consensused self)) of
        Some block \<Rightarrow> b_num (header block)
      | None \<Rightarrow> 0)"

subsection \<open>After an event\<close>

definition event_processed_re_align_utxo_set :: "ComputeRaft \<Rightarrow> u64 \<Rightarrow> ComputeRaft may_panic" where
  "event_processed_re_align_utxo_set self bn =
     do { need \<leftarrow> need_utxo_re_alignment self bn;
          Some (if need then self\<lparr>consensused := re_align_utxo_set (consensused self)\<rparr> else self) }"

definition set_ignore_dedeup_b_num_less_than_current :: "ComputeRaft \<Rightarrow> ComputeRaft may_panic" where
  "set_ignore_dedeup_b_num_less_than_current self =
     do { bn \<leftarrow> current_block_num (block_pipeline (consensused self));
          Some (self\<lparr>in_flight := ignore_dedeup_b_num_less_than (in_flight self) bn\<rparr>) }"

definition event_processed_generate_snapshot :: "compute_raft_ext \<Rightarrow> ComputeRaft \<Rightarrow> ComputeRaft may_panic" where
  "event_processed_generate_snapshot E self =
     do { self \<leftarrow> set_ignore_dedeup_b_num_less_than_current self;
          consensused_ser \<leftarrow> cons_serialize E (consensused self);
          let (snapshot_idx, _) = last_committed_raft_idx_and_term (consensused self);
          backup \<leftarrow> need_backup self;
          let self = self\<lparr>raft_active := create_snapshot (raft_active self) snapshot_idx consensused_ser backup\<rparr>;
          Some (if is_shutdown_on_commit self then self\<lparr>shutdown_no_commit_process := True\<rparr> else self) }"

subsection \<open>Commits\<close>

definition apply_snapshot ::
    "compute_raft_ext \<Rightarrow> nat \<Rightarrow> ComputeRaft \<Rightarrow> RaftData \<Rightarrow> (ComputeRaft \<times> CommittedItem option) may_panic" where
  "apply_snapshot E now self consensused_ser =
     (let self = self\<lparr>consensused_snapshot_applied := True\<rparr> in
      if consensused_ser = []
      then Some (set_next_propose_mining_event_timeout_at now
                  (set_next_propose_transactions_timeout_at now self), None)
      else do {
        cons \<leftarrow> cons_deserialize E consensused_ser;
        self \<leftarrow> set_ignore_dedeup_b_num_less_than_current (self\<lparr>consensused := cons\<rparr>);
        let self = set_next_propose_mining_event_timeout_at now
          (set_next_propose_transactions_timeout_at now self);
        Some (self\<lparr>local_initial_proposal := map_option (\<lambda>_. PendingAll) (local_initial_proposal self)\<rparr>,
              Some CommittedSnapshot) })"

definition commit_first_block ::
    "compute_raft_ext \<Rightarrow> nat \<Rightarrow> ComputeRaft \<Rightarrow> RaftContextKey \<Rightarrow> TxMap \<Rightarrow>
     (ComputeRaft \<times> CommittedItem option) may_panic" where
  "commit_first_block E now self key utxos =
     (if \<not> is_first_block (consensused self) then Some (self, None)
      else do {
        cons \<leftarrow> append_first_block_info (cext E) (consensused self) key utxos;
        if has_block_stored_info_ready cons
        then do {
          cons \<leftarrow> apply_ready_block_stored_info (cext E) cons;
          cons \<leftarrow> generate_first_block (cext E) cons;
          cons \<leftarrow> compute_start_items_intake (cext E) cons;
          let self = set_next_propose_mining_event_timeout_at now (self\<lparr>consensused := cons\<rparr>);
          self \<leftarrow> event_processed_generate_snapshot E self;
          Some (self, Some CommittedFirstBlock) }
        else Some (self\<lparr>consensused := cons\<rparr>, None) })"

definition commit_block ::
    "compute_raft_ext \<Rightarrow> nat \<Rightarrow> ComputeRaft \<Rightarrow> RaftContextKey \<Rightarrow> BlockStoredInfo \<Rightarrow>
     (ComputeRaft \<times> CommittedItem option) may_panic" where
  "commit_block E now self key info =
     (let bn = block_num info in
      if \<not> is_current_block (consensused self) (block_num info) then Some (self, None)
      else do {
        cons \<leftarrow> append_block_stored_info (cext E) (consensused self) key info;
        if has_block_stored_info_ready cons
        then do {
          cons \<leftarrow> apply_ready_block_stored_info (cext E) cons;
          let self = self\<lparr>consensused := cons\<rparr>;
          if is_shutdown_on_commit self
          then do {
            self \<leftarrow> event_processed_re_align_utxo_set self bn;
            self \<leftarrow> event_processed_generate_snapshot E self;
            Some (self, Some CommittedBlockShutdown) }
          else do {
            cons \<leftarrow> generate_block (cext E) cons;
            cons \<leftarrow> compute_start_items_intake (cext E) cons;
            let self = set_next_propose_mining_event_timeout_at now (self\<lparr>consensused := cons\<rparr>);
            self \<leftarrow> event_processed_re_align_utxo_set self bn;
            self \<leftarrow> event_processed_generate_snapshot E self;
            Some (self, Some CommittedBlock) } }
        else Some (self\<lparr>consensused := cons\<rparr>, None) })"

definition commit_pipeline_item ::
    "compute_raft_ext \<Rightarrow> nat \<Rightarrow> ComputeRaft \<Rightarrow> RaftContextKey \<Rightarrow> MiningPipelineItem \<Rightarrow> u64 \<Rightarrow>
     (ComputeRaft \<times> CommittedItem option) may_panic" where
  "commit_pipeline_item E now self key item bn =
     (if \<not> is_current_block (consensused self) bn then Some (self, None)
      else do {
        (cons, change) \<leftarrow> compute_handle_mining_pipeline_item (cext E) (consensused self) item key;
        let self = self\<lparr>consensused := cons\<rparr>;
        case change of
          Some Reset \<Rightarrow>
            let keys = proposed_keys (block_pipeline (consensused self)) in
            Some (self\<lparr>in_flight := remove_all_keys (in_flight self) keys,
                       consensused := (consensused self)\<lparr>block_pipeline :=
                         clear_proposed_keys (block_pipeline (consensused self))\<rparr>\<rparr>,
                  Some (CommittedItem_from Reset))
        | Some v \<Rightarrow> Some (set_next_propose_mining_event_timeout_at now self, Some (CommittedItem_from v))
        | None \<Rightarrow> Some (self, None) })"

definition commit_coordinated_cmd ::
    "ComputeRaft \<Rightarrow> RaftContextKey \<Rightarrow> CoordinatedCommand \<Rightarrow> ComputeRaft \<times> CommittedItem option" where
  "commit_coordinated_cmd self key cmd =
     (let cons = append_current_coordinated_raft_cmd_stored_info (consensused self) key cmd in
      if has_coordinated_raft_cmd_info_ready cons
      then let (cons, c) = take_ready_coordinated_raft_cmd cons
           in (self\<lparr>consensused := cons\<rparr>, Some (CommittedCoordinatedCmd c))
      else (self\<lparr>consensused := cons\<rparr>, None))"

fun commit_item ::
    "compute_raft_ext \<Rightarrow> nat \<Rightarrow> ComputeRaft \<Rightarrow> RaftContextKey \<Rightarrow> ComputeRaftItem \<Rightarrow>
     (ComputeRaft \<times> CommittedItem option) may_panic" where
  "commit_item E now self key (ItemFirstBlock utxos) = commit_first_block E now self key utxos"
| "commit_item E now self key (ItemTransactions txs) =
     Some (self\<lparr>local_tx_hash_last_commited := fmkeys txs,
                consensused := (consensused self)\<lparr>tx_pool := tx_pool (consensused self) ++\<^sub>f txs\<rparr>\<rparr>,
           Some CommittedTransactions)"
| "commit_item E now self key (ItemDruidTransactions txs) =
     Some (self\<lparr>consensused := (consensused self)\<lparr>tx_druid_pool := tx_druid_pool (consensused self) @ txs\<rparr>\<rparr>,
           Some CommittedTransactions)"
| "commit_item E now self key (ItemBlock info) = commit_block E now self key info"
| "commit_item E now self key (ItemPipelineItem item bn) = commit_pipeline_item E now self key item bn"
| "commit_item E now self key (ItemCoordinatedCmd cmd) = Some (commit_coordinated_cmd self key cmd)"
| "commit_item E now self key (ItemRuntimeData item) =
     Some (self\<lparr>consensused := handle_runtime_item (consensused self) item\<rparr>, None)"

definition received_commit_proposal ::
    "compute_raft_ext \<Rightarrow> nat \<Rightarrow> ComputeRaft \<Rightarrow> RaftData \<Rightarrow> RaftData \<Rightarrow>
     (ComputeRaft \<times> CommittedItem option) may_panic" where
  "received_commit_proposal E now self raft_data raft_ctx =
     (case in_flight_received_commit_proposal (codec E) (in_flight self) raft_data raft_ctx of
        (flight, None) \<Rightarrow> Some (self\<lparr>in_flight := flight\<rparr>, None)
      | (flight, Some (key, item, removed)) \<Rightarrow>
          let self = self\<lparr>in_flight := flight\<rparr>;
              self = (if removed
                then case item of
                    ItemTransactions txs \<Rightarrow>
                      self\<lparr>proposed_tx_pool_len := usize_sub (proposed_tx_pool_len self) (fmlen txs)\<rparr>
                  | _ \<Rightarrow> self
                else self)
          in commit_item E now self key item)"

definition received_commit ::
    "compute_raft_ext \<Rightarrow> nat \<Rightarrow> ComputeRaft \<Rightarrow> RaftCommit \<Rightarrow>
     (ComputeRaft \<times> CommittedItem option) may_panic" where
  "received_commit E now self raft_commit =
     (let self = self\<lparr>consensused := (consensused self)\<lparr>last_committed_raft_idx_and_term :=
           (commit_index raft_commit, commit_term raft_commit)\<rparr>\<rparr> in
      case commit_data raft_commit of
        Proposed data ctx \<Rightarrow> received_commit_proposal E now self data ctx
      | CommitSnapshot data \<Rightarrow> apply_snapshot E now self data
      | NewLeader \<Rightarrow>
          Some (self\<lparr>raft_active := re_propose_all_items (in_flight self) (raft_active self)\<rparr>, None))"

subsection \<open>Proposals\<close>

definition propose_item_dedup ::
    "compute_raft_ext \<Rightarrow> ComputeRaft \<Rightarrow> ComputeRaftItem \<Rightarrow> u64 \<Rightarrow>
     (ComputeRaft \<times> RaftContextKey option) may_panic" where
  "propose_item_dedup E self item bn =
     do { (flight, r, key) \<leftarrow> in_flight_propose_item (codec E) (in_flight self) (raft_active self) item (Some bn);
          Some (self\<lparr>in_flight := flight, raft_active := r\<rparr>, key) }"

definition propose_item ::
    "compute_raft_ext \<Rightarrow> ComputeRaft \<Rightarrow> ComputeRaftItem \<Rightarrow> (ComputeRaft \<times> RaftContextKey) may_panic" where
  "propose_item E self item =
     do { (flight, r, key) \<leftarrow> in_flight_propose_item (codec E) (in_flight self) (raft_active self) item None;
          k \<leftarrow> key;
          Some (self\<lparr>in_flight := flight, raft_active := r\<rparr>, k) }"

definition propose_initial_item :: "compute_raft_ext \<Rightarrow> ComputeRaft \<Rightarrow> ComputeRaft may_panic" where
  "propose_initial_item E self =
     (case local_initial_proposal self of
        Some PendingAll \<Rightarrow> Some (self\<lparr>local_initial_proposal := Some PendingAuthorized\<rparr>)
      | Some (PendingItem item dedup_b_num) \<Rightarrow>
          let self = self\<lparr>local_initial_proposal := None\<rparr> in
          (case dedup_b_num of
             Some bn \<Rightarrow> do { (self, key) \<leftarrow> propose_item_dedup E self item bn; _ \<leftarrow> key; Some self }
           | None \<Rightarrow> map_option fst (propose_item E self item))
      | Some PendingAuthorized \<Rightarrow> None
      | None \<Rightarrow> None)"

definition propose_block_with_last_info ::
    "compute_raft_ext \<Rightarrow> ComputeRaft \<Rightarrow> BlockStoredInfo \<Rightarrow> (ComputeRaft \<times> bool) may_panic" where
  "propose_block_with_last_info E self block =
     (let bn = block_num block; item = ItemBlock block;
          pending = Some (PendingItem item (Some bn));
          propose = map_option (\<lambda>(self, key). (self, key \<noteq> None))
            (propose_item_dedup E (self\<lparr>local_initial_proposal := None\<rparr>) item bn)
      in case local_initial_proposal self of
           None \<Rightarrow> propose
         | Some PendingAuthorized \<Rightarrow> propose
         | old \<Rightarrow> Some (self\<lparr>local_initial_proposal := pending\<rparr>, old \<noteq> pending))"

definition propose_mining_pipeline_item ::
    "compute_raft_ext \<Rightarrow> ComputeRaft \<Rightarrow> MiningPipelineItem \<Rightarrow> (ComputeRaft \<times> bool) may_panic" where
  "propose_mining_pipeline_item E self item =
     (case current_block (block_pipeline (consensused self)) of
        Some block \<Rightarrow> do {
          let bn = b_num (header block);
          (self, key) \<leftarrow> propose_item_dedup E self (ItemPipelineItem item bn) bn;
          case key of
            Some k \<Rightarrow> Some (self\<lparr>consensused := (consensused self)\<lparr>block_pipeline :=
                add_proposed_key (block_pipeline (consensused self)) k\<rparr>\<rparr>, True)
          | None \<Rightarrow> Some (self, False) }
      | None \<Rightarrow> Some (self, False))"

definition propose_mining_event_at_timeout ::
    "compute_raft_ext \<Rightarrow> nat \<Rightarrow> ComputeRaft \<Rightarrow> (ComputeRaft \<times> bool) may_panic" where
  "propose_mining_event_at_timeout E now self =
     (let self = set_next_propose_mining_event_timeout_at now self in
      case mining_event_at_timeout (block_pipeline (consensused self)) of
        Some item \<Rightarrow> propose_mining_pipeline_item E self item
      | None \<Rightarrow> Some (self, False))"

definition propose_runtime_item ::
    "compute_raft_ext \<Rightarrow> ComputeRaft \<Rightarrow> ComputeRuntimeItem \<Rightarrow> ComputeRaft may_panic" where
  "propose_runtime_item E self item = map_option fst (propose_item E self (ItemRuntimeData item))"

definition propose_pause_nodes :: "compute_raft_ext \<Rightarrow> ComputeRaft \<Rightarrow> u64 \<Rightarrow> ComputeRaft may_panic" where
  "propose_pause_nodes E self bn = map_option fst (propose_item E self (ItemCoordinatedCmd (PauseNodes bn)))"

definition propose_resume_nodes :: "compute_raft_ext \<Rightarrow> ComputeRaft \<Rightarrow> ComputeRaft may_panic" where
  "propose_resume_nodes E self = map_option fst (propose_item E self (ItemCoordinatedCmd ResumeNodes))"

definition propose_apply_shared_config :: "compute_raft_ext \<Rightarrow> ComputeRaft \<Rightarrow> ComputeRaft may_panic" where
  "propose_apply_shared_config E self =
     map_option fst (propose_item E self (ItemCoordinatedCmd ApplySharedConfig))"

definition propose_local_transactions_at_timeout ::
    "compute_raft_ext \<Rightarrow> nat \<Rightarrow> ComputeRaft \<Rightarrow> ComputeRaft may_panic" where
  "propose_local_transactions_at_timeout E now self =
     (let self = set_next_propose_transactions_timeout_at now self;
          max_add = proposed_and_consensused_tx_pool_len_max self - proposed_and_consensused_tx_pool_len self;
          max_propose_len = min max_add (proposed_tx_pool_len_max self);
          (txs, rest) = take_first_n max_propose_len (local_tx_pool self);
          self = self\<lparr>local_tx_pool := rest\<rparr>
      in if txs \<noteq> fmempty
         then map_option fst (propose_item E
           (self\<lparr>proposed_tx_pool_len := proposed_tx_pool_len self + fmlen txs\<rparr>) (ItemTransactions txs))
         else Some self)"

definition propose_local_druid_transactions :: "compute_raft_ext \<Rightarrow> ComputeRaft \<Rightarrow> ComputeRaft may_panic" where
  "propose_local_druid_transactions E self =
     (let txs = local_tx_druid_pool self; self = self\<lparr>local_tx_druid_pool := []\<rparr>
      in if txs \<noteq> [] then map_option fst (propose_item E self (ItemDruidTransactions txs)) else Some self)"

definition re_propose_uncommitted_current_b_num :: "ComputeRaft \<Rightarrow> ComputeRaft" where
  "re_propose_uncommitted_current_b_num self =
     (case current_block_num (block_pipeline (consensused self)) of
        Some bn \<Rightarrow> self\<lparr>raft_active :=
          in_flight_re_propose_uncommitted_current_b_num (in_flight self) (raft_active self) bn\<rparr>
      | None \<Rightarrow> self)"

subsection \<open>Pools and pipeline\<close>

definition append_to_tx_pool :: "ComputeRaft \<Rightarrow> TxMap \<Rightarrow> ComputeRaft" where
  "append_to_tx_pool self txs = self\<lparr>local_tx_pool := local_tx_pool self ++\<^sub>f txs\<rparr>"

definition append_to_tx_druid_pool :: "ComputeRaft \<Rightarrow> TxMap \<Rightarrow> ComputeRaft" where
  "append_to_tx_druid_pool self txs = self\<lparr>local_tx_druid_pool := local_tx_druid_pool self @ [txs]\<rparr>"

definition take_local_tx_hash_last_commited :: "ComputeRaft \<Rightarrow> ComputeRaft \<times> string list" where
  "take_local_tx_hash_last_commited self =
     (self\<lparr>local_tx_hash_last_commited := []\<rparr>, local_tx_hash_last_commited self)"

definition raft_take_mining_block :: "ComputeRaft \<Rightarrow> ComputeRaft \<times> (Block \<times> TxMap) option" where
  "raft_take_mining_block self =
     (let (cons, b) = compute_take_mining_block (consensused self) in (self\<lparr>consensused := cons\<rparr>, b))"

definition clear_block_pipeline_proposed_keys :: "ComputeRaft \<Rightarrow> ComputeRaft" where
  "clear_block_pipeline_proposed_keys self =
     self\<lparr>consensused := (consensused self)\<lparr>block_pipeline :=
       clear_proposed_keys (block_pipeline (consensused self))\<rparr>\<rparr>"

definition flush_stale_miners :: "ComputeRaft \<Rightarrow> SocketAddr list \<Rightarrow> ComputeRaft" where
  "flush_stale_miners self unsent_miners =
     self\<lparr>consensused := (consensused self)\<lparr>block_pipeline :=
       cleanup_participants_mining
         (cleanup_participant_intake (block_pipeline (consensused self)) unsent_miners) unsent_miners\<rparr>\<rparr>"

definition test_skip_block_gen ::
    "compute_raft_ext \<Rightarrow> ComputeRaft \<Rightarrow> Block \<Rightarrow> TxMap \<Rightarrow> ComputeRaft may_panic" where
  "test_skip_block_gen E self block block_tx =
     do { cons \<leftarrow> compute_start_items_intake (cext E)
            (compute_set_committed_mining_block (cext E) (consensused self) block block_tx);
          Some (self\<lparr>consensused := cons\<rparr>) }"

definition test_skip_mining ::
    "compute_raft_ext \<Rightarrow> ComputeRaft \<Rightarrow> SocketAddr \<times> WinningPoWInfo \<Rightarrow> bytes \<Rightarrow> ComputeRaft may_panic" where
  "test_skip_mining E self pow sd =
     do { bp \<leftarrow> pipeline_test_skip_mining (pipe (cext E)) (block_pipeline (consensused self)) pow sd;
          Some (self\<lparr>consensused := (consensused self)\<lparr>block_pipeline := bp\<rparr>\<rparr>) }"

section \<open>Accounting of proposed transactions\<close>

text \<open>The number of transactions in an item, and in a pending proposal by what it decodes to.\<close>

definition item_tx_len :: "ComputeRaftItem \<Rightarrow> nat" where
  "item_tx_len item = (case item of ItemTransactions txs \<Rightarrow> fmlen txs | _ \<Rightarrow> 0)"

definition pending_tx_len :: "ComputeRaftItem raft_codec \<Rightarrow> RaftData \<times> RaftData \<Rightarrow> nat" where
  "pending_tx_len C v = (case item_deserialize C (fst v) of Some item \<Rightarrow> item_tx_len item | None \<Rightarrow> 0)"

text \<open>Decoding inverts encoding, as documented for the serialisation.\<close>

definition codec_inverts :: "ComputeRaftItem raft_codec \<Rightarrow> bool" where
  "codec_inverts C \<longleftrightarrow> (\<forall>item d. item_serialize C item = Some d \<longrightarrow> item_deserialize C d = Some item)"

lemma item_tx_len_simps [simp]:
  "item_tx_len (ItemTransactions txs) = fmlen txs" "item_tx_len (ItemFirstBlock u) = 0"
  "item_tx_len (ItemBlock b) = 0" "item_tx_len (ItemDruidTransactions ts) = 0"
  "item_tx_len (ItemPipelineItem i n) = 0" "item_tx_len (ItemCoordinatedCmd c) = 0"
  "item_tx_len (ItemRuntimeData d) = 0"
  by (simp_all add: item_tx_len_def)

subsection \<open>The invariant\<close>

text \<open>
  The counter is the number of transactions in the pending proposals; keys remembered for the mining
  pipeline are past keys and hold no transactions, and neither does the initial proposal.
\<close>

definition pipeline_keys_ok ::
    "ComputeRaftItem raft_codec \<Rightarrow> u64 \<Rightarrow> RaftInFlightProposals \<Rightarrow> RaftContextKey fset \<Rightarrow> bool" where
  "pipeline_keys_ok C pid flight keys \<longleftrightarrow>
     (\<forall>k \<in> fset keys. (\<forall>v. fmlookup (proposed_in_flight flight) k = Some v \<longrightarrow> pending_tx_len C v = 0) \<and>
        (key_proposer_id k = pid \<and> proposed_key_run flight = Some (proposer_run k) \<longrightarrow>
           proposal_id k \<le> proposed_last_id flight))"

definition tx_pool_inv :: "compute_raft_ext \<Rightarrow> ComputeRaft \<Rightarrow> bool" where
  "tx_pool_inv E s \<longleftrightarrow>
     in_flight_inv (peer_id (raft_active s)) (in_flight s) \<and>
     proposed_tx_pool_len s = fmweight (pending_tx_len (codec E)) (proposed_in_flight (in_flight s)) \<and>
     pipeline_keys_ok (codec E) (peer_id (raft_active s)) (in_flight s)
       (proposed_keys (block_pipeline (consensused s))) \<and>
     (\<forall>item b. local_initial_proposal s = Some (PendingItem item b) \<longrightarrow> item_tx_len item = 0)"

lemmas tx_pool_inv_defs = tx_pool_inv_def pipeline_keys_ok_def

subsection \<open>Proposals\<close>

text \<open>
  What a proposal adds: nothing when it is ignored, the transactions of the item otherwise. The
  invariant then holds of any state that has the new proposals, and a counter increased by as much.
\<close>

lemma propose_accounts:
  assumes "in_flight_inv (peer_id r) flight" and "proposed_last_id flight + 1 \<noteq> 0" and "codec_inverts C"
    and "in_flight_propose_item C flight r item dedup = Some (flight', r', ko)"
  shows "in_flight_inv (peer_id r') flight'" and "peer_id r' = peer_id r"
    and "fmweight (pending_tx_len C) (proposed_in_flight flight') =
      fmweight (pending_tx_len C) (proposed_in_flight flight) + (if ko = None then 0 else item_tx_len item)"
    and "pipeline_keys_ok C (peer_id r) flight keys \<Longrightarrow> pipeline_keys_ok C (peer_id r) flight' keys"
    and "ko = Some key \<Longrightarrow> item_tx_len item = 0 \<Longrightarrow> pipeline_keys_ok C (peer_id r) flight keys \<Longrightarrow>
      pipeline_keys_ok C (peer_id r) flight' (finsert key keys)"
proof -
  show inv': "in_flight_inv (peer_id r') flight'" by (rule in_flight_inv_propose(1) [OF assms(1,2,4)])
  have lt: "proposed_last_id flight < proposed_last_id flight + 1" using assms(2) by (rule word_less_succ)
  have "peer_id r' = peer_id r \<and>
      fmweight (pending_tx_len C) (proposed_in_flight flight') =
        fmweight (pending_tx_len C) (proposed_in_flight flight) + (if ko = None then 0 else item_tx_len item) \<and>
      (pipeline_keys_ok C (peer_id r) flight keys \<longrightarrow> pipeline_keys_ok C (peer_id r) flight' keys) \<and>
      (ko = Some key \<longrightarrow> item_tx_len item = 0 \<longrightarrow> pipeline_keys_ok C (peer_id r) flight keys \<longrightarrow>
        pipeline_keys_ok C (peer_id r) flight' (finsert key keys))"
    using assms(4)
  proof (cases rule: propose_item_cases)
    case (ignored data)
    then show ?thesis by simp
  next
    case (proposed data run ctx k)
    have dec: "pending_tx_len C (data, ctx) = item_tx_len item"
      using assms(3) proposed(1) by (simp add: pending_tx_len_def codec_inverts_def)
    have p: "proposes_in_flight C (flight, r) k (data, ctx) (flight', r')"
      using assms(2,4) proposed by (auto simp: proposes_in_flight_def)
    have w: "fmweight (pending_tx_len C) (proposed_in_flight flight') =
        fmweight (pending_tx_len C) (proposed_in_flight flight) + item_tx_len item"
      using inflight.weight_proposes [OF _ p, of "pending_tx_len C"] assms(1) dec by simp
    have keep: "pipeline_keys_ok C (peer_id r) flight' keys" if ok: "pipeline_keys_ok C (peer_id r) flight keys"
      unfolding pipeline_keys_ok_def
    proof (intro ballI conjI allI impI)
      fix k' v
      assume k': "k' \<in> fset keys" and v: "fmlookup (proposed_in_flight flight') k' = Some v"
      have "k' \<noteq> k"
        using ok k' lt proposed(3,4) by (fastforce simp: pipeline_keys_ok_def)
      then have "fmlookup (proposed_in_flight flight) k' = Some v" using v proposed(8) by simp
      then show "pending_tx_len C v = 0" using ok k' unfolding pipeline_keys_ok_def by blast
    next
      fix k'
      assume "k' \<in> fset keys"
        and "key_proposer_id k' = peer_id r \<and> proposed_key_run flight' = Some (proposer_run k')"
      then have "proposal_id k' \<le> proposed_last_id flight"
        using ok proposed(10) by (simp add: pipeline_keys_ok_def)
      then show "proposal_id k' \<le> proposed_last_id flight'" using lt proposed(9) by simp
    qed
    moreover have "pipeline_keys_ok C (peer_id r) flight' (finsert k keys)"
      if "pipeline_keys_ok C (peer_id r) flight keys" and "item_tx_len item = 0"
      using keep [OF that(1)] that(2) dec proposed by (simp add: pipeline_keys_ok_def)
    ultimately show ?thesis using proposed w by auto
  qed
  then show "peer_id r' = peer_id r"
    and "fmweight (pending_tx_len C) (proposed_in_flight flight') =
      fmweight (pending_tx_len C) (proposed_in_flight flight) + (if ko = None then 0 else item_tx_len item)"
    and "pipeline_keys_ok C (peer_id r) flight keys \<Longrightarrow> pipeline_keys_ok C (peer_id r) flight' keys"
    and "ko = Some key \<Longrightarrow> item_tx_len item = 0 \<Longrightarrow> pipeline_keys_ok C (peer_id r) flight keys \<Longrightarrow>
      pipeline_keys_ok C (peer_id r) flight' (finsert key keys)" by blast+
qed

lemma tx_pool_inv_propose_item:
  assumes "tx_pool_inv E s" and "proposed_last_id (in_flight s) + 1 \<noteq> 0" and "codec_inverts (codec E)"
    and "propose_item E (s\<lparr>proposed_tx_pool_len := proposed_tx_pool_len s + item_tx_len item\<rparr>) item = Some (t, key)"
  shows "tx_pool_inv E t"
proof -
  obtain flight r where p: "in_flight_propose_item (codec E) (in_flight s) (raft_active s) item None
      = Some (flight, r, Some key)"
    and t: "t = s\<lparr>proposed_tx_pool_len := proposed_tx_pool_len s + item_tx_len item, in_flight := flight,
      raft_active := r\<rparr>"
    using assms(4) by (auto simp: propose_item_def option_bind_Some_iff)
  have inv: "in_flight_inv (peer_id (raft_active s)) (in_flight s)" using assms(1) by (simp add: tx_pool_inv_def)
  show ?thesis
    using assms(1) t propose_accounts(1-4) [OF inv assms(2,3) p] by (simp add: tx_pool_inv_def)
qed

lemma tx_pool_inv_propose_other:
  assumes "tx_pool_inv E s" and "proposed_last_id (in_flight s) + 1 \<noteq> 0" and "codec_inverts (codec E)"
    and "item_tx_len item = 0"
  shows "propose_item E s item = Some (t, key) \<Longrightarrow> tx_pool_inv E t"
    and "propose_item_dedup E s item bn = Some (t, ko) \<Longrightarrow> tx_pool_inv E t"
    and "propose_item_dedup E s item bn = Some (t, Some key) \<Longrightarrow>
      tx_pool_inv E (t\<lparr>consensused := (consensused t)\<lparr>block_pipeline :=
        add_proposed_key (block_pipeline (consensused t)) key\<rparr>\<rparr>)"
proof -
  have inv: "in_flight_inv (peer_id (raft_active s)) (in_flight s)" using assms(1) by (simp add: tx_pool_inv_def)
  show "tx_pool_inv E t" if "propose_item E s item = Some (t, key)"
    using tx_pool_inv_propose_item [OF assms(1-3), of item] that assms(4) by simp
  have d: "tx_pool_inv E t" if p: "in_flight_propose_item (codec E) (in_flight s) (raft_active s) item (Some bn)
      = Some (flight, r, ko)" and t: "t = s\<lparr>in_flight := flight, raft_active := r\<rparr>" for flight r ko t
    using assms(1,4) t propose_accounts(1-4) [OF inv assms(2,3) p] by (simp add: tx_pool_inv_def)
  show "tx_pool_inv E t" if "propose_item_dedup E s item bn = Some (t, ko)"
    using that d by (auto simp: propose_item_dedup_def option_bind_Some_iff)
  assume "propose_item_dedup E s item bn = Some (t, Some key)"
  then obtain flight r where p: "in_flight_propose_item (codec E) (in_flight s) (raft_active s) item (Some bn)
      = Some (flight, r, Some key)" and t: "t = s\<lparr>in_flight := flight, raft_active := r\<rparr>"
    by (auto simp: propose_item_dedup_def option_bind_Some_iff)
  show "tx_pool_inv E (t\<lparr>consensused := (consensused t)\<lparr>block_pipeline :=
        add_proposed_key (block_pipeline (consensused t)) key\<rparr>\<rparr>)"
    using assms(1,4) t propose_accounts(1-3) [OF inv assms(2,3) p] propose_accounts(5) [OF inv assms(2,3) p refl assms(4)]
    by (simp add: tx_pool_inv_def add_proposed_key_def)
qed

text \<open>Updates the invariant does not read.\<close>

lemma tx_pool_inv_frame:
  assumes "tx_pool_inv E s" and "raft_active t = raft_active s" and "in_flight t = in_flight s"
    and "proposed_tx_pool_len t = proposed_tx_pool_len s"
    and "proposed_keys (block_pipeline (consensused t)) = proposed_keys (block_pipeline (consensused s))"
    and "local_initial_proposal t = local_initial_proposal s \<or>
      (\<forall>item b. local_initial_proposal t = Some (PendingItem item b) \<longrightarrow> item_tx_len item = 0)"
  shows "tx_pool_inv E t"
  using assms by (auto simp: tx_pool_inv_def)

lemma in_flight_inv_frame:
  "in_flight_inv pid (ignore_dedeup_b_num_less_than flight bn) = in_flight_inv pid flight"
  "pipeline_keys_ok C pid (ignore_dedeup_b_num_less_than flight bn) keys = pipeline_keys_ok C pid flight keys"
  "proposed_in_flight (ignore_dedeup_b_num_less_than flight bn) = proposed_in_flight flight"
  by (simp_all add: in_flight_inv_def pipeline_keys_ok_def ignore_dedeup_b_num_less_than_def)

lemma tx_pool_inv_proposals:
  assumes "tx_pool_inv E s" and "proposed_last_id (in_flight s) + 1 \<noteq> 0" and "codec_inverts (codec E)"
  shows "propose_initial_item E s = Some t \<Longrightarrow> tx_pool_inv E t"
    and "propose_block_with_last_info E s block = Some (t, b) \<Longrightarrow> tx_pool_inv E t"
    and "propose_mining_pipeline_item E s pitem = Some (t, b) \<Longrightarrow> tx_pool_inv E t"
    and "propose_local_druid_transactions E s = Some t \<Longrightarrow> tx_pool_inv E t"
    and "propose_local_transactions_at_timeout E now s = Some t \<Longrightarrow> tx_pool_inv E t"
proof -
  show "tx_pool_inv E t" if "propose_initial_item E s = Some t"
  proof -
    have "tx_pool_inv E t" if "local_initial_proposal s = Some (PendingItem item dedup)" for item dedup
    proof -
      have n: "item_tx_len item = 0" using assms(1) that by (simp add: tx_pool_inv_def)
      have i: "tx_pool_inv E (s\<lparr>local_initial_proposal := None\<rparr>)"
        using assms(1) by (simp add: tx_pool_inv_def)
      show ?thesis
        using \<open>propose_initial_item E s = Some t\<close> that assms(2,3)
          tx_pool_inv_propose_other(1,2) [OF i _ _ n]
        by (auto simp: propose_initial_item_def option_bind_Some_iff Let_def split: option.splits)
    qed
    then show ?thesis
      using that assms(1)
      by (auto simp: propose_initial_item_def tx_pool_inv_def split: option.splits InitialProposal.splits)
  qed
  show "tx_pool_inv E t" if "propose_block_with_last_info E s block = Some (t, b)"
  proof -
    have i: "tx_pool_inv E (s\<lparr>local_initial_proposal := x\<rparr>)"
      if "\<forall>item b. x = Some (PendingItem item b) \<longrightarrow> item_tx_len item = 0" for x
      using assms(1) that by (simp add: tx_pool_inv_def)
    have d: "tx_pool_inv E t" if "propose_item_dedup E (s\<lparr>local_initial_proposal := None\<rparr>)
        (ItemBlock block) (block_num block) = Some (t, k)" for t k
      using that assms(2,3) by (intro tx_pool_inv_propose_other(2) [OF i]) simp_all
    show ?thesis
      using that i d
      by (auto simp: propose_block_with_last_info_def Let_def split: option.splits InitialProposal.splits)
  qed
  show "tx_pool_inv E t" if m: "propose_mining_pipeline_item E s pitem = Some (t, b)"
  proof (cases "current_block (block_pipeline (consensused s))")
    case None
    then show ?thesis using m assms(1) by (simp add: propose_mining_pipeline_item_def)
  next
    case (Some block)
    let ?bn = "b_num (header block)"
    obtain s1 ko where p: "propose_item_dedup E s (ItemPipelineItem pitem ?bn) ?bn = Some (s1, ko)"
      using m Some
      by (cases "propose_item_dedup E s (ItemPipelineItem pitem ?bn) ?bn")
        (auto simp: propose_mining_pipeline_item_def Let_def)
    have n: "item_tx_len (ItemPipelineItem pitem ?bn) = 0" by simp
    show ?thesis
    proof (cases ko)
      case None
      then have "t = s1" using m Some p by (simp add: propose_mining_pipeline_item_def Let_def)
      then show ?thesis using tx_pool_inv_propose_other(2) [OF assms n p] by simp
    next
      case (Some key)
      then show ?thesis
        using m \<open>current_block _ = Some block\<close> p tx_pool_inv_propose_other(3) [OF assms n, of ?bn s1 key]
        by (auto simp: propose_mining_pipeline_item_def Let_def)
    qed
  qed
  show "tx_pool_inv E t" if "propose_local_druid_transactions E s = Some t"
  proof -
    have i: "tx_pool_inv E (s\<lparr>local_tx_druid_pool := []\<rparr>)" using assms(1) by (simp add: tx_pool_inv_def)
    have "tx_pool_inv E t" if "propose_item E (s\<lparr>local_tx_druid_pool := []\<rparr>) (ItemDruidTransactions txs)
        = Some (t, k)" for t k txs
      using that assms(2,3) by (intro tx_pool_inv_propose_other(1) [OF i]) simp_all
    then show ?thesis
      using that i by (auto simp: propose_local_druid_transactions_def Let_def split: if_splits)
  qed
  show "tx_pool_inv E t" if p: "propose_local_transactions_at_timeout E now s = Some t"
  proof -
    define s1 where "s1 = set_next_propose_transactions_timeout_at now s"
    define n where "n = min (proposed_and_consensused_tx_pool_len_max s1
      - proposed_and_consensused_tx_pool_len s1) (proposed_tx_pool_len_max s1)"
    obtain txs rest where txs: "take_first_n n (local_tx_pool s1) = (txs, rest)"
      by (cases "take_first_n n (local_tx_pool s1)")
    define s2 where "s2 = s1\<lparr>local_tx_pool := rest\<rparr>"
    have i: "tx_pool_inv E s2" and l: "proposed_last_id (in_flight s2) + 1 \<noteq> 0"
      using assms(1,2)
      by (simp_all add: s1_def s2_def set_next_propose_transactions_timeout_at_def tx_pool_inv_def)
    have "t = s2 \<or> (\<exists>k. propose_item E (s2\<lparr>proposed_tx_pool_len := proposed_tx_pool_len s2 +
        item_tx_len (ItemTransactions txs)\<rparr>) (ItemTransactions txs) = Some (t, k))"
      using p txs
      by (auto simp: propose_local_transactions_at_timeout_def Let_def s1_def [symmetric] n_def [symmetric]
          s2_def [symmetric] simp del: s2_def split: if_splits)
    then show ?thesis using i tx_pool_inv_propose_item [OF i l assms(3)] by blast
  qed
qed

subsection \<open>Commits\<close>

text \<open>The pipeline operations of a commit leave the remembered proposal keys alone.\<close>

lemma unicorn_select_keys:
  "unicorn_select_participants_mining P bp sz = Some bp' \<Longrightarrow> proposed_keys bp' = proposed_keys bp"
  "unicorn_select_participants_mining P bp sz = Some bp' \<Longrightarrow> current_block_num bp' = current_block_num bp"
  by (auto simp: unicorn_select_participants_mining_def option_bind_Some_iff)

lemma start_items_intake_keys:
  assumes "start_items_intake P bp extra = Some bp'"
  shows "proposed_keys bp' = proposed_keys bp" and "current_block_num bp' = current_block_num bp"
proof -
  have "proposed_keys bp' = proposed_keys bp \<and> current_block_num bp' = current_block_num bp"
    using assms by (cases rule: start_items_intake_cases) (auto dest: unicorn_select_keys)
  then show "proposed_keys bp' = proposed_keys bp" and "current_block_num bp' = current_block_num bp" by simp_all
qed

lemma item_applied_keys:
  "proposed_keys (item_applied bp item extra) = proposed_keys bp"
  "current_block_num (item_applied bp item extra) = current_block_num bp"
  unfolding item_applied_def
  by (cases "(bp, proposer_id extra, item, mining_pipeline_status bp)" rule: apply_pipeline_item.cases;
      simp add: add_to_participants_def append_current_phase_timeout_def
        add_to_winning_pow_def append_reset_pipeline_timeout_def)+

lemma start_winning_pow_halted_keys:
  "start_winning_pow_halted P bp = Some bp' \<Longrightarrow>
   proposed_keys bp' = proposed_keys bp \<and> current_block_num bp' = current_block_num bp"
  by (auto simp: start_winning_pow_halted_def option_bind_Some_iff Let_def)

lemma handle_item_keys:
  assumes "handle_mining_pipeline_item P bp item extra = Some (bp', c)"
  shows "proposed_keys bp' = proposed_keys bp" and "current_block_num bp' = current_block_num bp"
proof -
  have "proposed_keys bp' = proposed_keys bp \<and> current_block_num bp' = current_block_num bp"
    using assms
    by (cases rule: handle_cases)
      (auto simp: item_applied_keys pipeline_cleared_def
        dest: start_items_intake_keys start_winning_pow_halted_keys)
  then show "proposed_keys bp' = proposed_keys bp" and "current_block_num bp' = current_block_num bp" by simp_all
qed

lemma construct_unicorn_keys:
  "pipeline_construct_unicorn P bp = Some bp' \<Longrightarrow> proposed_keys bp' = proposed_keys bp"
  "pipeline_construct_unicorn P bp = Some bp' \<Longrightarrow> current_block_num bp' = current_block_num bp"
  by (auto simp: pipeline_construct_unicorn_def option_bind_Some_iff Let_def)

lemma compute_start_items_intake_keys:
  assumes "compute_start_items_intake E s = Some t"
  shows "proposed_keys (block_pipeline t) = proposed_keys (block_pipeline s)"
    and "current_block_num (block_pipeline t) = current_block_num (block_pipeline s)"
    and "current_block_stored_info t = current_block_stored_info s"
proof -
  obtain bp1 bp2 where 1: "pipeline_construct_unicorn (pipe E) (block_pipeline s) = Some bp1"
    and 2: "start_items_intake (pipe E) bp1 (event_info s 0) = Some bp2" and t: "t = s\<lparr>block_pipeline := bp2\<rparr>"
    using assms by (auto simp: compute_start_items_intake_def option_bind_Some_iff)
  show "proposed_keys (block_pipeline t) = proposed_keys (block_pipeline s)"
    and "current_block_num (block_pipeline t) = current_block_num (block_pipeline s)"
    and "current_block_stored_info t = current_block_stored_info s"
    using construct_unicorn_keys [OF 1] start_items_intake_keys [OF 2] t by simp_all
qed

lemma apply_ready_keys:
  assumes "apply_ready_block_stored_info E s = Some t"
  shows "proposed_keys (block_pipeline t) = proposed_keys (block_pipeline s)"
proof -
  obtain s1 taken where 1: "take_ready_block_stored_info s = Some (s1, taken)"
    and s1: "block_pipeline s1 = block_pipeline s"
    using assms
    by (auto simp: apply_ready_block_stored_info_def take_ready_block_stored_info_def option_bind_Some_iff)
  show ?thesis
  proof (cases taken)
    case (AccFirstBlock txs)
    then show ?thesis
      using assms 1 s1
      by (auto simp: apply_ready_block_stored_info_def option_bind_Some_iff
          pipeline_apply_ready_block_stored_info_def)
  next
    case (AccBlock info)
    then show ?thesis
      using assms 1 s1
      by (auto simp: apply_ready_block_stored_info_def option_bind_Some_iff
          pipeline_apply_ready_block_stored_info_def split: if_splits)
  qed
qed

lemma append_info_keys:
  "append_current_block_stored_info E s key info = Some t \<Longrightarrow> block_pipeline t = block_pipeline s"
  by (auto simp: append_current_block_stored_info_def option_bind_Some_iff)

lemma set_committed_keys:
  "proposed_keys (block_pipeline (compute_set_committed_mining_block E s b txs))
   = proposed_keys (block_pipeline s)"
  "current_block_num (block_pipeline (compute_set_committed_mining_block E s b txs))
   = current_block_num (block_pipeline s)"
  "current_block_stored_info (compute_set_committed_mining_block E s b txs) = current_block_stored_info s"
  by (simp_all add: compute_set_committed_mining_block_def pipeline_set_committed_mining_block_def)

lemma generate_first_block_keys:
  "generate_first_block E s = Some t \<Longrightarrow> proposed_keys (block_pipeline t) = proposed_keys (block_pipeline s)"
  "generate_first_block E s = Some t \<Longrightarrow> current_block_num (block_pipeline t) = current_block_num (block_pipeline s)"
  "generate_first_block E s = Some t \<Longrightarrow> current_block_stored_info t = current_block_stored_info s"
  by (auto simp: generate_first_block_def option_bind_Some_iff Let_def set_committed_keys)

lemma given_valid_txs_pipeline:
  "block_pipeline (fst (update_current_block_tx_with_given_valid_txs E txs acc)) = block_pipeline (fst acc)"
  "current_block_stored_info (fst (update_current_block_tx_with_given_valid_txs E txs acc))
   = current_block_stored_info (fst acc)"
  by (simp_all add: update_current_block_tx_with_given_valid_txs_def case_prod_unfold)

lemma committed_dde_pipeline:
  "block_pipeline (fst (committed_dde_loop E pool acc)) = block_pipeline (fst acc) \<and>
   current_block_stored_info (fst (committed_dde_loop E pool acc)) = current_block_stored_info (fst acc)"
  by (induction pool arbitrary: acc) (auto simp: given_valid_txs_pipeline)

lemma generate_block_keys:
  assumes "generate_block E s = Some t"
  shows "proposed_keys (block_pipeline t) = proposed_keys (block_pipeline s)"
    and "current_block_num (block_pipeline t) = current_block_num (block_pipeline s)"
    and "current_block_stored_info t = current_block_stored_info s"
proof -
  obtain self block txs where u: "update_current_block_tx E
      (update_committed_dde_tx E (s, Block_new (naom E), fmempty)) = (self, block, txs)"
    by (cases "update_current_block_tx E (update_committed_dde_tx E (s, Block_new (naom E), fmempty))")
  have "block_pipeline self = block_pipeline s \<and> current_block_stored_info self = current_block_stored_info s"
    using arg_cong [OF u, of "\<lambda>a. (block_pipeline (fst a), current_block_stored_info (fst a))"]
      committed_dde_pipeline [of E "tx_druid_pool s" "(s\<lparr>tx_druid_pool := []\<rparr>, Block_new (naom E), fmempty)"]
    by (simp add: update_current_block_tx_def case_prod_unfold Let_def given_valid_txs_pipeline
        update_committed_dde_tx_def)
  then show "proposed_keys (block_pipeline t) = proposed_keys (block_pipeline s)"
    and "current_block_num (block_pipeline t) = current_block_num (block_pipeline s)"
    and "current_block_stored_info t = current_block_stored_info s"
    using assms u
    by (auto simp: generate_block_def update_block_header_def option_bind_Some_iff Let_def set_committed_keys)
qed

text \<open>What the accounting reads of a state.\<close>

definition acct :: "ComputeRaft \<Rightarrow> u64 \<times> (RaftContextKey, RaftData \<times> RaftData) fmap \<times> u64 \<times> u64 option \<times>
    nat \<times> RaftContextKey fset \<times> InitialProposal option" where
  "acct s = (peer_id (raft_active s), proposed_in_flight (in_flight s), proposed_last_id (in_flight s),
     proposed_key_run (in_flight s), proposed_tx_pool_len s,
     proposed_keys (block_pipeline (consensused s)), local_initial_proposal s)"

lemma tx_pool_inv_acct: "acct t = acct s \<Longrightarrow> tx_pool_inv E t = tx_pool_inv E s"
  by (simp add: acct_def tx_pool_inv_def in_flight_inv_def pipeline_keys_ok_def)

lemma acct_timeouts [simp]:
  "acct (set_next_propose_mining_event_timeout_at now s) = acct s"
  "acct (set_next_propose_transactions_timeout_at now s) = acct s"
  by (simp_all add: acct_def set_next_propose_mining_event_timeout_at_def
      set_next_propose_transactions_timeout_at_def)

lemma acct_consensused:
  "proposed_keys (block_pipeline c) = proposed_keys (block_pipeline (consensused s)) \<Longrightarrow>
   acct (s\<lparr>consensused := c\<rparr>) = acct s"
  by (simp add: acct_def)

lemma acct_ignore: "set_ignore_dedeup_b_num_less_than_current s = Some t \<Longrightarrow> acct t = acct s"
  by (auto simp: set_ignore_dedeup_b_num_less_than_current_def option_bind_Some_iff acct_def
      ignore_dedeup_b_num_less_than_def)

lemma peer_id_create_snapshot [simp]: "peer_id (create_snapshot r idx ser b) = peer_id r"
  by (simp add: create_snapshot_def)

lemma acct_snapshot:
  assumes "event_processed_generate_snapshot E s = Some t"
  shows "acct t = acct s"
proof -
  obtain s1 where 1: "set_ignore_dedeup_b_num_less_than_current s = Some s1"
    using assms by (auto simp: event_processed_generate_snapshot_def option_bind_Some_iff)
  obtain ser where 2: "cons_serialize E (consensused s1) = Some ser"
    using assms 1 by (auto simp: event_processed_generate_snapshot_def option_bind_Some_iff)
  have "acct (s1\<lparr>raft_active := create_snapshot (raft_active s1) idx ser b\<rparr>) = acct s1"
    "acct (s1\<lparr>raft_active := create_snapshot (raft_active s1) idx ser b, shutdown_no_commit_process := True\<rparr>)
      = acct s1" for idx b
    by (simp_all add: acct_def)
  then have "acct t = acct s1"
    using assms 1 2
    by (cases "need_backup s1")
      (auto simp: event_processed_generate_snapshot_def Let_def case_prod_unfold split: if_splits)
  then show ?thesis using acct_ignore [OF 1] by simp
qed

lemma acct_re_align: "event_processed_re_align_utxo_set s bn = Some t \<Longrightarrow> acct t = acct s"
  by (auto simp: event_processed_re_align_utxo_set_def option_bind_Some_iff re_align_utxo_set_def acct_consensused)

lemma acct_first_block:
  assumes "commit_first_block E now s key utxos = Some (t, c)"
  shows "acct t = acct s"
proof (cases "is_first_block (consensused s)")
  case True
  obtain c1 where 1: "append_first_block_info (cext E) (consensused s) key utxos = Some c1"
    using assms True by (auto simp: commit_first_block_def option_bind_Some_iff)
  have k1: "proposed_keys (block_pipeline c1) = proposed_keys (block_pipeline (consensused s))"
    using append_info_keys [OF 1 [unfolded append_first_block_info_def]] by simp
  show ?thesis
  proof (cases "has_block_stored_info_ready c1")
    case ready: True
    then obtain c2 c3 c4 where 2: "apply_ready_block_stored_info (cext E) c1 = Some c2"
      and 3: "generate_first_block (cext E) c2 = Some c3"
      and 4: "compute_start_items_intake (cext E) c3 = Some c4"
      and t: "event_processed_generate_snapshot E
        (set_next_propose_mining_event_timeout_at now (s\<lparr>consensused := c4\<rparr>)) = Some t"
      using assms True 1 by (auto simp: commit_first_block_def option_bind_Some_iff Let_def)
    show ?thesis
      using acct_snapshot [OF t] k1 apply_ready_keys [OF 2] generate_first_block_keys [OF 3]
        compute_start_items_intake_keys [OF 4] by (simp add: acct_consensused)
  next
    case False
    then show ?thesis using assms True 1 k1 by (auto simp: commit_first_block_def acct_consensused)
  qed
next
  case False
  then show ?thesis using assms by (simp add: commit_first_block_def)
qed

lemma acct_commit_block:
  assumes "commit_block E now s key info = Some (t, c)"
  shows "acct t = acct s"
proof (cases "is_current_block (consensused s) (block_num info)")
  case True
  obtain c1 where 1: "append_block_stored_info (cext E) (consensused s) key info = Some c1"
    using assms True by (auto simp: commit_block_def option_bind_Some_iff Let_def)
  have k1: "proposed_keys (block_pipeline c1) = proposed_keys (block_pipeline (consensused s))"
    using append_info_keys [OF 1 [unfolded append_block_stored_info_def]] by simp
  show ?thesis
  proof (cases "has_block_stored_info_ready c1")
    case ready: True
    obtain c2 where 2: "apply_ready_block_stored_info (cext E) c1 = Some c2"
      using assms True 1 ready by (auto simp: commit_block_def option_bind_Some_iff Let_def)
    note k2 = apply_ready_keys [OF 2]
    show ?thesis
    proof (cases "is_shutdown_on_commit (s\<lparr>consensused := c2\<rparr>)")
      case shut: True
      then obtain s1 where 3: "event_processed_re_align_utxo_set (s\<lparr>consensused := c2\<rparr>) (block_num info) = Some s1"
        and 4: "event_processed_generate_snapshot E s1 = Some t"
        using assms True 1 ready 2 by (auto simp: commit_block_def option_bind_Some_iff Let_def)
      show ?thesis using acct_re_align [OF 3] acct_snapshot [OF 4] k1 k2 by (simp add: acct_consensused)
    next
      case False
      then obtain c3 c4 s1 where 3: "generate_block (cext E) c2 = Some c3"
        and 4: "compute_start_items_intake (cext E) c3 = Some c4"
        and 5: "event_processed_re_align_utxo_set (set_next_propose_mining_event_timeout_at now
          (s\<lparr>consensused := c4\<rparr>)) (block_num info) = Some s1"
        and 6: "event_processed_generate_snapshot E s1 = Some t"
        using assms True 1 ready 2 by (auto simp: commit_block_def option_bind_Some_iff Let_def)
      show ?thesis
        using acct_re_align [OF 5] acct_snapshot [OF 6] k1 k2 generate_block_keys [OF 3]
          compute_start_items_intake_keys [OF 4] by (simp add: acct_consensused)
    qed
  next
    case False
    then show ?thesis using assms True 1 k1 by (auto simp: commit_block_def acct_consensused Let_def)
  qed
next
  case False
  then show ?thesis using assms by (simp add: commit_block_def)
qed

text \<open>A reset of the pipeline withdraws the pending pipeline proposals, which hold no transactions.\<close>

lemma remove_all_keys_eq:
  "fmlookup (proposed_in_flight (remove_all_keys flight keys)) k =
     (if k |\<in>| keys then None else fmlookup (proposed_in_flight flight) k)"
  "proposed_last_id (remove_all_keys flight keys) = proposed_last_id flight"
  "proposed_key_run (remove_all_keys flight keys) = proposed_key_run flight"
proof -
  have "fmlookup (proposed_in_flight (fold remove_key ks flight)) k =
      (if k \<in> set ks then None else fmlookup (proposed_in_flight flight) k) \<and>
    proposed_last_id (fold remove_key ks flight) = proposed_last_id flight \<and>
    proposed_key_run (fold remove_key ks flight) = proposed_key_run flight" for ks
    by (induction ks arbitrary: flight) (auto simp: remove_key_def)
  from this [of "sorted_list_of_fset keys"]
  show "fmlookup (proposed_in_flight (remove_all_keys flight keys)) k =
     (if k |\<in>| keys then None else fmlookup (proposed_in_flight flight) k)"
    "proposed_last_id (remove_all_keys flight keys) = proposed_last_id flight"
    "proposed_key_run (remove_all_keys flight keys) = proposed_key_run flight"
    by (simp_all add: remove_all_keys_def)
qed

lemma fmweight_fmfilter_zero:
  assumes "\<And>k v. fmlookup m k = Some v \<Longrightarrow> \<not> P k \<Longrightarrow> w v = 0"
  shows "fmweight w (fmfilter P m) = fmweight w m"
proof -
  have "fmweight w m = (\<Sum>k \<in> fset (fmdom (fmfilter P m)). w (the (fmlookup m k)))"
    unfolding fmweight_def
    by (rule sum.mono_neutral_right) (use assms in \<open>auto simp: fmlookup_dom_iff\<close>, metis neq0_conv)
  also have "\<dots> = fmweight w (fmfilter P m)"
    unfolding fmweight_def by (intro sum.cong) auto
  finally show ?thesis by simp
qed

lemma tx_pool_inv_reset:
  assumes "tx_pool_inv E s" and "keys = proposed_keys (block_pipeline (consensused s))"
    and "proposed_keys (block_pipeline c) = {||}"
  shows "tx_pool_inv E (s\<lparr>in_flight := remove_all_keys (in_flight s) keys, consensused := c\<rparr>)"
proof -
  have eq: "proposed_in_flight (remove_all_keys (in_flight s) keys)
      = fmfilter (\<lambda>k. k |\<notin>| keys) (proposed_in_flight (in_flight s))"
    by (rule fmap_ext) (simp add: remove_all_keys_eq)
  have "fmweight (pending_tx_len (codec E)) (proposed_in_flight (remove_all_keys (in_flight s) keys))
      = fmweight (pending_tx_len (codec E)) (proposed_in_flight (in_flight s))"
    unfolding eq using assms(1,2)
    by (intro fmweight_fmfilter_zero) (force simp: tx_pool_inv_def pipeline_keys_ok_def)
  then show ?thesis
    using assms(1,3)
    by (auto simp: tx_pool_inv_def in_flight_inv_def pipeline_keys_ok_def remove_all_keys_eq fmpred_iff
        split: if_splits)
qed

lemma tx_pool_inv_commit_pipeline:
  assumes "tx_pool_inv E s" and "commit_pipeline_item E now s key item bn = Some (t, c)"
  shows "tx_pool_inv E t"
proof (cases "is_current_block (consensused s) bn")
  case True
  obtain cons change where h: "compute_handle_mining_pipeline_item (cext E) (consensused s) item key = Some (cons, change)"
    using assms(2) True by (auto simp: commit_pipeline_item_def option_bind_Some_iff)
  have k: "proposed_keys (block_pipeline cons) = proposed_keys (block_pipeline (consensused s))"
    using h handle_item_keys(1) by (auto simp: compute_handle_mining_pipeline_item_def option_bind_Some_iff)
  have i: "tx_pool_inv E (s\<lparr>consensused := cons\<rparr>)"
    using assms(1) tx_pool_inv_acct [OF acct_consensused [OF k]] by simp
  show ?thesis
  proof (cases "change = Some Reset")
    case True
    then have "t = (s\<lparr>consensused := cons\<rparr>)\<lparr>in_flight := remove_all_keys (in_flight s) (proposed_keys (block_pipeline cons)),
        consensused := cons\<lparr>block_pipeline := clear_proposed_keys (block_pipeline cons)\<rparr>\<rparr>"
      using assms(2) \<open>is_current_block (consensused s) bn\<close> h by (auto simp: commit_pipeline_item_def Let_def)
    then show ?thesis
      using tx_pool_inv_reset [OF i, of "proposed_keys (block_pipeline cons)"
          "cons\<lparr>block_pipeline := clear_proposed_keys (block_pipeline cons)\<rparr>"]
      by (simp add: clear_proposed_keys_def)
  next
    case False
    then have "acct t = acct (s\<lparr>consensused := cons\<rparr>)"
      using assms(2) True h
      by (auto simp: commit_pipeline_item_def Let_def split: option.splits MiningPipelinePhaseChange.splits)
    then show ?thesis using i tx_pool_inv_acct by blast
  qed
next
  case False
  then show ?thesis using assms by (simp add: commit_pipeline_item_def)
qed

lemma tx_pool_inv_commit_item:
  assumes "tx_pool_inv E s" and "commit_item E now s key item = Some (t, c)"
  shows "tx_pool_inv E t"
proof (cases item)
  case (ItemFirstBlock u)
  then show ?thesis using assms tx_pool_inv_acct [OF acct_first_block] by auto
next
  case (ItemBlock b)
  then show ?thesis using assms tx_pool_inv_acct [OF acct_commit_block] by auto
next
  case (ItemPipelineItem i n)
  then show ?thesis using assms tx_pool_inv_commit_pipeline by auto
next
  case (ItemRuntimeData d)
  then show ?thesis using assms by (cases d) (auto simp: tx_pool_inv_def)
next
  case (ItemCoordinatedCmd cmd)
  then have "acct t = acct s"
    using assms(2)
    by (auto simp: commit_coordinated_cmd_def append_current_coordinated_raft_cmd_stored_info_def
        take_ready_coordinated_raft_cmd_def Let_def acct_def split: if_splits)
  then show ?thesis using assms(1) tx_pool_inv_acct by blast
qed (use assms in \<open>auto simp: tx_pool_inv_def\<close>)

text \<open>The log gives back what was proposed: a commit under a pending key carries the pending data.\<close>

definition log_faithful :: "compute_raft_ext \<Rightarrow> ComputeRaft \<Rightarrow> RaftData \<Rightarrow> RaftData \<Rightarrow> bool" where
  "log_faithful E s data ctx \<longleftrightarrow>
     (\<forall>k v. key_deserialize (codec E) ctx = Some k \<longrightarrow>
        fmlookup (proposed_in_flight (in_flight s)) k = Some v \<longrightarrow> fst v = data)"

lemma pipeline_keys_ok_drop:
  "pipeline_keys_ok C pid flight keys \<Longrightarrow>
   proposed_in_flight flight' = fmdrop k (proposed_in_flight flight) \<Longrightarrow>
   proposed_last_id flight' = proposed_last_id flight \<Longrightarrow> proposed_key_run flight' = proposed_key_run flight \<Longrightarrow>
   pipeline_keys_ok C pid flight' keys"
  unfolding pipeline_keys_ok_def by auto

lemma commit_proposal_accounts:
  assumes inv: "tx_pool_inv E s" and faithful: "log_faithful E s data ctx"
    and c: "in_flight_received_commit_proposal (codec E) (in_flight s) data ctx = (flight, Some (key, item, own))"
  shows "own \<Longrightarrow> item_tx_len item \<le> proposed_tx_pool_len s"
    and "tx_pool_inv E (s\<lparr>in_flight := flight,
      proposed_tx_pool_len := proposed_tx_pool_len s - (if own then item_tx_len item else 0)\<rparr>)"
proof -
  let ?w = "pending_tx_len (codec E)"
  note facts = commit_in_flight [OF c]
  have q: "commits_in_flight (codec E) (in_flight s, raft_active s) key own (flight, raft_active s)"
    using c by (auto simp: commits_in_flight_def)
  have flight_inv: "in_flight_inv (peer_id (raft_active s)) flight"
    using inv in_flight_inv_commit [OF _ c] by (simp add: tx_pool_inv_def)
  have keys: "pipeline_keys_ok (codec E) (peer_id (raft_active s)) flight
      (proposed_keys (block_pipeline (consensused s)))"
    using pipeline_keys_ok_drop [OF _ facts(3) facts(6) facts(7)] inv by (simp add: tx_pool_inv_def)
  have w: "fmweight ?w (proposed_in_flight (in_flight s)) =
      fmweight ?w (proposed_in_flight flight) + (if own then item_tx_len item else 0)"
  proof (cases own)
    case True
    then obtain v where v: "fmlookup (proposed_in_flight (in_flight s)) key = Some v"
      and e: "fmweight ?w (proposed_in_flight (in_flight s)) = fmweight ?w (proposed_in_flight flight) + ?w v"
      using q inflight.weight_commits_own [of "codec E" "(in_flight s, raft_active s)" key "(flight, raft_active s)" ?w]
      by auto
    have "fst v = data" using faithful facts(2) v unfolding log_faithful_def by blast
    then have "?w v = item_tx_len item" using facts(1) by (simp add: pending_tx_len_def)
    then show ?thesis using e True by simp
  next
    case False
    then have "proposed_in_flight flight = proposed_in_flight (in_flight s)"
      using q inflight.weight_commits_other [of "codec E" "(in_flight s, raft_active s)" key "(flight, raft_active s)"]
      by simp
    then show ?thesis using False by simp
  qed
  show "item_tx_len item \<le> proposed_tx_pool_len s" if own using inv w that by (simp add: tx_pool_inv_def)
  show "tx_pool_inv E (s\<lparr>in_flight := flight,
      proposed_tx_pool_len := proposed_tx_pool_len s - (if own then item_tx_len item else 0)\<rparr>)"
    using inv w flight_inv keys by (simp add: tx_pool_inv_def)
qed

lemma tx_pool_inv_received_proposal:
  assumes inv: "tx_pool_inv E s" and faithful: "log_faithful E s data ctx"
    and r: "received_commit_proposal E now s data ctx = Some (t, c)"
  shows "tx_pool_inv E t"
proof -
  obtain flight res where f: "in_flight_received_commit_proposal (codec E) (in_flight s) data ctx = (flight, res)"
    by (cases "in_flight_received_commit_proposal (codec E) (in_flight s) data ctx")
  show ?thesis
  proof (cases res)
    case None
    then have "flight = in_flight s" using f commit_ignored by blast
    then show ?thesis using r f None inv by (simp add: received_commit_proposal_def)
  next
    case (Some x)
    obtain key item own where x: "x = (key, item, own)" by (cases x)
    let ?s = "s\<lparr>in_flight := flight,
      proposed_tx_pool_len := proposed_tx_pool_len s - (if own then item_tx_len item else 0)\<rparr>"
    note acc = commit_proposal_accounts [OF inv faithful f [unfolded Some x]]
    have "commit_item E now ?s key item = Some (t, c)"
    proof (cases "own \<and> (\<exists>txs. item = ItemTransactions txs)")
      case True
      then obtain txs where i: "item = ItemTransactions txs" and own by blast
      then have "usize_sub (proposed_tx_pool_len s) (fmlen txs) = proposed_tx_pool_len s - fmlen txs"
        using acc(1) by (simp add: usize_sub_def)
      then show ?thesis using r f Some x i \<open>own\<close> by (simp add: received_commit_proposal_def Let_def)
    next
      case False
      then show ?thesis
        using r f Some x
        by (auto simp: received_commit_proposal_def Let_def item_tx_len_def split: ComputeRaftItem.splits)
    qed
    then show ?thesis by (rule tx_pool_inv_commit_item [OF acc(2)])
  qed
qed

text \<open>A snapshot replaces the remembered pipeline keys; those of this peer's run are past ones.\<close>

definition snapshot_keys_ok :: "compute_raft_ext \<Rightarrow> ComputeRaft \<Rightarrow> RaftData \<Rightarrow> bool" where
  "snapshot_keys_ok E s data \<longleftrightarrow>
     (\<forall>cons. cons_deserialize E data = Some cons \<longrightarrow>
        pipeline_keys_ok (codec E) (peer_id (raft_active s)) (in_flight s) (proposed_keys (block_pipeline cons)))"

lemma tx_pool_inv_snapshot:
  assumes "tx_pool_inv E s" and "snapshot_keys_ok E s data" and "apply_snapshot E now s data = Some (t, c)"
  shows "tx_pool_inv E t"
proof (cases "data = []")
  case True
  then show ?thesis
    using assms(1,3)
    by (auto simp: apply_snapshot_def tx_pool_inv_def Let_def set_next_propose_mining_event_timeout_at_def
        set_next_propose_transactions_timeout_at_def)
next
  case False
  then obtain cons s1 where d: "cons_deserialize E data = Some cons"
    and i: "set_ignore_dedeup_b_num_less_than_current (s\<lparr>consensused_snapshot_applied := True, consensused := cons\<rparr>) = Some s1"
    and t: "t = (set_next_propose_mining_event_timeout_at now (set_next_propose_transactions_timeout_at now s1))
      \<lparr>local_initial_proposal := map_option (\<lambda>_. PendingAll) (local_initial_proposal s1)\<rparr>"
    using assms(3)
    by (auto simp: apply_snapshot_def option_bind_Some_iff Let_def set_next_propose_mining_event_timeout_at_def
        set_next_propose_transactions_timeout_at_def)
  have "tx_pool_inv E (s\<lparr>consensused_snapshot_applied := True, consensused := cons\<rparr>)"
    using assms(1,2) d by (simp add: tx_pool_inv_def snapshot_keys_ok_def)
  then have "tx_pool_inv E s1" using tx_pool_inv_acct [OF acct_ignore [OF i]] by blast
  then show ?thesis
    using t by (auto simp: tx_pool_inv_def set_next_propose_mining_event_timeout_at_def
        set_next_propose_transactions_timeout_at_def)
qed

section \<open>The block number\<close>

abbreviation num_of :: "ComputeRaft \<Rightarrow> u64 option" where
  "num_of s \<equiv> current_block_num (block_pipeline (consensused s))"

text \<open>Every vote that is being counted is for the current block.\<close>

definition votes_current :: "ComputeConsensused \<Rightarrow> bool" where
  "votes_current c \<longleftrightarrow>
     (\<forall>h v ids. fmlookup (current_block_stored_info c) h = Some (v, ids) \<longrightarrow>
        (case v of AccFirstBlock _ \<Rightarrow> is_first_block c | AccBlock info \<Rightarrow> is_current_block c (block_num info)))"

lemma votes_current_append:
  assumes "votes_current c" and "append_current_block_stored_info E c key v = Some c'"
    and "case v of AccFirstBlock _ \<Rightarrow> is_first_block c | AccBlock info \<Rightarrow> is_current_block c (block_num info)"
  shows "votes_current c'"
proof -
  have p: "block_pipeline c' = block_pipeline c" using assms(2) by (rule append_info_keys)
  have "fmlookup (current_block_stored_info c') h = Some (v', ids) \<Longrightarrow>
      v' = v \<or> (\<exists>ids'. fmlookup (current_block_stored_info c) h = Some (v', ids'))" for h v' ids
    using assms(2)
    by (auto simp: append_current_block_stored_info_def option_bind_Some_iff split: if_splits option.splits)
  then show ?thesis
    using assms(1,3) p unfolding votes_current_def is_first_block_def is_current_block_def by metis
qed

lemma votes_current_empty: "current_block_stored_info c = fmempty \<Longrightarrow> votes_current c"
  by (simp add: votes_current_def)

lemma take_ready_member:
  assumes "take_ready_block_stored_info c = Some (c', v)"
  shows "\<exists>h ids. fmlookup (current_block_stored_info c) h = Some (v, ids)"
    and "c' = c\<lparr>current_block_stored_info := fmempty\<rparr>"
proof -
  obtain ids where "max_by_key (\<lambda>(_, vote_ids). fcard vote_ids) (fmvalues (current_block_stored_info c)) = Some (v, ids)"
    and c': "c' = c\<lparr>current_block_stored_info := fmempty\<rparr>"
    using assms by (auto simp: take_ready_block_stored_info_def option_bind_Some_iff)
  then have "(v, ids) \<in> set (fmvalues (current_block_stored_info c))" using max_by_key_Some_mem by fast
  then show "\<exists>h ids. fmlookup (current_block_stored_info c) h = Some (v, ids)" by (auto simp: set_fmvalues)
  show "c' = c\<lparr>current_block_stored_info := fmempty\<rparr>" by (rule c')
qed

text \<open>Applying the counted information sets the number of the block that follows.\<close>

lemma apply_ready_number:
  assumes "votes_current c" and "apply_ready_block_stored_info E c = Some c'"
  shows "current_block_stored_info c' = fmempty \<and>
     (case current_block_num (block_pipeline c) of
        None \<Rightarrow> current_block_num (block_pipeline c') = Some 0
      | Some n \<Rightarrow> if special_handling c' = Some Shutdown
          then current_block_num (block_pipeline c') = Some n
          else current_block_num (block_pipeline c') = Some (n + 1))"
proof -
  obtain c1 v where 1: "take_ready_block_stored_info c = Some (c1, v)"
    using assms(2) by (auto simp: apply_ready_block_stored_info_def option_bind_Some_iff)
  note c1 = take_ready_member(2) [OF 1]
  obtain h ids where "fmlookup (current_block_stored_info c) h = Some (v, ids)"
    using take_ready_member(1) [OF 1] by blast
  then have cur: "case v of AccFirstBlock _ \<Rightarrow> is_first_block c | AccBlock info \<Rightarrow> is_current_block c (block_num info)"
    using assms(1) unfolding votes_current_def by blast
  show ?thesis
  proof (cases v)
    case (AccFirstBlock txs)
    then show ?thesis
      using assms(2) 1 c1 cur
      by (auto simp: apply_ready_block_stored_info_def option_bind_Some_iff is_first_block_def
          pipeline_apply_ready_block_stored_info_def)
  next
    case (AccBlock info)
    then have "current_block_num (block_pipeline c) = Some (block_num info)"
      using cur by (simp add: is_current_block_def split: option.splits)
    then show ?thesis
      using assms(2) 1 c1 AccBlock
      by (auto simp: apply_ready_block_stored_info_def option_bind_Some_iff
          pipeline_apply_ready_block_stored_info_def split: if_splits)
  qed
qed

lemma snapshot_consensused:
  assumes "event_processed_generate_snapshot E s = Some t"
  shows "consensused t = consensused s"
    and "is_shutdown_on_commit s \<Longrightarrow> shutdown_no_commit_process t"
proof -
  obtain s1 where 1: "set_ignore_dedeup_b_num_less_than_current s = Some s1"
    using assms by (auto simp: event_processed_generate_snapshot_def option_bind_Some_iff)
  then have c1: "consensused s1 = consensused s"
    by (auto simp: set_ignore_dedeup_b_num_less_than_current_def option_bind_Some_iff)
  obtain ser where 2: "cons_serialize E (consensused s1) = Some ser"
    using assms 1 by (auto simp: event_processed_generate_snapshot_def option_bind_Some_iff)
  have "consensused t = consensused s \<and> (is_shutdown_on_commit s \<longrightarrow> shutdown_no_commit_process t)"
    using assms 1 2 c1
    by (cases "need_backup s1")
      (auto simp: event_processed_generate_snapshot_def Let_def case_prod_unfold is_shutdown_on_commit_def
        split: if_splits)
  then show "consensused t = consensused s" and "is_shutdown_on_commit s \<Longrightarrow> shutdown_no_commit_process t"
    by simp_all
qed

lemma re_align_consensused:
  assumes "event_processed_re_align_utxo_set s bn = Some t"
  shows "num_of t = num_of s" and "current_block_stored_info (consensused t) = current_block_stored_info (consensused s)"
    and "is_shutdown_on_commit t = is_shutdown_on_commit s"
  using assms
  by (auto simp: event_processed_re_align_utxo_set_def option_bind_Some_iff re_align_utxo_set_def
      is_shutdown_on_commit_def split: if_splits)

lemma timeout_consensused [simp]: "consensused (set_next_propose_mining_event_timeout_at now s) = consensused s"
  by (simp add: set_next_propose_mining_event_timeout_at_def)

lemma commit_first_block_number:
  assumes "votes_current (consensused s)" and "commit_first_block E now s key utxos = Some (t, c)"
  shows "votes_current (consensused t) \<and>
     (c = Some CommittedFirstBlock \<and> num_of s = None \<and> num_of t = Some 0 \<or> c = None \<and> num_of t = num_of s)"
proof (cases "is_first_block (consensused s)")
  case True
  obtain c1 where 1: "append_first_block_info (cext E) (consensused s) key utxos = Some c1"
    using assms(2) True by (auto simp: commit_first_block_def option_bind_Some_iff)
  have k1: "block_pipeline c1 = block_pipeline (consensused s)"
    using append_info_keys [OF 1 [unfolded append_first_block_info_def]] by simp
  have v1: "votes_current c1"
    using votes_current_append [OF assms(1) 1 [unfolded append_first_block_info_def]] True by simp
  show ?thesis
  proof (cases "has_block_stored_info_ready c1")
    case ready: True
    then obtain c2 c3 c4 where 2: "apply_ready_block_stored_info (cext E) c1 = Some c2"
      and 3: "generate_first_block (cext E) c2 = Some c3"
      and 4: "compute_start_items_intake (cext E) c3 = Some c4"
      and t: "event_processed_generate_snapshot E
        (set_next_propose_mining_event_timeout_at now (s\<lparr>consensused := c4\<rparr>)) = Some t"
      and c: "c = Some CommittedFirstBlock"
      using assms(2) True 1 by (auto simp: commit_first_block_def option_bind_Some_iff Let_def)
    have n: "current_block_num (block_pipeline c1) = None" using True k1 by (simp add: is_first_block_def)
    have "consensused t = c4" using snapshot_consensused(1) [OF t] by simp
    then show ?thesis
      using apply_ready_number [OF v1 2] generate_first_block_keys [OF 3] compute_start_items_intake_keys [OF 4] c n k1
      by (auto intro: votes_current_empty)
  next
    case False
    then show ?thesis using assms(2) True 1 k1 v1 by (auto simp: commit_first_block_def)
  qed
next
  case False
  then show ?thesis using assms by (simp add: commit_first_block_def)
qed

lemma commit_block_number:
  assumes "votes_current (consensused s)" and "commit_block E now s key info = Some (t, c)"
  shows "votes_current (consensused t) \<and>
     (c = Some CommittedBlock \<and> (\<exists>n. num_of s = Some n \<and> num_of t = Some (n + 1)) \<or>
      c = Some CommittedBlockShutdown \<and> num_of t = num_of s \<and> shutdown_no_commit_process t \<or>
      c = None \<and> num_of t = num_of s)"
proof (cases "is_current_block (consensused s) (block_num info)")
  case True
  obtain c1 where 1: "append_block_stored_info (cext E) (consensused s) key info = Some c1"
    using assms(2) True by (auto simp: commit_block_def option_bind_Some_iff Let_def)
  have k1: "block_pipeline c1 = block_pipeline (consensused s)"
    using append_info_keys [OF 1 [unfolded append_block_stored_info_def]] by simp
  have v1: "votes_current c1"
    using votes_current_append [OF assms(1) 1 [unfolded append_block_stored_info_def]] True by simp
  have n: "num_of s = Some (block_num info)" using True by (simp add: is_current_block_def split: option.splits)
  show ?thesis
  proof (cases "has_block_stored_info_ready c1")
    case ready: True
    obtain c2 where 2: "apply_ready_block_stored_info (cext E) c1 = Some c2"
      using assms(2) True 1 ready by (auto simp: commit_block_def option_bind_Some_iff Let_def)
    note a2 = apply_ready_number [OF v1 2]
    show ?thesis
    proof (cases "is_shutdown_on_commit (s\<lparr>consensused := c2\<rparr>)")
      case shut: True
      then obtain s1 where 3: "event_processed_re_align_utxo_set (s\<lparr>consensused := c2\<rparr>) (block_num info) = Some s1"
        and 4: "event_processed_generate_snapshot E s1 = Some t" and c: "c = Some CommittedBlockShutdown"
        using assms(2) True 1 ready 2 by (auto simp: commit_block_def option_bind_Some_iff Let_def)
      have "is_shutdown_on_commit s1" using re_align_consensused(3) [OF 3] shut by simp
      then show ?thesis
        using re_align_consensused(1,2) [OF 3] snapshot_consensused [OF 4] a2 c n k1 shut
        by (auto simp: is_shutdown_on_commit_def intro: votes_current_empty)
    next
      case False
      then obtain c3 c4 s1 where 3: "generate_block (cext E) c2 = Some c3"
        and 4: "compute_start_items_intake (cext E) c3 = Some c4"
        and 5: "event_processed_re_align_utxo_set (set_next_propose_mining_event_timeout_at now
          (s\<lparr>consensused := c4\<rparr>)) (block_num info) = Some s1"
        and 6: "event_processed_generate_snapshot E s1 = Some t" and c: "c = Some CommittedBlock"
        using assms(2) True 1 ready 2 by (auto simp: commit_block_def option_bind_Some_iff Let_def)
      show ?thesis
        using re_align_consensused(1,2) [OF 5] snapshot_consensused(1) [OF 6] a2 generate_block_keys(2,3) [OF 3]
          compute_start_items_intake_keys(2,3) [OF 4] c n k1 False
        by (auto simp: is_shutdown_on_commit_def intro: votes_current_empty)
    qed
  next
    case False
    then show ?thesis using assms(2) True 1 k1 v1 by (auto simp: commit_block_def Let_def)
  qed
next
  case False
  then show ?thesis using assms by (simp add: commit_block_def)
qed

text \<open>Updates that leave the votes and the block number alone.\<close>

lemma votes_current_frame:
  assumes "current_block_stored_info c' = current_block_stored_info c"
    and "current_block_num (block_pipeline c') = current_block_num (block_pipeline c)"
  shows "votes_current c' = votes_current c"
  unfolding votes_current_def is_first_block_def is_current_block_def assms by (rule refl)

lemma commit_pipeline_number:
  assumes "votes_current (consensused s)" and "commit_pipeline_item E now s key item bn = Some (t, c)"
  shows "votes_current (consensused t) \<and> num_of t = num_of s \<and>
     c \<notin> {Some CommittedFirstBlock, Some CommittedBlock}"
proof (cases "is_current_block (consensused s) bn")
  case True
  obtain cons change where h: "compute_handle_mining_pipeline_item (cext E) (consensused s) item key = Some (cons, change)"
    using assms(2) True by (auto simp: commit_pipeline_item_def option_bind_Some_iff)
  have n: "current_block_num (block_pipeline cons) = num_of s"
    and i: "current_block_stored_info cons = current_block_stored_info (consensused s)"
    using h handle_item_keys(2) by (auto simp: compute_handle_mining_pipeline_item_def option_bind_Some_iff)
  then have v: "votes_current cons"
    using assms(1) votes_current_frame [OF i n] by simp
  then have v': "votes_current (cons\<lparr>block_pipeline := clear_proposed_keys (block_pipeline cons)\<rparr>)"
    by (subst votes_current_frame [of _ cons]) (simp_all add: clear_proposed_keys_def)
  show ?thesis
  proof (cases change)
    case None
    then show ?thesis using assms(2) True h n v by (auto simp: commit_pipeline_item_def)
  next
    case (Some ch)
    then show ?thesis
      using assms(2) True h n v v'
      by (cases ch) (auto simp: commit_pipeline_item_def Let_def clear_proposed_keys_def)
  qed
next
  case False
  then show ?thesis using assms by (simp add: commit_pipeline_item_def)
qed

lemma commit_cmd_frame:
  "current_block_stored_info (consensused (fst (commit_coordinated_cmd s key cmd)))
   = current_block_stored_info (consensused s)"
  "num_of (fst (commit_coordinated_cmd s key cmd)) = num_of s"
  "snd (commit_coordinated_cmd s key cmd) \<notin> {Some CommittedFirstBlock, Some CommittedBlock}"
  by (simp_all add: commit_coordinated_cmd_def append_current_coordinated_raft_cmd_stored_info_def
      take_ready_coordinated_raft_cmd_def Let_def)

lemma commit_item_number:
  assumes "votes_current (consensused s)" and "commit_item E now s key item = Some (t, c)"
  shows "votes_current (consensused t) \<and>
     (if c = Some CommittedFirstBlock then num_of s = None \<and> num_of t = Some 0
      else if c = Some CommittedBlock then \<exists>n. num_of s = Some n \<and> num_of t = Some (n + 1)
      else num_of t = num_of s)"
proof (cases item)
  case (ItemFirstBlock u)
  then show ?thesis using commit_first_block_number [OF assms(1)] assms(2) by fastforce
next
  case (ItemBlock b)
  then show ?thesis using commit_block_number [OF assms(1)] assms(2) by fastforce
next
  case (ItemPipelineItem i n)
  then show ?thesis using commit_pipeline_number [OF assms(1)] assms(2) by fastforce
next
  case (ItemRuntimeData d)
  then have "current_block_stored_info (consensused t) = current_block_stored_info (consensused s)"
    and "num_of t = num_of s" and "c = None"
    using assms(2) by (cases d; auto)+
  then show ?thesis using assms(1) votes_current_frame [of "consensused t" "consensused s"] by simp
next
  case (ItemCoordinatedCmd cmd)
  then have "current_block_stored_info (consensused t) = current_block_stored_info (consensused s)"
    and "num_of t = num_of s" and "c \<noteq> Some CommittedFirstBlock" and "c \<noteq> Some CommittedBlock"
    using assms(2) commit_cmd_frame [of s key cmd] by auto
  then show ?thesis using assms(1) votes_current_frame [of "consensused t" "consensused s"] by simp
next
  case (ItemTransactions txs)
  then have "current_block_stored_info (consensused t) = current_block_stored_info (consensused s)"
    and "num_of t = num_of s" and "c = Some CommittedTransactions"
    using assms(2) by auto
  then show ?thesis using assms(1) votes_current_frame [of "consensused t" "consensused s"] by simp
next
  case (ItemDruidTransactions txs)
  then have "current_block_stored_info (consensused t) = current_block_stored_info (consensused s)"
    and "num_of t = num_of s" and "c = Some CommittedTransactions"
    using assms(2) by auto
  then show ?thesis using assms(1) votes_current_frame [of "consensused t" "consensused s"] by simp
qed

lemma received_proposal_number:
  assumes "votes_current (consensused s)" and "received_commit_proposal E now s data ctx = Some (t, c)"
  shows "votes_current (consensused t) \<and>
     (if c = Some CommittedFirstBlock then num_of s = None \<and> num_of t = Some 0
      else if c = Some CommittedBlock then \<exists>n. num_of s = Some n \<and> num_of t = Some (n + 1)
      else num_of t = num_of s)"
proof -
  obtain flight res where f: "in_flight_received_commit_proposal (codec E) (in_flight s) data ctx = (flight, res)"
    by (cases "in_flight_received_commit_proposal (codec E) (in_flight s) data ctx")
  show ?thesis
  proof (cases res)
    case None
    then show ?thesis using assms f by (auto simp: received_commit_proposal_def)
  next
    case (Some x)
    obtain key item own where x: "x = (key, item, own)" by (cases x)
    have "commit_item E now (s\<lparr>in_flight := flight\<rparr>) key item = Some (t, c) \<or>
        (\<exists>len. commit_item E now (s\<lparr>in_flight := flight, proposed_tx_pool_len := len\<rparr>) key item = Some (t, c))"
      using assms(2) f Some x
      by (auto simp: received_commit_proposal_def Let_def split: if_splits ComputeRaftItem.splits)
    then show ?thesis
    proof (elim disjE exE)
      assume c: "commit_item E now (s\<lparr>in_flight := flight\<rparr>) key item = Some (t, c)"
      show ?thesis using commit_item_number [OF _ c] assms(1) by (auto split: if_splits)
    next
      fix len
      assume c: "commit_item E now (s\<lparr>in_flight := flight, proposed_tx_pool_len := len\<rparr>) key item = Some (t, c)"
      show ?thesis using commit_item_number [OF _ c] assms(1) by (auto split: if_splits)
    qed
  qed
qed

section \<open>Reachable states\<close>

text \<open>
  One rule per operation of \<open>ComputeRaft\<close> that changes it. A commit carries the data that was
  proposed under its key (the log is faithful), and the proposal counter has not run through its 64 bits.
\<close>

inductive compute_raft_step :: "compute_raft_ext \<Rightarrow> ComputeRaft \<Rightarrow> ComputeRaft \<Rightarrow> bool" for E where
  commit: "received_commit E now s rc = Some (t, c) \<Longrightarrow>
     (\<And>data ctx. commit_data rc = Proposed data ctx \<Longrightarrow> log_faithful E s data ctx) \<Longrightarrow>
     (\<And>data. commit_data rc = CommitSnapshot data \<Longrightarrow> snapshot_keys_ok E s data) \<Longrightarrow> compute_raft_step E s t"
| initial_item: "propose_initial_item E s = Some t \<Longrightarrow> proposed_last_id (in_flight s) + 1 \<noteq> 0 \<Longrightarrow>
     compute_raft_step E s t"
| block_info: "propose_block_with_last_info E s block = Some (t, b) \<Longrightarrow>
     proposed_last_id (in_flight s) + 1 \<noteq> 0 \<Longrightarrow> compute_raft_step E s t"
| pipeline_item: "propose_mining_pipeline_item E s item = Some (t, b) \<Longrightarrow>
     proposed_last_id (in_flight s) + 1 \<noteq> 0 \<Longrightarrow> compute_raft_step E s t"
| mining_event: "propose_mining_event_at_timeout E now s = Some (t, b) \<Longrightarrow>
     proposed_last_id (in_flight s) + 1 \<noteq> 0 \<Longrightarrow> compute_raft_step E s t"
| runtime_item: "propose_runtime_item E s ritem = Some t \<Longrightarrow> proposed_last_id (in_flight s) + 1 \<noteq> 0 \<Longrightarrow>
     compute_raft_step E s t"
| pause: "propose_pause_nodes E s bn = Some t \<Longrightarrow> proposed_last_id (in_flight s) + 1 \<noteq> 0 \<Longrightarrow>
     compute_raft_step E s t"
| resume: "propose_resume_nodes E s = Some t \<Longrightarrow> proposed_last_id (in_flight s) + 1 \<noteq> 0 \<Longrightarrow>
     compute_raft_step E s t"
| shared_config: "propose_apply_shared_config E s = Some t \<Longrightarrow> proposed_last_id (in_flight s) + 1 \<noteq> 0 \<Longrightarrow>
     compute_raft_step E s t"
| local_txs: "propose_local_transactions_at_timeout E now s = Some t \<Longrightarrow>
     proposed_last_id (in_flight s) + 1 \<noteq> 0 \<Longrightarrow> compute_raft_step E s t"
| local_druid_txs: "propose_local_druid_transactions E s = Some t \<Longrightarrow>
     proposed_last_id (in_flight s) + 1 \<noteq> 0 \<Longrightarrow> compute_raft_step E s t"
| re_propose: "compute_raft_step E s (re_propose_uncommitted_current_b_num s)"
| tx_pool: "compute_raft_step E s (append_to_tx_pool s txs)"
| tx_druid_pool: "compute_raft_step E s (append_to_tx_druid_pool s txs)"
| hashes: "compute_raft_step E s (fst (take_local_tx_hash_last_commited s))"
| mining_block: "compute_raft_step E s (fst (raft_take_mining_block s))"
| clear_keys: "compute_raft_step E s (clear_block_pipeline_proposed_keys s)"
| flush_miners: "compute_raft_step E s (flush_stale_miners s miners)"
| initial_done: "compute_raft_step E s (set_initial_proposal_done s)"
| duration: "compute_raft_step E s (update_mining_event_timeout_duration s ms)"
| partition_size: "compute_raft_step E s (raft_update_partition_full_size s n)"
| whitelist_active: "compute_raft_step E s (update_compute_miner_whitelist_active s active)"
| whitelist_api_keys: "compute_raft_step E s (update_compute_miner_whitelist_api_keys s api_keys)"
| whitelist_addresses: "compute_raft_step E s (update_compute_miner_whitelist_addresses s addrs)"
| message: "compute_raft_step E s (received_message s msg)"

inductive compute_raft_reachable :: "compute_raft_ext \<Rightarrow> genesis_ext \<Rightarrow> ComputeRaft \<Rightarrow> bool" for E G where
  start: "ComputeRaft_new E G now config = Some s \<Longrightarrow> compute_raft_reachable E G (set_key_run s run)"
| step: "compute_raft_reachable E G s \<Longrightarrow> compute_raft_step E s t \<Longrightarrow> compute_raft_reachable E G t"

lemma init_status_keys:
  "init_block_pipeline_status P bp extra = Some bp' \<Longrightarrow> proposed_keys bp' = proposed_keys bp"
  by (auto simp: init_block_pipeline_status_def split: if_splits dest: start_items_intake_keys(1))

lemma tx_pool_inv_new:
  assumes "ComputeRaft_new E G now config = Some s"
  shows "tx_pool_inv E (set_key_run s run)"
proof -
  obtain cons cons0 utxos where i: "compute_init_block_pipeline_status (cext E) cons0 = Some cons"
    and b0: "block_pipeline cons0 = with_unicorn_fixed_param MiningPipelineInfo_default (compute_unicorn_fixed_param config)"
    and s: "consensused s = cons" "in_flight s = RaftInFlightProposals_default" "proposed_tx_pool_len s = 0"
      "local_initial_proposal s = Some (PendingItem (ItemFirstBlock utxos) None)"
    using assms
    by (auto simp: ComputeRaft_new_def option_bind_Some_iff Let_def compute_with_unicorn_fixed_param_def
        with_partition_full_size_def with_peers_len_def ComputeConsensused_default_def split: if_splits)
  obtain bp where bp: "init_block_pipeline_status (pipe (cext E)) (block_pipeline cons0) (event_info cons0 0) = Some bp"
    and cons: "cons = cons0\<lparr>block_pipeline := bp\<rparr>"
    using i by (auto simp: compute_init_block_pipeline_status_def option_bind_Some_iff)
  have "proposed_keys (block_pipeline cons) = {||}"
    using init_status_keys [OF bp] cons b0 by (simp add: with_unicorn_fixed_param_def MiningPipelineInfo_default_def)
  then show ?thesis
    using s by (simp add: tx_pool_inv_def in_flight_inv_def pipeline_keys_ok_def set_key_run_def
        in_flight_set_key_run_def RaftInFlightProposals_default_def)
qed

lemma peer_id_re_propose [simp]:
  "peer_id (in_flight_re_propose_uncommitted_current_b_num flight r bn) = peer_id r"
  "peer_id (re_propose_all_items flight r) = peer_id r"
proof -
  have "peer_id (fold (\<lambda>(key, b) r. if b = bn then re_propose_item flight r key else r) xs r) = peer_id r" for xs
    by (induction xs arbitrary: r) (auto simp: re_propose_item_def split: option.splits)
  then show "peer_id (in_flight_re_propose_uncommitted_current_b_num flight r bn) = peer_id r"
    by (simp add: in_flight_re_propose_uncommitted_current_b_num_def)
  have "peer_id (fold (\<lambda>(data, ctx) r. propose_data r data ctx) xs r) = peer_id r" for xs
    by (induction xs arbitrary: r) auto
  then show "peer_id (re_propose_all_items flight r) = peer_id r"
    by (simp add: re_propose_all_items_def)
qed

lemma tx_pool_inv_commit:
  assumes inv: "tx_pool_inv E s" and r: "received_commit E now s rc = Some (t, c)"
    and "\<And>data ctx. commit_data rc = Proposed data ctx \<Longrightarrow> log_faithful E s data ctx"
    and "\<And>data. commit_data rc = CommitSnapshot data \<Longrightarrow> snapshot_keys_ok E s data"
  shows "tx_pool_inv E t"
proof -
  let ?s = "s\<lparr>consensused := (consensused s)\<lparr>last_committed_raft_idx_and_term :=
    (commit_index rc, commit_term rc)\<rparr>\<rparr>"
  have i: "tx_pool_inv E ?s" using inv by (simp add: tx_pool_inv_def)
  show ?thesis
  proof (cases "commit_data rc")
    case (Proposed data ctx)
    then have "log_faithful E ?s data ctx" using assms(3) by (simp add: log_faithful_def)
    then show ?thesis
      using i r Proposed tx_pool_inv_received_proposal by (simp add: received_commit_def Let_def)
  next
    case (CommitSnapshot data)
    then have "snapshot_keys_ok E ?s data" using assms(4) by (simp add: snapshot_keys_ok_def)
    then show ?thesis
      using i r CommitSnapshot tx_pool_inv_snapshot by (simp add: received_commit_def Let_def)
  next
    case NewLeader
    then show ?thesis using i r by (auto simp: received_commit_def Let_def tx_pool_inv_def)
  qed
qed

lemma tx_pool_inv_step:
  assumes inv: "tx_pool_inv E s" and c: "codec_inverts (codec E)" and step: "compute_raft_step E s t"
  shows "tx_pool_inv E t"
  using step
proof (cases rule: compute_raft_step.cases)
  case (commit now rc c)
  then show ?thesis using tx_pool_inv_commit [OF inv] by blast
next
  case initial_item
  then show ?thesis using tx_pool_inv_proposals(1) [OF inv _ c] by blast
next
  case (block_info block b)
  then show ?thesis using tx_pool_inv_proposals(2) [OF inv _ c] by blast
next
  case (pipeline_item item b)
  then show ?thesis using tx_pool_inv_proposals(3) [OF inv _ c] by blast
next
  case (mining_event now b)
  let ?s = "set_next_propose_mining_event_timeout_at now s"
  have i: "tx_pool_inv E ?s" using inv tx_pool_inv_acct [OF acct_timeouts(1)] by blast
  moreover have l: "proposed_last_id (in_flight ?s) + 1 \<noteq> 0"
    using mining_event(2) by (simp add: set_next_propose_mining_event_timeout_at_def)
  ultimately show ?thesis
    using mining_event(1) tx_pool_inv_proposals(3) [OF i l c]
    by (auto simp: propose_mining_event_at_timeout_def Let_def split: option.splits)
next
  case (local_txs now)
  then show ?thesis using tx_pool_inv_proposals(5) [OF inv _ c] by blast
next
  case local_druid_txs
  then show ?thesis using tx_pool_inv_proposals(4) [OF inv _ c] by blast
next
  case (runtime_item ritem)
  then show ?thesis using tx_pool_inv_propose_other(1) [OF inv _ c, of "ItemRuntimeData ritem"]
    by (auto simp: propose_runtime_item_def)
next
  case (pause bn)
  then show ?thesis using tx_pool_inv_propose_other(1) [OF inv _ c, of "ItemCoordinatedCmd (PauseNodes bn)"]
    by (auto simp: propose_pause_nodes_def)
next
  case resume
  then show ?thesis using tx_pool_inv_propose_other(1) [OF inv _ c, of "ItemCoordinatedCmd ResumeNodes"]
    by (auto simp: propose_resume_nodes_def)
next
  case shared_config
  then show ?thesis using tx_pool_inv_propose_other(1) [OF inv _ c, of "ItemCoordinatedCmd ApplySharedConfig"]
    by (auto simp: propose_apply_shared_config_def)
qed (use inv in \<open>auto simp: tx_pool_inv_def re_propose_uncommitted_current_b_num_def append_to_tx_pool_def
      append_to_tx_druid_pool_def take_local_tx_hash_last_commited_def raft_take_mining_block_def
      compute_take_mining_block_def pipeline_take_mining_block_def clear_block_pipeline_proposed_keys_def
      clear_proposed_keys_def flush_stale_miners_def cleanup_participants_mining_def
      cleanup_participant_intake_def set_initial_proposal_done_def update_mining_event_timeout_duration_def
      raft_update_partition_full_size_def update_partition_full_size_def update_compute_miner_whitelist_active_def
      update_miner_whitelist_active_def update_compute_miner_whitelist_api_keys_def
      update_miner_whitelist_api_keys_def update_compute_miner_whitelist_addresses_def
      update_miner_whitelist_addresses_def received_message_def raft_received_message_def
      pipeline_keys_ok_def split: option.splits\<close>)

section \<open>Properties\<close>

text \<open>A codec that knows one transaction item, and a node of a group of one.\<close>

definition demo_txs_item :: ComputeRaftItem where
  "demo_txs_item = ItemTransactions (fmupd ''x'' (demo_spend [] 3) fmempty)"

definition demo_rcodec :: "ComputeRaftItem raft_codec" where
  "demo_rcodec = \<lparr>item_serialize = (\<lambda>i. if i = demo_txs_item then Some [9] else None),
     item_deserialize = (\<lambda>bs. if bs = [9] then Some demo_txs_item else None),
     key_serialize = key_serialize demo_codec, key_deserialize = key_deserialize demo_codec,
     codec_digest = (\<lambda>bs. bs)\<rparr>"

definition demo_rext :: compute_raft_ext where
  "demo_rext = \<lparr>cext = demo_cext, codec = demo_rcodec, cons_serialize = (\<lambda>_. Some [1]),
     cons_deserialize = (\<lambda>_. None)\<rparr>"

definition demo_gext :: genesis_ext where
  "demo_gext = \<lparr>hex_decode = (\<lambda>_. Some []), PublicKey_from_slice = Some, construct_address = (\<lambda>_. ''a''),
     TxOut_new_token_amount = (\<lambda>a v. demo_out v a), Script_new = \<lparr>stack = []\<rparr>,
     Transaction_default = demo_spend [] 0\<rparr>"

definition demo_config :: ComputeNodeConfig where
  "demo_config = \<lparr>compute_node_idx = 0,
     compute_unicorn_fixed_param = \<lparr>info_modulus = ''7'', info_iterations = 2, info_security = 1\<rparr>,
     compute_nodes = [demo_addr], compute_raft = 1, compute_mining_event_timeout = 100,
     compute_transaction_timeout = 50, compute_seed_utxo = fmempty, compute_genesis_tx_in = None,
     compute_partition_full_size = 1, backup_block_modulo = None, utxo_re_align_block_modulo = Some 10\<rparr>"

lemma demo_codec_inverts: "codec_inverts (codec demo_rext)"
  by (auto simp: codec_inverts_def demo_rext_def demo_rcodec_def split: if_splits)

text \<open>C2: in every reachable state the count of proposed transactions is the number of transactions in the
  proposals that are still pending, so that the subtraction at a commit never wraps. It rests on
  decoding being the inverse of encoding and on the log returning what was proposed.\<close>

theorem tx_pool_accounting:
  assumes "compute_raft_reachable E G s" and "codec_inverts (codec E)"
  shows "proposed_tx_pool_len s = fmweight (pending_tx_len (codec E)) (proposed_in_flight (in_flight s)) \<and>
     (\<forall>data ctx flight key txs. log_faithful E s data ctx \<and>
        in_flight_received_commit_proposal (codec E) (in_flight s) data ctx
          = (flight, Some (key, ItemTransactions txs, True)) \<longrightarrow>
        fmlen txs \<le> proposed_tx_pool_len s)"
proof -
  have "tx_pool_inv E s"
    using assms(1) by (induction rule: compute_raft_reachable.induct) (auto intro: tx_pool_inv_new tx_pool_inv_step assms(2))
  then show ?thesis using commit_proposal_accounts(1) by (fastforce simp: tx_pool_inv_def)
qed

lemma demo_new:
  "\<exists>s0. ComputeRaft_new demo_rext demo_gext 0 demo_config = Some s0 \<and>
     in_flight s0 = RaftInFlightProposals_default \<and> proposed_tx_pool_len s0 = 0 \<and>
     local_tx_pool s0 = fmempty \<and> tx_pool (consensused s0) = fmempty \<and>
     proposed_tx_pool_len_max s0 = 2000 \<and> proposed_and_consensused_tx_pool_len_max s0 = 4000 \<and>
     peer_id (raft_active s0) = 1"
  by (simp add: ComputeRaft_new_def demo_config_def ActiveRaft_new_def peers_len_def fmlen_def
      make_utxo_set_from_seed_def sorted_list_of_fmap_def sorted_list_of_fset.rep_eq
      compute_init_block_pipeline_status_def init_block_pipeline_status_def compute_with_unicorn_fixed_param_def
      with_partition_full_size_def with_peers_len_def ComputeConsensused_default_def with_unicorn_fixed_param_def
      MiningPipelineInfo_default_def BLOCK_SIZE_IN_TX_eq Let_def)

definition demo_txs :: TxMap where
  "demo_txs = fmupd ''x'' (demo_spend [] 3) fmempty"

lemma demo_txs_len: "fmlen demo_txs = 1"
  by (simp add: demo_txs_def fmlen_def)

lemma demo_take: "n \<noteq> 0 \<Longrightarrow> take_first_n n demo_txs = (demo_txs, fmempty)"
  by (simp add: take_first_n_def demo_txs_len)

lemma demo_propose_txs:
  assumes "in_flight s = in_flight_set_key_run RaftInFlightProposals_default 5"
    and "local_tx_pool s = demo_txs" and "tx_pool (consensused s) = fmempty" and "proposed_tx_pool_len s = 0"
    and "proposed_tx_pool_len_max s = 2000" and "proposed_and_consensused_tx_pool_len_max s = 4000"
  shows "\<exists>t. propose_local_transactions_at_timeout demo_rext now s = Some t \<and> proposed_tx_pool_len t = 1"
proof -
  have "item_serialize demo_rcodec (ItemTransactions demo_txs) = Some [9]"
    by (simp add: demo_rcodec_def demo_txs_item_def demo_txs_def)
  moreover have "demo_txs \<noteq> fmempty" using demo_txs_len by auto
  ultimately show ?thesis
    using assms
    by (simp add: propose_local_transactions_at_timeout_def set_next_propose_transactions_timeout_at_def
        proposed_and_consensused_tx_pool_len_def demo_take demo_txs_len propose_item_def Let_def
        in_flight_propose_item_def check_deduplication_def demo_rext_def in_flight_set_key_run_def
        demo_rcodec_def demo_codec_def)
qed

theorem tx_pool_accounting_witness:
  "\<exists>s t. compute_raft_reachable demo_rext demo_gext s \<and>
     propose_local_transactions_at_timeout demo_rext 60 s = Some t \<and>
     proposed_tx_pool_len t = 1 \<and>
     fmweight (pending_tx_len (codec demo_rext)) (proposed_in_flight (in_flight t)) = 1"
proof -
  obtain s0 where s0: "ComputeRaft_new demo_rext demo_gext 0 demo_config = Some s0"
    and f: "in_flight s0 = RaftInFlightProposals_default" "proposed_tx_pool_len s0 = 0"
      "local_tx_pool s0 = fmempty" "tx_pool (consensused s0) = fmempty"
      "proposed_tx_pool_len_max s0 = 2000" "proposed_and_consensused_tx_pool_len_max s0 = 4000"
    using demo_new by blast
  define s where "s = append_to_tx_pool (set_key_run s0 5) demo_txs"
  have r: "compute_raft_reachable demo_rext demo_gext s"
    unfolding s_def
    by (rule compute_raft_reachable.step [OF compute_raft_reachable.start [OF s0] compute_raft_step.tx_pool])
  obtain t where t: "propose_local_transactions_at_timeout demo_rext 60 s = Some t" "proposed_tx_pool_len t = 1"
    using demo_propose_txs [of s 60] f by (auto simp: s_def append_to_tx_pool_def set_key_run_def)
  have "proposed_last_id (in_flight s) + 1 \<noteq> 0"
    using f by (simp add: s_def append_to_tx_pool_def set_key_run_def in_flight_set_key_run_def
        RaftInFlightProposals_default_def)
  then have "compute_raft_reachable demo_rext demo_gext t"
    using r t(1) by (intro compute_raft_reachable.step [OF r] compute_raft_step.local_txs)
  from tx_pool_accounting [OF this demo_codec_inverts] t r show ?thesis by auto
qed

text \<open>C5: committed items move the block number one step at a time: the first block sets it to 0, a
  committed block adds one, and nothing else (a shutdown block, an outdated or foreign block, a
  transaction, a pipeline event) changes it; and the votes being counted are always votes for the
  current block.\<close>

theorem block_number_steps:
  assumes "votes_current (consensused s)" and "received_commit_proposal E now s data ctx = Some (t, c)"
  shows "votes_current (consensused t) \<and>
     (if c = Some CommittedFirstBlock then num_of s = None \<and> num_of t = Some 0
      else if c = Some CommittedBlock then \<exists>n. num_of s = Some n \<and> num_of t = Some (n + 1)
      else num_of t = num_of s)"
  by (rule received_proposal_number [OF assms])

theorem block_number_steps_witness:
  "\<exists>s t. received_commit_proposal demo_rext 0 s [9] [1, 5, 1] = Some (t, Some CommittedTransactions) \<and>
     num_of s = Some 4 \<and> num_of t = Some 4"
proof -
  obtain s0 where s0: "ComputeRaft_new demo_rext demo_gext 0 demo_config = Some s0" using demo_new by blast
  define s where "s = s0\<lparr>consensused := demo_cstate\<rparr>"
  have v: "votes_current (consensused s)"
    by (rule votes_current_empty) (simp add: s_def demo_cstate_def with_peers_len_def ComputeConsensused_default_def)
  have n: "num_of s = Some 4" by (simp add: s_def demo_cstate_def with_peers_len_def)
  obtain t where t: "received_commit_proposal demo_rext 0 s [9] [1, 5, 1] = Some (t, Some CommittedTransactions)"
    by (simp add: received_commit_proposal_def in_flight_received_commit_proposal_def demo_rext_def demo_rcodec_def
        demo_codec_def demo_txs_item_def Let_def)
  from block_number_steps [OF v t] n t show ?thesis by auto
qed

text \<open>Proposing local transactions at the timeout takes the first transactions of the local pool in hash
  order, loses none of them, takes no more than the proposal limit, and with them the transactions
  proposed or committed stay within their limit. The timeout is set again.\<close>

lemma local_transactions_bounded:
  assumes "propose_local_transactions_at_timeout E now s = Some t"
  shows "\<exists>txs. sorted_list_of_fmap txs = take (fmlen txs) (sorted_list_of_fmap (local_tx_pool s)) \<and>
     (\<forall>h. fmlookup (local_tx_pool s) h =
        (if h |\<in>| fmdom txs then fmlookup txs h else fmlookup (local_tx_pool t) h)) \<and>
     (\<forall>h. h |\<in>| fmdom txs \<longrightarrow> fmlookup (local_tx_pool t) h = None) \<and>
     fmlen txs \<le> proposed_tx_pool_len_max s \<and>
     proposed_tx_pool_len t = proposed_tx_pool_len s + fmlen txs \<and>
     (txs \<noteq> fmempty \<longrightarrow>
        proposed_and_consensused_tx_pool_len t \<le> proposed_and_consensused_tx_pool_len_max s) \<and>
     propose_transactions_timeout_at t = now + propose_transactions_timeout_duration s"
proof -
  define s1 where "s1 = set_next_propose_transactions_timeout_at now s"
  define n where "n = min (proposed_and_consensused_tx_pool_len_max s1
    - proposed_and_consensused_tx_pool_len s1) (proposed_tx_pool_len_max s1)"
  obtain txs rest where txs: "take_first_n n (local_tx_pool s1) = (txs, rest)"
    by (cases "take_first_n n (local_tx_pool s1)")
  have f: "consensused s1 = consensused s" "local_tx_pool s1 = local_tx_pool s"
    "proposed_tx_pool_len s1 = proposed_tx_pool_len s" "proposed_tx_pool_len_max s1 = proposed_tx_pool_len_max s"
    "proposed_and_consensused_tx_pool_len_max s1 = proposed_and_consensused_tx_pool_len_max s"
    "propose_transactions_timeout_at s1 = now + propose_transactions_timeout_duration s"
    by (simp_all add: s1_def set_next_propose_transactions_timeout_at_def)
  have t: "local_tx_pool t = rest \<and> consensused t = consensused s \<and>
      proposed_tx_pool_len t = proposed_tx_pool_len s + fmlen txs \<and>
      propose_transactions_timeout_at t = now + propose_transactions_timeout_duration s"
  proof (cases "txs = fmempty")
    case True
    then have "t = s1\<lparr>local_tx_pool := rest\<rparr>"
      using assms txs
      by (simp add: propose_local_transactions_at_timeout_def Let_def s1_def [symmetric] n_def [symmetric])
    then show ?thesis using True f by simp
  next
    case False
    then obtain k where "propose_item E (s1\<lparr>local_tx_pool := rest, proposed_tx_pool_len := proposed_tx_pool_len s1 + fmlen txs\<rparr>)
        (ItemTransactions txs) = Some (t, k)"
      using assms txs
      by (auto simp: propose_local_transactions_at_timeout_def Let_def s1_def [symmetric] n_def [symmetric])
    then show ?thesis using f by (auto simp: propose_item_def option_bind_Some_iff)
  qed
  have l: "fmlen txs \<le> n" using take_first_n_fst(2) [of n "local_tx_pool s1"] txs by simp
  have sorted: "sorted_list_of_fmap txs = take n (sorted_list_of_fmap (local_tx_pool s))"
    using take_first_n_spec(1) [of n "local_tx_pool s1"] txs f by simp
  then have "fmlen txs = min n (fmlen (local_tx_pool s))"
    by (metis length_sorted_list_of_fmap length_take min.commute)
  then have prefix: "sorted_list_of_fmap txs = take (fmlen txs) (sorted_list_of_fmap (local_tx_pool s))"
    using sorted by (simp add: min_def)
  have dom: "h |\<in>| fmdom txs \<longleftrightarrow> h \<in> set (take n (fmkeys (local_tx_pool s)))" for h
    using arg_cong [OF sorted, of "\<lambda>xs. set (map fst xs)"] set_fmkeys [of txs]
    by (simp add: fmkeys_def take_map)
  have rest: "fmlookup rest h = (if h |\<in>| fmdom txs then None else fmlookup (local_tx_pool s) h)" for h
    using take_first_n_spec(2) [of n "local_tx_pool s1" h] txs f dom by simp
  have sub: "h |\<in>| fmdom txs \<Longrightarrow> fmlookup txs h = fmlookup (local_tx_pool s) h" for h
    using take_first_n_fst(1) [of n "local_tx_pool s1"] txs f
    by (auto simp: fmsubset.rep_eq map_le_def fmdom.rep_eq)
  have "proposed_and_consensused_tx_pool_len t \<le> proposed_and_consensused_tx_pool_len_max s" if "txs \<noteq> fmempty"
  proof -
    have "0 < fmlen txs" using that fmlen_0_iff [of txs] by linarith
    then show ?thesis using l t f by (auto simp: proposed_and_consensused_tx_pool_len_def n_def)
  qed
  then show ?thesis
    using prefix rest sub t l f by (intro exI [of _ txs]) (auto simp: n_def)
qed

lemma local_transactions_bounded_demo:
  "\<exists>s t. propose_local_transactions_at_timeout demo_rext 60 s = Some t \<and>
     local_tx_pool s \<noteq> fmempty \<and> proposed_tx_pool_len t \<le> proposed_tx_pool_len s + proposed_tx_pool_len_max s"
proof -
  obtain s0 where "ComputeRaft_new demo_rext demo_gext 0 demo_config = Some s0"
    and f: "in_flight s0 = RaftInFlightProposals_default" "proposed_tx_pool_len s0 = 0"
      "local_tx_pool s0 = fmempty" "tx_pool (consensused s0) = fmempty"
      "proposed_tx_pool_len_max s0 = 2000" "proposed_and_consensused_tx_pool_len_max s0 = 4000"
    using demo_new by blast
  define s where "s = append_to_tx_pool (set_key_run s0 5) demo_txs"
  obtain t where t: "propose_local_transactions_at_timeout demo_rext 60 s = Some t"
    using demo_propose_txs [of s 60] f by (auto simp: s_def append_to_tx_pool_def set_key_run_def)
  have "local_tx_pool s \<noteq> fmempty"
    using f demo_txs_len by (auto simp: s_def append_to_tx_pool_def set_key_run_def)
  with local_transactions_bounded [OF t] t show ?thesis by fastforce
qed

end
