(* ===== verification/Storage_Keys.thy ===== *)
theory Storage_Keys
  imports Interfaces
begin

text \<open>
  The keys and columns of the storage node's database (\<^verbatim>\<open>src/storage.rs\<close> and
  \<^verbatim>\<open>src/constants.rs\<close>): the column families, the keys under which a block and a transaction
  are indexed by number, and the version pointers that lead from a key to the column that holds
  its value. The lemmas show that the indexed keys are injective and that a version pointer decodes to
  what it was built from.
\<close>

section \<open>Model\<close>

definition DB_COL_INTERNAL :: string where
  "DB_COL_INTERNAL = ''internal''"

definition DB_COL_BC_ALL :: string where
  "DB_COL_BC_ALL = ''block_chain_all''"

definition DB_COL_BC_NAMED :: string where
  "DB_COL_BC_NAMED = ''block_chain_named''"

definition DB_COL_BC_META :: string where
  "DB_COL_BC_META = ''block_chain_meta''"

definition DB_COL_BC_JSON :: string where
  "DB_COL_BC_JSON = ''block_chain_json''"

definition DB_COL_BC_NOW :: string where
  "DB_COL_BC_NOW = ''block_chain_v0.7.0''"

definition DB_COL_BC_V0_6_0 :: string where
  "DB_COL_BC_V0_6_0 = ''block_chain_v0.6.0''"

definition DB_COL_BC_V0_5_0 :: string where
  "DB_COL_BC_V0_5_0 = ''block_chain_v0.5.0''"

definition DB_COL_BC_V0_4_0 :: string where
  "DB_COL_BC_V0_4_0 = ''block_chain_v0.4.0''"

definition DB_COL_BC_V0_3_0 :: string where
  "DB_COL_BC_V0_3_0 = ''block_chain_v0.3.0''"

definition DB_COL_BC_V0_2_0 :: string where
  "DB_COL_BC_V0_2_0 = ''block_chain_v0.2.0''"

definition DB_COLS_BC :: "(string \<times> u32) list" where
  "DB_COLS_BC =
     [(DB_COL_BC_NOW, 5), (DB_COL_BC_V0_6_0, 4), (DB_COL_BC_V0_5_0, 3), (DB_COL_BC_V0_4_0, 2),
      (DB_COL_BC_V0_3_0, 1), (DB_COL_BC_V0_2_0, 0)]"

text \<open>The columns of \<open>DB_SPEC\<close>.\<close>

definition DB_SPEC_columns :: "string list" where
  "DB_SPEC_columns =
     [DB_COL_INTERNAL, DB_COL_BC_ALL, DB_COL_BC_NAMED, DB_COL_BC_META, DB_COL_BC_JSON,
      DB_COL_BC_NOW, DB_COL_BC_V0_6_0, DB_COL_BC_V0_5_0, DB_COL_BC_V0_4_0, DB_COL_BC_V0_3_0,
      DB_COL_BC_V0_2_0]"

definition DB_POINTER_SEPARATOR :: u8 where
  "DB_POINTER_SEPARATOR = of_char CHR '':''"

definition NAMED_CONSTANT_PREPEND :: u8 where
  "NAMED_CONSTANT_PREPEND = of_char CHR ''n''"

definition LAST_BLOCK_HASH_KEY :: string where
  "LAST_BLOCK_HASH_KEY = ''nLastBlockHashKey''"

definition INDEXED_BLOCK_HASH_PREFIX_KEY :: string where
  "INDEXED_BLOCK_HASH_PREFIX_KEY = ''nIndexedBlockHashKey_''"

definition INDEXED_TX_HASH_PREFIX_KEY :: string where
  "INDEXED_TX_HASH_PREFIX_KEY = ''nIndexedTxHashKey_''"

definition RAFT_KEY_RUN :: string where
  "RAFT_KEY_RUN = ''RaftKeyRun''"

definition LAST_CONTIGUOUS_BLOCK_KEY :: string where
  "LAST_CONTIGUOUS_BLOCK_KEY = ''LastContiguousBlockKey''"

text \<open>
  The format \<open>{:0wx}\<close>: lower-case hexadecimal, padded with zeros to \<open>w\<close> digits. The sources
  use it with \<open>w\<close> = 16 on a \<open>u64\<close> and \<open>w\<close> = 8 on a \<open>u32\<close>, which never need more digits.
\<close>

definition hex_digit :: "nat \<Rightarrow> char" where
  "hex_digit d = ''0123456789abcdef'' ! d"

fun hex_pad :: "nat \<Rightarrow> nat \<Rightarrow> string" where
  "hex_pad 0 n = []"
| "hex_pad (Suc w) n = hex_pad w (n div 16) @ [hex_digit (n mod 16)]"

definition indexed_block_hash_key :: "u64 \<Rightarrow> string" where
  "indexed_block_hash_key b = INDEXED_BLOCK_HASH_PREFIX_KEY @ hex_pad 16 (unat b)"

definition indexed_tx_hash_key :: "u64 \<Rightarrow> u32 \<Rightarrow> string" where
  "indexed_tx_hash_key b tx_num =
     INDEXED_TX_HASH_PREFIX_KEY @ hex_pad 16 (unat b) @ ''_'' @ hex_pad 8 (unat tx_num)"

text \<open>The key under which an item is indexed, in \<open>put_to_block_chain_at\<close>.\<close>

fun meta_key :: "BlockchainItemMeta \<Rightarrow> string" where
  "meta_key (BlockMeta b _) = indexed_block_hash_key b"
| "meta_key (TxMeta b tx_num) = indexed_tx_hash_key b tx_num"

definition version_pointer :: "string \<Rightarrow> bytes \<Rightarrow> bytes" where
  "version_pointer cf key = as_bytes cf @ [DB_POINTER_SEPARATOR] @ key"

text \<open>
  \<open>split\<close> on the separator: the first two pieces. The column must be one of the blockchain
  columns, and there must be a separator; otherwise an \<open>unwrap\<close> fails.
\<close>

definition decode_version_pointer :: "bytes \<Rightarrow> (u32 \<times> string \<times> bytes) may_panic" where
  "decode_version_pointer pointer =
     (let cf = takeWhile (\<lambda>c. c \<noteq> DB_POINTER_SEPARATOR) pointer;
          rest = dropWhile (\<lambda>c. c \<noteq> DB_POINTER_SEPARATOR) pointer
      in do {
        (cf, version) \<leftarrow> find (\<lambda>(v, _). as_bytes v = cf) DB_COLS_BC;
        key \<leftarrow> (case rest of [] \<Rightarrow> None | _ # r \<Rightarrow> Some (takeWhile (\<lambda>c. c \<noteq> DB_POINTER_SEPARATOR) r));
        Some (version, cf, key) })"

section \<open>Indexed keys\<close>

lemma hex_digit_inject:
  assumes "a < 16" "b < 16" "hex_digit a = hex_digit b"
  shows "a = b"
proof -
  have "distinct ''0123456789abcdef''" by simp
  then show ?thesis using assms unfolding hex_digit_def by (subst (asm) nth_eq_iff_index_eq) auto
qed

lemma length_hex_pad [simp]: "length (hex_pad w n) = w"
  by (induction w arbitrary: n) auto

lemma hex_pad_inject:
  "a < 16 ^ w \<Longrightarrow> b < 16 ^ w \<Longrightarrow> hex_pad w a = hex_pad w b \<longleftrightarrow> a = b"
proof (induction w arbitrary: a b)
  case (Suc w)
  have "a div 16 < 16 ^ w" "b div 16 < 16 ^ w" using Suc.prems by (auto simp: div_less_iff_less_mult mult.commute)
  note IH = Suc.IH [OF this]
  show ?case
  proof
    assume "hex_pad (Suc w) a = hex_pad (Suc w) b"
    then have "a div 16 = b div 16" and "hex_digit (a mod 16) = hex_digit (b mod 16)" using IH by auto
    moreover from this(2) have "a mod 16 = b mod 16" by (intro hex_digit_inject) auto
    ultimately show "a = b" by (metis div_mult_mod_eq)
  qed simp
qed simp

lemma hex_pad_u64_inject [simp]: "hex_pad 16 (unat (a :: u64)) = hex_pad 16 (unat b) \<longleftrightarrow> a = b"
  using unsigned_less [of a, where 'a = nat] unsigned_less [of b, where 'a = nat]
  by (subst hex_pad_inject) (simp_all add: word_unat_eq_iff)

lemma hex_pad_u32_inject [simp]: "hex_pad 8 (unat (a :: u32)) = hex_pad 8 (unat b) \<longleftrightarrow> a = b"
  using unsigned_less [of a, where 'a = nat] unsigned_less [of b, where 'a = nat]
  by (subst hex_pad_inject) (simp_all add: word_unat_eq_iff)

lemma indexed_block_hash_key_inject [simp]:
  "indexed_block_hash_key a = indexed_block_hash_key b \<longleftrightarrow> a = b"
  by (simp add: indexed_block_hash_key_def)

lemma indexed_tx_hash_key_inject [simp]:
  "indexed_tx_hash_key a i = indexed_tx_hash_key b j \<longleftrightarrow> a = b \<and> i = j"
  by (simp add: indexed_tx_hash_key_def)

lemma indexed_keys_distinct [simp]:
  "indexed_block_hash_key a \<noteq> indexed_tx_hash_key b i"
  "indexed_tx_hash_key b i \<noteq> indexed_block_hash_key a"
  "indexed_block_hash_key a \<noteq> LAST_BLOCK_HASH_KEY"
  "indexed_tx_hash_key b i \<noteq> LAST_BLOCK_HASH_KEY"
  "LAST_BLOCK_HASH_KEY \<noteq> indexed_block_hash_key a"
  "LAST_BLOCK_HASH_KEY \<noteq> indexed_tx_hash_key b i"
  by (simp_all add: indexed_block_hash_key_def indexed_tx_hash_key_def INDEXED_BLOCK_HASH_PREFIX_KEY_def
      INDEXED_TX_HASH_PREFIX_KEY_def LAST_BLOCK_HASH_KEY_def)

lemma hd_named_keys:
  "as_bytes (indexed_block_hash_key b) = NAMED_CONSTANT_PREPEND # tl (as_bytes (indexed_block_hash_key b))"
  "as_bytes (indexed_tx_hash_key b i) = NAMED_CONSTANT_PREPEND # tl (as_bytes (indexed_tx_hash_key b i))"
  "as_bytes LAST_BLOCK_HASH_KEY = NAMED_CONSTANT_PREPEND # tl (as_bytes LAST_BLOCK_HASH_KEY)"
  by (simp_all add: indexed_block_hash_key_def indexed_tx_hash_key_def INDEXED_BLOCK_HASH_PREFIX_KEY_def
      INDEXED_TX_HASH_PREFIX_KEY_def LAST_BLOCK_HASH_KEY_def as_bytes_def NAMED_CONSTANT_PREPEND_def)

section \<open>Version pointers\<close>

lemmas column_names = DB_COL_INTERNAL_def DB_COL_BC_ALL_def DB_COL_BC_NAMED_def DB_COL_BC_META_def
  DB_COL_BC_JSON_def DB_COL_BC_NOW_def DB_COL_BC_V0_6_0_def DB_COL_BC_V0_5_0_def DB_COL_BC_V0_4_0_def
  DB_COL_BC_V0_3_0_def DB_COL_BC_V0_2_0_def

lemma distinct_DB_SPEC_columns: "distinct DB_SPEC_columns"
  by (simp add: DB_SPEC_columns_def column_names)

lemma blockchain_columns_in_spec: "(cf, v) \<in> set DB_COLS_BC \<Longrightarrow> cf \<in> set DB_SPEC_columns"
  by (auto simp: DB_COLS_BC_def DB_SPEC_columns_def)

lemma no_separator_in_columns: "(cf, v) \<in> set DB_COLS_BC \<Longrightarrow> DB_POINTER_SEPARATOR \<notin> set (as_bytes cf)"
  unfolding DB_POINTER_SEPARATOR_def of_char_in_as_bytes by (auto simp: DB_COLS_BC_def column_names)

lemma find_blockchain_column:
  assumes "(cf, v) \<in> set DB_COLS_BC"
  shows "find (\<lambda>(c, _). c = cf) DB_COLS_BC = Some (cf, v)"
  using assms by (auto simp: DB_COLS_BC_def column_names)

text \<open>
  A version pointer decodes to its column with the version of the column, and to its key up to the
  first separator in it.
\<close>

lemma decode_version_pointer_general:
  assumes "(cf, v) \<in> set DB_COLS_BC"
  shows "decode_version_pointer (version_pointer cf key) =
    Some (v, cf, takeWhile (\<lambda>c. c \<noteq> DB_POINTER_SEPARATOR) key)"
proof -
  have n: "c \<noteq> DB_POINTER_SEPARATOR" if "c \<in> set (as_bytes cf)" for c
    using no_separator_in_columns [OF assms] that by auto
  have "takeWhile (\<lambda>c. c \<noteq> DB_POINTER_SEPARATOR) (version_pointer cf key) = as_bytes cf"
    unfolding version_pointer_def using n by (subst takeWhile_append2) auto
  moreover have "dropWhile (\<lambda>c. c \<noteq> DB_POINTER_SEPARATOR) (version_pointer cf key) = DB_POINTER_SEPARATOR # key"
    unfolding version_pointer_def using n by (subst dropWhile_append2) auto
  ultimately show ?thesis
    unfolding decode_version_pointer_def Let_def by (simp add: find_blockchain_column [OF assms])
qed

lemma decode_version_pointer_roundtrip:
  assumes "(cf, v) \<in> set DB_COLS_BC" and "DB_POINTER_SEPARATOR \<notin> set key"
  shows "decode_version_pointer (version_pointer cf key) = Some (v, cf, key)"
proof -
  have "takeWhile (\<lambda>c. c \<noteq> DB_POINTER_SEPARATOR) key = key"
    using assms(2) by (auto simp: takeWhile_eq_all_conv)
  then show ?thesis using decode_version_pointer_general [OF assms(1)] by simp
qed

lemma decode_version_pointer_None_iff:
  "decode_version_pointer p = None \<longleftrightarrow>
     DB_POINTER_SEPARATOR \<notin> set p \<or>
     takeWhile (\<lambda>c. c \<noteq> DB_POINTER_SEPARATOR) p \<notin> as_bytes ` fst ` set DB_COLS_BC"
proof -
  let ?cf = "takeWhile (\<lambda>c. c \<noteq> DB_POINTER_SEPARATOR) p"
  have 1: "find (\<lambda>(v, _). as_bytes v = ?cf) DB_COLS_BC = None \<longleftrightarrow> ?cf \<notin> as_bytes ` fst ` set DB_COLS_BC"
    by (force simp: find_None_iff)
  have 2: "DB_POINTER_SEPARATOR \<notin> set p \<longleftrightarrow> dropWhile (\<lambda>c. c \<noteq> DB_POINTER_SEPARATOR) p = []"
    by (auto simp: dropWhile_eq_Nil_conv)
  show ?thesis
    unfolding decode_version_pointer_def Let_def 1 [symmetric] 2
    by (cases "find (\<lambda>(v, _). as_bytes v = ?cf) DB_COLS_BC";
        cases "dropWhile (\<lambda>c. c \<noteq> DB_POINTER_SEPARATOR) p") (simp_all add: case_prod_unfold del: dropWhile_eq_Nil_conv)
qed

text \<open>The keys of the blockchain database are unambiguous. The index of a block number and the
  index of a transaction number of a block are different keys for different numbers, and no such
  key is the key of the last block. A version pointer built for a blockchain column and a key
  decodes to that column, its version and the key, cut at the first separator: to the key itself
  exactly when it holds no separator. A pointer whose column is not a blockchain column, or without
  separator, makes the decoding panic.\<close>

lemma storage_keys_unambiguous:
  assumes "(cf, v) \<in> set DB_COLS_BC"
  shows "(indexed_block_hash_key a = indexed_block_hash_key b \<longleftrightarrow> a = b) \<and>
    (indexed_tx_hash_key a i = indexed_tx_hash_key b j \<longleftrightarrow> a = b \<and> i = j) \<and>
    indexed_block_hash_key a \<noteq> indexed_tx_hash_key b i \<and>
    LAST_BLOCK_HASH_KEY \<notin> {indexed_block_hash_key a, indexed_tx_hash_key b i} \<and>
    decode_version_pointer (version_pointer cf key) =
      Some (v, cf, takeWhile (\<lambda>c. c \<noteq> DB_POINTER_SEPARATOR) key) \<and>
    (decode_version_pointer (version_pointer cf key) = Some (v, cf, key) \<longleftrightarrow>
      DB_POINTER_SEPARATOR \<notin> set key) \<and>
    (decode_version_pointer p = None \<longleftrightarrow>
      DB_POINTER_SEPARATOR \<notin> set p \<or>
      takeWhile (\<lambda>c. c \<noteq> DB_POINTER_SEPARATOR) p \<notin> as_bytes ` fst ` set DB_COLS_BC)"
  using decode_version_pointer_general [OF assms, of key] decode_version_pointer_None_iff [of p]
  by (auto simp: takeWhile_eq_all_conv)

lemma storage_keys_unambiguous_demo:
  "indexed_block_hash_key 18 = ''nIndexedBlockHashKey_0000000000000012'' \<and>
   indexed_tx_hash_key 18 255 = ''nIndexedTxHashKey_0000000000000012_000000ff'' \<and>
   indexed_block_hash_key 18 \<noteq> indexed_tx_hash_key 18 255 \<and>
   decode_version_pointer (version_pointer DB_COL_BC_V0_6_0 (as_bytes ''g1:2'')) =
     Some (4, DB_COL_BC_V0_6_0, as_bytes ''g1'')"
proof -
  have "(DB_COL_BC_V0_6_0, 4) \<in> set DB_COLS_BC" by (simp add: DB_COLS_BC_def)
  note t = storage_keys_unambiguous [OF this, where a = 18 and b = 18 and i = 255 and key = "as_bytes ''g1:2''"]
  have "takeWhile (\<lambda>c. c \<noteq> DB_POINTER_SEPARATOR) (as_bytes ''g1:2'') = as_bytes ''g1''"
    by (simp add: as_bytes_def DB_POINTER_SEPARATOR_def)
  moreover have "indexed_block_hash_key 18 = ''nIndexedBlockHashKey_0000000000000012''"
    "indexed_tx_hash_key 18 255 = ''nIndexedTxHashKey_0000000000000012_000000ff''" by code_simp+
  ultimately show ?thesis using t by simp
qed

end
