(* ===== verification/Storage_Fetch.thy ===== *)
theory Storage_Fetch
  imports Storage_Keys "HOL-Library.Sublist"
begin

text \<open>
  The catch-up of a storage node that misses blocks (\<^verbatim>\<open>src/storage_fetch.rs\<close>). \<open>FetchReceive\<close>
  downloads the blocks from a start to a target number, each as its block item followed by its
  transaction items in order; \<open>StorageFetch\<close> adds the peers to ask and the last block up to which
  the history is complete. Time is an argument (\<open>now\<close>, in milliseconds).

  The locale \<open>ordered_download\<close> states what a client relies on: only complete blocks are handed
  out, and their numbers are consecutive. It is interpreted on both components. The liveness
  theorem bounds the number of requests after which a download completes although peers may not
  have an item.
\<close>

section \<open>Model\<close>

type_synonym FetchedBlockChain = "u64 \<times> BlockchainItem list"

datatype FetchStatus = Contiguous u64 | NotContiguous u64

text \<open>\<open>WaitTxs b lo hi\<close> waits for the transactions of the range \<open>lo..hi\<close>.\<close>

datatype FetchReceiveState = NoWait | WaitBlock u64 | WaitTxs u64 u32 u32 | DoneBlock u64

fun get_key :: "FetchReceiveState \<Rightarrow> string option" where
  "get_key (WaitBlock b) = Some (indexed_block_hash_key b)"
| "get_key (WaitTxs b lo hi) = (if lo < hi then Some (indexed_tx_hash_key b lo) else None)"
| "get_key NoWait = None"
| "get_key (DoneBlock _) = None"

record FetchReceive =
  target_b_num :: u64
  fetch_state :: FetchReceiveState
  timeout_at :: "nat \<times> bool"
  blockchain_items :: "BlockchainItem list"

definition new_block_fetch :: "nat \<Rightarrow> u64 \<Rightarrow> u64 \<Rightarrow> FetchReceive" where
  "new_block_fetch now start_b_num target =
     \<lparr>target_b_num = target, fetch_state = WaitBlock start_b_num, timeout_at = (now, False),
      blockchain_items = []\<rparr>"

definition receive_increase_running_target :: "u64 \<Rightarrow> FetchReceive \<Rightarrow> FetchReceive" where
  "receive_increase_running_target b self = self\<lparr>target_b_num := max (target_b_num self) b\<rparr>"

text \<open>The \<open>match\<close> on the item and the state; \<open>Range::len\<close> is \<open>hi - lo\<close>, or 0 when it is empty.\<close>

fun next_receive_state :: "BlockchainItemMeta \<Rightarrow> FetchReceiveState \<Rightarrow> FetchReceiveState option" where
  "next_receive_state (BlockMeta block tx_len) (WaitBlock b) =
     (if block = b
      then if 0 < tx_len then Some (WaitTxs b 0 tx_len) else Some (DoneBlock b)
      else None)"
| "next_receive_state (TxMeta block tx_num) (WaitTxs b lo hi) =
     (if block = b \<and> tx_num = lo
      then if 1 < unat hi - unat lo then Some (WaitTxs b (lo + 1) hi) else Some (DoneBlock b)
      else None)"
| "next_receive_state _ _ = None"

definition take_done_block :: "FetchReceive \<Rightarrow> FetchReceive \<times> FetchedBlockChain option" where
  "take_done_block self =
     (case fetch_state self of
        DoneBlock b \<Rightarrow>
          (self\<lparr>fetch_state := if b < target_b_num self then WaitBlock (b + 1) else NoWait,
                blockchain_items := []\<rparr>,
           Some (b, blockchain_items self))
      | _ \<Rightarrow> (self, None))"

definition fetch_receive_blockchain_items ::
    "BlockchainItem \<Rightarrow> FetchReceive \<Rightarrow> FetchReceive \<times> FetchedBlockChain option" where
  "fetch_receive_blockchain_items item self =
     take_done_block
       (case next_receive_state (item_meta item) (fetch_state self) of
          Some new_state \<Rightarrow>
            self\<lparr>blockchain_items := blockchain_items self @ [item], fetch_state := new_state\<rparr>
        | None \<Rightarrow> self)"

definition fetch_receive_is_complete :: "FetchReceive \<Rightarrow> bool" where
  "fetch_receive_is_complete self \<longleftrightarrow> fetch_state self = NoWait"

text \<open>The configuration entries the storage node reads.\<close>

record StorageNodeConfig =
  storage_node_idx :: nat
  storage_nodes_config :: "SocketAddr list"
  storage_compute_nodes :: "SocketAddr list"
  storage_raft :: nat
  storage_catchup_duration :: nat
  storage_backup_block_modulo :: "u64 option"

record StorageFetch =
  timeout_duration :: nat
  storage_nodes :: "SocketAddr list"
  fetch_peer_idx :: nat
  last_contiguous_block_num :: "u64 option"
  to_receive :: "FetchReceive option"

definition StorageFetch_new :: "StorageNodeConfig \<Rightarrow> SocketAddr \<Rightarrow> StorageFetch" where
  "StorageFetch_new config addr =
     \<lparr>timeout_duration = storage_catchup_duration config,
      storage_nodes = filter (\<lambda>a. a \<noteq> addr) (storage_nodes_config config),
      fetch_peer_idx = 0, last_contiguous_block_num = None, to_receive = None\<rparr>"

definition set_initial_last_contiguous_block_key :: "u64 option \<Rightarrow> StorageFetch \<Rightarrow> StorageFetch" where
  "set_initial_last_contiguous_block_key last_num self =
     self\<lparr>last_contiguous_block_num := last_num\<rparr>"

definition increase_running_target :: "u64 \<Rightarrow> StorageFetch \<Rightarrow> StorageFetch" where
  "increase_running_target block self =
     self\<lparr>to_receive := map_option (receive_increase_running_target block) (to_receive self)\<rparr>"

text \<open>\<open>Some(block_num) <= self.last_contiguous_block_num\<close>, where \<open>None\<close> is the least option.\<close>

definition is_up_to_date :: "u64 \<Rightarrow> StorageFetch \<Rightarrow> bool" where
  "is_up_to_date block self \<longleftrightarrow>
     (case last_contiguous_block_num self of None \<Rightarrow> False | Some last_num \<Rightarrow> block \<le> last_num)"

definition next_contiguous :: "StorageFetch \<Rightarrow> u64" where
  "next_contiguous self = (case last_contiguous_block_num self of None \<Rightarrow> 0 | Some v \<Rightarrow> v + 1)"

definition fetch_missing_blockchain_items :: "nat \<Rightarrow> u64 \<Rightarrow> StorageFetch \<Rightarrow> StorageFetch \<times> bool" where
  "fetch_missing_blockchain_items now block self =
     (if to_receive self \<noteq> None then (increase_running_target block self, False)
      else if is_up_to_date block self then (self, False)
      else (self\<lparr>to_receive := Some (new_block_fetch now (next_contiguous self) block)\<rparr>, True))"

text \<open>\<open>timeout_fetch_blockchain_item\<close>: whether and until when to wait.\<close>

definition timeout_fetch_at :: "StorageFetch \<Rightarrow> nat option" where
  "timeout_fetch_at self = map_option (\<lambda>r. fst (timeout_at r)) (to_receive self)"

definition set_retry_timeout :: "nat \<Rightarrow> StorageFetch \<Rightarrow> StorageFetch \<times> bool" where
  "set_retry_timeout now self =
     (case to_receive self of
        Some r \<Rightarrow>
          (self\<lparr>to_receive := Some (r\<lparr>timeout_at := (now + timeout_duration self, True)\<rparr>)\<rparr>,
           snd (timeout_at r))
      | None \<Rightarrow> (self, False))"

definition set_first_timeout :: "nat \<Rightarrow> StorageFetch \<Rightarrow> StorageFetch" where
  "set_first_timeout now self =
     self\<lparr>to_receive := map_option (\<lambda>r. r\<lparr>timeout_at := (now, False)\<rparr>) (to_receive self)\<rparr>"

definition get_fetch_peer_and_key :: "StorageFetch \<Rightarrow> (SocketAddr \<times> string) option" where
  "get_fetch_peer_and_key self =
     do { key \<leftarrow> Option.bind (to_receive self) (\<lambda>r. get_key (fetch_state r));
          peer \<leftarrow> (if fetch_peer_idx self < length (storage_nodes self)
                   then Some (storage_nodes self ! fetch_peer_idx self) else None);
          Some (peer, key) }"

definition change_to_next_fetch_peer :: "StorageFetch \<Rightarrow> StorageFetch" where
  "change_to_next_fetch_peer self =
     (let nxt = fetch_peer_idx self + 1
      in self\<lparr>fetch_peer_idx := if nxt < length (storage_nodes self) then nxt else 0\<rparr>)"

definition fetch_is_complete :: "StorageFetch \<Rightarrow> bool" where
  "fetch_is_complete self \<longleftrightarrow> to_receive self = None"

definition receive_blockchain_items ::
    "string \<Rightarrow> BlockchainItem \<Rightarrow> StorageFetch \<Rightarrow> StorageFetch \<times> FetchedBlockChain option" where
  "receive_blockchain_items key item self =
     (if \<not> fetch_is_complete self \<and> blockchain_item_is_empty item
      then (change_to_next_fetch_peer self, None)
      else case to_receive self of
        Some r \<Rightarrow>
          let (r', block) = fetch_receive_blockchain_items item r
          in (self\<lparr>to_receive := if fetch_receive_is_complete r' then None else Some r'\<rparr>, block)
      | None \<Rightarrow> (self, None))"

definition check_contiguous_block_num :: "u64 \<Rightarrow> StorageFetch \<Rightarrow> FetchStatus" where
  "check_contiguous_block_num block self =
     (if block = next_contiguous self then Contiguous block else NotContiguous block)"

fun update_contiguous_block_num :: "FetchStatus \<Rightarrow> StorageFetch \<Rightarrow> StorageFetch" where
  "update_contiguous_block_num (Contiguous block) self = self\<lparr>last_contiguous_block_num := Some block\<rparr>"
| "update_contiguous_block_num (NotContiguous _) self = self"

section \<open>Complete blocks\<close>

text \<open>The items of a block: its block item, then its transactions in order.\<close>

definition block_metas :: "u64 \<Rightarrow> u32 \<Rightarrow> nat \<Rightarrow> BlockchainItemMeta list" where
  "block_metas b tx_len n = BlockMeta b tx_len # map (\<lambda>i. TxMeta b (of_nat i)) [0..<n]"

definition complete_block :: "FetchedBlockChain \<Rightarrow> bool" where
  "complete_block = (\<lambda>(b, items). \<exists>tx_len. map item_meta items = block_metas b tx_len (unat tx_len))"

text \<open>The invariant of a download, and of the catch-up state.\<close>

fun partial_block :: "FetchReceiveState \<Rightarrow> BlockchainItem list \<Rightarrow> bool" where
  "partial_block NoWait items \<longleftrightarrow> items = []"
| "partial_block (WaitBlock b) items \<longleftrightarrow> items = []"
| "partial_block (WaitTxs b lo hi) items \<longleftrightarrow> lo < hi \<and> map item_meta items = block_metas b hi (unat lo)"
| "partial_block (DoneBlock b) items \<longleftrightarrow> complete_block (b, items)"

fun awaited :: "FetchReceiveState \<Rightarrow> u64 option" where
  "awaited NoWait = None"
| "awaited (WaitBlock b) = Some b"
| "awaited (WaitTxs b _ _) = Some b"
| "awaited (DoneBlock b) = Some b"

definition fetch_receive_inv :: "FetchReceive \<Rightarrow> bool" where
  "fetch_receive_inv r \<longleftrightarrow>
     partial_block (fetch_state r) (blockchain_items r) \<and>
     (\<forall>b. fetch_state r \<noteq> DoneBlock b) \<and>
     (\<forall>b. awaited (fetch_state r) = Some b \<longrightarrow> b \<le> target_b_num r)"

definition storage_fetch_inv :: "StorageFetch \<Rightarrow> bool" where
  "storage_fetch_inv s \<longleftrightarrow>
     (fetch_peer_idx s < length (storage_nodes s) \<or> fetch_peer_idx s = 0) \<and>
     (\<forall>r. to_receive s = Some r \<longrightarrow> fetch_receive_inv r \<and> \<not> fetch_receive_is_complete r)"

definition awaited_block :: "StorageFetch \<Rightarrow> u64 option" where
  "awaited_block s = Option.bind (to_receive s) (\<lambda>r. awaited (fetch_state r))"

definition download_target :: "StorageFetch \<Rightarrow> u64" where
  "download_target s = (case to_receive s of None \<Rightarrow> 0 | Some r \<Rightarrow> target_b_num r)"

lemma block_metas_snoc: "block_metas b hi n @ [TxMeta b (of_nat n)] = block_metas b hi (Suc n)"
  by (simp add: block_metas_def)

lemma length_block_metas [simp]: "length (block_metas b hi n) = Suc n"
  by (simp add: block_metas_def)

lemma unat_Suc_below:
  fixes lo hi :: u32
  assumes "lo < hi"
  shows "unat (lo + 1) = Suc (unat lo)" and "lo + 1 \<le> hi"
proof -
  have "unat lo < unat hi" using assms by (simp add: word_less_nat_alt)
  moreover have "unat hi < 2 ^ 32" using unsigned_less [of hi, where 'a = nat] by simp
  ultimately show "unat (lo + 1) = Suc (unat lo)" by (subst unat_word_ariths) simp
  then show "lo + 1 \<le> hi" using \<open>unat lo < unat hi\<close> by (simp add: word_le_nat_alt)
qed

text \<open>One accepted item extends the partial block.\<close>

lemma next_receive_state_partial:
  assumes "next_receive_state (item_meta item) st = Some st'" and "partial_block st items"
  shows "partial_block st' (items @ [item]) \<and> awaited st' = awaited st \<and> st' \<noteq> NoWait"
  using assms
proof (cases "(item_meta item, st)" rule: next_receive_state.cases)
  case (1 block tx_len b)
  with assms show ?thesis
    by (auto simp: complete_block_def block_metas_def word_gt_0 split: if_splits)
next
  case (2 block tx_num b lo hi)
  then have lo: "lo < hi" and m: "map item_meta items = block_metas b hi (unat lo)"
    and eq: "block = b" "tx_num = lo"
    using assms by (auto split: if_splits)
  have n: "unat (lo + 1) = Suc (unat lo)" using lo by (rule unat_Suc_below)
  have ext: "map item_meta (items @ [item]) = block_metas b hi (Suc (unat lo))"
    using 2 m eq by (simp flip: block_metas_snoc)
  show ?thesis
  proof (cases "1 < unat hi - unat lo")
    case True
    then have "lo + 1 < hi" using n by (simp add: word_less_nat_alt)
    then show ?thesis using 2 assms True ext n eq by auto
  next
    case False
    then have "unat hi = Suc (unat lo)" using lo by (simp add: word_less_nat_alt)
    then have "complete_block (b, items @ [item])" using ext unfolding complete_block_def by (auto intro!: exI [of _ hi])
    then show ?thesis using 2 assms False eq by auto
  qed
qed auto

section \<open>Ordered downloads\<close>

text \<open>Feeding a list of items to a receiver, collecting what it hands out.\<close>

fun collect :: "('i \<Rightarrow> 's \<Rightarrow> 's \<times> 'o option) \<Rightarrow> 'i list \<Rightarrow> 's \<Rightarrow> 's \<times> 'o list" where
  "collect recv [] s = (s, [])"
| "collect recv (i # is) s =
     (let (t, out) = recv i s; (u, outs) = collect recv is t
      in (u, (case out of None \<Rightarrow> outs | Some x \<Rightarrow> x # outs)))"

definition blocks_after :: "u64 \<Rightarrow> u64 \<Rightarrow> nat" where
  "blocks_after start target = Suc (unat target - unat start)"

locale ordered_download =
  fixes ok :: "'s \<Rightarrow> bool"
    and expected :: "'s \<Rightarrow> u64 option"
    and target :: "'s \<Rightarrow> u64"
    and pending :: "'s \<Rightarrow> BlockchainItem list"
    and recv :: "BlockchainItem \<Rightarrow> 's \<Rightarrow> 's \<times> FetchedBlockChain option"
  assumes ok_recv: "ok s \<Longrightarrow> recv item s = (t, out) \<Longrightarrow> ok t"
    and expected_le: "ok s \<Longrightarrow> expected s = Some b \<Longrightarrow> b \<le> target s"
    and silent: "ok s \<Longrightarrow> recv item s = (t, None) \<Longrightarrow>
      expected t = expected s \<and> target t = target s \<and> pending t \<in> {pending s, pending s @ [item]}"
    and emits: "ok s \<Longrightarrow> recv item s = (t, Some blk) \<Longrightarrow>
      expected s = Some (fst blk) \<and> complete_block blk \<and> snd blk = pending s @ [item] \<and> pending t = [] \<and>
      (if fst blk < target s then expected t = Some (fst blk + 1) \<and> target t = target s
       else expected t = None)"
begin

lemma collect_ok: "ok s \<Longrightarrow> collect recv items s = (t, outs) \<Longrightarrow> ok t"
  by (induction items arbitrary: s t outs) (auto split: prod.splits dest: ok_recv)

lemma collect_done: "ok s \<Longrightarrow> expected s = None \<Longrightarrow> collect recv items s = (t, outs) \<Longrightarrow> outs = [] \<and> expected t = None"
proof (induction items arbitrary: s t outs)
  case (Cons i items)
  obtain u out outs' where 1: "recv i s = (u, out)" "collect recv items u = (t, outs')"
    using Cons.prems by (auto split: prod.splits)
  then have out: "out = None" using emits [OF Cons.prems(1), of i u] Cons.prems(2) by (cases out) auto
  then show ?case
    using Cons.IH [OF ok_recv [OF Cons.prems(1) 1(1)] _ 1(2)] silent [OF Cons.prems(1), of i u] 1 Cons.prems by auto
qed simp

lemma collect_consecutive:
  assumes "ok s" and "expected s = Some b" and "collect recv items s = (t, outs)"
  shows "map fst outs = map (\<lambda>i. b + of_nat i) [0..<length outs] \<and> list_all complete_block outs \<and>
    length outs \<le> blocks_after b (target s) \<and>
    expected t = (if length outs = blocks_after b (target s) then None else Some (b + of_nat (length outs)))"
  using assms
proof (induction items arbitrary: s b outs)
  case Nil
  then show ?case by (simp add: blocks_after_def)
next
  case (Cons i items)
  obtain u out outs' where 1: "recv i s = (u, out)" "collect recv items u = (t, outs')"
    and outs: "outs = (case out of None \<Rightarrow> outs' | Some x \<Rightarrow> x # outs')"
    using Cons.prems by (auto split: prod.splits)
  have u: "ok u" using ok_recv Cons.prems(1) 1(1) by blast
  show ?case
  proof (cases out)
    case None
    then show ?thesis
      using silent [OF Cons.prems(1)] Cons.IH [OF u _ 1(2)] 1(1) Cons.prems(2) outs by simp
  next
    case (Some x)
    note e = emits [OF Cons.prems(1) 1(1) [unfolded Some]]
    have x: "fst x = b" "complete_block x" using e Cons.prems(2) by auto
    show ?thesis
    proof (cases "b < target s")
      case False
      then have "expected u = None" using e x by simp
      then have "outs' = []" "expected t = None" using collect_done [OF u _ 1(2)] by auto
      moreover have "blocks_after b (target s) = 1"
        using False expected_le [OF Cons.prems(1,2)] by (simp add: blocks_after_def)
      ultimately show ?thesis using outs Some x by simp
    next
      case True
      then have eu: "expected u = Some (b + 1)" "target u = target s" using e x by simp_all
      have lt: "unat b < unat (target s)" using True by (simp add: word_less_nat_alt)
      then have "unat (b + 1) = Suc (unat b)"
        using unsigned_less [of "target s", where 'a = nat] by (subst unat_word_ariths) simp
      then have n: "blocks_after b (target s) = Suc (blocks_after (b + 1) (target s))"
        using lt by (simp add: blocks_after_def)
      have "map (\<lambda>i. b + of_nat i) [0..<Suc (length outs')] =
          b # map (\<lambda>i. b + 1 + of_nat i) [0..<length outs']"
        by (simp add: upt_conv_Cons map_Suc_upt [symmetric] ac_simps del: upt_Suc)
      then show ?thesis
        using Cons.IH [OF u eu(1) 1(2)] eu(2) outs Some x n by (simp add: ac_simps del: upt_Suc)
    qed
  qed
qed

lemma collect_subseq:
  assumes "ok s" and "collect recv items s = (t, outs)"
  shows "subseq (concat (map snd outs) @ pending t) (pending s @ items)"
  using assms
proof (induction items arbitrary: s outs)
  case (Cons i items)
  obtain u out outs' where 1: "recv i s = (u, out)" "collect recv items u = (t, outs')"
    and outs: "outs = (case out of None \<Rightarrow> outs' | Some x \<Rightarrow> x # outs')"
    using Cons.prems by (auto split: prod.splits)
  have u: "ok u" using ok_recv Cons.prems(1) 1(1) by blast
  note IH = Cons.IH [OF u 1(2)]
  show ?case
  proof (cases out)
    case None
    then have "pending u \<in> {pending s, pending s @ [i]}" using silent Cons.prems(1) 1(1) by simp
    then have "subseq (pending u @ items) (pending s @ i # items)"
      by (auto intro: subseq_order.order_trans list_emb_append_mono)
    then show ?thesis using IH None outs by (auto intro: subseq_order.order_trans)
  next
    case (Some x)
    then have "snd x = pending s @ [i]" "pending u = []" using emits Cons.prems(1) 1(1) by auto
    then show ?thesis using IH Some outs by (simp add: list_emb_append_mono)
  qed
qed simp

end

lemma fetch_receive_cases:
  assumes "fetch_receive_inv r" and "fetch_receive_blockchain_items item r = (t, out)"
  obtains (ignored) "t = r" "out = None" "next_receive_state (item_meta item) (fetch_state r) = None"
  | (kept) st where "next_receive_state (item_meta item) (fetch_state r) = Some st"
      "t = r\<lparr>blockchain_items := blockchain_items r @ [item], fetch_state := st\<rparr>" "out = None"
      "\<forall>b. st \<noteq> DoneBlock b"
  | (finished) b where "next_receive_state (item_meta item) (fetch_state r) = Some (DoneBlock b)"
      "t = r\<lparr>fetch_state := if b < target_b_num r then WaitBlock (b + 1) else NoWait, blockchain_items := []\<rparr>"
      "out = Some (b, blockchain_items r @ [item])"
proof (cases "next_receive_state (item_meta item) (fetch_state r)")
  case None
  then show ?thesis
    using assms that(1) by (auto simp: fetch_receive_blockchain_items_def take_done_block_def
        fetch_receive_inv_def split: FetchReceiveState.splits)
next
  case (Some st)
  then show ?thesis
    using assms(2) that(2) [of st] that(3)
    by (cases st) (auto simp: fetch_receive_blockchain_items_def take_done_block_def)
qed

interpretation receiver: ordered_download fetch_receive_inv "\<lambda>r. awaited (fetch_state r)" target_b_num
  blockchain_items fetch_receive_blockchain_items
proof (unfold_locales, goal_cases)
  case (1 s item t out)
  from 1 show ?case
  proof (cases rule: fetch_receive_cases)
    case (kept st)
    then show ?thesis
      using next_receive_state_partial [OF kept(1)] 1(1) by (auto simp: fetch_receive_inv_def)
  next
    case (finished b)
    have "b + 1 \<le> target_b_num s" if "b < target_b_num s"
      using that by (simp add: inc_le)
    then show ?thesis using finished by (auto simp: fetch_receive_inv_def)
  qed (use 1 in simp)
next
  case (2 s b)
  then show ?case by (simp add: fetch_receive_inv_def)
next
  case (3 s item t)
  from 3 show ?case
  proof (cases rule: fetch_receive_cases)
    case (kept st)
    then show ?thesis
      using next_receive_state_partial [OF kept(1)] 3(1) by (auto simp: fetch_receive_inv_def)
  qed auto
next
  case (4 s item t blk)
  from 4 show ?case
  proof (cases rule: fetch_receive_cases)
    case (finished b)
    then have "partial_block (DoneBlock b) (blockchain_items s @ [item]) \<and> awaited (fetch_state s) = Some b"
      using next_receive_state_partial [OF finished(1)] 4(1) by (auto simp: fetch_receive_inv_def)
    then show ?thesis using finished by auto
  qed auto
qed

definition pending_items :: "StorageFetch \<Rightarrow> BlockchainItem list" where
  "pending_items s = (case to_receive s of None \<Rightarrow> [] | Some r \<Rightarrow> blockchain_items r)"

lemma change_to_next_fetch_peer_simps [simp]:
  "to_receive (change_to_next_fetch_peer s) = to_receive s"
  "storage_nodes (change_to_next_fetch_peer s) = storage_nodes s"
  "last_contiguous_block_num (change_to_next_fetch_peer s) = last_contiguous_block_num s"
  "awaited_block (change_to_next_fetch_peer s) = awaited_block s"
  "download_target (change_to_next_fetch_peer s) = download_target s"
  "pending_items (change_to_next_fetch_peer s) = pending_items s"
  by (simp_all add: change_to_next_fetch_peer_def Let_def awaited_block_def download_target_def
      pending_items_def)

lemma storage_fetch_inv_next_peer [inv_intros]:
  "storage_fetch_inv s \<Longrightarrow> storage_fetch_inv (change_to_next_fetch_peer s)"
  by (auto simp: storage_fetch_inv_def change_to_next_fetch_peer_def Let_def)

lemma receive_items_cases:
  assumes "storage_fetch_inv s" and "receive_blockchain_items key item s = (t, out)"
  obtains (idle) "to_receive s = None" "t = s" "out = None"
  | (missing) r where "to_receive s = Some r" "blockchain_item_is_empty item"
      "t = change_to_next_fetch_peer s" "out = None"
  | (item) r r' where "to_receive s = Some r" "\<not> blockchain_item_is_empty item" "fetch_receive_inv r"
      "fetch_receive_blockchain_items item r = (r', out)"
      "t = s\<lparr>to_receive := if fetch_receive_is_complete r' then None else Some r'\<rparr>"
  using assms
  by (auto simp: receive_blockchain_items_def fetch_is_complete_def storage_fetch_inv_def
      split: if_splits option.splits prod.splits)

lemma fetch_receive_complete_iff: "fetch_receive_is_complete r \<longleftrightarrow> awaited (fetch_state r) = None"
  by (cases "fetch_state r") (auto simp: fetch_receive_is_complete_def)

interpretation fetcher: ordered_download storage_fetch_inv awaited_block download_target pending_items
  "receive_blockchain_items key" for key
proof (unfold_locales, goal_cases)
  case (1 s item t out)
  from 1 show ?case
  proof (cases rule: receive_items_cases)
    case (item r r')
    then have "fetch_receive_inv r'" using receiver.ok_recv by blast
    then show ?thesis using 1(1) item by (auto simp: storage_fetch_inv_def)
  qed (use 1 in \<open>auto intro: inv_intros\<close>)
next
  case (2 s b)
  then show ?case
    by (auto simp: storage_fetch_inv_def awaited_block_def download_target_def receiver.expected_le
        option_bind_Some_iff)
next
  case (3 s item t)
  from 3 show ?case
  proof (cases rule: receive_items_cases)
    case (item r r')
    note l = receiver.silent [OF item(3,4)]
    then have "\<not> fetch_receive_is_complete r'"
      using 3(1) item(1) by (auto simp: storage_fetch_inv_def fetch_receive_complete_iff)
    then show ?thesis
      using item l by (simp add: awaited_block_def download_target_def pending_items_def)
  qed simp_all
next
  case (4 s item t blk)
  from 4 show ?case
  proof (cases rule: receive_items_cases)
    case (item r r')
    note l = receiver.emits [OF item(3,4)]
    then show ?thesis
      using item by (auto simp: awaited_block_def download_target_def pending_items_def
          fetch_receive_complete_iff)
  qed simp_all
qed

section \<open>Reachable states\<close>

inductive storage_fetch_step :: "StorageFetch \<Rightarrow> StorageFetch \<Rightarrow> bool" where
  step_initial: "to_receive s = None \<Longrightarrow>
    storage_fetch_step s (set_initial_last_contiguous_block_key last_num s)"
| step_target: "storage_fetch_step s (increase_running_target b s)"
| step_missing: "storage_fetch_step s (fst (fetch_missing_blockchain_items now b s))"
| step_retry: "storage_fetch_step s (fst (set_retry_timeout now s))"
| step_first: "storage_fetch_step s (set_first_timeout now s)"
| step_next_peer: "storage_fetch_step s (change_to_next_fetch_peer s)"
| step_receive: "storage_fetch_step s (fst (receive_blockchain_items key item s))"
| step_contiguous: "storage_fetch_step s (update_contiguous_block_num status s)"

inductive storage_fetch_reachable :: "StorageNodeConfig \<Rightarrow> SocketAddr \<Rightarrow> StorageFetch \<Rightarrow> bool" for config addr where
  reach_new: "storage_fetch_reachable config addr (StorageFetch_new config addr)"
| reach_step: "storage_fetch_reachable config addr s \<Longrightarrow> storage_fetch_step s t \<Longrightarrow>
    storage_fetch_reachable config addr t"

lemma fetch_receive_inv_target [inv_intros]:
  "fetch_receive_inv r \<Longrightarrow> fetch_receive_inv (receive_increase_running_target b r)"
  by (auto simp: fetch_receive_inv_def receive_increase_running_target_def le_max_iff_disj)

lemma receive_target_state [simp]:
  "fetch_state (receive_increase_running_target b r) = fetch_state r"
  "fetch_receive_is_complete (receive_increase_running_target b r) = fetch_receive_is_complete r"
  by (simp_all add: receive_increase_running_target_def fetch_receive_is_complete_def)

lemma storage_fetch_inv_target [inv_intros]:
  "storage_fetch_inv s \<Longrightarrow> storage_fetch_inv (increase_running_target b s)"
  by (auto simp: storage_fetch_inv_def increase_running_target_def intro: inv_intros)

lemma next_contiguous_le: "\<not> is_up_to_date block s \<Longrightarrow> next_contiguous s \<le> block"
  by (auto simp: is_up_to_date_def next_contiguous_def not_le inc_le split: option.splits)

lemma fetch_missing_starts:
  assumes "storage_fetch_inv s" and "fetch_missing_blockchain_items now block s = (t, True)"
  shows "storage_fetch_inv t \<and> awaited_block t = Some (next_contiguous s) \<and> download_target t = block \<and>
    pending_items t = [] \<and> to_receive s = None \<and> storage_nodes t = storage_nodes s \<and>
    next_contiguous s \<le> block"
  using assms next_contiguous_le [of block s]
  by (auto simp: fetch_missing_blockchain_items_def new_block_fetch_def storage_fetch_inv_def
      fetch_receive_inv_def fetch_receive_is_complete_def awaited_block_def download_target_def
      pending_items_def split: if_splits)

lemma storage_fetch_inv_missing [inv_intros]:
  assumes "storage_fetch_inv s"
  shows "storage_fetch_inv (fst (fetch_missing_blockchain_items now block s))"
proof (cases "to_receive s \<noteq> None \<or> is_up_to_date block s")
  case True
  then show ?thesis
    using assms storage_fetch_inv_target [OF assms, of block]
    by (cases "to_receive s \<noteq> None") (simp_all add: fetch_missing_blockchain_items_def)
next
  case False
  then obtain t where "fetch_missing_blockchain_items now block s = (t, True)"
    by (simp add: fetch_missing_blockchain_items_def)
  then show ?thesis using fetch_missing_starts [OF assms] by simp
qed

lemma storage_fetch_inv_initial [inv_intros]:
  "storage_fetch_inv s \<Longrightarrow> storage_fetch_inv (set_initial_last_contiguous_block_key last_num s)"
  by (simp add: storage_fetch_inv_def set_initial_last_contiguous_block_key_def)

lemma storage_fetch_inv_new [inv_intros]: "storage_fetch_inv (StorageFetch_new config addr)"
  by (simp add: storage_fetch_inv_def StorageFetch_new_def)

lemma storage_fetch_inv_timeouts [inv_intros]:
  "storage_fetch_inv s \<Longrightarrow> storage_fetch_inv (fst (set_retry_timeout now s))"
  "storage_fetch_inv s \<Longrightarrow> storage_fetch_inv (set_first_timeout now s)"
  by (auto simp: storage_fetch_inv_def set_retry_timeout_def set_first_timeout_def
      fetch_receive_inv_def fetch_receive_is_complete_def split: option.splits)

lemma storage_fetch_inv_contiguous [inv_intros]:
  "storage_fetch_inv s \<Longrightarrow> storage_fetch_inv (update_contiguous_block_num status s)"
  by (cases status) (auto simp: storage_fetch_inv_def)

lemma storage_fetch_inv_receive [inv_intros]:
  "storage_fetch_inv s \<Longrightarrow> storage_fetch_inv (fst (receive_blockchain_items key item s))"
  by (cases "receive_blockchain_items key item s") (auto intro: fetcher.ok_recv)

lemma storage_fetch_inv_step:
  "storage_fetch_step s t \<Longrightarrow> storage_fetch_inv s \<Longrightarrow> storage_fetch_inv t"
  by (induction rule: storage_fetch_step.induct) (assumption | rule inv_intros)+

lemma storage_fetch_inv_reachable: "storage_fetch_reachable config addr s \<Longrightarrow> storage_fetch_inv s"
  by (induction rule: storage_fetch_reachable.induct) (auto intro: inv_intros storage_fetch_inv_step)

section \<open>Requests\<close>

text \<open>The item a download waits for: the block item first, then the next transaction.\<close>

definition wanted_key :: "u64 \<Rightarrow> nat \<Rightarrow> string" where
  "wanted_key b n = (case n of 0 \<Rightarrow> indexed_block_hash_key b | Suc i \<Rightarrow> indexed_tx_hash_key b (of_nat i))"

lemma get_key_wanted:
  assumes "fetch_receive_inv r" and "awaited (fetch_state r) = Some b"
  shows "get_key (fetch_state r) = Some (wanted_key b (length (blockchain_items r)))"
proof (cases "fetch_state r")
  case (WaitTxs b' lo hi)
  then have "lo < hi" and m: "map item_meta (blockchain_items r) = block_metas b hi (unat lo)"
    using assms by (auto simp: fetch_receive_inv_def)
  moreover have "length (blockchain_items r) = Suc (unat lo)" using arg_cong [OF m, of length] by simp
  ultimately show ?thesis using WaitTxs assms(2) by (simp add: wanted_key_def)
qed (use assms in \<open>auto simp: fetch_receive_inv_def wanted_key_def\<close>)

text \<open>An item is accepted exactly when it is indexed under the requested key.\<close>

lemma next_receive_state_iff:
  assumes "fetch_receive_inv r" and "get_key (fetch_state r) = Some key"
  shows "next_receive_state (item_meta item) (fetch_state r) \<noteq> None \<longleftrightarrow> meta_key (item_meta item) = key"
  using assms(2) by (cases "item_meta item"; cases "fetch_state r") (auto split: if_splits)

lemma receive_blockchain_items_key:
  "receive_blockchain_items key item s = receive_blockchain_items [] item s"
  by (simp add: receive_blockchain_items_def)

text \<open>C17: Blocks are downloaded in order and complete. After a catch-up to some target block has
  started, whatever items arrive in whatever order, the blocks handed out are numbered
  consecutively from the block after the last contiguous one, each is its block item followed by
  all its transactions in order, none lies beyond the target, the catch-up ends exactly with the
  target block, and the items handed out or still held are received items in their order of arrival.\<close>

theorem download_in_order:
  assumes "storage_fetch_reachable config addr s"
    and "fetch_missing_blockchain_items now block s = (s1, True)"
    and "collect (\<lambda>(key, item). receive_blockchain_items key item) messages s1 = (t, outs)"
  shows "map fst outs = map (\<lambda>i. next_contiguous s + of_nat i) [0..<length outs] \<and>
    list_all complete_block outs \<and> length outs \<le> blocks_after (next_contiguous s) block \<and>
    (fetch_is_complete t \<longleftrightarrow> length outs = blocks_after (next_contiguous s) block) \<and>
    subseq (concat (map snd outs) @ pending_items t) (map snd messages)"
proof -
  note s = fetch_missing_starts [OF storage_fetch_inv_reachable [OF assms(1)] assms(2)]
  have "collect (\<lambda>(key, item). receive_blockchain_items key item) ms u =
      collect (receive_blockchain_items []) (map snd ms) u" for ms u
    by (induction ms arbitrary: u) (auto simp: receive_blockchain_items_key [of "fst _"] case_prod_unfold)
  then have c: "collect (receive_blockchain_items []) (map snd messages) s1 = (t, outs)" using assms(3) by simp
  have "storage_fetch_inv t" using s fetcher.collect_ok [OF _ c] by blast
  then have "awaited_block t = None \<longleftrightarrow> fetch_is_complete t"
    by (cases "to_receive t")
      (auto simp: storage_fetch_inv_def awaited_block_def fetch_is_complete_def fetch_receive_complete_iff)
  then show ?thesis
    using fetcher.collect_consecutive [OF _ _ c, of "next_contiguous s"] fetcher.collect_subseq [OF _ c] s
    by (auto split: if_splits)
qed

text \<open>A catch-up in progress is never stuck: in every reachable state, while blocks are missing
  and there is another storage node, there is a request to make, it goes to one of the other
  storage nodes and asks for the next item of the block being downloaded (its block item, or the
  transaction after the ones already held).\<close>

lemma fetch_never_stuck:
  assumes "storage_fetch_reachable config addr s" and "\<not> fetch_is_complete s" and "storage_nodes s \<noteq> []"
  shows "\<exists>peer b. get_fetch_peer_and_key s = Some (peer, wanted_key b (length (pending_items s))) \<and>
    peer \<in> set (storage_nodes s) \<and> awaited_block s = Some b \<and> b \<le> download_target s"
proof -
  obtain r where r: "to_receive s = Some r" "fetch_receive_inv r" "\<not> fetch_receive_is_complete r"
    using storage_fetch_inv_reachable [OF assms(1)] assms(2)
    by (auto simp: storage_fetch_inv_def fetch_is_complete_def)
  then obtain b where b: "awaited (fetch_state r) = Some b" by (auto simp: fetch_receive_complete_iff)
  have "fetch_peer_idx s < length (storage_nodes s)"
    using storage_fetch_inv_reachable [OF assms(1)] assms(3) by (auto simp: storage_fetch_inv_def)
  then show ?thesis
    using r b get_key_wanted [OF r(2) b] receiver.expected_le [OF r(2) b]
    by (auto simp: get_fetch_peer_and_key_def awaited_block_def pending_items_def download_target_def)
qed

text \<open>An item that was not asked for changes nothing. While a block is downloaded, a received
  item is kept exactly when it is indexed under the requested key; an empty answer only moves on to
  the next peer, and every other item leaves the state as it is and completes no block.\<close>

lemma unrequested_item_ignored:
  assumes "storage_fetch_reachable config addr s" and "get_fetch_peer_and_key s = Some (peer, key)"
  shows "(blockchain_item_is_empty item \<longrightarrow>
       receive_blockchain_items key' item s = (change_to_next_fetch_peer s, None)) \<and>
    (\<not> blockchain_item_is_empty item \<and> meta_key (item_meta item) \<noteq> key \<longrightarrow>
       receive_blockchain_items key' item s = (s, None)) \<and>
    (\<not> blockchain_item_is_empty item \<and> meta_key (item_meta item) = key \<longrightarrow>
       pending_items (fst (receive_blockchain_items key' item s)) = pending_items s @ [item] \<or>
       snd (receive_blockchain_items key' item s) = Some (the (awaited_block s), pending_items s @ [item]))"
proof -
  obtain r where r: "to_receive s = Some r" "get_key (fetch_state r) = Some key"
    using assms(2) by (auto simp: get_fetch_peer_and_key_def option_bind_Some_iff split: if_splits)
  have i: "fetch_receive_inv r" "\<not> fetch_receive_is_complete r"
    using storage_fetch_inv_reachable [OF assms(1)] r(1) by (auto simp: storage_fetch_inv_def)
  obtain r' out where r': "fetch_receive_blockchain_items item r = (r', out)" by fastforce
  note acc = next_receive_state_iff [OF i(1) r(2), of item]
  have rb: "receive_blockchain_items key' item s =
      (if blockchain_item_is_empty item then (change_to_next_fetch_peer s, None)
       else (s\<lparr>to_receive := if fetch_receive_is_complete r' then None else Some r'\<rparr>, out))"
    using r r' by (simp add: receive_blockchain_items_def fetch_is_complete_def)
  from i(1) r' show ?thesis
  proof (cases rule: fetch_receive_cases)
    case ignored
    then have "s\<lparr>to_receive := Some r\<rparr> = s" using r(1) by simp
    then show ?thesis using ignored acc rb i(2) by simp
  next
    case (kept st)
    then have "st \<noteq> NoWait"
      using next_receive_state_partial [OF kept(1)] i(1) by (auto simp: fetch_receive_inv_def)
    then show ?thesis using kept acc rb r(1) by (simp add: pending_items_def fetch_receive_is_complete_def)
  next
    case (finished b)
    then have "awaited_block s = Some b"
      using receiver.emits [OF i(1)] r' r(1) by (auto simp: awaited_block_def)
    then show ?thesis using finished acc rb r(1) by (simp add: pending_items_def)
  qed
qed

section \<open>Completion\<close>

text \<open>
  One round of the catch-up: the request is made, the asked peer answers, the answer is processed.
  An answer that never comes is the same as an empty one for the fetcher: the retry timeout moves on
  to the next peer.
\<close>

definition fetch_round ::
    "(SocketAddr \<Rightarrow> string \<Rightarrow> BlockchainItem) \<Rightarrow> StorageFetch \<Rightarrow> StorageFetch \<times> FetchedBlockChain option" where
  "fetch_round answer s =
     (case get_fetch_peer_and_key s of
        None \<Rightarrow> (s, None)
      | Some (peer, key) \<Rightarrow> receive_blockchain_items key (answer peer key) s)"

fun fetch_rounds ::
    "(SocketAddr \<Rightarrow> string \<Rightarrow> BlockchainItem) \<Rightarrow> nat \<Rightarrow> StorageFetch \<Rightarrow> StorageFetch \<times> FetchedBlockChain list" where
  "fetch_rounds answer 0 s = (s, [])"
| "fetch_rounds answer (Suc n) s =
     (let (t, out) = fetch_round answer s; (u, outs) = fetch_rounds answer n t
      in (u, (case out of None \<Rightarrow> outs | Some x \<Rightarrow> x # outs)))"

lemma fetch_rounds_add:
  "fetch_rounds answer m s = (t, xs) \<Longrightarrow> fetch_rounds answer n t = (u, ys) \<Longrightarrow>
     fetch_rounds answer (m + n) s = (u, xs @ ys)"
  by (induction m arbitrary: s xs) (auto split: prod.splits option.splits)

text \<open>
  \<open>content b\<close> is the block \<open>b\<close> as the storage nodes hold it. Every peer answers a request for one of
  its items with that item or with an empty one, and some peer has it.
\<close>

definition peers_serve :: "(SocketAddr \<Rightarrow> string \<Rightarrow> BlockchainItem) \<Rightarrow> SocketAddr list \<Rightarrow>
    (u64 \<Rightarrow> BlockchainItem list) \<Rightarrow> u64 \<Rightarrow> bool" where
  "peers_serve answer peers content b \<longleftrightarrow>
     complete_block (b, content b) \<and>
     (\<forall>n < length (content b).
        \<not> blockchain_item_is_empty (content b ! n) \<and>
        (\<forall>p \<in> set peers. answer p (wanted_key b n) = content b ! n \<or>
           blockchain_item_is_empty (answer p (wanted_key b n))) \<and>
        (\<exists>p \<in> set peers. answer p (wanted_key b n) = content b ! n))"

text \<open>A state in the middle of block \<open>b\<close>: its first \<open>n\<close> items are there.\<close>

definition downloading :: "StorageFetch \<Rightarrow> SocketAddr list \<Rightarrow> u64 \<Rightarrow> u64 \<Rightarrow> BlockchainItem list \<Rightarrow> bool" where
  "downloading s peers b target items \<longleftrightarrow>
     storage_fetch_inv s \<and> storage_nodes s = peers \<and> awaited_block s = Some b \<and>
     download_target s = target \<and> pending_items s = items"

lemma complete_block_nth:
  assumes "complete_block (b, items)" and "n < length items"
  shows "meta_key (item_meta (items ! n)) = wanted_key b n"
proof -
  obtain l where l: "map item_meta items = block_metas b l (unat l)" using assms(1) by (auto simp: complete_block_def)
  have "item_meta (items ! n) = block_metas b l (unat l) ! n" using l assms(2) by (metis nth_map)
  moreover have "n < Suc (unat l)" using arg_cong [OF l, of length] assms(2) by simp
  ultimately show ?thesis by (cases n) (auto simp: block_metas_def wanted_key_def)
qed

lemma block_metas_length:
  assumes "map item_meta items = block_metas b l (unat l)"
    and "map item_meta (take n items) = block_metas b l' k" and "0 < n"
  shows "l' = l" and "length items = Suc (unat l)"
proof -
  show "length items = Suc (unat l)" using arg_cong [OF assms(1), of length] by simp
  have "hd (map item_meta (take n items)) = hd (map item_meta items)"
    using assms by (cases items; cases n) (auto simp: block_metas_def)
  then show "l' = l" unfolding assms(1,2) by (simp add: block_metas_def)
qed

lemma downloading_get:
  assumes "downloading s peers b target items" and "peers \<noteq> []"
  shows "get_fetch_peer_and_key s = Some (peers ! fetch_peer_idx s, wanted_key b (length items))"
    and "fetch_peer_idx s < length peers"
proof -
  have s: "storage_fetch_inv s" "storage_nodes s = peers" using assms(1) by (auto simp: downloading_def)
  then show i: "fetch_peer_idx s < length peers" using assms(2) by (auto simp: storage_fetch_inv_def)
  obtain r where r: "to_receive s = Some r" "awaited (fetch_state r) = Some b" "blockchain_items r = items"
    using assms(1) by (auto simp: downloading_def awaited_block_def pending_items_def option_bind_Some_iff)
  then have "fetch_receive_inv r" using s by (simp add: storage_fetch_inv_def)
  then show "get_fetch_peer_and_key s = Some (peers ! fetch_peer_idx s, wanted_key b (length items))"
    using get_key_wanted [OF _ r(2)] r i s(2) by (simp add: get_fetch_peer_and_key_def)
qed

text \<open>The outcome of the item \<open>n\<close> of the block \<open>xs\<close>: it is held, or it completes the block.\<close>

definition after_item :: "SocketAddr list \<Rightarrow> u64 \<Rightarrow> u64 \<Rightarrow> BlockchainItem list \<Rightarrow> nat \<Rightarrow> StorageFetch \<Rightarrow>
    FetchedBlockChain list \<Rightarrow> bool" where
  "after_item peers b target xs n t outs \<longleftrightarrow>
     (if Suc n < length xs
      then outs = [] \<and> downloading t peers b target (take (Suc n) xs)
      else outs = [(b, xs)] \<and>
        (if b < target then downloading t peers (b + 1) target [] else to_receive t = None))"

text \<open>The right answer adds its item, and completes the block if it was the last.\<close>

lemma downloading_accept:
  assumes d: "downloading s peers b target (take n xs)" and c: "complete_block (b, xs)"
    and n: "n < length xs" and e: "\<not> blockchain_item_is_empty (xs ! n)"
    and rc: "receive_blockchain_items key (xs ! n) s = (t, out)"
  shows "after_item peers b target xs n t (case out of None \<Rightarrow> [] | Some x \<Rightarrow> [x])"
proof -
  have s: "storage_fetch_inv s" using d by (simp add: downloading_def)
  have t: "storage_fetch_inv t" using fetcher.ok_recv [OF s rc] .
  from s rc show ?thesis
  proof (cases rule: receive_items_cases)
    case idle
    then show ?thesis using d by (auto simp: downloading_def awaited_block_def)
  next
    case missing
    then show ?thesis using e by simp
  next
    case (item r r')
    have r: "awaited (fetch_state r) = Some b" "blockchain_items r = take n xs" "target_b_num r = target"
      using d item(1) by (auto simp: downloading_def awaited_block_def pending_items_def download_target_def)
    have k: "get_key (fetch_state r) = Some (wanted_key b n)"
      using get_key_wanted [OF item(3) r(1)] r(2) n by simp
    have m: "meta_key (item_meta (xs ! n)) = wanted_key b n" by (rule complete_block_nth [OF c n])
    have tk: "take (Suc n) xs = take n xs @ [xs ! n]" using n by (simp add: take_Suc_conv_app_nth)
    obtain l where l: "map item_meta xs = block_metas b l (unat l)" using c by (auto simp: complete_block_def)
    from item(3,4) show ?thesis
    proof (cases rule: fetch_receive_cases)
      case ignored
      then show ?thesis using next_receive_state_iff [OF item(3) k, of "xs ! n"] m by simp
    next
      case (kept st)
      have p: "partial_block st (take (Suc n) xs)" "awaited st = Some b" "st \<noteq> NoWait"
        using next_receive_state_partial [OF kept(1)] item(3) r tk by (auto simp: fetch_receive_inv_def)
      then obtain lo hi where w: "st = WaitTxs b lo hi" "lo < hi"
        and ms: "map item_meta (take (Suc n) xs) = block_metas b hi (unat lo)"
        using kept(4) n by (cases st) auto
      have "hi = l" "length xs = Suc (unat l)" using block_metas_length [OF l ms] by auto
      moreover have "Suc n = Suc (unat lo)" using arg_cong [OF ms, of length] n by simp
      ultimately have "Suc n < length xs" using w(2) by (simp add: word_less_nat_alt)
      then show ?thesis
        using kept item d t r w tk by (auto simp: after_item_def downloading_def awaited_block_def pending_items_def
            download_target_def fetch_receive_is_complete_def)
    next
      case (finished b')
      note em = receiver.emits [OF item(3), of "xs ! n" r' "(b', take (Suc n) xs)"]
      have b': "b' = b" and cb: "complete_block (b, take (Suc n) xs)"
        using em finished item(4) r tk by auto
      then obtain l' where ms: "map item_meta (take (Suc n) xs) = block_metas b l' (unat l')"
        by (auto simp: complete_block_def)
      have "l' = l" "length xs = Suc (unat l)" using block_metas_length [OF l ms] by auto
      moreover have "Suc n = Suc (unat l')" using arg_cong [OF ms, of length] n by simp
      ultimately have full: "Suc n = length xs" by simp
      then have out: "out = Some (b, xs)" using finished b' r tk by simp
      show ?thesis
        using finished item d t r b' full out
        by (auto simp: after_item_def downloading_def awaited_block_def pending_items_def
            download_target_def fetch_receive_is_complete_def)
    qed
  qed
qed

lemma fetch_peer_idx_next:
  "fetch_peer_idx s < length (storage_nodes s) \<Longrightarrow>
     fetch_peer_idx (change_to_next_fetch_peer s) = (fetch_peer_idx s + 1) mod length (storage_nodes s)"
  by (simp add: change_to_next_fetch_peer_def Let_def) (metis Suc_lessI mod_self)

lemma next_item_now:
  assumes "downloading s peers b target (take n (content b))" and "peers_serve answer peers content b"
    and "n < length (content b)" and "peers \<noteq> []"
    and "answer (peers ! fetch_peer_idx s) (wanted_key b n) = content b ! n"
  shows "\<exists>t outs. fetch_rounds answer 1 s = (t, outs) \<and> after_item peers b target (content b) n t outs"
proof -
  note g = downloading_get [OF assms(1,4)]
  have i: "\<not> blockchain_item_is_empty (content b ! n)" "complete_block (b, content b)"
    using assms(2,3) by (auto simp: peers_serve_def)
  obtain t out where rc: "receive_blockchain_items (wanted_key b n) (content b ! n) s = (t, out)" by fastforce
  then have "fetch_round answer s = (t, out)" using g assms(3,5) by (simp add: fetch_round_def)
  then show ?thesis using downloading_accept [OF assms(1) i(2) assms(3) i(1) rc] by simp
qed

text \<open>Within one turn through the peers the wanted item arrives.\<close>

lemma next_item_within:
  assumes "downloading s peers b target (take n (content b))" and "peers_serve answer peers content b"
    and "n < length (content b)" and "peers \<noteq> []"
    and "answer (peers ! ((fetch_peer_idx s + d) mod length peers)) (wanted_key b n) = content b ! n"
  shows "\<exists>k t outs. k \<le> Suc d \<and> fetch_rounds answer k s = (t, outs) \<and>
    after_item peers b target (content b) n t outs"
  using assms
proof (induction d arbitrary: s)
  case (0 s)
  then have "answer (peers ! fetch_peer_idx s) (wanted_key b n) = content b ! n"
    using downloading_get(2) [OF 0(1,4)] by simp
  from next_item_now [OF 0(1-4) this] show ?case by auto
next
  case (Suc d s)
  note g = downloading_get [OF Suc.prems(1,4)]
  let ?p = "peers ! fetch_peer_idx s" and ?s = "change_to_next_fetch_peer s"
  have nodes: "storage_nodes s = peers" using Suc.prems(1) by (simp add: downloading_def)
  show ?case
  proof (cases "answer ?p (wanted_key b n) = content b ! n")
    case True
    from next_item_now [OF Suc.prems(1-4) this] show ?thesis by (intro exI [of _ 1]) simp
  next
    case False
    then have "blockchain_item_is_empty (answer ?p (wanted_key b n))"
      using Suc.prems(2,3) nth_mem [OF g(2)] by (auto simp: peers_serve_def)
    moreover have "\<not> fetch_is_complete s"
      using Suc.prems(1)
      by (auto simp: downloading_def fetch_is_complete_def awaited_block_def option_bind_Some_iff)
    ultimately have r: "fetch_rounds answer 1 s = (?s, [])"
      using g Suc.prems(3) by (simp add: fetch_round_def receive_blockchain_items_def)
    have "downloading ?s peers b target (take n (content b))"
      using Suc.prems(1) by (auto simp: downloading_def intro: inv_intros)
    moreover have "answer (peers ! ((fetch_peer_idx ?s + d) mod length peers)) (wanted_key b n) = content b ! n"
      using Suc.prems(5) fetch_peer_idx_next [of s] g(2) nodes by (simp add: mod_add_left_eq)
    ultimately obtain k t outs where k: "k \<le> Suc d" "fetch_rounds answer k ?s = (t, outs)"
      "after_item peers b target (content b) n t outs"
      using Suc.IH [OF _ Suc.prems(2-4)] by blast
    have "fetch_rounds answer (1 + k) s = (t, outs)" using fetch_rounds_add [OF r k(2)] by simp
    then show ?thesis using k(1,3) by (intro exI [of _ "1 + k"]) auto
  qed
qed

lemma next_item_arrives:
  assumes "downloading s peers b target (take n (content b))" and "peers_serve answer peers content b"
    and "n < length (content b)"
  shows "\<exists>k t outs. k \<le> length peers \<and> fetch_rounds answer k s = (t, outs) \<and>
    after_item peers b target (content b) n t outs"
proof -
  obtain j where j: "j < length peers" "answer (peers ! j) (wanted_key b n) = content b ! n"
    using assms(2,3) by (fastforce simp: peers_serve_def in_set_conv_nth)
  then have ne: "peers \<noteq> []" by auto
  define d where "d = (j + length peers - fetch_peer_idx s) mod length peers"
  have i: "fetch_peer_idx s < length peers" by (rule downloading_get(2) [OF assms(1) ne])
  then have "(fetch_peer_idx s + d) mod length peers = (fetch_peer_idx s + (j + length peers - fetch_peer_idx s)) mod length peers"
    unfolding d_def by (simp add: mod_add_right_eq)
  also have "\<dots> = j" using i j(1) by simp
  finally have "answer (peers ! ((fetch_peer_idx s + d) mod length peers)) (wanted_key b n) = content b ! n"
    using j(2) by simp
  from next_item_within [OF assms ne this] obtain k t outs where "k \<le> Suc d"
    "fetch_rounds answer k s = (t, outs)" "after_item peers b target (content b) n t outs" by blast
  moreover have "Suc d \<le> length peers" unfolding d_def using ne by (simp add: Suc_le_eq)
  ultimately show ?thesis by (meson order_trans)
qed

text \<open>A block arrives within its number of items times the number of peers.\<close>

lemma block_arrives:
  assumes "downloading s peers b target (take n (content b))" and "peers_serve answer peers content b"
    and "n < length (content b)"
  shows "\<exists>k t. k \<le> (length (content b) - n) * length peers \<and> fetch_rounds answer k s = (t, [(b, content b)]) \<and>
    (if b < target then downloading t peers (b + 1) target [] else to_receive t = None)"
  using assms
proof (induction "length (content b) - n" arbitrary: n s rule: less_induct)
  case (less n s)
  obtain k t outs where k: "k \<le> length peers" "fetch_rounds answer k s = (t, outs)"
    "after_item peers b target (content b) n t outs"
    using next_item_arrives [OF less.prems] by blast
  have le: "length peers + (length (content b) - Suc n) * length peers = (length (content b) - n) * length peers"
    using less.prems(3) by (metis Suc_diff_Suc mult_Suc)
  show ?case
  proof (cases "Suc n < length (content b)")
    case True
    then have o: "outs = []" and d: "downloading t peers b target (take (Suc n) (content b))"
      using k(3) by (auto simp: after_item_def)
    have "length (content b) - Suc n < length (content b) - n" using less.prems(3) by simp
    from less.hyps [OF this d less.prems(2) True] obtain k' t' where
      k': "k' \<le> (length (content b) - Suc n) * length peers" "fetch_rounds answer k' t = (t', [(b, content b)])"
      "if b < target then downloading t' peers (b + 1) target [] else to_receive t' = None" by blast
    have "fetch_rounds answer (k + k') s = (t', [(b, content b)])"
      using fetch_rounds_add [OF k(2) k'(2)] o by simp
    then show ?thesis using k'(1,3) k(1) le by (intro exI [of _ "k + k'"]) auto
  next
    case False
    have "k \<le> (length (content b) - n) * length peers" using k(1) le by linarith
    then show ?thesis
      using k(2,3) False by (intro exI [of _ k], intro exI [of _ t]) (auto simp: after_item_def split: if_splits)
  qed
qed

definition items_from :: "(u64 \<Rightarrow> BlockchainItem list) \<Rightarrow> u64 \<Rightarrow> nat \<Rightarrow> nat" where
  "items_from content b n = (\<Sum>i < n. length (content (b + of_nat i)))"

lemma items_from_Suc: "items_from content b (Suc n) = length (content b) + items_from content (b + 1) n"
  unfolding items_from_def by (subst sum.lessThan_Suc_shift) (simp add: ac_simps)

lemma blocks_arrive:
  assumes "downloading s peers b target []" and "b \<le> target" and "Suc m = blocks_after b target"
    and "\<forall>i \<le> m. peers_serve answer peers content (b + of_nat i)"
  shows "\<exists>k t. k \<le> items_from content b (Suc m) * length peers \<and> to_receive t = None \<and>
    fetch_rounds answer k s = (t, map (\<lambda>i. (b + of_nat i, content (b + of_nat i))) [0..<Suc m])"
  using assms
proof (induction m arbitrary: s b)
  case (0 s b)
  have "\<not> b < target" using 0(3) by (simp add: blocks_after_def word_less_nat_alt)
  moreover have c: "peers_serve answer peers content b" using 0(4) by simp
  moreover have "0 < length (content b)"
    using c by (auto simp: peers_serve_def complete_block_def block_metas_def)
  ultimately show ?case
    using block_arrives [of s peers b target 0 content answer] 0(1) by (auto simp: items_from_def)
next
  case (Suc m s b)
  have lt: "b < target" using Suc.prems(3) by (simp add: blocks_after_def word_less_nat_alt)
  have c: "peers_serve answer peers content b" using spec [OF Suc.prems(4), of 0] by simp
  have "0 < length (content b)"
    using c by (auto simp: peers_serve_def complete_block_def block_metas_def)
  then obtain k t where k: "k \<le> length (content b) * length peers"
    "fetch_rounds answer k s = (t, [(b, content b)])" "downloading t peers (b + 1) target []"
    using block_arrives [of s peers b target 0 content answer] Suc.prems(1) c lt by auto
  have lt': "unat b < unat target" using lt by (simp add: word_less_nat_alt)
  then have "unat (b + 1) = Suc (unat b)"
    using unsigned_less [of target, where 'a = nat] by (subst unat_word_ariths) simp
  then have n: "Suc m = blocks_after (b + 1) target" using Suc.prems(3) lt' by (simp add: blocks_after_def)
  have "\<forall>i \<le> m. peers_serve answer peers content (b + 1 + of_nat i)"
  proof (intro allI impI)
    fix i assume "i \<le> m"
    then show "peers_serve answer peers content (b + 1 + of_nat i)"
      using spec [OF Suc.prems(4), of "Suc i"] by (simp add: ac_simps)
  qed
  from Suc.IH [OF k(3) inc_le [OF lt] n this] obtain k' t' where
    k': "k' \<le> items_from content (b + 1) (Suc m) * length peers" "to_receive t' = None"
    "fetch_rounds answer k' t = (t', map (\<lambda>i. (b + 1 + of_nat i, content (b + 1 + of_nat i))) [0..<Suc m])"
    by blast
  have e: "map (\<lambda>i. (b + of_nat i, content (b + of_nat i))) [0..<Suc (Suc m)] =
      (b, content b) # map (\<lambda>i. (b + 1 + of_nat i, content (b + 1 + of_nat i))) [0..<Suc m]"
    by (simp add: upt_conv_Cons [of 0 "Suc (Suc m)"] map_Suc_upt [symmetric] ac_simps del: upt_Suc)
  have "fetch_rounds answer (k + k') s =
      (t', map (\<lambda>i. (b + of_nat i, content (b + of_nat i))) [0..<Suc (Suc m)])"
    using fetch_rounds_add [OF k(2) k'(3)] e by simp
  moreover have "k + k' \<le> items_from content b (Suc (Suc m)) * length peers"
    using k(1) k'(1) by (simp add: items_from_Suc [of _ _ "Suc m"] algebra_simps)
  ultimately show ?case using k'(2) by blast
qed

text \<open>C14: A catch-up completes. Suppose every missing block is held by the storage nodes: each peer
  answers a request for an item of it with the item or with nothing, and at least one peer has the
  item. Then, after at most as many rounds as there are missing items times the number of peers, the
  catch-up is over and has handed out exactly the missing blocks, each once, in order, with their
  contents.\<close>

theorem catchup_completes:
  assumes "storage_fetch_reachable config addr s"
    and "fetch_missing_blockchain_items now block s = (s1, True)"
    and "\<forall>i < blocks_after (next_contiguous s) block.
      peers_serve answer (storage_nodes s) content (next_contiguous s + of_nat i)"
  shows "\<exists>k t. k \<le> items_from content (next_contiguous s) (blocks_after (next_contiguous s) block) *
        length (storage_nodes s) \<and>
      fetch_is_complete t \<and>
      fetch_rounds answer k s1 =
        (t, map (\<lambda>i. (next_contiguous s + of_nat i, content (next_contiguous s + of_nat i)))
           [0..<blocks_after (next_contiguous s) block])"
proof -
  note s = fetch_missing_starts [OF storage_fetch_inv_reachable [OF assms(1)] assms(2)]
  obtain m where m: "Suc m = blocks_after (next_contiguous s) block" by (simp add: blocks_after_def)
  have "downloading s1 (storage_nodes s) (next_contiguous s) block []" using s by (simp add: downloading_def)
  then show ?thesis
    using blocks_arrive [OF _ _ m, of s1 "storage_nodes s" answer content] assms(3) s
    by (simp add: fetch_is_complete_def m [symmetric] less_Suc_eq_le)
qed

section \<open>Witnesses\<close>

definition demo_fetch_config :: StorageNodeConfig where
  "demo_fetch_config =
     \<lparr>storage_node_idx = 0, storage_nodes_config = [V4 1 1, V4 2 1, V4 3 1], storage_compute_nodes = [V4 9 1],
      storage_raft = 1, storage_catchup_duration = 500, storage_backup_block_modulo = None\<rparr>"

definition demo_item :: "BlockchainItemMeta \<Rightarrow> BlockchainItem" where
  "demo_item m = \<lparr>item_version = 5, item_meta = m, item_key = [1], item_data = [], item_data_json = []\<rparr>"

definition demo_empty :: BlockchainItem where
  "demo_empty = \<lparr>item_version = 0, item_meta = BlockMeta 0 0, item_key = [], item_data = [], item_data_json = []\<rparr>"

text \<open>Block \<open>b\<close> has one transaction; the peer at address 2 has nothing, the one at address 3 has everything.\<close>

definition demo_content :: "u64 \<Rightarrow> BlockchainItem list" where
  "demo_content b = [demo_item (BlockMeta b 1), demo_item (TxMeta b 0)]"

definition demo_answer :: "SocketAddr \<Rightarrow> string \<Rightarrow> BlockchainItem" where
  "demo_answer p key =
     (if p = V4 2 1 then demo_empty
      else if key = indexed_block_hash_key 0 then demo_item (BlockMeta 0 1)
      else if key = indexed_tx_hash_key 0 0 then demo_item (TxMeta 0 0)
      else if key = indexed_block_hash_key 1 then demo_item (BlockMeta 1 1)
      else if key = indexed_tx_hash_key 1 0 then demo_item (TxMeta 1 0)
      else demo_empty)"

definition demo_fetch :: StorageFetch where
  "demo_fetch = StorageFetch_new demo_fetch_config (V4 1 1)"

definition demo_fetching :: StorageFetch where
  "demo_fetching = fst (fetch_missing_blockchain_items 7 1 demo_fetch)"

lemma demo_fetch_reachable: "storage_fetch_reachable demo_fetch_config (V4 1 1) demo_fetch"
  unfolding demo_fetch_def by (rule reach_new)

lemma demo_fetching_reachable: "storage_fetch_reachable demo_fetch_config (V4 1 1) demo_fetching"
  unfolding demo_fetching_def by (rule reach_step [OF demo_fetch_reachable step_missing])

lemma demo_fetch_missing: "fetch_missing_blockchain_items 7 1 demo_fetch = (demo_fetching, True)"
  by (simp add: demo_fetching_def fetch_missing_blockchain_items_def demo_fetch_def StorageFetch_new_def
      is_up_to_date_def)

lemma demo_fetch_simps:
  "next_contiguous demo_fetch = 0" "blocks_after 0 1 = 2" "storage_nodes demo_fetch = [V4 2 1, V4 3 1]"
  by (simp_all add: demo_fetch_def StorageFetch_new_def next_contiguous_def blocks_after_def demo_fetch_config_def)

theorem download_in_order_witness:
  "\<exists>t outs. collect (\<lambda>(key, item). receive_blockchain_items key item)
       [([], demo_item (BlockMeta 0 1)), ([], demo_item (TxMeta 0 1)), ([], demo_item (TxMeta 0 0))] demo_fetching =
       (t, outs) \<and> map fst outs = [0] \<and> list_all complete_block outs \<and> \<not> fetch_is_complete t"
proof -
  let ?ms = "[([], demo_item (BlockMeta 0 1)), ([], demo_item (TxMeta 0 1)), ([], demo_item (TxMeta 0 0))]"
  obtain t outs where c: "collect (\<lambda>(key, item). receive_blockchain_items key item) ?ms demo_fetching = (t, outs)"
    by fastforce
  have "snd (collect (\<lambda>(key, item). receive_blockchain_items key item) ?ms demo_fetching) =
      [(0, [demo_item (BlockMeta 0 1), demo_item (TxMeta 0 0)])]"
    by code_simp
  then have "outs = [(0, [demo_item (BlockMeta 0 1), demo_item (TxMeta 0 0)])]" using c by simp
  then show ?thesis
    using download_in_order [OF demo_fetch_reachable demo_fetch_missing c] c demo_fetch_simps by auto
qed

lemma fetch_never_stuck_demo:
  "\<exists>peer b. get_fetch_peer_and_key demo_fetching =
       Some (peer, wanted_key b (length (pending_items demo_fetching))) \<and>
     peer \<in> set (storage_nodes demo_fetching) \<and> awaited_block demo_fetching = Some b \<and>
     b \<le> download_target demo_fetching"
proof -
  have "\<not> fetch_is_complete demo_fetching" "storage_nodes demo_fetching \<noteq> []" by code_simp+
  then show ?thesis using fetch_never_stuck [OF demo_fetching_reachable] by blast
qed

lemma unrequested_item_ignored_demo:
  "receive_blockchain_items [] (demo_item (TxMeta 0 0)) demo_fetching = (demo_fetching, None) \<and>
   receive_blockchain_items [] demo_empty demo_fetching = (change_to_next_fetch_peer demo_fetching, None)"
proof -
  have "get_fetch_peer_and_key demo_fetching = Some (V4 2 1, indexed_block_hash_key 0)" by code_simp
  note t = unrequested_item_ignored [OF demo_fetching_reachable this, of _ "[]"]
  show ?thesis
    using t [of "demo_item (TxMeta 0 0)"] t [of demo_empty]
    by (simp add: demo_item_def demo_empty_def blockchain_item_is_empty_def)
qed

lemma demo_peers_serve: "b \<in> {0, 1} \<Longrightarrow> peers_serve demo_answer [V4 2 1, V4 3 1] demo_content b"
proof -
  assume "b \<in> {0, 1}"
  moreover have "complete_block (b, demo_content b)"
    by (auto simp: complete_block_def demo_content_def demo_item_def block_metas_def intro!: exI [of _ 1])
  ultimately show ?thesis
    by (auto simp: peers_serve_def demo_content_def demo_answer_def wanted_key_def demo_item_def
        demo_empty_def blockchain_item_is_empty_def less_Suc_eq)
qed

theorem catchup_completes_witness:
  "\<exists>k t. k \<le> 8 \<and> fetch_is_complete t \<and>
     fetch_rounds demo_answer k demo_fetching = (t, [(0, demo_content 0), (1, demo_content 1)])"
proof -
  have "\<forall>i < blocks_after (next_contiguous demo_fetch) 1.
      peers_serve demo_answer (storage_nodes demo_fetch) demo_content (next_contiguous demo_fetch + of_nat i)"
    using demo_peers_serve by (auto simp: demo_fetch_simps less_Suc_eq numeral_2_eq_2)
  note t = catchup_completes [OF demo_fetch_reachable demo_fetch_missing this]
  have n: "[0..<2] = [0, 1 :: nat]" by (simp add: upt_rec)
  have "items_from demo_content 0 2 = 4" by (simp add: items_from_def demo_content_def numeral_2_eq_2)
  then show ?thesis using t by (simp add: demo_fetch_simps n)
qed

end
