(* ===== verification/Db_Utils.thy ===== *)
theory Db_Utils
  imports Prelude
begin

text \<open>
  The database of the nodes (\<^verbatim>\<open>src/db_utils.rs\<close>) in its in-memory form: a map from column names
  to positions, and a map of keys to values at each position. Writes go through a batch that is
  applied as a whole. The form that is kept in files hands every operation to RocksDB and is not
  modelled.

  The abstract specification of a database is a map from columns to maps from keys to values. The
  function \<open>db_abs\<close> abstracts from the positions; every operation implements its counterpart on
  the abstract database, panics and errors included. The locale \<open>column_store\<close> is the interface
  that the storage node relies on.
\<close>

section \<open>Model\<close>

type_synonym SimpleDbError = string
type_synonym 'a db_result = "SimpleDbError + 'a"
type_synonym DbIteratorItem = "bytes \<times> bytes"
type_synonym InMemoryWriteBatch = "(nat \<times> bytes \<times> bytes option) list"
type_synonym InMemoryColumns = "(string, nat) fmap"
type_synonym InMemoryDb = "(bytes, bytes) fmap list"

record SimpleDb =
  columns :: InMemoryColumns
  key_values :: InMemoryDb

record SimpleDbWriteBatch =
  batch_write :: InMemoryWriteBatch
  batch_columns :: InMemoryColumns

text \<open>The name RocksDB gives to the default column, and the version stored in a new database.\<close>

record db_ext =
  DB_COL_DEFAULT :: string
  NETWORK_VERSION_SERIALIZED :: bytes

definition DB_VERSION_KEY :: bytes where
  "DB_VERSION_KEY = map of_char ''DbVersionKey''"

text \<open>Indexing a vector panics out of range.\<close>

definition nth_or_panic :: "'a list \<Rightarrow> nat \<Rightarrow> 'a may_panic" where
  "nth_or_panic xs i = (if i < length xs then Some (xs ! i) else None)"

definition db_put_cf :: "string \<Rightarrow> bytes \<Rightarrow> bytes \<Rightarrow> SimpleDb \<Rightarrow> SimpleDb may_panic" where
  "db_put_cf cf key val self =
     do { i \<leftarrow> fmlookup (columns self) cf;
          kv \<leftarrow> nth_or_panic (key_values self) i;
          Some (self\<lparr>key_values := (key_values self)[i := fmupd key val kv]\<rparr>) }"

definition db_delete_cf :: "string \<Rightarrow> bytes \<Rightarrow> SimpleDb \<Rightarrow> SimpleDb may_panic" where
  "db_delete_cf cf key self =
     do { i \<leftarrow> fmlookup (columns self) cf;
          kv \<leftarrow> nth_or_panic (key_values self) i;
          Some (self\<lparr>key_values := (key_values self)[i := fmdrop key kv]\<rparr>) }"

definition db_get_cf :: "string \<Rightarrow> bytes \<Rightarrow> SimpleDb \<Rightarrow> bytes option may_panic" where
  "db_get_cf cf key self =
     do { i \<leftarrow> fmlookup (columns self) cf;
          kv \<leftarrow> nth_or_panic (key_values self) i;
          Some (fmlookup kv key) }"

definition db_count_cf :: "string \<Rightarrow> SimpleDb \<Rightarrow> nat may_panic" where
  "db_count_cf cf self =
     do { i \<leftarrow> fmlookup (columns self) cf;
          kv \<leftarrow> nth_or_panic (key_values self) i;
          Some (fmlen kv) }"

definition db_iter_cf_clone :: "string \<Rightarrow> SimpleDb \<Rightarrow> DbIteratorItem list may_panic" where
  "db_iter_cf_clone cf self =
     do { i \<leftarrow> fmlookup (columns self) cf;
          kv \<leftarrow> nth_or_panic (key_values self) i;
          Some (sorted_list_of_fmap kv) }"

definition open_columns :: "SimpleDb \<Rightarrow> string list" where
  "open_columns self = fmkeys (columns self)"

definition db_take :: "SimpleDb \<Rightarrow> SimpleDb \<times> SimpleDb" where
  "db_take self = (\<lparr>columns = fmempty, key_values = []\<rparr>, self)"

definition upgrade_create_missing_cf :: "string \<Rightarrow> SimpleDb \<Rightarrow> SimpleDb" where
  "upgrade_create_missing_cf name self =
     (if name |\<in>| fmdom (columns self) then self
      else self\<lparr>columns := fmupd name (length (key_values self)) (columns self),
                key_values := key_values self @ [fmempty]\<rparr>)"

definition batch_writer :: "SimpleDb \<Rightarrow> SimpleDbWriteBatch" where
  "batch_writer self = \<lparr>batch_write = [], batch_columns = columns self\<rparr>"

definition batch_put_cf_checked ::
    "string \<Rightarrow> bytes \<Rightarrow> bytes \<Rightarrow> SimpleDbWriteBatch \<Rightarrow> SimpleDbWriteBatch db_result" where
  "batch_put_cf_checked cf key val self =
     (case fmlookup (batch_columns self) cf of
        None \<Rightarrow> Inl (''Missing column '' @ cf)
      | Some i \<Rightarrow> Inr (self\<lparr>batch_write := batch_write self @ [(i, key, Some val)]\<rparr>))"

definition batch_put_cf ::
    "string \<Rightarrow> bytes \<Rightarrow> bytes \<Rightarrow> SimpleDbWriteBatch \<Rightarrow> SimpleDbWriteBatch may_panic" where
  "batch_put_cf cf key val self =
     (case batch_put_cf_checked cf key val self of Inl _ \<Rightarrow> None | Inr b \<Rightarrow> Some b)"

definition batch_delete_cf :: "string \<Rightarrow> bytes \<Rightarrow> SimpleDbWriteBatch \<Rightarrow> SimpleDbWriteBatch may_panic" where
  "batch_delete_cf cf key self =
     (case fmlookup (batch_columns self) cf of
        None \<Rightarrow> None
      | Some i \<Rightarrow> Some (self\<lparr>batch_write := batch_write self @ [(i, key, None)]\<rparr>))"

definition batch_done :: "SimpleDbWriteBatch \<Rightarrow> InMemoryWriteBatch" where
  "batch_done self = batch_write self"

text \<open>The loop of \<open>write\<close> over the actions of the batch.\<close>

fun write_actions :: "InMemoryWriteBatch \<Rightarrow> InMemoryDb \<Rightarrow> InMemoryDb may_panic" where
  "write_actions [] kvs = Some kvs"
| "write_actions ((i, key, action) # rest) kvs =
     do { kv \<leftarrow> nth_or_panic kvs i;
          write_actions rest
            (kvs[i := (case action of Some val \<Rightarrow> fmupd key val kv | None \<Rightarrow> fmdrop key kv)]) }"

definition db_write :: "InMemoryWriteBatch \<Rightarrow> SimpleDb \<Rightarrow> SimpleDb may_panic" where
  "db_write batch self =
     do { kvs \<leftarrow> write_actions batch (key_values self);
          Some (self\<lparr>key_values := kvs\<rparr>) }"

fun import_batch ::
    "(string \<times> bytes \<times> bytes) list \<Rightarrow> SimpleDbWriteBatch \<Rightarrow> SimpleDbWriteBatch db_result" where
  "import_batch [] b = Inr b"
| "import_batch ((cf, key, val) # items) b =
     (case batch_put_cf_checked cf key val b of
        Inl e \<Rightarrow> Inl e
      | Inr b' \<Rightarrow> import_batch items b')"

text \<open>The database after the call, and the result.\<close>

definition import_items ::
    "(string \<times> bytes \<times> bytes) list \<Rightarrow> SimpleDb \<Rightarrow> (SimpleDb \<times> unit db_result) may_panic" where
  "import_items items self =
     (case import_batch items (batch_writer self) of
        Inl e \<Rightarrow> Some (self, Inl e)
      | Inr b \<Rightarrow> do { db \<leftarrow> db_write (batch_done b) self; Some (db, Inr ()) })"

definition with_initial_data :: "db_ext \<Rightarrow> SimpleDb \<Rightarrow> SimpleDb may_panic" where
  "with_initial_data D db =
     do { v \<leftarrow> db_get_cf (DB_COL_DEFAULT D) DB_VERSION_KEY db;
          case v of
            Some _ \<Rightarrow> None
          | None \<Rightarrow> db_put_cf (DB_COL_DEFAULT D) DB_VERSION_KEY (NETWORK_VERSION_SERIALIZED D) db }"

definition check_version :: "db_ext \<Rightarrow> SimpleDb \<Rightarrow> bytes option \<Rightarrow> unit db_result may_panic" where
  "check_version D db expected =
     do { version \<leftarrow> db_get_cf (DB_COL_DEFAULT D) DB_VERSION_KEY db;
          Some (if version = expected then Inr () else Inl ''DB Version mismatch'') }"

definition check_old_includes_new :: "string list \<Rightarrow> string list \<Rightarrow> unit db_result" where
  "check_old_includes_new old new =
     (if set new \<subseteq> set old then Inr () else Inl ''Column mismatch while opening'')"

definition new_in_memory ::
    "db_ext \<Rightarrow> string list \<Rightarrow> SimpleDb option \<Rightarrow> SimpleDb db_result may_panic" where
  "new_in_memory D cols old_db =
     (case old_db of
        Some old \<Rightarrow>
          Some (case check_old_includes_new (open_columns old) (DB_COL_DEFAULT D # cols) of
                  Inl e \<Rightarrow> Inl e
                | Inr _ \<Rightarrow> Inr old)
      | None \<Rightarrow>
          map_option Inr (with_initial_data D
            \<lparr>columns = fmextend (zip (DB_COL_DEFAULT D # cols) [0..<length cols + 1]) fmempty,
             key_values = replicate (length cols + 1) fmempty\<rparr>))"

text \<open>\<open>new_db_with_version\<close> in the mode \<open>InMemory\<close>.\<close>

definition new_db_with_version ::
    "db_ext \<Rightarrow> string list \<Rightarrow> bytes option \<Rightarrow> SimpleDb option \<Rightarrow> SimpleDb db_result may_panic" where
  "new_db_with_version D cols version old_db =
     do { r \<leftarrow> new_in_memory D cols old_db;
          case r of
            Inl e \<Rightarrow> Some (Inl e)
          | Inr db \<Rightarrow>
              do { c \<leftarrow> check_version D db version;
                   Some (case c of Inl e \<Rightarrow> Inl e | Inr _ \<Rightarrow> Inr db) } }"

definition new_db :: "db_ext \<Rightarrow> string list \<Rightarrow> SimpleDb option \<Rightarrow> SimpleDb may_panic" where
  "new_db D cols old_db =
     do { r \<leftarrow> new_db_with_version D cols (Some (NETWORK_VERSION_SERIALIZED D)) old_db;
          case r of Inl _ \<Rightarrow> None | Inr db \<Rightarrow> Some db }"

datatype DbMode = Live | Test nat | InMemory

record SimpleDbSpec =
  db_path :: string
  suffix :: string

text \<open>\<open>{idx}\<close>: the decimal digits of a number.\<close>

fun decimal :: "nat \<Rightarrow> string" where
  "decimal n = (if n < 10 then [''0123456789'' ! n] else decimal (n div 10) @ [''0123456789'' ! (n mod 10)])"

declare decimal.simps [simp del]

fun new_db_save_path :: "DbMode \<Rightarrow> SimpleDbSpec \<Rightarrow> SimpleDbSpec option \<Rightarrow> string option" where
  "new_db_save_path mode spec custom =
     (let path = (case custom of None \<Rightarrow> db_path spec | Some c \<Rightarrow> db_path c);
          sfx = (case custom of None \<Rightarrow> suffix spec | Some c \<Rightarrow> suffix c)
      in case mode of
           Live \<Rightarrow> Some (path @ ''/'' @ ''live'' @ sfx)
         | Test idx \<Rightarrow> Some (path @ ''/'' @ ''test'' @ sfx @ ''.'' @ decimal idx)
         | InMemory \<Rightarrow> None)"

section \<open>The abstract database\<close>

text \<open>A map from columns to maps from keys to values.\<close>

type_synonym db_view = "string \<Rightarrow> (bytes, bytes) fmap option"

definition abs_put :: "string \<Rightarrow> bytes \<Rightarrow> bytes \<Rightarrow> db_view \<Rightarrow> db_view option" where
  "abs_put cf key val m = map_option (\<lambda>kv. m(cf \<mapsto> fmupd key val kv)) (m cf)"

definition abs_delete :: "string \<Rightarrow> bytes \<Rightarrow> db_view \<Rightarrow> db_view option" where
  "abs_delete cf key m = map_option (\<lambda>kv. m(cf \<mapsto> fmdrop key kv)) (m cf)"

definition db_inv :: "SimpleDb \<Rightarrow> bool" where
  "db_inv db \<longleftrightarrow>
     (\<forall>cf i. fmlookup (columns db) cf = Some i \<longrightarrow> i < length (key_values db)) \<and>
     (\<forall>cf cf' i. fmlookup (columns db) cf = Some i \<longrightarrow> fmlookup (columns db) cf' = Some i \<longrightarrow> cf = cf')"

definition db_abs :: "SimpleDb \<Rightarrow> db_view" where
  "db_abs db cf = map_option (\<lambda>i. key_values db ! i) (fmlookup (columns db) cf)"

lemma db_lookup:
  assumes "db_inv db"
  shows "Option.bind (fmlookup (columns db) cf) (nth_or_panic (key_values db)) = db_abs db cf"
  using assms by (cases "fmlookup (columns db) cf") (auto simp: db_inv_def db_abs_def nth_or_panic_def)

text \<open>Changing the entry at the position of a column changes that column of the abstract database.\<close>

lemma db_abs_update:
  assumes "db_inv db" and "fmlookup (columns db) cf = Some i"
  shows "db_inv (db\<lparr>key_values := (key_values db)[i := kv]\<rparr>)"
    and "db_abs (db\<lparr>key_values := (key_values db)[i := kv]\<rparr>) = (db_abs db)(cf \<mapsto> kv)"
proof -
  show "db_inv (db\<lparr>key_values := (key_values db)[i := kv]\<rparr>)"
    using assms(1) by (simp add: db_inv_def)
  have i: "i < length (key_values db)" using assms by (auto simp: db_inv_def)
  show "db_abs (db\<lparr>key_values := (key_values db)[i := kv]\<rparr>) = (db_abs db)(cf \<mapsto> kv)"
  proof
    fix c
    have "c = cf" if "fmlookup (columns db) c = Some i" using assms that by (auto simp: db_inv_def)
    then show "db_abs (db\<lparr>key_values := (key_values db)[i := kv]\<rparr>) c = ((db_abs db)(cf \<mapsto> kv)) c"
      using i assms(2) by (cases "fmlookup (columns db) c") (auto simp: db_abs_def nth_list_update)
  qed
qed

lemma db_get_cf_abs: "db_inv db \<Longrightarrow> db_get_cf cf key db = map_option (\<lambda>kv. fmlookup kv key) (db_abs db cf)"
  unfolding db_get_cf_def db_lookup [symmetric] by (cases "fmlookup (columns db) cf") (simp_all add: map_conv_bind_option comp_def)

lemma db_count_cf_abs: "db_inv db \<Longrightarrow> db_count_cf cf db = map_option fmlen (db_abs db cf)"
  unfolding db_count_cf_def db_lookup [symmetric] by (cases "fmlookup (columns db) cf") (simp_all add: map_conv_bind_option comp_def)

lemma db_iter_cf_abs: "db_inv db \<Longrightarrow> db_iter_cf_clone cf db = map_option sorted_list_of_fmap (db_abs db cf)"
  unfolding db_iter_cf_clone_def db_lookup [symmetric] by (cases "fmlookup (columns db) cf") (simp_all add: map_conv_bind_option comp_def)

lemma db_put_cf_abs:
  assumes "db_inv db"
  shows "map_option db_abs (db_put_cf cf key val db) = abs_put cf key val (db_abs db)"
    and "db_put_cf cf key val db = Some db' \<Longrightarrow> db_inv db'"
  using assms db_abs_update [OF assms]
  by (cases "fmlookup (columns db) cf";
      auto simp: db_put_cf_def abs_put_def nth_or_panic_def db_inv_def db_abs_def split: if_splits)+

lemma db_delete_cf_abs:
  assumes "db_inv db"
  shows "map_option db_abs (db_delete_cf cf key db) = abs_delete cf key (db_abs db)"
    and "db_delete_cf cf key db = Some db' \<Longrightarrow> db_inv db'"
  using assms db_abs_update [OF assms]
  by (cases "fmlookup (columns db) cf";
      auto simp: db_delete_cf_def abs_delete_def nth_or_panic_def db_inv_def db_abs_def split: if_splits)+

lemma upgrade_create_missing_cf_abs:
  assumes "db_inv db"
  shows "db_inv (upgrade_create_missing_cf name db)"
    and "db_abs (upgrade_create_missing_cf name db) =
      (if db_abs db name = None then (db_abs db)(name \<mapsto> fmempty) else db_abs db)"
proof -
  have lt: "fmlookup (columns db) cf = Some i \<Longrightarrow> i < length (key_values db)" for cf i
    using assms by (auto simp: db_inv_def)
  show "db_inv (upgrade_create_missing_cf name db)"
    using assms lt by (auto simp: upgrade_create_missing_cf_def db_inv_def less_Suc_eq dest: lt split: if_splits)
  show "db_abs (upgrade_create_missing_cf name db) =
      (if db_abs db name = None then (db_abs db)(name \<mapsto> fmempty) else db_abs db)"
  proof
    fix c
    show "db_abs (upgrade_create_missing_cf name db) c =
      (if db_abs db name = None then (db_abs db)(name \<mapsto> fmempty) else db_abs db) c"
      using lt [of c]
      by (cases "fmlookup (columns db) c"; cases "fmlookup (columns db) name")
        (auto simp: upgrade_create_missing_cf_def db_abs_def nth_append fmlookup_dom_iff)
  qed
qed

section \<open>Batches\<close>

text \<open>
  A batch that was started on \<open>db\<close> stands for the database that writing it now would give. Adding
  an action to the batch stands for doing the action on that database.
\<close>

definition batch_stands_for :: "SimpleDb \<Rightarrow> SimpleDbWriteBatch \<Rightarrow> SimpleDb \<Rightarrow> bool" where
  "batch_stands_for db b db' \<longleftrightarrow>
     batch_columns b = columns db \<and> columns db' = columns db \<and> db_inv db' \<and>
     db_write (batch_done b) db = Some db'"

lemma write_actions_append:
  "write_actions (xs @ ys) kvs = Option.bind (write_actions xs kvs) (write_actions ys)"
  by (induction xs arbitrary: kvs) (auto split: Option.bind_splits)

lemma batch_writer_stands_for: "db_inv db \<Longrightarrow> batch_stands_for db (batch_writer db) db"
  by (simp add: batch_stands_for_def batch_writer_def batch_done_def db_write_def)

lemma batch_put_stands_for:
  assumes "batch_stands_for db b db1"
  shows "batch_put_cf cf key val b = None \<longleftrightarrow> db_abs db1 cf = None"
    and "batch_put_cf cf key val b = Some b' \<Longrightarrow>
      \<exists>db2. db_put_cf cf key val db1 = Some db2 \<and> batch_stands_for db b' db2"
proof -
  have c: "batch_columns b = columns db" "columns db1 = columns db" and i: "db_inv db1"
    and w: "db_write (batch_write b) db = Some db1"
    using assms by (auto simp: batch_stands_for_def batch_done_def)
  show "batch_put_cf cf key val b = None \<longleftrightarrow> db_abs db1 cf = None"
    by (auto simp: batch_put_cf_def batch_put_cf_checked_def db_abs_def c split: option.splits sum.splits)
  assume b': "batch_put_cf cf key val b = Some b'"
  then obtain p where p: "fmlookup (columns db1) cf = Some p"
      "b' = b\<lparr>batch_write := batch_write b @ [(p, key, Some val)]\<rparr>"
    by (auto simp: batch_put_cf_def batch_put_cf_checked_def c split: option.splits)
  then have lt: "p < length (key_values db1)" using i by (auto simp: db_inv_def)
  let ?db2 = "db1\<lparr>key_values := (key_values db1)[p := fmupd key val (key_values db1 ! p)]\<rparr>"
  have put: "db_put_cf cf key val db1 = Some ?db2" using p lt by (simp add: db_put_cf_def nth_or_panic_def)
  moreover have "db_write (batch_write b') db = Some ?db2"
    using w p(2) lt by (auto simp: db_write_def write_actions_append nth_or_panic_def option_bind_Some_iff)
  moreover have "db_inv ?db2" using db_put_cf_abs(2) [OF i put] .
  ultimately show "\<exists>db2. db_put_cf cf key val db1 = Some db2 \<and> batch_stands_for db b' db2"
    using c p(2) by (auto simp: batch_stands_for_def batch_done_def)
qed

lemma batch_delete_stands_for:
  assumes "batch_stands_for db b db1" and "batch_delete_cf cf key b = Some b'"
  shows "\<exists>db2. db_delete_cf cf key db1 = Some db2 \<and> batch_stands_for db b' db2"
proof -
  have c: "batch_columns b = columns db" "columns db1 = columns db" and i: "db_inv db1"
    and w: "db_write (batch_write b) db = Some db1"
    using assms(1) by (auto simp: batch_stands_for_def batch_done_def)
  obtain p where p: "fmlookup (columns db1) cf = Some p"
      "b' = b\<lparr>batch_write := batch_write b @ [(p, key, None)]\<rparr>"
    using assms(2) by (auto simp: batch_delete_cf_def c split: option.splits)
  then have lt: "p < length (key_values db1)" using i by (auto simp: db_inv_def)
  let ?db2 = "db1\<lparr>key_values := (key_values db1)[p := fmdrop key (key_values db1 ! p)]\<rparr>"
  have put: "db_delete_cf cf key db1 = Some ?db2" using p lt by (simp add: db_delete_cf_def nth_or_panic_def)
  moreover have "db_write (batch_write b') db = Some ?db2"
    using w p(2) lt by (auto simp: db_write_def write_actions_append nth_or_panic_def option_bind_Some_iff)
  moreover have "db_inv ?db2" using db_delete_cf_abs(2) [OF i put] .
  ultimately show ?thesis using c p(2) by (auto simp: batch_stands_for_def batch_done_def)
qed

text \<open>A sequence of puts, done one after the other on the abstract database.\<close>

fun abs_puts :: "(string \<times> bytes \<times> bytes) list \<Rightarrow> db_view \<Rightarrow> db_view option" where
  "abs_puts [] m = Some m"
| "abs_puts ((cf, key, val) # items) m = Option.bind (abs_put cf key val m) (abs_puts items)"

lemma batch_put_abs:
  assumes "batch_stands_for db b db1" and "batch_put_cf cf key val b = Some b'"
  shows "\<exists>db2. batch_stands_for db b' db2 \<and> abs_put cf key val (db_abs db1) = Some (db_abs db2)"
  using batch_put_stands_for(2) [OF assms] db_put_cf_abs(1) [of db1 cf key val] assms(1)
  by (auto simp: batch_stands_for_def)

lemma import_batch_stands_for:
  assumes "batch_stands_for db b db1"
  shows "case import_batch items b of
      Inr b' \<Rightarrow> (\<exists>db2. batch_stands_for db b' db2 \<and> abs_puts items (db_abs db1) = Some (db_abs db2))
    | Inl e \<Rightarrow> abs_puts items (db_abs db1) = None \<and>
        (\<exists>cf \<in> fst ` set items. db_abs db cf = None \<and> e = ''Missing column '' @ cf)"
  using assms
proof (induction items arbitrary: b db1)
  case Nil
  then show ?case by auto
next
  case (Cons x items)
  obtain cf key val where x: "x = (cf, key, val)" by (cases x) auto
  have cols: "db_abs db1 cf = None \<longleftrightarrow> db_abs db cf = None"
    using Cons.prems by (simp add: db_abs_def batch_stands_for_def)
  show ?case
  proof (cases "batch_put_cf_checked cf key val b")
    case (Inl e)
    then have "batch_put_cf cf key val b = None" by (simp add: batch_put_cf_def)
    then have n: "db_abs db1 cf = None" using batch_put_stands_for(1) [OF Cons.prems] by blast
    have "e = ''Missing column '' @ cf" using Inl by (auto simp: batch_put_cf_checked_def split: option.splits)
    then show ?thesis using Inl x n cols by (simp add: abs_put_def)
  next
    case (Inr b1)
    then have "batch_put_cf cf key val b = Some b1" by (simp add: batch_put_cf_def)
    then obtain db2 where d: "batch_stands_for db b1 db2" "abs_put cf key val (db_abs db1) = Some (db_abs db2)"
      using batch_put_abs [OF Cons.prems] by blast
    show ?thesis using Cons.IH [OF d(1)] Inr x d(2) by (auto split: sum.splits)
  qed
qed

section \<open>Construction\<close>

lemma fmlookup_enumerate:
  "fmlookup (fmextend (zip xs [n..<n + length xs]) m) x = Some i \<Longrightarrow>
     n \<le> i \<and> i < n + length xs \<and> xs ! (i - n) = x \<or> fmlookup m x = Some i"
proof (induction xs arbitrary: n m)
  case (Cons y ys)
  have "[n..<n + length (y # ys)] = n # [Suc n..<Suc n + length ys]"
    by (simp add: upt_conv_Cons del: upt_Suc)
  then have l: "fmlookup (fmextend (zip ys [Suc n..<Suc n + length ys]) (fmupd y n m)) x = Some i"
    using Cons.prems by simp
  from Cons.IH [OF this] show ?case
  proof
    assume a: "Suc n \<le> i \<and> i < Suc n + length ys \<and> ys ! (i - Suc n) = x"
    then have "i - n = Suc (i - Suc n)" by linarith
    then have "(y # ys) ! (i - n) = x" using a by simp
    then show ?thesis using a by auto
  qed (auto split: if_splits)
qed simp

lemma fresh_db_inv:
  "db_inv \<lparr>columns = fmextend (zip xs [0..<length xs]) fmempty, key_values = replicate (length xs) fmempty\<rparr>"
proof -
  have "i < length xs \<and> xs ! i = x" if "fmlookup (fmextend (zip xs [0..<length xs]) fmempty) x = Some i" for x i
    using fmlookup_enumerate [of xs 0 fmempty x i] that by simp
  then show ?thesis by (simp add: db_inv_def) blast
qed

lemma fresh_db_abs:
  "db_abs \<lparr>columns = fmextend (zip xs [0..<length xs]) fmempty, key_values = replicate (length xs) fmempty\<rparr> =
     (\<lambda>cf. if cf \<in> set xs then Some fmempty else None)"
proof
  fix cf
  let ?m = "fmextend (zip xs [0..<length xs]) fmempty"
  show "db_abs \<lparr>columns = ?m, key_values = replicate (length xs) fmempty\<rparr> cf =
      (if cf \<in> set xs then Some fmempty else None)"
  proof (cases "fmlookup ?m cf")
    case None
    then have "cf |\<notin>| fmdom ?m" by (rule fmdom_notI)
    then have "cf \<notin> set xs" by (simp add: fset_of_list_elem)
    then show ?thesis using None by (simp add: db_abs_def)
  next
    case (Some i)
    then show ?thesis using fmlookup_enumerate [of xs 0 fmempty cf i] by (auto simp: db_abs_def)
  qed
qed

lemma new_db_inv:
  assumes "\<forall>old. old_db = Some old \<longrightarrow> db_inv old" and "new_db D cols old_db = Some db"
  shows "db_inv db"
proof -
  have i: "new_in_memory D cols old_db = Some (Inr db)"
    using assms(2) by (auto simp: new_db_def new_db_with_version_def option_bind_Some_iff sum_case_eq_iff)
  show ?thesis
  proof (cases old_db)
    case None
    then show ?thesis
      using i fresh_db_inv [of "DB_COL_DEFAULT D # cols"] db_put_cf_abs(2)
      by (auto simp: new_in_memory_def with_initial_data_def option_bind_Some_iff split: option.splits)
  next
    case (Some old)
    then show ?thesis using i assms(1) by (auto simp: new_in_memory_def split: sum.splits)
  qed
qed

lemma put_keeps_columns:
  assumes "db_inv db" and "db_put_cf cf key val db = Some db'" and "db_abs db c \<noteq> None"
  shows "db_abs db' c \<noteq> None"
proof -
  have "Some (db_abs db') = abs_put cf key val (db_abs db)" using db_put_cf_abs(1) [OF assms(1)] assms(2) by (metis option.map(2))
  then show ?thesis using assms(3) by (cases "db_abs db cf") (auto simp: abs_put_def)
qed

lemma new_db_columns:
  assumes "\<forall>old. old_db = Some old \<longrightarrow> db_inv old" and "new_db D cols old_db = Some db" and "c \<in> set cols"
  shows "db_abs db c \<noteq> None"
proof -
  have i: "new_in_memory D cols old_db = Some (Inr db)"
    using assms(2) by (auto simp: new_db_def new_db_with_version_def option_bind_Some_iff sum_case_eq_iff)
  show ?thesis
  proof (cases old_db)
    case None
    let ?db = "\<lparr>columns = fmextend (zip (DB_COL_DEFAULT D # cols) [0..<length (DB_COL_DEFAULT D # cols)]) fmempty,
      key_values = replicate (length (DB_COL_DEFAULT D # cols)) fmempty\<rparr>"
    have a: "db_inv ?db" "db_abs ?db c \<noteq> None"
      using assms(3) by (simp_all only: fresh_db_inv fresh_db_abs) simp
    have "db_put_cf (DB_COL_DEFAULT D) DB_VERSION_KEY (NETWORK_VERSION_SERIALIZED D) ?db = Some db"
      using i None by (auto simp: new_in_memory_def with_initial_data_def option_bind_Some_iff split: option.splits)
    then show ?thesis using put_keeps_columns [OF a(1) _ a(2)] by blast
  next
    case (Some old)
    then have "db = old" and "c \<in> set (open_columns old)" and "db_inv old"
      using i assms(1,3) by (auto simp: new_in_memory_def check_old_includes_new_def split: sum.splits if_splits)
    then show ?thesis by (auto simp: open_columns_def db_abs_def db_inv_def)
  qed
qed

lemma new_db_old: "new_db D cols (Some old) = Some db \<Longrightarrow> db = old"
  by (auto simp: new_db_def new_db_with_version_def new_in_memory_def option_bind_Some_iff sum_case_eq_iff split: sum.splits)

section \<open>The interface of a store with columns\<close>

fun puts :: "(string \<Rightarrow> bytes \<Rightarrow> bytes \<Rightarrow> 's \<Rightarrow> 's option) \<Rightarrow> (string \<times> bytes \<times> bytes) list \<Rightarrow> 's \<Rightarrow> 's option" where
  "puts put [] s = Some s"
| "puts put ((cf, key, val) # items) s = Option.bind (put cf key val s) (puts put items)"

text \<open>The value a list of puts leaves under a key: the last one put there.\<close>

definition last_put :: "(string \<times> bytes \<times> bytes) list \<Rightarrow> string \<Rightarrow> bytes \<Rightarrow> bytes option" where
  "last_put items cf key = map_of (rev (map (\<lambda>(cf, key, val). ((cf, key), val)) items)) (cf, key)"

lemma last_put_Nil [simp]: "last_put [] cf key = None"
  by (simp add: last_put_def)

lemma last_put_Cons:
  "last_put ((cf', key', val) # items) cf key =
     (case last_put items cf key of
        Some v \<Rightarrow> Some v
      | None \<Rightarrow> if cf' = cf \<and> key' = key then Some val else None)"
  by (auto simp: last_put_def map_add_def split: option.splits)

lemma last_put_append:
  "last_put (xs @ ys) cf key = (case last_put ys cf key of Some v \<Rightarrow> Some v | None \<Rightarrow> last_put xs cf key)"
  by (auto simp: last_put_def map_add_def split: option.splits)

locale column_store =
  fixes ok :: "'s \<Rightarrow> bool"
    and has :: "'s \<Rightarrow> string \<Rightarrow> bool"
    and get :: "string \<Rightarrow> bytes \<Rightarrow> 's \<Rightarrow> bytes option may_panic"
    and put :: "string \<Rightarrow> bytes \<Rightarrow> bytes \<Rightarrow> 's \<Rightarrow> 's may_panic"
  assumes put_panics: "ok s \<Longrightarrow> put cf key val s = None \<longleftrightarrow> \<not> has s cf"
    and put_ok: "ok s \<Longrightarrow> put cf key val s = Some t \<Longrightarrow> ok t"
    and has_put: "ok s \<Longrightarrow> put cf key val s = Some t \<Longrightarrow> has t cf' = has s cf'"
    and get_panics: "ok s \<Longrightarrow> get cf key s = None \<longleftrightarrow> \<not> has s cf"
    and get_put: "ok s \<Longrightarrow> put cf key val s = Some t \<Longrightarrow>
      get cf' key' t = (if cf' = cf \<and> key' = key then Some (Some val) else get cf' key' s)"
begin

lemma puts_defined:
  "ok s \<Longrightarrow> puts put items s \<noteq> None \<longleftrightarrow> (\<forall>cf \<in> fst ` set items. has s cf)"
proof (induction items arbitrary: s)
  case (Cons x items)
  obtain cf key val where x: "x = (cf, key, val)" by (cases x) auto
  show ?case
  proof (cases "put cf key val s")
    case None
    then have "\<not> has s cf" using put_panics [OF Cons.prems] by blast
    then show ?thesis using None x by simp
  next
    case (Some t)
    then show ?thesis
      using x Cons.IH [OF put_ok [OF Cons.prems Some]] has_put [OF Cons.prems Some] put_panics [OF Cons.prems, of cf key val]
      by auto
  qed
qed simp

lemma puts_get:
  "ok s \<Longrightarrow> puts put items s = Some t \<Longrightarrow>
     ok t \<and> (\<forall>cf. has t cf = has s cf) \<and>
     (\<forall>cf key. get cf key t = (case last_put items cf key of Some v \<Rightarrow> Some (Some v) | None \<Rightarrow> get cf key s))"
proof (induction items arbitrary: s)
  case (Cons x items)
  obtain cf key val where x: "x = (cf, key, val)" by (cases x) auto
  then obtain u where u: "put cf key val s = Some u" "puts put items u = Some t"
    using Cons.prems(2) by (auto simp: option_bind_Some_iff)
  have "ok u" using put_ok Cons.prems(1) u(1) .
  from Cons.IH [OF this u(2)] show ?case
    using has_put [OF Cons.prems(1) u(1)] get_put [OF Cons.prems(1) u(1)]
    by (auto simp: x last_put_Cons split: option.splits)
qed simp

end

interpretation simple_db: column_store db_inv "\<lambda>db cf. db_abs db cf \<noteq> None" db_get_cf db_put_cf
proof (unfold_locales, goal_cases)
  case (1 s cf key val)
  then show ?case using db_put_cf_abs(1) [of s cf key val] by (auto simp: abs_put_def)
next
  case (2 s cf key val t)
  then show ?case by (rule db_put_cf_abs(2))
next
  case (3 s cf key val t cf')
  then have "abs_put cf key val (db_abs s) = Some (db_abs t)" using db_put_cf_abs(1) [of s cf key val] by simp
  then obtain kv where "db_abs s cf = Some kv" "db_abs t = (db_abs s)(cf \<mapsto> fmupd key val kv)"
    by (auto simp: abs_put_def)
  then show ?case by simp
next
  case (4 s cf key)
  then show ?case by (simp add: db_get_cf_abs)
next
  case (5 s cf key val t cf' key')
  then have t: "abs_put cf key val (db_abs s) = Some (db_abs t)" "db_inv t"
    using db_put_cf_abs [of s cf key val] by auto
  then obtain kv where "db_abs s cf = Some kv" "db_abs t = (db_abs s)(cf \<mapsto> fmupd key val kv)"
    by (auto simp: abs_put_def)
  then show ?case using 5(1) t(2) by (auto simp: db_get_cf_abs)
qed

lemma abs_puts_iff: "db_inv db \<Longrightarrow> map_option db_abs (puts db_put_cf items db) = abs_puts items (db_abs db)"
proof (induction items arbitrary: db)
  case (Cons x items)
  obtain cf key val where x: "x = (cf, key, val)" by (cases x) auto
  note p = db_put_cf_abs [OF Cons.prems, of cf key val]
  show ?case
  proof (cases "db_put_cf cf key val db")
    case (Some t)
    then have "abs_put cf key val (db_abs db) = Some (db_abs t)" using p(1) by simp
    then show ?thesis using Cons.IH [OF p(2) [OF Some]] Some x by simp
  next
    case None
    then have "abs_put cf key val (db_abs db) = None" using p(1) by simp
    then show ?thesis using None x by simp
  qed
qed simp

lemma batch_puts_stands_for:
  assumes "batch_stands_for db b db1"
  shows "puts batch_put_cf items b = None \<longleftrightarrow> puts db_put_cf items db1 = None"
    and "puts batch_put_cf items b = Some b' \<Longrightarrow>
      \<exists>db2. puts db_put_cf items db1 = Some db2 \<and> batch_stands_for db b' db2"
  using assms
proof (induction items arbitrary: b db1)
  case (Cons x items)
  obtain cf key val where x: "x = (cf, key, val)" by (cases x) auto
  {
    case 1
    show ?case
    proof (cases "batch_put_cf cf key val b")
      case None
      then have "db_put_cf cf key val db1 = None"
        using batch_put_stands_for(1) [OF 1] simple_db.put_panics [of db1] 1 by (simp add: batch_stands_for_def)
      then show ?thesis using None x by simp
    next
      case (Some b1)
      then show ?thesis using batch_put_stands_for(2) [OF 1 Some] Cons.IH(1) x by auto
    qed
  next
    case 2
    then obtain b1 where b1: "batch_put_cf cf key val b = Some b1" "puts batch_put_cf items b1 = Some b'"
      using x by (auto simp: option_bind_Some_iff)
    then show ?case using batch_put_stands_for(2) [OF 2(2) b1(1)] Cons.IH(2) [OF b1(2)] x by auto
  }
qed (auto simp: batch_stands_for_def)

text \<open>A batch of puts, written: the puts done one after the other.\<close>

lemma write_batch_of_puts:
  assumes "db_inv db"
  shows "Option.bind (puts batch_put_cf items (batch_writer db)) (\<lambda>b. db_write (batch_done b) db) =
    puts db_put_cf items db"
proof -
  note b = batch_puts_stands_for [OF batch_writer_stands_for [OF assms], of items]
  show ?thesis
  proof (cases "puts batch_put_cf items (batch_writer db)")
    case None
    then show ?thesis using b(1) by simp
  next
    case (Some b')
    then show ?thesis using b(2) [OF Some] by (auto simp: batch_stands_for_def)
  qed
qed

section \<open>Properties\<close>

text \<open>Actions, each a put or a delete, collected in a batch or done at once on the abstract database.\<close>

fun batch_actions :: "(string \<times> bytes \<times> bytes option) list \<Rightarrow> SimpleDbWriteBatch \<Rightarrow> SimpleDbWriteBatch option" where
  "batch_actions [] b = Some b"
| "batch_actions ((cf, key, Some val) # as) b = Option.bind (batch_put_cf cf key val b) (batch_actions as)"
| "batch_actions ((cf, key, None) # as) b = Option.bind (batch_delete_cf cf key b) (batch_actions as)"

fun abs_actions :: "(string \<times> bytes \<times> bytes option) list \<Rightarrow> db_view \<Rightarrow> db_view option" where
  "abs_actions [] m = Some m"
| "abs_actions ((cf, key, Some val) # as) m = Option.bind (abs_put cf key val m) (abs_actions as)"
| "abs_actions ((cf, key, None) # as) m = Option.bind (abs_delete cf key m) (abs_actions as)"

lemma batch_delete_abs:
  assumes "batch_stands_for db b db1"
  shows "batch_delete_cf cf key b = None \<Longrightarrow> abs_delete cf key (db_abs db1) = None"
    and "batch_delete_cf cf key b = Some b' \<Longrightarrow>
      \<exists>db2. batch_stands_for db b' db2 \<and> abs_delete cf key (db_abs db1) = Some (db_abs db2)"
proof -
  have c: "batch_columns b = columns db" "columns db1 = columns db" "db_inv db1" using assms by (auto simp: batch_stands_for_def)
  show "abs_delete cf key (db_abs db1) = None" if "batch_delete_cf cf key b = None"
    using that c by (auto simp: batch_delete_cf_def db_abs_def abs_delete_def split: option.splits)
  show "\<exists>db2. batch_stands_for db b' db2 \<and> abs_delete cf key (db_abs db1) = Some (db_abs db2)" if "batch_delete_cf cf key b = Some b'"
    using batch_delete_stands_for [OF assms that] db_delete_cf_abs(1) [OF c(3), of cf key] by auto
qed

lemma batch_actions_abs:
  assumes "batch_stands_for db b db1"
  shows "case batch_actions as b of
      None \<Rightarrow> abs_actions as (db_abs db1) = None
    | Some b' \<Rightarrow> (\<exists>db2. batch_stands_for db b' db2 \<and> abs_actions as (db_abs db1) = Some (db_abs db2))"
  using assms
proof (induction as b arbitrary: db1 rule: batch_actions.induct)
  case (2 cf key val as b)
  show ?case
  proof (cases "batch_put_cf cf key val b")
    case None
    then show ?thesis using batch_put_stands_for(1) [OF 2(2), of cf key val] by (simp add: abs_put_def)
  next
    case (Some b1)
    then obtain db2 where "batch_stands_for db b1 db2" "abs_put cf key val (db_abs db1) = Some (db_abs db2)"
      using batch_put_abs [OF 2(2) Some] by blast
    then show ?thesis using 2(1) [OF Some] Some by (cases "batch_actions as b1") force+
  qed
next
  case (3 cf key as b)
  show ?case
  proof (cases "batch_delete_cf cf key b")
    case None
    then show ?thesis using batch_delete_abs(1) [OF 3(2)] by simp
  next
    case (Some b1)
    then obtain db2 where "batch_stands_for db b1 db2" "abs_delete cf key (db_abs db1) = Some (db_abs db2)"
      using batch_delete_abs(2) [OF 3(2) Some] by blast
    then show ?thesis using 3(1) [OF Some] Some by (cases "batch_actions as b1") force+
  qed
qed auto

text \<open>C13: The in-memory database implements the abstract one. Looking at a database through
  \<open>db_abs\<close>, putting, deleting, reading, counting, iterating and adding a column are the operations on
  a map from columns to maps, including the panic on a column that does not exist, and every
  operation keeps the columns at different positions in range. Collecting puts and deletes in a batch
  panics exactly when one of them names a column that does not exist; otherwise writing the batch
  succeeds and is doing its actions one after the other, in their order.\<close>

theorem simple_db_refines:
  assumes "db_inv db"
  shows "map_option db_abs (db_put_cf cf key val db) = abs_put cf key val (db_abs db) \<and>
    map_option db_abs (db_delete_cf cf key db) = abs_delete cf key (db_abs db) \<and>
    db_get_cf cf key db = map_option (\<lambda>kv. fmlookup kv key) (db_abs db cf) \<and>
    db_count_cf cf db = map_option fmlen (db_abs db cf) \<and>
    db_iter_cf_clone cf db = map_option sorted_list_of_fmap (db_abs db cf) \<and>
    db_abs (upgrade_create_missing_cf cf db) =
      (if db_abs db cf = None then (db_abs db)(cf \<mapsto> fmempty) else db_abs db) \<and>
    db_inv (upgrade_create_missing_cf cf db) \<and>
    list_all db_inv (List.map_filter id [db_put_cf cf key val db, db_delete_cf cf key db]) \<and>
    (case batch_actions as (batch_writer db) of
       None \<Rightarrow> abs_actions as (db_abs db) = None
     | Some b \<Rightarrow> (\<exists>db'. db_write (batch_done b) db = Some db' \<and> db_inv db' \<and> abs_actions as (db_abs db) = Some (db_abs db')))"
proof -
  have "case batch_actions as (batch_writer db) of
       None \<Rightarrow> abs_actions as (db_abs db) = None
     | Some b \<Rightarrow> (\<exists>db'. db_write (batch_done b) db = Some db' \<and> db_inv db' \<and> abs_actions as (db_abs db) = Some (db_abs db'))"
    using batch_actions_abs [OF batch_writer_stands_for [OF assms], of as]
    by (auto simp: batch_stands_for_def split: option.splits)
  then show ?thesis
    using db_put_cf_abs [OF assms, of cf key val] db_delete_cf_abs [OF assms, of cf key]
      upgrade_create_missing_cf_abs [OF assms, of cf] assms
    by (simp add: db_get_cf_abs db_count_cf_abs db_iter_cf_abs map_filter_simps split: option.splits)
qed

text \<open>Importing items is all or nothing. If every column exists, the import succeeds and the
  database is what putting the items one after the other gives; otherwise the import fails naming a
  missing column among those of the items and the database is unchanged. It does not panic.\<close>

lemma import_items_atomic:
  assumes "db_inv db"
  shows "if \<forall>cf \<in> fst ` set items. db_abs db cf \<noteq> None
    then \<exists>db'. import_items items db = Some (db', Inr ()) \<and> db_inv db' \<and>
           puts db_put_cf items db = Some db' \<and> abs_puts items (db_abs db) = Some (db_abs db')
    else \<exists>cf \<in> fst ` set items. db_abs db cf = None \<and>
           import_items items db = Some (db, Inl (''Missing column '' @ cf))"
proof -
  note i = import_batch_stands_for [OF batch_writer_stands_for [OF assms], of items]
  have d: "abs_puts items (db_abs db) \<noteq> None \<longleftrightarrow> (\<forall>cf \<in> fst ` set items. db_abs db cf \<noteq> None)"
    unfolding abs_puts_iff [OF assms, symmetric] using simple_db.puts_defined [OF assms, of items] by simp
  have eq: "import_batch xs b = Inr b' \<Longrightarrow> puts batch_put_cf xs b = Some b'" for xs b b'
    by (induction xs arbitrary: b) (auto simp: batch_put_cf_def split: sum.splits)
  show ?thesis
  proof (cases "import_batch items (batch_writer db)")
    case (Inl e)
    then show ?thesis using i d by (auto simp: import_items_def)
  next
    case (Inr b)
    then obtain db2 where db2: "batch_stands_for db b db2" "abs_puts items (db_abs db) = Some (db_abs db2)"
      using i by auto
    have "puts db_put_cf items db = Some db2"
      using write_batch_of_puts [OF assms, of items] eq [OF Inr] db2(1) by (simp add: batch_stands_for_def)
    then show ?thesis
      using Inr d db2 by (auto simp: import_items_def batch_stands_for_def)
  qed
qed

section \<open>Witnesses\<close>

definition demo_db_ext :: db_ext where
  "demo_db_ext = \<lparr>DB_COL_DEFAULT = ''default'', NETWORK_VERSION_SERIALIZED = [5]\<rparr>"

definition demo_db :: SimpleDb where
  "demo_db = \<lparr>columns = fmupd ''a'' 0 (fmupd ''b'' 1 fmempty), key_values = [fmempty, fmupd [1] [2] fmempty]\<rparr>"

lemma demo_db_inv: "db_inv demo_db"
  by (simp add: db_inv_def demo_db_def)

theorem simple_db_refines_witness:
  "db_get_cf ''b'' [1] demo_db = Some (Some [2]) \<and> db_get_cf ''c'' [1] demo_db = None \<and>
   map_option db_abs (db_put_cf ''a'' [3] [4] demo_db) = abs_put ''a'' [3] [4] (db_abs demo_db) \<and>
   (\<exists>b db'. batch_actions [(''a'', [3], Some [4]), (''b'', [1], None)] (batch_writer demo_db) = Some b \<and>
      db_write (batch_done b) demo_db = Some db' \<and> db_abs db' ''b'' = Some fmempty)"
proof -
  note t = simple_db_refines [OF demo_db_inv]
  let ?as = "[(''a'', [3], Some [4]), (''b'', [1], None)]"
  have "batch_actions ?as (batch_writer demo_db) = Some \<lparr>batch_write = [(0, [3], Some [4]), (1, [1], None)], batch_columns = columns demo_db\<rparr>"
    by (simp add: batch_writer_def batch_put_cf_def batch_put_cf_checked_def batch_delete_cf_def demo_db_def)
  moreover obtain m where "abs_actions ?as (db_abs demo_db) = Some m" "m ''b'' = Some fmempty"
    by (auto simp: abs_put_def abs_delete_def db_abs_def demo_db_def fmdrop_fmupd_fresh)
  moreover have "case batch_actions ?as (batch_writer demo_db) of
       None \<Rightarrow> abs_actions ?as (db_abs demo_db) = None
     | Some b \<Rightarrow> (\<exists>db'. db_write (batch_done b) demo_db = Some db' \<and> db_inv db' \<and> abs_actions ?as (db_abs demo_db) = Some (db_abs db'))"
    using t [where as = ?as] by blast
  ultimately have "\<exists>b db'. batch_actions ?as (batch_writer demo_db) = Some b \<and>
      db_write (batch_done b) demo_db = Some db' \<and> db_abs db' ''b'' = Some fmempty"
    by (simp del: batch_actions.simps abs_actions.simps) blast
  then show ?thesis
    using t [where cf = "''b''" and key = "[1]"] t [where cf = "''c''" and key = "[1]"]
      t [where cf = "''a''" and key = "[3]" and val = "[4]"]
    by (simp add: db_abs_def demo_db_def)
qed

lemma import_items_atomic_demo:
  "(\<exists>db'. import_items [(''a'', [1], [9])] demo_db = Some (db', Inr ())) \<and>
   import_items [(''a'', [1], [9]), (''c'', [1], [9])] demo_db = Some (demo_db, Inl ''Missing column c'')"
  using import_items_atomic [OF demo_db_inv, of "[(''a'', [1], [9])]"]
    import_items_atomic [OF demo_db_inv, of "[(''a'', [1], [9]), (''c'', [1], [9])]"]
  by (auto simp: db_abs_def demo_db_def split: if_splits)

end
