(* ===== verification/Storage_Raft.thy ===== *)
theory Storage_Raft
  imports Storage_Fetch Raft_Util Votes Unicorn
begin

text \<open>
  The consensus side of a storage node, \<open>StorageRaft\<close> of \<^verbatim>\<open>src/storage_raft.rs\<close>. Each
  compute node sends its mined block to a storage node, which proposes it as a part; when
  sufficiently many proposers have committed the same block, the block is complete and its number
  is passed. The parts of a block are a vote counter (the locale \<open>hashed_vote_box\<close>, keyed by the
  hash of the block), so the quorum lemmas apply. Serialisation and hashing are parameters
  (\<open>storage_raft_ext\<close>).
\<close>

section \<open>Model\<close>

record CommonBlockInfo =
  common_block :: Block
  block_txs :: TxMap
  pow_p_value :: u8
  pow_d_value :: u8
  common_unicorn :: Unicorn
  common_unicorn_witness :: int

record MinedBlock =
  mined_common :: CommonBlockInfo
  mined_extra_info :: MinedBlockExtraInfo

record ReceivedBlock =
  received_peer :: SocketAddr
  received_common :: CommonBlockInfo
  received_per_node :: MinedBlockExtraInfo

datatype StorageRaftItem = PartBlock ReceivedBlock

datatype StorageCommittedItem = StorageBlock | StorageSnapshot

record CompleteBlock =
  complete_common :: CommonBlockInfo
  complete_extra_info :: MinedBlockExtraInfo

record CompleteBlockBuilder =
  builder_common :: CommonBlockInfo
  builder_per_node :: "(u64, MinedBlockExtraInfo) fmap"

record StorageConsensused =
  s_sufficient_majority :: nat
  s_current_block_num :: u64
  current_block_completed_parts :: "(bytes, CompleteBlockBuilder) fmap"
  s_last_committed_raft_idx_and_term :: "u64 \<times> u64"
  last_block_stored :: "BlockStoredInfo option"

record StorageConsensusedImport =
  simport_sufficient_majority :: nat
  simport_current_block_num :: u64
  simport_last_committed_raft_idx_and_term :: "u64 \<times> u64"
  simport_last_block_stored :: "BlockStoredInfo option"

record StorageRaft =
  s_first_raft_peer :: bool
  s_raft_active :: ActiveRaft
  s_consensused :: StorageConsensused
  s_consensused_snapshot_applied :: bool
  s_in_flight :: RaftInFlightProposals
  s_shutdown_no_commit_process :: bool
  s_backup_check :: BackupCheck

record storage_raft_ext =
  s_codec :: "StorageRaftItem raft_codec"
  s_cons_serialize :: "StorageConsensused \<Rightarrow> bytes option"
  s_cons_deserialize :: "bytes \<Rightarrow> StorageConsensused option"
  common_serialize :: "CommonBlockInfo \<Rightarrow> bytes option"
  common_digest :: "bytes \<Rightarrow> bytes"

subsection \<open>The consensused state\<close>

definition StorageConsensused_default :: StorageConsensused where
  "StorageConsensused_default =
     \<lparr>s_sufficient_majority = 0, s_current_block_num = 0, current_block_completed_parts = fmempty,
      s_last_committed_raft_idx_and_term = (0, 0), last_block_stored = None\<rparr>"

definition storage_with_peers_len :: "nat \<Rightarrow> StorageConsensused \<Rightarrow> StorageConsensused" where
  "storage_with_peers_len n self = self\<lparr>s_sufficient_majority := n div 2 + 1\<rparr>"

definition storage_from_import :: "StorageConsensusedImport \<Rightarrow> StorageConsensused" where
  "storage_from_import imp =
     \<lparr>s_sufficient_majority = simport_sufficient_majority imp,
      s_current_block_num = simport_current_block_num imp,
      current_block_completed_parts = fmempty,
      s_last_committed_raft_idx_and_term = simport_last_committed_raft_idx_and_term imp,
      last_block_stored = simport_last_block_stored imp\<rparr>"

definition storage_into_import :: "StorageConsensused \<Rightarrow> StorageConsensusedImport" where
  "storage_into_import self =
     \<lparr>simport_sufficient_majority = s_sufficient_majority self,
      simport_current_block_num = s_current_block_num self,
      simport_last_committed_raft_idx_and_term = s_last_committed_raft_idx_and_term self,
      simport_last_block_stored = last_block_stored self\<rparr>"

definition storage_is_current_block :: "StorageConsensused \<Rightarrow> u64 \<Rightarrow> bool" where
  "storage_is_current_block self bn \<longleftrightarrow> bn = s_current_block_num self"

definition part_votes :: "CompleteBlockBuilder \<Rightarrow> nat" where
  "part_votes v = fmlen (builder_per_node v)"

definition has_block_ready_to_store :: "StorageConsensused \<Rightarrow> bool" where
  "has_block_ready_to_store self \<longleftrightarrow>
     s_sufficient_majority self \<le> max_or_0 (map part_votes (fmvalues (current_block_completed_parts self)))"

definition common_hash :: "storage_raft_ext \<Rightarrow> CommonBlockInfo \<Rightarrow> bytes may_panic" where
  "common_hash E common = map_option (common_digest E) (common_serialize E common)"

definition append_received_block ::
    "storage_raft_ext \<Rightarrow> RaftContextKey \<Rightarrow> ReceivedBlock \<Rightarrow> StorageConsensused \<Rightarrow> StorageConsensused may_panic" where
  "append_received_block E key part self =
     do { block_hash \<leftarrow> common_hash E (received_common part);
          Some (self\<lparr>current_block_completed_parts :=
            fmentry \<lparr>builder_common = received_common part, builder_per_node = fmempty\<rparr> block_hash
              (\<lambda>b. b\<lparr>builder_per_node :=
                 fmupd (key_proposer_id key) (received_per_node part) (builder_per_node b)\<rparr>)
              (current_block_completed_parts self)\<rparr>) }"

definition generate_complete_block :: "StorageConsensused \<Rightarrow> (StorageConsensused \<times> CompleteBlock) may_panic" where
  "generate_complete_block self =
     (let completed_parts = current_block_completed_parts self;
          self = self\<lparr>s_current_block_num := s_current_block_num self + 1,
                      current_block_completed_parts := fmempty\<rparr>
      in do {
        parts \<leftarrow> max_by_key part_votes (fmvalues completed_parts);
        Some (self,
          \<lparr>complete_common = builder_common parts,
           complete_extra_info =
             \<lparr>mined_shutdown = list_all mined_shutdown (fmvalues (builder_per_node parts))\<rparr>\<rparr>) })"

subsection \<open>The consensus node\<close>

definition StorageRaft_new :: "StorageNodeConfig \<Rightarrow> StorageRaft may_panic" where
  "StorageRaft_new config =
     do { let raft_used = (storage_raft config \<noteq> 0);
          raft \<leftarrow> ActiveRaft_new (storage_node_idx config) (storage_nodes_config config) raft_used;
          Some \<lparr>s_first_raft_peer = (storage_node_idx config = 0 \<or> \<not> use_raft raft),
                s_raft_active = raft,
                s_consensused = storage_with_peers_len (peers_len raft) StorageConsensused_default,
                s_consensused_snapshot_applied = (\<not> raft_used),
                s_in_flight = RaftInFlightProposals_default,
                s_shutdown_no_commit_process = False,
                s_backup_check = \<lparr>backup_modulo_block_num = storage_backup_block_modulo config\<rparr>\<rparr> }"

definition storage_set_key_run :: "u64 \<Rightarrow> StorageRaft \<Rightarrow> StorageRaft" where
  "storage_set_key_run key_run self = self\<lparr>s_in_flight := in_flight_set_key_run (s_in_flight self) key_run\<rparr>"

definition storage_need_initial_state :: "StorageRaft \<Rightarrow> bool" where
  "storage_need_initial_state self \<longleftrightarrow> \<not> s_consensused_snapshot_applied self"

definition storage_get_last_block_stored :: "StorageRaft \<Rightarrow> BlockStoredInfo option" where
  "storage_get_last_block_stored self = last_block_stored (s_consensused self)"

definition is_shutdown_commit_processed :: "StorageRaft \<Rightarrow> bool" where
  "is_shutdown_commit_processed self \<longleftrightarrow> s_shutdown_no_commit_process self"

definition storage_need_backup :: "StorageRaft \<Rightarrow> bool may_panic" where
  "storage_need_backup self =
     (case storage_get_last_block_stored self of
        Some b \<Rightarrow> need_backup_at (s_backup_check self) (block_num b)
      | None \<Rightarrow> Some False)"

definition storage_set_ignore_dedeup_b_num_less_than_current :: "StorageRaft \<Rightarrow> StorageRaft" where
  "storage_set_ignore_dedeup_b_num_less_than_current self =
     self\<lparr>s_in_flight := ignore_dedeup_b_num_less_than (s_in_flight self) (s_current_block_num (s_consensused self))\<rparr>"

definition storage_apply_snapshot ::
    "storage_raft_ext \<Rightarrow> RaftData \<Rightarrow> StorageRaft \<Rightarrow> (StorageRaft \<times> StorageCommittedItem option) may_panic" where
  "storage_apply_snapshot E consensused_ser self =
     (let self = self\<lparr>s_consensused_snapshot_applied := True\<rparr> in
      if consensused_ser = [] then Some (self, None)
      else do {
        c \<leftarrow> s_cons_deserialize E consensused_ser;
        Some (storage_set_ignore_dedeup_b_num_less_than_current (self\<lparr>s_consensused := c\<rparr>), Some StorageSnapshot) })"

definition storage_commit_item ::
    "storage_raft_ext \<Rightarrow> RaftContextKey \<Rightarrow> StorageRaftItem \<Rightarrow> StorageRaft \<Rightarrow> StorageRaft may_panic" where
  "storage_commit_item E key item self =
     (case item of
        PartBlock part \<Rightarrow>
          if storage_is_current_block (s_consensused self) (b_num (header (common_block (received_common part))))
          then do { c \<leftarrow> append_received_block E key part (s_consensused self);
                    Some (self\<lparr>s_consensused := c\<rparr>) }
          else Some self)"

definition storage_received_commit_proposal ::
    "storage_raft_ext \<Rightarrow> RaftData \<Rightarrow> RaftData \<Rightarrow> StorageRaft \<Rightarrow> (StorageRaft \<times> StorageCommittedItem option) may_panic" where
  "storage_received_commit_proposal E raft_data raft_ctx self =
     (case in_flight_received_commit_proposal (s_codec E) (s_in_flight self) raft_data raft_ctx of
        (flight, None) \<Rightarrow> Some (self\<lparr>s_in_flight := flight\<rparr>, None)
      | (flight, Some (key, item, _)) \<Rightarrow>
          do { self \<leftarrow> storage_commit_item E key item (self\<lparr>s_in_flight := flight\<rparr>);
               Some (self, if has_block_ready_to_store (s_consensused self) then Some StorageBlock else None) })"

definition storage_received_commit ::
    "storage_raft_ext \<Rightarrow> RaftCommit \<Rightarrow> StorageRaft \<Rightarrow> (StorageRaft \<times> StorageCommittedItem option) may_panic" where
  "storage_received_commit E raft_commit self =
     (let self = self\<lparr>s_consensused := (s_consensused self)\<lparr>s_last_committed_raft_idx_and_term :=
           (commit_index raft_commit, commit_term raft_commit)\<rparr>\<rparr> in
      case commit_data raft_commit of
        Proposed data ctx \<Rightarrow> storage_received_commit_proposal E data ctx self
      | CommitSnapshot data \<Rightarrow> storage_apply_snapshot E data self
      | NewLeader \<Rightarrow>
          Some (self\<lparr>s_raft_active := re_propose_all_items (s_in_flight self) (s_raft_active self)\<rparr>, None))"

definition storage_received_message :: "bytes \<Rightarrow> StorageRaft \<Rightarrow> StorageRaft" where
  "storage_received_message msg self = self\<lparr>s_raft_active := raft_received_message (s_raft_active self) msg\<rparr>"

definition storage_propose_item_dedup ::
    "storage_raft_ext \<Rightarrow> StorageRaftItem \<Rightarrow> u64 \<Rightarrow> StorageRaft \<Rightarrow> (StorageRaft \<times> RaftContextKey option) may_panic" where
  "storage_propose_item_dedup E item bn self =
     do { (flight, r, key) \<leftarrow>
            in_flight_propose_item (s_codec E) (s_in_flight self) (s_raft_active self) item (Some bn);
          Some (self\<lparr>s_in_flight := flight, s_raft_active := r\<rparr>, key) }"

definition propose_received_part_block ::
    "storage_raft_ext \<Rightarrow> SocketAddr \<Rightarrow> CommonBlockInfo \<Rightarrow> MinedBlockExtraInfo \<Rightarrow> StorageRaft \<Rightarrow>
     (StorageRaft \<times> bool) may_panic" where
  "propose_received_part_block E peer common mined_info self =
     do { (self, key) \<leftarrow> storage_propose_item_dedup E
            (PartBlock \<lparr>received_peer = peer, received_common = common, received_per_node = mined_info\<rparr>)
            (b_num (header (common_block common))) self;
          Some (self, key \<noteq> None) }"

definition storage_re_propose_uncommitted_current_b_num :: "StorageRaft \<Rightarrow> StorageRaft" where
  "storage_re_propose_uncommitted_current_b_num self =
     self\<lparr>s_raft_active := in_flight_re_propose_uncommitted_current_b_num (s_in_flight self) (s_raft_active self)
            (s_current_block_num (s_consensused self))\<rparr>"

definition storage_event_processed_generate_snapshot ::
    "storage_raft_ext \<Rightarrow> BlockStoredInfo \<Rightarrow> StorageRaft \<Rightarrow> StorageRaft may_panic" where
  "storage_event_processed_generate_snapshot E block_stored self =
     (let self = storage_set_ignore_dedeup_b_num_less_than_current self;
          self = self\<lparr>s_consensused := (s_consensused self)\<lparr>last_block_stored := Some block_stored\<rparr>\<rparr>
      in do {
        consensused_ser \<leftarrow> s_cons_serialize E (s_consensused self);
        backup \<leftarrow> storage_need_backup self;
        let self = self\<lparr>s_raft_active := create_snapshot (s_raft_active self)
              (fst (s_last_committed_raft_idx_and_term (s_consensused self))) consensused_ser backup\<rparr>;
        Some (if stored_shutdown block_stored then self\<lparr>s_shutdown_no_commit_process := True\<rparr> else self) })"

definition storage_generate_complete_block :: "StorageRaft \<Rightarrow> (StorageRaft \<times> CompleteBlock) may_panic" where
  "storage_generate_complete_block self =
     do { (c, b) \<leftarrow> generate_complete_block (s_consensused self);
          Some (self\<lparr>s_consensused := c\<rparr>, b) }"

section \<open>Parts as votes\<close>

definition part_voters :: "StorageConsensused \<Rightarrow> bytes \<Rightarrow> u64 fset" where
  "part_voters c h =
     (case fmlookup (current_block_completed_parts c) h of None \<Rightarrow> {||} | Some b \<Rightarrow> fmdom (builder_per_node b))"

definition part_value :: "StorageConsensused \<Rightarrow> bytes \<Rightarrow> CommonBlockInfo option" where
  "part_value c h = map_option builder_common (fmlookup (current_block_completed_parts c) h)"

definition part_key :: "storage_raft_ext \<Rightarrow> CommonBlockInfo \<Rightarrow> bytes" where
  "part_key E common = the (common_hash E common)"

definition part_voted ::
    "storage_raft_ext \<Rightarrow> StorageConsensused \<Rightarrow> CommonBlockInfo \<Rightarrow> u64 \<Rightarrow> StorageConsensused \<Rightarrow> bool" where
  "part_voted E c common p d \<longleftrightarrow>
     (\<exists>key part. append_received_block E key part c = Some d \<and> received_common part = common \<and>
        key_proposer_id key = p)"

interpretation parts: hashed_vote_box part_voters "part_key E" "part_voted E" part_value for E
  by unfold_locales
    (auto simp: part_voted_def append_received_block_def part_voters_def part_value_def part_key_def
      option_bind_Some_iff split: option.splits)

text \<open>The parts of a block, committed one after the other.\<close>

type_synonym part_log = "(RaftContextKey \<times> ReceivedBlock) list"

fun append_parts :: "storage_raft_ext \<Rightarrow> part_log \<Rightarrow> StorageConsensused \<Rightarrow> StorageConsensused may_panic" where
  "append_parts E [] c = Some c"
| "append_parts E ((key, part) # ps) c = Option.bind (append_received_block E key part c) (append_parts E ps)"

definition part_casts :: "part_log \<Rightarrow> (CommonBlockInfo \<times> u64) list" where
  "part_casts ps = map (\<lambda>(key, part). (received_common part, key_proposer_id key)) ps"

text \<open>The proposers of a block, and what each of them said last about it.\<close>

definition proposers :: "part_log \<Rightarrow> CommonBlockInfo \<Rightarrow> u64 set" where
  "proposers ps common = {p. (common, p) \<in> set (part_casts ps)}"

definition last_infos :: "part_log \<Rightarrow> CommonBlockInfo \<Rightarrow> (u64 \<times> MinedBlockExtraInfo) list" where
  "last_infos ps common =
     rev (map (\<lambda>(key, part). (key_proposer_id key, received_per_node part))
       (filter (\<lambda>(_, part). received_common part = common) ps))"

definition parts_no_collision :: "storage_raft_ext \<Rightarrow> part_log \<Rightarrow> bool" where
  "parts_no_collision E ps \<longleftrightarrow>
     (\<forall>(_, a) \<in> set ps. \<forall>(_, b) \<in> set ps.
        common_hash E (received_common a) = common_hash E (received_common b) \<longrightarrow>
        received_common a = received_common b)"

lemma append_parts_append:
  "append_parts E (ps @ qs) c = Option.bind (append_parts E ps c) (append_parts E qs)"
  by (induction ps arbitrary: c) (auto split: Option.bind_splits)

lemma append_received_frame:
  "append_received_block E key part c = Some d \<Longrightarrow>
     s_sufficient_majority d = s_sufficient_majority c \<and> s_current_block_num d = s_current_block_num c \<and>
     last_block_stored d = last_block_stored c \<and>
     s_last_committed_raft_idx_and_term d = s_last_committed_raft_idx_and_term c"
  by (auto simp: append_received_block_def option_bind_Some_iff)

lemma append_parts_frame:
  "append_parts E ps c = Some d \<Longrightarrow>
     s_sufficient_majority d = s_sufficient_majority c \<and> s_current_block_num d = s_current_block_num c"
  by (induction ps arbitrary: c) (auto simp: option_bind_Some_iff dest!: append_received_frame)

lemma append_parts_casts:
  "append_parts E ps c = Some d \<Longrightarrow> casts (part_voted E) c (part_casts ps) d"
proof (induction ps arbitrary: d rule: rev_induct)
  case Nil
  then show ?case by (simp add: part_casts_def casts_Nil)
next
  case (snoc x ps)
  obtain key part where x: "x = (key, part)" by (cases x) auto
  obtain m where m: "append_parts E ps c = Some m" "append_received_block E key part m = Some d"
    using snoc.prems x by (auto simp: append_parts_append option_bind_Some_iff)
  then have "part_voted E m (received_common part) (key_proposer_id key) d" by (auto simp: part_voted_def)
  then show ?case using casts_snoc [OF snoc.IH [OF m(1)]] x by (simp add: part_casts_def)
qed

lemma part_casts_mem: "(v, p) \<in> set (part_casts ps) \<longleftrightarrow> (\<exists>key part. (key, part) \<in> set ps \<and> received_common part = v \<and> key_proposer_id key = p)"
  by (force simp: part_casts_def)

lemma append_parts_hashes:
  "append_parts E ps c = Some d \<Longrightarrow> (key, part) \<in> set ps \<Longrightarrow> common_hash E (received_common part) \<noteq> None"
  by (induction ps arbitrary: c) (auto simp: option_bind_Some_iff append_received_block_def)

lemma parts_key_inject:
  assumes "append_parts E ps c = Some d" and "parts_no_collision E ps"
    and "(v, p) \<in> set (part_casts ps)" and "(v', p') \<in> set (part_casts ps)" and "part_key E v = part_key E v'"
  shows "v = v'"
proof -
  obtain a b k k' where ab: "(k, a) \<in> set ps" "received_common a = v" "(k', b) \<in> set ps" "received_common b = v'"
    using assms(3,4) by (auto simp: part_casts_mem)
  then have "common_hash E v \<noteq> None" "common_hash E v' \<noteq> None" using append_parts_hashes [OF assms(1)] by auto
  then have "common_hash E v = common_hash E v'" using assms(5) by (auto simp: part_key_def)
  then show ?thesis using assms(2) ab by (fastforce simp: parts_no_collision_def)
qed

text \<open>A builder in the map: its block was proposed, by exactly its voters, with their last words.\<close>

lemma per_node_entries:
  assumes "append_parts E ps c = Some d" and "parts_no_collision E ps"
    and "current_block_completed_parts c = fmempty"
    and "fmlookup (current_block_completed_parts d) h = Some b"
  shows "fmlookup (builder_per_node b) = map_of (last_infos ps (builder_common b))"
  using assms
proof (induction ps arbitrary: d b h rule: rev_induct)
  case Nil
  then show ?case by simp
next
  case (snoc x ps)
  obtain key part where x: "x = (key, part)" by (cases x) auto
  obtain m where m: "append_parts E ps c = Some m" "append_received_block E key part m = Some d"
    using snoc.prems(1) x by (auto simp: append_parts_append option_bind_Some_iff)
  obtain h' where h': "common_hash E (received_common part) = Some h'"
    using m(2) by (auto simp: append_received_block_def option_bind_Some_iff)
  have nc: "parts_no_collision E ps" using snoc.prems(2) by (auto simp: parts_no_collision_def)
  have li: "last_infos (ps @ [x]) v = (if received_common part = v
      then (key_proposer_id key, received_per_node part) # last_infos ps v else last_infos ps v)" for v
    by (simp add: last_infos_def x)
  have d: "current_block_completed_parts d =
      fmentry \<lparr>builder_common = received_common part, builder_per_node = fmempty\<rparr> h'
        (\<lambda>b. b\<lparr>builder_per_node := fmupd (key_proposer_id key) (received_per_node part) (builder_per_node b)\<rparr>)
        (current_block_completed_parts m)"
    using m(2) h' by (auto simp: append_received_block_def)
  have stored: "\<exists>p. (builder_common b0, p) \<in> set (part_casts ps)" and k: "part_key E (builder_common b0) = h0"
    if "fmlookup (current_block_completed_parts m) h0 = Some b0" for b0 h0
    using parts.stored_casts [OF append_parts_casts [OF m(1)], of h0 "builder_common b0"] that snoc.prems(3)
    by (auto simp: part_value_def)
  have old: "builder_common b0 \<noteq> received_common part"
    if "fmlookup (current_block_completed_parts m) h0 = Some b0" "h0 \<noteq> h'" for b0 h0
    using k [OF that(1)] that(2) h' by (auto simp: part_key_def)
  show ?case
  proof (cases "h = h'")
    case False
    then have b: "fmlookup (current_block_completed_parts m) h = Some b" using snoc.prems(4) d by simp
    then show ?thesis using snoc.IH [OF m(1) nc snoc.prems(3)] old [OF b False] li by simp
  next
    case True
    show ?thesis
    proof (cases "fmlookup (current_block_completed_parts m) h'")
      case None
      have "last_infos ps (received_common part) = []"
      proof (rule ccontr)
        assume "last_infos ps (received_common part) \<noteq> []"
        then obtain q a where a: "(q, a) \<in> set ps" "received_common a = received_common part"
          by (auto simp: last_infos_def filter_empty_conv)
        have "(received_common part, key_proposer_id q) \<in> set (part_casts ps)" using a by (auto simp: part_casts_mem)
        moreover have "\<forall>(v', p') \<in> set (part_casts ps). part_key E v' = part_key E (received_common part) \<longrightarrow>
            v' = received_common part"
          using parts_key_inject [OF m(1) nc] calculation by blast
        ultimately have "part_value m (part_key E (received_common part)) = Some (received_common part)"
          using parts.stored_of_voted [OF append_parts_casts [OF m(1)]] snoc.prems(3) by (simp add: part_value_def)
        then show False using None h' by (auto simp: part_value_def part_key_def)
      qed
      then show ?thesis using snoc.prems(4) d True None li by (auto simp: fun_eq_iff)
    next
      case (Some b0)
      obtain p where "(builder_common b0, p) \<in> set (part_casts (ps @ [x]))"
        using stored [OF Some] by (auto simp: part_casts_mem)
      moreover have "(received_common part, key_proposer_id key) \<in> set (part_casts (ps @ [x]))"
        by (simp add: part_casts_def x)
      moreover have "part_key E (builder_common b0) = part_key E (received_common part)"
        using k [OF Some] h' by (simp add: part_key_def)
      ultimately have "builder_common b0 = received_common part"
        using parts_key_inject [OF snoc.prems(1,2)] by blast
      then show ?thesis
        using snoc.prems(4) d True Some snoc.IH [OF m(1) nc snoc.prems(3) Some] li by (auto simp: fun_eq_iff)
    qed
  qed
qed

lemma dom_last_infos: "dom (map_of (last_infos ps common)) = proposers ps common"
  by (force simp: last_infos_def proposers_def part_casts_def dom_map_of_conv_image_fst)

lemma part_votes_proposers:
  assumes "append_parts E ps c = Some d" and "parts_no_collision E ps"
    and "current_block_completed_parts c = fmempty"
    and "fmlookup (current_block_completed_parts d) h = Some b"
  shows "fset (fmdom (builder_per_node b)) = proposers ps (builder_common b)"
    and "part_votes b = card (proposers ps (builder_common b))"
proof -
  show p: "fset (fmdom (builder_per_node b)) = proposers ps (builder_common b)"
    using per_node_entries [OF assms] dom_last_infos [of ps "builder_common b"] by (metis fmdom.rep_eq)
  show "part_votes b = card (proposers ps (builder_common b))"
    by (simp add: part_votes_def fmlen_def fcard_fset p)
qed

lemma proposed_block_has_builder:
  assumes "append_parts E ps c = Some d" and "parts_no_collision E ps"
    and "current_block_completed_parts c = fmempty" and "p \<in> proposers ps v"
  shows "\<exists>h b. fmlookup (current_block_completed_parts d) h = Some b \<and> builder_common b = v"
proof -
  have v: "(v, p) \<in> set (part_casts ps)" using assms(4) by (simp add: proposers_def)
  have "\<forall>(v', p') \<in> set (part_casts ps). part_key E v' = part_key E v \<longrightarrow> v' = v"
    using parts_key_inject [OF assms(1,2)] v by blast
  then have "part_value d (part_key E v) = Some v"
    using parts.stored_of_voted [OF append_parts_casts [OF assms(1)] v] assms(3) by (simp add: part_value_def)
  then show ?thesis by (auto simp: part_value_def)
qed

lemma ready_iff_quorum:
  assumes "append_parts E ps c = Some d" and "parts_no_collision E ps"
    and "current_block_completed_parts c = fmempty" and "0 < s_sufficient_majority c"
  shows "has_block_ready_to_store d \<longleftrightarrow> (\<exists>v. s_sufficient_majority c \<le> card (proposers ps v))"
proof -
  have maj: "s_sufficient_majority d = s_sufficient_majority c" using append_parts_frame [OF assms(1)] by simp
  have "has_block_ready_to_store d \<longleftrightarrow>
      (\<exists>h b. fmlookup (current_block_completed_parts d) h = Some b \<and> s_sufficient_majority c \<le> part_votes b)"
    using assms(4) by (simp add: has_block_ready_to_store_def maj max_votes_iff)
  also have "\<dots> \<longleftrightarrow> (\<exists>v. s_sufficient_majority c \<le> card (proposers ps v))"
  proof
    assume "\<exists>v. s_sufficient_majority c \<le> card (proposers ps v)"
    then obtain v where v: "s_sufficient_majority c \<le> card (proposers ps v)" by blast
    then obtain p where "p \<in> proposers ps v" using assms(4) by fastforce
    then show "\<exists>h b. fmlookup (current_block_completed_parts d) h = Some b \<and> s_sufficient_majority c \<le> part_votes b"
      using proposed_block_has_builder [OF assms(1-3)] part_votes_proposers(2) [OF assms(1-3)] v by metis
  qed (use part_votes_proposers(2) [OF assms(1-3)] in auto)
  finally show ?thesis .
qed

lemma generate_ready:
  assumes "has_block_ready_to_store d" and "0 < s_sufficient_majority d"
  obtains h b where "fmlookup (current_block_completed_parts d) h = Some b"
    "s_sufficient_majority d \<le> part_votes b"
    "generate_complete_block d =
       Some (d\<lparr>s_current_block_num := s_current_block_num d + 1, current_block_completed_parts := fmempty\<rparr>,
         \<lparr>complete_common = builder_common b,
          complete_extra_info =
            \<lparr>mined_shutdown = list_all mined_shutdown (fmvalues (builder_per_node b))\<rparr>\<rparr>)"
proof (cases "max_by_key part_votes (fmvalues (current_block_completed_parts d))")
  case None
  then show thesis using assms by (simp add: has_block_ready_to_store_def max_or_0_def)
next
  case (Some b)
  then obtain h where "fmlookup (current_block_completed_parts d) h = Some b" "s_sufficient_majority d \<le> part_votes b"
    using max_by_votes_ready [OF assms(1) [unfolded has_block_ready_to_store_def] Some] by blast
  then show thesis using that Some by (simp add: generate_complete_block_def Let_def)
qed

lemma shutdown_iff:
  assumes "fmlookup m = map_of infos"
  shows "list_all mined_shutdown (fmvalues m) \<longleftrightarrow>
    (\<forall>p i. map_of infos p = Some i \<longrightarrow> mined_shutdown i)"
  unfolding list_all_iff set_fmvalues assms by auto

text \<open>
  If every proposer sends one block and \<open>n\<close> is a majority of the peers, only \<open>v0\<close> has \<open>n\<close> proposers.
\<close>

definition only_quorum :: "part_log \<Rightarrow> nat \<Rightarrow> CommonBlockInfo \<Rightarrow> bool" where
  "only_quorum ps n v0 \<longleftrightarrow>
     (\<forall>P v. finite P \<longrightarrow> snd ` set (part_casts ps) \<subseteq> P \<longrightarrow>
        (\<forall>(u, p) \<in> set (part_casts ps). \<forall>(u', p') \<in> set (part_casts ps). p = p' \<longrightarrow> u = u') \<longrightarrow>
        card P div 2 + 1 \<le> n \<longrightarrow> n \<le> card (proposers ps v) \<longrightarrow> v = v0)"

lemma only_quorumI: "n \<le> card (proposers ps v0) \<Longrightarrow> only_quorum ps n v0"
  unfolding only_quorum_def
proof (intro allI impI)
  fix P v
  assume "n \<le> card (proposers ps v0)" "finite P" "snd ` set (part_casts ps) \<subseteq> P"
    "\<forall>(u, p) \<in> set (part_casts ps). \<forall>(u', p') \<in> set (part_casts ps). p = p' \<longrightarrow> u = u'"
    "card P div 2 + 1 \<le> n" "n \<le> card (proposers ps v)"
  then show "v = v0"
    by (intro parts.majority_unique [of P "part_casts ps"]) (auto simp: proposers_def)
qed

text \<open>C7: A block is stored when a quorum agrees on it. When parts of a block are committed, starting
  from none and with no two different blocks of the same hash, a block is ready exactly if
  sufficiently many different proposers sent it. Completing it then does not panic, gives a block
  that sufficiently many proposers sent, moves to the next block number and forgets the parts; the
  shutdown flag is set exactly if the last part of each of its proposers asks for it. If every
  proposer sends one block and the requirement is a majority of the peers, no other block has a
  quorum.\<close>

theorem storage_block_quorum:
  assumes "append_parts E ps c = Some d" and "parts_no_collision E ps"
    and "current_block_completed_parts c = fmempty" and "0 < s_sufficient_majority c"
  shows "(has_block_ready_to_store d \<longleftrightarrow> (\<exists>v. s_sufficient_majority c \<le> card (proposers ps v))) \<and>
    (has_block_ready_to_store d \<longrightarrow>
      (\<exists>d' blk. generate_complete_block d = Some (d', blk) \<and>
        s_sufficient_majority c \<le> card (proposers ps (complete_common blk)) \<and>
        s_current_block_num d' = s_current_block_num c + 1 \<and>
        current_block_completed_parts d' = fmempty \<and> \<not> has_block_ready_to_store d' \<and>
        (mined_shutdown (complete_extra_info blk) \<longleftrightarrow>
          (\<forall>p i. map_of (last_infos ps (complete_common blk)) p = Some i \<longrightarrow> mined_shutdown i)) \<and>
        only_quorum ps (s_sufficient_majority c) (complete_common blk)))"
proof (intro conjI impI)
  show "has_block_ready_to_store d \<longleftrightarrow> (\<exists>v. s_sufficient_majority c \<le> card (proposers ps v))"
    by (rule ready_iff_quorum [OF assms])
next
  assume ready: "has_block_ready_to_store d"
  have f: "s_sufficient_majority d = s_sufficient_majority c" "s_current_block_num d = s_current_block_num c"
    using append_parts_frame [OF assms(1)] by auto
  obtain h b where b: "fmlookup (current_block_completed_parts d) h = Some b"
      "s_sufficient_majority c \<le> part_votes b"
    and g: "generate_complete_block d =
       Some (d\<lparr>s_current_block_num := s_current_block_num d + 1, current_block_completed_parts := fmempty\<rparr>,
         \<lparr>complete_common = builder_common b,
          complete_extra_info =
            \<lparr>mined_shutdown = list_all mined_shutdown (fmvalues (builder_per_node b))\<rparr>\<rparr>)"
    using generate_ready [OF ready] assms(4) f by metis
  note pv = part_votes_proposers(2) [OF assms(1-3) b(1)]
  have nr: "\<not> has_block_ready_to_store
      (d\<lparr>s_current_block_num := s_current_block_num d + 1, current_block_completed_parts := fmempty\<rparr>)"
    using assms(4) f by (simp add: has_block_ready_to_store_def max_or_0_def)
  show "\<exists>d' blk. generate_complete_block d = Some (d', blk) \<and>
        s_sufficient_majority c \<le> card (proposers ps (complete_common blk)) \<and>
        s_current_block_num d' = s_current_block_num c + 1 \<and>
        current_block_completed_parts d' = fmempty \<and> \<not> has_block_ready_to_store d' \<and>
        (mined_shutdown (complete_extra_info blk) \<longleftrightarrow>
          (\<forall>p i. map_of (last_infos ps (complete_common blk)) p = Some i \<longrightarrow> mined_shutdown i)) \<and>
        only_quorum ps (s_sufficient_majority c) (complete_common blk)"
    using b(2) pv f nr shutdown_iff [OF per_node_entries [OF assms(1-3) b(1)]]
      only_quorumI [of "s_sufficient_majority c" ps "builder_common b"]
    unfolding g by simp
qed

section \<open>Witness\<close>

definition demo_header :: "u64 \<Rightarrow> BlockHeader" where
  "demo_header n =
     \<lparr>header_version = 0, bits = 0, nonce_and_mining_tx_hash = ([1], ''m''), b_num = n, seed_value = [],
      previous_hash = None, txs_merkle_root_and_hash = ([], [])\<rparr>"

definition demo_common :: "u64 \<Rightarrow> CommonBlockInfo" where
  "demo_common n =
     \<lparr>common_block = \<lparr>header = demo_header n, transactions = [''t'']\<rparr>, block_txs = fmempty,
      pow_p_value = 0, pow_d_value = 0,
      common_unicorn = \<lparr>iterations = 0, security_level = 0, seed = 0, modulus = 0\<rparr>, common_unicorn_witness = 0\<rparr>"

definition demo_sext :: storage_raft_ext where
  "demo_sext =
     \<lparr>s_codec = \<lparr>item_serialize = (\<lambda>_. Some []), item_deserialize = (\<lambda>_. None), key_serialize = (\<lambda>_. Some []),
        key_deserialize = (\<lambda>_. None), codec_digest = id\<rparr>,
      s_cons_serialize = (\<lambda>_. Some [1]), s_cons_deserialize = (\<lambda>_. None),
      common_serialize = (\<lambda>c. Some [ucast (b_num (header (common_block c)))]), common_digest = id\<rparr>"

definition demo_part :: "u64 \<Rightarrow> bool \<Rightarrow> RaftContextKey \<times> ReceivedBlock" where
  "demo_part p s =
     (\<lparr>key_proposer_id = p, proposer_run = 0, proposal_id = 1\<rparr>,
      \<lparr>received_peer = V4 7 1, received_common = demo_common 0, received_per_node = \<lparr>mined_shutdown = s\<rparr>\<rparr>)"

definition demo_sstate :: StorageConsensused where
  "demo_sstate = storage_with_peers_len 3 StorageConsensused_default"

definition demo_parts :: part_log where
  "demo_parts = [demo_part 1 True, demo_part 2 False]"

lemma demo_parts_proposers: "proposers demo_parts (demo_common 0) = {1, 2}"
  by (auto simp: proposers_def part_casts_def demo_parts_def demo_part_def)

theorem storage_block_quorum_witness:
  "\<exists>d d' blk. append_parts demo_sext demo_parts demo_sstate = Some d \<and> has_block_ready_to_store d \<and>
     generate_complete_block d = Some (d', blk) \<and> s_current_block_num d' = 1 \<and>
     complete_common blk = demo_common 0 \<and> \<not> mined_shutdown (complete_extra_info blk)"
proof -
  obtain d where d: "append_parts demo_sext demo_parts demo_sstate = Some d"
    by (simp add: demo_parts_def demo_part_def append_received_block_def common_hash_def demo_sext_def)
  have "parts_no_collision demo_sext demo_parts" by (simp add: parts_no_collision_def demo_parts_def demo_part_def)
  moreover have "current_block_completed_parts demo_sstate = fmempty" "s_sufficient_majority demo_sstate = 2"
    "s_current_block_num demo_sstate = 0"
    by (simp_all add: demo_sstate_def storage_with_peers_len_def StorageConsensused_default_def)
  ultimately have t: "has_block_ready_to_store d" "\<exists>d' blk. generate_complete_block d = Some (d', blk) \<and>
      2 \<le> card (proposers demo_parts (complete_common blk)) \<and> s_current_block_num d' = 1 \<and>
      (mined_shutdown (complete_extra_info blk) \<longleftrightarrow>
        (\<forall>p i. map_of (last_infos demo_parts (complete_common blk)) p = Some i \<longrightarrow> mined_shutdown i))"
    using storage_block_quorum [OF d] demo_parts_proposers by (auto intro!: exI [of _ "demo_common 0"])
  then obtain d' blk where g: "generate_complete_block d = Some (d', blk)"
    "2 \<le> card (proposers demo_parts (complete_common blk))" "s_current_block_num d' = 1"
    "mined_shutdown (complete_extra_info blk) \<longleftrightarrow>
        (\<forall>p i. map_of (last_infos demo_parts (complete_common blk)) p = Some i \<longrightarrow> mined_shutdown i)"
    by blast
  have c: "complete_common blk = demo_common 0"
  proof (rule ccontr)
    assume "complete_common blk \<noteq> demo_common 0"
    then have "proposers demo_parts (complete_common blk) = {}"
      by (auto simp: proposers_def part_casts_def demo_parts_def demo_part_def)
    then show False using g(2) by simp
  qed
  have "map_of (last_infos demo_parts (demo_common 0)) 2 = Some \<lparr>mined_shutdown = False\<rparr>"
    by (simp add: last_infos_def demo_parts_def demo_part_def)
  then have "\<not> mined_shutdown (complete_extra_info blk)" using g(4) c by fastforce
  then show ?thesis using d t(1) g(1,3) c by blast
qed

end
