(* ===== verification/Comms.thy ===== *)
theory Comms
  imports Interfaces
begin

text \<open>
  The network node (\<^verbatim>\<open>src/comms_handler/node.rs\<close>): the table of connected peers, the
  handshake that completes a connection, direct, multicast and gossip messages, heartbeats. The
  record \<open>Node\<close> has the shared state of the node; what a peer's connection sends is appended to
  \<open>outbox\<close>, what a node hands to its user is appended to \<open>node_events\<close>. The type parameter is the
  type of the messages the nodes exchange. Sockets, TLS and the tasks that move frames are not
  modelled: a connection is its address, the certificate check is the parameter \<open>cert_valid\<close>
  (\<open>None\<close> without a certificate), random choices are arguments.
\<close>

section \<open>Model\<close>

type_synonym Token = u64

datatype NodeType = Miner | Storage | Compute | User | PreLaunch

fun node_type_as_str :: "NodeType \<Rightarrow> string" where
  "node_type_as_str Miner = ''Miner''"
| "node_type_as_str Compute = ''Compute''"
| "node_type_as_str Storage = ''Storage''"
| "node_type_as_str User = ''User''"
| "node_type_as_str PreLaunch = ''Prelaunch''"

text \<open>
  The contacts of a handshake response are a set: they are collected from a hash map and turned into
  a hash set by the receiver.
\<close>

datatype 'm CommMessage =
    HandshakeRequest u32 NodeType SocketAddr
  | HandshakeResponse u32 NodeType "SocketAddr fset" SocketAddr
  | Gossip 'm u8 Token
  | Direct 'm Token
  | HeartBeatProbe Token

datatype CommsError =
    PeerListEmpty
  | PeerListFull
  | PeerNotFound "NodeType option" "SocketAddr option"
  | PeerInvalidState "NodeType option" "SocketAddr option"
  | PeerDuplicate "NodeType option" "SocketAddr option"
  | PeerIncompatible "NodeType option" "SocketAddr option"
  | TlsError

type_synonym 'a comms_result = "CommsError + 'a"

text \<open>The receiving end of the handshake notification: kept with the peer, taken by a task that waits
  for it, or dropped by a task that gave up.\<close>

datatype NotifyRx = RxNone | RxHeld | RxWaiting | RxDropped

record Peer =
  peer_network_version :: "u32 option"
  peer_remote_addr :: SocketAddr
  peer_type :: "NodeType option"
  peer_public_address :: "SocketAddr option"
  notify_tx :: bool
  notify_rx :: NotifyRx

record 'm Node =
  network_version :: u32
  local_listener_address :: SocketAddr
  public_listener_address :: "SocketAddr option"
  listener_and_connect_paused :: bool
  node_peers :: "(SocketAddr, Peer) fmap"
  node_type :: NodeType
  peer_limit :: nat
  node_events :: "(SocketAddr \<times> 'm) list"
  seen_gossip_messages :: "Token fset"
  connect_to_handshake_contacts :: bool
  outbox :: "(SocketAddr \<times> 'm CommMessage) list"

definition FANOUT :: nat where
  "FANOUT = 8"

definition GOSSIP_MAX_TTL :: u8 where
  "GOSSIP_MAX_TTL = 4"

definition Node_new_with_version :: "SocketAddr \<Rightarrow> nat \<Rightarrow> NodeType \<Rightarrow> u32 \<Rightarrow> 'm Node" where
  "Node_new_with_version addr limit t v =
     \<lparr>network_version = v, local_listener_address = addr, public_listener_address = None,
      listener_and_connect_paused = False, node_peers = fmempty, node_type = t, peer_limit = limit,
      node_events = [], seen_gossip_messages = {||}, connect_to_handshake_contacts = False, outbox = []\<rparr>"

definition is_compatible :: "'m Node \<Rightarrow> NodeType \<Rightarrow> u32 \<Rightarrow> bool" where
  "is_compatible self t v \<longleftrightarrow>
     network_version self = v \<and> (node_type self = PreLaunch) = (t = PreLaunch)"

definition set_connect_to_handshake_contacts :: "bool \<Rightarrow> 'm Node \<Rightarrow> 'm Node" where
  "set_connect_to_handshake_contacts val self = self\<lparr>connect_to_handshake_contacts := val\<rparr>"

text \<open>The peer entry that \<open>handle_peer\<close> creates for a connection.\<close>

definition handle_peer :: "SocketAddr \<Rightarrow> bool \<Rightarrow> Peer" where
  "handle_peer addr is_initiator =
     \<lparr>peer_network_version = None, peer_remote_addr = addr, peer_type = None,
      peer_public_address = (if \<not> is_initiator then Some addr else None),
      notify_tx = (\<not> is_initiator), notify_rx = (if is_initiator then RxNone else RxHeld)\<rparr>"

text \<open>Dropping the iterator of \<open>drain\<close> removes the entries it was not asked for as well.\<close>

definition add_peer :: "SocketAddr \<Rightarrow> bool \<Rightarrow> bool \<Rightarrow> 'm Node \<Rightarrow> 'm Node \<times> unit comms_result" where
  "add_peer addr force_add is_initiator self =
     (let is_full = (peer_limit self \<le> fmlen (node_peers self));
          self = (if force_add \<and> is_full then self\<lparr>node_peers := fmempty\<rparr> else self)
      in if \<not> is_full
         then (self\<lparr>node_peers := fmupd addr (handle_peer addr is_initiator) (node_peers self)\<rparr>, Inr ())
         else (self, Inl PeerListFull))"

text \<open>An accepted connection, in the listener loop.\<close>

definition accept_connection :: "SocketAddr \<Rightarrow> 'm Node \<Rightarrow> 'm Node" where
  "accept_connection addr self =
     (if listener_and_connect_paused self then self else fst (add_peer addr False True self))"

definition unconnected_peers :: "SocketAddr list \<Rightarrow> 'm Node \<Rightarrow> SocketAddr list" where
  "unconnected_peers peers self =
     filter (\<lambda>p. Option.bind (fmlookup (node_peers self) p) peer_network_version = None) peers"

text \<open>\<open>connect_to_peer\<close>; \<open>stream\<close> is the outcome of opening the connection.\<close>

definition connect_to_peer ::
    "SocketAddr comms_result \<Rightarrow> SocketAddr \<Rightarrow> 'm Node \<Rightarrow> 'm Node \<times> unit comms_result" where
  "connect_to_peer stream peer self =
     (if fmlookup (node_peers self) peer = None
      then if listener_and_connect_paused self then (self, Inl (PeerNotFound None (Some peer)))
           else case stream of
               Inl e \<Rightarrow> (self, Inl e)
             | Inr addr \<Rightarrow> add_peer addr False False self
      else (self, Inr ()))"

definition send_message :: "SocketAddr \<Rightarrow> 'm CommMessage \<Rightarrow> 'm Node \<Rightarrow> 'm Node \<times> unit comms_result" where
  "send_message addr msg self =
     (case fmlookup (node_peers self) addr of
        None \<Rightarrow> (self, Inl (PeerNotFound None (Some addr)))
      | Some _ \<Rightarrow> (self\<lparr>outbox := outbox self @ [(addr, msg)]\<rparr>, Inr ()))"

definition send_handshake :: "SocketAddr \<Rightarrow> 'm Node \<Rightarrow> 'm Node \<times> unit comms_result" where
  "send_handshake peer self =
     send_message peer (HandshakeRequest (network_version self) (node_type self) (local_listener_address self)) self"

text \<open>The first half of \<open>wait_handshake_response\<close>, which takes the receiver of the notification.\<close>

definition take_handshake_receiver :: "SocketAddr \<Rightarrow> 'm Node \<Rightarrow> 'm Node \<times> unit comms_result" where
  "take_handshake_receiver addr self =
     (case fmlookup (node_peers self) addr of
        None \<Rightarrow> (self, Inl (PeerNotFound None (Some addr)))
      | Some p \<Rightarrow>
          if notify_rx p = RxHeld
          then (self\<lparr>node_peers := fmupd addr (p\<lparr>notify_rx := RxWaiting\<rparr>) (node_peers self)\<rparr>, Inr ())
          else (self, Inl (PeerInvalidState None (Some (peer_remote_addr p)))))"

text \<open>The timeout of the wait: the receiver is dropped and an error returned.\<close>

definition handshake_timeout :: "SocketAddr \<Rightarrow> 'm Node \<Rightarrow> 'm Node \<times> unit comms_result" where
  "handshake_timeout addr self =
     ((case fmlookup (node_peers self) addr of
         Some p \<Rightarrow>
           if notify_rx p = RxWaiting
           then self\<lparr>node_peers := fmupd addr (p\<lparr>notify_rx := RxDropped\<rparr>) (node_peers self)\<rparr>
           else self
       | None \<Rightarrow> self),
      Inl (PeerNotFound None (Some addr)))"

definition set_pause_listening :: "bool \<Rightarrow> 'm Node \<Rightarrow> 'm Node" where
  "set_pause_listening pause self = self\<lparr>listener_and_connect_paused := pause\<rparr>"

definition disconnect_all :: "SocketAddr list option \<Rightarrow> 'm Node \<Rightarrow> 'm Node" where
  "disconnect_all only self =
     (case only of
        Some addrs \<Rightarrow> self\<lparr>node_peers := fold fmdrop addrs (node_peers self)\<rparr>
      | None \<Rightarrow> self\<lparr>node_peers := fmempty\<rparr>)"

text \<open>\<open>send_multicast\<close>: the peers that could not be reached are returned.\<close>

fun send_multicast :: "SocketAddr list \<Rightarrow> 'm CommMessage \<Rightarrow> 'm Node \<Rightarrow> 'm Node \<times> SocketAddr list" where
  "send_multicast [] msg self = (self, [])"
| "send_multicast (p # ps) msg self =
     (let (self, r) = send_message p msg self;
          (self, unsent) = send_multicast ps msg self
      in (self, (case r of Inl (PeerNotFound _ _) \<Rightarrow> p # unsent | _ \<Rightarrow> unsent)))"

text \<open>\<open>sample\<close> is what \<open>sample_peers\<close> chose.\<close>

definition multicast :: "SocketAddr list \<Rightarrow> Token \<Rightarrow> 'm \<Rightarrow> 'm Node \<Rightarrow> 'm Node \<times> unit comms_result" where
  "multicast sample token data self =
     (if sample = [] then (self, Inl PeerListEmpty)
      else (fst (send_multicast sample (Gossip data 0 token) self), Inr ()))"

definition ring_peers :: "'m Node \<Rightarrow> SocketAddr fset" where
  "ring_peers self =
     (\<lambda>a. the (peer_public_address (the (fmlookup (node_peers self) a)))) |`|
       ffilter (\<lambda>a. case fmlookup (node_peers self) a of
           None \<Rightarrow> False
         | Some p \<Rightarrow> peer_type p = Some (node_type self) \<and> peer_public_address p \<noteq> None)
         (fmdom (node_peers self))"

definition get_peer_node_type :: "SocketAddr \<Rightarrow> 'm Node \<Rightarrow> NodeType comms_result" where
  "get_peer_node_type addr self =
     (case fmlookup (node_peers self) addr of
        None \<Rightarrow> Inl (PeerNotFound None (Some addr))
      | Some p \<Rightarrow>
          (case peer_type p of
             None \<Rightarrow> Inl (PeerInvalidState None (Some addr))
           | Some t \<Rightarrow> Inr t))"

definition send :: "Token \<Rightarrow> SocketAddr \<Rightarrow> 'm \<Rightarrow> 'm Node \<Rightarrow> 'm Node \<times> unit comms_result" where
  "send token peer data self = send_message peer (Direct data token) self"

definition send_to_all :: "Token \<Rightarrow> SocketAddr list \<Rightarrow> 'm \<Rightarrow> 'm Node \<Rightarrow> 'm Node \<times> SocketAddr list" where
  "send_to_all token peers data self = send_multicast peers (Direct data token) self"

definition send_heartbeat_message :: "Token \<Rightarrow> SocketAddr list \<Rightarrow> 'm Node \<Rightarrow> 'm Node \<times> SocketAddr list" where
  "send_heartbeat_message token peers self = send_multicast peers (HeartBeatProbe token) self"

definition flush_stale_peers :: "SocketAddr list \<Rightarrow> 'm Node \<Rightarrow> 'm Node" where
  "flush_stale_peers stale self =
     self\<lparr>node_peers := fmfilter (\<lambda>addr. addr \<notin> set stale) (node_peers self)\<rparr>"

text \<open>One tick of the heartbeat loop; \<open>addrs\<close> lists the peers at its start.\<close>

definition heartbeat_tick :: "Token \<Rightarrow> SocketAddr list \<Rightarrow> 'm Node \<Rightarrow> 'm Node" where
  "heartbeat_tick token addrs self =
     (let (self, unsent) = send_heartbeat_message token addrs self
      in if unsent \<noteq> [] then flush_stale_peers unsent self else self)"

definition inject_next_event :: "SocketAddr \<Rightarrow> 'm \<Rightarrow> 'm Node \<Rightarrow> 'm Node" where
  "inject_next_event from_addr data self = self\<lparr>node_events := node_events self @ [(from_addr, data)]\<rparr>"

definition next_event :: "'m Node \<Rightarrow> ('m Node \<times> (SocketAddr \<times> 'm)) option" where
  "next_event self =
     (case node_events self of [] \<Rightarrow> None | e # es \<Rightarrow> Some (self\<lparr>node_events := es\<rparr>, e))"

text \<open>\<open>SocketAddr::new(out.ip(), inn.port())\<close>\<close>

fun port :: "SocketAddr \<Rightarrow> 16 word" where
  "port (V4 _ p) = p"
| "port (V6 _ p) = p"

fun with_port :: "SocketAddr \<Rightarrow> 16 word \<Rightarrow> SocketAddr" where
  "with_port (V4 ip _) p = V4 ip p"
| "with_port (V6 ip _) p = V6 ip p"

text \<open>\<open>handle_gossip\<close>; \<open>sample\<close> is what \<open>sample_peers\<close> chose.\<close>

definition handle_gossip :: "SocketAddr list \<Rightarrow> SocketAddr \<Rightarrow> 'm \<Rightarrow> u8 \<Rightarrow> Token \<Rightarrow> 'm Node \<Rightarrow> 'm Node" where
  "handle_gossip sample from_peer payload ttl message_id self =
     (if message_id |\<in>| seen_gossip_messages self then self
      else
        let self = self\<lparr>seen_gossip_messages := finsert message_id (seen_gossip_messages self),
                        node_events := node_events self @ [(from_peer, payload)]\<rparr>
        in if ttl > GOSSIP_MAX_TTL then self
           else let peers = filter (\<lambda>p. p \<noteq> from_peer) sample
             in if peers = [] then self
                else fst (send_multicast peers (Gossip payload (ttl + 1) message_id) self))"

text \<open>
  \<open>handle_handshake_request\<close>. The certificate is checked by compute and storage nodes, for peers
  that are neither miners nor users.
\<close>

definition handle_handshake_request ::
    "(SocketAddr \<Rightarrow> bool) option \<Rightarrow> SocketAddr \<Rightarrow> SocketAddr \<Rightarrow> u32 \<Rightarrow> NodeType \<Rightarrow> 'm Node \<Rightarrow>
     'm Node \<times> SocketAddr comms_result" where
  "handle_handshake_request cert_valid peer_out_addr peer_in_addr v t self =
     (let peer_in_addr = with_port peer_out_addr (port peer_in_addr) in
      if \<not> is_compatible self t v then (self, Inl (PeerIncompatible (Some t) (Some peer_in_addr)))
      else if fmlookup (node_peers self) peer_in_addr \<noteq> None
      then (self, Inl (PeerDuplicate (Some t) (Some peer_in_addr)))
      else case fmlookup (node_peers self) peer_out_addr of
          None \<Rightarrow> (self, Inl (PeerNotFound None (Some peer_out_addr)))
        | Some peer \<Rightarrow>
            if node_type self \<in> {Compute, Storage} \<and> t \<notin> {Miner, User} \<and>
               (case cert_valid of None \<Rightarrow> False | Some valid \<Rightarrow> \<not> valid peer_in_addr)
            then (self, Inl TlsError)
            else
              let peer = peer\<lparr>peer_network_version := Some v, peer_type := Some t,
                              peer_public_address := Some peer_in_addr\<rparr>;
                  self = self\<lparr>node_peers := fmupd peer_out_addr peer (node_peers self)\<rparr>
              in (self\<lparr>outbox := outbox self @
                    [(peer_out_addr, HandshakeResponse (network_version self) (node_type self)
                        (ring_peers self) peer_in_addr)]\<rparr>,
                  Inr peer_in_addr))"

text \<open>
  \<open>handle_handshake_response\<close>. The contacts to connect to are returned; sending the notification
  panics when the waiting task has given up.
\<close>

definition handle_handshake_response ::
    "SocketAddr \<Rightarrow> u32 \<Rightarrow> NodeType \<Rightarrow> SocketAddr fset \<Rightarrow> SocketAddr \<Rightarrow> 'm Node \<Rightarrow>
     ('m Node \<times> SocketAddr fset comms_result) may_panic" where
  "handle_handshake_response addr v t contacts public_addr self =
     (if \<not> is_compatible self t v then Some (self, Inl (PeerIncompatible (Some t) (Some addr)))
      else case fmlookup (node_peers self) addr of
          None \<Rightarrow> Some (self, Inl (PeerNotFound (Some t) (Some addr)))
        | Some peer \<Rightarrow>
            if notify_tx peer \<and> notify_rx peer = RxDropped then None
            else
              let peer = peer\<lparr>peer_network_version := Some v, peer_type := Some t, notify_tx := False\<rparr>;
                  self = self\<lparr>node_peers := fmupd addr peer (node_peers self)\<rparr>;
                  known_peers = (\<lambda>a. the (peer_public_address (the (fmlookup (node_peers self) a)))) |`|
                    ffilter (\<lambda>a. Option.bind (fmlookup (node_peers self) a) peer_public_address \<noteq> None)
                      (fmdom (node_peers self));
                  unknown_peers = contacts |-| known_peers
              in Some (self\<lparr>public_listener_address := Some public_addr\<rparr>,
                       Inr (if connect_to_handshake_contacts self then unknown_peers else {||})))"

text \<open>
  What the receiving task of a connection does with a message (\<open>handle_peer_recv_handshake\<close>,
  \<open>handle_peer_recv\<close> and the task in \<open>handle_peer\<close>): the state of the connection is \<open>Waiting\<close> for a
  handshake, \<open>Ready\<close> under the address that messages are routed by, or \<open>Closed\<close>.
\<close>

datatype Connection = Waiting SocketAddr | Ready SocketAddr | Closed

definition rekey_peer :: "SocketAddr \<Rightarrow> SocketAddr \<Rightarrow> 'm Node \<Rightarrow> 'm Node \<times> Connection" where
  "rekey_peer peer_addr public_addr self =
     (case fmlookup (node_peers self) peer_addr of
        Some p \<Rightarrow> (self\<lparr>node_peers := fmupd public_addr p (fmdrop peer_addr (node_peers self))\<rparr>, Ready public_addr)
      | None \<Rightarrow> (self, Closed))"

definition remove_peer :: "SocketAddr \<Rightarrow> 'm Node \<Rightarrow> 'm Node" where
  "remove_peer addr self = self\<lparr>node_peers := fmdrop addr (node_peers self)\<rparr>"

fun receive_handshake ::
    "(SocketAddr \<Rightarrow> bool) option \<Rightarrow> SocketAddr \<Rightarrow> 'm CommMessage \<Rightarrow> 'm Node \<Rightarrow> ('m Node \<times> Connection) may_panic" where
  "receive_handshake cert addr (HandshakeRequest v t public_addr) self =
     (case handle_handshake_request cert addr public_addr v t self of
        (self, Inr in_addr) \<Rightarrow> Some (rekey_peer addr in_addr self)
      | (self, Inl _) \<Rightarrow> Some (remove_peer addr self, Closed))"
| "receive_handshake cert addr (HandshakeResponse v t contacts public_addr) self =
     (case handle_handshake_response addr v t contacts public_addr self of
        None \<Rightarrow> None
      | Some (self, Inr _) \<Rightarrow> Some (rekey_peer addr addr self)
      | Some (self, Inl _) \<Rightarrow> Some (remove_peer addr self, Closed))"
| "receive_handshake cert addr _ self = Some (self, Waiting addr)"

fun receive_ready :: "SocketAddr list \<Rightarrow> SocketAddr \<Rightarrow> 'm CommMessage \<Rightarrow> 'm Node \<Rightarrow> 'm Node" where
  "receive_ready sample addr (Direct payload _) self =
     self\<lparr>node_events := node_events self @ [(addr, payload)]\<rparr>"
| "receive_ready sample addr (Gossip payload ttl message_id) self =
     handle_gossip sample addr payload ttl message_id self"
| "receive_ready sample addr _ self = self"

definition get_peers :: "'m Node \<Rightarrow> (SocketAddr, NodeType option) fmap" where
  "get_peers self = fmmap peer_type (node_peers self)"

text \<open>
  \<open>get_peer_list\<close>. \<open>keys\<close> are the addresses of the peers in the order of the hash map, with their
  printed form. The two loops swap neighbours that are out of order.
\<close>

definition swap_step :: "nat \<Rightarrow> (string \<times> 'a) list \<Rightarrow> (string \<times> 'a) list" where
  "swap_step j xs = (if fst (xs ! Suc j) < fst (xs ! j) then xs[j := xs ! Suc j, Suc j := xs ! j] else xs)"

definition swap_pass :: "nat \<Rightarrow> (string \<times> 'a) list \<Rightarrow> (string \<times> 'a) list" where
  "swap_pass n xs = fold swap_step [0..<n] xs"

definition sort_keys :: "(string \<times> 'a) list \<Rightarrow> (string \<times> 'a) list" where
  "sort_keys xs = fold (\<lambda>i. swap_pass (length xs - i - 1)) [0..<length xs] xs"

definition get_peer_list :: "(string \<times> SocketAddr) list \<Rightarrow> 'm Node \<Rightarrow> (string \<times> SocketAddr \<times> string) list" where
  "get_peer_list keys self =
     List.map_filter
       (\<lambda>(k, addr).
          case get_peer_node_type addr self of
            Inr t \<Rightarrow> if t = Compute \<or> t = Storage then Some (k, addr, node_type_as_str t) else None
          | Inl _ \<Rightarrow> None)
       (sort_keys keys)"

section \<open>The peer table\<close>

text \<open>
  The invariant of the table: no more peers than the limit, and a peer whose handshake is done is
  compatible with this node.
\<close>

definition peer_ok :: "'m Node \<Rightarrow> Peer \<Rightarrow> bool" where
  "peer_ok self p \<longleftrightarrow>
     (case (peer_network_version p, peer_type p) of
        (None, None) \<Rightarrow> True
      | (Some v, Some t) \<Rightarrow> is_compatible self t v
      | _ \<Rightarrow> False)"

definition peers_ok :: "'m Node \<Rightarrow> bool" where
  "peers_ok self \<longleftrightarrow>
     fmlen (node_peers self) \<le> peer_limit self \<and>
     (\<forall>a p. fmlookup (node_peers self) a = Some p \<longrightarrow> peer_ok self p)"

lemma fmlen_rekey: "fmlookup m k = Some p \<Longrightarrow> fmlen (fmupd k' p' (fmdrop k m)) \<le> fmlen m"
proof -
  assume k: "fmlookup m k = Some p"
  have "fmlen m = Suc (fmlen (fmdrop k m))"
    using fmweight_fmdrop [OF k, of "\<lambda>_. 1"] by (simp add: fmweight_def fmlen_def fcard.rep_eq)
  then show ?thesis by (simp add: fmlen_fmupd)
qed

lemma is_compatible_frame [simp]:
  "is_compatible (self\<lparr>node_peers := x\<rparr>) = is_compatible self"
  "is_compatible (self\<lparr>outbox := y\<rparr>) = is_compatible self"
  "is_compatible (self\<lparr>node_events := z\<rparr>) = is_compatible self"
  by (simp_all add: is_compatible_def fun_eq_iff)

lemma peer_ok_frame [simp]:
  "peer_ok (self\<lparr>node_peers := x\<rparr>) p = peer_ok self p"
  by (simp add: peer_ok_def split: option.splits)

lemma peer_ok_simps [simp]:
  "peer_ok self (handle_peer addr i)"
  "peer_ok self (p\<lparr>notify_rx := r\<rparr>) = peer_ok self p"
  by (simp_all add: peer_ok_def handle_peer_def)

text \<open>Operations that keep the table and the identity of the node.\<close>

definition same_table :: "'m Node \<Rightarrow> 'm Node \<Rightarrow> bool" where
  "same_table self t \<longleftrightarrow>
     node_peers t = node_peers self \<and> peer_limit t = peer_limit self \<and>
     network_version t = network_version self \<and> node_type t = node_type self"

lemma same_table_refl [simp]: "same_table self self"
  by (simp add: same_table_def)

lemma same_table_trans: "same_table a b \<Longrightarrow> same_table b c \<Longrightarrow> same_table a c"
  by (simp add: same_table_def)

lemma peers_ok_same: "same_table self t \<Longrightarrow> peers_ok t = peers_ok self"
  by (auto simp: same_table_def peers_ok_def peer_ok_def is_compatible_def split: option.splits)

lemma peers_ok_frame [simp]:
  "peers_ok (self\<lparr>outbox := ms\<rparr>) = peers_ok self"
  "peers_ok (self\<lparr>node_events := es\<rparr>) = peers_ok self"
  "peers_ok (self\<lparr>public_listener_address := a\<rparr>) = peers_ok self"
  "peers_ok (self\<lparr>listener_and_connect_paused := b\<rparr>) = peers_ok self"
  "peers_ok (self\<lparr>connect_to_handshake_contacts := c\<rparr>) = peers_ok self"
  by (rule peers_ok_same, simp add: same_table_def)+

lemma same_table_send_message: "send_message addr msg self = (t, r) \<Longrightarrow> same_table self t"
  by (auto simp: send_message_def same_table_def split: option.splits)

lemma same_table_multicast: "same_table self (fst (send_multicast ps msg self))"
proof (induction ps arbitrary: self)
  case (Cons p ps)
  show ?case
    using Cons.IH same_table_send_message
    by (auto simp: case_prod_unfold Let_def intro: same_table_trans [OF same_table_send_message [OF prod.collapse [symmetric]]])
qed simp

lemma same_table_gossip: "same_table self (handle_gossip sample from_peer payload ttl token self)"
proof -
  let ?s = "self\<lparr>seen_gossip_messages := finsert token (seen_gossip_messages self),
                 node_events := node_events self @ [(from_peer, payload)]\<rparr>"
  have "same_table self ?s" by (simp add: same_table_def)
  then show ?thesis
    using same_table_trans [OF _ same_table_multicast [of ?s]] by (auto simp: handle_gossip_def Let_def)
qed

lemma same_table_ready: "same_table self (receive_ready sample addr msg self)"
  by (cases msg) (auto simp: same_table_gossip, auto simp: same_table_def)

text \<open>Operations that change the table.\<close>

lemma peers_ok_update:
  assumes "peers_ok self" and "fmlen m \<le> peer_limit self"
    and "\<And>a p. fmlookup m a = Some p \<Longrightarrow> peer_ok self p"
  shows "peers_ok (self\<lparr>node_peers := m\<rparr>)"
  using assms by (simp add: peers_ok_def)

lemma peers_ok_fmdrop: "peers_ok self \<Longrightarrow> peers_ok (self\<lparr>node_peers := fmdrop a (node_peers self)\<rparr>)"
  using fmlen_fmdrop_le [of a "node_peers self"] by (auto simp: peers_ok_def split: if_splits)

lemma peers_ok_set:
  assumes "peers_ok self" and "fmlookup (node_peers self) a = Some p" and "peer_ok self q"
  shows "peers_ok (self\<lparr>node_peers := fmupd a q (node_peers self)\<rparr>)"
  using assms by (auto simp: peers_ok_def fmlen_fmupd split: if_splits)

lemma peers_ok_add_peer [inv_intros]:
  assumes "peers_ok self"
  shows "peers_ok (fst (add_peer addr force_add i self))"
  using assms by (auto simp: add_peer_def Let_def peers_ok_def fmlen_fmupd not_le split: if_splits)

lemma peers_ok_connect [inv_intros]:
  "peers_ok self \<Longrightarrow> peers_ok (fst (connect_to_peer stream peer self))"
  by (auto simp: connect_to_peer_def split: sum.splits intro: inv_intros)

lemma peers_ok_accept [inv_intros]: "peers_ok self \<Longrightarrow> peers_ok (accept_connection addr self)"
  by (auto simp: accept_connection_def intro: inv_intros)

lemma peers_ok_receiver [inv_intros]:
  assumes "peers_ok self"
  shows "peers_ok (fst (take_handshake_receiver addr self))" and "peers_ok (fst (handshake_timeout addr self))"
proof -
  have ok: "peer_ok self p" if "fmlookup (node_peers self) addr = Some p" for p
    using assms that by (auto simp: peers_ok_def)
  show "peers_ok (fst (take_handshake_receiver addr self))"
    using assms ok by (auto simp: take_handshake_receiver_def split: option.splits intro: peers_ok_set)
  show "peers_ok (fst (handshake_timeout addr self))"
    using assms ok by (auto simp: handshake_timeout_def split: option.splits intro: peers_ok_set)
qed

lemma peers_ok_disconnect [inv_intros]: "peers_ok self \<Longrightarrow> peers_ok (disconnect_all only self)"
proof -
  assume ok: "peers_ok self"
  have "peers_ok (self\<lparr>node_peers := fold fmdrop as m\<rparr>)" if "peers_ok (self\<lparr>node_peers := m\<rparr>)" for as m
    using that
  proof (induction as arbitrary: m)
    case (Cons a as)
    then show ?case using peers_ok_fmdrop [OF Cons.prems, of a] by simp
  qed simp
  from this [of "node_peers self"] show ?thesis
    using ok by (auto simp: disconnect_all_def split: option.splits intro: peers_ok_update)
qed

lemma peers_ok_flush [inv_intros]: "peers_ok self \<Longrightarrow> peers_ok (flush_stale_peers stale self)"
  using fmlen_fmfilter_le [of _ "node_peers self"]
  by (auto simp: flush_stale_peers_def peers_ok_def split: if_splits intro: order_trans)

lemma peers_ok_heartbeat [inv_intros]: "peers_ok self \<Longrightarrow> peers_ok (heartbeat_tick token addrs self)"
  using peers_ok_same [OF same_table_multicast [of self addrs "HeartBeatProbe token"]]
  by (auto simp: heartbeat_tick_def send_heartbeat_message_def case_prod_unfold Let_def intro: inv_intros)

lemma peers_ok_rekey [inv_intros]: "peers_ok self \<Longrightarrow> peers_ok (fst (rekey_peer a b self))"
  using fmlen_rekey [of "node_peers self" a _ b]
  by (auto simp: rekey_peer_def peers_ok_def split: option.splits if_splits intro: order_trans)

lemma peer_ok_done:
  "is_compatible self t v \<Longrightarrow> peer_ok self (p\<lparr>peer_network_version := Some v, peer_type := Some t, peer_public_address := x\<rparr>)"
  "is_compatible self t v \<Longrightarrow> peer_ok self (p\<lparr>peer_network_version := Some v, peer_type := Some t, notify_tx := y\<rparr>)"
  by (simp_all add: peer_ok_def)

lemma peers_ok_request:
  assumes "peers_ok self" and "handle_handshake_request cert a b v t self = (s', r)"
  shows "peers_ok s'"
  using assms peers_ok_set [OF assms(1) _ peer_ok_done(1)]
  by (auto simp: handle_handshake_request_def Let_def split: if_splits option.splits)

lemma peers_ok_response:
  assumes "peers_ok self" and "handle_handshake_response a v t contacts b self = Some (s', r)"
  shows "peers_ok s'"
  using assms peers_ok_set [OF assms(1) _ peer_ok_done(2)]
  by (auto simp: handle_handshake_response_def Let_def split: if_splits option.splits)

lemma peers_ok_remove [inv_intros]: "peers_ok self \<Longrightarrow> peers_ok (remove_peer a self)"
  unfolding remove_peer_def by (rule peers_ok_fmdrop)

lemma peers_ok_handshake [inv_intros]:
  assumes "peers_ok self" and "receive_handshake cert addr msg self = Some (s', c)"
  shows "peers_ok s'"
proof (cases msg)
  case (HandshakeRequest v t b)
  obtain s1 r where r: "handle_handshake_request cert addr b v t self = (s1, r)" by fastforce
  show ?thesis
    using assms(2) HandshakeRequest r peers_ok_request [OF assms(1) r] peers_ok_rekey [of s1 addr] peers_ok_remove [of s1 addr]
    by (cases r) (auto simp: prod_eq_iff)
next
  case (HandshakeResponse v t cs b)
  then obtain s1 r where r: "handle_handshake_response addr v t cs b self = Some (s1, r)"
    using assms(2) by (auto split: option.splits)
  show ?thesis
    using assms(2) HandshakeResponse r peers_ok_response [OF assms(1) r] peers_ok_rekey [of s1 addr addr]
      peers_ok_remove [of s1 addr]
    by (cases r) (auto simp: prod_eq_iff)
qed (use assms in auto)

text \<open>The operations of a node, as steps.\<close>

inductive node_step :: "'m Node \<Rightarrow> 'm Node \<Rightarrow> bool" where
  "node_step s (accept_connection addr s)"
| "node_step s (fst (connect_to_peer stream peer s))"
| "node_step s (fst (take_handshake_receiver addr s))"
| "node_step s (fst (handshake_timeout addr s))"
| "receive_handshake cert addr msg s = Some (t, c) \<Longrightarrow> node_step s t"
| "node_step s (receive_ready sample addr msg s)"
| "node_step s (remove_peer addr s)"
| "node_step s (fst (send_message addr msg s))"
| "node_step s (fst (send_multicast addrs msg s))"
| "node_step s (heartbeat_tick token addrs s)"
| "node_step s (disconnect_all only s)"
| "node_step s (set_pause_listening pause s)"
| "node_step s (set_connect_to_handshake_contacts val s)"
| "node_step s (inject_next_event addr data s)"
| "next_event s = Some (t, e) \<Longrightarrow> node_step s t"

inductive node_reachable :: "SocketAddr \<Rightarrow> nat \<Rightarrow> NodeType \<Rightarrow> u32 \<Rightarrow> 'm Node \<Rightarrow> bool" for addr limit ty v where
  "node_reachable addr limit ty v (Node_new_with_version addr limit ty v)"
| "node_reachable addr limit ty v s \<Longrightarrow> node_step s t \<Longrightarrow> node_reachable addr limit ty v t"

text \<open>No operation changes who the node is.\<close>

definition same_identity :: "'m Node \<Rightarrow> 'm Node \<Rightarrow> bool" where
  "same_identity s t \<longleftrightarrow>
     peer_limit t = peer_limit s \<and> network_version t = network_version s \<and> node_type t = node_type s"

lemma same_table_identity: "same_table s t \<Longrightarrow> same_identity s t"
  by (simp add: same_table_def same_identity_def)

lemma identity_handshake: "receive_handshake cert addr msg s = Some (t, c) \<Longrightarrow> same_identity s t"
  by (cases msg)
    (auto simp: same_identity_def handle_handshake_request_def handle_handshake_response_def rekey_peer_def
      remove_peer_def Let_def split: option.splits sum.splits prod.splits if_splits)

lemma identity_step: "node_step s t \<Longrightarrow> same_identity s t"
proof (induction rule: node_step.induct)
  case (8 s addr msg)
  then show ?case by (cases "send_message addr msg s") (auto dest: same_table_send_message same_table_identity)
next
  case (9 s addrs msg)
  then show ?case by (rule same_table_identity [OF same_table_multicast])
next
  case (10 s token addrs)
  have "same_identity s (fst (send_multicast addrs (HeartBeatProbe token) s))"
    by (rule same_table_identity [OF same_table_multicast])
  then show ?case
    by (auto simp: heartbeat_tick_def send_heartbeat_message_def flush_stale_peers_def same_identity_def
        case_prod_unfold Let_def)
qed (auto simp: same_table_identity same_table_ready identity_handshake,
    auto simp: same_identity_def accept_connection_def connect_to_peer_def add_peer_def take_handshake_receiver_def
      handshake_timeout_def remove_peer_def disconnect_all_def set_pause_listening_def
      set_connect_to_handshake_contacts_def inject_next_event_def next_event_def Let_def
      split: option.splits sum.splits list.splits)

lemma peers_ok_step: "node_step s t \<Longrightarrow> peers_ok s \<Longrightarrow> peers_ok t"
proof (induction rule: node_step.induct)
  case (5 cert addr msg s t c)
  then show ?case by (auto intro: peers_ok_handshake)
next
  case (6 s sample addr msg)
  then show ?case by (simp add: peers_ok_same [OF same_table_ready])
next
  case (8 s addr msg)
  then show ?case
    by (cases "send_message addr msg s") (auto dest: peers_ok_same [OF same_table_send_message])
next
  case (9 s addrs msg)
  then show ?case by (simp add: peers_ok_same [OF same_table_multicast])
qed (auto intro: inv_intros simp: set_pause_listening_def set_connect_to_handshake_contacts_def
    inject_next_event_def next_event_def split: list.splits)

text \<open>C33: The peer table stays within its limit and holds only compatible peers. In every state a node
  can reach, it has at most as many peers as its limit, a peer has a node type exactly if it has a
  network version, and then the version is the node's own and both or neither are pre-launch nodes;
  the type that is reported for a peer is that of a completed handshake.\<close>

theorem node_peers_compatible:
  assumes "node_reachable addr limit ty v s"
  shows "fmlen (node_peers s) \<le> limit \<and>
    (\<forall>a p. fmlookup (node_peers s) a = Some p \<longrightarrow>
       (peer_network_version p = None \<longleftrightarrow> peer_type p = None) \<and>
       peer_network_version p \<in> {None, Some v} \<and>
       (\<forall>t. get_peer_node_type a s = Inr t \<longrightarrow> peer_network_version p = Some v \<and> (ty = PreLaunch) = (t = PreLaunch)))"
proof -
  have "peers_ok s \<and> peer_limit s = limit \<and> network_version s = v \<and> node_type s = ty"
    using assms
  proof (induction rule: node_reachable.induct)
    case 1
    then show ?case by (simp add: Node_new_with_version_def peers_ok_def)
  next
    case (2 s t)
    then show ?case using peers_ok_step [OF 2(2)] identity_step [OF 2(2)] by (simp add: same_identity_def)
  qed
  then have len: "fmlen (node_peers s) \<le> limit" and id: "network_version s = v" "node_type s = ty"
    and ok: "\<forall>a p. fmlookup (node_peers s) a = Some p \<longrightarrow> peer_ok s p"
    by (auto simp: peers_ok_def)
  have "(peer_network_version p = None \<longleftrightarrow> peer_type p = None) \<and>
       peer_network_version p \<in> {None, Some v} \<and>
       (\<forall>t. get_peer_node_type a s = Inr t \<longrightarrow> peer_network_version p = Some v \<and> (ty = PreLaunch) = (t = PreLaunch))"
    if "fmlookup (node_peers s) a = Some p" for a p
    using ok [rule_format, OF that] id that
    by (cases "peer_network_version p"; cases "peer_type p")
      (auto simp: peer_ok_def is_compatible_def get_peer_node_type_def)
  then show ?thesis using len by blast
qed

section \<open>Gossip\<close>

text \<open>A gossip message as it arrives: the sample of peers drawn, the sender, and the message.\<close>

type_synonym 'm gossip = "SocketAddr list \<times> SocketAddr \<times> 'm \<times> u8 \<times> Token"

definition gossip_id :: "'m gossip \<Rightarrow> Token" where
  "gossip_id = (\<lambda>(_, _, _, _, i). i)"

fun fresh_gossip :: "Token set \<Rightarrow> 'm gossip list \<Rightarrow> 'm gossip list" where
  "fresh_gossip seen [] = []"
| "fresh_gossip seen (g # gs) =
     (if gossip_id g \<in> seen then fresh_gossip seen gs
      else g # fresh_gossip (insert (gossip_id g) seen) gs)"

definition receive_gossips :: "'m gossip list \<Rightarrow> 'm Node \<Rightarrow> 'm Node" where
  "receive_gossips gs s =
     fold (\<lambda>(sample, from_peer, payload, ttl, i). handle_gossip sample from_peer payload ttl i) gs s"

definition gossip_forwards :: "'m Node \<Rightarrow> 'm gossip \<Rightarrow> (SocketAddr \<times> 'm CommMessage) list" where
  "gossip_forwards s = (\<lambda>(sample, from_peer, payload, ttl, i).
     if ttl \<le> GOSSIP_MAX_TTL
     then map (\<lambda>p. (p, Gossip payload (ttl + 1) i))
       (filter (\<lambda>p. p \<noteq> from_peer \<and> fmlookup (node_peers s) p \<noteq> None) sample)
     else [])"

lemma send_multicast_outbox:
  "outbox (fst (send_multicast ps msg s)) =
     outbox s @ map (\<lambda>p. (p, msg)) (filter (\<lambda>p. fmlookup (node_peers s) p \<noteq> None) ps) \<and>
   node_events (fst (send_multicast ps msg s)) = node_events s \<and>
   seen_gossip_messages (fst (send_multicast ps msg s)) = seen_gossip_messages s"
proof (induction ps arbitrary: s)
  case (Cons p ps)
  show ?case
    using Cons.IH [of "fst (send_message p msg s)"]
    by (auto simp: case_prod_unfold Let_def send_message_def split: option.splits)
qed simp

lemma handle_gossip_fresh:
  assumes "i |\<notin>| seen_gossip_messages s"
  shows "node_events (handle_gossip sample f payload ttl i s) = node_events s @ [(f, payload)]"
    and "seen_gossip_messages (handle_gossip sample f payload ttl i s) = finsert i (seen_gossip_messages s)"
    and "outbox (handle_gossip sample f payload ttl i s) = outbox s @ gossip_forwards s (sample, f, payload, ttl, i)"
  using assms send_multicast_outbox [of "filter (\<lambda>p. p \<noteq> f) sample" "Gossip payload (ttl + 1) i"
      "s\<lparr>seen_gossip_messages := finsert i (seen_gossip_messages s), node_events := node_events s @ [(f, payload)]\<rparr>"]
  by (auto simp: handle_gossip_def Let_def gossip_forwards_def not_less filter_empty_conv conj_commute)

text \<open>C34: Gossip reaches the user once and dies out. Whatever gossip messages arrive, the node hands
  over exactly those whose identifier it has not seen before, each identifier once, and only those
  are sent on: to sampled peers in the table other than the sender, with the hop count increased by
  one, and only while the received hop count is at most \<open>GOSSIP_MAX_TTL\<close>. A message received with that
  count is still sent on, with one more: as the first copy is sent with count 0, a message is
  retransmitted once more often than the maximum that the source documents, and never oftener.\<close>

theorem gossip_delivered_once:
  "node_events (receive_gossips gs s) =
     node_events s @ map (\<lambda>(_, f, payload, _, _). (f, payload)) (fresh_gossip (fset (seen_gossip_messages s)) gs) \<and>
   distinct (map gossip_id (fresh_gossip (fset (seen_gossip_messages s)) gs)) \<and>
   gossip_id ` set (fresh_gossip (fset (seen_gossip_messages s)) gs) =
     gossip_id ` set gs - fset (seen_gossip_messages s) \<and>
   outbox (receive_gossips gs s) =
     outbox s @ concat (map (gossip_forwards s) (fresh_gossip (fset (seen_gossip_messages s)) gs)) \<and>
   (\<forall>g p payload n i. (p, Gossip payload n i) \<in> set (gossip_forwards s g) \<longrightarrow>
      n = (case g of (_, _, _, ttl, _) \<Rightarrow> ttl) + 1 \<and> 0 < n \<and> n \<le> GOSSIP_MAX_TTL + 1) \<and>
   (\<forall>sample f payload i p. p \<in> set sample \<longrightarrow> p \<noteq> f \<longrightarrow> fmlookup (node_peers s) p \<noteq> None \<longrightarrow>
      (p, Gossip payload (GOSSIP_MAX_TTL + 1) i) \<in> set (gossip_forwards s (sample, f, payload, GOSSIP_MAX_TTL, i)))"
proof (intro conjI)
  have fresh: "distinct (map gossip_id (fresh_gossip seen gs)) \<and>
      gossip_id ` set (fresh_gossip seen gs) = gossip_id ` set gs - seen" for seen
    by (induction gs arbitrary: seen) auto
  then show "distinct (map gossip_id (fresh_gossip (fset (seen_gossip_messages s)) gs))"
    and "gossip_id ` set (fresh_gossip (fset (seen_gossip_messages s)) gs) =
     gossip_id ` set gs - fset (seen_gossip_messages s)" by simp_all
  have step: "node_events (receive_gossips gs s) =
     node_events s @ map (\<lambda>(_, f, payload, _, _). (f, payload)) (fresh_gossip (fset (seen_gossip_messages s)) gs) \<and>
   outbox (receive_gossips gs s) =
     outbox s @ concat (map (gossip_forwards s) (fresh_gossip (fset (seen_gossip_messages s)) gs))"
  proof (induction gs arbitrary: s)
    case (Cons g gs)
    obtain sample f payload ttl i where g: "g = (sample, f, payload, ttl, i)" by (cases g) auto
    let ?t = "handle_gossip sample f payload ttl i s"
    have "node_peers ?t = node_peers s" using same_table_gossip [of s sample f payload ttl i] by (simp add: same_table_def)
    then have "gossip_forwards ?t = gossip_forwards s"
      by (intro ext) (simp add: gossip_forwards_def case_prod_unfold)
    then show ?case
      using Cons.IH [of ?t] handle_gossip_fresh [of i s sample f payload ttl]
      by (cases "i |\<in>| seen_gossip_messages s")
        (auto simp: g receive_gossips_def gossip_id_def handle_gossip_def)
  qed (simp add: receive_gossips_def)
  then show "node_events (receive_gossips gs s) =
     node_events s @ map (\<lambda>(_, f, payload, _, _). (f, payload)) (fresh_gossip (fset (seen_gossip_messages s)) gs)"
    and "outbox (receive_gossips gs s) =
     outbox s @ concat (map (gossip_forwards s) (fresh_gossip (fset (seen_gossip_messages s)) gs))" by simp_all
  have "ttl \<le> 4 \<Longrightarrow> 0 < ttl + 1 \<and> ttl + 1 \<le> 4 + (1 :: u8)" for ttl :: u8
  proof -
    assume "ttl \<le> 4"
    then have "unat ttl \<le> 4" by (simp add: word_le_nat_alt)
    then have "unat (ttl + 1) = unat ttl + 1" by (subst unat_word_ariths) simp
    then show ?thesis using \<open>unat ttl \<le> 4\<close> by (simp add: word_less_nat_alt word_le_nat_alt)
  qed
  then show "\<forall>g p payload n i. (p, Gossip payload n i) \<in> set (gossip_forwards s g) \<longrightarrow>
      n = (case g of (_, _, _, ttl, _) \<Rightarrow> ttl) + 1 \<and> 0 < n \<and> n \<le> GOSSIP_MAX_TTL + 1"
    by (auto simp: gossip_forwards_def GOSSIP_MAX_TTL_def split: if_splits)
  show "\<forall>sample f payload i p. p \<in> set sample \<longrightarrow> p \<noteq> f \<longrightarrow> fmlookup (node_peers s) p \<noteq> None \<longrightarrow>
      (p, Gossip payload (GOSSIP_MAX_TTL + 1) i) \<in> set (gossip_forwards s (sample, f, payload, GOSSIP_MAX_TTL, i))"
    by (auto simp: gossip_forwards_def)
qed

section \<open>A late handshake response\<close>

text \<open>
  The task that connects to a peer waits for the handshake response for some seconds and then drops
  the receiver of the notification. A compatible response that arrives afterwards makes the task of
  the connection panic: the entry of the peer stays in the table, although nothing receives from it
  any more.
\<close>

lemma late_handshake_response_panics:
  assumes "fmlookup (node_peers s) addr = Some p" and "notify_tx p" and "notify_rx p = RxHeld"
    and "take_handshake_receiver addr s = (s1, Inr ())" and "handshake_timeout addr s1 = (s2, r)"
    and "is_compatible s t v"
  shows "receive_handshake cert addr (HandshakeResponse v t contacts a) s2 = None"
    and "fmlookup (node_peers s2) addr \<noteq> None"
proof -
  have s2: "s2 = s\<lparr>node_peers := fmupd addr (p\<lparr>notify_rx := RxDropped\<rparr>) (node_peers s)\<rparr>"
    using assms(1,3-5) by (auto simp: take_handshake_receiver_def handshake_timeout_def)
  then show "fmlookup (node_peers s2) addr \<noteq> None" by simp
  show "receive_handshake cert addr (HandshakeResponse v t contacts a) s2 = None"
    using s2 assms(2,6) by (simp add: handle_handshake_response_def)
qed

text \<open>Asked to eject a peer from a full table, \<open>add_peer\<close> empties the table and refuses the new peer.\<close>

lemma force_add_refuses:
  "peer_limit s \<le> fmlen (node_peers s) \<Longrightarrow>
     add_peer addr True i s = (s\<lparr>node_peers := fmempty\<rparr>, Inl PeerListFull)"
  by (simp add: add_peer_def Let_def)

section \<open>The sorted peer list\<close>

text \<open>One pass of neighbour swaps carries the greatest key to the end.\<close>

fun bubble :: "string \<times> 'a \<Rightarrow> (string \<times> 'a) list \<Rightarrow> (string \<times> 'a) list" where
  "bubble x [] = [x]"
| "bubble x (y # ys) = (if fst y < fst x then y # bubble x ys else x # bubble y ys)"

lemma swap_step_at:
  "length xs = j \<Longrightarrow> swap_step j (xs @ x # y # ys) = xs @ (if fst y < fst x then y # x # ys else x # y # ys)"
  by (auto simp: swap_step_def nth_append list_update_append)

lemma swap_steps_bubble:
  "fold swap_step [length as..<length as + length ys] (as @ x # ys @ zs) = as @ bubble x ys @ zs"
proof (induction ys arbitrary: as x)
  case (Cons y ys)
  let ?w = "if fst y < fst x then y else x" and ?z = "if fst y < fst x then x else y"
  have u: "[length as..<length as + length (y # ys)] = length as # [length (as @ [?w])..<length (as @ [?w]) + length ys]"
    by (simp add: upt_conv_Cons del: upt_Suc)
  have "swap_step (length as) (as @ x # (y # ys) @ zs) = (as @ [?w]) @ ?z # ys @ zs"
    using swap_step_at [of as "length as" x y "ys @ zs"] by simp
  then have "fold swap_step [length as..<length as + length (y # ys)] (as @ x # (y # ys) @ zs) =
      (as @ [?w]) @ bubble ?z ys @ zs"
    unfolding u using Cons.IH [of "as @ [?w]" ?z] by simp
  then show ?case by (simp split: if_splits)
qed simp

lemma swap_pass_bubble: "swap_pass (length ys) (x # ys @ zs) = bubble x ys @ zs"
  using swap_steps_bubble [of "[]" ys x zs] by (simp add: swap_pass_def)

lemma length_bubble [simp]: "length (bubble x ys) = Suc (length ys)"
  by (induction ys arbitrary: x) auto

lemma mset_bubble: "mset (bubble x ys) = mset (x # ys)"
  by (induction ys arbitrary: x) auto

lemma filter_bubble: "filter (\<lambda>z. k = fst z) (bubble x ys) = filter (\<lambda>z. k = fst z) (x # ys)"
  by (induction ys arbitrary: x) auto

lemma bubble_last: "bubble x ys = xs @ [m] \<Longrightarrow> \<forall>z \<in> set (x # ys). fst z \<le> fst m"
proof (induction ys arbitrary: x xs)
  case (Cons y ys)
  let ?z = "if fst y < fst x then x else y"
  obtain w xs' where b: "bubble ?z ys = xs' @ [m]" and w: "xs = w # xs'"
    using Cons.prems by (cases xs; cases ys) (auto split: if_splits)
  from Cons.IH [OF b] have "fst ?z \<le> fst m" "\<forall>z \<in> set ys. fst z \<le> fst m" by (auto split: if_splits)
  then show ?case by (auto split: if_splits)
qed simp

text \<open>After \<open>i\<close> passes the last \<open>i\<close> entries are the greatest ones, in order.\<close>

definition passes_done :: "nat \<Rightarrow> (string \<times> 'a) list \<Rightarrow> (string \<times> 'a) list \<Rightarrow> bool" where
  "passes_done i xs ys \<longleftrightarrow>
     length ys = length xs \<and> mset ys = mset xs \<and>
     (\<forall>k. filter (\<lambda>z. k = fst z) ys = filter (\<lambda>z. k = fst z) xs) \<and>
     (\<exists>as zs. ys = as @ zs \<and> length zs = i \<and> sorted (map fst zs) \<and>
        (\<forall>a \<in> set as. \<forall>z \<in> set zs. fst a \<le> fst z))"

lemma passes_done_Suc:
  assumes "passes_done i xs ys" and "i < length xs"
  shows "passes_done (Suc i) xs (swap_pass (length xs - i - 1) ys)"
proof -
  obtain as zs where ys: "ys = as @ zs" "length zs = i" "sorted (map fst zs)"
    "\<forall>a \<in> set as. \<forall>z \<in> set zs. fst a \<le> fst z" and l: "length ys = length xs"
    using assms(1) by (auto simp: passes_done_def)
  then obtain x bs where as: "as = x # bs" using assms(2) by (cases as) auto
  have n: "length xs - i - 1 = length bs" using ys as l by simp
  obtain cs m where b: "bubble x bs = cs @ [m]" by (metis length_bubble length_0_conv nat.distinct(1) rev_exhaust)
  have p: "swap_pass (length xs - i - 1) ys = cs @ m # zs"
    unfolding n ys(1) as using swap_pass_bubble [of bs x zs] b by simp
  have ms: "set (cs @ [m]) = set as" using mset_bubble [of x bs] b as by (metis set_mset_mset)
  have "sorted (map fst (m # zs))" using ys(3,4) ms by auto
  moreover have "\<forall>a \<in> set cs. \<forall>z \<in> set (m # zs). fst a \<le> fst z"
  proof -
    have "set cs \<subseteq> set as" using ms by auto
    then have "\<forall>a \<in> set cs. \<forall>z \<in> set zs. fst a \<le> fst z" using ys(4) by blast
    moreover have "\<forall>a \<in> set cs. fst a \<le> fst m" using \<open>set cs \<subseteq> set as\<close> bubble_last [OF b] as by blast
    ultimately show ?thesis by simp
  qed
  moreover have "mset (cs @ m # zs) = mset ys" "length (cs @ m # zs) = length ys"
    using mset_bubble [of x bs] length_bubble [of x bs] b ys(1) as by auto
  moreover have "filter (\<lambda>z. k = fst z) (cs @ m # zs) = filter (\<lambda>z. k = fst z) ys" for k
    using filter_bubble [of k x bs] b ys(1) as by (simp split: if_splits)
  moreover have "length (m # zs) = Suc i" using ys(2) by simp
  ultimately have "\<exists>as zs'. cs @ m # zs = as @ zs' \<and> length zs' = Suc i \<and> sorted (map fst zs') \<and>
      (\<forall>a \<in> set as. \<forall>z \<in> set zs'. fst a \<le> fst z)" by blast
  moreover note \<open>mset (cs @ m # zs) = mset ys\<close> \<open>length (cs @ m # zs) = length ys\<close>
    \<open>\<And>k. filter (\<lambda>z. k = fst z) (cs @ m # zs) = filter (\<lambda>z. k = fst z) ys\<close>
  ultimately show ?thesis using assms(1) unfolding p passes_done_def by (simp only: simp_thms)
qed

text \<open>The peer list is sorted by address: the loops that build it compute the stable sort of the
  printed addresses.\<close>

lemma peer_list_sorted: "sort_keys xs = sort_key fst xs"
proof -
  have "passes_done i xs (fold (\<lambda>i. swap_pass (length xs - i - 1)) [0..<i] xs)" if "i \<le> length xs" for i
    using that
  proof (induction i)
    case 0
    then show ?case by (auto simp: passes_done_def)
  next
    case (Suc i)
    then show ?case using passes_done_Suc [of i xs] by simp
  qed
  from this [of "length xs"] have d: "passes_done (length xs) xs (sort_keys xs)" by (simp add: sort_keys_def)
  then have "sorted (map fst (sort_keys xs))" by (auto simp: passes_done_def)
  with d show ?thesis
    by (intro properties_for_sort_key [symmetric]) (auto simp: passes_done_def)
qed

section \<open>Witnesses\<close>

definition demo_node :: "string Node" where
  "demo_node = Node_new_with_version (V4 1 1) 2 Compute 5"

theorem node_peers_compatible_witness:
  "\<exists>s. node_reachable (V4 1 1) 2 Compute 5 (s :: string Node) \<and>
     (\<exists>p. fmlookup (node_peers s) (V4 2 7) = Some p \<and> peer_network_version p = Some 5) \<and>
     get_peer_node_type (V4 2 7) s = Inr Miner"
proof -
  let ?s1 = "accept_connection (V4 2 9) demo_node"
  have r1: "node_reachable (V4 1 1) 2 Compute 5 ?s1"
    unfolding demo_node_def by (rule node_reachable.intros(2) [OF node_reachable.intros(1) node_step.intros(1)])
  have "receive_handshake None (V4 2 9) (HandshakeRequest 5 Miner (V4 0 7)) ?s1 \<noteq> None"
    by (simp split: prod.splits sum.splits)
  then obtain t c where t: "receive_handshake None (V4 2 9) (HandshakeRequest 5 Miner (V4 0 7)) ?s1 = Some (t, c)"
    by fast
  have r2: "node_reachable (V4 1 1) 2 Compute 5 t"
    by (rule node_reachable.intros(2) [OF r1 node_step.intros(5) [OF t]])
  have "fst (the (receive_handshake None (V4 2 9) (HandshakeRequest 5 Miner (V4 0 7)) ?s1)) = t" using t by simp
  then have g: "get_peer_node_type (V4 2 7) t = Inr Miner" and p: "fmlookup (node_peers t) (V4 2 7) \<noteq> None"
    by (auto simp: demo_node_def Node_new_with_version_def accept_connection_def add_peer_def Let_def
        handle_handshake_request_def is_compatible_def rekey_peer_def handle_peer_def get_peer_node_type_def)
  then show ?thesis using node_peers_compatible [OF r2] r2 by blast
qed

theorem gossip_delivered_once_witness:
  "let s = accept_connection (V4 2 9) demo_node; g = ([V4 2 9, V4 3 3], V4 3 3, ''x'', 2, 7) in
   node_events (receive_gossips [g, g] s) = [(V4 3 3, ''x'')] \<and>
   (V4 2 9, Gossip ''x'' 3 7) \<in> set (outbox (receive_gossips [g, g] s)) \<and> (3 :: u8) \<le> GOSSIP_MAX_TTL + 1"
proof -
  let ?s = "accept_connection (V4 2 9) demo_node" and ?g = "([V4 2 9, V4 3 3], V4 3 3, ''x'', 2, 7)"
  have f: "seen_gossip_messages ?s = {||}" "node_events ?s = []" "fmlookup (node_peers ?s) (V4 2 9) \<noteq> None"
    by (simp_all add: demo_node_def Node_new_with_version_def accept_connection_def add_peer_def Let_def handle_peer_def)
  then have m: "(V4 2 9, Gossip ''x'' 3 7) \<in> set (gossip_forwards ?s ?g)"
    by (simp add: gossip_forwards_def GOSSIP_MAX_TTL_def)
  note t = gossip_delivered_once [of "[?g, ?g]" ?s]
  have "fresh_gossip {} [?g, ?g] = [?g]" by (simp add: gossip_id_def)
  then have "node_events (receive_gossips [?g, ?g] ?s) = [(V4 3 3, ''x'')]"
    "(V4 2 9, Gossip ''x'' 3 7) \<in> set (outbox (receive_gossips [?g, ?g] ?s))"
    using conjunct1 [OF t] conjunct1 [OF conjunct2 [OF conjunct2 [OF conjunct2 [OF t]]]] m f
    by (simp_all del: fresh_gossip.simps)
  moreover have "(3 :: u8) \<le> GOSSIP_MAX_TTL + 1" using t m by blast
  ultimately show ?thesis unfolding Let_def by blast
qed

end
