(* ===== verification/Node_Utils.thy ===== *)
theory Node_Utils
  imports Interfaces
begin

text \<open>
  What the nodes of the network share (\<^verbatim>\<open>src/utils.rs\<close>, \<^verbatim>\<open>src/interfaces.rs\<close>): responses, local
  events, and the proof of work of blocks and addresses. Hashing, hex encoding and the serialisation
  of a header are parameters (\<open>pow_ext\<close>); the random nonces a search draws are a list.
\<close>

section \<open>Model\<close>

record ProofOfWork =
  pow_address :: string
  proof_nonce :: bytes

record Response =
  success :: bool
  reason :: string

definition respond :: "bool \<Rightarrow> string \<Rightarrow> Response" where
  "respond ok why = \<lparr>success = ok, reason = why\<rparr>"

datatype LocalEvent = ExitEvent string | ReconnectionComplete | CoordinatedShutdown u64 | IgnoreEvent

datatype ResponseResult = Exit | Continue

record PowInfo =
  participant_only :: bool
  pow_b_num :: u64

record pow_ext =
  header_serialize :: "BlockHeader \<Rightarrow> bytes may_panic"
  sha3_256 :: "bytes \<Rightarrow> bytes"
  encode_hex :: "bytes \<Rightarrow> string"
  build_hex_txs_hash :: "string list \<Rightarrow> string"
  addr_display :: "SocketAddr \<Rightarrow> string"

text \<open>\<open>str::from_utf8\<close> succeeds on well-formed UTF-8.\<close>

definition utf8_cont :: "u8 \<Rightarrow> bool" where
  "utf8_cont c \<longleftrightarrow> 128 \<le> c \<and> c \<le> 191"

fun utf8_valid :: "bytes \<Rightarrow> bool" where
  "utf8_valid [] = True"
| "utf8_valid (a # r) =
     (if a < 128 then utf8_valid r
      else if 194 \<le> a \<and> a \<le> 223 then
        (case r of b # r' \<Rightarrow> utf8_cont b \<and> utf8_valid r' | _ \<Rightarrow> False)
      else if 224 \<le> a \<and> a \<le> 239 then
        (case r of
           b # c # r' \<Rightarrow> utf8_cont b \<and> utf8_cont c \<and> (a = 224 \<longrightarrow> 160 \<le> b) \<and> (a = 237 \<longrightarrow> b \<le> 159) \<and> utf8_valid r'
         | _ \<Rightarrow> False)
      else if 240 \<le> a \<and> a \<le> 244 then
        (case r of
           b # c # d # r' \<Rightarrow> utf8_cont b \<and> utf8_cont c \<and> utf8_cont d \<and> (a = 240 \<longrightarrow> 144 \<le> b) \<and>
             (a = 244 \<longrightarrow> b \<le> 143) \<and> utf8_valid r'
         | _ \<Rightarrow> False)
      else False)"

text \<open>A string is the list of its bytes, as characters.\<close>

definition from_utf8 :: "bytes \<Rightarrow> string option" where
  "from_utf8 bs = (if utf8_valid bs then Some (map (\<lambda>b. char_of (unat b)) bs) else None)"

subsection \<open>Proof of work\<close>

definition MINING_DIFFICULTY :: nat where
  "MINING_DIFFICULTY = 1"

definition BLOCK_PREPEND :: char where
  "BLOCK_PREPEND = CHR ''b''"

text \<open>Taking a slice beyond the end of the hash panics.\<close>

definition validate_pow_for_diff :: "'e pow_ext_scheme \<Rightarrow> nat \<Rightarrow> bytes \<Rightarrow> bytes option may_panic" where
  "validate_pow_for_diff E difficulty pow =
     (let pow_hash = sha3_256 E pow in
      if length pow_hash < difficulty then None
      else Some (if list_all (\<lambda>v. v = 0) (take difficulty pow_hash) then Some pow_hash else None))"

definition validate_pow :: "'e pow_ext_scheme \<Rightarrow> bytes \<Rightarrow> bytes option may_panic" where
  "validate_pow E pow = validate_pow_for_diff E MINING_DIFFICULTY pow"

definition validate_pow_block_hash :: "'e pow_ext_scheme \<Rightarrow> BlockHeader \<Rightarrow> bytes option may_panic" where
  "validate_pow_block_hash E hdr =
     do { pow \<leftarrow> header_serialize E hdr; validate_pow E pow }"

definition construct_valid_block_pow_hash :: "'e pow_ext_scheme \<Rightarrow> Block \<Rightarrow> (string + string) may_panic" where
  "construct_valid_block_pow_hash E blk =
     (if build_hex_txs_hash E (transactions blk) \<noteq> snd (txs_merkle_root_and_hash (header blk))
      then Some (Inl ''Transactions inconsistent with header'')
      else do {
        hash_digest \<leftarrow> validate_pow_block_hash E (header blk);
        Some (case hash_digest of
            None \<Rightarrow> Inl ''Only block passing validate_pow_block are accepted''
          | Some d \<Rightarrow> Inr (BLOCK_PREPEND # encode_hex E d)) })"

definition validate_pow_block :: "'e pow_ext_scheme \<Rightarrow> BlockHeader \<Rightarrow> bool may_panic" where
  "validate_pow_block E hdr = do { digest \<leftarrow> validate_pow_block_hash E hdr; Some (digest \<noteq> None) }"

definition validate_pow_for_address :: "'e pow_ext_scheme \<Rightarrow> ProofOfWork \<Rightarrow> bytes option \<Rightarrow> bool may_panic" where
  "validate_pow_for_address E pow rand_num =
     do { digest \<leftarrow> validate_pow E
            (as_bytes (pow_address pow) @ (case rand_num of None \<Rightarrow> [] | Some r \<Rightarrow> r) @ proof_nonce pow);
          Some (digest \<noteq> None) }"

definition format_parition_pow_address :: "'e pow_ext_scheme \<Rightarrow> SocketAddr \<Rightarrow> string" where
  "format_parition_pow_address E addr = addr_display E addr"

definition apply_mining_tx :: "BlockHeader \<Rightarrow> bytes \<Rightarrow> string \<Rightarrow> BlockHeader" where
  "apply_mining_tx hdr nonce tx_hash = hdr\<lparr>nonce_and_mining_tx_hash := (nonce, tx_hash)\<rparr>"

text \<open>
  The searches for a nonce. \<open>nonces\<close> are the random numbers drawn so far; the inner \<open>None\<close> is a
  search that has not ended with them.
\<close>

fun generate_pow_for_block ::
    "'e pow_ext_scheme \<Rightarrow> bytes list \<Rightarrow> BlockHeader \<Rightarrow> BlockHeader option may_panic" where
  "generate_pow_for_block E [] hdr = Some None"
| "generate_pow_for_block E (nonce # nonces) hdr =
     (let hdr = hdr\<lparr>nonce_and_mining_tx_hash := (nonce, snd (nonce_and_mining_tx_hash hdr))\<rparr>
      in do { ok \<leftarrow> validate_pow_block E hdr;
              if ok then Some (Some hdr) else generate_pow_for_block E nonces hdr })"

fun generate_pow_for_address ::
    "'e pow_ext_scheme \<Rightarrow> bytes list \<Rightarrow> SocketAddr \<Rightarrow> PowInfo \<Rightarrow> string \<Rightarrow> bytes option \<Rightarrow>
     (ProofOfWork \<times> PowInfo \<times> SocketAddr) option may_panic" where
  "generate_pow_for_address E [] peer info address rand_num = Some None"
| "generate_pow_for_address E (nonce # nonces) peer info address rand_num =
     (let pow = \<lparr>pow_address = address, proof_nonce = nonce\<rparr>
      in do { ok \<leftarrow> validate_pow_for_address E pow rand_num;
              if ok then Some (Some (pow, info, peer))
              else generate_pow_for_address E nonces peer info address rand_num })"

section \<open>What a search finds\<close>

text \<open>A hash is at least as long as the difficulty, and headers can be serialised.\<close>

definition pow_ext_ok :: "'e pow_ext_scheme \<Rightarrow> bool" where
  "pow_ext_ok E \<longleftrightarrow> (\<forall>b. MINING_DIFFICULTY \<le> length (sha3_256 E b)) \<and> (\<forall>h. header_serialize E h \<noteq> None)"

lemma validate_pow_no_panic:
  assumes "pow_ext_ok E"
  shows "\<exists>r. validate_pow E b = Some r" and "\<exists>ok. validate_pow_block E h = Some ok"
    and "\<exists>ok. validate_pow_for_address E pow r = Some ok"
proof -
  have v: "\<exists>r. validate_pow E b = Some r" for b
    using assms by (simp add: pow_ext_ok_def validate_pow_def validate_pow_for_diff_def Let_def not_less [symmetric])
  then show "\<exists>r. validate_pow E b = Some r" and "\<exists>ok. validate_pow_for_address E pow r = Some ok"
    by (auto simp: validate_pow_for_address_def option_bind_Some_iff)
  obtain y where "header_serialize E h = Some y" using assms by (auto simp: pow_ext_ok_def)
  then show "\<exists>ok. validate_pow_block E h = Some ok"
    using v [of y] by (auto simp: validate_pow_block_def validate_pow_block_hash_def)
qed

lemma generate_pow_for_block_found:
  assumes "generate_pow_for_block E nonces hdr = Some (Some found)"
  shows "validate_pow_block E found = Some True \<and>
    (\<exists>nonce \<in> set nonces. found = apply_mining_tx hdr nonce (snd (nonce_and_mining_tx_hash hdr)))"
  using assms
proof (induction nonces arbitrary: hdr)
  case (Cons nonce nonces)
  let ?h = "hdr\<lparr>nonce_and_mining_tx_hash := (nonce, snd (nonce_and_mining_tx_hash hdr))\<rparr>"
  obtain ok where ok: "validate_pow_block E ?h = Some ok"
    using Cons.prems by (auto simp: Let_def option_bind_Some_iff)
  show ?case
  proof (cases ok)
    case True
    then show ?thesis using Cons.prems ok by (auto simp: Let_def apply_mining_tx_def)
  next
    case False
    then show ?thesis using Cons.prems ok Cons.IH [of ?h] by (auto simp: Let_def apply_mining_tx_def)
  qed
qed simp

lemma generate_pow_for_block_ends:
  assumes "pow_ext_ok E" and "nonce \<in> set nonces"
    and "validate_pow_block E (apply_mining_tx hdr nonce (snd (nonce_and_mining_tx_hash hdr))) = Some True"
  shows "\<exists>found. generate_pow_for_block E nonces hdr = Some (Some found)"
  using assms(2,3)
proof (induction nonces arbitrary: hdr)
  case (Cons n nonces)
  let ?h = "hdr\<lparr>nonce_and_mining_tx_hash := (n, snd (nonce_and_mining_tx_hash hdr))\<rparr>"
  obtain ok where ok: "validate_pow_block E ?h = Some ok" using validate_pow_no_panic(2) [OF assms(1)] by blast
  show ?case
  proof (cases ok)
    case True
    then show ?thesis using ok by (simp add: Let_def)
  next
    case False
    then have "nonce \<in> set nonces" using Cons.prems ok by (auto simp: apply_mining_tx_def)
    then show ?thesis using Cons.IH [of ?h] Cons.prems(2) ok False by (simp add: Let_def apply_mining_tx_def)
  qed
qed simp

lemma generate_pow_for_address_found:
  assumes "generate_pow_for_address E nonces peer info address rnd = Some (Some (pow, info', peer'))"
  shows "validate_pow_for_address E pow rnd = Some True" and "pow_address pow = address" and "info' = info" and "peer' = peer"
proof -
  have "validate_pow_for_address E pow rnd = Some True \<and> pow_address pow = address \<and> info' = info \<and> peer' = peer"
    using assms
  proof (induction nonces)
    case (Cons n nonces)
    obtain ok where "validate_pow_for_address E \<lparr>pow_address = address, proof_nonce = n\<rparr> rnd = Some ok"
      using Cons.prems by (auto simp: Let_def option_bind_Some_iff)
    then show ?case using Cons by (cases ok) (auto simp: Let_def)
  qed simp
  then show "validate_pow_for_address E pow rnd = Some True" and "pow_address pow = address" and "info' = info" and "peer' = peer"
    by auto
qed

end
