(* ===== verification/Storage_Node.thy ===== *)
theory Storage_Node
  imports Storage_Raft Db_Utils Comms Node_Utils
begin

text \<open>
  The storage node (\<^verbatim>\<open>src/storage.rs\<close>): how blocks and transactions are written to the database
  and read back, and the handlers of the node around its consensus state (\<open>StorageRaft\<close>), its
  catch-up (\<open>StorageFetch\<close>), its database (\<open>SimpleDb\<close>, in memory) and its network node (\<open>Node\<close>).
  Serialisation, hashing and the hash of a list of transactions are parameters (\<open>storage_ext\<close>);
  time and message tokens are arguments.
\<close>

section \<open>Model\<close>

subsection \<open>Data\<close>

datatype StorageError = ConfigError string | Network CommsError | DbError SimpleDbError | Serialization

type_synonym 'a storage_result = "StorageError + 'a"

datatype StorageRequest =
    GetBlockchainItem string
  | SendBlockchainItem string BlockchainItem
  | GetHistory u64 u64
  | GetUnicornTable "u64 option"
  | SendPow ProofOfWork
  | SendBlock "MinedBlock option"
  | StoreContract
  | StorageClosing
  | SendRaftCmd bytes

text \<open>What a storage node sends, by the type of the receiver.\<close>

datatype storage_msg =
    ToMinerBlockchainItem string BlockchainItem
  | ToStorage StorageRequest
  | ToComputeBlockStored BlockStoredInfo
  | ToComputeClosing

record StorageNode =
  sn_node :: "storage_msg Node"
  node_raft :: StorageRaft
  catchup_fetch :: StorageFetch
  sn_db :: SimpleDb
  compute_addr :: SocketAddr
  whitelisted :: "(SocketAddr, bool) fmap"
  shutdown_group :: "SocketAddr fset"
  blockchain_item_fetched :: "(string \<times> BlockchainItem \<times> SocketAddr) option"

record storage_ext = pow_ext +
  sraft :: storage_raft_ext
  sdb :: db_ext
  block_serialize :: "Block \<Rightarrow> bytes may_panic"
  block_to_json :: "Block \<Rightarrow> bytes may_panic"
  tx_serialize :: "Transaction \<Rightarrow> bytes may_panic"
  tx_to_json :: "Transaction \<Rightarrow> bytes may_panic"
  meta_serialize :: "BlockchainItemMeta \<Rightarrow> bytes may_panic"
  meta_deserialize :: "bytes \<Rightarrow> BlockchainItemMeta option"
  u64_serialize :: "u64 \<Rightarrow> bytes option"
  u64_deserialize :: "bytes \<Rightarrow> u64 option"

subsection \<open>The database of blocks\<close>

definition put_to_block_chain_at ::
    "storage_ext \<Rightarrow> string \<Rightarrow> BlockchainItemMeta \<Rightarrow> bytes \<Rightarrow> bytes \<Rightarrow> bytes \<Rightarrow> SimpleDbWriteBatch \<Rightarrow>
     (SimpleDbWriteBatch \<times> bytes) may_panic" where
  "put_to_block_chain_at E cf meta key val val_json batch =
     (let pointer = version_pointer cf key in
      do { meta_ser \<leftarrow> meta_serialize E meta;
           batch \<leftarrow> batch_put_cf cf key val batch;
           batch \<leftarrow> batch_put_cf DB_COL_BC_JSON key val_json batch;
           batch \<leftarrow> batch_put_cf DB_COL_BC_ALL key pointer batch;
           batch \<leftarrow> batch_put_cf DB_COL_BC_META key meta_ser batch;
           batch \<leftarrow> batch_put_cf DB_COL_BC_NAMED (as_bytes (meta_key meta)) pointer batch;
           Some (batch, pointer) })"

definition put_to_block_chain ::
    "storage_ext \<Rightarrow> BlockchainItemMeta \<Rightarrow> bytes \<Rightarrow> bytes \<Rightarrow> bytes \<Rightarrow> SimpleDbWriteBatch \<Rightarrow>
     (SimpleDbWriteBatch \<times> bytes) may_panic" where
  "put_to_block_chain E meta key val val_json batch =
     put_to_block_chain_at E DB_COL_BC_NOW meta key val val_json batch"

definition put_named_last_block_to_block_chain :: "bytes \<Rightarrow> SimpleDbWriteBatch \<Rightarrow> SimpleDbWriteBatch may_panic" where
  "put_named_last_block_to_block_chain pointer batch =
     batch_put_cf DB_COL_BC_NAMED (as_bytes LAST_BLOCK_HASH_KEY) pointer batch"

definition put_contiguous_block_num ::
    "storage_ext \<Rightarrow> u64 \<Rightarrow> SimpleDbWriteBatch \<Rightarrow> SimpleDbWriteBatch may_panic" where
  "put_contiguous_block_num E bn batch =
     do { last_num \<leftarrow> u64_serialize E bn;
          batch_put_cf DB_COL_INTERNAL (as_bytes LAST_CONTIGUOUS_BLOCK_KEY) last_num batch }"

text \<open>The mining hashes come after the transactions; the index is cut to 32 bits.\<close>

definition all_ordered_stored_block_tx_hashes :: "string list \<Rightarrow> (bytes \<times> string) list \<Rightarrow> (u32 \<times> string) list" where
  "all_ordered_stored_block_tx_hashes txs mining =
     (let all_txs = txs @ map snd mining in zip (map of_nat [0..<length all_txs]) all_txs)"

text \<open>
  Reading an item by its key. A missing entry, or metadata that cannot be read, gives nothing; a
  pointer that is not one panics.
\<close>

definition get_stored_value_from_db :: "storage_ext \<Rightarrow> SimpleDb \<Rightarrow> bytes \<Rightarrow> BlockchainItem option may_panic" where
  "get_stored_value_from_db E db key =
     (let col_all = (if key \<noteq> [] \<and> hd key = NAMED_CONSTANT_PREPEND then DB_COL_BC_NAMED else DB_COL_BC_ALL) in
      do { pointer \<leftarrow> db_get_cf col_all key db;
           case pointer of
             None \<Rightarrow> Some None
           | Some pointer \<Rightarrow> do {
               (version, cf, key) \<leftarrow> decode_version_pointer pointer;
               data \<leftarrow> db_get_cf cf key db;
               case data of
                 None \<Rightarrow> Some None
               | Some data \<Rightarrow> do {
                   data_json \<leftarrow> db_get_cf DB_COL_BC_JSON key db;
                   case data_json of
                     None \<Rightarrow> Some None
                   | Some data_json \<Rightarrow> do {
                       meta \<leftarrow> db_get_cf DB_COL_BC_META key db;
                       Some (do {
                         meta \<leftarrow> meta;
                         meta \<leftarrow> meta_deserialize E meta;
                         Some \<lparr>item_version = version, item_meta = meta, item_key = key, item_data = data,
                               item_data_json = data_json\<rparr> }) } } } })"

text \<open>The loop over the transactions of a block; it returns the batch and the number of transactions.\<close>

fun store_block_txs ::
    "storage_ext \<Rightarrow> TxMap \<Rightarrow> u64 \<Rightarrow> (u32 \<times> string) list \<Rightarrow> u32 \<Rightarrow> SimpleDbWriteBatch \<Rightarrow>
     (SimpleDbWriteBatch \<times> u32) may_panic" where
  "store_block_txs E all_block_txs bn [] tx_len batch = Some (batch, tx_len)"
| "store_block_txs E all_block_txs bn ((tx_num, tx_hash) # rest) tx_len batch =
     (case fmlookup all_block_txs tx_hash of
        Some tx_value \<Rightarrow> do {
          tx_input \<leftarrow> tx_serialize E tx_value;
          tx_json \<leftarrow> tx_to_json E tx_value;
          (batch, _) \<leftarrow> put_to_block_chain E (TxMeta bn tx_num) (as_bytes tx_hash) tx_input tx_json batch;
          store_block_txs E all_block_txs bn rest (tx_num + 1) batch }
      | None \<Rightarrow> store_block_txs E all_block_txs bn rest (tx_num + 1) batch)"

text \<open>
  Storing a block. For the genesis block its transactions are listed in the log afterwards, which
  panics when one is missing.
\<close>

definition store_complete_block ::
    "storage_ext \<Rightarrow> FetchStatus \<Rightarrow> CompleteBlock \<Rightarrow> SimpleDb \<Rightarrow> (SimpleDb \<times> BlockStoredInfo) may_panic" where
  "store_complete_block E status complete self_db =
     (let blk = common_block (complete_common complete);
          all_block_txs = block_txs (complete_common complete);
          bn = b_num (header blk);
          (nonce, mining_tx_hash) = nonce_and_mining_tx_hash (header blk)
      in do {
        block_input \<leftarrow> block_serialize E blk;
        block_json \<leftarrow> block_to_json E blk;
        pow_hash \<leftarrow> construct_valid_block_pow_hash E blk;
        bhash \<leftarrow> (case pow_hash of Inl _ \<Rightarrow> None | Inr h \<Rightarrow> Some h);
        let stored = \<lparr>block_hash = bhash, block_num = bn, stored_nonce = nonce,
              mining_transactions = (case fmlookup all_block_txs mining_tx_hash of
                  None \<Rightarrow> fmempty | Some tx \<Rightarrow> fmupd mining_tx_hash tx fmempty),
              stored_shutdown = mined_shutdown (complete_extra_info complete)\<rparr>;
        (batch, tx_len) \<leftarrow> store_block_txs E all_block_txs bn
          (all_ordered_stored_block_tx_hashes (transactions blk) [nonce_and_mining_tx_hash (header blk)])
          0 (batch_writer self_db);
        (batch, pointer) \<leftarrow> put_to_block_chain E (BlockMeta bn tx_len) (as_bytes bhash) block_input block_json batch;
        batch \<leftarrow> put_named_last_block_to_block_chain pointer batch;
        batch \<leftarrow> (if status = Contiguous bn then put_contiguous_block_num E bn batch else Some batch);
        self_db \<leftarrow> db_write (batch_done batch) self_db;
        if bn = 0 \<and> list_ex (\<lambda>h. fmlookup all_block_txs h = None) (transactions blk) then None
        else Some (self_db, stored) })"

fun store_fetched_items ::
    "storage_ext \<Rightarrow> u64 \<Rightarrow> BlockchainItem list \<Rightarrow> bytes option \<Rightarrow> SimpleDbWriteBatch \<Rightarrow>
     (SimpleDbWriteBatch \<times> bytes option) storage_result may_panic" where
  "store_fetched_items E bn [] block_pointer batch = Some (Inr (batch, block_pointer))"
| "store_fetched_items E bn (item # items) block_pointer batch =
     (if \<not> utf8_valid (item_key item) then Some (Inl (ConfigError ''Non UTF-8 blockchain key''))
      else do {
        (batch, pointer) \<leftarrow>
          put_to_block_chain E (item_meta item) (item_key item) (item_data item) (item_data_json item) batch;
        store_fetched_items E bn items
          (case item_meta item of
             BlockMeta n _ \<Rightarrow> if n = bn then Some pointer else block_pointer
           | TxMeta _ _ \<Rightarrow> block_pointer) batch })"

text \<open>The database after the call, and the result.\<close>

definition store_fetched_complete_block ::
    "storage_ext \<Rightarrow> BlockStoredInfo \<Rightarrow> FetchStatus \<Rightarrow> FetchedBlockChain \<Rightarrow> SimpleDb \<Rightarrow>
     (SimpleDb \<times> FetchStatus storage_result) may_panic" where
  "store_fetched_complete_block E last_stored status fetched self_db =
     (let (bn, items) = fetched in
      do { r \<leftarrow> store_fetched_items E bn items None (batch_writer self_db);
           case r of
             Inl e \<Rightarrow> Some (self_db, Inl e)
           | Inr (batch, None) \<Rightarrow> Some (self_db, Inl (ConfigError ''Block not specified''))
           | Inr (batch, Some block_pointer) \<Rightarrow> do {
               batch \<leftarrow> (if block_num last_stored = bn
                 then put_named_last_block_to_block_chain block_pointer batch else Some batch);
               batch \<leftarrow> (if status = Contiguous bn then put_contiguous_block_num E bn batch else Some batch);
               db \<leftarrow> db_write (batch_done batch) self_db;
               Some (db, Inr status) } })"

subsection \<open>The handlers of the node\<close>

definition node_send :: "Token \<Rightarrow> SocketAddr \<Rightarrow> storage_msg \<Rightarrow> StorageNode \<Rightarrow> StorageNode \<times> unit storage_result" where
  "node_send token peer msg self =
     (case send token peer msg (sn_node self) of
        (n, Inl e) \<Rightarrow> (self\<lparr>sn_node := n\<rparr>, Inl (Network e))
      | (n, Inr _) \<Rightarrow> (self\<lparr>sn_node := n\<rparr>, Inr ()))"

definition send_stored_block :: "Token \<Rightarrow> StorageNode \<Rightarrow> StorageNode \<times> unit storage_result" where
  "send_stored_block token self =
     (case storage_get_last_block_stored (node_raft self) of
        Some b \<Rightarrow> node_send token (compute_addr self) (ToComputeBlockStored b) self
      | None \<Rightarrow> (self, Inr ()))"

definition resend_trigger_message :: "Token \<Rightarrow> StorageNode \<Rightarrow> StorageNode" where
  "resend_trigger_message token self = fst (send_stored_block token self)"

definition send_blockchain_item :: "Token \<Rightarrow> StorageNode \<Rightarrow> StorageNode \<times> unit storage_result" where
  "send_blockchain_item token self =
     (case blockchain_item_fetched self of
        None \<Rightarrow> (self, Inr ())
      | Some (key, item, peer) \<Rightarrow>
          let self = self\<lparr>blockchain_item_fetched := None\<rparr> in
          (case get_peer_node_type peer (sn_node self) of
             Inl e \<Rightarrow> (self, Inl (Network e))
           | Inr Miner \<Rightarrow> node_send token peer (ToMinerBlockchainItem key item) self
           | Inr Storage \<Rightarrow> node_send token peer (ToStorage (SendBlockchainItem key item)) self
           | Inr _ \<Rightarrow> (self, Inr ())))"

definition catchup_fetch_blockchain_item :: "Token \<Rightarrow> StorageNode \<Rightarrow> StorageNode \<times> unit storage_result" where
  "catchup_fetch_blockchain_item token self =
     (case get_fetch_peer_and_key (catchup_fetch self) of
        Some (peer, key) \<Rightarrow> node_send token peer (ToStorage (GetBlockchainItem key)) self
      | None \<Rightarrow> (self, Inr ()))"

definition flood_closing_events :: "Token \<Rightarrow> StorageNode \<Rightarrow> StorageNode \<times> bool" where
  "flood_closing_events token self =
     (let n = fst (send_to_all token [compute_addr self] ToComputeClosing (sn_node self));
          n = fst (send_to_all token (raft_peer_addrs (s_raft_active (node_raft self))) (ToStorage StorageClosing) n)
      in (self\<lparr>sn_node := n\<rparr>, shutdown_group self = {||}))"

definition receive_closing :: "SocketAddr \<Rightarrow> StorageNode \<Rightarrow> StorageNode \<times> Response option" where
  "receive_closing peer self =
     (if peer |\<notin>| shutdown_group self then (self, None)
      else
        let self = self\<lparr>shutdown_group := shutdown_group self |-| {|peer|}\<rparr> in
        (self, Some (respond True
           (if peer = compute_addr self then ''Compute Shutdown''
            else if shutdown_group self \<noteq> {||} then ''Shutdown pending''
            else ''Shutdown''))))"

definition receive_block ::
    "storage_ext \<Rightarrow> Token \<Rightarrow> SocketAddr \<Rightarrow> MinedBlock option \<Rightarrow> StorageNode \<Rightarrow> (StorageNode \<times> Response option) may_panic" where
  "receive_block E token peer mined self =
     (case mined of
        None \<Rightarrow> Some (resend_trigger_message token self, None)
      | Some m \<Rightarrow> do {
          pow_hash \<leftarrow> construct_valid_block_pow_hash E (common_block (mined_common m));
          case pow_hash of
            Inl _ \<Rightarrow> Some (self, Some (respond False ''Block received not added. PoW invalid''))
          | Inr _ \<Rightarrow> do {
              (raft, ok) \<leftarrow> propose_received_part_block (sraft E) peer (mined_common m) (mined_extra_info m) (node_raft self);
              let self = self\<lparr>node_raft := raft\<rparr>;
              if \<not> ok
              then let self = self\<lparr>node_raft := storage_re_propose_uncommitted_current_b_num (node_raft self)\<rparr>
                   in Some (resend_trigger_message token self, None)
              else Some (self, Some (respond True ''Block received to be added'')) } })"

definition get_blockchain_item ::
    "storage_ext \<Rightarrow> SocketAddr \<Rightarrow> string \<Rightarrow> StorageNode \<Rightarrow> (StorageNode \<times> Response) may_panic" where
  "get_blockchain_item E peer key self =
     do { item \<leftarrow> get_stored_value_from_db E (sn_db self) (as_bytes key);
          let item = (case item of
              Some i \<Rightarrow> i
            | None \<Rightarrow> \<lparr>item_version = 0, item_meta = BlockMeta 0 0, item_key = [], item_data = [], item_data_json = []\<rparr>);
          Some (self\<lparr>blockchain_item_fetched := Some (key, item, peer)\<rparr>,
                respond True ''Blockchain item fetched from storage'') }"

definition receive_blockchain_item ::
    "storage_ext \<Rightarrow> nat \<Rightarrow> SocketAddr \<Rightarrow> string \<Rightarrow> BlockchainItem \<Rightarrow> StorageNode \<Rightarrow> (StorageNode \<times> Response) may_panic" where
  "receive_blockchain_item E now peer key item self =
     (let (fetch, to_store) = receive_blockchain_items key item (catchup_fetch self);
          self = self\<lparr>catchup_fetch := fetch\<rparr>;
          is_complete = fetch_is_complete fetch
      in case to_store of
        Some blk \<Rightarrow> do {
          (db, result) \<leftarrow>
            (case storage_get_last_block_stored (node_raft self) of
               Some last_stored \<Rightarrow>
                 if fst blk \<le> block_num last_stored
                 then store_fetched_complete_block E last_stored (check_contiguous_block_num (fst blk) fetch) blk (sn_db self)
                 else Some (sn_db self, Inl (ConfigError ''Expect only block less than block stored''))
             | None \<Rightarrow> Some (sn_db self, Inl (ConfigError ''Expect only block less than block stored'')));
          let self = self\<lparr>sn_db := db\<rparr>;
          case result of
            Inr status \<Rightarrow>
              let fetch = set_first_timeout now (update_contiguous_block_num status fetch)
              in Some (self\<lparr>catchup_fetch := fetch\<rparr>,
                   respond True (if is_complete then ''Blockchain item received: Block stored(Done)''
                                 else ''Blockchain item received: Block stored''))
          | Inl _ \<Rightarrow> Some (self, respond False ''Blockchain item received: Block failed'') }
      | None \<Rightarrow>
          Some (if \<not> is_complete then self\<lparr>catchup_fetch := set_first_timeout now fetch\<rparr> else self,
                respond True ''Blockchain item received''))"

definition whitelist :: "SocketAddr \<Rightarrow> StorageNode \<Rightarrow> StorageNode \<times> Response" where
  "whitelist addr self =
     (self\<lparr>whitelisted := fmupd addr True (whitelisted self)\<rparr>, respond True ''Address added to whitelist'')"

definition not_implemented :: Response where
  "not_implemented = respond False ''Not implemented yet''"

definition storage_get_history :: "u64 \<Rightarrow> u64 \<Rightarrow> StorageNode \<Rightarrow> Response" where
  "storage_get_history start_time end_time self = not_implemented"

definition storage_get_unicorn_table :: "u64 option \<Rightarrow> StorageNode \<Rightarrow> Response" where
  "storage_get_unicorn_table n self = not_implemented"

definition storage_receive_pow :: "ProofOfWork \<Rightarrow> StorageNode \<Rightarrow> Response" where
  "storage_receive_pow pow self = not_implemented"

definition storage_receive_contracts :: "StorageNode \<Rightarrow> Response" where
  "storage_receive_contracts self = not_implemented"

fun storage_handle_request ::
    "storage_ext \<Rightarrow> nat \<Rightarrow> Token \<Rightarrow> SocketAddr \<Rightarrow> StorageRequest \<Rightarrow> StorageNode \<Rightarrow>
     (StorageNode \<times> Response option) may_panic" where
  "storage_handle_request E now token peer (GetBlockchainItem key) self =
     do { (self, r) \<leftarrow> get_blockchain_item E peer key self; Some (self, Some r) }"
| "storage_handle_request E now token peer (SendBlockchainItem key item) self =
     do { (self, r) \<leftarrow> receive_blockchain_item E now peer key item self; Some (self, Some r) }"
| "storage_handle_request E now token peer (GetHistory a b) self = Some (self, Some (storage_get_history a b self))"
| "storage_handle_request E now token peer (GetUnicornTable n) self = Some (self, Some (storage_get_unicorn_table n self))"
| "storage_handle_request E now token peer (SendPow pow) self = Some (self, Some (storage_receive_pow pow self))"
| "storage_handle_request E now token peer (SendBlock mined) self = receive_block E token peer mined self"
| "storage_handle_request E now token peer StoreContract self = Some (self, Some (storage_receive_contracts self))"
| "storage_handle_request E now token peer StorageClosing self = Some (receive_closing peer self)"
| "storage_handle_request E now token peer (SendRaftCmd msg) self =
     Some (self\<lparr>node_raft := storage_received_message msg (node_raft self)\<rparr>, None)"

text \<open>Without a file there is nothing to back up; the check itself may panic.\<close>

definition backup_persistent_dbs :: "StorageNode \<Rightarrow> StorageNode may_panic" where
  "backup_persistent_dbs self = do { _ \<leftarrow> storage_need_backup (node_raft self); Some self }"

definition handle_committed_block :: "storage_ext \<Rightarrow> StorageNode \<Rightarrow> (StorageNode \<times> Response) may_panic" where
  "handle_committed_block E self =
     do { (raft, blk) \<leftarrow> storage_generate_complete_block (node_raft self);
          let self = self\<lparr>node_raft := raft\<rparr>;
          let bn = b_num (header (common_block (complete_common blk)));
          let contiguous = check_contiguous_block_num bn (catchup_fetch self);
          (db, stored) \<leftarrow> store_complete_block E contiguous blk (sn_db self);
          let fetch = increase_running_target bn (update_contiguous_block_num contiguous (catchup_fetch self));
          raft \<leftarrow> storage_event_processed_generate_snapshot (sraft E) stored (node_raft self);
          self \<leftarrow> backup_persistent_dbs (self\<lparr>sn_db := db, catchup_fetch := fetch, node_raft := raft\<rparr>);
          Some (self, respond True ''Block complete stored'') }"

definition handle_committed_snapshot :: "nat \<Rightarrow> StorageNode \<Rightarrow> StorageNode \<times> Response" where
  "handle_committed_snapshot now self =
     (case storage_get_last_block_stored (node_raft self) of
        Some stored \<Rightarrow>
          (case fetch_missing_blockchain_items now (block_num stored) (catchup_fetch self) of
             (fetch, started) \<Rightarrow>
               (self\<lparr>catchup_fetch := fetch\<rparr>,
                respond True (if started then ''Snapshot applied: Fetch missing blocks'' else ''Snapshot applied'')))
      | None \<Rightarrow> (self, respond True ''Snapshot applied''))"

definition handle_committed_data ::
    "storage_ext \<Rightarrow> nat \<Rightarrow> RaftCommit \<Rightarrow> StorageNode \<Rightarrow> (StorageNode \<times> Response option) may_panic" where
  "handle_committed_data E now commit self =
     do { (raft, item) \<leftarrow> storage_received_commit (sraft E) commit (node_raft self);
          let self = self\<lparr>node_raft := raft\<rparr>;
          case item of
            Some StorageBlock \<Rightarrow> do { (self, r) \<leftarrow> handle_committed_block E self; Some (self, Some r) }
          | Some StorageSnapshot \<Rightarrow> (let (self, r) = handle_committed_snapshot now self in Some (self, Some r))
          | None \<Rightarrow> Some (self, None) }"

fun storage_handle_local_event :: "LocalEvent \<Rightarrow> Response option" where
  "storage_handle_local_event (ExitEvent why) = Some (respond True why)"
| "storage_handle_local_event ReconnectionComplete = Some (respond True ''Sent startup requests on reconnection'')"
| "storage_handle_local_event (CoordinatedShutdown _) = None"
| "storage_handle_local_event IgnoreEvent = None"

text \<open>What the node selects on, with the conditions under which a branch is enabled.\<close>

datatype storage_event =
    EventFrame SocketAddr StorageRequest
  | EventCommit RaftCommit
  | EventRaftMsg SocketAddr bytes
  | EventFetchTimeout
  | EventLocal LocalEvent

definition event_enabled :: "storage_event \<Rightarrow> StorageNode \<Rightarrow> bool" where
  "event_enabled ev self \<longleftrightarrow>
     (case ev of
        EventCommit _ \<Rightarrow> \<not> is_shutdown_commit_processed (node_raft self)
      | EventFetchTimeout \<Rightarrow> \<not> storage_need_initial_state (node_raft self) \<and> to_receive (catchup_fetch self) \<noteq> None
      | _ \<Rightarrow> \<not> storage_need_initial_state (node_raft self))"

fun storage_handle_next_event ::
    "storage_ext \<Rightarrow> nat \<Rightarrow> Token \<Rightarrow> storage_event \<Rightarrow> StorageNode \<Rightarrow> (StorageNode \<times> Response option) may_panic" where
  "storage_handle_next_event E now token (EventFrame peer req) self = storage_handle_request E now token peer req self"
| "storage_handle_next_event E now token (EventCommit commit) self = handle_committed_data E now commit self"
| "storage_handle_next_event E now token (EventRaftMsg addr msg) self =
     Some (fst (node_send token addr (ToStorage (SendRaftCmd msg)) self), None)"
| "storage_handle_next_event E now token EventFetchTimeout self =
     (let (fetch, was_retry) = set_retry_timeout now (catchup_fetch self);
          fetch = (if was_retry then change_to_next_fetch_peer fetch else fetch)
      in Some (self\<lparr>catchup_fetch := fetch\<rparr>, Some (respond True ''Catch up stored blocks'')))"
| "storage_handle_next_event E now token (EventLocal ev) self = Some (self, storage_handle_local_event ev)"

text \<open>The reaction to a response; the others are only logged.\<close>

definition storage_handle_next_event_response ::
    "Token \<Rightarrow> Response storage_result \<Rightarrow> StorageNode \<Rightarrow> StorageNode \<times> ResponseResult" where
  "storage_handle_next_event_response token response self =
     (case response of
        Inr r \<Rightarrow>
          if r = respond True ''Blockchain item fetched from storage'' then (fst (send_blockchain_item token self), Continue)
          else if r = respond True ''Shutdown'' then (self, Exit)
          else if r = respond True ''Compute Shutdown'' then
            (case flood_closing_events token self of (self, True) \<Rightarrow> (self, Exit) | (self, False) \<Rightarrow> (self, Continue))
          else if r = respond True ''Block complete stored'' then (fst (send_stored_block token self), Continue)
          else if r = respond True ''Catch up stored blocks'' then (fst (catchup_fetch_blockchain_item token self), Continue)
          else (self, Continue)
      | Inl _ \<Rightarrow> (self, Continue))"

definition storage_load_local_db :: "storage_ext \<Rightarrow> StorageNode \<Rightarrow> StorageNode storage_result may_panic" where
  "storage_load_local_db E self =
     do { stored_run \<leftarrow> db_get_cf DB_COL_INTERNAL (as_bytes RAFT_KEY_RUN) (sn_db self);
          let key_run = (case stored_run of None \<Rightarrow> Some 0 | Some ser \<Rightarrow> map_option (\<lambda>n. n + 1) (u64_deserialize E ser));
          case Option.bind key_run (\<lambda>n. map_option (\<lambda>ser. (n, ser)) (u64_serialize E n)) of
            None \<Rightarrow> Some (Inl Serialization)
          | Some (n, ser) \<Rightarrow> do {
              db \<leftarrow> db_put_cf DB_COL_INTERNAL (as_bytes RAFT_KEY_RUN) ser (sn_db self);
              let self = self\<lparr>sn_db := db, node_raft := storage_set_key_run n (node_raft self)\<rparr>;
              last_num \<leftarrow> db_get_cf DB_COL_INTERNAL (as_bytes LAST_CONTIGUOUS_BLOCK_KEY) db;
              case last_num of
                None \<Rightarrow> Some (Inr (self\<lparr>catchup_fetch := set_initial_last_contiguous_block_key None (catchup_fetch self)\<rparr>))
              | Some ser \<Rightarrow>
                  (case u64_deserialize E ser of
                     None \<Rightarrow> Some (Inl Serialization)
                   | Some v \<Rightarrow>
                       Some (Inr (self\<lparr>catchup_fetch := set_initial_last_contiguous_block_key (Some v) (catchup_fetch self)\<rparr>))) } }"

text \<open>Construction with an in-memory database; \<open>node\<close> is the network node it is given.\<close>

definition StorageNode_new ::
    "storage_ext \<Rightarrow> StorageNodeConfig \<Rightarrow> storage_msg Node \<Rightarrow> SimpleDb option \<Rightarrow> StorageNode storage_result may_panic" where
  "StorageNode_new E config node old_db =
     (if \<not> storage_node_idx config < length (storage_nodes_config config)
      then Some (Inl (ConfigError ''Invalid storage index''))
      else if \<not> storage_node_idx config < length (storage_compute_nodes config)
      then Some (Inl (ConfigError ''Invalid compute index''))
      else do {
        let addr = storage_nodes_config config ! storage_node_idx config;
        let caddr = storage_compute_nodes config ! storage_node_idx config;
        raft \<leftarrow> StorageRaft_new config;
        db \<leftarrow> new_db (sdb E) DB_SPEC_columns old_db;
        storage_load_local_db E
          \<lparr>sn_node = node, node_raft = raft, catchup_fetch = StorageFetch_new config addr, sn_db = db,
           compute_addr = caddr, whitelisted = fmempty,
           shutdown_group = finsert caddr (fset_of_list (raft_peer_addrs (s_raft_active raft))),
           blockchain_item_fetched = None\<rparr> })"

section \<open>Reading back what was written\<close>

text \<open>An entry of the block chain columns: metadata, key, value and value in JSON.\<close>

type_synonym chain_entry = "BlockchainItemMeta \<times> bytes \<times> bytes \<times> bytes"

fun entry_puts :: "storage_ext \<Rightarrow> chain_entry \<Rightarrow> (string \<times> bytes \<times> bytes) list" where
  "entry_puts E (meta, key, val, json) =
     [(DB_COL_BC_NOW, key, val), (DB_COL_BC_JSON, key, json), (DB_COL_BC_ALL, key, version_pointer DB_COL_BC_NOW key),
      (DB_COL_BC_META, key, the (meta_serialize E meta)),
      (DB_COL_BC_NAMED, as_bytes (meta_key meta), version_pointer DB_COL_BC_NOW key)]"

declare entry_puts.simps [simp del]

abbreviation entry_meta :: "chain_entry \<Rightarrow> BlockchainItemMeta" where
  "entry_meta e \<equiv> fst e"

abbreviation entry_key :: "chain_entry \<Rightarrow> bytes" where
  "entry_key e \<equiv> fst (snd e)"

fun entry_item :: "chain_entry \<Rightarrow> BlockchainItem" where
  "entry_item (meta, key, val, json) =
     \<lparr>item_version = 5, item_meta = meta, item_key = key, item_data = val, item_data_json = json\<rparr>"

definition entries_puts :: "storage_ext \<Rightarrow> chain_entry list \<Rightarrow> (string \<times> bytes \<times> bytes) list" where
  "entries_puts E es = concat (map (entry_puts E) es)"

lemma entries_puts_simps [simp]:
  "entries_puts E [] = []" "entries_puts E (e # es) = entry_puts E e @ entries_puts E es"
  "entries_puts E (es @ fs) = entries_puts E es @ entries_puts E fs"
  by (simp_all add: entries_puts_def)

lemma puts_append: "puts put (xs @ ys) s = Option.bind (puts put xs s) (puts put ys)"
  by (induction xs arbitrary: s) (auto split: Option.bind_splits)

lemma put_to_block_chain_puts:
  "put_to_block_chain E meta key val json b =
     (if meta_serialize E meta = None then None
      else map_option (\<lambda>b'. (b', version_pointer DB_COL_BC_NOW key)) (puts batch_put_cf (entry_puts E (meta, key, val, json)) b))"
  by (cases "meta_serialize E meta")
    (auto simp: put_to_block_chain_def put_to_block_chain_at_def entry_puts.simps Let_def map_conv_bind_option comp_def
      split: Option.bind_splits)

text \<open>The last put to a place, when only one entry writes there.\<close>

lemma last_put_None_iff: "last_put items cf k = None \<longleftrightarrow> (\<forall>v. (cf, k, v) \<notin> set items)"
  by (force simp: last_put_def map_of_eq_None_iff)

lemma last_put_entries:
  assumes "e \<in> set es" and "last_put (entry_puts E e) cf k \<noteq> None"
    and "\<And>e'. e' \<in> set es \<Longrightarrow> last_put (entry_puts E e') cf k \<noteq> None \<Longrightarrow> e' = e"
  shows "last_put (entries_puts E es) cf k = last_put (entry_puts E e) cf k"
  using assms
proof (induction es)
  case (Cons e' es)
  show ?case
  proof (cases "e \<in> set es")
    case True
    have "last_put (entries_puts E es) cf k = last_put (entry_puts E e) cf k"
      by (rule Cons.IH [OF True Cons.prems(2)]) (simp add: Cons.prems(3))
    then show ?thesis using Cons.prems(2) by (auto simp: last_put_append)
  next
    case False
    have n: "last_put (entry_puts E e'') cf k = None" if "e'' \<in> set es" for e''
      using Cons.prems(3) [of e''] that False by (cases "last_put (entry_puts E e'') cf k") auto
    have "(cf, k, v) \<notin> set (entries_puts E es)" for v
    proof
      assume "(cf, k, v) \<in> set (entries_puts E es)"
      then obtain e'' where "e'' \<in> set es" "(cf, k, v) \<in> set (entry_puts E e'')"
        unfolding entries_puts_def by (auto simp del: split_paired_Ex)
      then show False using n [of e''] unfolding last_put_None_iff by blast
    qed
    then have "last_put (entries_puts E es) cf k = None" unfolding last_put_None_iff by blast
    moreover have "e' = e" using False Cons.prems(1) by simp
    ultimately show ?thesis by (simp add: last_put_append)
  qed
qed simp

text \<open>Keys that a reader can use: not empty, not taken for a named key, without separator.\<close>

definition clean_key :: "bytes \<Rightarrow> bool" where
  "clean_key k \<longleftrightarrow> k \<noteq> [] \<and> hd k \<noteq> NAMED_CONSTANT_PREPEND \<and> DB_POINTER_SEPARATOR \<notin> set k"

definition entries_ok :: "storage_ext \<Rightarrow> chain_entry list \<Rightarrow> bool" where
  "entries_ok E es \<longleftrightarrow>
     (\<forall>e \<in> set es. clean_key (entry_key e) \<and>
        meta_deserialize E (the (meta_serialize E (entry_meta e))) = Some (entry_meta e)) \<and>
     inj_on entry_key (set es) \<and> inj_on (\<lambda>e. meta_key (entry_meta e)) (set es)"

definition chain_column :: "string \<Rightarrow> bool" where
  "chain_column cf \<longleftrightarrow> cf \<in> {DB_COL_BC_NOW, DB_COL_BC_JSON, DB_COL_BC_ALL, DB_COL_BC_META}"

lemma chain_columns_distinct [simp]:
  "DB_COL_BC_NOW \<noteq> DB_COL_BC_JSON" "DB_COL_BC_NOW \<noteq> DB_COL_BC_ALL" "DB_COL_BC_NOW \<noteq> DB_COL_BC_META"
  "DB_COL_BC_NOW \<noteq> DB_COL_BC_NAMED" "DB_COL_BC_JSON \<noteq> DB_COL_BC_ALL" "DB_COL_BC_JSON \<noteq> DB_COL_BC_META"
  "DB_COL_BC_JSON \<noteq> DB_COL_BC_NAMED" "DB_COL_BC_ALL \<noteq> DB_COL_BC_META" "DB_COL_BC_ALL \<noteq> DB_COL_BC_NAMED"
  "DB_COL_BC_META \<noteq> DB_COL_BC_NAMED" "DB_COL_INTERNAL \<noteq> DB_COL_BC_NOW" "DB_COL_INTERNAL \<noteq> DB_COL_BC_JSON"
  "DB_COL_INTERNAL \<noteq> DB_COL_BC_ALL" "DB_COL_INTERNAL \<noteq> DB_COL_BC_META" "DB_COL_INTERNAL \<noteq> DB_COL_BC_NAMED"
  by (simp_all add: column_names)

lemmas chain_columns_distinct' [simp] = chain_columns_distinct [symmetric]

lemma last_put_entry [simp]:
  "last_put (entry_puts E (meta, key, val, json)) DB_COL_BC_NOW k = (if k = key then Some val else None)"
  "last_put (entry_puts E (meta, key, val, json)) DB_COL_BC_JSON k = (if k = key then Some json else None)"
  "last_put (entry_puts E (meta, key, val, json)) DB_COL_BC_ALL k =
     (if k = key then Some (version_pointer DB_COL_BC_NOW key) else None)"
  "last_put (entry_puts E (meta, key, val, json)) DB_COL_BC_META k =
     (if k = key then Some (the (meta_serialize E meta)) else None)"
  "last_put (entry_puts E (meta, key, val, json)) DB_COL_BC_NAMED k =
     (if k = as_bytes (meta_key meta) then Some (version_pointer DB_COL_BC_NOW key) else None)"
  by (auto simp: last_put_Cons entry_puts.simps)

lemma last_put_entries_key:
  assumes "entries_ok E es" and "(meta, key, val, json) \<in> set es"
  shows "last_put (entries_puts E es) DB_COL_BC_NOW key = Some val"
    and "last_put (entries_puts E es) DB_COL_BC_JSON key = Some json"
    and "last_put (entries_puts E es) DB_COL_BC_ALL key = Some (version_pointer DB_COL_BC_NOW key)"
    and "last_put (entries_puts E es) DB_COL_BC_META key = Some (the (meta_serialize E meta))"
    and "last_put (entries_puts E es) DB_COL_BC_NAMED (as_bytes (meta_key meta)) = Some (version_pointer DB_COL_BC_NOW key)"
proof -
  have i: "e' = (meta, key, val, json)" if "e' \<in> set es" "entry_key e' = key" for e'
    using assms that unfolding entries_ok_def inj_on_def by force
  have j: "e' = (meta, key, val, json)" if "e' \<in> set es" "meta_key (entry_meta e') = meta_key meta" for e'
    using assms that unfolding entries_ok_def inj_on_def by force
  show "last_put (entries_puts E es) DB_COL_BC_NOW key = Some val"
    by (subst last_put_entries [OF assms(2)]) (use i in \<open>auto split: if_splits\<close>)
  show "last_put (entries_puts E es) DB_COL_BC_JSON key = Some json"
    by (subst last_put_entries [OF assms(2)]) (use i in \<open>auto split: if_splits\<close>)
  show "last_put (entries_puts E es) DB_COL_BC_ALL key = Some (version_pointer DB_COL_BC_NOW key)"
    by (subst last_put_entries [OF assms(2)]) (use i in \<open>auto split: if_splits\<close>)
  show "last_put (entries_puts E es) DB_COL_BC_META key = Some (the (meta_serialize E meta))"
    by (subst last_put_entries [OF assms(2)]) (use i in \<open>auto split: if_splits\<close>)
  show "last_put (entries_puts E es) DB_COL_BC_NAMED (as_bytes (meta_key meta)) = Some (version_pointer DB_COL_BC_NOW key)"
    by (subst last_put_entries [OF assms(2)]) (use j in \<open>auto split: if_splits\<close>)
qed

text \<open>Puts that leave the block chain columns alone, except for the last block.\<close>

definition harmless_put :: "string \<times> bytes \<times> bytes \<Rightarrow> bool" where
  "harmless_put = (\<lambda>(cf, k, _). cf = DB_COL_INTERNAL \<or> cf = DB_COL_BC_NAMED \<and> k = as_bytes LAST_BLOCK_HASH_KEY)"

lemma last_put_harmless:
  assumes "list_all harmless_put xs"
  shows "chain_column cf \<Longrightarrow> last_put xs cf k = None"
    and "k \<noteq> as_bytes LAST_BLOCK_HASH_KEY \<Longrightarrow> last_put xs DB_COL_BC_NAMED k = None"
  using assms by (fastforce simp: last_put_None_iff list_all_iff harmless_put_def chain_column_def)+

text \<open>
  Following a pointer: the version pointer of a clean key in the current column, with the value, the
  JSON and the metadata in place.
\<close>

lemma read_pointer:
  assumes "db_get_cf (if k \<noteq> [] \<and> hd k = NAMED_CONSTANT_PREPEND then DB_COL_BC_NAMED else DB_COL_BC_ALL) k db =
      Some (Some (version_pointer DB_COL_BC_NOW key))"
    and "clean_key key"
    and "db_get_cf DB_COL_BC_NOW key db = Some (Some val)" and "db_get_cf DB_COL_BC_JSON key db = Some (Some json)"
    and "db_get_cf DB_COL_BC_META key db = Some (Some ms)" and "meta_deserialize E ms = Some meta"
  shows "get_stored_value_from_db E db k = Some (Some (entry_item (meta, key, val, json)))"
proof -
  have "decode_version_pointer (version_pointer DB_COL_BC_NOW key) = Some (5, DB_COL_BC_NOW, key)"
    using assms(2) by (intro decode_version_pointer_roundtrip) (auto simp: DB_COLS_BC_def clean_key_def)
  then show ?thesis using assms by (simp add: get_stored_value_from_db_def Let_def)
qed

lemma named_keys:
  "as_bytes (meta_key meta) \<noteq> [] \<and> hd (as_bytes (meta_key meta)) = NAMED_CONSTANT_PREPEND"
  "as_bytes LAST_BLOCK_HASH_KEY \<noteq> [] \<and> hd (as_bytes LAST_BLOCK_HASH_KEY) = NAMED_CONSTANT_PREPEND"
  using hd_named_keys by (cases meta; metis list.distinct(1) list.sel(1) meta_key.simps)+

lemma meta_key_not_last [simp]: "meta_key meta \<noteq> LAST_BLOCK_HASH_KEY"
  by (cases meta) auto

lemma read_entries:
  assumes "db_inv db" and "puts db_put_cf (entries_puts E es @ xs) db = Some db'"
    and "entries_ok E es" and "list_all harmless_put xs" and "e \<in> set es"
  shows "get_stored_value_from_db E db' (entry_key e) = Some (Some (entry_item e))"
    and "get_stored_value_from_db E db' (as_bytes (meta_key (entry_meta e))) = Some (Some (entry_item e))"
    and "db_get_cf DB_COL_BC_NAMED (as_bytes LAST_BLOCK_HASH_KEY) db' = Some (Some (version_pointer DB_COL_BC_NOW (entry_key e))) \<Longrightarrow>
      get_stored_value_from_db E db' (as_bytes LAST_BLOCK_HASH_KEY) = Some (Some (entry_item e))"
proof -
  obtain meta key val json where e: "e = (meta, key, val, json)" by (cases e) auto
  note g = simple_db.puts_get [OF assms(1,2)]
  note l = last_put_entries_key [OF assms(3), of meta key val json]
  have m: "(meta, key, val, json) \<in> set es" using assms(5) e by simp
  have ok: "clean_key key" "meta_deserialize E (the (meta_serialize E meta)) = Some meta"
    using assms(3) m by (fastforce simp: entries_ok_def)+
  have get: "db_get_cf DB_COL_BC_NOW key db' = Some (Some val)" "db_get_cf DB_COL_BC_JSON key db' = Some (Some json)"
    "db_get_cf DB_COL_BC_META key db' = Some (Some (the (meta_serialize E meta)))"
    "db_get_cf DB_COL_BC_ALL key db' = Some (Some (version_pointer DB_COL_BC_NOW key))"
    "db_get_cf DB_COL_BC_NAMED (as_bytes (meta_key meta)) db' = Some (Some (version_pointer DB_COL_BC_NOW key))"
    using g l [OF m] last_put_harmless [OF assms(4)] by (simp_all add: last_put_append chain_column_def)
  note r = read_pointer [OF _ ok(1) get(1,2,3) ok(2)]
  show "get_stored_value_from_db E db' (entry_key e) = Some (Some (entry_item e))"
    using r [of key] get(4) ok(1) e by (simp add: clean_key_def)
  show "get_stored_value_from_db E db' (as_bytes (meta_key (entry_meta e))) = Some (Some (entry_item e))"
    using r [of "as_bytes (meta_key meta)"] get(5) named_keys(1) [of meta] e by simp
  show "get_stored_value_from_db E db' (as_bytes LAST_BLOCK_HASH_KEY) = Some (Some (entry_item e))"
    if "db_get_cf DB_COL_BC_NAMED (as_bytes LAST_BLOCK_HASH_KEY) db' = Some (Some (version_pointer DB_COL_BC_NOW (entry_key e)))"
    using r [of "as_bytes LAST_BLOCK_HASH_KEY"] that named_keys(2) e by simp
qed

subsection \<open>The entries of a stored block\<close>

definition block_hashes :: "Block \<Rightarrow> string list" where
  "block_hashes blk = transactions blk @ [snd (nonce_and_mining_tx_hash (header blk))]"

definition tx_entries :: "storage_ext \<Rightarrow> TxMap \<Rightarrow> u64 \<Rightarrow> (u32 \<times> string) list \<Rightarrow> chain_entry list" where
  "tx_entries E txs bn hs =
     List.map_filter (\<lambda>(n, h). map_option (\<lambda>tx. (TxMeta bn n, as_bytes h, the (tx_serialize E tx), the (tx_to_json E tx)))
       (fmlookup txs h)) hs"

lemma tx_entries_simps [simp]:
  "tx_entries E txs bn [] = []"
  "fmlookup txs h = None \<Longrightarrow> tx_entries E txs bn ((n, h) # hs) = tx_entries E txs bn hs"
  "fmlookup txs h = Some tx \<Longrightarrow> tx_entries E txs bn ((n, h) # hs) =
     (TxMeta bn n, as_bytes h, the (tx_serialize E tx), the (tx_to_json E tx)) # tx_entries E txs bn hs"
  by (simp_all add: tx_entries_def map_filter_simps)

lemma set_tx_entries:
  "e \<in> set (tx_entries E txs bn hs) \<longleftrightarrow>
     (\<exists>n h tx. (n, h) \<in> set hs \<and> fmlookup txs h = Some tx \<and>
        e = (TxMeta bn n, as_bytes h, the (tx_serialize E tx), the (tx_to_json E tx)))"
proof (induction hs)
  case (Cons x hs)
  then show ?case by (cases x; cases "fmlookup txs (snd x)") auto
qed simp

lemma put_to_block_chain_Some:
  "put_to_block_chain E meta key val json b = Some (b', ptr) \<longleftrightarrow>
     meta_serialize E meta \<noteq> None \<and> puts batch_put_cf (entry_puts E (meta, key, val, json)) b = Some b' \<and>
     ptr = version_pointer DB_COL_BC_NOW key"
  by (auto simp: put_to_block_chain_puts)

lemma store_block_txs_puts:
  assumes "store_block_txs E txs bn hs l b = Some (b', l')"
  shows "puts batch_put_cf (entries_puts E (tx_entries E txs bn hs)) b = Some b' \<and>
    l' = (if hs = [] then l else fst (last hs) + 1) \<and>
    (\<forall>n h tx. (n, h) \<in> set hs \<longrightarrow> fmlookup txs h = Some tx \<longrightarrow>
      tx_serialize E tx \<noteq> None \<and> tx_to_json E tx \<noteq> None \<and> meta_serialize E (TxMeta bn n) \<noteq> None)"
  using assms
proof (induction hs arbitrary: l b)
  case (Cons x hs)
  obtain n h where x: "x = (n, h)" by (cases x) auto
  show ?case
  proof (cases "fmlookup txs h")
    case None
    then show ?thesis using Cons.prems Cons.IH [of "n + 1" b] x by auto
  next
    case (Some tx)
    then obtain input json b1 where i: "tx_serialize E tx = Some input" "tx_to_json E tx = Some json"
        "meta_serialize E (TxMeta bn n) \<noteq> None"
        "puts batch_put_cf (entry_puts E (TxMeta bn n, as_bytes h, input, json)) b = Some b1"
        "store_block_txs E txs bn hs (n + 1) b1 = Some (b', l')"
      using Cons.prems x by (auto simp: option_bind_Some_iff put_to_block_chain_Some)
    show ?thesis using Cons.IH [OF i(5)] i(1-4) Some x by (auto simp: puts_append)
  qed
qed simp

definition contiguous_puts :: "storage_ext \<Rightarrow> FetchStatus \<Rightarrow> u64 \<Rightarrow> (string \<times> bytes \<times> bytes) list" where
  "contiguous_puts E status bn =
     (if status = Contiguous bn
      then [(DB_COL_INTERNAL, as_bytes LAST_CONTIGUOUS_BLOCK_KEY, the (u64_serialize E bn))] else [])"

definition named_last_puts :: "bytes \<Rightarrow> (string \<times> bytes \<times> bytes) list" where
  "named_last_puts pointer = [(DB_COL_BC_NAMED, as_bytes LAST_BLOCK_HASH_KEY, pointer)]"

lemma harmless_puts [simp]:
  "list_all harmless_put (contiguous_puts E status bn)" "list_all harmless_put (named_last_puts pointer)"
  by (simp_all add: contiguous_puts_def named_last_puts_def harmless_put_def)

lemma contiguous_puts_Some:
  "(if status = Contiguous bn then put_contiguous_block_num E bn b else Some b) = Some b' \<Longrightarrow>
     puts batch_put_cf (contiguous_puts E status bn) b = Some b'"
  by (auto simp: contiguous_puts_def put_contiguous_block_num_def option_bind_Some_iff split: if_splits)

lemma store_complete_block_puts:
  assumes "db_inv db" and "store_complete_block E status c db = Some (db', info)"
    and "blk = common_block (complete_common c)" and "bn = b_num (header blk)"
  obtains input json d where "block_serialize E blk = Some input" "block_to_json E blk = Some json"
    "block_num info = bn" "block_hash info = BLOCK_PREPEND # encode_hex E d"
    "stored_shutdown info = mined_shutdown (complete_extra_info c)"
    "meta_serialize E (BlockMeta bn (of_nat (length (block_hashes blk)))) \<noteq> None"
    "\<forall>i < length (block_hashes blk). \<forall>tx. fmlookup (block_txs (complete_common c)) (block_hashes blk ! i) = Some tx \<longrightarrow>
       tx_serialize E tx \<noteq> None \<and> tx_to_json E tx \<noteq> None \<and> meta_serialize E (TxMeta bn (of_nat i)) \<noteq> None"
    "puts db_put_cf
       (entries_puts E (tx_entries E (block_txs (complete_common c)) bn
            (zip (map of_nat [0..<length (block_hashes blk)]) (block_hashes blk)) @
          [(BlockMeta bn (of_nat (length (block_hashes blk))), as_bytes (block_hash info), input, json)]) @
        named_last_puts (version_pointer DB_COL_BC_NOW (as_bytes (block_hash info))) @
        contiguous_puts E status bn) db = Some db'"
proof -
  let ?txs = "block_txs (complete_common c)" and ?hs = "zip (map of_nat [0..<length (block_hashes blk)]) (block_hashes blk) :: (u32 \<times> string) list"
  have hs: "all_ordered_stored_block_tx_hashes (transactions blk) [nonce_and_mining_tx_hash (header blk)] = ?hs"
    by (simp add: all_ordered_stored_block_tx_hashes_def block_hashes_def Let_def)
  have lst: "?hs \<noteq> []" "fst (last ?hs) + 1 = of_nat (length (block_hashes blk))"
    by (simp_all add: block_hashes_def last_zip)
  obtain nonce mh where nm: "nonce_and_mining_tx_hash (header blk) = (nonce, mh)" by fastforce
  have "\<exists>input json ph bhash bl bp b3 b4. block_serialize E blk = Some input \<and> block_to_json E blk = Some json \<and>
      construct_valid_block_pow_hash E blk = Some ph \<and> (case ph of Inl _ \<Rightarrow> None | Inr h \<Rightarrow> Some h) = Some bhash \<and>
      store_block_txs E ?txs bn ?hs 0 (batch_writer db) = Some bl \<and>
      put_to_block_chain E (BlockMeta bn (snd bl)) (as_bytes bhash) input json (fst bl) = Some bp \<and>
      put_named_last_block_to_block_chain (snd bp) (fst bp) = Some b3 \<and>
      (if status = Contiguous bn then put_contiguous_block_num E bn b3 else Some b3) = Some b4 \<and>
      db_write (batch_done b4) db = Some db' \<and>
      block_hash info = bhash \<and> block_num info = bn \<and> stored_shutdown info = mined_shutdown (complete_extra_info c)"
    using assms(2) unfolding store_complete_block_def assms(3) [symmetric] assms(4) [symmetric] Let_def nm prod.case
      hs [unfolded nm]
    apply (simp only: option_bind_Some_iff case_prod_unfold)
    apply (elim exE conjE)
    subgoal for input json ph bhash bl bp b3 b4 db2
      by (rule exI [of _ input], rule exI [of _ json], rule exI [of _ ph], rule exI [of _ bhash],
          rule exI [of _ bl], rule exI [of _ bp], rule exI [of _ b3], rule exI [of _ b4])
        (auto split: if_splits)
    done
  then obtain input json ph bl bp b3 b4 where
    1: "block_serialize E blk = Some input" "block_to_json E blk = Some json"
      "construct_valid_block_pow_hash E blk = Some ph" "(case ph of Inl _ \<Rightarrow> None | Inr h \<Rightarrow> Some h) = Some (block_hash info)"
    and bl: "store_block_txs E ?txs bn ?hs 0 (batch_writer db) = Some bl"
    and bp: "put_to_block_chain E (BlockMeta bn (snd bl)) (as_bytes (block_hash info)) input json (fst bl) = Some bp"
    and b3: "put_named_last_block_to_block_chain (snd bp) (fst bp) = Some b3"
    and b4: "(if status = Contiguous bn then put_contiguous_block_num E bn b3 else Some b3) = Some b4"
    and w: "db_write (batch_done b4) db = Some db'"
    and info: "block_num info = bn" "stored_shutdown info = mined_shutdown (complete_extra_info c)"
    by metis
  obtain b1 l b2 ptr where e: "bl = (b1, l)" "bp = (b2, ptr)" by (cases bl, cases bp) auto
  note b1 = bl [unfolded e] and b2 = bp [unfolded e, simplified]
  have "\<exists>d. BLOCK_PREPEND # encode_hex E d = block_hash info"
    using 1(3,4) by (cases ph)
      (auto simp: construct_valid_block_pow_hash_def option_bind_Some_iff split: if_splits option.splits)
  then obtain d where d: "block_hash info = BLOCK_PREPEND # encode_hex E d" by metis
  note t = store_block_txs_puts [OF b1]
  have l: "l = of_nat (length (block_hashes blk))" using t lst by simp
  have "puts batch_put_cf
       (entries_puts E (tx_entries E ?txs bn ?hs @ [(BlockMeta bn (of_nat (length (block_hashes blk))), as_bytes (block_hash info), input, json)]) @
        named_last_puts ptr @ contiguous_puts E status bn) (batch_writer db) = Some b4"
    using t b2 b3 [unfolded e] contiguous_puts_Some [OF b4] l
    by (simp add: puts_append put_to_block_chain_Some named_last_puts_def put_named_last_block_to_block_chain_def)
  then have p: "puts db_put_cf
       (entries_puts E (tx_entries E ?txs bn ?hs @ [(BlockMeta bn (of_nat (length (block_hashes blk))), as_bytes (block_hash info), input, json)]) @
        named_last_puts ptr @ contiguous_puts E status bn) db = Some db'"
    using w by (simp add: write_batch_of_puts [OF assms(1), symmetric])
  have "ptr = version_pointer DB_COL_BC_NOW (as_bytes (block_hash info))"
    "meta_serialize E (BlockMeta bn (of_nat (length (block_hashes blk)))) \<noteq> None"
    using b2 l by (simp_all add: put_to_block_chain_Some)
  moreover have "(of_nat i, block_hashes blk ! i) \<in> set ?hs" if "i < length (block_hashes blk)" for i
    using that by (auto simp: in_set_zip intro!: exI [of _ i])
  ultimately show thesis using that [OF 1(1,2) info(1) d info(2)] t p by blast
qed

text \<open>
  What is relied on: the metadata can be read back as it was written, and hexadecimal encoding gives
  hexadecimal digits. The hashes of a block are usable keys: different, none is the block's own.
\<close>

definition storage_codec_ok :: "storage_ext \<Rightarrow> bool" where
  "storage_codec_ok E \<longleftrightarrow>
     (\<forall>m ser. meta_serialize E m = Some ser \<longrightarrow> meta_deserialize E ser = Some m) \<and>
     (\<forall>d. set (encode_hex E d) \<subseteq> set ''0123456789abcdef'')"

definition block_keys_ok :: "Block \<Rightarrow> string \<Rightarrow> bool" where
  "block_keys_ok blk bhash \<longleftrightarrow>
     distinct (block_hashes blk) \<and> length (block_hashes blk) < 2 ^ 32 \<and> bhash \<notin> set (block_hashes blk) \<and>
     (\<forall>h \<in> set (block_hashes blk). clean_key (as_bytes h))"

abbreviation numbered_hashes :: "Block \<Rightarrow> (u32 \<times> string) list" where
  "numbered_hashes blk \<equiv> zip (map of_nat [0..<length (block_hashes blk)]) (block_hashes blk)"

lemma clean_block_hash:
  assumes "storage_codec_ok E"
  shows "clean_key (as_bytes (BLOCK_PREPEND # encode_hex E d))"
proof -
  have "CHR '':'' \<notin> set (encode_hex E d)" using assms by (auto simp: storage_codec_ok_def)
  then have "DB_POINTER_SEPARATOR \<notin> set (as_bytes (BLOCK_PREPEND # encode_hex E d))"
    unfolding DB_POINTER_SEPARATOR_def of_char_in_as_bytes by (simp add: BLOCK_PREPEND_def)
  then show ?thesis
    by (auto simp: clean_key_def as_bytes_def NAMED_CONSTANT_PREPEND_def BLOCK_PREPEND_def)
qed

lemma numbered_hashes_mem:
  "(n, h) \<in> set (numbered_hashes blk) \<longleftrightarrow> (\<exists>i < length (block_hashes blk). n = of_nat i \<and> h = block_hashes blk ! i)"
proof -
  have "numbered_hashes blk = map (\<lambda>i. (of_nat i, block_hashes blk ! i)) [0..<length (block_hashes blk)]"
    by (rule nth_equalityI) simp_all
  then show ?thesis by auto
qed

lemma of_nat_u32_inject: "i < 2 ^ 32 \<Longrightarrow> j < 2 ^ 32 \<Longrightarrow> (of_nat i :: u32) = of_nat j \<longleftrightarrow> i = j"
proof
  assume "i < 2 ^ 32" "j < 2 ^ 32" "(of_nat i :: u32) = of_nat j"
  then have "unat (of_nat i :: u32) = unat (of_nat j :: u32)" by simp
  then show "i = j" using \<open>i < 2 ^ 32\<close> \<open>j < 2 ^ 32\<close> by (simp add: unat_of_nat take_bit_nat_eq_self)
qed simp

lemma block_entries_ok:
  assumes "storage_codec_ok E" and "block_keys_ok blk bhash" and "bhash = BLOCK_PREPEND # encode_hex E d"
    and "meta_serialize E (BlockMeta bn l) \<noteq> None"
    and "\<forall>i < length (block_hashes blk). \<forall>tx. fmlookup txs (block_hashes blk ! i) = Some tx \<longrightarrow>
       tx_serialize E tx \<noteq> None \<and> tx_to_json E tx \<noteq> None \<and> meta_serialize E (TxMeta bn (of_nat i)) \<noteq> None"
  shows "entries_ok E (tx_entries E txs bn (numbered_hashes blk) @ [(BlockMeta bn l, as_bytes bhash, input, json)])"
proof -
  have rt: "meta_serialize E m \<noteq> None \<Longrightarrow> meta_deserialize E (the (meta_serialize E m)) = Some m" for m
    using assms(1) by (auto simp: storage_codec_ok_def)
  have tx: "\<exists>i < length (block_hashes blk). entry_meta e = TxMeta bn (of_nat i) \<and> entry_key e = as_bytes (block_hashes blk ! i) \<and>
      (\<exists>t. fmlookup txs (block_hashes blk ! i) = Some t \<and>
        snd (snd e) = (the (tx_serialize E t), the (tx_to_json E t)))"
    if "e \<in> set (tx_entries E txs bn (numbered_hashes blk))" for e
    using that unfolding set_tx_entries numbered_hashes_mem by auto
  have ne: "entry_key e \<noteq> as_bytes bhash" if "e \<in> set (tx_entries E txs bn (numbered_hashes blk))" for e
    using assms(2) tx [OF that] nth_mem by (fastforce simp: block_keys_ok_def)
  have len: "length (block_hashes blk) < 2 ^ 32" and dist: "distinct (block_hashes blk)"
    using assms(2) by (auto simp: block_keys_ok_def)
  have inj: "e = e'" if e: "e \<in> set (tx_entries E txs bn (numbered_hashes blk))"
      and e': "e' \<in> set (tx_entries E txs bn (numbered_hashes blk))"
      and k: "entry_key e = entry_key e' \<or> meta_key (entry_meta e) = meta_key (entry_meta e')" for e e'
  proof -
    obtain i t where i: "i < length (block_hashes blk)" "entry_meta e = TxMeta bn (of_nat i)"
      "entry_key e = as_bytes (block_hashes blk ! i)" "fmlookup txs (block_hashes blk ! i) = Some t"
      "snd (snd e) = (the (tx_serialize E t), the (tx_to_json E t))" using tx [OF e] by blast
    obtain j t' where j: "j < length (block_hashes blk)" "entry_meta e' = TxMeta bn (of_nat j)"
      "entry_key e' = as_bytes (block_hashes blk ! j)" "fmlookup txs (block_hashes blk ! j) = Some t'"
      "snd (snd e') = (the (tx_serialize E t'), the (tx_to_json E t'))" using tx [OF e'] by blast
    have "i = j"
      using k i(1-3) j(1-3) dist len of_nat_u32_inject [of i j] by (auto simp: nth_eq_iff_index_eq)
    then show ?thesis using i j by (auto simp: prod_eq_iff)
  qed
  show ?thesis
    unfolding entries_ok_def
  proof (intro conjI ballI inj_onI)
    fix e assume e: "e \<in> set (tx_entries E txs bn (numbered_hashes blk) @ [(BlockMeta bn l, as_bytes bhash, input, json)])"
    show "clean_key (entry_key e)"
      using e tx [of e] clean_block_hash [OF assms(1), of d] assms(2,3) by (auto simp: block_keys_ok_def)
    show "meta_deserialize E (the (meta_serialize E (entry_meta e))) = Some (entry_meta e)"
      using e tx [of e] assms(4,5) by (intro rt) auto
  next
    fix e e' assume "e \<in> set (tx_entries E txs bn (numbered_hashes blk) @ [(BlockMeta bn l, as_bytes bhash, input, json)])"
      "e' \<in> set (tx_entries E txs bn (numbered_hashes blk) @ [(BlockMeta bn l, as_bytes bhash, input, json)])"
      "entry_key e = entry_key e'"
    then show "e = e'" using inj [of e e'] ne [of e] ne [of e'] by auto
  next
    fix e e' assume "e \<in> set (tx_entries E txs bn (numbered_hashes blk) @ [(BlockMeta bn l, as_bytes bhash, input, json)])"
      "e' \<in> set (tx_entries E txs bn (numbered_hashes blk) @ [(BlockMeta bn l, as_bytes bhash, input, json)])"
      "meta_key (entry_meta e) = meta_key (entry_meta e')"
    then show "e = e'" using inj [of e e'] tx [of e] tx [of e'] by auto
  qed
qed

lemma stored_block_reads:
  assumes "db_inv db" and "store_complete_block E status c db = Some (db', info)"
    and "storage_codec_ok E" and "block_keys_ok (common_block (complete_common c)) (block_hash info)"
  shows "let blk = common_block (complete_common c); bn = b_num (header blk); hs = block_hashes blk in
    (\<exists>item. item_meta item = BlockMeta bn (of_nat (length hs)) \<and> Some (item_data item) = block_serialize E blk \<and>
       item_key item = as_bytes (block_hash info) \<and>
       get_stored_value_from_db E db' (as_bytes (block_hash info)) = Some (Some item) \<and>
       get_stored_value_from_db E db' (as_bytes (indexed_block_hash_key bn)) = Some (Some item) \<and>
       get_stored_value_from_db E db' (as_bytes LAST_BLOCK_HASH_KEY) = Some (Some item)) \<and>
    (\<forall>i < length hs. \<forall>tx. fmlookup (block_txs (complete_common c)) (hs ! i) = Some tx \<longrightarrow>
       (\<exists>item. item_meta item = TxMeta bn (of_nat i) \<and> Some (item_data item) = tx_serialize E tx \<and>
          item_key item = as_bytes (hs ! i) \<and>
          get_stored_value_from_db E db' (as_bytes (hs ! i)) = Some (Some item) \<and>
          get_stored_value_from_db E db' (as_bytes (indexed_tx_hash_key bn (of_nat i))) = Some (Some item)))"
proof -
  define blk bn hs txs where "blk = common_block (complete_common c)" and "bn = b_num (header blk)"
    and "hs = block_hashes blk" and "txs = block_txs (complete_common c)"
  obtain input json d where st: "block_serialize E blk = Some input" "block_to_json E blk = Some json"
      "block_num info = bn" "block_hash info = BLOCK_PREPEND # encode_hex E d"
      "stored_shutdown info = mined_shutdown (complete_extra_info c)"
      "meta_serialize E (BlockMeta bn (of_nat (length hs))) \<noteq> None"
      "\<forall>i < length hs. \<forall>tx. fmlookup txs (hs ! i) = Some tx \<longrightarrow>
         tx_serialize E tx \<noteq> None \<and> tx_to_json E tx \<noteq> None \<and> meta_serialize E (TxMeta bn (of_nat i)) \<noteq> None"
    and p: "puts db_put_cf (entries_puts E (tx_entries E txs bn (numbered_hashes blk) @
          [(BlockMeta bn (of_nat (length hs)), as_bytes (block_hash info), input, json)]) @
        named_last_puts (version_pointer DB_COL_BC_NOW (as_bytes (block_hash info))) @ contiguous_puts E status bn) db = Some db'"
    using store_complete_block_puts [OF assms(1,2) blk_def bn_def] unfolding hs_def txs_def by metis
  let ?be = "(BlockMeta bn (of_nat (length hs)), as_bytes (block_hash info), input, json)"
  let ?es = "tx_entries E txs bn (numbered_hashes blk) @ [?be]"
  have ok: "entries_ok E ?es"
    using block_entries_ok [OF assms(3) assms(4) [folded blk_def] st(4,6) st(7) [unfolded hs_def]] by simp
  have hl: "list_all harmless_put (named_last_puts (version_pointer DB_COL_BC_NOW (as_bytes (block_hash info))) @ contiguous_puts E status bn)"
    by simp
  note r = read_entries [OF assms(1) p ok hl]
  have "last_put (entries_puts E ?es @ named_last_puts (version_pointer DB_COL_BC_NOW (as_bytes (block_hash info))) @ contiguous_puts E status bn)
      DB_COL_BC_NAMED (as_bytes LAST_BLOCK_HASH_KEY) = Some (version_pointer DB_COL_BC_NOW (as_bytes (block_hash info)))"
    by (simp add: last_put_append last_put_Cons named_last_puts_def contiguous_puts_def)
  then have "db_get_cf DB_COL_BC_NAMED (as_bytes LAST_BLOCK_HASH_KEY) db' =
      Some (Some (version_pointer DB_COL_BC_NOW (entry_key ?be)))"
    using simple_db.puts_get [OF assms(1) p] by simp
  then have b: "\<exists>item. item_meta item = BlockMeta bn (of_nat (length hs)) \<and> Some (item_data item) = block_serialize E blk \<and>
       item_key item = as_bytes (block_hash info) \<and>
       get_stored_value_from_db E db' (as_bytes (block_hash info)) = Some (Some item) \<and>
       get_stored_value_from_db E db' (as_bytes (indexed_block_hash_key bn)) = Some (Some item) \<and>
       get_stored_value_from_db E db' (as_bytes LAST_BLOCK_HASH_KEY) = Some (Some item)"
    using r [of ?be] st(1) by (intro exI [of _ "entry_item ?be"]) simp
  have t: "\<exists>item. item_meta item = TxMeta bn (of_nat i) \<and> Some (item_data item) = tx_serialize E tx \<and>
          item_key item = as_bytes (hs ! i) \<and>
          get_stored_value_from_db E db' (as_bytes (hs ! i)) = Some (Some item) \<and>
          get_stored_value_from_db E db' (as_bytes (indexed_tx_hash_key bn (of_nat i))) = Some (Some item)"
    if "i < length hs" "fmlookup txs (hs ! i) = Some tx" for i tx
  proof -
    let ?e = "(TxMeta bn (of_nat i), as_bytes (hs ! i), the (tx_serialize E tx), the (tx_to_json E tx))"
    have "?e \<in> set ?es"
      using that unfolding set_append Un_iff set_tx_entries numbered_hashes_mem hs_def by blast
    from r(1,2) [OF this] show ?thesis
      using st(7) that by (intro exI [of _ "entry_item ?e"]) auto
  qed
  show ?thesis using b t unfolding Let_def blk_def bn_def hs_def txs_def by blast
qed

lemma last_block_readable:
  assumes "db_inv db" and "store_complete_block E status c db = Some (db', info)"
    and "storage_codec_ok E" and "block_keys_ok (common_block (complete_common c)) (block_hash info)"
  shows "\<exists>item n. get_stored_value_from_db E db' (as_bytes LAST_BLOCK_HASH_KEY) = Some (Some item) \<and>
    item_meta item = BlockMeta (b_num (header (common_block (complete_common c)))) n \<and>
    item_key item = as_bytes (block_hash info) \<and>
    Some (item_data item) = block_serialize E (common_block (complete_common c))"
  using stored_block_reads [OF assms] unfolding Let_def by blast

text \<open>C15: A stored block can be read back. After a complete block has been stored, the block is
  found under its hash, under the index of its number and as the last block, with its number, the
  count of its transactions and its serialised form; every transaction that came with it is found
  under its hash and under its index in the block, with its serialised form. Relied on: the metadata
  round trip, and that the transaction hashes of the block are different usable keys.\<close>

theorem stored_block_readable:
  assumes "db_inv db" and "store_complete_block E status c db = Some (db', info)"
    and "storage_codec_ok E" and "block_keys_ok (common_block (complete_common c)) (block_hash info)"
  shows "let blk = common_block (complete_common c); bn = b_num (header blk); hs = block_hashes blk in
    (\<exists>item. item_meta item = BlockMeta bn (of_nat (length hs)) \<and> Some (item_data item) = block_serialize E blk \<and>
       item_key item = as_bytes (block_hash info) \<and>
       get_stored_value_from_db E db' (as_bytes (block_hash info)) = Some (Some item) \<and>
       get_stored_value_from_db E db' (as_bytes (indexed_block_hash_key bn)) = Some (Some item) \<and>
       get_stored_value_from_db E db' (as_bytes LAST_BLOCK_HASH_KEY) = Some (Some item)) \<and>
    (\<forall>i < length hs. \<forall>tx. fmlookup (block_txs (complete_common c)) (hs ! i) = Some tx \<longrightarrow>
       (\<exists>item. item_meta item = TxMeta bn (of_nat i) \<and> Some (item_data item) = tx_serialize E tx \<and>
          item_key item = as_bytes (hs ! i) \<and>
          get_stored_value_from_db E db' (as_bytes (hs ! i)) = Some (Some item) \<and>
          get_stored_value_from_db E db' (as_bytes (indexed_tx_hash_key bn (of_nat i))) = Some (Some item)))"
  by (rule stored_block_reads [OF assms])

subsection \<open>Copying a block by catch-up\<close>

lemma utf8_valid_ascii: "\<forall>c \<in> set k. c < 128 \<Longrightarrow> utf8_valid k"
  by (induction k) auto

lemma of_char_ascii: "c \<in> set ''b0123456789abcdef'' \<Longrightarrow> of_char c < (128 :: u8)"
  by auto

lemma utf8_block_hash: "storage_codec_ok E \<Longrightarrow> utf8_valid (as_bytes (BLOCK_PREPEND # encode_hex E d))"
proof -
  assume "storage_codec_ok E"
  then have "set (encode_hex E d) \<subseteq> set ''0123456789abcdef''" unfolding storage_codec_ok_def by blast
  moreover have "set xs \<subseteq> set ys \<Longrightarrow> set (x # xs) \<subseteq> set (x # ys)" for x and xs ys :: string
    unfolding list.set by blast
  ultimately have "set (BLOCK_PREPEND # encode_hex E d) \<subseteq> set ''b0123456789abcdef''"
    unfolding BLOCK_PREPEND_def by blast
  then have "\<forall>c \<in> set (as_bytes (BLOCK_PREPEND # encode_hex E d)). c < 128"
    using of_char_ascii unfolding as_bytes_def set_map by blast
  then show ?thesis by (rule utf8_valid_ascii)
qed

fun last_block_pointer :: "u64 \<Rightarrow> chain_entry list \<Rightarrow> bytes option \<Rightarrow> bytes option" where
  "last_block_pointer bn [] p = p"
| "last_block_pointer bn (e # es) p =
     last_block_pointer bn es
       (case entry_meta e of
          BlockMeta n _ \<Rightarrow> if n = bn then Some (version_pointer DB_COL_BC_NOW (entry_key e)) else p
        | TxMeta _ _ \<Rightarrow> p)"

lemma store_fetched_items_puts:
  assumes "\<forall>e \<in> set es. utf8_valid (entry_key e) \<and> meta_serialize E (entry_meta e) \<noteq> None"
    and "puts batch_put_cf (entries_puts E es) b = Some b'"
  shows "store_fetched_items E bn (map entry_item es) p b = Some (Inr (b', last_block_pointer bn es p))"
  using assms
proof (induction es arbitrary: b p)
  case (Cons e es)
  obtain meta key val json where e: "e = (meta, key, val, json)" by (cases e) auto
  obtain b1 where b1: "puts batch_put_cf (entry_puts E e) b = Some b1" "puts batch_put_cf (entries_puts E es) b1 = Some b'"
    using Cons.prems(2) by (auto simp: puts_append option_bind_Some_iff)
  have "put_to_block_chain E meta key val json b = Some (b1, version_pointer DB_COL_BC_NOW key)"
    using b1(1) Cons.prems(1) e by (simp add: put_to_block_chain_Some)
  then show ?case using Cons.IH [OF _ b1(2)] Cons.prems(1) e by (cases meta) simp_all
qed simp

lemma last_block_pointer_txs:
  "\<forall>e \<in> set es. \<exists>b n. entry_meta e = TxMeta b n \<Longrightarrow> last_block_pointer bn es p = p"
  by (induction es) auto

lemma entries_puts_columns: "cf \<in> fst ` set (entries_puts E es) \<Longrightarrow> cf \<in> set DB_SPEC_columns"
  by (auto simp: entries_puts_def entry_puts.simps DB_SPEC_columns_def)

lemma entries_ok_set: "entries_ok E es \<Longrightarrow> set fs = set es \<Longrightarrow> entries_ok E fs"
  by (simp add: entries_ok_def)

text \<open>Storing fetched entries of a block succeeds and makes them readable.\<close>

lemma store_fetched_entries:
  assumes "db_inv db" and "\<forall>cf \<in> set DB_SPEC_columns. db_abs db cf \<noteq> None"
    and "entries_ok E (be # es)" and "entry_meta be = BlockMeta bn l" and "\<forall>e \<in> set es. \<exists>n. entry_meta e = TxMeta bn n"
    and "\<forall>e \<in> set (be # es). utf8_valid (entry_key e) \<and> meta_serialize E (entry_meta e) \<noteq> None"
    and "u64_serialize E bn \<noteq> None"
  shows "\<exists>db'. store_fetched_complete_block E last_stored status (bn, map entry_item (be # es)) db = Some (db', Inr status) \<and>
    db_inv db' \<and>
    (\<forall>e \<in> set (be # es). get_stored_value_from_db E db' (entry_key e) = Some (Some (entry_item e)) \<and>
       get_stored_value_from_db E db' (as_bytes (meta_key (entry_meta e))) = Some (Some (entry_item e)))"
proof -
  let ?ptr = "version_pointer DB_COL_BC_NOW (entry_key be)"
  let ?named = "if block_num last_stored = bn then named_last_puts ?ptr else []"
  let ?xs = "?named @ contiguous_puts E status bn"
  let ?all = "entries_puts E (be # es) @ ?xs"
  have cols: "cf \<in> set DB_SPEC_columns" if "cf \<in> fst ` set ?all" for cf
    using that entries_puts_columns [of cf E "be # es"]
    by (auto simp: named_last_puts_def contiguous_puts_def DB_SPEC_columns_def split: if_splits)
  then have "puts db_put_cf ?all db \<noteq> None"
    using simple_db.puts_defined [OF assms(1), of ?all] assms(2) by blast
  then obtain db' where db': "puts db_put_cf ?all db = Some db'" by blast
  have "Option.bind (puts batch_put_cf ?all (batch_writer db)) (\<lambda>b. db_write (batch_done b) db) = Some db'"
    using write_batch_of_puts [OF assms(1)] db' by simp
  then obtain b4 where b4: "puts batch_put_cf ?all (batch_writer db) = Some b4" and w: "db_write (batch_done b4) db = Some db'"
    by (auto simp: option_bind_Some_iff)
  then obtain b1 b2 where b1: "puts batch_put_cf (entries_puts E (be # es)) (batch_writer db) = Some b1"
    and b2: "puts batch_put_cf ?named b1 = Some b2" and b3: "puts batch_put_cf (contiguous_puts E status bn) b2 = Some b4"
    by (auto simp: puts_append option_bind_Some_iff)
  have items: "store_fetched_items E bn (map entry_item (be # es)) None (batch_writer db) = Some (Inr (b1, Some ?ptr))"
  proof -
    have "last_block_pointer bn es (Some ?ptr) = Some ?ptr" using assms(5) by (intro last_block_pointer_txs) blast
    then have "last_block_pointer bn (be # es) None = Some ?ptr" using assms(4) by simp
    then show ?thesis using store_fetched_items_puts [OF assms(6) b1, of bn None] by (simp only:)
  qed
  have "(if block_num last_stored = bn then put_named_last_block_to_block_chain ?ptr b1 else Some b1) = Some b2"
    using b2 by (auto simp: named_last_puts_def put_named_last_block_to_block_chain_def option_bind_Some_iff split: if_splits)
  moreover have "(if status = Contiguous bn then put_contiguous_block_num E bn b2 else Some b2) = Some b4"
    using b3 assms(7)
    by (auto simp: contiguous_puts_def put_contiguous_block_num_def option_bind_Some_iff split: if_splits)
  ultimately have "store_fetched_complete_block E last_stored status (bn, map entry_item (be # es)) db = Some (db', Inr status)"
    using items w by (simp add: store_fetched_complete_block_def)
  moreover have "list_all harmless_put ?xs" by simp
  ultimately show ?thesis
    using read_entries(1,2) [OF assms(1) db' assms(3)] simple_db.puts_get [OF assms(1) db'] by blast
qed

lemma tx_entries_present:
  assumes "\<forall>h \<in> set hs. fmlookup txs h \<noteq> None" and "length ns = length hs"
  shows "tx_entries E txs bn (zip ns hs) =
    map (\<lambda>(n, h). (TxMeta bn n, as_bytes h, the (tx_serialize E (the (fmlookup txs h))),
      the (tx_to_json E (the (fmlookup txs h))))) (zip ns hs)"
  using assms(2,1) by (induction ns hs rule: list_induct2) auto

lemma entry_item_fields [simp]:
  "item_meta (entry_item e) = entry_meta e" "item_key (entry_item e) = entry_key e"
  by (cases e; simp)+

lemma stored_block_entries:
  assumes "db_inv db" and "store_complete_block E status c db = Some (db', info)"
    and "storage_codec_ok E" and "block_keys_ok (common_block (complete_common c)) (block_hash info)"
    and "\<forall>h \<in> set hs. fmlookup (block_txs (complete_common c)) h \<noteq> None \<and> utf8_valid (as_bytes h)"
    and "hs = block_hashes (common_block (complete_common c))"
  obtains be es where "entries_ok E (be # es)" "entry_meta be = BlockMeta (block_num info) (of_nat (length hs))"
    "map entry_meta es = map (\<lambda>i. TxMeta (block_num info) (of_nat i)) [0..<length hs]"
    "\<forall>e \<in> set (be # es). utf8_valid (entry_key e) \<and> meta_serialize E (entry_meta e) \<noteq> None \<and>
       get_stored_value_from_db E db' (entry_key e) = Some (Some (entry_item e)) \<and>
       get_stored_value_from_db E db' (as_bytes (meta_key (entry_meta e))) = Some (Some (entry_item e))"
proof -
  define blk bn txs where "blk = common_block (complete_common c)" and "bn = b_num (header blk)"
    and "txs = block_txs (complete_common c)"
  have hs: "hs = block_hashes blk" using assms(6) by (simp add: blk_def)
  obtain input json d where st: "block_num info = bn" "block_hash info = BLOCK_PREPEND # encode_hex E d"
      "meta_serialize E (BlockMeta bn (of_nat (length hs))) \<noteq> None"
      "\<forall>i < length hs. \<forall>tx. fmlookup txs (hs ! i) = Some tx \<longrightarrow>
         tx_serialize E tx \<noteq> None \<and> tx_to_json E tx \<noteq> None \<and> meta_serialize E (TxMeta bn (of_nat i)) \<noteq> None"
    and p: "puts db_put_cf (entries_puts E (tx_entries E txs bn (numbered_hashes blk) @
          [(BlockMeta bn (of_nat (length hs)), as_bytes (block_hash info), input, json)]) @
        named_last_puts (version_pointer DB_COL_BC_NOW (as_bytes (block_hash info))) @ contiguous_puts E status bn) db = Some db'"
    using store_complete_block_puts [OF assms(1,2) blk_def bn_def] unfolding hs txs_def by metis
  define be es where "be = (BlockMeta bn (of_nat (length hs) :: u32), as_bytes (block_hash info), input, json)"
    and "es = tx_entries E txs bn (numbered_hashes blk)"
  have ok: "entries_ok E (es @ [be])"
    using block_entries_ok [OF assms(3) assms(4) [folded blk_def] st(2,3) st(4) [unfolded hs]] by (simp add: es_def be_def)
  have es: "es = map (\<lambda>(n, h). (TxMeta bn n, as_bytes h, the (tx_serialize E (the (fmlookup txs h))),
      the (tx_to_json E (the (fmlookup txs h))))) (numbered_hashes blk)"
    unfolding es_def by (rule tx_entries_present) (use assms(5) hs in \<open>auto simp: txs_def\<close>)
  have "utf8_valid (entry_key e) \<and> meta_serialize E (entry_meta e) \<noteq> None" if "e \<in> set (be # es)" for e
  proof (cases "e \<in> set es")
    case True
    then obtain i tx where i: "i < length hs" "entry_meta e = TxMeta bn (of_nat i)" "entry_key e = as_bytes (hs ! i)"
        "fmlookup txs (hs ! i) = Some tx"
      unfolding es_def set_tx_entries numbered_hashes_mem hs by auto
    then show ?thesis using bspec [OF assms(5) nth_mem [OF i(1)]] st(4) by auto
  next
    case False
    then show ?thesis using that st(2,3) utf8_block_hash [OF assms(3)] by (simp add: be_def)
  qed
  moreover have "entries_ok E (be # es)" by (rule entries_ok_set [OF ok]) auto
  moreover have "map entry_meta es = map (\<lambda>i. TxMeta bn (of_nat i)) [0..<length hs]"
    by (rule nth_equalityI) (auto simp: es hs)
  moreover have "list_all harmless_put (named_last_puts (version_pointer DB_COL_BC_NOW (as_bytes (block_hash info))) @
      contiguous_puts E status bn)" by simp
  note read_entries(1,2) [OF assms(1) p [folded es_def be_def] ok this]
  ultimately show thesis by (intro that [of be es]) (auto simp: st(1) be_def)
qed

text \<open>C16: Catch-up copies a block. A block stored by one node is served item by item, first the
  block and then its transactions, as a complete download; storing that download in the database of
  another node succeeds and lets the other node read every item, by hash and by index, exactly as
  the first node reads it. Relied on: the metadata round trip, usable UTF-8 transaction hashes, and
  that all transactions of the block came with it.\<close>

theorem catchup_copies_block:
  assumes "db_inv db" and "store_complete_block E status c db = Some (db', info)"
    and "storage_codec_ok E" and "block_keys_ok (common_block (complete_common c)) (block_hash info)"
    and "\<forall>h \<in> set (block_hashes (common_block (complete_common c))).
      fmlookup (block_txs (complete_common c)) h \<noteq> None \<and> utf8_valid (as_bytes h)"
    and "db_inv other" and "\<forall>cf \<in> set DB_SPEC_columns. db_abs other cf \<noteq> None"
    and "u64_serialize E (block_num info) \<noteq> None"
  shows "let bn = block_num info; hs = block_hashes (common_block (complete_common c)) in
    \<exists>items other'. complete_block (bn, items) \<and> length items = Suc (length hs) \<and>
      store_fetched_complete_block E last_stored fetched (bn, items) other = Some (other', Inr fetched) \<and>
      (\<forall>n < length items.
         get_stored_value_from_db E db' (as_bytes (wanted_key bn n)) = Some (Some (items ! n)) \<and>
         get_stored_value_from_db E other' (as_bytes (wanted_key bn n)) = Some (Some (items ! n)) \<and>
         get_stored_value_from_db E db' (item_key (items ! n)) = Some (Some (items ! n)) \<and>
         get_stored_value_from_db E other' (item_key (items ! n)) = Some (Some (items ! n)))"
proof -
  let ?bn = "block_num info" and ?hs = "block_hashes (common_block (complete_common c))"
  obtain be es where e: "entries_ok E (be # es)" "entry_meta be = BlockMeta ?bn (of_nat (length ?hs))"
    "map entry_meta es = map (\<lambda>i. TxMeta ?bn (of_nat i)) [0..<length ?hs]"
    "\<forall>e \<in> set (be # es). utf8_valid (entry_key e) \<and> meta_serialize E (entry_meta e) \<noteq> None \<and>
       get_stored_value_from_db E db' (entry_key e) = Some (Some (entry_item e)) \<and>
       get_stored_value_from_db E db' (as_bytes (meta_key (entry_meta e))) = Some (Some (entry_item e))"
    by (rule stored_block_entries [OF assms(1-5) refl])
  define items where "items = map entry_item (be # es)"
  have len: "length ?hs < 2 ^ 32" using assms(4) by (simp add: block_keys_ok_def)
  have "map item_meta items = block_metas ?bn (of_nat (length ?hs)) (unat (of_nat (length ?hs) :: u32))"
    using e(2,3) len by (simp add: items_def block_metas_def comp_def unat_of_nat take_bit_nat_eq_self)
  then have cb: "complete_block (?bn, items)" unfolding complete_block_def prod.case by (rule exI)
  have "\<exists>n. entry_meta x = TxMeta ?bn n" if "x \<in> set es" for x
    using arg_cong [OF e(3), of set] that by auto
  then obtain other' where o: "store_fetched_complete_block E last_stored fetched (?bn, items) other = Some (other', Inr fetched)"
    "\<forall>e \<in> set (be # es). get_stored_value_from_db E other' (entry_key e) = Some (Some (entry_item e)) \<and>
       get_stored_value_from_db E other' (as_bytes (meta_key (entry_meta e))) = Some (Some (entry_item e))"
    using store_fetched_entries [OF assms(6,7) e(1,2)] e(4) assms(8) unfolding items_def by blast
  have n: "\<exists>x \<in> set (be # es). items ! n = entry_item x \<and> meta_key (entry_meta x) = wanted_key ?bn n" if "n < length items" for n
    using complete_block_nth [OF cb that] that nth_mem [of n "be # es"] unfolding items_def by (auto simp del: list.map)
  have "length items = Suc (length ?hs)" using arg_cong [OF e(3), of length] by (simp add: items_def)
  moreover have "get_stored_value_from_db E db' (as_bytes (wanted_key ?bn n)) = Some (Some (items ! n)) \<and>
         get_stored_value_from_db E other' (as_bytes (wanted_key ?bn n)) = Some (Some (items ! n)) \<and>
         get_stored_value_from_db E db' (item_key (items ! n)) = Some (Some (items ! n)) \<and>
         get_stored_value_from_db E other' (item_key (items ! n)) = Some (Some (items ! n))" if i: "n < length items" for n
    using n [OF i] e(4) o(2) by (metis entry_item_fields(2))
  ultimately show ?thesis using cb o(1) unfolding Let_def by blast
qed

section \<open>Witnesses\<close>

text \<open>A small codec, and a block with one transaction and its mining transaction.\<close>

definition demo_storage_ext :: storage_ext where
  "demo_storage_ext =
     \<lparr>header_serialize = (\<lambda>h. Some [ucast (b_num h)]), sha3_256 = (\<lambda>b. 0 # b),
      encode_hex = map (\<lambda>b. if b = 0 then CHR ''0'' else CHR ''1''), build_hex_txs_hash = (\<lambda>_. []),
      addr_display = (\<lambda>_. []), sraft = demo_sext, sdb = demo_db_ext, block_serialize = (\<lambda>_. Some [1]), block_to_json = (\<lambda>_. Some [2]),
      tx_serialize = (\<lambda>_. Some [3]), tx_to_json = (\<lambda>_. Some [4]),
      meta_serialize = (\<lambda>m. case m of
          BlockMeta b n \<Rightarrow> if b = 0 \<and> n = 2 then Some [0] else None
        | TxMeta b n \<Rightarrow> if b = 0 \<and> n < 2 then Some [ucast n + 1] else None),
      meta_deserialize = (\<lambda>s. case s of [i] \<Rightarrow> Some (if i = 0 then BlockMeta 0 2 else TxMeta 0 (ucast (i - 1))) | _ \<Rightarrow> None),
      u64_serialize = (\<lambda>n. Some [ucast n]), u64_deserialize = (\<lambda>_. None)\<rparr>"

definition demo_block_tx :: Transaction where
  "demo_block_tx = \<lparr>inputs = [], outputs = [], tx_version = 0, druid_info = None\<rparr>"

definition demo_complete :: CompleteBlock where
  "demo_complete =
     \<lparr>complete_common = (demo_common 0)\<lparr>block_txs := fmupd ''t'' demo_block_tx (fmupd ''m'' demo_block_tx fmempty)\<rparr>,
      complete_extra_info = \<lparr>mined_shutdown = False\<rparr>\<rparr>"

definition demo_store :: SimpleDb where
  "demo_store = \<lparr>columns = fmextend (zip DB_SPEC_columns [0..<length DB_SPEC_columns]) fmempty,
     key_values = replicate (length DB_SPEC_columns) fmempty\<rparr>"

lemma demo_codec_ok: "storage_codec_ok demo_storage_ext"
proof -
  have "n = 0 \<or> n = 1" if "n < 2" for n :: u32
    using that by (simp add: word_less_nat_alt word_unat_eq_iff) arith
  then have "ucast n + 1 \<noteq> (0 :: u8) \<and> ucast (ucast n + 1 - 1 :: u8) = n" if "n < 2" for n :: u32
    using that by fastforce
  then show ?thesis
    by (auto simp: storage_codec_ok_def demo_storage_ext_def split: BlockchainItemMeta.splits if_splits)
qed

lemma demo_store_inv: "db_inv demo_store" unfolding demo_store_def by (rule fresh_db_inv)

lemma demo_stored:
  "map_option (block_hash \<circ> snd) (store_complete_block demo_storage_ext (Contiguous 0) demo_complete demo_store) = Some ''b00''"
  by code_simp

lemma demo_keys_ok: "block_keys_ok (common_block (complete_common demo_complete)) ''b00''"
  by (simp add: block_keys_ok_def block_hashes_def demo_complete_def demo_common_def demo_header_def clean_key_def as_bytes_def NAMED_CONSTANT_PREPEND_def DB_POINTER_SEPARATOR_def)

lemma demo_hashes: "block_hashes (common_block (complete_common demo_complete)) = [''t'', ''m'']"
  "b_num (header (common_block (complete_common demo_complete))) = 0"
  by (simp_all add: block_hashes_def demo_complete_def demo_common_def demo_header_def)

lemma demo_store_columns: "\<forall>cf \<in> set DB_SPEC_columns. db_abs demo_store cf \<noteq> None"
proof -
  have "list_all (\<lambda>cf. \<not> Option.is_none (fmlookup (columns demo_store) cf)) DB_SPEC_columns" by code_simp
  then show ?thesis by (simp add: db_abs_def list_all_iff Option.is_none_def)
qed

theorem stored_block_readable_witness:
  "\<exists>db' info item. store_complete_block demo_storage_ext (Contiguous 0) demo_complete demo_store = Some (db', info) \<and>
     get_stored_value_from_db demo_storage_ext db' (as_bytes LAST_BLOCK_HASH_KEY) = Some (Some item) \<and>
     item_meta item = BlockMeta 0 2 \<and> item_key item = as_bytes ''b00'' \<and>
     get_stored_value_from_db demo_storage_ext db' (as_bytes ''m'') =
       get_stored_value_from_db demo_storage_ext db' (as_bytes (indexed_tx_hash_key 0 1))"
proof -
  obtain db' info where s: "store_complete_block demo_storage_ext (Contiguous 0) demo_complete demo_store = Some (db', info)"
    "block_hash info = ''b00''" using demo_stored by auto
  note t = stored_block_readable [OF demo_store_inv s(1) demo_codec_ok demo_keys_ok [folded s(2)], unfolded Let_def demo_hashes]
  have m: "fmlookup (block_txs (complete_common demo_complete)) ''m'' = Some demo_block_tx" by (simp add: demo_complete_def)
  have "\<exists>item. get_stored_value_from_db demo_storage_ext db' (as_bytes ''m'') = Some (Some item) \<and>
      get_stored_value_from_db demo_storage_ext db' (as_bytes (indexed_tx_hash_key 0 1)) = Some (Some item)"
    using spec [OF conjunct2 [OF t], of 1] m by auto
  then show ?thesis using s conjunct1 [OF t] by auto
qed

theorem catchup_copies_block_witness:
  "\<exists>db' info items other'. store_complete_block demo_storage_ext (Contiguous 0) demo_complete demo_store = Some (db', info) \<and>
     complete_block (0, items) \<and> length items = 3 \<and>
     store_fetched_complete_block demo_storage_ext info (NotContiguous 0) (0, items) demo_store = Some (other', Inr (NotContiguous 0)) \<and>
     get_stored_value_from_db demo_storage_ext other' (as_bytes (wanted_key 0 2)) = Some (Some (items ! 2)) \<and>
     get_stored_value_from_db demo_storage_ext db' (as_bytes (wanted_key 0 2)) = Some (Some (items ! 2))"
proof -
  obtain db' info where s: "store_complete_block demo_storage_ext (Contiguous 0) demo_complete demo_store = Some (db', info)"
    "block_hash info = ''b00''" using demo_stored by auto
  have n: "block_num info = 0"
    using store_complete_block_puts [OF demo_store_inv s(1) refl refl] demo_hashes(2) by metis
  have "\<forall>h \<in> set (block_hashes (common_block (complete_common demo_complete))).
      fmlookup (block_txs (complete_common demo_complete)) h \<noteq> None \<and> utf8_valid (as_bytes h)"
    unfolding demo_hashes by (simp add: demo_complete_def as_bytes_def)
  note t = catchup_copies_block [OF demo_store_inv s(1) demo_codec_ok demo_keys_ok [folded s(2)] this demo_store_inv
      demo_store_columns, of info "NotContiguous 0", unfolded Let_def demo_hashes n]
  have "u64_serialize demo_storage_ext 0 \<noteq> None" by (simp add: demo_storage_ext_def)
  from t [OF this] obtain items other' where i: "complete_block (0, items)" "length items = 3"
    "store_fetched_complete_block demo_storage_ext info (NotContiguous 0) (0, items) demo_store = Some (other', Inr (NotContiguous 0))"
    "\<forall>n < 3. get_stored_value_from_db demo_storage_ext db' (as_bytes (wanted_key 0 n)) = Some (Some (items ! n)) \<and>
       get_stored_value_from_db demo_storage_ext other' (as_bytes (wanted_key 0 n)) = Some (Some (items ! n))"
    by auto
  then show ?thesis using s(1) spec [OF i(4), of 2] by auto
qed

end
