(* ===== verification/Storage_Chain.thy ===== *)
theory Storage_Chain
  imports Storage_Node
begin

text \<open>
  The storage node as a whole: an invariant of its consensus state, its database and its catch-up
  that holds after construction and that every event keeps, and what a committed block does to all
  of them together.
\<close>

section \<open>The invariant\<close>

text \<open>The parts held are parts of the current block, and the block stored last is the one before it.\<close>

definition parts_current :: "StorageConsensused \<Rightarrow> bool" where
  "parts_current c \<longleftrightarrow>
     (\<forall>h b. fmlookup (current_block_completed_parts c) h = Some b \<longrightarrow>
        b_num (header (common_block (builder_common b))) = s_current_block_num c)"

definition chain_inv :: "StorageConsensused \<Rightarrow> bool" where
  "chain_inv c \<longleftrightarrow> parts_current c \<and>
     (\<forall>info. last_block_stored c = Some info \<longrightarrow> block_num info + 1 = s_current_block_num c)"

definition genuine_snapshot :: "storage_ext \<Rightarrow> RaftData \<Rightarrow> bool" where
  "genuine_snapshot E data \<longleftrightarrow> (\<exists>c. chain_inv c \<and> s_cons_serialize (sraft E) c = Some data)"

definition sent_snapshots :: "ActiveRaft \<Rightarrow> RaftData set" where
  "sent_snapshots r = {data. \<exists>idx backup. Snapshot idx data backup \<in> set (cmd_tx r)}"

definition storage_node_inv :: "storage_ext \<Rightarrow> StorageNode \<Rightarrow> bool" where
  "storage_node_inv E s \<longleftrightarrow>
     db_inv (sn_db s) \<and> storage_fetch_inv (catchup_fetch s) \<and> chain_inv (s_consensused (node_raft s)) \<and>
     (\<forall>data \<in> sent_snapshots (s_raft_active (node_raft s)). genuine_snapshot E data)"

text \<open>What is relied on: the state can be read back from its serialisation, and a snapshot that RAFT
  hands over was sent to it by a node.\<close>

definition cons_codec_ok :: "storage_ext \<Rightarrow> bool" where
  "cons_codec_ok E \<longleftrightarrow>
     (\<forall>c data. s_cons_serialize (sraft E) c = Some data \<longrightarrow> s_cons_deserialize (sraft E) data = Some c)"

fun genuine_event :: "storage_ext \<Rightarrow> storage_event \<Rightarrow> bool" where
  "genuine_event E (EventCommit commit) \<longleftrightarrow>
     (case commit_data commit of CommitSnapshot data \<Rightarrow> data = [] \<or> genuine_snapshot E data | _ \<Rightarrow> True)"
| "genuine_event E _ \<longleftrightarrow> True"

fun storage_handle_events ::
    "storage_ext \<Rightarrow> (nat \<times> Token \<times> storage_event) list \<Rightarrow> StorageNode \<Rightarrow> StorageNode may_panic" where
  "storage_handle_events E [] s = Some s"
| "storage_handle_events E ((now, token, ev) # evs) s =
     do { (s, _) \<leftarrow> storage_handle_next_event E now token ev s; storage_handle_events E evs s }"

section \<open>The commands to RAFT\<close>

lemma sent_snapshots_simps [simp]:
  "sent_snapshots (propose_data r data ctx) = sent_snapshots r"
  "sent_snapshots (raft_received_message r msg) = sent_snapshots r"
  "sent_snapshots (create_snapshot r idx data b) = (if use_raft r then insert data (sent_snapshots r) else sent_snapshots r)"
  by (auto simp: sent_snapshots_def propose_data_def raft_received_message_def create_snapshot_def)

lemma sent_snapshots_fold:
  "(\<And>x r. sent_snapshots (f x r) = sent_snapshots r) \<Longrightarrow> sent_snapshots (fold f xs r) = sent_snapshots r"
  by (induction xs arbitrary: r) simp_all

lemma sent_snapshots_re_propose [simp]:
  "sent_snapshots (re_propose_all_items self r) = sent_snapshots r"
  "sent_snapshots (re_propose_item self r key) = sent_snapshots r"
  "sent_snapshots (in_flight_re_propose_uncommitted_current_b_num self r bn) = sent_snapshots r"
proof -
  show i: "sent_snapshots (re_propose_item self r key) = sent_snapshots r" for r key
    by (auto simp: re_propose_item_def split: option.splits)
  show "sent_snapshots (re_propose_all_items self r) = sent_snapshots r"
    unfolding re_propose_all_items_def by (rule sent_snapshots_fold) (simp add: case_prod_unfold)
  show "sent_snapshots (in_flight_re_propose_uncommitted_current_b_num self r bn) = sent_snapshots r"
    unfolding in_flight_re_propose_uncommitted_current_b_num_def
    by (rule sent_snapshots_fold) (simp add: case_prod_unfold i)
qed

lemma sent_snapshots_propose:
  "in_flight_propose_item C self r item d = Some (self', r', key) \<Longrightarrow> sent_snapshots r' = sent_snapshots r"
  by (auto simp: in_flight_propose_item_def option_bind_Some_iff Let_def split: option.splits)

section \<open>The consensus state\<close>

lemma parts_current_append:
  assumes "parts_current c" and "append_received_block E key part c = Some d"
    and "storage_is_current_block c (b_num (header (common_block (received_common part))))"
  shows "parts_current d \<and> last_block_stored d = last_block_stored c \<and> s_current_block_num d = s_current_block_num c"
  using assms
  by (auto simp: parts_current_def append_received_block_def option_bind_Some_iff storage_is_current_block_def
      fmentry_def split: option.splits if_splits)

lemma commit_item_chain:
  assumes "chain_inv (s_consensused r)" and "storage_commit_item E key item r = Some r'"
  shows "chain_inv (s_consensused r') \<and> s_raft_active r' = s_raft_active r \<and>
    s_current_block_num (s_consensused r') = s_current_block_num (s_consensused r)"
  using assms parts_current_append [of "s_consensused r" E key]
  by (cases item) (auto simp: storage_commit_item_def chain_inv_def option_bind_Some_iff split: if_splits)

lemma received_commit_chain:
  assumes "chain_inv (s_consensused r)" and "cons_codec_ok E" and "genuine_event E (EventCommit commit)"
    and "storage_received_commit (sraft E) commit r = Some (r', item)"
  shows "chain_inv (s_consensused r') \<and> sent_snapshots (s_raft_active r') = sent_snapshots (s_raft_active r) \<and>
    (item = Some StorageBlock \<longrightarrow> s_current_block_num (s_consensused r') = s_current_block_num (s_consensused r))"
proof -
  let ?r = "r\<lparr>s_consensused := (s_consensused r)\<lparr>s_last_committed_raft_idx_and_term :=
           (commit_index commit, commit_term commit)\<rparr>\<rparr>"
  have r: "chain_inv (s_consensused ?r)" using assms(1) by (simp add: chain_inv_def parts_current_def)
  show ?thesis
  proof (cases "commit_data commit")
    case (Proposed data ctx)
    obtain flight res where f: "in_flight_received_commit_proposal (s_codec (sraft E)) (s_in_flight ?r) data ctx = (flight, res)"
      by fastforce
    show ?thesis
    proof (cases res)
      case None
      then show ?thesis
        using assms(4) f r Proposed by (auto simp: storage_received_commit_def storage_received_commit_proposal_def)
    next
      case (Some x)
      then obtain key it b where x: "res = Some (key, it, b)" by (cases x) auto
      have r1: "chain_inv (s_consensused (?r\<lparr>s_in_flight := flight\<rparr>))" using r by simp
      show ?thesis
        using assms(4) f x Proposed commit_item_chain [OF r1, of "sraft E" key it]
        by (auto simp: storage_received_commit_def storage_received_commit_proposal_def option_bind_Some_iff)
    qed
  next
    case (CommitSnapshot data)
    then show ?thesis
      using assms r
      by (auto simp: storage_received_commit_def storage_apply_snapshot_def Let_def genuine_snapshot_def cons_codec_ok_def
          option_bind_Some_iff storage_set_ignore_dedeup_b_num_less_than_current_def split: if_splits)
  next
    case NewLeader
    then show ?thesis using assms(4) r by (auto simp: storage_received_commit_def)
  qed
qed

lemma generate_complete_chain:
  assumes "chain_inv c" and "generate_complete_block c = Some (d, blk)"
  shows "b_num (header (common_block (complete_common blk))) = s_current_block_num c \<and>
    s_current_block_num d = s_current_block_num c + 1 \<and> current_block_completed_parts d = fmempty"
proof -
  obtain b where b: "max_by_key part_votes (fmvalues (current_block_completed_parts c)) = Some b"
    "complete_common blk = builder_common b"
    "d = c\<lparr>s_current_block_num := s_current_block_num c + 1, current_block_completed_parts := fmempty\<rparr>"
    using assms(2) by (auto simp: generate_complete_block_def Let_def option_bind_Some_iff)
  have "b \<in> set (fmvalues (current_block_completed_parts c))" using b(1) by (rule max_by_key_Some_mem)
  then obtain h where "fmlookup (current_block_completed_parts c) h = Some b" by (auto simp: set_fmvalues)
  then show ?thesis using assms(1) b(2,3) by (auto simp: chain_inv_def parts_current_def)
qed

section \<open>The database\<close>

lemma write_actions_length: "write_actions b kvs = Some kvs' \<Longrightarrow> length kvs' = length kvs"
  by (induction b kvs rule: write_actions.induct) (auto simp: option_bind_Some_iff)

lemma db_write_inv: "db_inv db \<Longrightarrow> db_write b db = Some db' \<Longrightarrow> db_inv db'"
  by (auto simp: db_write_def db_inv_def option_bind_Some_iff dest: write_actions_length)

lemma store_complete_inv: "db_inv db \<Longrightarrow> store_complete_block E status c db = Some (db', info) \<Longrightarrow> db_inv db'"
  by (auto simp: store_complete_block_def Let_def option_bind_Some_iff case_prod_unfold intro: db_write_inv split: if_splits)

lemma store_complete_info:
  assumes "db_inv db" and "store_complete_block E status c db = Some (db', info)"
  shows "block_num info = b_num (header (common_block (complete_common c)))"
    and "stored_shutdown info = mined_shutdown (complete_extra_info c)"
  by (rule store_complete_block_puts [OF assms refl refl], simp)+

lemma store_fetched_inv:
  assumes "db_inv db" and "store_fetched_complete_block E l status (bn, items) db = Some (db', res)"
  shows "db_inv db'"
proof -
  obtain r where r: "store_fetched_items E bn items None (batch_writer db) = Some r"
    using assms(2) by (auto simp: store_fetched_complete_block_def option_bind_Some_iff)
  show ?thesis
  proof (cases r)
    case (Inr x)
    then show ?thesis
      using assms r
      by (cases x; cases "snd x") (auto simp: store_fetched_complete_block_def option_bind_Some_iff intro: db_write_inv)
  qed (use assms r in \<open>simp add: store_fetched_complete_block_def\<close>)
qed

section \<open>The handlers\<close>

text \<open>A committed block: what the node did, step by step.\<close>

lemma handle_committed_block_steps:
  assumes "handle_committed_block E s = Some (s', resp)"
  obtains c blk db info where
    "generate_complete_block (s_consensused (node_raft s)) = Some (c, blk)"
    "store_complete_block E (check_contiguous_block_num (b_num (header (common_block (complete_common blk)))) (catchup_fetch s))
       blk (sn_db s) = Some (db, info)"
    "sn_db s' = db" "resp = respond True ''Block complete stored''"
    "catchup_fetch s' = increase_running_target (b_num (header (common_block (complete_common blk))))
       (update_contiguous_block_num
         (check_contiguous_block_num (b_num (header (common_block (complete_common blk)))) (catchup_fetch s)) (catchup_fetch s))"
    "s_consensused (node_raft s') = c\<lparr>last_block_stored := Some info\<rparr>"
    "\<exists>ser. s_cons_serialize (sraft E) (s_consensused (node_raft s')) = Some ser \<and>
       sent_snapshots (s_raft_active (node_raft s')) \<subseteq> insert ser (sent_snapshots (s_raft_active (node_raft s)))"
    "stored_shutdown info \<longrightarrow> is_shutdown_commit_processed (node_raft s')"
proof -
  have "\<exists>c blk db info.
    generate_complete_block (s_consensused (node_raft s)) = Some (c, blk) \<and>
    store_complete_block E (check_contiguous_block_num (b_num (header (common_block (complete_common blk)))) (catchup_fetch s))
       blk (sn_db s) = Some (db, info) \<and>
    (\<exists>raft. storage_event_processed_generate_snapshot (sraft E) info ((node_raft s)\<lparr>s_consensused := c\<rparr>) = Some raft \<and>
       node_raft s' = raft) \<and>
    sn_db s' = db \<and> resp = respond True ''Block complete stored'' \<and>
    catchup_fetch s' = increase_running_target (b_num (header (common_block (complete_common blk))))
       (update_contiguous_block_num
         (check_contiguous_block_num (b_num (header (common_block (complete_common blk)))) (catchup_fetch s)) (catchup_fetch s))"
    using assms
    by (auto simp: handle_committed_block_def storage_generate_complete_block_def backup_persistent_dbs_def Let_def
        option_bind_Some_iff case_prod_unfold)
  then obtain c blk db info raft where s:
    "generate_complete_block (s_consensused (node_raft s)) = Some (c, blk)"
    "store_complete_block E (check_contiguous_block_num (b_num (header (common_block (complete_common blk)))) (catchup_fetch s))
       blk (sn_db s) = Some (db, info)"
    "storage_event_processed_generate_snapshot (sraft E) info ((node_raft s)\<lparr>s_consensused := c\<rparr>) = Some raft" "node_raft s' = raft"
    "sn_db s' = db" "resp = respond True ''Block complete stored''"
    "catchup_fetch s' = increase_running_target (b_num (header (common_block (complete_common blk))))
       (update_contiguous_block_num
         (check_contiguous_block_num (b_num (header (common_block (complete_common blk)))) (catchup_fetch s)) (catchup_fetch s))"
    by blast
  have r: "s_consensused raft = c\<lparr>last_block_stored := Some info\<rparr> \<and>
    (\<exists>ser. s_cons_serialize (sraft E) (s_consensused raft) = Some ser \<and>
       sent_snapshots (s_raft_active raft) \<subseteq> insert ser (sent_snapshots (s_raft_active (node_raft s)))) \<and>
    (stored_shutdown info \<longrightarrow> is_shutdown_commit_processed raft)"
    using s(3) by (cases "stored_shutdown info") (auto simp: storage_event_processed_generate_snapshot_def Let_def option_bind_Some_iff
        storage_set_ignore_dedeup_b_num_less_than_current_def is_shutdown_commit_processed_def split: if_splits)
  show thesis by (rule that [OF s(1,2,5,6,7)]) (use r s(4) in auto)
qed

lemma committed_block_inv:
  assumes "storage_node_inv E s" and "handle_committed_block E s = Some (s', resp)"
  shows "storage_node_inv E s'"
proof -
  from assms(2) show ?thesis
  proof (cases rule: handle_committed_block_steps)
    case (1 c blk db info)
    have c: "b_num (header (common_block (complete_common blk))) = s_current_block_num (s_consensused (node_raft s))"
      "s_current_block_num c = s_current_block_num (s_consensused (node_raft s)) + 1" "current_block_completed_parts c = fmempty"
      using generate_complete_chain [OF _ 1(1)] assms(1) by (auto simp: storage_node_inv_def)
    have i: "db_inv (sn_db s)" using assms(1) by (simp add: storage_node_inv_def)
    have n: "block_num info = b_num (header (common_block (complete_common blk)))"
      by (rule store_complete_info(1) [OF i 1(2)])
    have ch: "chain_inv (s_consensused (node_raft s'))"
      using c n 1(6) by (auto simp: chain_inv_def parts_current_def)
    then have "\<forall>data \<in> sent_snapshots (s_raft_active (node_raft s')). genuine_snapshot E data"
      using 1(7) assms(1) unfolding storage_node_inv_def genuine_snapshot_def by blast
    moreover have "storage_fetch_inv (catchup_fetch s')"
      unfolding 1(5) using assms(1) by (intro inv_intros) (simp add: storage_node_inv_def)
    ultimately show ?thesis using ch store_complete_inv [OF i 1(2)] 1(3) by (simp add: storage_node_inv_def)
  qed
qed

text \<open>The handlers that leave the consensus state, the database and the catch-up as they are.\<close>

definition same_core :: "StorageNode \<Rightarrow> StorageNode \<Rightarrow> bool" where
  "same_core s t \<longleftrightarrow> node_raft t = node_raft s \<and> sn_db t = sn_db s \<and> catchup_fetch t = catchup_fetch s"

lemma same_core_inv: "same_core s t \<Longrightarrow> storage_node_inv E t = storage_node_inv E s"
  by (simp add: same_core_def storage_node_inv_def)

lemma node_send_core: "same_core s (fst (node_send token peer msg s))"
  by (auto simp: node_send_def same_core_def split: prod.splits sum.splits)

lemma resend_core: "same_core s (resend_trigger_message token s)"
  using node_send_core [of s token]
  by (auto simp: resend_trigger_message_def send_stored_block_def same_core_def split: option.splits)

lemma receive_closing_core: "same_core s (fst (receive_closing peer s))"
  by (simp add: receive_closing_def same_core_def Let_def)

lemma get_item_core: "get_blockchain_item E peer key s = Some (s', r) \<Longrightarrow> same_core s s'"
  by (auto simp: get_blockchain_item_def same_core_def option_bind_Some_iff)

lemma receive_block_inv:
  assumes "storage_node_inv E s" and "receive_block E token peer mined s = Some (s', r)"
  shows "storage_node_inv E s'"
proof (cases mined)
  case None
  then show ?thesis using assms same_core_inv [OF resend_core] by (auto simp: receive_block_def)
next
  case (Some m)
  have p: "storage_node_inv E (s\<lparr>node_raft := raft\<rparr>) \<and> storage_node_inv E (s\<lparr>node_raft := storage_re_propose_uncommitted_current_b_num raft\<rparr>)"
    if "propose_received_part_block (sraft E) peer (mined_common m) (mined_extra_info m) (node_raft s) = Some (raft, ok)" for raft ok
    using that assms(1) by (auto simp: propose_received_part_block_def storage_propose_item_dedup_def option_bind_Some_iff
        storage_node_inv_def storage_re_propose_uncommitted_current_b_num_def dest!: sent_snapshots_propose)
  obtain pow where w: "construct_valid_block_pow_hash E (common_block (mined_common m)) = Some pow"
    using Some assms(2) by (auto simp: receive_block_def option_bind_Some_iff)
  show ?thesis
    using Some assms p w same_core_inv [OF resend_core]
    by (cases pow) (auto simp: receive_block_def option_bind_Some_iff Let_def split: if_splits)
qed

lemma receive_item_inv:
  assumes "storage_node_inv E s" and "receive_blockchain_item E now peer key item s = Some (s', r)"
  shows "storage_node_inv E s'"
proof -
  obtain f out where f: "receive_blockchain_items key item (catchup_fetch s) = (f, out)" by fastforce
  have i: "storage_fetch_inv f" "db_inv (sn_db s)"
    using assms(1) f storage_fetch_inv_receive [of "catchup_fetch s" key item] by (auto simp: storage_node_inv_def)
  have u: "storage_fetch_inv (set_first_timeout now f)" "storage_fetch_inv (set_first_timeout now (update_contiguous_block_num st f))" for st
    using i(1) by (auto intro: inv_intros)
  have d: "db_inv db" if "store_fetched_complete_block E l st x (sn_db s) = Some (db, res)" for l st x db res
    using store_fetched_inv [OF i(2)] that by (cases x) auto
  have w: "storage_node_inv E t = (db_inv (sn_db t) \<and> storage_fetch_inv (catchup_fetch t))" if "node_raft t = node_raft s" for t
    using that assms(1) by (auto simp: storage_node_inv_def)
  show ?thesis
  proof (cases out)
    case None
    then show ?thesis using assms(2) f i u by (auto simp: receive_blockchain_item_def Let_def w split: if_splits)
  next
    case (Some x)
    let ?store = "case storage_get_last_block_stored (node_raft s) of
        Some l \<Rightarrow> if fst x \<le> block_num l
          then store_fetched_complete_block E l (check_contiguous_block_num (fst x) f) x (sn_db s)
          else Some (sn_db s, Inl (ConfigError ''Expect only block less than block stored''))
      | None \<Rightarrow> Some (sn_db s, Inl (ConfigError ''Expect only block less than block stored''))"
    obtain db res where st: "?store = Some (db, res)"
      using assms(2) f Some by (auto simp: receive_blockchain_item_def Let_def option_bind_Some_iff cong: option.case_cong if_cong)
    then have "db_inv db" using d i(2) by (auto split: option.splits if_splits)
    then show ?thesis
      using assms(2) f i u Some st by (cases res) (auto simp: receive_blockchain_item_def Let_def w cong: option.case_cong if_cong)
  qed
qed

lemma received_message_inv:
  "storage_node_inv E (s\<lparr>node_raft := storage_received_message msg (node_raft s)\<rparr>) = storage_node_inv E s"
  by (simp add: storage_node_inv_def storage_received_message_def)

lemma handle_request_inv:
  assumes "storage_node_inv E s" and "storage_handle_request E now token peer req s = Some (s', r)"
  shows "storage_node_inv E s'"
  using assms receive_block_inv [OF assms(1)] receive_item_inv [OF assms(1)] same_core_inv [OF get_item_core]
    same_core_inv [OF receive_closing_core, of E peer s]
  by (cases req) (auto simp: option_bind_Some_iff received_message_inv)

lemma committed_data_inv:
  assumes "storage_node_inv E s" and "cons_codec_ok E" and "genuine_event E (EventCommit commit)"
    and "handle_committed_data E now commit s = Some (s', r)"
  shows "storage_node_inv E s'"
proof -
  obtain raft item where c: "storage_received_commit (sraft E) commit (node_raft s) = Some (raft, item)"
    using assms(4) by (auto simp: handle_committed_data_def option_bind_Some_iff)
  have i: "storage_node_inv E (s\<lparr>node_raft := raft\<rparr>)"
    using received_commit_chain [OF _ assms(2,3) c] assms(1) by (auto simp: storage_node_inv_def)
  consider "item = None" | "item = Some StorageBlock" | "item = Some StorageSnapshot"
    by (cases item) (auto intro: StorageCommittedItem.exhaust)
  then show ?thesis
  proof cases
    case 3
    have "storage_node_inv E (fst (handle_committed_snapshot now (s\<lparr>node_raft := raft\<rparr>)))"
      using i storage_fetch_inv_missing [of "catchup_fetch s" now]
      by (auto simp: handle_committed_snapshot_def storage_node_inv_def split: option.splits prod.splits)
        (metis fst_conv)
    then show ?thesis using 3 c assms(4) by (auto simp: handle_committed_data_def Let_def split: prod.splits)
  qed (use i c assms(4) committed_block_inv [OF i] in \<open>auto simp: handle_committed_data_def option_bind_Some_iff Let_def\<close>)
qed

lemma next_event_inv:
  assumes "storage_node_inv E s" and "cons_codec_ok E" and "genuine_event E ev"
    and "storage_handle_next_event E now token ev s = Some (s', r)"
  shows "storage_node_inv E s'"
proof (cases ev)
  case (EventFrame peer req)
  then show ?thesis using handle_request_inv [OF assms(1)] assms(4) by auto
next
  case (EventCommit commit)
  then show ?thesis using committed_data_inv [OF assms(1,2)] assms(3,4) by auto
next
  case (EventRaftMsg addr msg)
  then show ?thesis using assms same_core_inv [OF node_send_core] by auto
next
  case EventFetchTimeout
  have "storage_fetch_inv (fst (set_retry_timeout now (catchup_fetch s)))"
    using assms(1) by (auto simp: storage_node_inv_def intro: inv_intros)
  then show ?thesis
    using assms(1,4) EventFetchTimeout by (auto simp: storage_node_inv_def Let_def case_prod_unfold intro: inv_intros split: if_splits)
next
  case (EventLocal l)
  then show ?thesis using assms by auto
qed

section \<open>Construction and runs\<close>

lemma StorageNode_new_inv:
  assumes "\<forall>old. old_db = Some old \<longrightarrow> db_inv old" and "StorageNode_new E config node old_db = Some (Inr s)"
  shows "storage_node_inv E s"
proof -
  obtain raft db s1 where n: "StorageRaft_new config = Some raft" "new_db (sdb E) DB_SPEC_columns old_db = Some db"
    "storage_load_local_db E s1 = Some (Inr s)" "node_raft s1 = raft" "sn_db s1 = db"
    "catchup_fetch s1 = StorageFetch_new config (storage_nodes_config config ! storage_node_idx config)"
    using assms(2) by (auto simp: StorageNode_new_def Let_def option_bind_Some_iff split: if_splits)
  have "chain_inv (s_consensused raft) \<and> sent_snapshots (s_raft_active raft) = {}"
    using n(1) by (auto simp: StorageRaft_new_def ActiveRaft_new_def Let_def option_bind_Some_iff chain_inv_def parts_current_def
        storage_with_peers_len_def StorageConsensused_default_def sent_snapshots_def split: if_splits)
  moreover have "db_inv db" by (rule new_db_inv [OF assms(1) n(2)])
  ultimately have "storage_node_inv E s1" using n(4-6) by (simp add: storage_node_inv_def storage_fetch_inv_new)
  then show ?thesis
    using n(3) by (auto simp: storage_load_local_db_def storage_node_inv_def storage_set_key_run_def option_bind_Some_iff Let_def
        option_case_eq_iff intro: inv_intros db_put_cf_abs(2))
qed

text \<open>C4: The storage node keeps its chain together. Starting from construction and through any events
  it handles (requests of peers, committed items and snapshots, catch-up timeouts), the parts it
  counts are parts of the current block, the block stored last is the one before the current one, the
  catch-up state and the tables of the database are well formed, and every snapshot it gives to RAFT
  is of such a state. Relied on: the consensus state can be read back from its serialisation, and the
  snapshots RAFT hands over were given to it by such nodes.\<close>

theorem storage_node_chain:
  assumes "StorageNode_new E config node old_db = Some (Inr s)" and "\<forall>old. old_db = Some old \<longrightarrow> db_inv old"
    and "cons_codec_ok E" and "\<forall>(now, token, ev) \<in> set evs. genuine_event E ev"
    and "storage_handle_events E evs s = Some t"
  shows "storage_node_inv E t"
proof -
  have "storage_node_inv E s" by (rule StorageNode_new_inv [OF assms(2,1)])
  then show ?thesis
    using assms(4,5)
  proof (induction evs arbitrary: s)
    case (Cons e evs)
    obtain now token ev where e: "e = (now, token, ev)" by (cases e) auto
    obtain s1 r where "storage_handle_next_event E now token ev s = Some (s1, r)" "storage_handle_events E evs s1 = Some t"
      using Cons.prems(3) e by (auto simp: option_bind_Some_iff)
    then show ?case using Cons.IH [of s1] next_event_inv [OF Cons.prems(1) assms(3)] Cons.prems(2) e by auto
  qed simp
qed

text \<open>C9: A committed block is stored under the current number. When a committed part completes a
  block, the node stores the block that has the quorum, whose number is the current one, moves on to
  the next number with no parts, records the stored block as its last one, stops processing commits
  when the block carries the shutdown, and its database then gives this block as the last block.\<close>

theorem committed_block_stored:
  assumes "storage_node_inv E s" and "cons_codec_ok E" and "storage_codec_ok E"
    and "storage_received_commit (sraft E) commit (node_raft s) = Some (raft, Some StorageBlock)"
    and "handle_committed_data E now commit s = Some (s', r)" and "genuine_event E (EventCommit commit)"
  shows "\<exists>c blk info. generate_complete_block (s_consensused raft) = Some (c, blk) \<and>
    r = Some (respond True ''Block complete stored'') \<and>
    b_num (header (common_block (complete_common blk))) = s_current_block_num (s_consensused (node_raft s)) \<and>
    storage_get_last_block_stored (node_raft s') = Some info \<and>
    block_num info = s_current_block_num (s_consensused (node_raft s)) \<and>
    s_current_block_num (s_consensused (node_raft s')) = s_current_block_num (s_consensused (node_raft s)) + 1 \<and>
    current_block_completed_parts (s_consensused (node_raft s')) = fmempty \<and>
    (mined_shutdown (complete_extra_info blk) \<longrightarrow> is_shutdown_commit_processed (node_raft s')) \<and>
    (block_keys_ok (common_block (complete_common blk)) (block_hash info) \<longrightarrow>
      (\<exists>item n. get_stored_value_from_db E (sn_db s') (as_bytes LAST_BLOCK_HASH_KEY) = Some (Some item) \<and>
         item_meta item = BlockMeta (block_num info) n \<and> item_key item = as_bytes (block_hash info) \<and>
         Some (item_data item) = block_serialize E (common_block (complete_common blk))))"
proof -
  have ch: "chain_inv (s_consensused raft)" and cur: "s_current_block_num (s_consensused raft) = s_current_block_num (s_consensused (node_raft s))"
    using received_commit_chain [OF _ assms(2,6,4)] assms(1) by (auto simp: storage_node_inv_def)
  obtain resp where b: "handle_committed_block E (s\<lparr>node_raft := raft\<rparr>) = Some (s', resp)" and r: "r = Some resp"
    using assms(4,5) by (auto simp: handle_committed_data_def Let_def option_bind_Some_iff)
  from b show ?thesis
  proof (cases rule: handle_committed_block_steps)
    case (1 c blk db info)
    have gen: "generate_complete_block (s_consensused raft) = Some (c, blk)" using 1(1) by simp
    have g: "b_num (header (common_block (complete_common blk))) = s_current_block_num (s_consensused (node_raft s))"
      "s_current_block_num c = s_current_block_num (s_consensused (node_raft s)) + 1" "current_block_completed_parts c = fmempty"
      using generate_complete_chain [OF ch gen] unfolding cur by blast+
    have i: "db_inv (sn_db s)" using assms(1) by (simp add: storage_node_inv_def)
    note st = 1(2) [simplified]
    have n: "block_num info = s_current_block_num (s_consensused (node_raft s))"
      "stored_shutdown info = mined_shutdown (complete_extra_info blk)"
      using store_complete_info [OF i st] g(1) by simp_all
    have "\<exists>item n. get_stored_value_from_db E (sn_db s') (as_bytes LAST_BLOCK_HASH_KEY) = Some (Some item) \<and>
         item_meta item = BlockMeta (block_num info) n \<and> item_key item = as_bytes (block_hash info) \<and>
         Some (item_data item) = block_serialize E (common_block (complete_common blk))"
      if "block_keys_ok (common_block (complete_common blk)) (block_hash info)"
      using last_block_readable [OF i st assms(3) that] n(1) g(1) 1(3) by auto
    then show ?thesis
      using gen 1(4,6,8) g n r
      by (intro exI [of _ c] exI [of _ blk] exI [of _ info] conjI) (simp_all add: storage_get_last_block_stored_def)
  qed
qed

section \<open>Witnesses\<close>

text \<open>A single storage node without RAFT, and the commit of the block of the earlier example.\<close>

definition demo_stored_info :: BlockStoredInfo where
  "demo_stored_info =
     \<lparr>block_hash = ''b00'', block_num = 0, stored_nonce = [1],
      mining_transactions = fmupd ''m'' demo_block_tx fmempty, stored_shutdown = False\<rparr>"

definition demo_consensused :: StorageConsensused where
  "demo_consensused =
     \<lparr>s_sufficient_majority = 1, s_current_block_num = 1, current_block_completed_parts = fmempty,
      s_last_committed_raft_idx_and_term = (3, 1), last_block_stored = Some demo_stored_info\<rparr>"

definition demo_chain_ext :: storage_ext where
  "demo_chain_ext = demo_storage_ext\<lparr>sraft :=
     \<lparr>s_codec = \<lparr>item_serialize = (\<lambda>_. Some [1]),
        item_deserialize = (\<lambda>_. Some (PartBlock \<lparr>received_peer = V4 7 1,
           received_common = complete_common demo_complete, received_per_node = \<lparr>mined_shutdown = False\<rparr>\<rparr>)),
        key_serialize = (\<lambda>_. Some [2]),
        key_deserialize = (\<lambda>_. Some \<lparr>key_proposer_id = 1, proposer_run = 0, proposal_id = 1\<rparr>), codec_digest = id\<rparr>,
      s_cons_serialize = (\<lambda>c. if c = demo_consensused then Some [7] else None),
      s_cons_deserialize = (\<lambda>d. if d = [7] then Some demo_consensused else None),
      common_serialize = (\<lambda>c. Some [ucast (b_num (header (common_block c)))]), common_digest = id\<rparr>\<rparr>"

definition demo_storage_config :: StorageNodeConfig where
  "demo_storage_config = \<lparr>storage_node_idx = 0, storage_nodes_config = [V4 1 1], storage_compute_nodes = [V4 1 2],
     storage_raft = 0, storage_catchup_duration = 1, storage_backup_block_modulo = None\<rparr>"

definition demo_commit :: RaftCommit where
  "demo_commit = \<lparr>commit_term = 1, commit_index = 3, commit_data = Proposed [1] [2]\<rparr>"

definition demo_start :: StorageNode where
  "demo_start = projr (the (StorageNode_new demo_chain_ext demo_storage_config (Node_new_with_version (V4 1 1) 9 Storage 5) None))"

lemma demo_started:
  "StorageNode_new demo_chain_ext demo_storage_config (Node_new_with_version (V4 1 1) 9 Storage 5) None = Some (Inr demo_start)"
proof -
  let ?n = "StorageNode_new demo_chain_ext demo_storage_config (Node_new_with_version (V4 1 1) 9 Storage 5) None"
  have "map_option isl ?n = Some False" by code_simp
  then show ?thesis unfolding demo_start_def by (cases ?n; cases "the ?n") auto
qed

lemma demo_committed:
  "map_option snd (storage_received_commit (sraft demo_chain_ext) demo_commit (node_raft demo_start)) = Some (Some StorageBlock)"
  "\<not> Option.is_none (handle_committed_data demo_chain_ext 0 demo_commit demo_start)"
  by code_simp+

lemma demo_cons_codec: "cons_codec_ok demo_chain_ext"
  by (simp add: cons_codec_ok_def demo_chain_ext_def)

lemma demo_chain_codec: "storage_codec_ok demo_chain_ext"
  using demo_codec_ok by (simp add: storage_codec_ok_def demo_chain_ext_def)

lemma demo_genuine: "genuine_event demo_chain_ext (EventCommit demo_commit)"
  by (simp add: demo_commit_def)

theorem storage_node_chain_witness:
  "\<exists>t. storage_handle_events demo_chain_ext [(0, 0, EventCommit demo_commit)] demo_start = Some t \<and>
     storage_node_inv demo_chain_ext t \<and> s_current_block_num (s_consensused (node_raft t)) = 1"
proof -
  have "map_option (\<lambda>s. s_current_block_num (s_consensused (node_raft s)))
      (storage_handle_events demo_chain_ext [(0, 0, EventCommit demo_commit)] demo_start) = Some 1" by code_simp
  then obtain t where t: "storage_handle_events demo_chain_ext [(0, 0, EventCommit demo_commit)] demo_start = Some t"
    "s_current_block_num (s_consensused (node_raft t)) = 1" by blast
  have "storage_node_inv demo_chain_ext t"
    by (rule storage_node_chain [OF demo_started _ demo_cons_codec _ t(1)]) (simp_all add: demo_commit_def)
  then show ?thesis using t by blast
qed

theorem committed_block_stored_witness:
  "\<exists>s' r info. handle_committed_data demo_chain_ext 0 demo_commit demo_start = Some (s', r) \<and>
     storage_get_last_block_stored (node_raft s') = Some info \<and> block_num info = 0 \<and>
     s_current_block_num (s_consensused (node_raft s')) = 1 \<and> r = Some (respond True ''Block complete stored'')"
proof -
  have i: "storage_node_inv demo_chain_ext demo_start" by (rule StorageNode_new_inv [OF _ demo_started]) simp
  obtain raft where c: "storage_received_commit (sraft demo_chain_ext) demo_commit (node_raft demo_start) = Some (raft, Some StorageBlock)"
    using demo_committed(1) by auto
  obtain s' r where h: "handle_committed_data demo_chain_ext 0 demo_commit demo_start = Some (s', r)"
    using demo_committed(2) by (auto simp: Option.is_none_def)
  have "s_current_block_num (s_consensused (node_raft demo_start)) = 0" by code_simp
  then show ?thesis
    using committed_block_stored [OF i demo_cons_codec demo_chain_codec c h demo_genuine] h by auto
qed

end
