(* ===== verification/Fund_Store.thy ===== *)
theory Fund_Store
  imports Interfaces
begin

text \<open>
  The funds of a wallet (\<^verbatim>\<open>src/wallet/fund_store.rs\<close>): the unspent outpoints with their assets,
  the running total, the spent outpoints, and the pages in which the unspent ones are listed. The
  arithmetic of \<open>AssetValues\<close> is third-party code: \<open>fund_ext\<close> has its functions and
  \<open>asset_arith_ok\<close> what is relied on.
\<close>

section \<open>Model\<close>

record fund_ext = naom_ext +
  update_sub :: "AssetValues \<Rightarrow> Asset \<Rightarrow> AssetValues"

type_synonym LockedCoinbase = "(string, u64) fmap option"

record FundStore =
  running_total :: AssetValues
  fs_transactions :: "(OutPoint, Asset) fmap"
  transaction_pages :: "(OutPoint, Asset) fmap list"
  spent_transactions :: "(OutPoint, Asset) fmap"

definition ENTRIES_PER_PAGE :: nat where
  "ENTRIES_PER_PAGE = 25"

definition FundStore_new ::
    "AssetValues \<Rightarrow> (OutPoint, Asset) fmap \<Rightarrow> (OutPoint, Asset) fmap list \<Rightarrow> (OutPoint, Asset) fmap \<Rightarrow> FundStore" where
  "FundStore_new amounts txs pages spent =
     \<lparr>running_total = amounts, fs_transactions = txs,
      transaction_pages = (if pages = [] then [fmempty] else pages), spent_transactions = spent\<rparr>"

text \<open>The loop over the keys of the transactions.\<close>

fun filter_locked_loop ::
    "fund_ext \<Rightarrow> (string, u64) fmap \<Rightarrow> OutPoint list \<Rightarrow> u64 option \<Rightarrow> FundStore \<Rightarrow> FundStore \<times> u64 option" where
  "filter_locked_loop N locked [] n_locked self = (self, n_locked)"
| "filter_locked_loop N locked (out_p # rest) n_locked self =
     (if fmlookup locked (t_hash out_p) \<noteq> None
      then case fmlookup (fs_transactions self) out_p of
          Some asset_locked \<Rightarrow>
            filter_locked_loop N locked rest
              (Some ((case n_locked of None \<Rightarrow> 0 | Some n \<Rightarrow> n) + 1))
              (self\<lparr>fs_transactions := fmdrop out_p (fs_transactions self),
                    running_total := update_sub N (running_total self) asset_locked\<rparr>)
        | None \<Rightarrow> filter_locked_loop N locked rest n_locked self
      else filter_locked_loop N locked rest n_locked self)"

definition filter_locked_coinbase :: "fund_ext \<Rightarrow> LockedCoinbase \<Rightarrow> FundStore \<Rightarrow> FundStore \<times> u64 option" where
  "filter_locked_coinbase N locked_coinbase self =
     (case locked_coinbase of
        Some locked \<Rightarrow> filter_locked_loop N locked (fmkeys (fs_transactions self)) None self
      | None \<Rightarrow> (self, None))"

text \<open>\<open>transaction_pages\<close> as a method; without pages \<open>first().unwrap()\<close> panics.\<close>

definition get_transaction_page :: "nat \<Rightarrow> FundStore \<Rightarrow> (OutPoint, Asset) fmap may_panic" where
  "get_transaction_page page self =
     (let pages = transaction_pages self in
      if page < length pages then Some (pages ! page)
      else if length pages < page \<and> pages \<noteq> [] then Some (last pages)
      else if pages \<noteq> [] then Some (hd pages)
      else None)"

definition transaction_pages_len :: "FundStore \<Rightarrow> nat" where
  "transaction_pages_len self = length (transaction_pages self)"

definition add_transaction_pages :: "FundStore \<Rightarrow> FundStore" where
  "add_transaction_pages self = self\<lparr>transaction_pages := transaction_pages self @ [fmempty]\<rparr>"

definition remove_spent_transactions :: "FundStore \<Rightarrow> FundStore \<times> (OutPoint, Asset) fmap" where
  "remove_spent_transactions self = (self\<lparr>spent_transactions := fmempty\<rparr>, spent_transactions self)"

definition store_tx :: "fund_ext \<Rightarrow> OutPoint \<Rightarrow> Asset \<Rightarrow> FundStore \<Rightarrow> FundStore may_panic" where
  "store_tx N out_p amount self =
     (let asset_to_save = with_fixed_hash N amount out_p;
          self = (if transaction_pages self = [] \<or> fmlen (last (transaction_pages self)) = ENTRIES_PER_PAGE
                  then add_transaction_pages self else self);
          old = fmlookup (fs_transactions self) out_p;
          self = self\<lparr>fs_transactions := fmupd out_p asset_to_save (fs_transactions self)\<rparr>
      in case old of
          Some old_amount \<Rightarrow> if old_amount \<noteq> amount then None else Some self
        | None \<Rightarrow>
            let pages = transaction_pages self in
            Some (self\<lparr>transaction_pages :=
                         (if pages = [] then pages
                          else pages[length pages - 1 := fmupd out_p asset_to_save (last pages)]),
                       running_total := update_add N (running_total self) asset_to_save\<rparr>))"

text \<open>
  The loop of \<open>spend_tx\<close> over the indices that the pages had at its start. Removing a page moves the
  next one to the current index, which is not visited again.
\<close>

fun spend_pages :: "OutPoint \<Rightarrow> nat list \<Rightarrow> (OutPoint, Asset) fmap list \<Rightarrow> (OutPoint, Asset) fmap list" where
  "spend_pages out_p [] pages = pages"
| "spend_pages out_p (i # rest) pages =
     spend_pages out_p rest
       (if i < length pages
        then let page = fmdrop out_p (pages ! i)
             in if page = fmempty \<and> i \<noteq> 0 then take i pages @ drop (Suc i) pages else pages[i := page]
        else pages)"

definition spend_tx :: "fund_ext \<Rightarrow> OutPoint \<Rightarrow> FundStore \<Rightarrow> FundStore may_panic" where
  "spend_tx N out_p self =
     (case fmlookup (fs_transactions self) out_p of
        None \<Rightarrow> Some self
      | Some amount \<Rightarrow>
          let self = self\<lparr>fs_transactions := fmdrop out_p (fs_transactions self),
                transaction_pages :=
                  spend_pages out_p [0..<length (transaction_pages self)] (transaction_pages self),
                running_total := update_sub N (running_total self) amount\<rparr>
          in if fmlookup (spent_transactions self) out_p \<noteq> None then None
             else Some (self\<lparr>spent_transactions := fmupd out_p amount (spent_transactions self)\<rparr>))"

section \<open>The running total\<close>

text \<open>The amount of a token (\<open>None\<close>) or of a receipt (by its hash) in a total and in an asset.\<close>

fun asset_total :: "AssetValues \<Rightarrow> string option \<Rightarrow> nat" where
  "asset_total t None = unat (tokens t)"
| "asset_total t (Some h) = (case fmlookup (receipts t) h of None \<Rightarrow> 0 | Some n \<Rightarrow> unat n)"

fun asset_amount :: "string option \<Rightarrow> Asset \<Rightarrow> nat" where
  "asset_amount k (Token n) = (if k = None then unat n else 0)"
| "asset_amount k (Receipt r) = (if k \<noteq> None \<and> k = drs_tx_hash r then unat (receipt_amount r) else 0)"
| "asset_amount k (Data d) = 0"

fun fixed_asset :: "Asset \<Rightarrow> bool" where
  "fixed_asset (Receipt r) \<longleftrightarrow> drs_tx_hash r \<noteq> None"
| "fixed_asset _ \<longleftrightarrow> True"

text \<open>
  What is relied on: fixing the hash gives a receipt its hash and leaves a receipt that has one; adding an asset adds its amount when
  that fits into 64 bits; subtracting one takes its amount away when it is there.
\<close>

definition asset_arith_ok :: "fund_ext \<Rightarrow> bool" where
  "asset_arith_ok N \<longleftrightarrow>
     (\<forall>a out_p. fixed_asset (with_fixed_hash N a out_p)) \<and>
     (\<forall>a out_p. fixed_asset a \<longrightarrow> with_fixed_hash N a out_p = a) \<and>
     (\<forall>t a. fixed_asset a \<longrightarrow> (\<forall>k. asset_total t k + asset_amount k a < 2 ^ 64) \<longrightarrow>
        (\<forall>k. asset_total (update_add N t a) k = asset_total t k + asset_amount k a)) \<and>
     (\<forall>t a. fixed_asset a \<longrightarrow> (\<forall>k. asset_amount k a \<le> asset_total t k) \<longrightarrow>
        (\<forall>k. asset_total (update_sub N t a) k = asset_total t k - asset_amount k a))"

definition balanced :: "FundStore \<Rightarrow> bool" where
  "balanced s \<longleftrightarrow>
     (\<forall>k. asset_total (running_total s) k = fmweight (asset_amount k) (fs_transactions s)) \<and>
     (\<forall>op a. fmlookup (fs_transactions s) op = Some a \<longrightarrow> fixed_asset a)"

lemma balanced_remove:
  assumes "asset_arith_ok N" and "balanced s" and "fmlookup (fs_transactions s) op = Some a"
    and "fs_transactions t = fmdrop op (fs_transactions s)" and "running_total t = update_sub N (running_total s) a"
  shows "balanced t"
proof -
  have w: "fmweight (asset_amount k) (fs_transactions s) = asset_amount k a + fmweight (asset_amount k) (fs_transactions t)" for k
    using fmweight_fmdrop [OF assms(3)] assms(4) by simp
  have f: "fixed_asset a" "\<forall>k. asset_amount k a \<le> asset_total (running_total s) k"
    using assms(2,3) w by (auto simp: balanced_def)
  then have "asset_total (running_total t) k = asset_total (running_total s) k - asset_amount k a" for k
    using assms(1,5) by (simp add: asset_arith_ok_def)
  then show ?thesis using assms(2,4) w by (auto simp: balanced_def split: if_splits)
qed

lemma balanced_add:
  assumes "asset_arith_ok N" and "balanced s" and "fmlookup (fs_transactions s) op = None"
    and "a = with_fixed_hash N b op" and "\<forall>k. asset_total (running_total s) k + asset_amount k a < 2 ^ 64"
    and "fs_transactions t = fmupd op a (fs_transactions s)" and "running_total t = update_add N (running_total s) a"
  shows "balanced t"
proof -
  have f: "fixed_asset a" using assms(1,4) by (simp add: asset_arith_ok_def)
  have "asset_total (running_total t) k = asset_total (running_total s) k + asset_amount k a" for k
    using assms(1,5,7) f by (simp add: asset_arith_ok_def)
  moreover have "fmweight (asset_amount k) (fs_transactions t) = asset_amount k a + fmweight (asset_amount k) (fs_transactions s)" for k
    using assms(3,6) by (simp add: fmweight_fmupd_fresh)
  ultimately show ?thesis using assms(2,6) f by (auto simp: balanced_def split: if_splits)
qed

text \<open>Storing and spending keep the total; so does taking out the locked coinbase.\<close>

lemma balanced_pages [simp]:
  "balanced (s\<lparr>transaction_pages := p\<rparr>) = balanced s" "balanced (s\<lparr>spent_transactions := q\<rparr>) = balanced s"
  by (simp_all add: balanced_def)

lemma store_tx_cases:
  assumes "store_tx N op a s = Some t"
  shows "(fmlookup (fs_transactions s) op = Some a \<and> running_total t = running_total s \<or>
      fmlookup (fs_transactions s) op = None \<and> running_total t = update_add N (running_total s) (with_fixed_hash N a op)) \<and>
    fs_transactions t = fmupd op (with_fixed_hash N a op) (fs_transactions s) \<and> spent_transactions t = spent_transactions s"
  using assms by (auto simp: store_tx_def add_transaction_pages_def Let_def split: option.splits if_splits)

lemma fmupd_same: "fmlookup m k = Some v \<Longrightarrow> fmupd k v m = m"
  by (rule fmap_ext) auto

lemma store_tx_balanced:
  assumes "asset_arith_ok N" and "balanced s" and "store_tx N op a s = Some t"
    and "\<forall>k. asset_total (running_total s) k + asset_amount k (with_fixed_hash N a op) < 2 ^ 64"
  shows "balanced t"
proof (cases "fmlookup (fs_transactions s) op")
  case None
  then show ?thesis using balanced_add [OF assms(1,2) None refl assms(4)] store_tx_cases [OF assms(3)] by auto
next
  case (Some b)
  then have "fixed_asset a" using assms(2) store_tx_cases [OF assms(3)] by (auto simp: balanced_def)
  then have "with_fixed_hash N a op = a" using assms(1) by (simp add: asset_arith_ok_def)
  then have "fs_transactions t = fs_transactions s" "running_total t = running_total s"
    using Some store_tx_cases [OF assms(3)] by (auto simp: fmupd_same)
  then show ?thesis using assms(2) by (simp add: balanced_def)
qed

lemma spend_tx_balanced:
  assumes "asset_arith_ok N" and "balanced s" and "spend_tx N op s = Some t"
  shows "balanced t"
proof (cases "fmlookup (fs_transactions s) op")
  case None
  then show ?thesis using assms(2,3) by (simp add: spend_tx_def)
next
  case (Some a)
  then have "fs_transactions t = fmdrop op (fs_transactions s)" "running_total t = update_sub N (running_total s) a"
    using assms(3) by (auto simp: spend_tx_def Let_def split: if_splits)
  then show ?thesis by (rule balanced_remove [OF assms(1,2) Some])
qed

lemma filter_locked_loop_exact:
  assumes "asset_arith_ok N" and "balanced s" and "filter_locked_loop N locked ops n s = (t, m)"
    and "distinct ops" and "set ops \<subseteq> fset (fmdom (fs_transactions s))"
  shows "balanced t \<and> transaction_pages t = transaction_pages s \<and> spent_transactions t = spent_transactions s \<and>
    fs_transactions t = fmfilter (\<lambda>op. \<not> (op \<in> set ops \<and> fmlookup locked (t_hash op) \<noteq> None)) (fs_transactions s) \<and>
    (let c = length (filter (\<lambda>op. fmlookup locked (t_hash op) \<noteq> None) ops) in
     m = (if c = 0 then n else Some ((case n of None \<Rightarrow> 0 | Some i \<Rightarrow> i) + of_nat c)))"
  using assms(2-5)
proof (induction ops arbitrary: n s)
  case Nil
  then show ?case by (auto intro: fmap_ext)
next
  case (Cons op ops)
  obtain a where a: "fmlookup (fs_transactions s) op = Some a" using Cons.prems(4) by auto
  show ?case
  proof (cases "fmlookup locked (t_hash op)")
    case None
    have "fmfilter (\<lambda>x. \<not> (x \<in> set (op # ops) \<and> fmlookup locked (t_hash x) \<noteq> None)) (fs_transactions s) =
        fmfilter (\<lambda>x. \<not> (x \<in> set ops \<and> fmlookup locked (t_hash x) \<noteq> None)) (fs_transactions s)"
      using None by (intro fmap_ext) auto
    then show ?thesis using Cons.IH [of s n] Cons.prems None by simp
  next
    case (Some l)
    let ?s = "s\<lparr>fs_transactions := fmdrop op (fs_transactions s), running_total := update_sub N (running_total s) a\<rparr>"
    let ?n = "case n of None \<Rightarrow> 0 | Some i \<Rightarrow> i"
    have b: "balanced ?s" by (rule balanced_remove [OF assms(1) Cons.prems(1) a]) simp_all
    have fl: "fmfilter (\<lambda>x. \<not> (x \<in> set (op # ops) \<and> fmlookup locked (t_hash x) \<noteq> None)) (fs_transactions s) =
        fmfilter (\<lambda>x. \<not> (x \<in> set ops \<and> fmlookup locked (t_hash x) \<noteq> None)) (fmdrop op (fs_transactions s))"
      using Some by (intro fmap_ext) auto
    have "filter_locked_loop N locked ops (Some (?n + 1)) ?s = (t, m)" using Cons.prems(2) a Some by simp
    then have "balanced t \<and> transaction_pages t = transaction_pages ?s \<and> spent_transactions t = spent_transactions ?s \<and>
      fs_transactions t = fmfilter (\<lambda>op. \<not> (op \<in> set ops \<and> fmlookup locked (t_hash op) \<noteq> None)) (fs_transactions ?s) \<and>
      (let c = length (filter (\<lambda>op. fmlookup locked (t_hash op) \<noteq> None) ops) in
        m = (if c = 0 then Some (?n + 1) else Some ((case Some (?n + 1) of None \<Rightarrow> 0 | Some i \<Rightarrow> i) + of_nat c)))"
      using Cons.prems(3,4) by (intro Cons.IH [OF b]) auto
    moreover have "fs_transactions ?s = fmdrop op (fs_transactions s)" by simp
    ultimately show ?thesis unfolding fl using Some by (simp only:) (simp add: Let_def)
  qed
qed

section \<open>The pages\<close>

text \<open>
  The pages list every unspent outpoint exactly once, none has more than the allowed entries, and
  only the first and the last page can be empty.
\<close>

definition page_disjoint :: "(OutPoint, Asset) fmap \<Rightarrow> (OutPoint, Asset) fmap \<Rightarrow> bool" where
  "page_disjoint p q \<longleftrightarrow> (\<forall>op. fmlookup p op = None \<or> fmlookup q op = None)"

definition on_pages :: "(OutPoint, Asset) fmap list \<Rightarrow> OutPoint \<Rightarrow> Asset \<Rightarrow> bool" where
  "on_pages ps op a \<longleftrightarrow> (\<exists>p \<in> set ps. fmlookup p op = Some a)"

lemma on_pages_simps [simp]:
  "\<not> on_pages [] op a" "on_pages (p # ps) op a \<longleftrightarrow> fmlookup p op = Some a \<or> on_pages ps op a"
  "on_pages (ps @ qs) op a \<longleftrightarrow> on_pages ps op a \<or> on_pages qs op a"
  by (auto simp: on_pages_def)

definition pages_ok :: "(OutPoint, Asset) fmap list \<Rightarrow> (OutPoint, Asset) fmap \<Rightarrow> bool" where
  "pages_ok ps m \<longleftrightarrow>
     ps \<noteq> [] \<and> (\<forall>p \<in> set ps. fmlen p \<le> ENTRIES_PER_PAGE) \<and> sorted_wrt page_disjoint ps \<and>
     (\<forall>op a. fmlookup m op = Some a \<longleftrightarrow> on_pages ps op a) \<and> fmempty \<notin> set (butlast (tl ps))"

text \<open>What the loop of \<open>spend_tx\<close> does to the pages after the first one.\<close>

fun drop_pages :: "OutPoint \<Rightarrow> (OutPoint, Asset) fmap list \<Rightarrow> (OutPoint, Asset) fmap list" where
  "drop_pages op [] = []"
| "drop_pages op (p # ps) =
     (if fmdrop op p = fmempty then (case ps of [] \<Rightarrow> [] | q # qs \<Rightarrow> q # drop_pages op qs)
      else fmdrop op p # drop_pages op ps)"

lemma spend_pages_beyond: "\<forall>i \<in> set is. length ps \<le> i \<Longrightarrow> spend_pages op is ps = ps"
  by (induction "is") auto

lemma spend_pages_drop:
  "xs \<noteq> [] \<Longrightarrow> spend_pages op [length xs..<length xs + length ys + n] (xs @ ys) = xs @ drop_pages op ys"
proof (induction op ys arbitrary: xs n rule: drop_pages.induct)
  case (1 op)
  then show ?case by (simp add: spend_pages_beyond)
next
  case (2 op p ps)
  have r: "[length xs..<length xs + length (p # ps) + n] = length xs # [Suc (length xs)..<length xs + length (p # ps) + n]"
    by (rule upt_conv_Cons) simp
  show ?case
  proof (cases "fmdrop op p = fmempty")
    case True
    show ?thesis
    proof (cases ps)
      case Nil
      then show ?thesis using True 2(3) by (simp add: upt_conv_Cons spend_pages_beyond del: upt_Suc)
    next
      case (Cons q qs)
      have "spend_pages op [length (xs @ [q])..<length (xs @ [q]) + length qs + Suc n] ((xs @ [q]) @ qs) =
          (xs @ [q]) @ drop_pages op qs"
        using 2(1) [OF True Cons] by blast
      then show ?thesis using True 2(3) Cons unfolding r by simp
    qed
  next
    case False
    have "spend_pages op [length (xs @ [fmdrop op p])..<length (xs @ [fmdrop op p]) + length ps + n] ((xs @ [fmdrop op p]) @ ps) =
        (xs @ [fmdrop op p]) @ drop_pages op ps"
      using 2(2) [OF False] by blast
    then show ?thesis using False 2(3) unfolding r by simp
  qed
qed

lemma spend_pages_eq: "ps \<noteq> [] \<Longrightarrow> spend_pages op [0..<length ps] ps = fmdrop op (hd ps) # drop_pages op (tl ps)"
  using spend_pages_drop [of "[fmdrop op (hd ps)]" op "tl ps" 0]
  by (cases ps) (simp_all add: upt_conv_Cons del: upt_Suc)

lemma fmdrop_empty_lookup: "fmdrop op p = fmempty \<Longrightarrow> x \<noteq> op \<Longrightarrow> fmlookup p x = None"
  by (metis fmempty_lookup fmlookup_drop)

lemma drop_pages_other: "x \<noteq> op \<Longrightarrow> on_pages (drop_pages op ps) x a \<longleftrightarrow> on_pages ps x a"
  by (induction op ps rule: drop_pages.induct) (auto simp: fmdrop_empty_lookup split: list.splits)

lemma drop_pages_part:
  "q \<in> set (drop_pages op ps) \<Longrightarrow> \<exists>p \<in> set ps. fmdom q |\<subseteq>| fmdom p \<and> (\<forall>x a. fmlookup q x = Some a \<longrightarrow> fmlookup p x = Some a)"
proof (induction op ps rule: drop_pages.induct)
  case (2 op p ps)
  show ?case
  proof (cases "fmdrop op p = fmempty")
    case True
    then show ?thesis using 2 by (cases ps) auto
  next
    case False
    then show ?thesis using 2 by (auto split: if_splits)
  qed
qed simp

lemma disjoint_part:
  "page_disjoint r p \<Longrightarrow> (\<forall>x a. fmlookup q x = Some a \<longrightarrow> fmlookup p x = Some a) \<Longrightarrow> page_disjoint r q"
  unfolding page_disjoint_def by (metis option.exhaust)

lemma drop_pages_disjoint:
  "sorted_wrt page_disjoint ps \<Longrightarrow> sorted_wrt page_disjoint (drop_pages op ps)"
proof (induction op ps rule: drop_pages.induct)
  case (2 op p ps)
  have part: "page_disjoint r q" if "q \<in> set (drop_pages op qs)" "\<forall>q \<in> set qs. page_disjoint r q" for r q qs
    using drop_pages_part [OF that(1)] that(2) disjoint_part [of r _ q] by blast
  show ?case
  proof (cases "fmdrop op p = fmempty")
    case True
    then show ?thesis using 2 part by (cases ps) auto
  next
    case False
    have "page_disjoint (fmdrop op p) q" if "q \<in> set (drop_pages op ps)" for q
      using part [OF that, of p] 2(3) by (auto simp: page_disjoint_def)
    then show ?thesis using False 2 by simp
  qed
qed simp

lemma drop_pages_removes:
  "sorted_wrt page_disjoint ps \<Longrightarrow> fmempty \<notin> set (butlast ps) \<Longrightarrow> \<not> on_pages (drop_pages op ps) op a"
proof (induction op ps rule: drop_pages.induct)
  case (2 op p ps)
  show ?case
  proof (cases "fmdrop op p = fmempty")
    case True
    show ?thesis
    proof (cases ps)
      case (Cons q qs)
      then have "p \<noteq> fmempty" using 2(4) by auto
      moreover have "p = fmempty" if "fmlookup p op = None"
        using fmdrop_empty_lookup [OF True] that by (intro fmap_ext) (metis fmempty_lookup)
      ultimately obtain b where b: "fmlookup p op = Some b" by blast
      have "\<forall>r \<in> set ps. fmlookup r op = None" using 2(3) b by (force simp: page_disjoint_def)
      then have none: "\<forall>r \<in> set qs. fmlookup r op = None" "fmlookup q op = None" using Cons by simp_all
      have "fmlookup r op \<noteq> Some a" if "r \<in> set (drop_pages op qs)" for r
        using drop_pages_part [OF that] none(1) by force
      then show ?thesis using True Cons none(2) by (simp add: on_pages_def)
    qed (use True in simp)
  next
    case False
    then show ?thesis using 2 by (cases ps) auto
  qed
qed simp

lemma drop_pages_nonempty: "fmempty \<notin> set (butlast ps) \<Longrightarrow> fmempty \<notin> set (butlast (drop_pages op ps))"
proof (induction op ps rule: drop_pages.induct)
  case (2 op p ps)
  show ?case
  proof (cases "fmdrop op p = fmempty")
    case True
    then show ?thesis using 2 by (cases ps; cases "tl ps") (auto split: if_splits)
  next
    case False
    then show ?thesis using 2 by (cases ps) (auto split: if_splits)
  qed
qed simp

lemma pages_ok_spend:
  assumes "pages_ok ps m" and "fmlookup m op = Some a"
  shows "pages_ok (spend_pages op [0..<length ps] ps) (fmdrop op m)"
proof -
  obtain p qs where ps: "ps = p # qs" using assms(1) by (cases ps) (auto simp: pages_ok_def)
  let ?r = "fmdrop op p # drop_pages op qs"
  have e: "spend_pages op [0..<length ps] ps = ?r" using spend_pages_eq [of ps op] ps by simp
  have d: "sorted_wrt page_disjoint qs" "\<forall>q \<in> set qs. page_disjoint p q" "fmempty \<notin> set (butlast qs)"
    using assms(1) ps by (simp_all add: pages_ok_def)
  have "page_disjoint (fmdrop op p) q" if "q \<in> set (drop_pages op qs)" for q
    using drop_pages_part [OF that] d(2) disjoint_part [of p _ q] by (fastforce simp: page_disjoint_def)
  then have "sorted_wrt page_disjoint ?r" using drop_pages_disjoint [OF d(1)] by simp
  moreover have "fmlen q \<le> ENTRIES_PER_PAGE" if q: "q \<in> set ?r" for q
  proof -
    consider "q = fmdrop op p" | "q \<in> set (drop_pages op qs)" using q by auto
    then have "\<exists>p' \<in> set ps. fmdom q |\<subseteq>| fmdom p'" using drop_pages_part [of q op qs] ps by cases auto
    then obtain p' where p': "p' \<in> set ps" "fmdom q |\<subseteq>| fmdom p'" by blast
    then have "fmlen q \<le> fmlen p'" unfolding fmlen_def by (intro fcard_mono)
    also have "\<dots> \<le> ENTRIES_PER_PAGE" using p'(1) assms(1) by (simp add: pages_ok_def)
    finally show ?thesis .
  qed
  moreover have "fmlookup (fmdrop op m) x = Some b \<longleftrightarrow> on_pages ?r x b" for x b
    using assms(1) ps drop_pages_removes [OF d(1,3), of op b] drop_pages_other [of x op qs b]
    by (cases "x = op") (auto simp: pages_ok_def)
  moreover have "fmempty \<notin> set (butlast (tl ?r))" using drop_pages_nonempty [OF d(3)] by simp
  ultimately show ?thesis unfolding e pages_ok_def by simp
qed

lemma pages_ok_new_page: "pages_ok ps m \<Longrightarrow> fmlen (last ps) = ENTRIES_PER_PAGE \<Longrightarrow> pages_ok (ps @ [fmempty]) m"
proof -
  assume p: "pages_ok ps m" and l: "fmlen (last ps) = ENTRIES_PER_PAGE"
  have "last ps \<noteq> fmempty" using l by (auto simp: ENTRIES_PER_PAGE_def)
  moreover have "set (tl ps) \<subseteq> set (butlast (tl ps)) \<union> {last ps}"
    using append_butlast_last_id [of "tl ps"] last_tl [of ps] by (cases "tl ps = []") (auto, metis Un_iff set_append set_ConsD empty_set empty_iff)
  ultimately have "fmempty \<notin> set (tl ps)" using p by (auto simp: pages_ok_def)
  then show ?thesis using p by (auto simp: pages_ok_def sorted_wrt_append page_disjoint_def butlast_append)
qed

lemma pages_ok_insert:
  assumes "pages_ok ps m" and "fmlookup m op = None" and "fmlen (last ps) < ENTRIES_PER_PAGE"
  shows "pages_ok (ps[length ps - 1 := fmupd op a (last ps)]) (fmupd op a m)"
proof -
  have ne: "ps \<noteq> []" using assms(1) by (simp add: pages_ok_def)
  define bs l where "bs = butlast ps" and "l = last ps"
  have ps: "ps = bs @ [l]" using ne by (simp add: bs_def l_def)
  have e: "ps[length ps - 1 := fmupd op a (last ps)] = bs @ [fmupd op a l]" unfolding ps by simp
  have free: "\<forall>p \<in> set bs. fmlookup p op = None" "fmlookup l op = None"
    using assms(1,2) unfolding ps pages_ok_def on_pages_def by force+
  have "\<forall>p \<in> set bs. page_disjoint p (fmupd op a l)"
    using assms(1) free(1) unfolding ps pages_ok_def by (auto simp: sorted_wrt_append page_disjoint_def)
  moreover have "fmlen (fmupd op a l) \<le> ENTRIES_PER_PAGE" using assms(3) l_def by (simp add: fmlen_fmupd)
  moreover have "fmlookup (fmupd op a m) x = Some b \<longleftrightarrow> on_pages (bs @ [fmupd op a l]) x b" for x b
    using assms(1) free unfolding ps pages_ok_def by (cases "x = op") (auto simp: on_pages_def)
  moreover have "butlast (tl (bs @ [fmupd op a l])) = butlast (tl ps)" unfolding ps by (cases bs) simp_all
  ultimately show ?thesis using assms(1) unfolding e unfolding ps by (auto simp: pages_ok_def sorted_wrt_append)
qed

section \<open>Reachable states\<close>

text \<open>
  The operations on a store that was created empty. An asset is only stored while the total of its
  kind fits into 64 bits.
\<close>

inductive fund_step :: "fund_ext \<Rightarrow> FundStore \<Rightarrow> FundStore \<Rightarrow> bool" for N where
  step_store: "store_tx N op a s = Some t \<Longrightarrow>
    \<forall>k. asset_total (running_total s) k + asset_amount k (with_fixed_hash N a op) < 2 ^ 64 \<Longrightarrow> fund_step N s t"
| step_spend: "spend_tx N op s = Some t \<Longrightarrow> fund_step N s t"
| step_spent: "fund_step N s (fst (remove_spent_transactions s))"

inductive fund_reachable :: "fund_ext \<Rightarrow> FundStore \<Rightarrow> bool" for N where
  reach_new: "fund_reachable N (FundStore_new \<lparr>tokens = 0, receipts = fmempty\<rparr> fmempty [] fmempty)"
| reach_step: "fund_reachable N s \<Longrightarrow> fund_step N s t \<Longrightarrow> fund_reachable N t"

lemma store_tx_pages:
  assumes "pages_ok (transaction_pages s) (fs_transactions s)" and "asset_arith_ok N" and "balanced s"
    and "store_tx N op a s = Some t"
  shows "pages_ok (transaction_pages t) (fs_transactions t)"
proof -
  define r where "r = (if transaction_pages s = [] \<or> fmlen (last (transaction_pages s)) = ENTRIES_PER_PAGE
    then add_transaction_pages s else s)"
  have r: "pages_ok (transaction_pages r) (fs_transactions r)" "fs_transactions r = fs_transactions s"
    using assms(1) pages_ok_new_page by (auto simp: r_def add_transaction_pages_def pages_ok_def)
  have ne: "transaction_pages r \<noteq> []" using r(1) by (simp add: pages_ok_def)
  have lt: "fmlen (last (transaction_pages r)) < ENTRIES_PER_PAGE"
    using assms(1) by (auto simp: r_def add_transaction_pages_def pages_ok_def ENTRIES_PER_PAGE_def order_less_le)
  show ?thesis
  proof (cases "fmlookup (fs_transactions s) op")
    case None
    then have "transaction_pages t = (transaction_pages r)[length (transaction_pages r) - 1 :=
        fmupd op (with_fixed_hash N a op) (last (transaction_pages r))]"
      "fs_transactions t = fmupd op (with_fixed_hash N a op) (fs_transactions r)"
      using assms(4) ne r(2) by (auto simp: store_tx_def r_def [symmetric] Let_def)
    then show ?thesis using pages_ok_insert [OF r(1) _ lt] None r(2) by simp
  next
    case (Some b)
    then have b: "b = a" "fixed_asset a" using assms(3) store_tx_cases [OF assms(4)] by (auto simp: balanced_def)
    then have "with_fixed_hash N a op = a" using assms(2) by (simp add: asset_arith_ok_def)
    then have "transaction_pages t = transaction_pages r" "fs_transactions t = fs_transactions r"
      using assms(4) Some b r(2) by (auto simp: store_tx_def r_def [symmetric] Let_def fmupd_same split: if_splits)
    then show ?thesis using r(1) by simp
  qed
qed

lemma spend_tx_pages:
  assumes "pages_ok (transaction_pages s) (fs_transactions s)" and "spend_tx N op s = Some t"
  shows "pages_ok (transaction_pages t) (fs_transactions t)"
  using assms pages_ok_spend by (auto simp: spend_tx_def Let_def split: option.splits if_splits)

lemma fund_reachable_inv:
  assumes "asset_arith_ok N" and "fund_reachable N s"
  shows "balanced s \<and> pages_ok (transaction_pages s) (fs_transactions s)"
  using assms(2)
proof (induction rule: fund_reachable.induct)
  case reach_new
  have "asset_total \<lparr>tokens = 0, receipts = fmempty\<rparr> k = 0" for k by (cases k) simp_all
  then show ?case by (simp add: FundStore_new_def balanced_def pages_ok_def)
next
  case (reach_step s t)
  from reach_step.hyps(2) show ?case
  proof (cases rule: fund_step.cases)
    case (step_store op a)
    then show ?thesis using reach_step.IH store_tx_balanced [OF assms(1)] store_tx_pages [OF _ assms(1)] by blast
  next
    case (step_spend op)
    then show ?thesis using reach_step.IH spend_tx_balanced [OF assms(1)] spend_tx_pages by blast
  next
    case step_spent
    then show ?thesis using reach_step.IH by (simp add: remove_spent_transactions_def)
  qed
qed

text \<open>C28: The books of a wallet balance. Whatever is stored, stored again or spent, the running total
  of tokens and of every kind of receipt is the sum over the unspent outpoints, and the pages list
  every unspent outpoint exactly once with its asset, at most the allowed number on each page.
  Relied on: the arithmetic of assets, as long as totals fit into 64 bits.\<close>

theorem fund_store_balanced:
  assumes "asset_arith_ok N" and "fund_reachable N s"
  shows "balanced s \<and> pages_ok (transaction_pages s) (fs_transactions s)"
  by (rule fund_reachable_inv [OF assms])

text \<open>Locked coinbase is taken out of the funds exactly. The outpoints whose transaction is locked
  leave the unspent ones, all others stay, their number is returned (nothing when there are none), and
  the running total is again the sum over what is left.\<close>

lemma filter_locked_coinbase_exact:
  assumes "asset_arith_ok N" and "balanced s" and "filter_locked_coinbase N (Some locked) s = (t, n)"
  shows "fs_transactions t = fmfilter (\<lambda>op. fmlookup locked (t_hash op) = None) (fs_transactions s) \<and>
    balanced t \<and> spent_transactions t = spent_transactions s \<and>
    (let c = length (filter (\<lambda>op. fmlookup locked (t_hash op) \<noteq> None) (fmkeys (fs_transactions s))) in
     n = (if c = 0 then None else Some (of_nat c)))"
proof -
  have k: "distinct (fmkeys (fs_transactions s))" "set (fmkeys (fs_transactions s)) = fset (fmdom (fs_transactions s))"
    by simp_all
  have "filter_locked_loop N locked (fmkeys (fs_transactions s)) None s = (t, n)"
    using assms(3) by (simp add: filter_locked_coinbase_def)
  note r = filter_locked_loop_exact [OF assms(1,2) this k(1)]
  have "fmfilter (\<lambda>op. \<not> (op \<in> set (fmkeys (fs_transactions s)) \<and> fmlookup locked (t_hash op) \<noteq> None)) (fs_transactions s) =
      fmfilter (\<lambda>op. fmlookup locked (t_hash op) = None) (fs_transactions s)"
    using k(2) by (intro fmap_ext) (auto simp: fmdom_notD)
  then show ?thesis using r k(2) by (simp add: Let_def)
qed

section \<open>Deviations\<close>

text \<open>
  Storing the same asset again panics when its hash was fixed: the stored asset is compared with the
  one given, whose hash is not fixed.
\<close>

lemma store_tx_again_panics:
  assumes "store_tx N op a s = Some t" and "with_fixed_hash N a op \<noteq> a"
  shows "store_tx N op a t = None"
  using store_tx_cases [OF assms(1)] assms(2) by (simp add: store_tx_def add_transaction_pages_def Let_def)

text \<open>The page right after the last one is answered with the first page, later ones with the last.\<close>

lemma page_after_last:
  assumes "transaction_pages s \<noteq> []"
  shows "get_transaction_page (transaction_pages_len s) s = Some (hd (transaction_pages s))"
    and "get_transaction_page (transaction_pages_len s + 1) s = Some (last (transaction_pages s))"
  using assms by (simp_all add: get_transaction_page_def transaction_pages_len_def)

text \<open>Taking out locked coinbase leaves it on the pages.\<close>

lemma filter_locked_keeps_pages: "transaction_pages (fst (filter_locked_coinbase N locked s)) = transaction_pages s"
proof -
  have "transaction_pages (fst (filter_locked_loop N l ops n s)) = transaction_pages s" for l ops n
    by (induction ops arbitrary: n s) (auto split: option.splits)
  then show ?thesis by (simp add: filter_locked_coinbase_def split: option.splits)
qed

section \<open>Witnesses\<close>

definition demo_funds :: fund_ext where
  "demo_funds =
     \<lparr>tx_outs_of = (\<lambda>_. []), inputs_of = (\<lambda>_. []),
      with_fixed_hash = (\<lambda>a op. case a of
          Receipt r \<Rightarrow> (case drs_tx_hash r of None \<Rightarrow> Receipt (r\<lparr>drs_tx_hash := Some (t_hash op)\<rparr>) | Some _ \<Rightarrow> a)
        | _ \<Rightarrow> a),
      update_add = (\<lambda>t a. case a of
          Token n \<Rightarrow> t\<lparr>tokens := tokens t + n\<rparr>
        | Receipt r \<Rightarrow> (case drs_tx_hash r of None \<Rightarrow> t
            | Some h \<Rightarrow> t\<lparr>receipts := fmentry 0 h (\<lambda>n. n + receipt_amount r) (receipts t)\<rparr>)
        | Data _ \<Rightarrow> t),
      token_amount = (\<lambda>a. case a of Token n \<Rightarrow> n | _ \<Rightarrow> 0), token_sum = (\<lambda>_. 0), token_add = (+), token_div = (\<lambda>_ _. None), TOTAL_TOKENS = 0,
      Block_new = \<lparr>header = \<lparr>header_version = 0, bits = 0, nonce_and_mining_tx_hash = ([], []), b_num = 0,
         seed_value = [], previous_hash = None, txs_merkle_root_and_hash = ([], [])\<rparr>, transactions = []\<rparr>,
       set_txs_merkle_root_and_hash = id,
      update_sub = (\<lambda>t a. case a of
          Token n \<Rightarrow> t\<lparr>tokens := tokens t - n\<rparr>
        | Receipt r \<Rightarrow> (case drs_tx_hash r of None \<Rightarrow> t
            | Some h \<Rightarrow> t\<lparr>receipts := fmentry 0 h (\<lambda>n. n - receipt_amount r) (receipts t)\<rparr>)
        | Data _ \<Rightarrow> t)\<rparr>"

lemma asset_total_cases: "(\<forall>k. P k) \<longleftrightarrow> P None \<and> (\<forall>h. P (Some h))"
  by (metis option.exhaust)

lemma unat_sub_small: "unat (b :: u64) \<le> unat a \<Longrightarrow> unat (a - b) = unat a - unat b"
  by (rule unat_sub) (simp add: word_le_nat_alt)

lemma unat_add_small: "unat (a :: u64) + unat b < 2 ^ 64 \<Longrightarrow> unat (a + b) = unat a + unat b"
  by (subst unat_word_ariths) simp

lemma demo_funds_ok: "asset_arith_ok demo_funds"
  unfolding asset_arith_ok_def
proof (intro conjI allI impI)
  fix a :: Asset and op show "fixed_asset (with_fixed_hash demo_funds a op)"
    by (cases a) (auto simp: demo_funds_def split: option.splits)
next
  fix a :: Asset and op assume "fixed_asset a" then show "with_fixed_hash demo_funds a op = a"
    by (cases a) (auto simp: demo_funds_def split: option.splits)
next
  fix t a k assume "fixed_asset a" "\<forall>k. asset_total t k + asset_amount k a < 2 ^ 64"
  then show "asset_total (update_add demo_funds t a) k = asset_total t k + asset_amount k a"
    by (cases a; cases k) (auto simp: demo_funds_def asset_total_cases unat_add_small split: option.splits if_splits)
next
  fix t a k assume "fixed_asset a" "\<forall>k. asset_amount k a \<le> asset_total t k"
  then show "asset_total (update_sub demo_funds t a) k = asset_total t k - asset_amount k a"
    by (cases a; cases k) (auto simp: demo_funds_def asset_total_cases unat_sub_small unat_eq_zero split: option.splits if_splits)
qed

definition demo_outpoint :: "string \<Rightarrow> OutPoint" where
  "demo_outpoint h = \<lparr>t_hash = h, out_n = 0\<rparr>"

definition demo_receipt :: Asset where
  "demo_receipt = Receipt \<lparr>receipt_amount = 3, drs_tx_hash = None, metadata = None\<rparr>"

definition demo_empty_funds :: FundStore where
  "demo_empty_funds = FundStore_new \<lparr>tokens = 0, receipts = fmempty\<rparr> fmempty [] fmempty"

definition demo_two_funds :: "FundStore may_panic" where
  "demo_two_funds = do { s \<leftarrow> store_tx demo_funds (demo_outpoint ''a'') (Token 5) demo_empty_funds;
                      store_tx demo_funds (demo_outpoint ''b'') demo_receipt s }"

lemma demo_two_funds_reachable:
  assumes "demo_two_funds = Some s"
  shows "fund_reachable demo_funds s"
proof -
  obtain r where r: "store_tx demo_funds (demo_outpoint ''a'') (Token 5) demo_empty_funds = Some r"
    "store_tx demo_funds (demo_outpoint ''b'') demo_receipt r = Some s"
    using assms by (auto simp: demo_two_funds_def option_bind_Some_iff)
  have e: "running_total demo_empty_funds = \<lparr>tokens = 0, receipts = fmempty\<rparr>"
    by (simp add: demo_empty_funds_def FundStore_new_def)
  have t: "running_total r = \<lparr>tokens = 5, receipts = fmempty\<rparr>"
    using store_tx_cases [OF r(1)] e
    by (auto simp: demo_funds_def demo_empty_funds_def FundStore_new_def)
  have 1: "fund_reachable demo_funds demo_empty_funds" unfolding demo_empty_funds_def by (rule reach_new)
  have 2: "fund_step demo_funds demo_empty_funds r"
    by (rule step_store [OF r(1)]) (simp add: asset_total_cases e demo_funds_def)
  have "fund_step demo_funds r s"
    by (rule step_store [OF r(2)]) (simp add: asset_total_cases t demo_funds_def demo_receipt_def demo_outpoint_def)
  then show ?thesis using 1 2 by (blast intro: reach_step)
qed

theorem fund_store_balanced_witness:
  "\<exists>s. demo_two_funds = Some s \<and> fund_reachable demo_funds s \<and>
     asset_total (running_total s) (Some ''b'') = fmweight (asset_amount (Some ''b'')) (fs_transactions s) \<and>
     on_pages (transaction_pages s) (demo_outpoint ''a'') (Token 5)"
proof -
  have d: "Option.bind demo_two_funds (\<lambda>s. fmlookup (fs_transactions s) (demo_outpoint ''a'')) = Some (Token 5)" by code_simp
  then obtain s where s: "demo_two_funds = Some s" "fmlookup (fs_transactions s) (demo_outpoint ''a'') = Some (Token 5)"
    by (auto simp: option_bind_Some_iff)
  show ?thesis
    using s fund_store_balanced [OF demo_funds_ok demo_two_funds_reachable [OF s(1)]] demo_two_funds_reachable [OF s(1)]
    by (auto simp: balanced_def pages_ok_def simp del: asset_total.simps)
qed

end
