(* ===== verification/Wallet_Db.thy ===== *)
theory Wallet_Db
  imports Fund_Store Db_Utils Genesis
begin

text \<open>
  The wallet (\<^verbatim>\<open>src/wallet/mod.rs\<close>): the database of addresses, keys, transactions and funds,
  encrypted under a master key that itself is encrypted under a passphrase; choosing the inputs of a
  payment, spending them, purging what is spent, and the locked coinbase. Encryption, signatures,
  serialisation and the arithmetic of assets are third-party code (\<open>wallet_ext\<close>); random values are
  arguments. The database calls run in blocking tasks that hold its lock: a panic in one of them is
  a panic of the model.
\<close>

section \<open>Model\<close>

subsection \<open>Data\<close>

definition LOCKED_COINBASE_KEY :: string where "LOCKED_COINBASE_KEY = ''LockedCoinbaseKey''"
definition MASTER_KEY_STORE_KEY :: string where "MASTER_KEY_STORE_KEY = ''MasterKeyStore''"
definition KNOWN_ADDRESS_KEY :: string where "KNOWN_ADDRESS_KEY = ''a''"
definition FUND_KEY :: string where "FUND_KEY = ''f''"

datatype WalletDbError =
    WalletSerialization | HexError | PassphraseError | InsufficientFundsError
  | MasterKeyRetrievalError | MasterKeyMissingError

type_synonym 'a wallet_result = "WalletDbError + 'a"

record AddressStore =
  public_key :: bytes
  secret_key :: bytes
  address_version :: "u64 option"

record AddressStoreHex =
  hex_public_key :: string
  hex_secret_key :: string
  hex_address_version :: "u64 option"

record TransactionStore =
  key_address :: string

record MasterKeyStore =
  mk_salt :: bytes
  mk_nonce :: bytes
  enc_master_key :: bytes

record WalletDb =
  w_db :: SimpleDb
  encryption_key :: bytes
  locked_coinbase :: LockedCoinbase
  last_generated_address :: "string option"
  last_locked_coinbase_filter_b_num :: "u64 option"

record TxConstructor =
  tc_previous_out :: OutPoint
  tc_signatures :: "bytes list"
  tc_pub_keys :: "bytes list"
  tc_address_version :: "u64 option"

record WalletTxSpec =
  ws_out_point :: string
  ws_secret_key :: string
  ws_public_key :: string
  ws_amount :: u64
  ws_address_version :: "u64 option"

type_synonym payment = "OutPoint \<times> Asset \<times> string \<times> u64"
type_synonym payment_inputs = "TxConstructor list \<times> Asset \<times> (OutPoint \<times> string) list"

text \<open>Code outside the repository.\<close>

record wallet_ext = fund_ext +
  wdb :: db_ext
  wgen :: genesis_ext
  hex_encode :: "bytes \<Rightarrow> string"
  SecretKey_from_slice :: "bytes \<Rightarrow> bytes option"
  fund_serialize :: "FundStore \<Rightarrow> bytes may_panic"
  fund_deserialize :: "bytes \<Rightarrow> FundStore may_panic"
  known_serialize :: "string fset \<Rightarrow> bytes may_panic"
  known_deserialize :: "bytes \<Rightarrow> string fset may_panic"
  address_serialize :: "AddressStore \<Rightarrow> bytes may_panic"
  address_deserialize :: "bytes \<Rightarrow> AddressStore may_panic"
  tx_store_serialize :: "TransactionStore \<Rightarrow> bytes may_panic"
  tx_store_deserialize :: "bytes \<Rightarrow> TransactionStore may_panic"
  out_point_serialize :: "OutPoint \<Rightarrow> bytes may_panic"
  master_serialize :: "MasterKeyStore \<Rightarrow> bytes may_panic"
  master_deserialize :: "bytes \<Rightarrow> MasterKeyStore option"
  locked_serialize :: "(string, u64) fmap \<Rightarrow> bytes may_panic"
  locked_deserialize :: "bytes \<Rightarrow> (string, u64) fmap option"
  locked_deserialize_old :: "bytes \<Rightarrow> (string \<times> u64) list option"
  NONCE_LEN :: nat
  derive_key :: "bytes \<Rightarrow> bytes \<Rightarrow> bytes"
  Key_from_slice :: "bytes \<Rightarrow> bytes option"
  Nonce_from_slice :: "bytes \<Rightarrow> bytes option"
  box_seal :: "bytes \<Rightarrow> bytes \<Rightarrow> bytes \<Rightarrow> bytes option"
  box_open :: "bytes \<Rightarrow> bytes \<Rightarrow> bytes \<Rightarrow> bytes option"
  construct_address_for :: "bytes \<Rightarrow> u64 option \<Rightarrow> string"
  wallet_tx_hash :: "Transaction \<Rightarrow> string"
  construct_tx_in_signable_hash :: "OutPoint \<Rightarrow> string"
  sign_detached :: "bytes \<Rightarrow> bytes \<Rightarrow> bytes"
  construct_payment_tx_ins :: "TxConstructor list \<Rightarrow> TxIn list"
  wallet_TxOut_new_asset :: "string \<Rightarrow> Asset \<Rightarrow> TxOut"
  default_of_type :: "Asset \<Rightarrow> Asset"
  asset_add_assign :: "Asset \<Rightarrow> Asset \<Rightarrow> Asset \<times> bool"
  is_greater_or_equal_to :: "Asset \<Rightarrow> Asset \<Rightarrow> bool option"
  get_excess :: "Asset \<Rightarrow> Asset \<Rightarrow> Asset option"
  has_enough :: "AssetValues \<Rightarrow> Asset \<Rightarrow> bool"

abbreviation wcol :: "wallet_ext \<Rightarrow> string" where
  "wcol W \<equiv> DB_COL_DEFAULT (wdb W)"

text \<open>Random values an operation may draw.\<close>

record wallet_rand =
  rand_salt :: bytes
  rand_key :: bytes
  rand_nonce :: bytes
  rand_keypair :: "bytes \<times> bytes"

subsection \<open>Keys in hexadecimal\<close>

definition AddressStoreHex_from :: "wallet_ext \<Rightarrow> AddressStore \<Rightarrow> AddressStoreHex" where
  "AddressStoreHex_from W other =
     \<lparr>hex_public_key = hex_encode W (public_key other), hex_secret_key = hex_encode W (secret_key other),
      hex_address_version = address_version other\<rparr>"

definition try_from_hex_store :: "wallet_ext \<Rightarrow> AddressStoreHex \<Rightarrow> AddressStore wallet_result" where
  "try_from_hex_store W h =
     (case (hex_decode (wgen W) (hex_public_key h), hex_decode (wgen W) (hex_secret_key h)) of
        (Some pk, Some sk) \<Rightarrow>
          (case (PublicKey_from_slice (wgen W) pk, SecretKey_from_slice W sk) of
             (Some pk, Some sk) \<Rightarrow> Inr \<lparr>public_key = pk, secret_key = sk, address_version = hex_address_version h\<rparr>
           | _ \<Rightarrow> Inl HexError)
      | _ \<Rightarrow> Inl HexError)"

definition decode_secret_key :: "wallet_ext \<Rightarrow> string \<Rightarrow> StringError + bytes" where
  "decode_secret_key W key =
     (case Option.bind (hex_decode (wgen W) key) (SecretKey_from_slice W) of
        Some k \<Rightarrow> Inr k
      | None \<Rightarrow> Inl (StringError (''Secret key decoding error: '' @ key)))"

subsection \<open>Encryption\<close>

definition make_key :: "wallet_ext \<Rightarrow> bytes \<Rightarrow> bytes \<Rightarrow> bytes may_panic" where
  "make_key W passphrase salt = Key_from_slice W (derive_key W passphrase salt)"

definition decrypt_store :: "wallet_ext \<Rightarrow> bytes \<Rightarrow> bytes \<Rightarrow> bytes may_panic" where
  "decrypt_store W store key =
     (if length store < NONCE_LEN W then None
      else do { nonce \<leftarrow> Nonce_from_slice W (take (NONCE_LEN W) store);
                box_open W (drop (NONCE_LEN W) store) nonce key })"

definition encrypt_store :: "wallet_ext \<Rightarrow> bytes \<Rightarrow> bytes \<Rightarrow> bytes \<Rightarrow> bytes may_panic" where
  "encrypt_store W nonce store key = do { sealed \<leftarrow> box_seal W store nonce key; Some (nonce @ sealed) }"

subsection \<open>Entries of the database\<close>

definition get_fund_store_err :: "wallet_ext \<Rightarrow> SimpleDb \<Rightarrow> FundStore wallet_result may_panic" where
  "get_fund_store_err W db =
     do { v \<leftarrow> db_get_cf (wcol W) (as_bytes FUND_KEY) db;
          case v of
            Some l \<Rightarrow> map_option Inr (fund_deserialize W l)
          | None \<Rightarrow> Some (Inr \<lparr>running_total = AssetValues_default, fs_transactions = fmempty,
                              transaction_pages = [], spent_transactions = fmempty\<rparr>) }"

definition get_fund_store :: "wallet_ext \<Rightarrow> SimpleDb \<Rightarrow> FundStore may_panic" where
  "get_fund_store W db =
     do { r \<leftarrow> get_fund_store_err W db; case r of Inl _ \<Rightarrow> None | Inr v \<Rightarrow> Some v }"

definition set_fund_store :: "wallet_ext \<Rightarrow> FundStore \<Rightarrow> SimpleDbWriteBatch \<Rightarrow> SimpleDbWriteBatch may_panic" where
  "set_fund_store W funds batch =
     do { ser \<leftarrow> fund_serialize W funds; batch_put_cf (wcol W) (as_bytes FUND_KEY) ser batch }"

definition get_known_key_address :: "wallet_ext \<Rightarrow> SimpleDb \<Rightarrow> string fset may_panic" where
  "get_known_key_address W db =
     do { v \<leftarrow> db_get_cf (wcol W) (as_bytes KNOWN_ADDRESS_KEY) db;
          case v of Some l \<Rightarrow> known_deserialize W l | None \<Rightarrow> Some {||} }"

definition set_known_key_address ::
    "wallet_ext \<Rightarrow> string fset \<Rightarrow> SimpleDbWriteBatch \<Rightarrow> SimpleDbWriteBatch may_panic" where
  "set_known_key_address W addresses batch =
     do { ser \<leftarrow> known_serialize W addresses; batch_put_cf (wcol W) (as_bytes KNOWN_ADDRESS_KEY) ser batch }"

definition get_address_store_encrypted :: "wallet_ext \<Rightarrow> string \<Rightarrow> SimpleDb \<Rightarrow> bytes may_panic" where
  "get_address_store_encrypted W key_addr db =
     do { v \<leftarrow> db_get_cf (wcol W) (as_bytes key_addr) db; v }"

definition get_address_store :: "wallet_ext \<Rightarrow> string \<Rightarrow> bytes \<Rightarrow> SimpleDb \<Rightarrow> AddressStore may_panic" where
  "get_address_store W key_addr key db =
     do { v \<leftarrow> db_get_cf (wcol W) (as_bytes key_addr) db;
          store \<leftarrow> v;
          decrypted \<leftarrow> decrypt_store W store key;
          address_deserialize W decrypted }"

definition delete_address_store :: "wallet_ext \<Rightarrow> string \<Rightarrow> SimpleDbWriteBatch \<Rightarrow> SimpleDbWriteBatch may_panic" where
  "delete_address_store W key_addr batch = batch_delete_cf (wcol W) (as_bytes key_addr) batch"

definition save_address_store_to_wallet ::
    "wallet_ext \<Rightarrow> bytes \<Rightarrow> string \<Rightarrow> AddressStore \<Rightarrow> bytes \<Rightarrow> SimpleDbWriteBatch \<Rightarrow> SimpleDbWriteBatch may_panic" where
  "save_address_store_to_wallet W nonce key_addr store key batch =
     do { ser \<leftarrow> address_serialize W store;
          input \<leftarrow> encrypt_store W nonce ser key;
          batch_put_cf (wcol W) (as_bytes key_addr) input batch }"

definition get_transaction_store :: "wallet_ext \<Rightarrow> OutPoint \<Rightarrow> SimpleDb \<Rightarrow> TransactionStore may_panic" where
  "get_transaction_store W out_p db =
     do { key \<leftarrow> out_point_serialize W out_p;
          v \<leftarrow> db_get_cf (wcol W) key db;
          store \<leftarrow> v;
          tx_store_deserialize W store }"

definition delete_transaction_store :: "wallet_ext \<Rightarrow> OutPoint \<Rightarrow> SimpleDbWriteBatch \<Rightarrow> SimpleDbWriteBatch may_panic" where
  "delete_transaction_store W out_p batch =
     do { key \<leftarrow> out_point_serialize W out_p; batch_delete_cf (wcol W) key batch }"

definition put_transaction_store ::
    "wallet_ext \<Rightarrow> OutPoint \<Rightarrow> TransactionStore \<Rightarrow> SimpleDbWriteBatch \<Rightarrow> SimpleDbWriteBatch may_panic" where
  "put_transaction_store W out_p store batch =
     do { key \<leftarrow> out_point_serialize W out_p;
          input \<leftarrow> tx_store_serialize W store;
          batch_put_cf (wcol W) key input batch }"

subsection \<open>The master key\<close>

definition put_master_key_store ::
    "wallet_ext \<Rightarrow> wallet_rand \<Rightarrow> bytes \<Rightarrow> bytes \<Rightarrow> SimpleDbWriteBatch \<Rightarrow> SimpleDbWriteBatch may_panic" where
  "put_master_key_store W R passphrase master_key batch =
     do { pass_key \<leftarrow> make_key W passphrase (rand_salt R);
          enc \<leftarrow> box_seal W master_key (rand_nonce R) pass_key;
          ser \<leftarrow> master_serialize W \<lparr>mk_salt = rand_salt R, mk_nonce = rand_nonce R, enc_master_key = enc\<rparr>;
          batch_put_cf (wcol W) (as_bytes MASTER_KEY_STORE_KEY) ser batch }"

definition set_new_master_key_store ::
    "wallet_ext \<Rightarrow> wallet_rand \<Rightarrow> bytes \<Rightarrow> SimpleDbWriteBatch \<Rightarrow> (SimpleDbWriteBatch \<times> bytes) may_panic" where
  "set_new_master_key_store W R passphrase batch =
     do { batch \<leftarrow> put_master_key_store W R passphrase (rand_key R) batch; Some (batch, rand_key R) }"

definition get_master_key_store :: "wallet_ext \<Rightarrow> bytes \<Rightarrow> SimpleDb \<Rightarrow> bytes wallet_result may_panic" where
  "get_master_key_store W passphrase db =
     do { v \<leftarrow> db_get_cf (wcol W) (as_bytes MASTER_KEY_STORE_KEY) db;
          case v of
            None \<Rightarrow> Some (Inl MasterKeyMissingError)
          | Some ser \<Rightarrow>
              (case master_deserialize W ser of
                 None \<Rightarrow> Some (Inl WalletSerialization)
               | Some store \<Rightarrow> do {
                   pass_key \<leftarrow> make_key W passphrase (mk_salt store);
                   Some (case box_open W (enc_master_key store) (mk_nonce store) pass_key of
                           None \<Rightarrow> Inl PassphraseError
                         | Some master_key \<Rightarrow>
                             (case Key_from_slice W master_key of
                                None \<Rightarrow> Inl MasterKeyRetrievalError
                              | Some key \<Rightarrow> Inr key)) }) }"

definition get_or_save_master_key_store ::
    "wallet_ext \<Rightarrow> wallet_rand \<Rightarrow> SimpleDb \<Rightarrow> SimpleDbWriteBatch \<Rightarrow> bytes \<Rightarrow>
     (SimpleDbWriteBatch \<times> bytes) wallet_result may_panic" where
  "get_or_save_master_key_store W R db batch passphrase =
     do { r \<leftarrow> get_master_key_store W passphrase db;
          case r of
            Inr key \<Rightarrow> Some (Inr (batch, key))
          | Inl MasterKeyMissingError \<Rightarrow> map_option Inr (set_new_master_key_store W R passphrase batch)
          | Inl e \<Rightarrow> Some (Inl e) }"

definition WalletDb_new ::
    "wallet_ext \<Rightarrow> wallet_rand \<Rightarrow> SimpleDb option \<Rightarrow> string option \<Rightarrow> WalletDb wallet_result may_panic" where
  "WalletDb_new W R old_db passphrase =
     do { db \<leftarrow> new_db (wdb W) [] old_db;
          r \<leftarrow> get_or_save_master_key_store W R db (batch_writer db)
            (as_bytes (case passphrase of None \<Rightarrow> [] | Some p \<Rightarrow> p));
          case r of
            Inl e \<Rightarrow> Some (Inl e)
          | Inr (batch, key) \<Rightarrow> do {
              db \<leftarrow> db_write (batch_done batch) db;
              Some (Inr \<lparr>w_db = db, encryption_key = key, locked_coinbase = None, last_generated_address = None,
                         last_locked_coinbase_filter_b_num = None\<rparr>) } }"

definition wallet_get_master_key_store :: "wallet_ext \<Rightarrow> string \<Rightarrow> WalletDb \<Rightarrow> bytes wallet_result may_panic" where
  "wallet_get_master_key_store W passphrase self = get_master_key_store W (as_bytes passphrase) (w_db self)"

definition test_passphrase :: "wallet_ext \<Rightarrow> string \<Rightarrow> WalletDb \<Rightarrow> unit wallet_result may_panic" where
  "test_passphrase W passphrase self =
     map_option (map_sum id (\<lambda>_. ())) (wallet_get_master_key_store W passphrase self)"

definition re_encrypt_master_key ::
    "wallet_ext \<Rightarrow> wallet_rand \<Rightarrow> string \<Rightarrow> string \<Rightarrow> WalletDb \<Rightarrow> (WalletDb \<times> unit wallet_result) may_panic" where
  "re_encrypt_master_key W R old_passphrase new_passphrase self =
     do { r \<leftarrow> get_master_key_store W (as_bytes old_passphrase) (w_db self);
          case r of
            Inl e \<Rightarrow> Some (self, Inl e)
          | Inr master_key \<Rightarrow> do {
              batch \<leftarrow> put_master_key_store W R (as_bytes new_passphrase) master_key (batch_writer (w_db self));
              db \<leftarrow> db_write (batch_done batch) (w_db self);
              Some (self\<lparr>w_db := db\<rparr>, Inr ()) } }"

definition change_wallet_passphrase ::
    "wallet_ext \<Rightarrow> wallet_rand \<Rightarrow> string \<Rightarrow> string \<Rightarrow> WalletDb \<Rightarrow> (WalletDb \<times> unit wallet_result) may_panic" where
  "change_wallet_passphrase W R old_passphrase new_passphrase self =
     re_encrypt_master_key W R old_passphrase new_passphrase self"

subsection \<open>Addresses\<close>

definition save_encrypted_address_to_wallet ::
    "wallet_ext \<Rightarrow> string \<Rightarrow> bytes \<Rightarrow> WalletDb \<Rightarrow> WalletDb may_panic" where
  "save_encrypted_address_to_wallet W address keys self =
     do { known \<leftarrow> get_known_key_address W (w_db self);
          batch \<leftarrow> batch_put_cf (wcol W) (as_bytes address) keys (batch_writer (w_db self));
          batch \<leftarrow> set_known_key_address W (finsert address known) batch;
          db \<leftarrow> db_write (batch_done batch) (w_db self);
          Some (self\<lparr>w_db := db\<rparr>) }"

definition save_address_to_wallet ::
    "wallet_ext \<Rightarrow> bytes \<Rightarrow> string \<Rightarrow> AddressStore \<Rightarrow> WalletDb \<Rightarrow> WalletDb may_panic" where
  "save_address_to_wallet W nonce address keys self =
     do { known \<leftarrow> get_known_key_address W (w_db self);
          batch \<leftarrow> save_address_store_to_wallet W nonce address keys (encryption_key self) (batch_writer (w_db self));
          batch \<leftarrow> set_known_key_address W (finsert address known) batch;
          db \<leftarrow> db_write (batch_done batch) (w_db self);
          Some (self\<lparr>w_db := db\<rparr>) }"

definition store_payment_address ::
    "wallet_ext \<Rightarrow> bytes \<Rightarrow> bytes \<Rightarrow> bytes \<Rightarrow> u64 option \<Rightarrow> WalletDb \<Rightarrow> (WalletDb \<times> string \<times> AddressStore) may_panic" where
  "store_payment_address W nonce pk sk v self =
     do { let final_address = construct_address_for W pk v;
          let address_keys = \<lparr>public_key = pk, secret_key = sk, address_version = v\<rparr>;
          self \<leftarrow> save_address_to_wallet W nonce final_address address_keys self;
          Some (self\<lparr>last_generated_address := Some final_address\<rparr>, final_address, address_keys) }"

definition generate_payment_address ::
    "wallet_ext \<Rightarrow> wallet_rand \<Rightarrow> WalletDb \<Rightarrow> (WalletDb \<times> string \<times> AddressStore) may_panic" where
  "generate_payment_address W R self =
     store_payment_address W (rand_nonce R) (fst (rand_keypair R)) (snd (rand_keypair R)) None self"

definition save_transaction_to_wallet :: "wallet_ext \<Rightarrow> OutPoint \<Rightarrow> string \<Rightarrow> WalletDb \<Rightarrow> WalletDb may_panic" where
  "save_transaction_to_wallet W out_p addr self =
     do { batch \<leftarrow> put_transaction_store W out_p \<lparr>key_address = addr\<rparr> (batch_writer (w_db self));
          db \<leftarrow> db_write (batch_done batch) (w_db self);
          Some (self\<lparr>w_db := db\<rparr>) }"

subsection \<open>Values and the locked coinbase\<close>

definition get_db_value :: "wallet_ext \<Rightarrow> string \<Rightarrow> WalletDb \<Rightarrow> bytes option may_panic" where
  "get_db_value W key self = db_get_cf (wcol W) (as_bytes key) (w_db self)"

definition set_db_value :: "wallet_ext \<Rightarrow> string \<Rightarrow> bytes \<Rightarrow> WalletDb \<Rightarrow> WalletDb may_panic" where
  "set_db_value W key v self =
     do { db \<leftarrow> db_put_cf (wcol W) (as_bytes key) v (w_db self); Some (self\<lparr>w_db := db\<rparr>) }"

definition delete_db_value :: "wallet_ext \<Rightarrow> string \<Rightarrow> WalletDb \<Rightarrow> WalletDb may_panic" where
  "delete_db_value W key self =
     do { db \<leftarrow> db_delete_cf (wcol W) (as_bytes key) (w_db self); Some (self\<lparr>w_db := db\<rparr>) }"

definition set_locked_coinbase :: "LockedCoinbase \<Rightarrow> WalletDb \<Rightarrow> WalletDb" where
  "set_locked_coinbase v self = self\<lparr>locked_coinbase := v\<rparr>"

definition store_locked_coinbase :: "wallet_ext \<Rightarrow> LockedCoinbase \<Rightarrow> WalletDb \<Rightarrow> WalletDb may_panic" where
  "store_locked_coinbase W locked self =
     (case locked of
        Some cb \<Rightarrow> do { ser \<leftarrow> locked_serialize W cb; set_db_value W LOCKED_COINBASE_KEY ser self }
      | None \<Rightarrow> delete_db_value W LOCKED_COINBASE_KEY self)"

text \<open>The value is read in the old format, then in the new one, whose result is the one that counts.\<close>

definition load_locked_coinbase :: "wallet_ext \<Rightarrow> WalletDb \<Rightarrow> (WalletDb \<times> unit wallet_result) may_panic" where
  "load_locked_coinbase W self =
     do { v \<leftarrow> get_db_value W LOCKED_COINBASE_KEY self;
          Some (case v of
              None \<Rightarrow> (self\<lparr>locked_coinbase := None\<rparr>, Inr ())
            | Some ser \<Rightarrow>
                (case (locked_deserialize_old W ser, locked_deserialize W ser) of
                   (None, None) \<Rightarrow> (self, Inl WalletSerialization)
                 | (Some old, None) \<Rightarrow> (self\<lparr>locked_coinbase := Some (fmextend old fmempty)\<rparr>, Inl WalletSerialization)
                 | (_, Some cb) \<Rightarrow> (self\<lparr>locked_coinbase := Some cb\<rparr>, Inr ()))) }"

definition wallet_filter_locked_coinbase :: "wallet_ext \<Rightarrow> u64 \<Rightarrow> WalletDb \<Rightarrow> WalletDb may_panic" where
  "wallet_filter_locked_coinbase W bn self =
     (if bn \<le> (case last_locked_coinbase_filter_b_num self of None \<Rightarrow> 0 | Some n \<Rightarrow> n) then Some self
      else do {
        let self = self\<lparr>last_locked_coinbase_filter_b_num := Some bn\<rparr>;
        let locked = map_option (fmretain (\<lambda>_ locktime. bn < locktime)) (locked_coinbase self);
        self \<leftarrow> store_locked_coinbase W locked self;
        Some (set_locked_coinbase locked self) })"

subsection \<open>Received payments\<close>

fun store_payments ::
    "wallet_ext \<Rightarrow> u64 \<Rightarrow> payment list \<Rightarrow> FundStore \<Rightarrow> SimpleDbWriteBatch \<Rightarrow> (string, u64) fmap \<Rightarrow>
     (FundStore \<times> SimpleDbWriteBatch \<times> (string, u64) fmap) may_panic" where
  "store_payments W bn [] funds batch locked = Some (funds, batch, locked)"
| "store_payments W bn ((out_p, asset, addr, lt) # rest) funds batch locked =
     do { funds \<leftarrow> store_tx (fund_ext.truncate W) out_p (with_fixed_hash W asset out_p) funds;
          batch \<leftarrow> put_transaction_store W out_p \<lparr>key_address = addr\<rparr> batch;
          store_payments W bn rest funds batch (if bn < lt then fmupd (t_hash out_p) lt locked else locked) }"

definition save_usable_payments_to_wallet ::
    "wallet_ext \<Rightarrow> payment list \<Rightarrow> u64 \<Rightarrow> WalletDb \<Rightarrow> (WalletDb \<times> payment list) may_panic" where
  "save_usable_payments_to_wallet W payments bn self =
     do { let locked = (case locked_coinbase self of None \<Rightarrow> fmempty | Some l \<Rightarrow> l);
          funds \<leftarrow> get_fund_store W (w_db self);
          known \<leftarrow> get_known_key_address W (w_db self);
          let usable = filter (\<lambda>(_, _, a, _). a |\<in>| known) payments;
          (funds, batch, locked) \<leftarrow> store_payments W bn usable funds (batch_writer (w_db self)) locked;
          batch \<leftarrow> set_fund_store W funds batch;
          db \<leftarrow> db_write (batch_done batch) (w_db self);
          self \<leftarrow> store_locked_coinbase W (Some locked) (self\<lparr>w_db := db\<rparr>);
          Some (set_locked_coinbase (Some locked) self, usable) }"

text \<open>An output without an address panics.\<close>

fun get_paiments_for_wallet_from_utxo :: "(OutPoint \<times> TxOut) list \<Rightarrow> payment list may_panic" where
  "get_paiments_for_wallet_from_utxo [] = Some []"
| "get_paiments_for_wallet_from_utxo ((out_p, tx_out) # rest) =
     do { a \<leftarrow> script_public_key tx_out;
          ps \<leftarrow> get_paiments_for_wallet_from_utxo rest;
          Some ((out_p, txout_value tx_out, a, locktime tx_out) # ps) }"

definition get_paiments_for_wallet :: "wallet_ext \<Rightarrow> (string \<times> Transaction) list \<Rightarrow> payment list may_panic" where
  "get_paiments_for_wallet W txs = get_paiments_for_wallet_from_utxo (tx_outs_of W txs)"

definition store_payment_transaction :: "wallet_ext \<Rightarrow> Transaction \<Rightarrow> u64 \<Rightarrow> WalletDb \<Rightarrow> WalletDb may_panic" where
  "store_payment_transaction W tx bn self =
     do { payments \<leftarrow> get_paiments_for_wallet W [(wallet_tx_hash W tx, tx)];
          (self, _) \<leftarrow> save_usable_payments_to_wallet W payments bn self;
          Some self }"

text \<open>The part of \<open>i32::from_str\<close> that splitting at \<open>-\<close> leaves: digits, after an optional plus.\<close>

fun split_at_char :: "char \<Rightarrow> string \<Rightarrow> string list" where
  "split_at_char c [] = [[]]"
| "split_at_char c (x # xs) =
     (if x = c then [] # split_at_char c xs
      else case split_at_char c xs of [] \<Rightarrow> [[x]] | p # ps \<Rightarrow> (x # p) # ps)"

definition is_digit :: "char \<Rightarrow> bool" where
  "is_digit c \<longleftrightarrow> 48 \<le> (of_char c :: nat) \<and> (of_char c :: nat) \<le> 57"

definition parse_i32 :: "string \<Rightarrow> i32 may_panic" where
  "parse_i32 s =
     (let ds = (if s \<noteq> [] \<and> hd s = CHR ''+'' then tl s else s);
          n = fold (\<lambda>c n. n * 10 + (int (of_char c) - 48)) ds 0
      in if ds = [] \<or> \<not> list_all is_digit ds \<or> 2 ^ 31 \<le> n then None else Some n)"

definition decode_wallet_out_point :: "string \<Rightarrow> OutPoint may_panic" where
  "decode_wallet_out_point out_point =
     (case split_at_char (CHR ''-'') out_point of
        n # h # _ \<Rightarrow> do { n \<leftarrow> parse_i32 n; Some \<lparr>t_hash = h, out_n = n\<rparr> }
      | _ \<Rightarrow> None)"

definition make_wallet_tx_info ::
    "wallet_ext \<Rightarrow> WalletTxSpec \<Rightarrow> (OutPoint \<times> bytes \<times> bytes \<times> TokenAmount \<times> u64 option) may_panic" where
  "make_wallet_tx_info W seed =
     do { out_p \<leftarrow> decode_wallet_out_point (ws_out_point seed);
          sk \<leftarrow> case_sum (\<lambda>_. None) Some (decode_secret_key W (ws_secret_key seed));
          pk \<leftarrow> case_sum (\<lambda>_. None) Some (decode_pub_key (wgen W) (ws_public_key seed));
          Some (out_p, pk, sk, ws_amount seed, ws_address_version seed) }"

text \<open>Each seed comes with the nonce that its address is stored with.\<close>

fun with_seed_loop :: "wallet_ext \<Rightarrow> (WalletTxSpec \<times> bytes) list \<Rightarrow> WalletDb \<Rightarrow> WalletDb may_panic" where
  "with_seed_loop W [] self = Some self"
| "with_seed_loop W ((seed, nonce) # seeds) self =
     do { (out_p, pk, sk, amount, v) \<leftarrow> make_wallet_tx_info W seed;
          (self, addr, _) \<leftarrow> store_payment_address W nonce pk sk v self;
          (self, _) \<leftarrow> save_usable_payments_to_wallet W [(out_p, Token amount, addr, 0)] 0 self;
          with_seed_loop W seeds self }"

definition with_seed :: "wallet_ext \<Rightarrow> (WalletTxSpec \<times> bytes) list \<Rightarrow> WalletDb \<Rightarrow> WalletDb may_panic" where
  "with_seed W seeds self =
     do { funds \<leftarrow> get_fund_store W (w_db self);
          known \<leftarrow> get_known_key_address W (w_db self);
          if fs_transactions funds \<noteq> fmempty \<or> spent_transactions funds \<noteq> fmempty \<or> known \<noteq> {||} then Some self
          else with_seed_loop W seeds self }"

subsection \<open>Inputs of a payment\<close>

definition tx_constructor_from_prev_out ::
    "wallet_ext \<Rightarrow> SimpleDb \<Rightarrow> OutPoint \<Rightarrow> bytes \<Rightarrow> (TxConstructor \<times> OutPoint \<times> string) may_panic" where
  "tx_constructor_from_prev_out W db out_p key =
     do { ts \<leftarrow> get_transaction_store W out_p db;
          let addr = key_address ts;
          needed_store \<leftarrow> get_address_store W addr key db;
          let signature = sign_detached W (as_bytes (construct_tx_in_signable_hash W out_p)) (secret_key needed_store);
          Some (\<lparr>tc_previous_out = out_p, tc_signatures = [signature], tc_pub_keys = [public_key needed_store],
                 tc_address_version = address_version needed_store\<rparr>, out_p, addr) }"

text \<open>The loops: \<open>required\<close> is what is asked for, or nothing when all inputs are to be used.\<close>

fun fetch_inputs_loop ::
    "wallet_ext \<Rightarrow> SimpleDb \<Rightarrow> bytes \<Rightarrow> Asset option \<Rightarrow> (OutPoint \<times> Asset) list \<Rightarrow> payment_inputs \<Rightarrow> payment_inputs may_panic" where
  "fetch_inputs_loop W db key required [] acc = Some acc"
| "fetch_inputs_loop W db key required ((out_p, amount) # rest) (tx_cons, amount_made, tx_used) =
     do { let (made, added) = asset_add_assign W amount_made amount;
          (tx_cons, tx_used) \<leftarrow>
            (if added
             then do { (c, used) \<leftarrow> tx_constructor_from_prev_out W db out_p key; Some (tx_cons @ [c], tx_used @ [used]) }
             else Some (tx_cons, tx_used));
          if Option.bind required (is_greater_or_equal_to W made) = Some True then Some (tx_cons, made, tx_used)
          else fetch_inputs_loop W db key required rest (tx_cons, made, tx_used) }"

definition fetch_inputs_for_payment_from_db ::
    "wallet_ext \<Rightarrow> SimpleDb \<Rightarrow> Asset \<Rightarrow> bytes \<Rightarrow> LockedCoinbase \<Rightarrow> payment_inputs wallet_result may_panic" where
  "fetch_inputs_for_payment_from_db W db asset_required key locked =
     do { funds \<leftarrow> get_fund_store W db;
          let (funds, _) = filter_locked_coinbase (fund_ext.truncate W) locked funds;
          if \<not> has_enough W (running_total funds) asset_required then Some (Inl InsufficientFundsError)
          else do {
            r \<leftarrow> fetch_inputs_loop W db key (Some asset_required) (sorted_list_of_fmap (fs_transactions funds))
              ([], default_of_type W asset_required, []);
            Some (Inr r) } }"

definition fetch_inputs_from_supplied_txs_for_payment_from_db ::
    "wallet_ext \<Rightarrow> SimpleDb \<Rightarrow> (OutPoint \<times> Asset) list \<Rightarrow> bytes \<Rightarrow> payment_inputs wallet_result may_panic" where
  "fetch_inputs_from_supplied_txs_for_payment_from_db W db txs key =
     do { r \<leftarrow> fetch_inputs_loop W db key None txs ([], Token 0, []); Some (Inr r) }"

fun key_addresses :: "wallet_ext \<Rightarrow> SimpleDb \<Rightarrow> OutPoint list \<Rightarrow> string list may_panic" where
  "key_addresses W db [] = Some []"
| "key_addresses W db (out_p # rest) =
     do { ts \<leftarrow> get_transaction_store W out_p db; as \<leftarrow> key_addresses W db rest; Some (key_address ts # as) }"

definition retrieve_empty_or_non_empty_addresses ::
    "wallet_ext \<Rightarrow> string fset \<Rightarrow> SimpleDb \<Rightarrow> bool \<Rightarrow> string fset may_panic" where
  "retrieve_empty_or_non_empty_addresses W addresses db look_for_empty =
     do { funds \<leftarrow> get_fund_store W db;
          unspent \<leftarrow> key_addresses W db (fmkeys (fs_transactions funds));
          Some (ffilter (\<lambda>a. (a \<in> set unspent) = (\<not> look_for_empty)) addresses) }"

definition retrieve_empty_addresses :: "wallet_ext \<Rightarrow> string fset \<Rightarrow> SimpleDb \<Rightarrow> string fset may_panic" where
  "retrieve_empty_addresses W addresses db = retrieve_empty_or_non_empty_addresses W addresses db True"

definition retrieve_non_empty_addresses :: "wallet_ext \<Rightarrow> string fset \<Rightarrow> SimpleDb \<Rightarrow> string fset may_panic" where
  "retrieve_non_empty_addresses W addresses db = retrieve_empty_or_non_empty_addresses W addresses db False"

text \<open>The transactions of one address, and of one address after the other.\<close>

fun txs_of_address ::
    "wallet_ext \<Rightarrow> SimpleDb \<Rightarrow> string \<Rightarrow> (OutPoint \<times> Asset) list \<Rightarrow> (OutPoint \<times> Asset) list may_panic" where
  "txs_of_address W db addr [] = Some []"
| "txs_of_address W db addr ((out_p, asset) # rest) =
     do { ts \<leftarrow> get_transaction_store W out_p db;
          r \<leftarrow> txs_of_address W db addr rest;
          Some (if addr = key_address ts then (out_p, asset) # r else r) }"

fun txs_of_addresses ::
    "wallet_ext \<Rightarrow> SimpleDb \<Rightarrow> string list \<Rightarrow> (OutPoint \<times> Asset) list \<Rightarrow> (OutPoint \<times> Asset) list may_panic" where
  "txs_of_addresses W db [] txs = Some []"
| "txs_of_addresses W db (addr # rest) txs =
     do { xs \<leftarrow> txs_of_address W db addr txs; ys \<leftarrow> txs_of_addresses W db rest txs; Some (xs @ ys) }"

definition fetch_inputs_for_payment_from_supplied_input_addrs_db ::
    "wallet_ext \<Rightarrow> SimpleDb \<Rightarrow> string fset \<Rightarrow> bytes \<Rightarrow> LockedCoinbase \<Rightarrow> payment_inputs wallet_result may_panic" where
  "fetch_inputs_for_payment_from_supplied_input_addrs_db W db addresses key locked =
     do { to_use \<leftarrow> retrieve_non_empty_addresses W addresses db;
          funds \<leftarrow> get_fund_store W db;
          let (funds, _) = filter_locked_coinbase (fund_ext.truncate W) locked funds;
          txs \<leftarrow> txs_of_addresses W db (sorted_list_of_fset to_use) (sorted_list_of_fmap (fs_transactions funds));
          fetch_inputs_from_supplied_txs_for_payment_from_db W db txs key }"

definition fetch_inputs_for_payment :: "wallet_ext \<Rightarrow> Asset \<Rightarrow> WalletDb \<Rightarrow> payment_inputs wallet_result may_panic" where
  "fetch_inputs_for_payment W asset_required self =
     fetch_inputs_for_payment_from_db W (w_db self) asset_required (encryption_key self) (locked_coinbase self)"

definition fetch_inputs_for_payment_from_supplied_input_addrs ::
    "wallet_ext \<Rightarrow> string fset \<Rightarrow> WalletDb \<Rightarrow> payment_inputs wallet_result may_panic" where
  "fetch_inputs_for_payment_from_supplied_input_addrs W addresses self =
     fetch_inputs_for_payment_from_supplied_input_addrs_db W (w_db self) addresses (encryption_key self) (locked_coinbase self)"

definition fetch_inputs_for_payment_from_supplied_txs ::
    "wallet_ext \<Rightarrow> (OutPoint \<times> Asset) list \<Rightarrow> WalletDb \<Rightarrow> payment_inputs wallet_result may_panic" where
  "fetch_inputs_for_payment_from_supplied_txs W txs self =
     fetch_inputs_from_supplied_txs_for_payment_from_db W (w_db self) txs (encryption_key self)"

fun spend_txs :: "fund_ext \<Rightarrow> OutPoint list \<Rightarrow> FundStore \<Rightarrow> FundStore may_panic" where
  "spend_txs N [] funds = Some funds"
| "spend_txs N (out_p # rest) funds = do { funds \<leftarrow> spend_tx N out_p funds; spend_txs N rest funds }"

definition consume_inputs_for_payment ::
    "wallet_ext \<Rightarrow> TxConstructor list \<Rightarrow> (OutPoint \<times> string) list \<Rightarrow> WalletDb \<Rightarrow> (WalletDb \<times> TxIn list) may_panic" where
  "consume_inputs_for_payment W tx_cons tx_used self =
     do { funds \<leftarrow> get_fund_store W (w_db self);
          funds \<leftarrow> spend_txs (fund_ext.truncate W) (map fst tx_used) funds;
          batch \<leftarrow> set_fund_store W funds (batch_writer (w_db self));
          db \<leftarrow> db_write (batch_done batch) (w_db self);
          Some (self\<lparr>w_db := db\<rparr>, construct_payment_tx_ins W tx_cons) }"

definition fetch_tx_ins_and_tx_outs_provided_excess ::
    "wallet_ext \<Rightarrow> wallet_rand \<Rightarrow> Asset \<Rightarrow> TxOut list \<Rightarrow> string option \<Rightarrow> WalletDb \<Rightarrow>
     (WalletDb \<times> (TxIn list \<times> TxOut list) wallet_result) may_panic" where
  "fetch_tx_ins_and_tx_outs_provided_excess W R asset_required tx_outs excess_address self =
     do { r \<leftarrow> fetch_inputs_for_payment W asset_required self;
          case r of
            Inl e \<Rightarrow> Some (self, Inl e)
          | Inr (tx_cons, total_amount, tx_used) \<Rightarrow> do {
              (self, tx_outs) \<leftarrow>
                (case get_excess W total_amount asset_required of
                   None \<Rightarrow> Some (self, tx_outs)
                 | Some excess \<Rightarrow> do {
                     (self, a) \<leftarrow>
                       (case excess_address of
                          Some a \<Rightarrow> Some (self, a)
                        | None \<Rightarrow> do { (self, a, _) \<leftarrow> generate_payment_address W R self; Some (self, a) });
                     Some (self, tx_outs @ [wallet_TxOut_new_asset W a excess]) });
              (self, tx_ins) \<leftarrow> consume_inputs_for_payment W tx_cons tx_used self;
              Some (self, Inr (tx_ins, tx_outs)) } }"

definition fetch_tx_ins_and_tx_outs ::
    "wallet_ext \<Rightarrow> wallet_rand \<Rightarrow> Asset \<Rightarrow> TxOut list \<Rightarrow> WalletDb \<Rightarrow>
     (WalletDb \<times> (TxIn list \<times> TxOut list) wallet_result) may_panic" where
  "fetch_tx_ins_and_tx_outs W R asset_required tx_outs self =
     fetch_tx_ins_and_tx_outs_provided_excess W R asset_required tx_outs None self"

definition fetch_tx_ins_and_tx_outs_merge_input_addrs ::
    "wallet_ext \<Rightarrow> wallet_rand \<Rightarrow> string fset \<Rightarrow> string option \<Rightarrow> WalletDb \<Rightarrow>
     (WalletDb \<times> (TxIn list \<times> TxOut list)) may_panic" where
  "fetch_tx_ins_and_tx_outs_merge_input_addrs W R input_addresses excess_address self =
     do { r \<leftarrow> fetch_inputs_for_payment_from_supplied_input_addrs W input_addresses self;
          (tx_cons, asset, tx_used) \<leftarrow> case_sum (\<lambda>_. None) Some r;
          (self, excess_addr) \<leftarrow>
            (case excess_address of
               Some a \<Rightarrow> Some (self, a)
             | None \<Rightarrow> do { (self, a, _) \<leftarrow> generate_payment_address W R self; Some (self, a) });
          (self, tx_ins) \<leftarrow> consume_inputs_for_payment W tx_cons tx_used self;
          Some (self, tx_ins, [wallet_TxOut_new_asset W excess_addr asset]) }"

definition fetch_tx_ins_and_tx_outs_from_supplied_txs ::
    "wallet_ext \<Rightarrow> (OutPoint \<times> Asset) list \<Rightarrow> WalletDb \<Rightarrow> (WalletDb \<times> (TxIn list \<times> Asset)) may_panic" where
  "fetch_tx_ins_and_tx_outs_from_supplied_txs W txs self =
     do { r \<leftarrow> fetch_inputs_for_payment_from_supplied_txs W txs self;
          (tx_cons, total_amount, tx_used) \<leftarrow> case_sum (\<lambda>_. None) Some r;
          (self, tx_ins) \<leftarrow> consume_inputs_for_payment W tx_cons tx_used self;
          Some (self, tx_ins, total_amount) }"

subsection \<open>Purging what is spent\<close>

fun delete_addresses :: "wallet_ext \<Rightarrow> string list \<Rightarrow> SimpleDbWriteBatch \<Rightarrow> SimpleDbWriteBatch may_panic" where
  "delete_addresses W [] batch = Some batch"
| "delete_addresses W (a # as) batch = do { batch \<leftarrow> delete_address_store W a batch; delete_addresses W as batch }"

fun delete_transactions :: "wallet_ext \<Rightarrow> OutPoint list \<Rightarrow> SimpleDbWriteBatch \<Rightarrow> SimpleDbWriteBatch may_panic" where
  "delete_transactions W [] batch = Some batch"
| "delete_transactions W (p # ps) batch =
     do { batch \<leftarrow> delete_transaction_store W p batch; delete_transactions W ps batch }"

definition destroy_spent_transactions_and_keys ::
    "wallet_ext \<Rightarrow> string fset option \<Rightarrow> SimpleDb \<Rightarrow> (SimpleDb \<times> string fset \<times> (OutPoint, Asset) fmap) may_panic" where
  "destroy_spent_transactions_and_keys W addresses db =
     do { empty_addr \<leftarrow> retrieve_empty_addresses W (case addresses of None \<Rightarrow> {||} | Some a \<Rightarrow> a) db;
          funds \<leftarrow> get_fund_store W db;
          known \<leftarrow> get_known_key_address W db;
          let (funds, spent) = remove_spent_transactions funds;
          unspent_addrs \<leftarrow> key_addresses W db (fmkeys (fs_transactions funds));
          spent_addrs \<leftarrow> key_addresses W db (fmkeys spent);
          let remove = fset_of_list (filter (\<lambda>a. a \<notin> set unspent_addrs) spent_addrs) |\<union>| empty_addr;
          batch \<leftarrow> set_fund_store W funds (batch_writer db);
          batch \<leftarrow> set_known_key_address W (known |-| remove) batch;
          batch \<leftarrow> delete_addresses W (sorted_list_of_fset remove) batch;
          batch \<leftarrow> delete_transactions W (fmkeys spent) batch;
          db \<leftarrow> db_write (batch_done batch) db;
          Some (db, remove, spent) }"

definition wallet_destroy_spent ::
    "wallet_ext \<Rightarrow> string fset option \<Rightarrow> WalletDb \<Rightarrow> (WalletDb \<times> string fset \<times> (OutPoint, Asset) fmap) may_panic" where
  "wallet_destroy_spent W addresses self =
     do { (db, r) \<leftarrow> destroy_spent_transactions_and_keys W addresses (w_db self); Some (self\<lparr>w_db := db\<rparr>, r) }"

end
