(* ===== verification/Wallet_Inv.thy ===== *)
theory Wallet_Inv
  imports Wallet_Db "HOL-Library.Sublist"
begin

text \<open>
  The invariant of the wallet (\<^verbatim>\<open>src/wallet/mod.rs\<close>) and what its operations do to it: the database
  as one map, what is relied on of the code outside the repository, saving addresses, receiving and making
  payments, purging, the passphrase, opening, and the choice of the inputs of a payment.
\<close>

section \<open>The database of a wallet\<close>

text \<open>The one column of a wallet as a map, and the map that a batch in progress stands for.\<close>

definition wkv :: "wallet_ext \<Rightarrow> SimpleDb \<Rightarrow> (bytes, bytes) fmap \<Rightarrow> bool" where
  "wkv W db kv \<longleftrightarrow> db_inv db \<and> db_abs db (wcol W) = Some kv"

definition wbatch :: "wallet_ext \<Rightarrow> SimpleDb \<Rightarrow> SimpleDbWriteBatch \<Rightarrow> (bytes, bytes) fmap \<Rightarrow> bool" where
  "wbatch W db b kv \<longleftrightarrow> (\<exists>db1. batch_stands_for db b db1 \<and> db_abs db1 (wcol W) = Some kv)"

lemma wkv_get: "wkv W db kv \<Longrightarrow> db_get_cf (wcol W) k db = Some (fmlookup kv k)"
  by (auto simp: wkv_def db_get_cf_abs)

lemma wbatch_writer: "wkv W db kv \<Longrightarrow> wbatch W db (batch_writer db) kv"
  using batch_writer_stands_for by (auto simp: wkv_def wbatch_def)

lemma wbatch_put:
  assumes "wbatch W db b kv"
  shows "\<exists>b'. batch_put_cf (wcol W) k v b = Some b' \<and> wbatch W db b' (fmupd k v kv)"
proof -
  obtain db1 where d: "batch_stands_for db b db1" "db_abs db1 (wcol W) = Some kv" using assms by (auto simp: wbatch_def)
  obtain b' where b: "batch_put_cf (wcol W) k v b = Some b'"
    using batch_put_stands_for(1) [OF d(1), of "wcol W" k v] d(2) by fastforce
  obtain db2 where e: "batch_stands_for db b' db2" "abs_put (wcol W) k v (db_abs db1) = Some (db_abs db2)"
    using batch_put_abs [OF d(1) b] by blast
  then have "db_abs db2 = (db_abs db1)(wcol W \<mapsto> fmupd k v kv)" using d(2) by (simp add: abs_put_def)
  then show ?thesis using b e(1) by (auto simp: wbatch_def)
qed

lemma wbatch_put_Some: "wbatch W db b kv \<Longrightarrow> batch_put_cf (wcol W) k v b = Some b' \<Longrightarrow> wbatch W db b' (fmupd k v kv)"
  using wbatch_put [of W db b kv k v] by auto

lemma wbatch_delete:
  assumes "wbatch W db b kv"
  shows "\<exists>b'. batch_delete_cf (wcol W) k b = Some b' \<and> wbatch W db b' (fmdrop k kv)"
proof -
  obtain db1 where d: "batch_stands_for db b db1" "db_abs db1 (wcol W) = Some kv" using assms by (auto simp: wbatch_def)
  have i: "db_inv db1" "columns db1 = batch_columns b" using d(1) by (auto simp: batch_stands_for_def)
  obtain p where "fmlookup (batch_columns b) (wcol W) = Some p"
    using d(2) i(2) by (cases "fmlookup (batch_columns b) (wcol W)") (auto simp: db_abs_def)
  then obtain b' where b: "batch_delete_cf (wcol W) k b = Some b'" by (simp add: batch_delete_cf_def)
  obtain db2 where e: "db_delete_cf (wcol W) k db1 = Some db2" "batch_stands_for db b' db2"
    using batch_delete_stands_for [OF d(1) b] by blast
  have "abs_delete (wcol W) k (db_abs db1) = Some (db_abs db2)"
    using db_delete_cf_abs(1) [OF i(1), of "wcol W" k] e(1) by simp
  then have "db_abs db2 = (db_abs db1)(wcol W \<mapsto> fmdrop k kv)" using d(2) by (simp add: abs_delete_def)
  then show ?thesis using b e(2) by (auto simp: wbatch_def)
qed

lemma wbatch_write: "wbatch W db b kv \<Longrightarrow> \<exists>db'. db_write (batch_done b) db = Some db' \<and> wkv W db' kv"
  by (auto simp: wbatch_def batch_stands_for_def wkv_def)

lemma wkv_put: "wkv W db kv \<Longrightarrow> \<exists>db'. db_put_cf (wcol W) k v db = Some db' \<and> wkv W db' (fmupd k v kv)"
  using db_put_cf_abs [of db "wcol W" k v]
  by (cases "db_put_cf (wcol W) k v db") (auto simp: wkv_def abs_put_def)

lemma wkv_delete: "wkv W db kv \<Longrightarrow> \<exists>db'. db_delete_cf (wcol W) k db = Some db' \<and> wkv W db' (fmdrop k kv)"
  using db_delete_cf_abs [of db "wcol W" k]
  by (cases "db_delete_cf (wcol W) k db") (auto simp: wkv_def abs_delete_def)

subsection \<open>What is relied on\<close>

abbreviation VERSION_NAME :: string where
  "VERSION_NAME \<equiv> ''DbVersionKey''"

lemma version_key: "DB_VERSION_KEY = as_bytes VERSION_NAME"
  by (simp add: DB_VERSION_KEY_def as_bytes_def)

text \<open>The keys under which miners and users keep values of their own.\<close>

abbreviation node_keys :: "string list" where
  "node_keys \<equiv> [''LastCoinbaseKey'', ''MiningAddressKey'', ''TxGeneratorKey'']"

abbreviation named_keys :: "string list" where
  "named_keys \<equiv> [FUND_KEY, KNOWN_ADDRESS_KEY, LOCKED_COINBASE_KEY, MASTER_KEY_STORE_KEY, VERSION_NAME] @ node_keys"

text \<open>An address whose entry is not mistaken for another one.\<close>

definition clean_address :: "wallet_ext \<Rightarrow> string \<Rightarrow> bool" where
  "clean_address W a \<longleftrightarrow> a \<notin> set named_keys \<and> (\<forall>op. out_point_serialize W op \<noteq> Some (as_bytes a))"

text \<open>
  Deserialisation inverts serialisation; outpoints have keys of their own; opening a sealed box with
  its key and nonce gives the content; nonces have their length; addresses made from public keys are clean.
\<close>

definition wallet_ext_ok :: "wallet_ext \<Rightarrow> bool" where
  "wallet_ext_ok W \<longleftrightarrow>
     (\<forall>x b. fund_serialize W x = Some b \<longrightarrow> fund_deserialize W b = Some x) \<and>
     (\<forall>x b. known_serialize W x = Some b \<longrightarrow> known_deserialize W b = Some x) \<and>
     (\<forall>x b. address_serialize W x = Some b \<longrightarrow> address_deserialize W b = Some x) \<and>
     (\<forall>x b. tx_store_serialize W x = Some b \<longrightarrow> tx_store_deserialize W b = Some x) \<and>
     (\<forall>x b. master_serialize W x = Some b \<longrightarrow> master_deserialize W b = Some x) \<and>
     (\<forall>op b. out_point_serialize W op = Some b \<longrightarrow> b \<notin> as_bytes ` set named_keys) \<and>
     (\<forall>op op' b. out_point_serialize W op = Some b \<and> out_point_serialize W op' = Some b \<longrightarrow> op = op') \<and>
     (\<forall>x n k b. box_seal W x n k = Some b \<longrightarrow> box_open W b n k = Some x) \<and>
     (\<forall>n. length n = NONCE_LEN W \<longrightarrow> Nonce_from_slice W n = Some n) \<and>
     (\<forall>pk v. clean_address W (construct_address_for W pk v))"

lemma wallet_ext_okD:
  assumes "wallet_ext_ok W"
  shows "fund_serialize W f = Some b \<Longrightarrow> fund_deserialize W b = Some f"
    and "known_serialize W kn = Some b \<Longrightarrow> known_deserialize W b = Some kn"
    and "address_serialize W st = Some b \<Longrightarrow> address_deserialize W b = Some st"
    and "tx_store_serialize W ts = Some b \<Longrightarrow> tx_store_deserialize W b = Some ts"
    and "master_serialize W ms = Some b \<Longrightarrow> master_deserialize W b = Some ms"
    and "out_point_serialize W op = Some b \<Longrightarrow> b \<notin> as_bytes ` set named_keys"
    and "out_point_serialize W op = Some b \<Longrightarrow> out_point_serialize W op' = Some b \<Longrightarrow> op = op'"
    and "box_seal W x n k = Some b \<Longrightarrow> box_open W b n k = Some x"
    and "length nonce = NONCE_LEN W \<Longrightarrow> Nonce_from_slice W nonce = Some nonce"
    and "clean_address W (construct_address_for W pk v)"
proof -
  have c1: "\<forall>op b. out_point_serialize W op = Some b \<longrightarrow> b \<notin> as_bytes ` set named_keys"
    using assms unfolding wallet_ext_ok_def by (elim conjE) assumption
  have c2: "\<forall>op op' b. out_point_serialize W op = Some b \<and> out_point_serialize W op' = Some b \<longrightarrow> op = op'"
    using assms unfolding wallet_ext_ok_def by (elim conjE) assumption
  show "out_point_serialize W op = Some b \<Longrightarrow> b \<notin> as_bytes ` set named_keys"
    "out_point_serialize W op = Some b \<Longrightarrow> out_point_serialize W op' = Some b \<Longrightarrow> op = op'"
    using c1 c2 by blast+
qed (use assms in \<open>simp_all add: wallet_ext_ok_def\<close>)

lemma named_keys_distinct: "distinct named_keys"
  by (simp add: FUND_KEY_def KNOWN_ADDRESS_KEY_def LOCKED_COINBASE_KEY_def MASTER_KEY_STORE_KEY_def)

lemmas wallet_keys = FUND_KEY_def KNOWN_ADDRESS_KEY_def LOCKED_COINBASE_KEY_def MASTER_KEY_STORE_KEY_def

subsection \<open>Reading\<close>

definition funds_of :: "wallet_ext \<Rightarrow> (bytes, bytes) fmap \<Rightarrow> FundStore option" where
  "funds_of W kv =
     (case fmlookup kv (as_bytes FUND_KEY) of
        Some l \<Rightarrow> fund_deserialize W l
      | None \<Rightarrow> Some \<lparr>running_total = AssetValues_default, fs_transactions = fmempty,
                    transaction_pages = [], spent_transactions = fmempty\<rparr>)"

definition known_of :: "wallet_ext \<Rightarrow> (bytes, bytes) fmap \<Rightarrow> string fset option" where
  "known_of W kv = (case fmlookup kv (as_bytes KNOWN_ADDRESS_KEY) of Some l \<Rightarrow> known_deserialize W l | None \<Rightarrow> Some {||})"

definition keys_of :: "wallet_ext \<Rightarrow> bytes \<Rightarrow> (bytes, bytes) fmap \<Rightarrow> string \<Rightarrow> AddressStore option" where
  "keys_of W key kv a =
     do { store \<leftarrow> fmlookup kv (as_bytes a); d \<leftarrow> decrypt_store W store key; address_deserialize W d }"

definition addr_of :: "wallet_ext \<Rightarrow> (bytes, bytes) fmap \<Rightarrow> OutPoint \<Rightarrow> string option" where
  "addr_of W kv op =
     do { k \<leftarrow> out_point_serialize W op; store \<leftarrow> fmlookup kv k; map_option key_address (tx_store_deserialize W store) }"

lemma wallet_reads:
  assumes "wkv W db kv"
  shows "get_fund_store W db = funds_of W kv" and "get_known_key_address W db = known_of W kv"
    and "get_address_store W a key db = keys_of W key kv a"
    and "map_option key_address (get_transaction_store W op db) = addr_of W kv op"
  using wkv_get [OF assms]
  by (auto simp: get_fund_store_def get_fund_store_err_def funds_of_def get_known_key_address_def known_of_def
      get_address_store_def keys_of_def get_transaction_store_def addr_of_def
      split: option.splits Option.bind_splits)

lemma reads_upd:
  "funds_of W (fmupd k v kv) = (if k = as_bytes FUND_KEY then fund_deserialize W v else funds_of W kv)"
  "known_of W (fmupd k v kv) = (if k = as_bytes KNOWN_ADDRESS_KEY then known_deserialize W v else known_of W kv)"
  "keys_of W key (fmupd k v kv) a =
     (if k = as_bytes a then Option.bind (decrypt_store W v key) (address_deserialize W) else keys_of W key kv a)"
  "addr_of W (fmupd k v kv) op =
     (if out_point_serialize W op = Some k then map_option key_address (tx_store_deserialize W v) else addr_of W kv op)"
  by (auto simp: funds_of_def known_of_def keys_of_def addr_of_def split: Option.bind_splits)

lemma reads_drop:
  "k \<noteq> as_bytes FUND_KEY \<Longrightarrow> funds_of W (fmdrop k kv) = funds_of W kv"
  "k \<noteq> as_bytes KNOWN_ADDRESS_KEY \<Longrightarrow> known_of W (fmdrop k kv) = known_of W kv"
  "keys_of W key (fmdrop k kv) a = (if k = as_bytes a then None else keys_of W key kv a)"
  "addr_of W (fmdrop k kv) op = (if out_point_serialize W op = Some k then None else addr_of W kv op)"
  by (auto simp: funds_of_def known_of_def keys_of_def addr_of_def split: Option.bind_splits)

text \<open>The four kinds of keys do not meet.\<close>

lemma named_keys_ne [simp]:
  "FUND_KEY \<noteq> KNOWN_ADDRESS_KEY" "KNOWN_ADDRESS_KEY \<noteq> FUND_KEY" "LOCKED_COINBASE_KEY \<noteq> FUND_KEY" "FUND_KEY \<noteq> LOCKED_COINBASE_KEY"
  "LOCKED_COINBASE_KEY \<noteq> KNOWN_ADDRESS_KEY" "KNOWN_ADDRESS_KEY \<noteq> LOCKED_COINBASE_KEY" "MASTER_KEY_STORE_KEY \<noteq> FUND_KEY"
  "FUND_KEY \<noteq> MASTER_KEY_STORE_KEY" "MASTER_KEY_STORE_KEY \<noteq> KNOWN_ADDRESS_KEY" "KNOWN_ADDRESS_KEY \<noteq> MASTER_KEY_STORE_KEY"
  "LOCKED_COINBASE_KEY \<noteq> MASTER_KEY_STORE_KEY" "MASTER_KEY_STORE_KEY \<noteq> LOCKED_COINBASE_KEY"
  "FUND_KEY \<noteq> VERSION_NAME" "KNOWN_ADDRESS_KEY \<noteq> VERSION_NAME" "LOCKED_COINBASE_KEY \<noteq> VERSION_NAME"
  "MASTER_KEY_STORE_KEY \<noteq> VERSION_NAME" "VERSION_NAME \<noteq> MASTER_KEY_STORE_KEY" "VERSION_NAME \<noteq> FUND_KEY" "VERSION_NAME \<noteq> KNOWN_ADDRESS_KEY"
  using named_keys_distinct by auto

lemma clean_bytes:
  assumes "clean_address W a"
  shows "a \<noteq> FUND_KEY" "a \<noteq> KNOWN_ADDRESS_KEY" "a \<noteq> LOCKED_COINBASE_KEY" "a \<noteq> MASTER_KEY_STORE_KEY"
    "out_point_serialize W op \<noteq> Some (as_bytes a)" "a \<noteq> VERSION_NAME"
  using assms by (auto simp: clean_address_def)

lemma out_point_bytes:
  assumes "wallet_ext_ok W"
  shows "out_point_serialize W op \<noteq> Some (as_bytes FUND_KEY)" "out_point_serialize W op \<noteq> Some (as_bytes KNOWN_ADDRESS_KEY)"
    "out_point_serialize W op \<noteq> Some (as_bytes LOCKED_COINBASE_KEY)" "out_point_serialize W op \<noteq> Some (as_bytes MASTER_KEY_STORE_KEY)"
    "out_point_serialize W op \<noteq> Some (as_bytes VERSION_NAME)"
  using wallet_ext_okD(6) [OF assms, of op] by auto

section \<open>The invariant\<close>

text \<open>
  The entries of the version and of the master key: the box holds the encryption key.
\<close>

definition head_ok :: "wallet_ext \<Rightarrow> bytes \<Rightarrow> (bytes, bytes) fmap \<Rightarrow> bool" where
  "head_ok W key kv \<longleftrightarrow>
     fmlookup kv (as_bytes VERSION_NAME) = Some (NETWORK_VERSION_SERIALIZED (wdb W)) \<and>
     (\<exists>ser store k. fmlookup kv (as_bytes MASTER_KEY_STORE_KEY) = Some ser \<and> master_deserialize W ser = Some store \<and>
        box_seal W key (mk_nonce store) k = Some (enc_master_key store))"

lemma head_ok_cong:
  "fmlookup kv' (as_bytes VERSION_NAME) = fmlookup kv (as_bytes VERSION_NAME) \<Longrightarrow>
   fmlookup kv' (as_bytes MASTER_KEY_STORE_KEY) = fmlookup kv (as_bytes MASTER_KEY_STORE_KEY) \<Longrightarrow> head_ok W key kv' = head_ok W key kv"
  by (simp add: head_ok_def)

lemma head_ok_upd [simp]:
  assumes "k \<noteq> as_bytes VERSION_NAME" and "k \<noteq> as_bytes MASTER_KEY_STORE_KEY"
  shows "head_ok W key (fmupd k v kv) = head_ok W key kv" and "head_ok W key (fmdrop k kv) = head_ok W key kv"
  using assms by (auto intro!: head_ok_cong)

text \<open>
  The funds are balanced; every known address is clean and its keys can be decrypted; every unspent
  outpoint belongs to a known address, every spent one to a clean address; none is both.
\<close>

definition contents_ok :: "wallet_ext \<Rightarrow> bytes \<Rightarrow> (bytes, bytes) fmap \<Rightarrow> FundStore \<Rightarrow> string fset \<Rightarrow> bool" where
  "contents_ok W key kv funds known \<longleftrightarrow>
     head_ok W key kv \<and> balanced funds \<and>
     (\<forall>a. a |\<in>| known \<longrightarrow> clean_address W a \<and> keys_of W key kv a \<noteq> None) \<and>
     (\<forall>op. op |\<in>| fmdom (fs_transactions funds) \<longrightarrow> (\<exists>a. addr_of W kv op = Some a \<and> a |\<in>| known)) \<and>
     (\<forall>op. op |\<in>| fmdom (spent_transactions funds) \<longrightarrow> (\<exists>a. addr_of W kv op = Some a \<and> clean_address W a))"

definition wallet_ok :: "wallet_ext \<Rightarrow> WalletDb \<Rightarrow> bool" where
  "wallet_ok W s \<longleftrightarrow> (\<exists>kv funds known. wkv W (w_db s) kv \<and> funds_of W kv = Some funds \<and> known_of W kv = Some known \<and>
     contents_ok W (encryption_key s) kv funds known)"

lemma wallet_ok_fields [simp]:
  "wallet_ok W (s\<lparr>last_generated_address := x\<rparr>) = wallet_ok W s" "wallet_ok W (s\<lparr>locked_coinbase := l\<rparr>) = wallet_ok W s"
  "wallet_ok W (s\<lparr>last_locked_coinbase_filter_b_num := n\<rparr>) = wallet_ok W s"
  by (simp_all add: wallet_ok_def)

text \<open>Entries that neither reading looks at.\<close>

lemma wallet_ok_other_key:
  assumes "wallet_ext_ok W" and "wallet_ok W s" and "key \<in> {LOCKED_COINBASE_KEY, MASTER_KEY_STORE_KEY} \<union> set node_keys"
    and "wkv W (w_db s) kv" and "wkv W db' kv'" and "kv' = fmupd (as_bytes key) v kv \<or> kv' = fmdrop (as_bytes key) kv"
    and "key = MASTER_KEY_STORE_KEY \<longrightarrow> head_ok W (encryption_key s) kv'"
    and "w_db t = db'" and "encryption_key t = encryption_key s"
  shows "wallet_ok W t"
proof -
  obtain funds known where f: "funds_of W kv = Some funds" "known_of W kv = Some known"
      "contents_ok W (encryption_key s) kv funds known"
    using assms(2,4) by (auto simp: wallet_ok_def wkv_def)
  have named: "key \<in> set named_keys" "key \<noteq> FUND_KEY" "key \<noteq> KNOWN_ADDRESS_KEY" "key \<noteq> VERSION_NAME"
    using assms(3) by (auto simp: wallet_keys)
  have k: "as_bytes key \<noteq> as_bytes FUND_KEY" "as_bytes key \<noteq> as_bytes KNOWN_ADDRESS_KEY"
    "out_point_serialize W op \<noteq> Some (as_bytes key)" "clean_address W a \<Longrightarrow> as_bytes key \<noteq> as_bytes a" for op a
    using named wallet_ext_okD(6) [OF assms(1), of op "as_bytes key"] by (auto simp: clean_address_def)
  have r: "funds_of W kv' = funds_of W kv" "known_of W kv' = known_of W kv" "addr_of W kv' op = addr_of W kv op"
    "clean_address W a \<Longrightarrow> keys_of W e kv' a = keys_of W e kv a" for op a e
    using assms(6) k by (auto simp: reads_upd reads_drop)
  have "head_ok W (encryption_key s) kv'" using named(4) assms(6,7) f(3) by (cases "key = MASTER_KEY_STORE_KEY") (auto simp: contents_ok_def)
  then have "contents_ok W (encryption_key s) kv' funds known" using f(3) r by (auto simp: contents_ok_def)
  then show ?thesis using assms(5) f r(1,2) assms(8,9) by (auto simp: wallet_ok_def)
qed

subsection \<open>Writing\<close>

lemma set_fund_store_batch:
  assumes "wallet_ext_ok W" and "wbatch W db b kv" and "set_fund_store W f b = Some b'"
  obtains ser where "fund_deserialize W ser = Some f" and "wbatch W db b' (fmupd (as_bytes FUND_KEY) ser kv)"
proof -
  obtain ser where "fund_serialize W f = Some ser" "batch_put_cf (wcol W) (as_bytes FUND_KEY) ser b = Some b'"
    using assms(3) by (auto simp: set_fund_store_def option_bind_Some_iff)
  then show thesis using that wallet_ext_okD(1) [OF assms(1)] wbatch_put_Some [OF assms(2)] by blast
qed

lemma set_known_batch:
  assumes "wallet_ext_ok W" and "wbatch W db b kv" and "set_known_key_address W known b = Some b'"
  obtains ser where "known_deserialize W ser = Some known" and "wbatch W db b' (fmupd (as_bytes KNOWN_ADDRESS_KEY) ser kv)"
proof -
  obtain ser where "known_serialize W known = Some ser" "batch_put_cf (wcol W) (as_bytes KNOWN_ADDRESS_KEY) ser b = Some b'"
    using assms(3) by (auto simp: set_known_key_address_def option_bind_Some_iff)
  then show thesis using that wallet_ext_okD(2) [OF assms(1)] wbatch_put_Some [OF assms(2)] by blast
qed

lemma put_transaction_store_batch:
  assumes "wallet_ext_ok W" and "wbatch W db b kv" and "put_transaction_store W op ts b = Some b'"
  obtains k ser where "out_point_serialize W op = Some k" and "tx_store_deserialize W ser = Some ts"
    and "wbatch W db b' (fmupd k ser kv)"
proof -
  obtain k ser where "out_point_serialize W op = Some k" "tx_store_serialize W ts = Some ser" "batch_put_cf (wcol W) k ser b = Some b'"
    using assms(3) by (auto simp: put_transaction_store_def option_bind_Some_iff)
  then show thesis using that wallet_ext_okD(4) [OF assms(1)] wbatch_put_Some [OF assms(2)] by blast
qed

lemma decrypt_encrypt_store:
  assumes "wallet_ext_ok W" and "length nonce = NONCE_LEN W" and "encrypt_store W nonce x key = Some b"
  shows "decrypt_store W b key = Some x"
  using assms wallet_ext_okD(8,9) [OF assms(1)] by (auto simp: encrypt_store_def decrypt_store_def option_bind_Some_iff)

lemma save_address_store_batch:
  assumes "wallet_ext_ok W" and "wbatch W db b kv" and "length nonce = NONCE_LEN W"
    and "save_address_store_to_wallet W nonce a st key b = Some b'"
  obtains v where "Option.bind (decrypt_store W v key) (address_deserialize W) = Some st" and "wbatch W db b' (fmupd (as_bytes a) v kv)"
proof -
  obtain ser v where "address_serialize W st = Some ser" "encrypt_store W nonce ser key = Some v"
      "batch_put_cf (wcol W) (as_bytes a) v b = Some b'"
    using assms(4) by (auto simp: save_address_store_to_wallet_def option_bind_Some_iff)
  then show thesis
    using that [of v] wallet_ext_okD(3) [OF assms(1), of st ser] wbatch_put_Some [OF assms(2), of "as_bytes a" v b']
      decrypt_encrypt_store [OF assms(1,3), of ser key v] by simp
qed

lemma reads_out_point:
  assumes "wallet_ext_ok W" and "out_point_serialize W op = Some k" and "tx_store_deserialize W v = Some ts"
  shows "funds_of W (fmupd k v kv) = funds_of W kv" "known_of W (fmupd k v kv) = known_of W kv"
    "clean_address W a \<Longrightarrow> keys_of W key (fmupd k v kv) a = keys_of W key kv a"
    "addr_of W (fmupd k v kv) op' = (if op' = op then Some (key_address ts) else addr_of W kv op')"
    "head_ok W key (fmupd k v kv) = head_ok W key kv"
proof -
  have k: "k \<noteq> as_bytes FUND_KEY" "k \<noteq> as_bytes KNOWN_ADDRESS_KEY" "k \<noteq> as_bytes VERSION_NAME" "k \<noteq> as_bytes MASTER_KEY_STORE_KEY"
    using out_point_bytes [OF assms(1), of op] assms(2) by auto
  show "head_ok W key (fmupd k v kv) = head_ok W key kv" using k(3,4) by simp
  show "funds_of W (fmupd k v kv) = funds_of W kv" "known_of W (fmupd k v kv) = known_of W kv" using k by (simp_all add: reads_upd)
  show "keys_of W key (fmupd k v kv) a = keys_of W key kv a" if "clean_address W a"
    using clean_bytes(5) [OF that, of op] assms(2) by (auto simp: reads_upd)
  show "addr_of W (fmupd k v kv) op' = (if op' = op then Some (key_address ts) else addr_of W kv op')"
  proof (cases "op' = op")
    case False
    then have "out_point_serialize W op' \<noteq> Some k" using wallet_ext_okD(7) [OF assms(1) _ assms(2)] by blast
    then show ?thesis using False by (simp add: reads_upd)
  qed (simp add: reads_upd assms(2,3))
qed

subsection \<open>Addresses\<close>

lemma save_address_ok:
  assumes "wallet_ext_ok W" and "wallet_ok W s" and "clean_address W a" and "length nonce = NONCE_LEN W"
    and "save_address_to_wallet W nonce a st s = Some t"
  shows "wallet_ok W t" and "get_fund_store W (w_db t) = get_fund_store W (w_db s)"
    and "\<exists>known. get_known_key_address W (w_db t) = Some known \<and> a |\<in>| known"
proof -
  obtain kv funds known where i: "wkv W (w_db s) kv" "funds_of W kv = Some funds" "known_of W kv = Some known"
      "contents_ok W (encryption_key s) kv funds known"
    using assms(2) by (auto simp: wallet_ok_def)
  obtain b1 b2 db where b: "save_address_store_to_wallet W nonce a st (encryption_key s) (batch_writer (w_db s)) = Some b1"
      "set_known_key_address W (finsert a known) b1 = Some b2" "db_write (batch_done b2) (w_db s) = Some db" "t = s\<lparr>w_db := db\<rparr>"
    using assms(5) wallet_reads(2) [OF i(1)] i(3) by (auto simp: save_address_to_wallet_def option_bind_Some_iff)
  obtain v where v: "Option.bind (decrypt_store W v (encryption_key s)) (address_deserialize W) = Some st"
      "wbatch W (w_db s) b1 (fmupd (as_bytes a) v kv)"
    using save_address_store_batch [OF assms(1) wbatch_writer [OF i(1)] assms(4) b(1)] by blast
  let ?kv1 = "fmupd (as_bytes a) v kv"
  obtain ser where k: "known_deserialize W ser = Some (finsert a known)" "wbatch W (w_db s) b2 (fmupd (as_bytes KNOWN_ADDRESS_KEY) ser ?kv1)"
    using set_known_batch [OF assms(1) v(2) b(2)] by blast
  let ?kv = "fmupd (as_bytes KNOWN_ADDRESS_KEY) ser ?kv1"
  note c = clean_bytes [OF assms(3)]
  have r: "funds_of W ?kv = Some funds" "known_of W ?kv = Some (finsert a known)" "addr_of W ?kv op = addr_of W kv op"
    "clean_address W x \<Longrightarrow> keys_of W (encryption_key s) ?kv x = (if x = a then Some st else keys_of W (encryption_key s) kv x)" for op x
    using c k(1) i(2) v(1) out_point_bytes [OF assms(1)] clean_bytes(2) [of W x] by (auto simp: reads_upd)
  have "contents_ok W (encryption_key s) ?kv funds (finsert a known)"
    using i(4) r(3,4) assms(3) c(4,6) by (auto simp: contents_ok_def)
  moreover have w: "wkv W db ?kv" using wbatch_write [OF k(2)] b(3) by auto
  ultimately show "wallet_ok W t" using r(1,2) b(4) by (auto simp: wallet_ok_def)
  show "get_fund_store W (w_db t) = get_fund_store W (w_db s)" "\<exists>known. get_known_key_address W (w_db t) = Some known \<and> a |\<in>| known"
    using wallet_reads(1,2) [OF w] wallet_reads(1) [OF i(1)] r(1,2) i(2) b(4) by auto
qed

lemma store_payment_address_ok:
  assumes "wallet_ext_ok W" and "wallet_ok W s" and "length nonce = NONCE_LEN W"
    and "store_payment_address W nonce pk sk v s = Some (t, r)"
  shows "wallet_ok W t" and "get_fund_store W (w_db t) = get_fund_store W (w_db s)"
    and "\<exists>known. get_known_key_address W (w_db t) = Some known \<and> fst r |\<in>| known"
  using save_address_ok [OF assms(1,2) wallet_ext_okD(10) [OF assms(1), of pk v] assms(3)] assms(4)
  by (auto simp: store_payment_address_def option_bind_Some_iff Let_def)

subsection \<open>Payments\<close>

abbreviation wfund :: "wallet_ext \<Rightarrow> fund_ext" where
  "wfund W \<equiv> fund_ext.truncate W"

lemma with_fixed_hash_truncate [simp]: "with_fixed_hash (wfund W) = with_fixed_hash W"
  by (simp add: fund_ext.defs)

text \<open>The sum of the new payments, with what the wallet has, fits into 64 bits.\<close>

definition payments_ok :: "wallet_ext \<Rightarrow> FundStore \<Rightarrow> payment list \<Rightarrow> bool" where
  "payments_ok W funds ps \<longleftrightarrow>
     (\<forall>k. asset_total (running_total funds) k +
        (\<Sum>(op, asset, a, lt) \<leftarrow> ps. asset_amount k (with_fixed_hash W asset op)) < 2 ^ 64)"

lemma store_tx_total:
  assumes "asset_arith_ok N" and "store_tx N op a s = Some t"
    and "\<forall>k. asset_total (running_total s) k + asset_amount k (with_fixed_hash N a op) < 2 ^ 64"
  shows "asset_total (running_total t) k \<le> asset_total (running_total s) k + asset_amount k (with_fixed_hash N a op)"
  using store_tx_cases [OF assms(2)] assms(1,3) by (auto simp: asset_arith_ok_def)

lemma store_payments_ok:
  assumes "wallet_ext_ok W" and "asset_arith_ok (wfund W)" and "wbatch W db b kv" and "contents_ok W key kv funds known"
    and "store_payments W bn ps funds b locked = Some (funds', b', locked')"
    and "\<forall>(op, asset, a, lt) \<in> set ps. a |\<in>| known" and "payments_ok W funds ps"
  shows "\<exists>kv'. wbatch W db b' kv' \<and> contents_ok W key kv' funds' known \<and> funds_of W kv' = funds_of W kv \<and>
    known_of W kv' = known_of W kv"
  using assms(3-7)
proof (induction ps arbitrary: b kv funds locked)
  case Nil
  then show ?case by auto
next
  case (Cons p ps)
  obtain op asset a lt where p: "p = (op, asset, a, lt)" by (cases p)
  obtain f1 b1 where s: "store_tx (wfund W) op (with_fixed_hash W asset op) funds = Some f1"
      "put_transaction_store W op \<lparr>key_address = a\<rparr> b = Some b1"
      "store_payments W bn ps f1 b1 (if bn < lt then fmupd (t_hash op) lt locked else locked) = Some (funds', b', locked')"
    using Cons.prems(3) p by (auto simp: option_bind_Some_iff)
  obtain k ser where k: "out_point_serialize W op = Some k" "tx_store_deserialize W ser = Some \<lparr>key_address = a\<rparr>"
      "wbatch W db b1 (fmupd k ser kv)"
    using put_transaction_store_batch [OF assms(1) Cons.prems(1) s(2)] by blast
  note r = reads_out_point [OF assms(1) k(1,2)]
  have fx: "with_fixed_hash W (with_fixed_hash W asset op) op = with_fixed_hash W asset op"
    using assms(2) by (simp add: asset_arith_ok_def)
  let ?sum = "\<lambda>k. \<Sum>(op, asset, a, lt) \<leftarrow> ps. asset_amount k (with_fixed_hash W asset op)"
  have sum: "asset_total (running_total funds) k + (asset_amount k (with_fixed_hash W asset op) + ?sum k) < 2 ^ 64" for k
    using Cons.prems(5) p by (auto simp: payments_ok_def)
  have fit: "\<forall>k. asset_total (running_total funds) k + asset_amount k (with_fixed_hash (wfund W) (with_fixed_hash W asset op) op) < 2 ^ 64"
  proof
    fix k
    show "asset_total (running_total funds) k + asset_amount k (with_fixed_hash (wfund W) (with_fixed_hash W asset op) op) < 2 ^ 64"
      using sum [of k] fx by (simp only: with_fixed_hash_truncate)
  qed
  note st = store_tx_cases [OF s(1)]
  have bal: "balanced f1" by (rule store_tx_balanced [OF assms(2) _ s(1) fit]) (use Cons.prems(2) in \<open>simp add: contents_ok_def\<close>)
  have a: "a |\<in>| known" using Cons.prems(4) p by simp
  have c: "contents_ok W key (fmupd k ser kv) f1 known"
    using Cons.prems(2) st bal r(3,4,5) a by (auto simp: contents_ok_def)
  have le: "asset_total (running_total f1) k \<le> asset_total (running_total funds) k + asset_amount k (with_fixed_hash W asset op)" for k
    using store_tx_total [OF assms(2) s(1) fit] fx by simp
  have "asset_total (running_total f1) k + ?sum k < 2 ^ 64" for k
    using le [of k] sum [of k] by (metis (no_types, lifting) add.assoc add_le_mono1 le_less_trans)
  then have "payments_ok W f1 ps" by (simp add: payments_ok_def)
  then show ?case using Cons.IH [OF k(3) c s(3)] Cons.prems(4) p r(1,2) by auto
qed

lemma save_usable_payments_ok:
  assumes "wallet_ext_ok W" and "asset_arith_ok (wfund W)" and "wallet_ok W s"
    and "save_usable_payments_to_wallet W ps bn s = Some (t, usable)"
    and "\<forall>funds. get_fund_store W (w_db s) = Some funds \<longrightarrow> payments_ok W funds usable"
  shows "wallet_ok W t"
proof -
  obtain kv funds known where i: "wkv W (w_db s) kv" "funds_of W kv = Some funds" "known_of W kv = Some known"
      "contents_ok W (encryption_key s) kv funds known"
    using assms(3) by (auto simp: wallet_ok_def)
  obtain locked funds' b1 locked' b2 db u where u: "usable = filter (\<lambda>(_, _, a, _). a |\<in>| known) ps"
      "store_payments W bn usable funds (batch_writer (w_db s)) locked = Some (funds', b1, locked')"
      "set_fund_store W funds' b1 = Some b2" "db_write (batch_done b2) (w_db s) = Some db"
      "store_locked_coinbase W (Some locked') (s\<lparr>w_db := db\<rparr>) = Some u" "t = set_locked_coinbase (Some locked') u"
    using assms(4) wallet_reads(1,2) [OF i(1)] i(2,3)
    by (auto simp: save_usable_payments_to_wallet_def option_bind_Some_iff Let_def)
  have pk: "payments_ok W funds usable" using assms(5) wallet_reads(1) [OF i(1)] i(2) by simp
  have ak: "\<forall>(op, asset, a, lt) \<in> set usable. a |\<in>| known" using u(1) by auto
  obtain kv1 where 1: "wbatch W (w_db s) b1 kv1" "contents_ok W (encryption_key s) kv1 funds' known"
      "known_of W kv1 = Some known"
    using store_payments_ok [OF assms(1,2) wbatch_writer [OF i(1)] i(4) u(2) ak pk] i(3) by auto
  obtain ser where 2: "fund_deserialize W ser = Some funds'" "wbatch W (w_db s) b2 (fmupd (as_bytes FUND_KEY) ser kv1)"
    using set_fund_store_batch [OF assms(1) 1(1) u(3)] by blast
  let ?kv = "fmupd (as_bytes FUND_KEY) ser kv1"
  have w: "wkv W db ?kv" using wbatch_write [OF 2(2)] u(4) by auto
  have "contents_ok W (encryption_key s) ?kv funds' known"
    using 1(2) out_point_bytes [OF assms(1)] clean_bytes(1) by (fastforce simp: contents_ok_def reads_upd)
  then have ok: "wallet_ok W (s\<lparr>w_db := db\<rparr>)" using w 2(1) 1(3) by (auto simp: wallet_ok_def reads_upd)
  obtain lser where "db_put_cf (wcol W) (as_bytes LOCKED_COINBASE_KEY) lser db = Some (w_db u)" "encryption_key u = encryption_key s"
    using u(5) by (auto simp: store_locked_coinbase_def set_db_value_def option_bind_Some_iff)
  then have "wallet_ok W u"
    using wallet_ok_other_key [OF assms(1) ok, of LOCKED_COINBASE_KEY ?kv "w_db u" _ lser]
      wkv_put [OF w, of "as_bytes LOCKED_COINBASE_KEY" lser] w by auto
  then show ?thesis using u(6) by (simp add: set_locked_coinbase_def)
qed

lemma spend_tx_cases:
  assumes "spend_tx N op s = Some t"
  shows "t = s \<and> fmlookup (fs_transactions s) op = None \<or>
    (\<exists>a. fmlookup (fs_transactions s) op = Some a \<and> fs_transactions t = fmdrop op (fs_transactions s) \<and>
      spent_transactions t = fmupd op a (spent_transactions s) \<and> running_total t = update_sub N (running_total s) a)"
  using assms by (auto simp: spend_tx_def Let_def split: option.splits if_splits)

lemma spend_txs_contents:
  assumes "asset_arith_ok N" and "spend_txs N ops funds = Some funds'" and "contents_ok W key kv funds known"
  shows "contents_ok W key kv funds' known \<and> fs_transactions funds' = fmfilter (\<lambda>op. op \<notin> set ops) (fs_transactions funds)"
  using assms(2,3)
proof (induction ops arbitrary: funds)
  case Nil
  then show ?case by (auto intro: fmap_ext)
next
  case (Cons op ops)
  obtain f1 where f1: "spend_tx N op funds = Some f1" "spend_txs N ops f1 = Some funds'"
    using Cons.prems(1) by (auto simp: option_bind_Some_iff)
  have "balanced funds" using Cons.prems(2) by (simp add: contents_ok_def)
  then have b: "balanced f1" by (rule spend_tx_balanced [OF assms(1) _ f1(1)])
  have c: "contents_ok W key kv f1 known \<and> fs_transactions f1 = fmdrop op (fs_transactions funds)"
  proof (cases "fmlookup (fs_transactions funds) op")
    case None
    then show ?thesis using spend_tx_cases [OF f1(1)] Cons.prems(2) by (auto simp: fmdrop_idle fmdom_notI)
  next
    case (Some x)
    then have t: "fs_transactions f1 = fmdrop op (fs_transactions funds)" "spent_transactions f1 = fmupd op x (spent_transactions funds)"
      using spend_tx_cases [OF f1(1)] by auto
    have "op |\<in>| fmdom (fs_transactions funds)" using Some by (rule fmdomI)
    then obtain a where "addr_of W kv op = Some a" "clean_address W a" using Cons.prems(2) by (auto simp: contents_ok_def)
    then show ?thesis using Cons.prems(2) b t by (auto simp: contents_ok_def)
  qed
  have "fmfilter (\<lambda>x. x \<notin> set ops) (fmdrop op (fs_transactions funds)) = fmfilter (\<lambda>x. x \<notin> set (op # ops)) (fs_transactions funds)"
    by (rule fmap_ext) auto
  then show ?case using Cons.IH [OF f1(2) conjunct1 [OF c]] conjunct2 [OF c] by metis
qed

lemma contents_ok_fund_entry:
  assumes "wallet_ext_ok W" and "contents_ok W key kv funds known"
  shows "contents_ok W key (fmupd (as_bytes FUND_KEY) ser kv) funds known"
  using assms(2) out_point_bytes [OF assms(1)] clean_bytes(1) by (fastforce simp: contents_ok_def reads_upd)

lemma consume_ok:
  assumes "wallet_ext_ok W" and "asset_arith_ok (wfund W)" and "wallet_ok W s"
    and "consume_inputs_for_payment W tx_cons tx_used s = Some (t, ins)"
  shows "wallet_ok W t"
    and "\<exists>funds funds'. get_fund_store W (w_db s) = Some funds \<and> get_fund_store W (w_db t) = Some funds' \<and> balanced funds' \<and>
      fs_transactions funds' = fmfilter (\<lambda>op. op \<notin> fst ` set tx_used) (fs_transactions funds)"
    and "get_known_key_address W (w_db t) = get_known_key_address W (w_db s)" and "ins = construct_payment_tx_ins W tx_cons"
proof -
  obtain kv funds known where i: "wkv W (w_db s) kv" "funds_of W kv = Some funds" "known_of W kv = Some known"
      "contents_ok W (encryption_key s) kv funds known"
    using assms(3) by (auto simp: wallet_ok_def)
  obtain funds' b db where u: "spend_txs (wfund W) (map fst tx_used) funds = Some funds'"
      "set_fund_store W funds' (batch_writer (w_db s)) = Some b" "db_write (batch_done b) (w_db s) = Some db" "t = s\<lparr>w_db := db\<rparr>"
    using assms(4) wallet_reads(1) [OF i(1)] i(2) by (auto simp: consume_inputs_for_payment_def option_bind_Some_iff)
  show "ins = construct_payment_tx_ins W tx_cons" using assms(4) by (auto simp: consume_inputs_for_payment_def option_bind_Some_iff)
  note c = spend_txs_contents [OF assms(2) u(1) i(4)]
  obtain ser where 2: "fund_deserialize W ser = Some funds'" "wbatch W (w_db s) b (fmupd (as_bytes FUND_KEY) ser kv)"
    using set_fund_store_batch [OF assms(1) wbatch_writer [OF i(1)] u(2)] by blast
  let ?kv = "fmupd (as_bytes FUND_KEY) ser kv"
  have w: "wkv W db ?kv" using wbatch_write [OF 2(2)] u(3) by auto
  have ok: "contents_ok W (encryption_key s) ?kv funds' known" by (rule contents_ok_fund_entry [OF assms(1) conjunct1 [OF c]])
  then show "wallet_ok W t" using w 2(1) i(3) u(4) by (auto simp: wallet_ok_def reads_upd)
  have "get_fund_store W (w_db t) = Some funds'" using wallet_reads(1) [OF w] 2(1) u(4) by (simp add: reads_upd)
  then show "\<exists>funds funds'. get_fund_store W (w_db s) = Some funds \<and> get_fund_store W (w_db t) = Some funds' \<and> balanced funds' \<and>
      fs_transactions funds' = fmfilter (\<lambda>op. op \<notin> fst ` set tx_used) (fs_transactions funds)"
    using wallet_reads(1) [OF i(1)] i(2) c ok by (auto simp: contents_ok_def)
  show "get_known_key_address W (w_db t) = get_known_key_address W (w_db s)"
    using wallet_reads(2) [OF i(1)] wallet_reads(2) [OF w] u(4) by (simp add: reads_upd)
qed

subsection \<open>Purging\<close>

lemma key_addresses_set:
  assumes "wkv W db kv" and "key_addresses W db ops = Some as"
  shows "set as = {a. \<exists>op \<in> set ops. addr_of W kv op = Some a}" and "\<forall>op \<in> set ops. addr_of W kv op \<noteq> None"
proof -
  have "set as = {a. \<exists>op \<in> set ops. addr_of W kv op = Some a} \<and> (\<forall>op \<in> set ops. addr_of W kv op \<noteq> None)"
    using assms(2)
  proof (induction ops arbitrary: as)
    case (Cons op ops)
    obtain ts bs where o: "get_transaction_store W op db = Some ts" "key_addresses W db ops = Some bs" "as = key_address ts # bs"
      using Cons.prems by (auto simp: option_bind_Some_iff)
    have "addr_of W kv op = Some (key_address ts)" using wallet_reads(4) [OF assms(1), of op] o(1) by simp
    then show ?case using Cons.IH [OF o(2)] o(3) by auto
  qed simp
  then show "set as = {a. \<exists>op \<in> set ops. addr_of W kv op = Some a}" and "\<forall>op \<in> set ops. addr_of W kv op \<noteq> None" by auto
qed

lemma delete_addresses_batch:
  assumes "wbatch W db b kv" and "delete_addresses W as b = Some b'"
  shows "wbatch W db b' (fmfilter (\<lambda>k. k \<notin> as_bytes ` set as) kv)"
  using assms
proof (induction as arbitrary: b kv)
  case Nil
  then show ?case by simp
next
  case (Cons a as)
  obtain b1 where b1: "delete_address_store W a b = Some b1" "delete_addresses W as b1 = Some b'"
    using Cons.prems(2) by (auto simp: option_bind_Some_iff)
  have "wbatch W db b1 (fmdrop (as_bytes a) kv)"
    using wbatch_delete [OF Cons.prems(1), of "as_bytes a"] b1(1) by (auto simp: delete_address_store_def)
  moreover have "fmfilter (\<lambda>k. k \<notin> as_bytes ` set as) (fmdrop (as_bytes a) kv) = fmfilter (\<lambda>k. k \<notin> as_bytes ` set (a # as)) kv"
    by (rule fmap_ext) auto
  ultimately show ?case using Cons.IH b1(2) by metis
qed

lemma delete_transactions_batch:
  assumes "wbatch W db b kv" and "delete_transactions W ops b = Some b'"
  shows "wbatch W db b' (fmfilter (\<lambda>k. Some k \<notin> out_point_serialize W ` set ops) kv)"
  using assms
proof (induction ops arbitrary: b kv)
  case Nil
  then show ?case by simp
next
  case (Cons op ops)
  obtain k b1 where b1: "out_point_serialize W op = Some k" "batch_delete_cf (wcol W) k b = Some b1" "delete_transactions W ops b1 = Some b'"
    using Cons.prems(2) by (auto simp: delete_transaction_store_def option_bind_Some_iff)
  have "wbatch W db b1 (fmdrop k kv)"
    using wbatch_delete [OF Cons.prems(1), of k] b1(2) by auto
  moreover have "fmfilter (\<lambda>k. Some k \<notin> out_point_serialize W ` set ops) (fmdrop k kv) =
      fmfilter (\<lambda>k. Some k \<notin> out_point_serialize W ` set (op # ops)) kv"
    by (rule fmap_ext) (auto simp: b1(1))
  ultimately show ?case using Cons.IH b1(3) by metis
qed

lemma reads_cong:
  "fmlookup kv' (as_bytes FUND_KEY) = fmlookup kv (as_bytes FUND_KEY) \<Longrightarrow> funds_of W kv' = funds_of W kv"
  "fmlookup kv' (as_bytes KNOWN_ADDRESS_KEY) = fmlookup kv (as_bytes KNOWN_ADDRESS_KEY) \<Longrightarrow> known_of W kv' = known_of W kv"
  "fmlookup kv' (as_bytes a) = fmlookup kv (as_bytes a) \<Longrightarrow> keys_of W key kv' a = keys_of W key kv a"
  "\<forall>k. out_point_serialize W op = Some k \<longrightarrow> fmlookup kv' k = fmlookup kv k \<Longrightarrow> addr_of W kv' op = addr_of W kv op"
  by (auto simp: funds_of_def known_of_def keys_of_def addr_of_def split: Option.bind_splits)

text \<open>What is left of the column when the purged entries are gone.\<close>

definition purged_kv ::
    "wallet_ext \<Rightarrow> string fset \<Rightarrow> (OutPoint, Asset) fmap \<Rightarrow> (bytes, bytes) fmap \<Rightarrow> (bytes, bytes) fmap" where
  "purged_kv W removed spent kv =
     fmfilter (\<lambda>k. Some k \<notin> out_point_serialize W ` fset (fmdom spent)) (fmfilter (\<lambda>k. k \<notin> as_bytes ` fset removed) kv)"

lemma destroy_spent_cases:
  assumes "wallet_ext_ok W" and "wkv W db kv" and "funds_of W kv = Some funds" and "known_of W kv = Some known"
    and "destroy_spent_transactions_and_keys W addresses db = Some (db', removed, spent)"
  obtains fser kser where "spent = spent_transactions funds"
    and "\<forall>a. a |\<in>| removed \<longleftrightarrow> (a |\<in>| (case addresses of None \<Rightarrow> {||} | Some as \<Rightarrow> as) \<or> (\<exists>op. op |\<in>| fmdom spent \<and> addr_of W kv op = Some a)) \<and>
      (\<forall>op. op |\<in>| fmdom (fs_transactions funds) \<longrightarrow> addr_of W kv op \<noteq> Some a)"
    and "fund_deserialize W fser = Some (funds\<lparr>spent_transactions := fmempty\<rparr>)"
    and "known_deserialize W kser = Some (known |-| removed)"
    and "wkv W db' (purged_kv W removed spent (fmupd (as_bytes KNOWN_ADDRESS_KEY) kser (fmupd (as_bytes FUND_KEY) fser kv)))"
proof -
  obtain empty us ss b1 b2 b3 b4 where d:
      "retrieve_empty_addresses W (case addresses of None \<Rightarrow> {||} | Some a \<Rightarrow> a) db = Some empty"
      "key_addresses W db (fmkeys (fs_transactions funds)) = Some us" "spent = spent_transactions funds"
      "key_addresses W db (fmkeys spent) = Some ss"
      "removed = fset_of_list (filter (\<lambda>a. a \<notin> set us) ss) |\<union>| empty"
      "set_fund_store W (funds\<lparr>spent_transactions := fmempty\<rparr>) (batch_writer db) = Some b1"
      "set_known_key_address W (known |-| removed) b1 = Some b2"
      "delete_addresses W (sorted_list_of_fset removed) b2 = Some b3" "delete_transactions W (fmkeys spent) b3 = Some b4"
      "db_write (batch_done b4) db = Some db'"
    using assms(5) wallet_reads(1,2) [OF assms(2)] assms(3,4)
    by (auto simp: destroy_spent_transactions_and_keys_def remove_spent_transactions_def Let_def option_bind_Some_iff)
  have e: "empty = ffilter (\<lambda>a. a \<notin> set us) (case addresses of None \<Rightarrow> {||} | Some a \<Rightarrow> a)"
    using d(1,2) wallet_reads(1) [OF assms(2)] assms(3)
    by (auto simp: retrieve_empty_addresses_def retrieve_empty_or_non_empty_addresses_def)
  note us = key_addresses_set(1) [OF assms(2) d(2)] and ss = key_addresses_set(1) [OF assms(2) d(4)]
  obtain fser where f: "fund_deserialize W fser = Some (funds\<lparr>spent_transactions := fmempty\<rparr>)"
      "wbatch W db b1 (fmupd (as_bytes FUND_KEY) fser kv)"
    using set_fund_store_batch [OF assms(1) wbatch_writer [OF assms(2)] d(6)] by blast
  obtain kser where k: "known_deserialize W kser = Some (known |-| removed)"
      "wbatch W db b2 (fmupd (as_bytes KNOWN_ADDRESS_KEY) kser (fmupd (as_bytes FUND_KEY) fser kv))"
    using set_known_batch [OF assms(1) f(2) d(7)] by blast
  note w = delete_transactions_batch [OF delete_addresses_batch [OF k(2) d(8)] d(9)]
  have v: "wkv W db' (purged_kv W removed spent (fmupd (as_bytes KNOWN_ADDRESS_KEY) kser (fmupd (as_bytes FUND_KEY) fser kv)))"
    using wbatch_write [OF w] d(10) by (auto simp: purged_kv_def)
  have m: "a \<in> set us \<longleftrightarrow> (\<exists>op. op |\<in>| fmdom (fs_transactions funds) \<and> addr_of W kv op = Some a)"
    "a \<in> set ss \<longleftrightarrow> (\<exists>op. op |\<in>| fmdom spent \<and> addr_of W kv op = Some a)" for a
    unfolding us ss by auto
  show thesis
  proof (rule that [OF d(3) _ f(1) k(1) v])
    show "\<forall>a. a |\<in>| removed \<longleftrightarrow> (a |\<in>| (case addresses of None \<Rightarrow> {||} | Some as \<Rightarrow> as) \<or> (\<exists>op. op |\<in>| fmdom spent \<and> addr_of W kv op = Some a)) \<and>
      (\<forall>op. op |\<in>| fmdom (fs_transactions funds) \<longrightarrow> addr_of W kv op \<noteq> Some a)"
      unfolding d(5) e funion_iff ffmember_filter fset_of_list_elem set_filter mem_Collect_eq m by blast
  qed
qed

lemma purged_reads:
  assumes "wallet_ext_ok W" and "\<forall>a. a |\<in>| removed \<longrightarrow> clean_address W a"
  shows "funds_of W (purged_kv W removed spent kv) = funds_of W kv" "known_of W (purged_kv W removed spent kv) = known_of W kv"
    "clean_address W a \<Longrightarrow> keys_of W key (purged_kv W removed spent kv) a = (if a |\<in>| removed then None else keys_of W key kv a)"
    "op |\<notin>| fmdom spent \<Longrightarrow> addr_of W (purged_kv W removed spent kv) op = addr_of W kv op"
    "head_ok W key (purged_kv W removed spent kv) = head_ok W key kv"
proof -
  let ?kv = "purged_kv W removed spent kv"
  have named: "as_bytes x \<notin> as_bytes ` fset removed" "Some (as_bytes x) \<notin> out_point_serialize W ` fset (fmdom spent)"
    if "x \<in> {FUND_KEY, KNOWN_ADDRESS_KEY, MASTER_KEY_STORE_KEY, VERSION_NAME}" for x
  proof -
    have "x \<noteq> a" if "a |\<in>| removed" for a
      using assms(2) clean_bytes(1,2,4,6) [of W a] that \<open>x \<in> _\<close> by auto
    then show "as_bytes x \<notin> as_bytes ` fset removed" by auto
    have "out_point_serialize W op \<noteq> Some (as_bytes x)" for op using out_point_bytes [OF assms(1), of op] that by auto
    then show "Some (as_bytes x) \<notin> out_point_serialize W ` fset (fmdom spent)" by (metis imageE)
  qed
  show "funds_of W ?kv = funds_of W kv" "known_of W ?kv = known_of W kv"
    using named by (simp_all add: funds_of_def known_of_def purged_kv_def)
  show "head_ok W key ?kv = head_ok W key kv"
    by (rule head_ok_cong) (use named in \<open>simp_all add: purged_kv_def\<close>)
  show "keys_of W key ?kv a = (if a |\<in>| removed then None else keys_of W key kv a)" if "clean_address W a"
  proof (cases "a |\<in>| removed")
    case True
    then show ?thesis by (simp add: keys_of_def purged_kv_def)
  next
    case False
    have "Some (as_bytes a) \<notin> out_point_serialize W ` fset (fmdom spent)" using clean_bytes(5) [OF that] by (metis imageE)
    moreover have "as_bytes a \<notin> as_bytes ` fset removed" using False by auto
    ultimately show ?thesis using False by (simp add: keys_of_def purged_kv_def)
  qed
  show "addr_of W ?kv op = addr_of W kv op" if "op |\<notin>| fmdom spent"
  proof (rule reads_cong(4), intro allI impI)
    fix x
    assume x: "out_point_serialize W op = Some x"
    have "x \<notin> as_bytes ` fset removed" using assms(2) clean_bytes(5) x by fastforce
    moreover have "Some x \<notin> out_point_serialize W ` fset (fmdom spent)"
      using wallet_ext_okD(7) [OF assms(1) _ x] that by (metis imageE)
    ultimately show "fmlookup ?kv x = fmlookup kv x" by (simp add: purged_kv_def)
  qed
qed

lemma purged_gone:
  assumes "op |\<in>| fmdom spent"
  shows "addr_of W (purged_kv W removed spent kv) op = None"
proof (cases "out_point_serialize W op")
  case (Some k)
  then have "Some k \<in> out_point_serialize W ` fset (fmdom spent)" using assms by (metis imageI)
  then show ?thesis using Some by (simp add: addr_of_def purged_kv_def)
qed (simp add: addr_of_def)

lemma purged_contents:
  assumes "wallet_ext_ok W" and "contents_ok W key kv funds known" and "\<forall>a. a |\<in>| removed \<longrightarrow> clean_address W a"
    and "\<forall>a op. a |\<in>| removed \<longrightarrow> op |\<in>| fmdom (fs_transactions funds) \<longrightarrow> addr_of W kv op \<noteq> Some a"
    and "fmdom (fs_transactions funds) |\<inter>| fmdom (spent_transactions funds) = {||}"
    and "kv' = fmupd (as_bytes KNOWN_ADDRESS_KEY) kser (fmupd (as_bytes FUND_KEY) fser kv)"
  shows "contents_ok W key (purged_kv W removed (spent_transactions funds) kv') (funds\<lparr>spent_transactions := fmempty\<rparr>) (known |-| removed)"
    (is "contents_ok W key ?kv _ _")
proof -
  note r = purged_reads [OF assms(1,3)]
  have up: "addr_of W kv' op = addr_of W kv op" "clean_address W a \<Longrightarrow> keys_of W key kv' a = keys_of W key kv a" for op a
    using out_point_bytes [OF assms(1), of op] clean_bytes(1,2) [of W a] by (auto simp: assms(6) reads_upd)
  have head: "head_ok W key ?kv = head_ok W key kv" using r(5) by (simp add: assms(6))
  have known: "clean_address W a \<and> keys_of W key ?kv a \<noteq> None" if "a |\<in>| known |-| removed" for a
    using that assms(2) r(3) [of a key] up(2) [of a] by (auto simp: contents_ok_def)
  have unspent: "\<exists>a. addr_of W ?kv op = Some a \<and> a |\<in>| known |-| removed" if x: "op |\<in>| fmdom (fs_transactions funds)" for op
  proof -
    obtain a where a: "addr_of W kv op = Some a" "a |\<in>| known" using assms(2) x by (auto simp: contents_ok_def)
    moreover have "a |\<notin>| removed" using a(1) x assms(4) by blast
    moreover have "op |\<notin>| fmdom (spent_transactions funds)" using assms(5) x by auto
    ultimately show ?thesis using r(4) [of op] up(1) [of op] by auto
  qed
  show ?thesis using assms(2) head known unspent by (simp add: contents_ok_def)
qed

text \<open>No outpoint is both spent and unspent.\<close>

definition spent_apart :: "wallet_ext \<Rightarrow> WalletDb \<Rightarrow> bool" where
  "spent_apart W s \<longleftrightarrow> (\<forall>funds. get_fund_store W (w_db s) = Some funds \<longrightarrow>
     fmdom (fs_transactions funds) |\<inter>| fmdom (spent_transactions funds) = {||})"

lemma destroy_spent_effect:
  assumes "wallet_ext_ok W" and "wallet_ok W s" and "wallet_destroy_spent W addresses s = Some (t, removed, spent)"
    and "\<forall>as. addresses = Some as \<longrightarrow> (\<forall>a. a |\<in>| as \<longrightarrow> clean_address W a)"
  obtains kv funds known kv' where "wkv W (w_db s) kv" and "funds_of W kv = Some funds" and "known_of W kv = Some known"
    and "contents_ok W (encryption_key s) kv funds known" and "encryption_key t = encryption_key s" and "wkv W (w_db t) kv'"
    and "spent = spent_transactions funds" and "\<forall>a. a |\<in>| removed \<longrightarrow> clean_address W a"
    and "\<forall>a. a |\<in>| removed \<longleftrightarrow> (a |\<in>| (case addresses of None \<Rightarrow> {||} | Some as \<Rightarrow> as) \<or> (\<exists>op. op |\<in>| fmdom spent \<and> addr_of W kv op = Some a)) \<and>
      (\<forall>op. op |\<in>| fmdom (fs_transactions funds) \<longrightarrow> addr_of W kv op \<noteq> Some a)"
    and "funds_of W kv' = Some (funds\<lparr>spent_transactions := fmempty\<rparr>)" and "known_of W kv' = Some (known |-| removed)"
    and "\<forall>a. clean_address W a \<longrightarrow>
      keys_of W (encryption_key s) kv' a = (if a |\<in>| removed then None else keys_of W (encryption_key s) kv a)"
    and "\<forall>op. addr_of W kv' op = (if op |\<in>| fmdom spent then None else addr_of W kv op)"
    and "fmdom (fs_transactions funds) |\<inter>| fmdom (spent_transactions funds) = {||} \<Longrightarrow>
      contents_ok W (encryption_key s) kv' (funds\<lparr>spent_transactions := fmempty\<rparr>) (known |-| removed)"
proof -
  obtain kv funds known where i: "wkv W (w_db s) kv" "funds_of W kv = Some funds" "known_of W kv = Some known"
      "contents_ok W (encryption_key s) kv funds known"
    using assms(2) by (auto simp: wallet_ok_def)
  obtain db' where u: "destroy_spent_transactions_and_keys W addresses (w_db s) = Some (db', removed, spent)" "t = s\<lparr>w_db := db'\<rparr>"
    using assms(3) by (auto simp: wallet_destroy_spent_def option_bind_Some_iff)
  from destroy_spent_cases [OF assms(1) i(1-3) u(1)] obtain fser kser where sp: "spent = spent_transactions funds"
    and rm: "\<forall>a. a |\<in>| removed \<longleftrightarrow> (a |\<in>| (case addresses of None \<Rightarrow> {||} | Some as \<Rightarrow> as) \<or> (\<exists>op. op |\<in>| fmdom spent \<and> addr_of W kv op = Some a)) \<and>
      (\<forall>op. op |\<in>| fmdom (fs_transactions funds) \<longrightarrow> addr_of W kv op \<noteq> Some a)"
    and f: "fund_deserialize W fser = Some (funds\<lparr>spent_transactions := fmempty\<rparr>)"
    and k: "known_deserialize W kser = Some (known |-| removed)"
    and w: "wkv W db' (purged_kv W removed spent (fmupd (as_bytes KNOWN_ADDRESS_KEY) kser (fmupd (as_bytes FUND_KEY) fser kv)))"
    by blast
  let ?kv1 = "fmupd (as_bytes KNOWN_ADDRESS_KEY) kser (fmupd (as_bytes FUND_KEY) fser kv)"
  have clean: "\<forall>a. a |\<in>| removed \<longrightarrow> clean_address W a"
    using rm assms(4) i(4) sp by (auto simp: contents_ok_def split: option.splits)
  note r = purged_reads [OF assms(1) clean]
  have up: "addr_of W ?kv1 op = addr_of W kv op" "clean_address W a \<Longrightarrow> keys_of W (encryption_key s) ?kv1 a = keys_of W (encryption_key s) kv a" for op a
    using out_point_bytes [OF assms(1), of op] clean_bytes(1,2) [of W a] by (auto simp: reads_upd)
  show thesis
  proof (rule that [OF i _ _ sp clean rm])
    show "encryption_key t = encryption_key s" "wkv W (w_db t) (purged_kv W removed spent ?kv1)" using u(2) w by simp_all
    show "\<forall>a. clean_address W a \<longrightarrow> keys_of W (encryption_key s) (purged_kv W removed spent ?kv1) a =
        (if a |\<in>| removed then None else keys_of W (encryption_key s) kv a)" using r(3) up(2) by simp
    show "\<forall>op. addr_of W (purged_kv W removed spent ?kv1) op = (if op |\<in>| fmdom spent then None else addr_of W kv op)"
      using r(4) up(1) purged_gone by simp
    show "contents_ok W (encryption_key s) (purged_kv W removed spent ?kv1) (funds\<lparr>spent_transactions := fmempty\<rparr>) (known |-| removed)"
      if "fmdom (fs_transactions funds) |\<inter>| fmdom (spent_transactions funds) = {||}"
      unfolding sp by (rule purged_contents [OF assms(1) i(4) clean _ that refl]) (use rm in blast)
  qed (use r(1,2) f k in \<open>simp_all add: reads_upd\<close>)
qed

lemma destroy_spent_ok:
  assumes "wallet_ext_ok W" and "wallet_ok W s" and "wallet_destroy_spent W addresses s = Some (t, removed, spent)"
    and "\<forall>as. addresses = Some as \<longrightarrow> (\<forall>a. a |\<in>| as \<longrightarrow> clean_address W a)" and "spent_apart W s"
  shows "wallet_ok W t"
proof (cases rule: destroy_spent_effect [OF assms(1-4)])
  case (1 kv funds known kv')
  have "fmdom (fs_transactions funds) |\<inter>| fmdom (spent_transactions funds) = {||}"
    using assms(5) wallet_reads(1) [OF 1(1)] 1(2) by (simp add: spent_apart_def)
  then show ?thesis using 1(5,6,10,11,14) unfolding wallet_ok_def by metis
qed

subsection \<open>The passphrase\<close>

text \<open>A sealed box opens with its key only; keys are their bytes.\<close>

definition secret_box_ok :: "wallet_ext \<Rightarrow> bool" where
  "secret_box_ok W \<longleftrightarrow>
     (\<forall>x n k b k'. box_seal W x n k = Some b \<and> k' \<noteq> k \<longrightarrow> box_open W b n k' = None) \<and>
     (\<forall>b k. Key_from_slice W b = Some k \<longrightarrow> k = b)"

lemma box_open_sealed:
  assumes "wallet_ext_ok W" and "secret_box_ok W" and "box_seal W x n k = Some b"
  shows "box_open W b n k' = (if k' = k then Some x else None)"
  using assms wallet_ext_okD(8) [OF assms(1,3)] by (auto simp: secret_box_ok_def)

lemma wallet_ok_head: "wallet_ok W s \<Longrightarrow> \<exists>kv. wkv W (w_db s) kv \<and> head_ok W (encryption_key s) kv"
  by (auto simp: wallet_ok_def contents_ok_def)

lemma master_key_unique:
  assumes "wallet_ext_ok W" and "secret_box_ok W" and "wallet_ok W s" and "get_master_key_store W p (w_db s) = Some (Inr key)"
  shows "key = encryption_key s"
proof -
  obtain kv ser store k where h: "wkv W (w_db s) kv" "fmlookup kv (as_bytes MASTER_KEY_STORE_KEY) = Some ser"
      "master_deserialize W ser = Some store" "box_seal W (encryption_key s) (mk_nonce store) k = Some (enc_master_key store)"
    using wallet_ok_head [OF assms(3)] by (auto simp: head_ok_def)
  obtain pk master where m: "box_open W (enc_master_key store) (mk_nonce store) pk = Some master" "Key_from_slice W master = Some key"
    using assms(4) wkv_get [OF h(1)] h(2,3)
    by (auto simp: get_master_key_store_def option_bind_Some_iff option_case_eq_iff)
  then have "master = encryption_key s" using box_open_sealed [OF assms(1,2) h(4), of pk] by (auto split: if_splits)
  then show ?thesis using m(2) assms(2) by (auto simp: secret_box_ok_def)
qed

lemma put_master_key_store_batch:
  assumes "wallet_ext_ok W" and "wbatch W db b kv" and "put_master_key_store W R p key b = Some b'"
  obtains ser k enc where "make_key W p (rand_salt R) = Some k" and "box_seal W key (rand_nonce R) k = Some enc"
    and "master_deserialize W ser = Some \<lparr>mk_salt = rand_salt R, mk_nonce = rand_nonce R, enc_master_key = enc\<rparr>"
    and "wbatch W db b' (fmupd (as_bytes MASTER_KEY_STORE_KEY) ser kv)"
proof -
  obtain k enc ser where "make_key W p (rand_salt R) = Some k" "box_seal W key (rand_nonce R) k = Some enc"
      "master_serialize W \<lparr>mk_salt = rand_salt R, mk_nonce = rand_nonce R, enc_master_key = enc\<rparr> = Some ser"
      "batch_put_cf (wcol W) (as_bytes MASTER_KEY_STORE_KEY) ser b = Some b'"
    using assms(3) by (auto simp: put_master_key_store_def option_bind_Some_iff)
  then show thesis using that wallet_ext_okD(5) [OF assms(1)] wbatch_put_Some [OF assms(2)] by blast
qed

text \<open>The entry holds the key, sealed under the passphrase and the random values.\<close>

definition sealed_under :: "wallet_ext \<Rightarrow> wallet_rand \<Rightarrow> string \<Rightarrow> bytes \<Rightarrow> SimpleDb \<Rightarrow> bool" where
  "sealed_under W R p key db \<longleftrightarrow>
     (\<exists>kv ser k enc. wkv W db kv \<and> fmlookup kv (as_bytes MASTER_KEY_STORE_KEY) = Some ser \<and>
        master_deserialize W ser = Some \<lparr>mk_salt = rand_salt R, mk_nonce = rand_nonce R, enc_master_key = enc\<rparr> \<and>
        make_key W (as_bytes p) (rand_salt R) = Some k \<and> box_seal W key (rand_nonce R) k = Some enc)"

lemma sealed_under_read:
  assumes "wallet_ext_ok W" and "secret_box_ok W" and "sealed_under W R p key db" and "Key_from_slice W key = Some key"
  shows "get_master_key_store W (as_bytes p) db = Some (Inr key)"
    and "make_key W (as_bytes q) (rand_salt R) = Some k \<Longrightarrow> make_key W (as_bytes p) (rand_salt R) \<noteq> Some k \<Longrightarrow>
      get_master_key_store W (as_bytes q) db = Some (Inl PassphraseError)"
proof -
  obtain kv ser k' enc where h: "wkv W db kv" "fmlookup kv (as_bytes MASTER_KEY_STORE_KEY) = Some ser"
      "master_deserialize W ser = Some \<lparr>mk_salt = rand_salt R, mk_nonce = rand_nonce R, enc_master_key = enc\<rparr>"
      "make_key W (as_bytes p) (rand_salt R) = Some k'" "box_seal W key (rand_nonce R) k' = Some enc"
    using assms(3) by (auto simp: sealed_under_def)
  note r = wkv_get [OF h(1)] h(2-4) box_open_sealed [OF assms(1,2) h(5)] assms(4)
  show "get_master_key_store W (as_bytes p) db = Some (Inr key)" using r by (simp add: get_master_key_store_def)
  show "get_master_key_store W (as_bytes q) db = Some (Inl PassphraseError)"
    if "make_key W (as_bytes q) (rand_salt R) = Some k" "make_key W (as_bytes p) (rand_salt R) \<noteq> Some k"
    using r that by (auto simp: get_master_key_store_def)
qed

lemma re_encrypt_ok:
  assumes "wallet_ext_ok W" and "wallet_ok W s" and "put_master_key_store W R (as_bytes new) (encryption_key s) (batch_writer (w_db s)) = Some b"
    and "db_write (batch_done b) (w_db s) = Some db" and "t = s\<lparr>w_db := db\<rparr>"
  shows "wallet_ok W t" and "sealed_under W R new (encryption_key s) (w_db t)"
proof -
  obtain kv where kv: "wkv W (w_db s) kv" "head_ok W (encryption_key s) kv" using wallet_ok_head [OF assms(2)] by blast
  obtain ser k enc where p: "make_key W (as_bytes new) (rand_salt R) = Some k" "box_seal W (encryption_key s) (rand_nonce R) k = Some enc"
      "master_deserialize W ser = Some \<lparr>mk_salt = rand_salt R, mk_nonce = rand_nonce R, enc_master_key = enc\<rparr>"
      "wbatch W (w_db s) b (fmupd (as_bytes MASTER_KEY_STORE_KEY) ser kv)"
    by (rule put_master_key_store_batch [OF assms(1) wbatch_writer [OF kv(1)] assms(3)])
  have w: "wkv W db (fmupd (as_bytes MASTER_KEY_STORE_KEY) ser kv)" using wbatch_write [OF p(4)] assms(4) by auto
  have "head_ok W (encryption_key s) (fmupd (as_bytes MASTER_KEY_STORE_KEY) ser kv)"
    using kv(2) p(2,3) by (auto simp: head_ok_def)
  then show "wallet_ok W t"
    using wallet_ok_other_key [OF assms(1,2) _ kv(1) w, of MASTER_KEY_STORE_KEY ser t] assms(5) by simp
  have "fmlookup (fmupd (as_bytes MASTER_KEY_STORE_KEY) ser kv) (as_bytes MASTER_KEY_STORE_KEY) = Some ser" by simp
  then show "sealed_under W R new (encryption_key s) (w_db t)"
    using w p(1-3) assms(5) unfolding sealed_under_def by fastforce
qed

lemma change_passphrase_ok:
  assumes "wallet_ext_ok W" and "secret_box_ok W" and "wallet_ok W s"
    and "change_wallet_passphrase W R old new s = Some (t, r)"
  shows "wallet_ok W t" and "encryption_key t = encryption_key s"
    and "r = Inl e \<Longrightarrow> t = s \<and> test_passphrase W old s = Some (Inl e)"
    and "r = Inr u \<Longrightarrow> sealed_under W R new (encryption_key s) (w_db t) \<and>
      get_master_key_store W (as_bytes old) (w_db s) = Some (Inr (encryption_key s))"
proof -
  obtain m where m: "get_master_key_store W (as_bytes old) (w_db s) = Some m"
    using assms(4) by (auto simp: change_wallet_passphrase_def re_encrypt_master_key_def option_bind_Some_iff)
  have "wallet_ok W t \<and> encryption_key t = encryption_key s \<and> (r = Inl e \<longrightarrow> t = s \<and> test_passphrase W old s = Some (Inl e)) \<and>
    (r = Inr u \<longrightarrow> sealed_under W R new (encryption_key s) (w_db t) \<and>
      get_master_key_store W (as_bytes old) (w_db s) = Some (Inr (encryption_key s)))"
  proof (cases m)
    case (Inl e')
    then have "t = s" "r = Inl e'"
      using assms(4) m by (auto simp: change_wallet_passphrase_def re_encrypt_master_key_def)
    then show ?thesis using assms(3) m Inl by (auto simp: test_passphrase_def wallet_get_master_key_store_def)
  next
    case (Inr key)
    then have key: "key = encryption_key s" using master_key_unique [OF assms(1-3)] m by simp
    obtain b db where b: "put_master_key_store W R (as_bytes new) key (batch_writer (w_db s)) = Some b"
        "db_write (batch_done b) (w_db s) = Some db" "t = s\<lparr>w_db := db\<rparr>" "r = Inr ()"
      using assms(4) m Inr by (auto simp: change_wallet_passphrase_def re_encrypt_master_key_def option_bind_Some_iff)
    show ?thesis using re_encrypt_ok [OF assms(1,3) b(1) [unfolded key] b(2,3)] b(3,4) key m Inr by auto
  qed
  then show "wallet_ok W t" and "encryption_key t = encryption_key s"
    and "r = Inl e \<Longrightarrow> t = s \<and> test_passphrase W old s = Some (Inl e)"
    and "r = Inr u \<Longrightarrow> sealed_under W R new (encryption_key s) (w_db t) \<and>
      get_master_key_store W (as_bytes old) (w_db s) = Some (Inr (encryption_key s))"
    by blast+
qed

subsection \<open>Opening a wallet\<close>

lemma new_db_fresh:
  assumes "new_db D [] None = Some db"
  shows "db_inv db" and "db_abs db (DB_COL_DEFAULT D) = Some (fmupd DB_VERSION_KEY (NETWORK_VERSION_SERIALIZED D) fmempty)"
  using assms
  by (auto simp: new_db_inv [OF _ assms]) (auto simp: new_db_def new_db_with_version_def new_in_memory_def with_initial_data_def
      db_get_cf_def db_put_cf_def nth_or_panic_def check_version_def db_abs_def)

lemma balanced_empty: "balanced \<lparr>running_total = AssetValues_default, fs_transactions = fmempty, transaction_pages = ps, spent_transactions = sp\<rparr>"
  by (auto simp: balanced_def AssetValues_default_def asset_total_cases)

lemma WalletDb_new_ok:
  assumes "wallet_ext_ok W" and "WalletDb_new W R None p = Some (Inr s)"
  shows "wallet_ok W s" and "encryption_key s = rand_key R"
proof -
  obtain db where db: "new_db (wdb W) [] None = Some db" using assms(2) by (auto simp: WalletDb_new_def option_bind_Some_iff)
  have kv: "wkv W db (fmupd (as_bytes VERSION_NAME) (NETWORK_VERSION_SERIALIZED (wdb W)) fmempty)" (is "wkv W db ?kv")
    using new_db_fresh [OF db] by (simp add: wkv_def version_key)
  have "get_master_key_store W q db = Some (Inl MasterKeyMissingError)" for q
    using wkv_get [OF kv] by (simp add: get_master_key_store_def)
  then obtain b db' where b: "put_master_key_store W R (as_bytes (case p of None \<Rightarrow> [] | Some p \<Rightarrow> p)) (rand_key R) (batch_writer db) = Some b"
      "db_write (batch_done b) db = Some db'" "w_db s = db'" "encryption_key s = rand_key R"
    using assms(2) db
    by (auto simp: WalletDb_new_def get_or_save_master_key_store_def set_new_master_key_store_def option_bind_Some_iff)
  show "encryption_key s = rand_key R" by (rule b(4))
  obtain ser k enc where m: "box_seal W (rand_key R) (rand_nonce R) k = Some enc"
      "master_deserialize W ser = Some \<lparr>mk_salt = rand_salt R, mk_nonce = rand_nonce R, enc_master_key = enc\<rparr>"
      "wbatch W db b (fmupd (as_bytes MASTER_KEY_STORE_KEY) ser ?kv)"
    using put_master_key_store_batch [OF assms(1) wbatch_writer [OF kv] b(1)] by blast
  let ?kv' = "fmupd (as_bytes MASTER_KEY_STORE_KEY) ser ?kv"
  have w: "wkv W db' ?kv'" using wbatch_write [OF m(3)] b(2) by auto
  have r: "funds_of W ?kv' = Some \<lparr>running_total = AssetValues_default, fs_transactions = fmempty,
      transaction_pages = [], spent_transactions = fmempty\<rparr>" "known_of W ?kv' = Some {||}"
    by (simp_all add: reads_upd) (simp_all add: funds_of_def known_of_def)
  have "contents_ok W (rand_key R) ?kv' \<lparr>running_total = AssetValues_default, fs_transactions = fmempty,
      transaction_pages = [], spent_transactions = fmempty\<rparr> {||}"
    using m(1,2) balanced_empty by (auto simp: contents_ok_def head_ok_def)
  then show "wallet_ok W s" using w r b(3,4) by (auto simp: wallet_ok_def)
qed

lemma reopen_ok:
  assumes "wallet_ext_ok W" and "secret_box_ok W" and "wallet_ok W s"
  shows "get_master_key_store W (as_bytes p) (w_db s) = Some (Inr key) \<Longrightarrow>
      WalletDb_new W R (Some (w_db s)) (Some p) = Some (Inr \<lparr>w_db = w_db s, encryption_key = encryption_key s, locked_coinbase = None,
        last_generated_address = None, last_locked_coinbase_filter_b_num = None\<rparr>)"
    and "get_master_key_store W (as_bytes p) (w_db s) = Some (Inl e) \<Longrightarrow> WalletDb_new W R (Some (w_db s)) (Some p) = Some (Inl e)"
proof -
  obtain kv where kv: "wkv W (w_db s) kv" "head_ok W (encryption_key s) kv" using wallet_ok_head [OF assms(3)] by blast
  have "wcol W \<in> set (open_columns (w_db s))"
    using kv(1) by (auto simp: wkv_def db_abs_def open_columns_def fmdomI)
  then have n: "new_db (wdb W) [] (Some (w_db s)) = Some (w_db s)"
    using wkv_get [OF kv(1)] kv(2)
    by (simp add: new_db_def new_db_with_version_def new_in_memory_def check_old_includes_new_def check_version_def version_key head_ok_def)
  have b: "db_write (batch_done (batch_writer (w_db s))) (w_db s) = Some (w_db s)"
    by (simp add: batch_writer_def batch_done_def db_write_def)
  show "WalletDb_new W R (Some (w_db s)) (Some p) = Some (Inr \<lparr>w_db = w_db s, encryption_key = encryption_key s, locked_coinbase = None,
        last_generated_address = None, last_locked_coinbase_filter_b_num = None\<rparr>)"
    if "get_master_key_store W (as_bytes p) (w_db s) = Some (Inr key)"
    using n b that master_key_unique [OF assms that] by (simp add: WalletDb_new_def get_or_save_master_key_store_def)
  show "WalletDb_new W R (Some (w_db s)) (Some p) = Some (Inl e)"
    if "get_master_key_store W (as_bytes p) (w_db s) = Some (Inl e)"
  proof -
    have "e \<noteq> MasterKeyMissingError"
      using that wkv_get [OF kv(1)] kv(2) by (auto simp: get_master_key_store_def head_ok_def option_bind_Some_iff split: option.splits)
    then show ?thesis using n that by (cases e) (simp_all add: WalletDb_new_def get_or_save_master_key_store_def)
  qed
qed

section \<open>Reachable wallets\<close>

text \<open>
  Opening a new wallet or an existing one, and the operations the nodes and the API use on it. Nonces
  have the length of nonces; what the wallet has with what it receives fits into 64 bits; addresses
  that are imported or purged on request are clean; a purge takes place while no outpoint is both spent
  and unspent. Nothing is assumed about which outpoints are received: they may be spent already.
\<close>

inductive wallet_step :: "wallet_ext \<Rightarrow> WalletDb \<Rightarrow> WalletDb \<Rightarrow> bool" for W where
  address: "length nonce = NONCE_LEN W \<Longrightarrow> store_payment_address W nonce pk sk v s = Some (t, r) \<Longrightarrow> wallet_step W s t"
| import: "clean_address W a \<Longrightarrow> length nonce = NONCE_LEN W \<Longrightarrow> save_address_to_wallet W nonce a keys s = Some t \<Longrightarrow> wallet_step W s t"
| receive: "save_usable_payments_to_wallet W ps bn s = Some (t, usable) \<Longrightarrow>
    \<forall>funds. get_fund_store W (w_db s) = Some funds \<longrightarrow> payments_ok W funds usable \<Longrightarrow> wallet_step W s t"
| pay: "length (rand_nonce R) = NONCE_LEN W \<Longrightarrow>
    fetch_tx_ins_and_tx_outs_provided_excess W R asset outs excess s = Some (t, p) \<Longrightarrow> wallet_step W s t"
| merge: "length (rand_nonce R) = NONCE_LEN W \<Longrightarrow>
    fetch_tx_ins_and_tx_outs_merge_input_addrs W R addrs excess s = Some (t, q) \<Longrightarrow> wallet_step W s t"
| supplied: "fetch_tx_ins_and_tx_outs_from_supplied_txs W txs s = Some (t, q') \<Longrightarrow> wallet_step W s t"
| purge: "wallet_destroy_spent W addresses s = Some (t, removed) \<Longrightarrow>
    \<forall>as. addresses = Some as \<longrightarrow> (\<forall>a. a |\<in>| as \<longrightarrow> clean_address W a) \<Longrightarrow> spent_apart W s \<Longrightarrow> wallet_step W s t"
| unlock: "wallet_filter_locked_coinbase W bn s = Some t \<Longrightarrow> wallet_step W s t"
| load: "load_locked_coinbase W s = Some (t, u) \<Longrightarrow> wallet_step W s t"
| passphrase: "change_wallet_passphrase W R old new s = Some (t, u) \<Longrightarrow> wallet_step W s t"
| set_value: "key \<in> set node_keys \<Longrightarrow> set_db_value W key v s = Some t \<Longrightarrow> wallet_step W s t"
| delete_value: "key \<in> set node_keys \<Longrightarrow> delete_db_value W key s = Some t \<Longrightarrow> wallet_step W s t"
| reopen: "WalletDb_new W R (Some (w_db s)) (Some pass) = Some (Inr t) \<Longrightarrow> wallet_step W s t"

inductive wallet_reachable :: "wallet_ext \<Rightarrow> WalletDb \<Rightarrow> bool" for W where
  new: "Key_from_slice W (rand_key R) = Some (rand_key R) \<Longrightarrow> WalletDb_new W R None pass = Some (Inr s) \<Longrightarrow> wallet_reachable W s"
| step: "wallet_reachable W s \<Longrightarrow> wallet_step W s t \<Longrightarrow> wallet_reachable W t"

lemma set_value_ok:
  assumes "wallet_ext_ok W" and "wallet_ok W s" and "key \<in> insert LOCKED_COINBASE_KEY (set node_keys)" and "set_db_value W key v s = Some t"
  shows "wallet_ok W t"
proof -
  obtain kv where kv: "wkv W (w_db s) kv" using wallet_ok_head [OF assms(2)] by blast
  obtain db where t: "db_put_cf (wcol W) (as_bytes key) v (w_db s) = Some db" "t = s\<lparr>w_db := db\<rparr>"
    using assms(4) by (auto simp: set_db_value_def option_bind_Some_iff)
  then have "wkv W db (fmupd (as_bytes key) v kv)" using wkv_put [OF kv, of "as_bytes key" v] by auto
  moreover have "key \<in> {LOCKED_COINBASE_KEY, MASTER_KEY_STORE_KEY} \<union> set node_keys" "key \<noteq> MASTER_KEY_STORE_KEY"
    using assms(3) by (auto simp: wallet_keys)
  ultimately show ?thesis using wallet_ok_other_key [OF assms(1,2) _ kv, of key db _ v t] t(2) by simp
qed

lemma delete_value_ok:
  assumes "wallet_ext_ok W" and "wallet_ok W s" and "key \<in> insert LOCKED_COINBASE_KEY (set node_keys)" and "delete_db_value W key s = Some t"
  shows "wallet_ok W t"
proof -
  obtain kv where kv: "wkv W (w_db s) kv" using wallet_ok_head [OF assms(2)] by blast
  obtain db where t: "db_delete_cf (wcol W) (as_bytes key) (w_db s) = Some db" "t = s\<lparr>w_db := db\<rparr>"
    using assms(4) by (auto simp: delete_db_value_def option_bind_Some_iff)
  then have "wkv W db (fmdrop (as_bytes key) kv)" using wkv_delete [OF kv, of "as_bytes key"] by auto
  moreover have "key \<in> {LOCKED_COINBASE_KEY, MASTER_KEY_STORE_KEY} \<union> set node_keys" "key \<noteq> MASTER_KEY_STORE_KEY"
    using assms(3) by (auto simp: wallet_keys)
  ultimately show ?thesis using wallet_ok_other_key [OF assms(1,2) _ kv, of key db _ _ t] t(2) by simp
qed

lemma store_locked_coinbase_ok:
  assumes "wallet_ext_ok W" and "wallet_ok W s" and "store_locked_coinbase W l s = Some t"
  shows "wallet_ok W t"
  using assms(3) set_value_ok [OF assms(1,2), of LOCKED_COINBASE_KEY] delete_value_ok [OF assms(1,2), of LOCKED_COINBASE_KEY]
  by (cases l) (auto simp: store_locked_coinbase_def option_bind_Some_iff)

lemma load_locked_coinbase_fields:
  assumes "load_locked_coinbase W s = Some (t, u)"
  shows "t = s\<lparr>locked_coinbase := locked_coinbase t\<rparr>" and "encryption_key t = encryption_key s"
proof -
  obtain v where v: "get_db_value W LOCKED_COINBASE_KEY s = Some v"
    using assms by (auto simp: load_locked_coinbase_def option_bind_Some_iff)
  have "t = s\<lparr>locked_coinbase := locked_coinbase t\<rparr> \<and> encryption_key t = encryption_key s"
  proof (cases v)
    case (Some ser)
    then show ?thesis
      using assms v
      by (cases "locked_deserialize_old W ser"; cases "locked_deserialize W ser") (auto simp: load_locked_coinbase_def)
  qed (use assms v in \<open>auto simp: load_locked_coinbase_def\<close>)
  then show "t = s\<lparr>locked_coinbase := locked_coinbase t\<rparr>" and "encryption_key t = encryption_key s" by blast+
qed

lemma store_locked_coinbase_key: "store_locked_coinbase W l s = Some t \<Longrightarrow> encryption_key t = encryption_key s"
  by (cases l) (auto simp: store_locked_coinbase_def set_db_value_def delete_db_value_def option_bind_Some_iff)

lemma wallet_filter_key: "wallet_filter_locked_coinbase W bn s = Some t \<Longrightarrow> encryption_key t = encryption_key s"
  by (auto simp: wallet_filter_locked_coinbase_def set_locked_coinbase_def option_bind_Some_iff Let_def
      dest!: store_locked_coinbase_key split: if_splits)

lemma payment_cases:
  assumes "fetch_tx_ins_and_tx_outs_provided_excess W R required outs excess s = Some (t, r)"
  obtains (refused) e where "fetch_inputs_for_payment W required s = Some (Inl e)" and "t = s" and "r = Inl e"
  | (paid) cs made used s1 ins outs' where "fetch_inputs_for_payment W required s = Some (Inr (cs, made, used))"
    and "consume_inputs_for_payment W cs used s1 = Some (t, ins)" and "r = Inr (ins, outs')"
    and "case get_excess W made required of None \<Rightarrow> outs' = outs \<and> s1 = s
      | Some x \<Rightarrow> \<exists>a. outs' = outs @ [wallet_TxOut_new_asset W a x] \<and>
          (case excess of Some b \<Rightarrow> a = b \<and> s1 = s | None \<Rightarrow> \<exists>r. generate_payment_address W R s = Some (s1, a, r))"
proof -
  obtain f where f: "fetch_inputs_for_payment W required s = Some f"
    using assms by (auto simp: fetch_tx_ins_and_tx_outs_provided_excess_def option_bind_Some_iff)
  show thesis
  proof (cases f)
    case (Inl e)
    then have "t = s" "r = Inl e" using assms f by (simp_all add: fetch_tx_ins_and_tx_outs_provided_excess_def)
    then show thesis using refused f Inl by blast
  next
    case (Inr b)
    obtain cs made used where b: "b = (cs, made, used)" by (cases b)
    obtain s1 outs' ins where o: "(case get_excess W made required of None \<Rightarrow> Some (s, outs)
        | Some x \<Rightarrow> do { (self, a) \<leftarrow> (case excess of Some a \<Rightarrow> Some (s, a)
                        | None \<Rightarrow> do { (self, a, _) \<leftarrow> generate_payment_address W R s; Some (self, a) });
                     Some (self, outs @ [wallet_TxOut_new_asset W a x]) }) = Some (s1, outs')"
        "consume_inputs_for_payment W cs used s1 = Some (t, ins)" "r = Inr (ins, outs')"
      using assms f Inr b by (auto simp: fetch_tx_ins_and_tx_outs_provided_excess_def option_bind_Some_iff)
    show thesis
      by (rule paid [OF f [unfolded Inr b] o(2,3)])
        (use o(1) in \<open>cases "get_excess W made required"; cases excess; auto simp: option_bind_Some_iff\<close>)
  qed
qed

lemma generate_payment_address_ok:
  assumes "wallet_ext_ok W" and "wallet_ok W s" and "length (rand_nonce R) = NONCE_LEN W"
    and "generate_payment_address W R s = Some (t, a, r)"
  shows "wallet_ok W t" and "get_fund_store W (w_db t) = get_fund_store W (w_db s)"
    and "\<exists>known. get_known_key_address W (w_db t) = Some known \<and> a |\<in>| known" and "encryption_key t = encryption_key s"
  using store_payment_address_ok [OF assms(1-3) assms(4) [unfolded generate_payment_address_def]] assms(4)
  by (auto simp: generate_payment_address_def store_payment_address_def save_address_to_wallet_def option_bind_Some_iff Let_def)

lemma consume_key: "consume_inputs_for_payment W cs used s = Some (t, ins) \<Longrightarrow> encryption_key t = encryption_key s"
  by (auto simp: consume_inputs_for_payment_def option_bind_Some_iff)

lemma payment_ok:
  assumes "wallet_ext_ok W" and "asset_arith_ok (wfund W)" and "wallet_ok W s" and "length (rand_nonce R) = NONCE_LEN W"
    and "fetch_tx_ins_and_tx_outs_provided_excess W R asset outs excess s = Some (t, r)"
  shows "wallet_ok W t" and "encryption_key t = encryption_key s"
proof -
  have "wallet_ok W t \<and> encryption_key t = encryption_key s"
    using assms(5)
  proof (cases rule: payment_cases)
    case (paid cs made used s1 ins outs')
    have "wallet_ok W s1 \<and> encryption_key s1 = encryption_key s"
      using paid(4) assms(3) generate_payment_address_ok(1,4) [OF assms(1,3,4)] by (auto split: option.splits)
    then show ?thesis using consume_ok(1) [OF assms(1,2) _ paid(2)] consume_key [OF paid(2)] by simp
  qed (use assms(3) in simp)
  then show "wallet_ok W t" and "encryption_key t = encryption_key s" by blast+
qed

lemma merge_ok:
  assumes "wallet_ext_ok W" and "asset_arith_ok (wfund W)" and "wallet_ok W s" and "length (rand_nonce R) = NONCE_LEN W"
    and "fetch_tx_ins_and_tx_outs_merge_input_addrs W R addrs excess s = Some (t, r)"
  shows "wallet_ok W t" and "encryption_key t = encryption_key s"
proof -
  obtain cs used s1 ins where o: "consume_inputs_for_payment W cs used s1 = Some (t, ins)"
      "s1 = s \<or> (\<exists>a r. generate_payment_address W R s = Some (s1, a, r))"
    using assms(5) by (auto simp: fetch_tx_ins_and_tx_outs_merge_input_addrs_def option_bind_Some_iff split: option.splits)
  have "wallet_ok W s1" "encryption_key s1 = encryption_key s"
    using o(2) assms(3) generate_payment_address_ok(1,4) [OF assms(1,3,4)] by auto
  then show "wallet_ok W t" and "encryption_key t = encryption_key s"
    using consume_ok(1) [OF assms(1,2) _ o(1)] consume_key [OF o(1)] by simp_all
qed

lemma wallet_step_ok:
  assumes "wallet_ext_ok W" and "asset_arith_ok (wfund W)" and "secret_box_ok W" and "wallet_step W s t" and "wallet_ok W s"
  shows "wallet_ok W t"
  using assms(4)
proof cases
  case address
  then show ?thesis using store_payment_address_ok(1) [OF assms(1,5)] by blast
next
  case import
  then show ?thesis using save_address_ok(1) [OF assms(1,5)] by blast
next
  case receive
  then show ?thesis using save_usable_payments_ok [OF assms(1,2,5)] by blast
next
  case pay
  then show ?thesis using payment_ok(1) [OF assms(1,2,5)] by blast
next
  case merge
  then show ?thesis using merge_ok(1) [OF assms(1,2,5)] by blast
next
  case (supplied txs q)
  then show ?thesis
    using consume_ok(1) [OF assms(1,2,5)]
    by (auto simp: fetch_tx_ins_and_tx_outs_from_supplied_txs_def option_bind_Some_iff)
next
  case (purge addresses removed)
  then show ?thesis using destroy_spent_ok [OF assms(1,5)] by (cases removed) blast
next
  case (unlock bn)
  let ?l = "map_option (fmretain (\<lambda>_ locktime. bn < locktime)) (locked_coinbase s)"
  let ?s = "s\<lparr>last_locked_coinbase_filter_b_num := Some bn\<rparr>"
  have "t = s \<or> (\<exists>u. store_locked_coinbase W ?l ?s = Some u \<and> t = u\<lparr>locked_coinbase := ?l\<rparr>)"
    using unlock unfolding wallet_filter_locked_coinbase_def Let_def set_locked_coinbase_def
    by (cases "store_locked_coinbase W ?l ?s") (simp_all split: if_splits)
  moreover have "wallet_ok W ?s" using assms(5) by simp
  ultimately show ?thesis using assms(5) store_locked_coinbase_ok [OF assms(1), of ?s ?l] by auto
next
  case (load u)
  then show ?thesis using load_locked_coinbase_fields(1) assms(5) wallet_ok_fields(2) by metis
next
  case passphrase
  then show ?thesis using change_passphrase_ok(1) [OF assms(1,3,5)] by blast
next
  case (set_value key v)
  then show ?thesis using set_value_ok [OF assms(1,5)] by blast
next
  case (delete_value key)
  then show ?thesis using delete_value_ok [OF assms(1,5)] by blast
next
  case (reopen R pass)
  obtain m where m: "get_master_key_store W (as_bytes pass) (w_db s) = Some m"
    using reopen new_db_old by (fastforce simp: WalletDb_new_def get_or_save_master_key_store_def option_bind_Some_iff)
  then have "w_db t = w_db s" "encryption_key t = encryption_key s"
    using reopen reopen_ok [OF assms(1,3,5)] by (cases m; fastforce)+
  then show ?thesis using assms(5) by (simp add: wallet_ok_def)
qed

lemma wallet_reachable_ok:
  assumes "wallet_ext_ok W" and "asset_arith_ok (wfund W)" and "secret_box_ok W" and "wallet_reachable W s"
  shows "wallet_ok W s"
  using assms(4)
  by induction (auto intro: WalletDb_new_ok(1) [OF assms(1)] wallet_step_ok [OF assms(1-3)])

lemma wallet_step_key:
  assumes "wallet_ext_ok W" and "asset_arith_ok (wfund W)" and "secret_box_ok W" and "wallet_step W s t" and "wallet_ok W s"
  shows "encryption_key t = encryption_key s"
  using assms(4)
proof cases
  case address
  then show ?thesis
    by (auto simp: store_payment_address_def save_address_to_wallet_def option_bind_Some_iff Let_def)
next
  case import
  then show ?thesis by (auto simp: save_address_to_wallet_def option_bind_Some_iff)
next
  case receive
  then show ?thesis
    by (auto simp: save_usable_payments_to_wallet_def store_locked_coinbase_def set_db_value_def set_locked_coinbase_def
        option_bind_Some_iff Let_def)
next
  case pay
  then show ?thesis using payment_ok(2) [OF assms(1,2,5)] by blast
next
  case merge
  then show ?thesis using merge_ok(2) [OF assms(1,2,5)] by blast
next
  case supplied
  then show ?thesis
    using consume_key by (auto simp: fetch_tx_ins_and_tx_outs_from_supplied_txs_def option_bind_Some_iff)
next
  case purge
  then show ?thesis by (auto simp: wallet_destroy_spent_def option_bind_Some_iff)
next
  case unlock
  then show ?thesis using wallet_filter_key by blast
next
  case load
  then show ?thesis using load_locked_coinbase_fields(2) by blast
next
  case passphrase
  then show ?thesis using change_passphrase_ok(2) [OF assms(1,3,5)] by blast
next
  case (set_value key v)
  then show ?thesis by (auto simp: set_db_value_def option_bind_Some_iff)
next
  case (delete_value key)
  then show ?thesis by (auto simp: delete_db_value_def option_bind_Some_iff)
next
  case (reopen R pass)
  obtain m where m: "get_master_key_store W (as_bytes pass) (w_db s) = Some m"
    using reopen new_db_old by (fastforce simp: WalletDb_new_def get_or_save_master_key_store_def option_bind_Some_iff)
  then show ?thesis using reopen reopen_ok [OF assms(1,3,5)] by (cases m; fastforce)
qed

lemma wallet_key_valid:
  assumes "wallet_ext_ok W" and "asset_arith_ok (wfund W)" and "secret_box_ok W" and "wallet_reachable W s"
  shows "Key_from_slice W (encryption_key s) = Some (encryption_key s)"
  using assms(4)
proof induction
  case (new R pass s)
  then show ?case using WalletDb_new_ok(2) [OF assms(1)] by metis
next
  case (step s t)
  then show ?case using wallet_step_key [OF assms(1-3)] wallet_reachable_ok [OF assms(1-3)] by metis
qed

section \<open>The inputs of a payment\<close>

text \<open>An asset of the kind \<open>k\<close>: a token, or a receipt with that hash.\<close>

definition asset_of_kind :: "string option \<Rightarrow> Asset \<Rightarrow> bool" where
  "asset_of_kind k a \<longleftrightarrow> (case a of Token _ \<Rightarrow> k = None | Receipt r \<Rightarrow> k \<noteq> None \<and> k = drs_tx_hash r | Data _ \<Rightarrow> False)"

text \<open>
  The arithmetic of assets: nothing of a kind; adding an asset of the same kind adds its amount when
  that fits into 64 bits, any other asset is not added; amounts of one kind are compared, also with a
  total.
\<close>

definition payment_arith_ok :: "wallet_ext \<Rightarrow> bool" where
  "payment_arith_ok W \<longleftrightarrow>
     (\<forall>k a. asset_of_kind k a \<longrightarrow> asset_of_kind k (default_of_type W a) \<and> asset_amount k (default_of_type W a) = 0) \<and>
     (\<forall>k a b. asset_of_kind k a \<longrightarrow> asset_of_kind k b \<longrightarrow> asset_amount k a + asset_amount k b < 2 ^ 64 \<longrightarrow>
        snd (asset_add_assign W a b) \<and> asset_of_kind k (fst (asset_add_assign W a b)) \<and>
        asset_amount k (fst (asset_add_assign W a b)) = asset_amount k a + asset_amount k b) \<and>
     (\<forall>k a b. asset_of_kind k a \<longrightarrow> \<not> asset_of_kind k b \<longrightarrow> asset_add_assign W a b = (a, False)) \<and>
     (\<forall>k a b. asset_of_kind k a \<longrightarrow> asset_of_kind k b \<longrightarrow> is_greater_or_equal_to W a b = Some (asset_amount k b \<le> asset_amount k a)) \<and>
     (\<forall>k t a. asset_of_kind k a \<longrightarrow> has_enough W t a = (asset_amount k a \<le> asset_total t k))"

lemma asset_amount_other_kind: "\<not> asset_of_kind k a \<Longrightarrow> asset_amount k a = 0"
  by (cases a) (auto simp: asset_of_kind_def)

lemma asset_add_same_kind:
  assumes "payment_arith_ok W" and "asset_of_kind k a" and "asset_of_kind k b" and "asset_amount k a + asset_amount k b < 2 ^ 64"
  obtains m where "asset_add_assign W a b = (m, True)" and "asset_of_kind k m" and "asset_amount k m = asset_amount k a + asset_amount k b"
proof -
  have "snd (asset_add_assign W a b) \<and> asset_of_kind k (fst (asset_add_assign W a b)) \<and>
      asset_amount k (fst (asset_add_assign W a b)) = asset_amount k a + asset_amount k b"
    using assms unfolding payment_arith_ok_def by blast
  then show thesis using that by (cases "asset_add_assign W a b") simp
qed

lemma tx_constructor_fields:
  "tx_constructor_from_prev_out W db op key = Some (c, u) \<Longrightarrow> tc_previous_out c = op \<and> fst u = op \<and>
     map_option key_address (get_transaction_store W op db) = Some (snd u)"
  by (auto simp: tx_constructor_from_prev_out_def Let_def option_bind_Some_iff)

text \<open>What the loop adds: the transactions picked, their inputs and their amount.\<close>

definition amount_of :: "string option \<Rightarrow> (OutPoint \<times> Asset) list \<Rightarrow> nat" where
  "amount_of k txs = (\<Sum>(op, a) \<leftarrow> txs. asset_amount k a)"

lemma amount_of_simps [simp]:
  "amount_of k [] = 0" "amount_of k ((op, a) # txs) = asset_amount k a + amount_of k txs" "amount_of k (xs @ ys) = amount_of k xs + amount_of k ys"
  by (simp_all add: amount_of_def)

fun adds :: "wallet_ext \<Rightarrow> SimpleDb \<Rightarrow> string option \<Rightarrow> (OutPoint \<times> Asset) list \<Rightarrow> payment_inputs \<Rightarrow> payment_inputs \<Rightarrow> bool" where
  "adds W db k picked (cons, made, used) (cons', made', used') \<longleftrightarrow>
     map tc_previous_out cons' = map tc_previous_out cons @ map fst picked \<and> map fst used' = map fst used @ map fst picked \<and>
     (\<forall>u \<in> set used' - set used. map_option key_address (get_transaction_store W (fst u) db) = Some (snd u)) \<and>
     asset_amount k made' = asset_amount k made + amount_of k picked"

lemma adds_trans: "adds W db k xs acc acc' \<Longrightarrow> adds W db k ys acc' acc'' \<Longrightarrow> adds W db k (xs @ ys) acc acc''"
  by (cases acc; cases acc'; cases acc'') (simp, blast)

lemma fetch_inputs_round:
  assumes "payment_arith_ok W" and "asset_of_kind k required" and "tx_constructor_from_prev_out W db op key \<noteq> None"
    and "asset_of_kind k made" and "asset_amount k made + asset_amount k a < 2 ^ 64"
  obtains picked cons' made' used' where "adds W db k picked (cons, made, used) (cons', made', used')" and "picked = [(op, a)] \<or> picked = []"
    and "asset_of_kind k made'" and "asset_amount k made' = asset_amount k made + asset_amount k a"
    and "fetch_inputs_loop W db key (Some required) ((op, a) # txs) (cons, made, used) =
      (if asset_amount k required \<le> asset_amount k made' then Some (cons', made', used')
       else fetch_inputs_loop W db key (Some required) txs (cons', made', used'))"
proof (cases "asset_of_kind k a")
  case True
  obtain c x b where c: "tx_constructor_from_prev_out W db op key = Some (c, x, b)" using assms(3) by fastforce
  obtain m where m: "asset_add_assign W made a = (m, True)" "asset_of_kind k m" "asset_amount k m = asset_amount k made + asset_amount k a"
    by (rule asset_add_same_kind [OF assms(1,4) True assms(5)])
  have "is_greater_or_equal_to W m required = Some (asset_amount k required \<le> asset_amount k m)"
    using assms(1,2) m(2) by (simp add: payment_arith_ok_def)
  moreover have "adds W db k [(op, a)] (cons, made, used) (cons @ [c], m, used @ [(x, b)])"
    using tx_constructor_fields [OF c] m(3) by auto
  ultimately show thesis using that [of "[(op, a)]" "cons @ [c]" m "used @ [(x, b)]"] m c by (simp del: adds.simps)
next
  case False
  have "asset_add_assign W made a = (made, False)" "is_greater_or_equal_to W made required = Some (asset_amount k required \<le> asset_amount k made)"
    using assms(1,2,4) False by (simp_all add: payment_arith_ok_def)
  then show thesis using that [of "[]" cons made used] assms(4) asset_amount_other_kind [OF False] by simp
qed

text \<open>
  The loop takes some of the assets of the kind, in order, until they suffice; when they do not, it has
  taken all of them.
\<close>

lemma fetch_inputs_loop_takes:
  assumes "payment_arith_ok W" and "asset_of_kind k required"
    and "\<forall>op \<in> fst ` set txs. tx_constructor_from_prev_out W db op key \<noteq> None"
    and "asset_of_kind k made" and "asset_amount k made + amount_of k txs < 2 ^ 64"
  shows "\<exists>picked cons' made' used'. fetch_inputs_loop W db key (Some required) txs (cons, made, used) = Some (cons', made', used') \<and>
    subseq picked txs \<and> adds W db k picked (cons, made, used) (cons', made', used') \<and>
    (asset_amount k made' < asset_amount k required \<longrightarrow>
       asset_amount k made' = asset_amount k made + amount_of k txs)"
  using assms(3-5)
proof (induction txs arbitrary: made cons used)
  case Nil
  show ?case by (intro exI [of _ "[]"] exI conjI) auto
next
  case (Cons tx txs)
  obtain op a where tx: "tx = (op, a)" by (cases tx)
  have t: "tx_constructor_from_prev_out W db op key \<noteq> None" "asset_amount k made + asset_amount k a < 2 ^ 64"
    using Cons.prems(1,3) tx by auto
  obtain p1 c1 m1 u1 where one: "adds W db k p1 (cons, made, used) (c1, m1, u1)" "p1 = [(op, a)] \<or> p1 = []"
      "asset_of_kind k m1" "asset_amount k m1 = asset_amount k made + asset_amount k a"
      "fetch_inputs_loop W db key (Some required) ((op, a) # txs) (cons, made, used) =
      (if asset_amount k required \<le> asset_amount k m1 then Some (c1, m1, u1)
       else fetch_inputs_loop W db key (Some required) txs (c1, m1, u1))"
    by (rule fetch_inputs_round [OF assms(1,2) t(1) Cons.prems(2) t(2)])
  show ?case
  proof (cases "asset_amount k required \<le> asset_amount k m1")
    case True
    moreover have "subseq p1 (tx # txs)" using one(2) tx by auto
    ultimately show ?thesis
      using one(1,5) tx by (intro exI [of _ p1] exI [of _ c1] exI [of _ m1] exI [of _ u1]) simp
  next
    case False
    have "asset_amount k m1 + amount_of k txs < 2 ^ 64" using Cons.prems(3) one(4) tx by simp
    then obtain p2 c2 m2 u2 where r: "fetch_inputs_loop W db key (Some required) txs (c1, m1, u1) = Some (c2, m2, u2)"
        "subseq p2 txs" "adds W db k p2 (c1, m1, u1) (c2, m2, u2)"
        "asset_amount k m2 < asset_amount k required \<longrightarrow> asset_amount k m2 = asset_amount k m1 + amount_of k txs"
      using Cons.IH [OF _ one(3), of c1 u1] Cons.prems(1) by auto
    have "subseq (p1 @ p2) (tx # txs)" using one(2) r(2) tx by auto
    moreover have "asset_amount k m2 < asset_amount k required \<longrightarrow> asset_amount k m2 = asset_amount k made + amount_of k (tx # txs)"
      using r(4) one(4) tx by (simp add: add.assoc)
    ultimately show ?thesis
      using adds_trans [OF one(1) r(3)] one(5) r(1) False tx
      by (intro exI [of _ "p1 @ p2"] exI [of _ c2] exI [of _ m2] exI [of _ u2]) (simp del: adds.simps)
  qed
qed

lemma unspent_signable:
  assumes "contents_ok W key kv funds known" and "wkv W db kv" and "op |\<in>| fmdom (fs_transactions funds)"
  obtains ts st where "get_transaction_store W op db = Some ts" and "key_address ts |\<in>| known"
    and "get_address_store W (key_address ts) key db = Some st"
proof -
  obtain a where a: "addr_of W kv op = Some a" "a |\<in>| known" using assms(1,3) by (auto simp: contents_ok_def)
  obtain st where st: "keys_of W key kv a = Some st" using assms(1) a(2) by (auto simp: contents_ok_def)
  obtain ts where "get_transaction_store W op db = Some ts" "key_address ts = a"
    using wallet_reads(4) [OF assms(2), of op] a(1) by auto
  then show thesis using that st a(2) wallet_reads(3) [OF assms(2), of a key] by simp
qed

lemma tx_constructor_total:
  assumes "wallet_ok W s" and "get_fund_store W (w_db s) = Some funds" and "op |\<in>| fmdom (fs_transactions funds)"
  shows "tx_constructor_from_prev_out W (w_db s) op (encryption_key s) \<noteq> None"
proof -
  obtain kv f known where i: "wkv W (w_db s) kv" "funds_of W kv = Some f" "contents_ok W (encryption_key s) kv f known"
    using assms(1) by (auto simp: wallet_ok_def)
  then have "f = funds" using assms(2) wallet_reads(1) [OF i(1)] by simp
  then obtain ts st where "get_transaction_store W op (w_db s) = Some ts" "get_address_store W (key_address ts) (encryption_key s) (w_db s) = Some st"
    using unspent_signable [OF i(3,1)] assms(3) by metis
  then show ?thesis by (simp add: tx_constructor_from_prev_out_def Let_def)
qed

text \<open>The outpoints that the locked coinbase leaves.\<close>

definition unlocked :: "LockedCoinbase \<Rightarrow> OutPoint \<Rightarrow> bool" where
  "unlocked locked op \<longleftrightarrow> (case locked of None \<Rightarrow> True | Some l \<Rightarrow> fmlookup l (t_hash op) = None)"

lemma filter_locked_coinbase_unlocked:
  assumes "asset_arith_ok N" and "balanced s" and "filter_locked_coinbase N locked s = (t, n)"
  shows "balanced t" and "fs_transactions t = fmfilter (unlocked locked) (fs_transactions s)"
proof -
  have "balanced t \<and> fs_transactions t = fmfilter (unlocked locked) (fs_transactions s)"
  proof (cases locked)
    case None
    then show ?thesis using assms(2,3) by (auto simp: filter_locked_coinbase_def unlocked_def intro: fmap_ext)
  next
    case (Some l)
    then show ?thesis using filter_locked_coinbase_exact [OF assms(1,2), of l t n] assms(3) by (simp add: unlocked_def [abs_def])
  qed
  then show "balanced t" and "fs_transactions t = fmfilter (unlocked locked) (fs_transactions s)" by blast+
qed

lemma amount_of_sorted: "amount_of k (sorted_list_of_fmap m) = fmweight (asset_amount k) m"
  using sum.distinct_set_conv_list [of "sorted_list_of_fset (fmdom m)" "\<lambda>x. asset_amount k (the (fmlookup m x))"]
  by (simp add: amount_of_def fmweight_def sorted_list_of_fmap_def comp_def sorted_list_of_fset.rep_eq)

lemma subseq_keeps:
  assumes "subseq xs ys"
  shows "set xs \<subseteq> set ys" and "distinct ys \<Longrightarrow> distinct xs"
  using assms by (auto simp: subseq_conv_nths dest: in_set_nthsD)

lemma amount_of_picked:
  assumes "subseq picked (sorted_list_of_fmap m)"
  shows "distinct (map fst picked)" and "set (map fst picked) \<subseteq> fset (fmdom m)"
    and "amount_of k picked = (\<Sum>op \<leftarrow> map fst picked. case fmlookup m op of None \<Rightarrow> 0 | Some a \<Rightarrow> asset_amount k a)"
proof -
  have s: "set picked \<subseteq> set (sorted_list_of_fmap m)" using assms by (rule subseq_keeps(1))
  then have l: "fmlookup m op = Some a" if "(op, a) \<in> set picked" for op a using that by (auto simp: set_sorted_list_of_fmap)
  show "distinct (map fst picked)"
    using subseq_keeps(2) [OF subseq_map [OF assms, of fst]] distinct_sorted_list_of_fmap [of m] by blast
  show "set (map fst picked) \<subseteq> fset (fmdom m)" using l by (auto intro: fmdomI)
  have "map (\<lambda>(op, a). asset_amount k a) picked = map ((\<lambda>op. case fmlookup m op of None \<Rightarrow> 0 | Some a \<Rightarrow> asset_amount k a) \<circ> fst) picked"
    using l by (auto intro!: map_cong)
  then show "amount_of k picked = (\<Sum>op \<leftarrow> map fst picked. case fmlookup m op of None \<Rightarrow> 0 | Some a \<Rightarrow> asset_amount k a)"
    by (simp only: amount_of_def map_map)
qed

lemma asset_total_bound: "asset_total t k < 2 ^ 64"
proof -
  have u: "unat x < 2 ^ 64" for x :: u64 using unsigned_less [of x] by simp
  show ?thesis using u by (cases k) (simp_all split: option.splits)
qed

lemma fetch_inputs_for_payment_exact:
  assumes "asset_arith_ok (wfund W)" and "payment_arith_ok W" and "wallet_ok W s"
    and "get_fund_store W (w_db s) = Some funds" and "asset_of_kind k required"
  shows "if fmweight (asset_amount k) (fmfilter (unlocked (locked_coinbase s)) (fs_transactions funds)) < asset_amount k required
    then fetch_inputs_for_payment W required s = Some (Inl InsufficientFundsError)
    else \<exists>picked cs made used. fetch_inputs_for_payment W required s = Some (Inr (cs, made, used)) \<and>
      subseq picked (sorted_list_of_fmap (fmfilter (unlocked (locked_coinbase s)) (fs_transactions funds))) \<and>
      adds W (w_db s) k picked ([], default_of_type W required, []) (cs, made, used) \<and> asset_amount k required \<le> asset_amount k made"
proof -
  have b: "balanced funds" using assms(3,4) wallet_reads(1) by (auto simp: wallet_ok_def contents_ok_def)
  obtain f n where f: "filter_locked_coinbase (wfund W) (locked_coinbase s) funds = (f, n)" by fastforce
  note l = filter_locked_coinbase_unlocked [OF assms(1) b f]
  have w: "asset_total (running_total f) k = fmweight (asset_amount k) (fs_transactions f)" using l(1) by (simp add: balanced_def)
  have d: "asset_of_kind k (default_of_type W required)" "asset_amount k (default_of_type W required) = 0"
    "has_enough W (running_total f) required \<longleftrightarrow> asset_amount k required \<le> fmweight (asset_amount k) (fs_transactions f)"
    using assms(2,5) w by (simp_all add: payment_arith_ok_def)
  have "asset_total (running_total f) k < 2 ^ 64" by (rule asset_total_bound)
  then have "asset_amount k (default_of_type W required) + amount_of k (sorted_list_of_fmap (fs_transactions f)) < 2 ^ 64"
    using d(2) w by (simp add: amount_of_sorted)
  moreover have "\<forall>op \<in> fst ` set (sorted_list_of_fmap (fs_transactions f)). tx_constructor_from_prev_out W (w_db s) op (encryption_key s) \<noteq> None"
  proof
    fix op
    assume "op \<in> fst ` set (sorted_list_of_fmap (fs_transactions f))"
    then have "op |\<in>| fmdom (fs_transactions funds)" by (auto simp: l(2) set_sorted_list_of_fmap intro: fmdomI split: if_splits)
    then show "tx_constructor_from_prev_out W (w_db s) op (encryption_key s) \<noteq> None" by (rule tx_constructor_total [OF assms(3,4)])
  qed
  ultimately obtain picked cs made used where r:
      "fetch_inputs_loop W (w_db s) (encryption_key s) (Some required) (sorted_list_of_fmap (fs_transactions f)) ([], default_of_type W required, []) =
        Some (cs, made, used)" "subseq picked (sorted_list_of_fmap (fs_transactions f))"
      "adds W (w_db s) k picked ([], default_of_type W required, []) (cs, made, used)"
      "asset_amount k made < asset_amount k required \<longrightarrow> asset_amount k made = asset_amount k (default_of_type W required) + amount_of k (sorted_list_of_fmap (fs_transactions f))"
    using fetch_inputs_loop_takes [OF assms(2,5) _ d(1), of "sorted_list_of_fmap (fs_transactions f)" "w_db s" "encryption_key s" "[]" "[]"] by blast
  have m: "asset_amount k required \<le> fmweight (asset_amount k) (fs_transactions f) \<Longrightarrow> asset_amount k required \<le> asset_amount k made"
    using r(4) d(2) by (cases "asset_amount k made < asset_amount k required") (simp_all add: amount_of_sorted)
  show ?thesis
    using assms(4) f r(1-3) m d(3) unfolding l(2) [symmetric]
    by (auto simp: fetch_inputs_for_payment_def fetch_inputs_for_payment_from_db_def simp del: adds.simps)
qed

end
