(* ===== verification/Wallet_Props.thy ===== *)
theory Wallet_Props
  imports Wallet_Inv
begin

text \<open>
  The properties of the wallet (\<^verbatim>\<open>src/wallet/mod.rs\<close>): its invariant, the inputs of a payment, the
  passphrase, restarts, and purging what is spent; with the run of one wallet that witnesses them.
\<close>

section \<open>Properties\<close>

lemma wallet_ok_contents:
  assumes "wallet_ok W s"
  shows "\<exists>funds known. get_fund_store W (w_db s) = Some funds \<and> get_known_key_address W (w_db s) = Some known \<and> balanced funds \<and>
    (\<forall>op. op |\<in>| fmdom (fs_transactions funds) \<longrightarrow> (\<exists>ts keys. get_transaction_store W op (w_db s) = Some ts \<and>
       key_address ts |\<in>| known \<and> get_address_store W (key_address ts) (encryption_key s) (w_db s) = Some keys))"
proof -
  obtain kv funds known where i: "wkv W (w_db s) kv" "funds_of W kv = Some funds" "known_of W kv = Some known"
      "contents_ok W (encryption_key s) kv funds known"
    using assms by (auto simp: wallet_ok_def)
  have "balanced funds" using i(4) by (simp add: contents_ok_def)
  moreover have "\<exists>ts keys. get_transaction_store W op (w_db s) = Some ts \<and>
       key_address ts |\<in>| known \<and> get_address_store W (key_address ts) (encryption_key s) (w_db s) = Some keys"
    if "op |\<in>| fmdom (fs_transactions funds)" for op
    using unspent_signable [OF i(4,1) that] by metis
  ultimately show ?thesis using wallet_reads(1,2) [OF i(1)] i(2,3) by simp
qed

text \<open>C19: In every wallet that can be reached, from its creation through any sequence of new and imported
  addresses, received payments (also of outpoints that are spent already), payments, passphrase changes,
  restarts and purges, every unspent outpoint can be signed for: its address is one of the known addresses
  and the keys of that address can be decrypted with the wallet's key. The running total is the sum over the
  unspent outpoints. Relied on: decoding inverts encoding, opening a box inverts sealing it, the
  arithmetic of assets; that what is received fits into 64 bits with what is there; that addresses that
  are imported or purged on request are not named like another entry of the database; and that a purge
  takes place while no outpoint is both spent and unspent.\<close>

theorem wallet_invariant:
  assumes "wallet_ext_ok W" and "asset_arith_ok (wfund W)" and "secret_box_ok W" and "wallet_reachable W s"
  shows "\<exists>funds known. get_fund_store W (w_db s) = Some funds \<and> get_known_key_address W (w_db s) = Some known \<and> balanced funds \<and>
    (\<forall>op. op |\<in>| fmdom (fs_transactions funds) \<longrightarrow> (\<exists>ts keys. get_transaction_store W op (w_db s) = Some ts \<and>
       key_address ts |\<in>| known \<and> get_address_store W (key_address ts) (encryption_key s) (w_db s) = Some keys))"
  using wallet_ok_contents [OF wallet_reachable_ok [OF assms]] .

text \<open>C23: The inputs of a payment. A payment is refused for insufficient funds exactly when the unspent
  outpoints that are not locked hold less of the asset than is asked for. Otherwise the inputs are distinct
  unspent outpoints, none of them locked, each with the address that holds it; the total is the sum of their
  amounts, and at least what is asked for. Relied on besides: the comparison and addition of assets.\<close>

theorem payment_inputs_cover:
  assumes "wallet_ext_ok W" and "asset_arith_ok (wfund W)" and "secret_box_ok W" and "payment_arith_ok W"
    and "wallet_reachable W s" and "get_fund_store W (w_db s) = Some funds" and "asset_of_kind k required"
  shows "let free = fmfilter (unlocked (locked_coinbase s)) (fs_transactions funds) in
    if fmweight (asset_amount k) free < asset_amount k required
    then fetch_inputs_for_payment W required s = Some (Inl InsufficientFundsError)
    else \<exists>cs made used. fetch_inputs_for_payment W required s = Some (Inr (cs, made, used)) \<and>
      map tc_previous_out cs = map fst used \<and> distinct (map fst used) \<and> set (map fst used) \<subseteq> fset (fmdom free) \<and>
      (\<forall>(op, a) \<in> set used. map_option key_address (get_transaction_store W op (w_db s)) = Some a) \<and>
      asset_amount k made = (\<Sum>op \<leftarrow> map fst used. case fmlookup free op of None \<Rightarrow> 0 | Some a \<Rightarrow> asset_amount k a) \<and>
      asset_amount k required \<le> asset_amount k made"
proof (cases "fmweight (asset_amount k) (fmfilter (unlocked (locked_coinbase s)) (fs_transactions funds)) < asset_amount k required")
  case True
  then show ?thesis using fetch_inputs_for_payment_exact [OF assms(2,4) wallet_reachable_ok [OF assms(1-3,5)] assms(6,7)] by simp
next
  case False
  then obtain picked cs made used where r: "fetch_inputs_for_payment W required s = Some (Inr (cs, made, used))"
      "subseq picked (sorted_list_of_fmap (fmfilter (unlocked (locked_coinbase s)) (fs_transactions funds)))"
      "adds W (w_db s) k picked ([], default_of_type W required, []) (cs, made, used)" "asset_amount k required \<le> asset_amount k made"
    using fetch_inputs_for_payment_exact [OF assms(2,4) wallet_reachable_ok [OF assms(1-3,5)] assms(6,7)] by auto
  have "asset_amount k (default_of_type W required) = 0" using assms(4,7) by (simp add: payment_arith_ok_def)
  then have a: "map tc_previous_out cs = map fst picked" "map fst used = map fst picked" "asset_amount k made = amount_of k picked"
    "\<forall>(op, a) \<in> set used. map_option key_address (get_transaction_store W op (w_db s)) = Some a"
    using r(3) by auto
  show ?thesis unfolding Let_def using False r(1,4) a amount_of_picked [OF r(2)] by (metis (no_types, lifting))
qed

text \<open>C24: What a payment spends is gone. A payment that succeeds uses the inputs that were chosen for it;
  exactly those leave the unspent outpoints, so that no later payment can choose them again; what
  remains of the inputs is paid to the given address, or to a new address that the wallet knows.\<close>

theorem payment_spends_inputs:
  assumes "wallet_ext_ok W" and "asset_arith_ok (wfund W)" and "secret_box_ok W" and "wallet_reachable W s"
    and "length (rand_nonce R) = NONCE_LEN W"
    and "fetch_tx_ins_and_tx_outs_provided_excess W R required outs excess s = Some (t, Inr (ins, outs'))"
  shows "\<exists>cs made used funds funds' known. fetch_inputs_for_payment W required s = Some (Inr (cs, made, used)) \<and>
    ins = construct_payment_tx_ins W cs \<and> get_fund_store W (w_db s) = Some funds \<and> get_fund_store W (w_db t) = Some funds' \<and>
    fs_transactions funds' = fmfilter (\<lambda>op. op \<notin> fst ` set used) (fs_transactions funds) \<and>
    get_known_key_address W (w_db t) = Some known \<and>
    (case get_excess W made required of None \<Rightarrow> outs' = outs
     | Some x \<Rightarrow> \<exists>a. outs' = outs @ [wallet_TxOut_new_asset W a x] \<and> (case excess of Some b \<Rightarrow> a = b | None \<Rightarrow> a |\<in>| known))"
proof -
  note ok = wallet_reachable_ok [OF assms(1-4)]
  obtain cs made used s1 where f: "fetch_inputs_for_payment W required s = Some (Inr (cs, made, used))"
    and c: "consume_inputs_for_payment W cs used s1 = Some (t, ins)"
    and e: "case get_excess W made required of None \<Rightarrow> outs' = outs \<and> s1 = s
      | Some x \<Rightarrow> \<exists>a. outs' = outs @ [wallet_TxOut_new_asset W a x] \<and>
          (case excess of Some b \<Rightarrow> a = b \<and> s1 = s | None \<Rightarrow> \<exists>r. generate_payment_address W R s = Some (s1, a, r))"
    using assms(6) by (cases rule: payment_cases) auto
  note g = generate_payment_address_ok [OF assms(1) ok assms(5)]
  have s1: "wallet_ok W s1" "get_fund_store W (w_db s1) = get_fund_store W (w_db s)"
    using e g(1,2) ok by (auto split: option.splits)
  note r = consume_ok [OF assms(1,2) s1(1) c]
  obtain known where k: "get_known_key_address W (w_db s1) = Some known"
    using s1(1) wallet_reads(2) by (auto simp: wallet_ok_def)
  have "case get_excess W made required of None \<Rightarrow> outs' = outs
     | Some x \<Rightarrow> \<exists>a. outs' = outs @ [wallet_TxOut_new_asset W a x] \<and> (case excess of Some b \<Rightarrow> a = b | None \<Rightarrow> a |\<in>| known)"
    using e g(3) k by (fastforce split: option.splits)
  then show ?thesis using f r(2-4) k s1(2) by auto
qed

text \<open>C27: Changing the passphrase. When it succeeds the old passphrase was right, the new one gives the same
  key, and a passphrase that derives another key is refused; the key the wallet works with, and so
  everything it has encrypted, stays. When it fails nothing has changed and the old passphrase was refused
  with the same error.\<close>

theorem passphrase_change:
  assumes "wallet_ext_ok W" and "asset_arith_ok (wfund W)" and "secret_box_ok W" and "wallet_reachable W s"
    and "change_wallet_passphrase W R old new s = Some (t, r)"
  shows "case r of
      Inl e \<Rightarrow> t = s \<and> test_passphrase W old s = Some (Inl e)
    | Inr _ \<Rightarrow> wallet_get_master_key_store W old s = Some (Inr (encryption_key s)) \<and>
        wallet_get_master_key_store W new t = Some (Inr (encryption_key s)) \<and> encryption_key t = encryption_key s \<and>
        (\<forall>p key. make_key W (as_bytes p) (rand_salt R) = Some key \<longrightarrow> make_key W (as_bytes new) (rand_salt R) \<noteq> Some key \<longrightarrow>
           test_passphrase W p t = Some (Inl PassphraseError))"
proof (cases r)
  case (Inl e)
  then show ?thesis using change_passphrase_ok(3) [OF assms(1,3) wallet_reachable_ok [OF assms(1-4)] assms(5)] by simp
next
  case (Inr u)
  note c = change_passphrase_ok [OF assms(1,3) wallet_reachable_ok [OF assms(1-4)] assms(5)]
  have s: "sealed_under W R new (encryption_key s) (w_db t)" "get_master_key_store W (as_bytes old) (w_db s) = Some (Inr (encryption_key s))"
    using c(4) Inr by blast+
  have key: "Key_from_slice W (encryption_key s) = Some (encryption_key s)"
    by (rule wallet_key_valid [OF assms(1-4)])
  show ?thesis
    using Inr s(2) c(2) sealed_under_read [OF assms(1,3) s(1) key]
    by (simp add: wallet_get_master_key_store_def test_passphrase_def)
qed

text \<open>C26: A wallet survives a restart. Opening its database with a passphrase that is right gives the wallet
  with the same database and the same key; with any other passphrase it gives the error that testing
  the passphrase gives, and no new master key is ever made over the old one.\<close>

theorem reopen_wallet:
  assumes "wallet_ext_ok W" and "asset_arith_ok (wfund W)" and "secret_box_ok W" and "wallet_reachable W s"
    and "test_passphrase W p s = Some r"
  shows "case r of
      Inl e \<Rightarrow> WalletDb_new W R (Some (w_db s)) (Some p) = Some (Inl e)
    | Inr _ \<Rightarrow> WalletDb_new W R (Some (w_db s)) (Some p) =
        Some (Inr \<lparr>w_db = w_db s, encryption_key = encryption_key s, locked_coinbase = None, last_generated_address = None,
          last_locked_coinbase_filter_b_num = None\<rparr>)"
proof -
  obtain m where m: "get_master_key_store W (as_bytes p) (w_db s) = Some m" "r = map_sum id (\<lambda>_. ()) m"
    using assms(5) by (auto simp: test_passphrase_def wallet_get_master_key_store_def)
  note o = reopen_ok [OF assms(1,3) wallet_reachable_ok [OF assms(1-4)], of p]
  show ?thesis using m o by (cases m) auto
qed

text \<open>C25: What a purge removes. The unspent outpoints and the total stay, the spent ones are emptied and
  returned. The addresses removed are exactly those that hold no unspent outpoint among the addresses of
  spent outpoints and the addresses given; they are no longer known and their keys are gone, while every
  other known address keeps its keys. An unspent outpoint can be signed for afterwards exactly when it is not
  among the spent ones as well. The addresses given are not named like another entry of the database.\<close>

theorem purge_keeps_unspent:
  assumes "wallet_ext_ok W" and "asset_arith_ok (wfund W)" and "secret_box_ok W" and "wallet_reachable W s"
    and "wallet_destroy_spent W addresses s = Some (t, removed, spent)"
    and "\<forall>as. addresses = Some as \<longrightarrow> (\<forall>a. a |\<in>| as \<longrightarrow> clean_address W a)"
  shows "\<exists>funds known. get_fund_store W (w_db s) = Some funds \<and> get_known_key_address W (w_db s) = Some known \<and>
      spent = spent_transactions funds \<and> get_fund_store W (w_db t) = Some (funds\<lparr>spent_transactions := fmempty\<rparr>) \<and>
      get_known_key_address W (w_db t) = Some (known |-| removed) \<and>
      (\<forall>a. a |\<in>| removed \<longleftrightarrow>
         ((\<exists>as. addresses = Some as \<and> a |\<in>| as) \<or>
          (\<exists>op. op |\<in>| fmdom spent \<and> map_option key_address (get_transaction_store W op (w_db s)) = Some a)) \<and>
         (\<forall>op. op |\<in>| fmdom (fs_transactions funds) \<longrightarrow> map_option key_address (get_transaction_store W op (w_db s)) \<noteq> Some a)) \<and>
      (\<forall>a. a |\<in>| removed \<longrightarrow> get_address_store W a (encryption_key t) (w_db t) = None) \<and>
      (\<forall>a. a |\<in>| known |-| removed \<longrightarrow>
         get_address_store W a (encryption_key t) (w_db t) = get_address_store W a (encryption_key s) (w_db s) \<and>
         get_address_store W a (encryption_key t) (w_db t) \<noteq> None) \<and>
      (\<forall>op. op |\<in>| fmdom (fs_transactions funds) \<longrightarrow>
         (tx_constructor_from_prev_out W (w_db t) op (encryption_key t) = None \<longleftrightarrow> op |\<in>| fmdom spent))"
proof (cases rule: destroy_spent_effect [OF assms(1) wallet_reachable_ok [OF assms(1-4)] assms(5,6)])
  case (1 kv funds known kv')
  note rs = wallet_reads [OF 1(1)] and rt = wallet_reads [OF 1(6)]
  have c: "\<forall>a. a |\<in>| known \<longrightarrow> clean_address W a \<and> keys_of W (encryption_key s) kv a \<noteq> None"
    "\<forall>op. op |\<in>| fmdom (fs_transactions funds) \<longrightarrow> (\<exists>a. addr_of W kv op = Some a \<and> a |\<in>| known)"
    using 1(4) by (simp_all add: contents_ok_def)
  have con: "tx_constructor_from_prev_out W (w_db t) op (encryption_key t) = None \<longleftrightarrow> op |\<in>| fmdom spent"
    if op: "op |\<in>| fmdom (fs_transactions funds)" for op
  proof (cases "op |\<in>| fmdom spent")
    case True
    then have "get_transaction_store W op (w_db t) = None" using 1(13) rt(4) [of op] by simp
    then show ?thesis using True by (simp add: tx_constructor_from_prev_out_def)
  next
    case False
    obtain a where a: "addr_of W kv op = Some a" "a |\<in>| known" using c(2) op by blast
    have "a |\<notin>| removed" using 1(9) a(1) op by blast
    then have "keys_of W (encryption_key s) kv' a \<noteq> None" using 1(12) c(1) a(2) by simp
    moreover obtain ts where "get_transaction_store W op (w_db t) = Some ts" "key_address ts = a"
      using 1(13) rt(4) [of op] a(1) False by auto
    ultimately show ?thesis using False rt(3) [of a] 1(5) by (auto simp: tx_constructor_from_prev_out_def Let_def)
  qed
  have rm: "a |\<in>| removed \<longleftrightarrow>
         ((\<exists>as. addresses = Some as \<and> a |\<in>| as) \<or>
          (\<exists>op. op |\<in>| fmdom spent \<and> map_option key_address (get_transaction_store W op (w_db s)) = Some a)) \<and>
         (\<forall>op. op |\<in>| fmdom (fs_transactions funds) \<longrightarrow> map_option key_address (get_transaction_store W op (w_db s)) \<noteq> Some a)" for a
    unfolding rs(4) using 1(9) by (cases addresses) simp_all
  have gone: "get_address_store W a (encryption_key t) (w_db t) = None" if "a |\<in>| removed" for a
    using that 1(5,8,12) rt(3) by simp
  have keep: "get_address_store W a (encryption_key t) (w_db t) = get_address_store W a (encryption_key s) (w_db s) \<and>
      get_address_store W a (encryption_key t) (w_db t) \<noteq> None" if "a |\<in>| known |-| removed" for a
    using that 1(5,12) c(1) rs(3) rt(3) by auto
  show ?thesis
  proof (intro exI conjI allI)
    show "get_fund_store W (w_db s) = Some funds" "get_known_key_address W (w_db s) = Some known" "spent = spent_transactions funds"
      "get_fund_store W (w_db t) = Some (funds\<lparr>spent_transactions := fmempty\<rparr>)" "get_known_key_address W (w_db t) = Some (known |-| removed)"
      using 1(2,3,7,10,11) rs(1,2) rt(1,2) by simp_all
  qed (rule rm, intro impI, erule gone, intro impI, erule keep, intro impI, erule con)
qed

section \<open>Witnesses\<close>

text \<open>Encoding the elements of a list by their position.\<close>

fun table_encode :: "'a list \<Rightarrow> 'a \<Rightarrow> bytes option" where
  "table_encode [] y = None"
| "table_encode (x # xs) y = (if x = y then Some [] else map_option (Cons 0) (table_encode xs y))"

fun table_decode :: "'a list \<Rightarrow> bytes \<Rightarrow> 'a option" where
  "table_decode [] b = None"
| "table_decode (x # xs) [] = Some x"
| "table_decode (x # xs) (_ # b) = table_decode xs b"

lemma table_decode_encode: "table_encode xs x = Some b \<Longrightarrow> table_decode xs b = Some x"
  by (induction xs arbitrary: b) (auto split: if_splits)

definition wallet_ops :: "OutPoint list" where
  "wallet_ops = [demo_outpoint ''a'', demo_outpoint ''b'']"

definition wallet_keys1 :: AddressStore where "wallet_keys1 = \<lparr>public_key = [1], secret_key = [11], address_version = None\<rparr>"
definition wallet_keys2 :: AddressStore where "wallet_keys2 = \<lparr>public_key = [2], secret_key = [12], address_version = None\<rparr>"

definition wallet_rand1 :: wallet_rand where
  "wallet_rand1 = \<lparr>rand_salt = [3], rand_key = [4], rand_nonce = [5], rand_keypair = ([1], [11])\<rparr>"

definition wallet_rand2 :: wallet_rand where
  "wallet_rand2 = \<lparr>rand_salt = [6], rand_key = [7], rand_nonce = [8], rand_keypair = ([2], [12])\<rparr>"

text \<open>The funds after receiving, after paying, and after purging.\<close>

definition wallet_funds1 :: FundStore where
  "wallet_funds1 = the (do {
     f \<leftarrow> store_tx demo_funds (demo_outpoint ''a'') (Token 5)
       \<lparr>running_total = AssetValues_default, fs_transactions = fmempty, transaction_pages = [], spent_transactions = fmempty\<rparr>;
     store_tx demo_funds (demo_outpoint ''b'') (Token 7) f })"

definition wallet_funds2 :: FundStore where
  "wallet_funds2 = the (spend_tx demo_funds (demo_outpoint ''a'') wallet_funds1)"

definition wallet_funds3 :: FundStore where
  "wallet_funds3 = wallet_funds2\<lparr>spent_transactions := fmempty\<rparr>"

text \<open>The funds of a wallet that holds one receipt, before and after it is paid.\<close>

definition one_receipt :: Asset where "one_receipt = Receipt \<lparr>receipt_amount = 1, drs_tx_hash = Some ''r'', metadata = None\<rparr>"

definition receipt_funds1 :: FundStore where
  "receipt_funds1 = the (store_tx demo_funds (demo_outpoint ''a'') one_receipt
     \<lparr>running_total = AssetValues_default, fs_transactions = fmempty, transaction_pages = [], spent_transactions = fmempty\<rparr>)"

definition receipt_funds2 :: FundStore where
  "receipt_funds2 = the (spend_tx demo_funds (demo_outpoint ''a'') receipt_funds1)"

definition demo_fund_table :: "FundStore list" where
  "demo_fund_table = [wallet_funds1, wallet_funds2, wallet_funds3, receipt_funds1, receipt_funds2]"

definition demo_known :: "string fset list" where
  "demo_known = [{|''addr1''|}, {|''addr1'', ''addr2''|}, {|''addr2''|}]"

definition demo_masters :: "MasterKeyStore list" where
  "demo_masters = [\<lparr>mk_salt = [3], mk_nonce = [5], enc_master_key = [112, 4]\<rparr>, \<lparr>mk_salt = [6], mk_nonce = [8], enc_master_key = [113, 4]\<rparr>]"

fun demo_add :: "Asset \<Rightarrow> Asset \<Rightarrow> Asset \<times> bool" where
  "demo_add (Token m) (Token n) = (Token (m + n), True)"
| "demo_add (Receipt r) (Receipt q) =
     (if drs_tx_hash r = drs_tx_hash q then (Receipt (r\<lparr>receipt_amount := receipt_amount r + receipt_amount q\<rparr>), True) else (Receipt r, False))"
| "demo_add a b = (a, False)"

fun demo_ge :: "Asset \<Rightarrow> Asset \<Rightarrow> bool option" where
  "demo_ge (Token m) (Token n) = Some (n \<le> m)"
| "demo_ge (Receipt r) (Receipt q) = (if drs_tx_hash r = drs_tx_hash q then Some (receipt_amount q \<le> receipt_amount r) else None)"
| "demo_ge a b = None"

fun demo_enough :: "AssetValues \<Rightarrow> Asset \<Rightarrow> bool" where
  "demo_enough t (Token n) \<longleftrightarrow> n \<le> tokens t"
| "demo_enough t (Receipt r) \<longleftrightarrow>
     (case drs_tx_hash r of None \<Rightarrow> False | Some h \<Rightarrow> receipt_amount r \<le> (case fmlookup (receipts t) h of None \<Rightarrow> 0 | Some n \<Rightarrow> n))"
| "demo_enough t (Data d) \<longleftrightarrow> False"

fun demo_nothing :: "Asset \<Rightarrow> Asset" where
  "demo_nothing (Token n) = Token 0"
| "demo_nothing (Receipt r) = Receipt (r\<lparr>receipt_amount := 0\<rparr>)"
| "demo_nothing (Data d) = Data d"

definition demo_wallet :: wallet_ext where
  "demo_wallet = fund_ext.extend demo_funds (wallet_ext.fields
     \<lparr>DB_COL_DEFAULT = ''default'', NETWORK_VERSION_SERIALIZED = [6]\<rparr>
     \<lparr>hex_decode = (\<lambda>_. None), PublicKey_from_slice = Some, construct_address = (\<lambda>_. ''addr1''),
      TxOut_new_token_amount = (\<lambda>a v. \<lparr>txout_value = Token v, locktime = 0, drs_block_hash = None, script_public_key = Some a\<rparr>),
      Script_new = \<lparr>stack = []\<rparr>,
      Transaction_default = \<lparr>inputs = [], outputs = [], tx_version = 0, druid_info = None\<rparr>\<rparr>
     (\<lambda>_. []) Some
     (table_encode demo_fund_table) (table_decode demo_fund_table)
     (table_encode demo_known) (table_decode demo_known)
     (table_encode [wallet_keys1, wallet_keys2]) (table_decode [wallet_keys1, wallet_keys2])
     (table_encode [\<lparr>key_address = ''addr1''\<rparr>, \<lparr>key_address = ''addr2''\<rparr>])
     (table_decode [\<lparr>key_address = ''addr1''\<rparr>, \<lparr>key_address = ''addr2''\<rparr>])
     (table_encode wallet_ops) (table_encode demo_masters) (table_decode demo_masters)
     (\<lambda>l. if l = fmempty then Some [] else None) (\<lambda>b. if b = [] then Some fmempty else None) (\<lambda>_. None)
     1 (\<lambda>p s. take 1 p) (\<lambda>b. if length b = 1 then Some b else None) Some
     (\<lambda>x n k. if length k = 1 then Some (k @ x) else None)
     (\<lambda>b n k. if length k = 1 \<and> take 1 b = k then Some (drop 1 b) else None)
     (\<lambda>pk v. if pk = [1] then ''addr1'' else ''addr2'')
     (\<lambda>_. []) (\<lambda>_. []) (\<lambda>m k. k @ m) (\<lambda>_. [])
     (\<lambda>a v. \<lparr>txout_value = v, locktime = 0, drs_block_hash = None, script_public_key = Some a\<rparr>)
     demo_nothing demo_add demo_ge
     (\<lambda>a b. case (a, b) of (Token m, Token n) \<Rightarrow> if n < m then Some (Token (m - n)) else None | _ \<Rightarrow> None)
     demo_enough)"

lemmas demo_wallet_simps = demo_wallet_def fund_ext.defs wallet_ext.defs

lemma demo_wallet_funds [simp]: "wfund demo_wallet = demo_funds"
  by (simp add: demo_wallet_simps)

lemma wallet_ops_encode: "table_encode wallet_ops op = Some b \<Longrightarrow> b = [] \<or> b = [0]"
  by (auto simp: wallet_ops_def split: if_splits)

lemma wallet_ops_named:
  assumes "2 \<le> length a \<or> a = ''f'' \<or> a = ''a''"
  shows "table_encode wallet_ops op \<noteq> Some (as_bytes a)"
  using wallet_ops_encode [of op "as_bytes a"] assms by (cases a) (auto simp: as_bytes_def)

lemma demo_clean: "a = ''addr1'' \<or> a = ''addr2'' \<Longrightarrow> clean_address demo_wallet a"
  using wallet_ops_named by (auto simp: clean_address_def demo_wallet_simps wallet_keys)

lemma demo_wallet_ext_ok: "wallet_ext_ok demo_wallet"
proof -
  have named: "\<forall>op b. table_encode wallet_ops op = Some b \<longrightarrow> b \<notin> as_bytes ` set named_keys"
    using wallet_ops_named by (auto simp: wallet_keys)
  have op: "\<forall>op op' b. table_encode wallet_ops op = Some b \<and> table_encode wallet_ops op' = Some b \<longrightarrow> op = op'"
    using table_decode_encode by (metis option.inject)
  show ?thesis
    unfolding wallet_ext_ok_def
  proof (intro conjI)
    show "\<forall>pk v. clean_address demo_wallet (construct_address_for demo_wallet pk v)"
      using demo_clean by (simp add: demo_wallet_simps)
  qed (use named op table_decode_encode in \<open>auto simp: demo_wallet_simps split: if_splits\<close>)
qed

lemma demo_secret_box_ok: "secret_box_ok demo_wallet"
  by (auto simp: secret_box_ok_def demo_wallet_simps split: if_splits)

lemma demo_asset_arith_ok: "asset_arith_ok (wfund demo_wallet)"
  using demo_funds_ok by simp

lemma demo_payment_arith_ok: "payment_arith_ok demo_wallet"
proof -
  have sum: "unat (m + n) = unat m + unat n" if "unat m + unat n < 2 ^ 64" for m n :: u64
    using that by (rule unat_add_small)
  have 1: "\<forall>k a. asset_of_kind k a \<longrightarrow> asset_of_kind k (demo_nothing a) \<and> asset_amount k (demo_nothing a) = 0"
  proof (intro allI impI)
    fix k a
    assume "asset_of_kind k a"
    then show "asset_of_kind k (demo_nothing a) \<and> asset_amount k (demo_nothing a) = 0" by (cases a) (auto simp: asset_of_kind_def)
  qed
  have 2: "\<forall>k a b. asset_of_kind k a \<longrightarrow> asset_of_kind k b \<longrightarrow> asset_amount k a + asset_amount k b < 2 ^ 64 \<longrightarrow>
        snd (demo_add a b) \<and> asset_of_kind k (fst (demo_add a b)) \<and> asset_amount k (fst (demo_add a b)) = asset_amount k a + asset_amount k b"
  proof (intro allI impI)
    fix k a b
    assume "asset_of_kind k a" "asset_of_kind k b" "asset_amount k a + asset_amount k b < 2 ^ 64"
    then show "snd (demo_add a b) \<and> asset_of_kind k (fst (demo_add a b)) \<and> asset_amount k (fst (demo_add a b)) = asset_amount k a + asset_amount k b"
      using sum by (cases a; cases b) (auto simp: asset_of_kind_def)
  qed
  have 3: "\<forall>k a b. asset_of_kind k a \<longrightarrow> \<not> asset_of_kind k b \<longrightarrow> demo_add a b = (a, False)"
  proof (intro allI impI)
    fix k a b
    assume "asset_of_kind k a" "\<not> asset_of_kind k b"
    then show "demo_add a b = (a, False)" by (cases a; cases b) (auto simp: asset_of_kind_def)
  qed
  have 4: "\<forall>k a b. asset_of_kind k a \<longrightarrow> asset_of_kind k b \<longrightarrow> demo_ge a b = Some (asset_amount k b \<le> asset_amount k a)"
  proof (intro allI impI)
    fix k a b
    assume "asset_of_kind k a" "asset_of_kind k b"
    then show "demo_ge a b = Some (asset_amount k b \<le> asset_amount k a)"
      by (cases a; cases b) (auto simp: asset_of_kind_def word_le_nat_alt)
  qed
  have 5: "\<forall>k t a. asset_of_kind k a \<longrightarrow> demo_enough t a = (asset_amount k a \<le> asset_total t k)"
  proof (intro allI impI)
    fix k t a
    assume "asset_of_kind k a"
    then show "demo_enough t a = (asset_amount k a \<le> asset_total t k)"
      by (cases a) (auto simp: asset_of_kind_def word_le_nat_alt split: option.splits)
  qed
  show ?thesis using 1 2 3 4 5 unfolding payment_arith_ok_def by (simp add: demo_wallet_simps)
qed

lemmas [code] = fund_ext.defs wallet_ext.defs

text \<open>A wallet that is made, gets two addresses, receives a payment to each, makes a payment, purges, and changes its passphrase.\<close>

definition wallet_demo0 :: WalletDb where
  "wallet_demo0 = the (Option.bind (WalletDb_new demo_wallet wallet_rand1 None (Some ''p'')) (case_sum (\<lambda>_. None) Some))"

definition wallet_demo1 :: WalletDb where
  "wallet_demo1 = fst (the (store_payment_address demo_wallet [5] [1] [11] None wallet_demo0))"

definition wallet_demo2 :: WalletDb where
  "wallet_demo2 = fst (the (store_payment_address demo_wallet [5] [2] [12] None wallet_demo1))"

definition demo_payments :: "payment list" where
  "demo_payments = [(demo_outpoint ''a'', Token 5, ''addr1'', 0), (demo_outpoint ''b'', Token 7, ''addr2'', 0)]"

definition wallet_demo3 :: WalletDb where
  "wallet_demo3 = fst (the (save_usable_payments_to_wallet demo_wallet demo_payments 1 wallet_demo2))"

definition wallet_demo4 :: WalletDb where
  "wallet_demo4 = fst (the (fetch_tx_ins_and_tx_outs_provided_excess demo_wallet wallet_rand2 (Token 5) [] None wallet_demo3))"

definition wallet_demo5 :: WalletDb where
  "wallet_demo5 = fst (the (wallet_destroy_spent demo_wallet None wallet_demo4))"

definition wallet_demo6 :: WalletDb where
  "wallet_demo6 = fst (the (change_wallet_passphrase demo_wallet wallet_rand2 ''p'' ''q'' wallet_demo5))"

lemma wallet_demo_new: "WalletDb_new demo_wallet wallet_rand1 None (Some ''p'') = Some (Inr wallet_demo0)"
  by code_simp

lemma wallet_demo_addresses:
  "store_payment_address demo_wallet [5] [1] [11] None wallet_demo0 = Some (wallet_demo1, ''addr1'', wallet_keys1)"
  "store_payment_address demo_wallet [5] [2] [12] None wallet_demo1 = Some (wallet_demo2, ''addr2'', wallet_keys2)"
  by code_simp+

lemma wallet_demo_receive: "save_usable_payments_to_wallet demo_wallet demo_payments 1 wallet_demo2 = Some (wallet_demo3, demo_payments)"
  by code_simp

lemma wallet_demo_pay:
  "fetch_tx_ins_and_tx_outs_provided_excess demo_wallet wallet_rand2 (Token 5) [] None wallet_demo3 = Some (wallet_demo4, Inr ([], []))"
  by code_simp

lemma wallet_demo_purge:
  "wallet_destroy_spent demo_wallet None wallet_demo4 = Some (wallet_demo5, {|''addr1''|}, fmupd (demo_outpoint ''a'') (Token 5) fmempty)"
  by code_simp

lemma wallet_demo_passphrase: "change_wallet_passphrase demo_wallet wallet_rand2 ''p'' ''q'' wallet_demo5 = Some (wallet_demo6, Inr ())"
  by code_simp

lemma wallet_demo_funds:
  "get_fund_store demo_wallet (w_db wallet_demo2) = Some \<lparr>running_total = AssetValues_default, fs_transactions = fmempty,
     transaction_pages = [], spent_transactions = fmempty\<rparr>"
  "get_fund_store demo_wallet (w_db wallet_demo3) = Some wallet_funds1"
  "get_fund_store demo_wallet (w_db wallet_demo4) = Some wallet_funds2"
  "get_fund_store demo_wallet (w_db wallet_demo5) = Some wallet_funds3"
  by code_simp+

lemma wallet_demo_apart: "spent_apart demo_wallet wallet_demo4"
proof -
  have "fmdom (fs_transactions wallet_funds2) |\<inter>| fmdom (spent_transactions wallet_funds2) = {||}" by code_simp
  then show ?thesis by (simp add: spent_apart_def wallet_demo_funds)
qed

lemma demo_payments_ok:
  assumes "get_fund_store demo_wallet (w_db wallet_demo2) = Some funds"
  shows "payments_ok demo_wallet funds demo_payments"
proof -
  have f: "with_fixed_hash demo_wallet (Token n) op = Token n" for n op by (simp add: demo_wallet_simps demo_funds_def)
  have "running_total funds = AssetValues_default" "spent_transactions funds = fmempty" using assms wallet_demo_funds(1) by auto
  then show ?thesis
    by (simp add: payments_ok_def demo_payments_def f asset_total_cases AssetValues_default_def)
qed

lemma wallet_demo_reachable:
  "wallet_reachable demo_wallet wallet_demo3" "wallet_reachable demo_wallet wallet_demo4" "wallet_reachable demo_wallet wallet_demo5"
proof -
  have n: "NONCE_LEN demo_wallet = 1" "Key_from_slice demo_wallet [4] = Some [4]" by (simp_all add: demo_wallet_simps)
  have 0: "wallet_reachable demo_wallet wallet_demo0"
    by (rule wallet_reachable.new [OF _ wallet_demo_new]) (simp add: wallet_rand1_def n)
  have 1: "wallet_reachable demo_wallet wallet_demo1"
    by (rule wallet_reachable.step [OF 0 wallet_step.address [OF _ wallet_demo_addresses(1)]]) (simp add: n)
  have 2: "wallet_reachable demo_wallet wallet_demo2"
    by (rule wallet_reachable.step [OF 1 wallet_step.address [OF _ wallet_demo_addresses(2)]]) (simp add: n)
  show 3: "wallet_reachable demo_wallet wallet_demo3"
    by (rule wallet_reachable.step [OF 2 wallet_step.receive [OF wallet_demo_receive]]) (simp add: demo_payments_ok)
  show 4: "wallet_reachable demo_wallet wallet_demo4"
    by (rule wallet_reachable.step [OF 3 wallet_step.pay [OF _ wallet_demo_pay]]) (simp add: n wallet_rand2_def)
  show "wallet_reachable demo_wallet wallet_demo5"
    by (rule wallet_reachable.step [OF 4 wallet_step.purge [OF wallet_demo_purge]]) (simp_all add: wallet_demo_apart)
qed

theorem wallet_invariant_witness:
  "wallet_reachable demo_wallet wallet_demo4 \<and> fmlookup (fs_transactions wallet_funds2) (demo_outpoint ''b'') = Some (Token 7) \<and>
     (\<exists>ts keys. get_transaction_store demo_wallet (demo_outpoint ''b'') (w_db wallet_demo4) = Some ts \<and>
        get_address_store demo_wallet (key_address ts) (encryption_key wallet_demo4) (w_db wallet_demo4) = Some keys)"
proof -
  have l: "fmlookup (fs_transactions wallet_funds2) (demo_outpoint ''b'') = Some (Token 7)" by code_simp
  then have "demo_outpoint ''b'' |\<in>| fmdom (fs_transactions wallet_funds2)" by (rule fmdomI)
  then show ?thesis
    using wallet_invariant [OF demo_wallet_ext_ok demo_asset_arith_ok demo_secret_box_ok wallet_demo_reachable(2)]
      wallet_demo_reachable(2) wallet_demo_funds(3) l by auto
qed

theorem payment_inputs_cover_witness:
  "fetch_inputs_for_payment demo_wallet (Token 13) wallet_demo3 = Some (Inl InsufficientFundsError) \<and>
     (\<exists>cs made used. fetch_inputs_for_payment demo_wallet (Token 6) wallet_demo3 = Some (Inr (cs, made, used)) \<and>
        distinct (map fst used) \<and> 6 \<le> asset_amount None made)"
proof -
  have w: "fmweight (asset_amount None) (fmfilter (unlocked (locked_coinbase wallet_demo3)) (fs_transactions wallet_funds1)) = 12" by code_simp
  note c = payment_inputs_cover [OF demo_wallet_ext_ok demo_asset_arith_ok demo_secret_box_ok demo_payment_arith_ok
      wallet_demo_reachable(1) wallet_demo_funds(2), of None]
  show ?thesis using c [of "Token 13"] c [of "Token 6"] w by (simp add: asset_of_kind_def Let_def) blast
qed

theorem payment_spends_inputs_witness:
  "\<exists>cs made used. fetch_inputs_for_payment demo_wallet (Token 5) wallet_demo3 = Some (Inr (cs, made, used)) \<and>
     fs_transactions wallet_funds2 = fmfilter (\<lambda>op. op \<notin> fst ` set used) (fs_transactions wallet_funds1)"
proof -
  have "length (rand_nonce wallet_rand2) = NONCE_LEN demo_wallet" by (simp add: wallet_rand2_def demo_wallet_simps)
  from payment_spends_inputs [OF demo_wallet_ext_ok demo_asset_arith_ok demo_secret_box_ok wallet_demo_reachable(1) this wallet_demo_pay]
  show ?thesis using wallet_demo_funds(2,3) by auto
qed

theorem passphrase_change_witness:
  "wallet_get_master_key_store demo_wallet ''q'' wallet_demo6 = Some (Inr [4]) \<and>
     test_passphrase demo_wallet ''p'' wallet_demo6 = Some (Inl PassphraseError)"
proof -
  have k: "encryption_key wallet_demo5 = [4]" by code_simp
  have m: "make_key demo_wallet (as_bytes ''p'') (rand_salt wallet_rand2) = Some [112]" "make_key demo_wallet (as_bytes ''q'') (rand_salt wallet_rand2) = Some [113]"
    by code_simp+
  show ?thesis
    using passphrase_change [OF demo_wallet_ext_ok demo_asset_arith_ok demo_secret_box_ok wallet_demo_reachable(3) wallet_demo_passphrase] k m
    by simp
qed

theorem reopen_wallet_witness:
  "map_option (map_sum id w_db) (WalletDb_new demo_wallet wallet_rand2 (Some (w_db wallet_demo5)) (Some ''p'')) = Some (Inr (w_db wallet_demo5)) \<and>
     WalletDb_new demo_wallet wallet_rand2 (Some (w_db wallet_demo5)) (Some ''x'') = Some (Inl PassphraseError)"
proof -
  have t: "test_passphrase demo_wallet ''p'' wallet_demo5 = Some (Inr ())" "test_passphrase demo_wallet ''x'' wallet_demo5 = Some (Inl PassphraseError)"
    by code_simp+
  note o = reopen_wallet [OF demo_wallet_ext_ok demo_asset_arith_ok demo_secret_box_ok wallet_demo_reachable(3)]
  show ?thesis using o [OF t(1), of wallet_rand2] o [OF t(2), of wallet_rand2] by simp
qed

theorem purge_keeps_unspent_witness:
  "wallet_destroy_spent demo_wallet None wallet_demo4 = Some (wallet_demo5, {|''addr1''|}, fmupd (demo_outpoint ''a'') (Token 5) fmempty) \<and>
     get_fund_store demo_wallet (w_db wallet_demo5) = Some (wallet_funds2\<lparr>spent_transactions := fmempty\<rparr>) \<and>
     get_address_store demo_wallet ''addr1'' (encryption_key wallet_demo5) (w_db wallet_demo5) = None \<and>
     tx_constructor_from_prev_out demo_wallet (w_db wallet_demo5) (demo_outpoint ''b'') (encryption_key wallet_demo5) \<noteq> None"
proof -
  have none: "\<forall>as. None = Some as \<longrightarrow> (\<forall>a. a |\<in>| as \<longrightarrow> clean_address demo_wallet a)" by simp
  obtain funds where p: "get_fund_store demo_wallet (w_db wallet_demo4) = Some funds"
      "get_fund_store demo_wallet (w_db wallet_demo5) = Some (funds\<lparr>spent_transactions := fmempty\<rparr>)"
      "\<forall>a. a |\<in>| {|''addr1''|} \<longrightarrow> get_address_store demo_wallet a (encryption_key wallet_demo5) (w_db wallet_demo5) = None"
      "\<forall>op. op |\<in>| fmdom (fs_transactions funds) \<longrightarrow>
         (tx_constructor_from_prev_out demo_wallet (w_db wallet_demo5) op (encryption_key wallet_demo5) = None \<longleftrightarrow>
          op |\<in>| fmdom (fmupd (demo_outpoint ''a'') (Token 5) fmempty))"
    using purge_keeps_unspent [OF demo_wallet_ext_ok demo_asset_arith_ok demo_secret_box_ok wallet_demo_reachable(2) wallet_demo_purge none]
    by (elim exE conjE) (rule that, assumption+)
  have "funds = wallet_funds2" using p(1) wallet_demo_funds(3) by simp
  have "fmlookup (fs_transactions wallet_funds2) (demo_outpoint ''b'') = Some (Token 7)" by code_simp
  then have b: "demo_outpoint ''b'' |\<in>| fmdom (fs_transactions wallet_funds2)" by (rule fmdomI)
  have "demo_outpoint ''b'' |\<notin>| fmdom (fmupd (demo_outpoint ''a'') (Token 5) fmempty)" by (simp add: demo_outpoint_def)
  then have "tx_constructor_from_prev_out demo_wallet (w_db wallet_demo5) (demo_outpoint ''b'') (encryption_key wallet_demo5) \<noteq> None"
    using p(4) b \<open>funds = wallet_funds2\<close> by blast
  then show ?thesis using p(2,3) \<open>funds = wallet_funds2\<close> wallet_demo_purge by simp
qed

end
