(* ===== verification/Compute_Node.thy ===== *)
theory Compute_Node
  imports Compute_Raft Storage_Raft Db_Utils Comms Node_Utils
begin

text \<open>
  The compute node (\<^verbatim>\<open>src/compute.rs\<close>): the handlers around its consensus side (\<open>ComputeRaft\<close>), its
  database (\<open>SimpleDb\<close>, in memory) and its network node (\<open>Node\<close>): transactions and DRUID
  transactions received, miners that join and their proofs of work, blocks sent out for mining and
  to storage, the coordinated pause, the shared configuration, shutdown. The blockchain library and
  serialisation are parameters (\<open>compute_node_ext\<close>); the time, the token of a message and the random
  numbers an event may draw are its \<open>tick\<close>.
\<close>

section \<open>Model\<close>

subsection \<open>Data\<close>

definition REQUEST_LIST_KEY :: string where "REQUEST_LIST_KEY = ''RequestListKey''"
definition USER_NOTIFY_LIST_KEY :: string where "USER_NOTIFY_LIST_KEY = ''UserNotifyListKey''"
definition POW_RANDOM_NUM_KEY :: string where "POW_RANDOM_NUM_KEY = ''PowRandomNumKey''"
definition POW_PREV_RANDOM_NUM_KEY :: string where "POW_PREV_RANDOM_NUM_KEY = ''PowPreviousRandomNumKey''"
definition COMPUTE_RAFT_KEY_RUN :: string where "COMPUTE_RAFT_KEY_RUN = ''RaftKeyRun''"
definition COMPUTE_DB_COL_INTERNAL :: string where "COMPUTE_DB_COL_INTERNAL = ''internal''"
definition DB_COL_LOCAL_TXS :: string where "DB_COL_LOCAL_TXS = ''local_transactions''"

definition COMPUTE_DB_SPEC_columns :: "string list" where
  "COMPUTE_DB_SPEC_columns = [COMPUTE_DB_COL_INTERNAL, DB_COL_LOCAL_TXS]"

definition RESEND_TRIGGER_MESSAGES_COMPUTE_LIMIT :: nat where
  "RESEND_TRIGGER_MESSAGES_COMPUTE_LIMIT = 10"

datatype ComputeError =
    ConfigError string | Network CommsError | DbError SimpleDbError | Serialization | AsyncTask | GenericError StringError

type_synonym 'a compute_result = "ComputeError + 'a"

record DruidDroplet =
  droplet_participants :: nat
  droplet_txs :: TxMap

type_synonym DruidPool = "(string, DruidDroplet) fmap"

definition DruidDroplet_new :: "nat \<Rightarrow> DruidDroplet" where
  "DruidDroplet_new n = \<lparr>droplet_participants = n, droplet_txs = fmempty\<rparr>"

datatype UtxoFetchType = FetchAll | FetchAnyOf "string list"

record ComputeNodeSharedConfig =
  shared_mining_event_timeout :: nat
  shared_partition_full_size :: nat
  shared_miner_whitelist :: MinerWhitelist

text \<open>The library's enum for the hash of a receipt, in its serialised form.\<close>

type_synonym DrsTxHashSpec = bytes

datatype ComputeApiRequest =
    ApiSendCreateReceiptRequest u64 string string string DrsTxHashSpec "string option"
  | ApiSendTransactions "Transaction list"
  | ApiPauseNodes u64
  | ApiResumeNodes
  | ApiSendSharedConfig ComputeNodeSharedConfig

datatype ComputeRequest =
    ComputeApi ComputeApiRequest
  | SendSharedConfig ComputeNodeSharedConfig
  | SendUtxoRequest UtxoFetchType NodeType
  | SendBlockStored BlockStoredInfo
  | SendPoW u64 bytes Transaction
  | SendPartitionEntry PowInfo ProofOfWork
  | SendTransactions "Transaction list"
  | SendPartitionRequest "string option"
  | SendUserBlockNotificationRequest
  | CoordinatedPause u64
  | CoordinatedResume
  | ComputeClosing
  | RequestRemoveMiner
  | RequestRuntimeData
  | SendRuntimeData ComputeConsensusedRuntimeData
  | SendRaftCmd bytes

text \<open>What a compute node sends, by the type of the receiver.\<close>

datatype compute_msg =
    ToMinerBlock PowInfo bytes "string list" TokenAmount "BlockHeader option" u64
  | ToMinerTransactions "string list"
  | ToMinerUtxoSet UtxoSet
  | ToMinerRemovedAck
  | ToMinerNotAuthorized
  | ToMinerClosing
  | ToStorageBlock "MinedBlock option"
  | ToStorageClosing
  | ToUserUtxoSet UtxoSet
  | ToUserBlockMining Block
  | ToUserClosing
  | ToCompute ComputeRequest

record ComputeNode =
  shared_config :: ComputeNodeSharedConfig
  received_shared_config :: "ComputeNodeSharedConfig option"
  received_runtime_data :: "ComputeConsensusedRuntimeData option"
  cn_node :: "compute_msg Node"
  cn_raft :: ComputeRaft
  cn_db :: SimpleDb
  b_num_to_pause :: "u64 option"
  pause_node :: bool
  disable_trigger_messages :: bool
  jurisdiction :: string
  current_mined_block :: "MinedBlock option"
  druid_pool :: DruidPool
  previous_random_num :: bytes
  current_random_num :: bytes
  current_trigger_messages_count :: nat
  enable_trigger_messages_pipeline_reset :: bool
  miners_changed :: bool
  partition_full_size :: nat
  request_list :: "SocketAddr fset"
  request_list_first_flood :: "nat option"
  miner_removal_list :: "SocketAddr fset"
  storage_addr :: SocketAddr
  sanction_list :: "string list"
  user_notification_list :: "SocketAddr fset"
  coordinated_shutdown :: u64
  compute_shutdown_group :: "SocketAddr fset"
  fetched_utxo_set :: "(SocketAddr \<times> NodeType \<times> UtxoSet) option"

text \<open>
  Code outside the repository. \<open>peer_order\<close> is the order in which the hash map of peers is iterated.
\<close>

record compute_node_ext = pow_ext +
  craft :: compute_raft_ext
  gext :: genesis_ext
  cdb :: db_ext
  addrs_serialize :: "SocketAddr fset \<Rightarrow> bytes may_panic"
  addrs_deserialize :: "bytes \<Rightarrow> SocketAddr fset option"
  run_serialize :: "u64 \<Rightarrow> bytes option"
  run_deserialize :: "bytes \<Rightarrow> u64 option"
  local_tx_serialize :: "Transaction \<Rightarrow> bytes may_panic"
  local_tx_deserialize :: "bytes \<Rightarrow> Transaction option"
  peer_order :: "SocketAddr fset \<Rightarrow> SocketAddr list"
  is_create_tx :: "Transaction \<Rightarrow> bool"
  is_coinbase :: "Transaction \<Rightarrow> bool"
  tx_has_valid_create_script :: "Script \<Rightarrow> Asset \<Rightarrow> bool"
  tx_is_valid :: "Transaction \<Rightarrow> (OutPoint \<Rightarrow> TxOut option) \<Rightarrow> bool"
  construct_tx_hash :: "Transaction \<Rightarrow> string"
  druid_expectations_are_met :: "string \<Rightarrow> Transaction list \<Rightarrow> bool"
  get_drs_tx_hash :: "DrsTxHashSpec \<Rightarrow> string option"
  Asset_receipt :: "u64 \<Rightarrow> string option \<Rightarrow> string option \<Rightarrow> Asset"
  construct_tx_in_signable_asset_hash :: "Asset \<Rightarrow> string"
  TxOut_new_asset :: "string \<Rightarrow> Asset \<Rightarrow> TxOut"
  Signature_from_slice :: "bytes \<Rightarrow> bytes option"
  Script_new_create_asset :: "u64 \<Rightarrow> string \<Rightarrow> bytes \<Rightarrow> bytes \<Rightarrow> Script"
  construct_tx_core :: "TxIn list \<Rightarrow> TxOut list \<Rightarrow> Transaction"

record tick =
  tick_now :: nat
  tick_token :: Token
  tick_rand :: bytes
  tick_next_rand :: bytes

subsection \<open>Sending\<close>

definition compute_send :: "tick \<Rightarrow> SocketAddr \<Rightarrow> compute_msg \<Rightarrow> ComputeNode \<Rightarrow> ComputeNode \<times> unit compute_result" where
  "compute_send T peer msg self =
     (case send (tick_token T) peer msg (cn_node self) of
        (n, Inl e) \<Rightarrow> (self\<lparr>cn_node := n\<rparr>, Inl (Network e))
      | (n, Inr _) \<Rightarrow> (self\<lparr>cn_node := n\<rparr>, Inr ()))"

definition compute_send_to_all ::
    "tick \<Rightarrow> SocketAddr list \<Rightarrow> compute_msg \<Rightarrow> ComputeNode \<Rightarrow> ComputeNode \<times> SocketAddr list" where
  "compute_send_to_all T peers msg self =
     (let (n, unsent) = send_to_all (tick_token T) peers msg (cn_node self) in (self\<lparr>cn_node := n\<rparr>, unsent))"

definition compute_peers :: "ComputeNode \<Rightarrow> SocketAddr list" where
  "compute_peers self = raft_peer_addrs (raft_active (cn_raft self))"

definition get_connected_miners :: "compute_node_ext \<Rightarrow> ComputeNode \<Rightarrow> SocketAddr list" where
  "get_connected_miners E self =
     filter (\<lambda>addr. fmlookup (get_peers (cn_node self)) addr = Some (Some Miner))
       (peer_order E (fmdom (get_peers (cn_node self))))"

definition send_startup_requests :: "tick \<Rightarrow> ComputeNode \<Rightarrow> ComputeNode" where
  "send_startup_requests T self = fst (compute_send_to_all T (compute_peers self) (ToCompute RequestRuntimeData) self)"

definition send_block_to_storage :: "tick \<Rightarrow> ComputeNode \<Rightarrow> ComputeNode \<times> unit compute_result" where
  "send_block_to_storage T self = compute_send T (storage_addr self) (ToStorageBlock (current_mined_block self)) self"

definition send_fetched_utxo_set :: "tick \<Rightarrow> ComputeNode \<Rightarrow> ComputeNode \<times> unit compute_result" where
  "send_fetched_utxo_set T self =
     (case fetched_utxo_set self of
        None \<Rightarrow> (self, Inr ())
      | Some (peer, t, utxos) \<Rightarrow>
          let self = self\<lparr>fetched_utxo_set := None\<rparr> in
          (case t of
             Miner \<Rightarrow> compute_send T peer (ToMinerUtxoSet utxos) self
           | User \<Rightarrow> compute_send T peer (ToUserUtxoSet utxos) self
           | _ \<Rightarrow> (self, Inl (GenericError (StringError ''Invalid UTXO requester'')))))"

definition get_storage_address :: "SocketAddr \<Rightarrow> SocketAddr" where
  "get_storage_address address = V4 0 (port address - 1)"

subsection \<open>Transactions\<close>

definition check_druid_participants :: "DruidDroplet \<Rightarrow> bool" where
  "check_druid_participants droplet =
     list_all (\<lambda>tx. map_option dde_participants (druid_info tx) = Some (droplet_participants droplet))
       (fmvalues (droplet_txs droplet))"

text \<open>The loop of \<open>validate_dde_txs\<close>: the pool, and what is ready with its validity.\<close>

fun validate_dde_loop ::
    "compute_node_ext \<Rightarrow> (string \<times> Transaction) list \<Rightarrow> DruidPool \<Rightarrow> (bool \<times> TxMap) list \<Rightarrow>
     DruidPool \<times> (bool \<times> TxMap) list" where
  "validate_dde_loop E [] pool ready_txs = (pool, ready_txs)"
| "validate_dde_loop E ((tx_hash, tx) # rest) pool ready_txs =
     (case druid_info tx of
        None \<Rightarrow> validate_dde_loop E rest pool ready_txs
      | Some info \<Rightarrow>
          let droplet = (case fmlookup pool (druid info) of
                Some droplet \<Rightarrow> droplet
              | None \<Rightarrow> DruidDroplet_new (dde_participants info));
              droplet = droplet\<lparr>droplet_txs := fmupd tx_hash tx (droplet_txs droplet)\<rparr>
          in if fmlen (droplet_txs droplet) = droplet_participants droplet
             then let valid = (druid_expectations_are_met E (druid info) (fmvalues (droplet_txs droplet)) \<and>
                        check_druid_participants droplet)
                  in validate_dde_loop E rest (fmdrop (druid info) pool) (ready_txs @ [(valid, droplet_txs droplet)])
             else validate_dde_loop E rest (fmupd (druid info) droplet pool) ready_txs)"

definition validate_dde_txs ::
    "compute_node_ext \<Rightarrow> TxMap \<Rightarrow> ComputeNode \<Rightarrow> ComputeNode \<times> (bool \<times> TxMap) list" where
  "validate_dde_txs E txs self =
     (let (pool, ready_txs) = validate_dde_loop E (sorted_list_of_fmap txs) (druid_pool self) []
      in (self\<lparr>druid_pool := pool\<rparr>, ready_txs))"

text \<open>An index out of range panics.\<close>

definition transactions_validator :: "compute_node_ext \<Rightarrow> ComputeNode \<Rightarrow> Transaction \<Rightarrow> bool may_panic" where
  "transactions_validator E self tx =
     (let utxos = base (utxo_set (consensused (cn_raft self)));
          lock_expired = (case current_block_num (block_pipeline (consensused (cn_raft self))) of None \<Rightarrow> 0 | Some n \<Rightarrow> n)
      in if is_create_tx E tx
         then (case (inputs tx, outputs tx) of
                 (tx_in # _, tx_out # _) \<Rightarrow>
                   Some (tx_has_valid_create_script E (script_signature tx_in) (txout_value tx_out))
               | _ \<Rightarrow> None)
         else Some (\<not> is_coinbase E tx \<and>
           tx_is_valid E tx (\<lambda>v. case fmlookup utxos v of
               None \<Rightarrow> None
             | Some tx_out \<Rightarrow>
                 if t_hash v \<notin> set (sanction_list self) \<and> locktime tx_out \<le> lock_expired then Some tx_out else None)))"

fun filter_valid_txs :: "compute_node_ext \<Rightarrow> ComputeNode \<Rightarrow> Transaction list \<Rightarrow> Transaction list may_panic" where
  "filter_valid_txs E self [] = Some []"
| "filter_valid_txs E self (tx # txs) =
     do { ok \<leftarrow> transactions_validator E self tx;
          rest \<leftarrow> filter_valid_txs E self txs;
          Some (if ok then tx # rest else rest) }"

text \<open>The database of transactions that are not committed yet.\<close>

fun decode_local_txs :: "compute_node_ext \<Rightarrow> DbIteratorItem list \<Rightarrow> TxMap \<Rightarrow> TxMap may_panic" where
  "decode_local_txs E [] txs = Some txs"
| "decode_local_txs E ((k, v) # rest) txs =
     do { key \<leftarrow> from_utf8 k; tx \<leftarrow> local_tx_deserialize E v; decode_local_txs E rest (fmupd key tx txs) }"

definition get_local_transactions :: "compute_node_ext \<Rightarrow> SimpleDb \<Rightarrow> TxMap may_panic" where
  "get_local_transactions E db =
     do { items \<leftarrow> db_iter_cf_clone DB_COL_LOCAL_TXS db; decode_local_txs E items fmempty }"

fun put_local_txs ::
    "compute_node_ext \<Rightarrow> (string \<times> Transaction) list \<Rightarrow> SimpleDbWriteBatch \<Rightarrow> SimpleDbWriteBatch may_panic" where
  "put_local_txs E [] batch = Some batch"
| "put_local_txs E ((key, tx) # rest) batch =
     do { val \<leftarrow> local_tx_serialize E tx;
          batch \<leftarrow> batch_put_cf DB_COL_LOCAL_TXS (as_bytes key) val batch;
          put_local_txs E rest batch }"

definition store_local_transactions :: "compute_node_ext \<Rightarrow> TxMap \<Rightarrow> SimpleDb \<Rightarrow> SimpleDb may_panic" where
  "store_local_transactions E txs db =
     do { batch \<leftarrow> put_local_txs E (sorted_list_of_fmap txs) (batch_writer db); db_write (batch_done batch) db }"

fun delete_local_txs :: "string list \<Rightarrow> SimpleDbWriteBatch \<Rightarrow> SimpleDbWriteBatch may_panic" where
  "delete_local_txs [] batch = Some batch"
| "delete_local_txs (key # keys) batch =
     do { batch \<leftarrow> batch_delete_cf DB_COL_LOCAL_TXS (as_bytes key) batch; delete_local_txs keys batch }"

definition delete_local_transactions :: "string list \<Rightarrow> SimpleDb \<Rightarrow> SimpleDb may_panic" where
  "delete_local_transactions keys db =
     do { batch \<leftarrow> delete_local_txs keys (batch_writer db); db_write (batch_done batch) db }"

text \<open>
  Receiving transactions. Both maps are collected from the pairs of hash and transaction, so that a
  transaction sent twice counts once.
\<close>

definition receive_transactions ::
    "compute_node_ext \<Rightarrow> Transaction list \<Rightarrow> ComputeNode \<Rightarrow> (ComputeNode \<times> Response) may_panic" where
  "receive_transactions E txs self =
     (if \<not> tx_pool_can_accept (cn_raft self) (length txs)
      then Some (self, respond False ''Transaction pool for this compute node is full'')
      else do {
        valid \<leftarrow> filter_valid_txs E self txs;
        let pairs = map (\<lambda>tx. (construct_tx_hash E tx, tx)) valid;
        let valid_dde_txs = fmextend (filter (\<lambda>p. druid_info (snd p) \<noteq> None) pairs) fmempty;
        let valid_txs = fmextend (filter (\<lambda>p. druid_info (snd p) = None) pairs) fmempty;
        let total_valid_txs_len = fmlen valid_txs + fmlen valid_dde_txs;
        if total_valid_txs_len = 0
        then Some (self, respond False ''No valid transactions provided'')
        else do {
          db \<leftarrow> store_local_transactions E valid_txs (cn_db self);
          let self = self\<lparr>cn_db := db, cn_raft := append_to_tx_pool (cn_raft self) valid_txs\<rparr>;
          let (self, ready_dde_txs) = validate_dde_txs E valid_dde_txs self;
          let invalid_dde_txs_len = length (filter (\<lambda>(valid, _). \<not> valid) ready_dde_txs);
          let self = self\<lparr>cn_raft := fold (\<lambda>(valid, ready) raft. if valid then append_to_tx_druid_pool raft ready else raft)
                ready_dde_txs (cn_raft self)\<rparr>;
          Some (self, respond True
            (if total_valid_txs_len < length txs \<or> invalid_dde_txs_len \<noteq> 0
             then ''Some transactions invalid. Adding valid transactions only''
             else ''Transactions added to tx pool'')) } })"

definition decode_signature :: "compute_node_ext \<Rightarrow> string \<Rightarrow> StringError + bytes" where
  "decode_signature E sig =
     (case Option.bind (hex_decode (gext E) sig) (Signature_from_slice E) of
        Some s \<Rightarrow> Inr s
      | None \<Rightarrow> Inl (StringError (''Signature decoding error: '' @ sig)))"

definition create_receipt_asset_tx_from_sig ::
    "compute_node_ext \<Rightarrow> u64 \<Rightarrow> u64 \<Rightarrow> string \<Rightarrow> string \<Rightarrow> string \<Rightarrow> DrsTxHashSpec \<Rightarrow> string option \<Rightarrow>
     StringError + Transaction \<times> string" where
  "create_receipt_asset_tx_from_sig E bn amount script_key pub_key sig spec meta =
     (let drs_tx_hash_create = get_drs_tx_hash E spec;
          receipt = Asset_receipt E amount drs_tx_hash_create meta;
          asset_hash = construct_tx_in_signable_asset_hash E receipt;
          tx_out = TxOut_new_asset E script_key receipt
      in case decode_pub_key (gext E) pub_key of
           Inl e \<Rightarrow> Inl e
         | Inr pub_key \<Rightarrow>
             (case decode_signature E sig of
                Inl e \<Rightarrow> Inl e
              | Inr sig \<Rightarrow>
                  let tx_in = \<lparr>previous_out = None,
                        script_signature = Script_new_create_asset E bn asset_hash sig pub_key\<rparr>;
                      tx = construct_tx_core E [tx_in] [tx_out]
                  in Inr (tx, case drs_tx_hash_create of Some h \<Rightarrow> h | None \<Rightarrow> construct_tx_hash E tx)))"

definition create_receipt_asset_tx ::
    "compute_node_ext \<Rightarrow> u64 \<Rightarrow> string \<Rightarrow> string \<Rightarrow> string \<Rightarrow> DrsTxHashSpec \<Rightarrow> string option \<Rightarrow> ComputeNode \<Rightarrow>
     (Transaction \<times> string) compute_result" where
  "create_receipt_asset_tx E amount script_key pub_key sig spec meta self =
     (case create_receipt_asset_tx_from_sig E (get_current_block_num (cn_raft self)) amount script_key pub_key sig spec meta of
        Inl e \<Rightarrow> Inl (GenericError e)
      | Inr r \<Rightarrow> Inr r)"

subsection \<open>Miners\<close>

fun ip :: "SocketAddr \<Rightarrow> u32 + 128 word" where
  "ip (V4 a _) = Inl a"
| "ip (V6 a _) = Inr a"

definition check_miner_whitelisted :: "SocketAddr \<Rightarrow> string option \<Rightarrow> ComputeNode \<Rightarrow> bool" where
  "check_miner_whitelisted addr api_key self \<longleftrightarrow>
     (let wl = miner_whitelist (consensused (cn_raft self));
          keys = (case miner_api_keys wl of None \<Rightarrow> {||} | Some s \<Rightarrow> s);
          addrs = (case miner_addresses wl of None \<Rightarrow> {||} | Some s \<Rightarrow> s)
      in (case api_key of None \<Rightarrow> [] | Some k \<Rightarrow> k) |\<in>| keys \<or> fBex addrs (\<lambda>a. ip a = ip addr))"

definition save_request_list :: "compute_node_ext \<Rightarrow> ComputeNode \<Rightarrow> ComputeNode may_panic" where
  "save_request_list E self =
     do { ser \<leftarrow> addrs_serialize E (request_list self);
          db \<leftarrow> db_put_cf COMPUTE_DB_COL_INTERNAL (as_bytes REQUEST_LIST_KEY) ser (cn_db self);
          Some (self\<lparr>cn_db := db\<rparr>) }"

definition save_user_notification_list :: "compute_node_ext \<Rightarrow> ComputeNode \<Rightarrow> ComputeNode may_panic" where
  "save_user_notification_list E self =
     do { ser \<leftarrow> addrs_serialize E (user_notification_list self);
          db \<leftarrow> db_put_cf COMPUTE_DB_COL_INTERNAL (as_bytes USER_NOTIFY_LIST_KEY) ser (cn_db self);
          Some (self\<lparr>cn_db := db\<rparr>) }"

definition node_propose_runtime_item ::
    "compute_node_ext \<Rightarrow> ComputeRuntimeItem \<Rightarrow> ComputeNode \<Rightarrow> ComputeNode may_panic" where
  "node_propose_runtime_item E item self =
     do { raft \<leftarrow> propose_runtime_item (craft E) (cn_raft self) item; Some (self\<lparr>cn_raft := raft\<rparr>) }"

definition receive_partition_request ::
    "compute_node_ext \<Rightarrow> tick \<Rightarrow> SocketAddr \<Rightarrow> string option \<Rightarrow> ComputeNode \<Rightarrow> (ComputeNode \<times> Response) may_panic" where
  "receive_partition_request E T peer mining_api_key self =
     (let self = self\<lparr>miners_changed := True\<rparr> in
      if get_compute_whitelisting_active (cn_raft self) \<and> \<not> check_miner_whitelisted peer mining_api_key self
      then let self = fst (compute_send T peer ToMinerNotAuthorized self)
           in Some (self\<lparr>cn_node := disconnect_all (Some [peer]) (cn_node self)\<rparr>, respond True ''Removing unauthorized miner'')
      else do {
        self \<leftarrow> (case mining_api_key of
            Some api_key \<Rightarrow> node_propose_runtime_item E (AddMiningApiKeys [(peer, api_key)]) self
          | None \<Rightarrow> Some self);
        self \<leftarrow> save_request_list E (self\<lparr>request_list := finsert peer (request_list self)\<rparr>);
        if request_list_first_flood self = Some (fcard (request_list self))
        then do {
          raft \<leftarrow> propose_initial_item (craft E) (cn_raft self);
          Some (self\<lparr>request_list_first_flood := None, cn_raft := raft\<rparr>,
                respond True ''Received first full partition request'') }
        else Some (self, respond True ''Received partition request successfully'') })"

definition receive_partition_entry ::
    "compute_node_ext \<Rightarrow> SocketAddr \<Rightarrow> PowInfo \<Rightarrow> ProofOfWork \<Rightarrow> ComputeNode \<Rightarrow> (ComputeNode \<times> Response option) may_panic" where
  "receive_partition_entry E peer info entry self =
     (if pow_b_num info \<noteq> get_current_block_num (cn_raft self) then Some (self, None)
      else
        let status = mining_pipeline_status (block_pipeline (consensused (cn_raft self)));
            checked = (\<lambda>random_number. do {
              ok \<leftarrow> (if format_parition_pow_address E peer = pow_address entry
                then validate_pow_for_address E entry (Some random_number) else Some False);
              if \<not> ok then Some (self, Some (respond False ''PoW received is invalid''))
              else do {
                (raft, proposed) \<leftarrow> propose_mining_pipeline_item (craft E) (cn_raft self) (MiningParticipant peer status);
                let self = self\<lparr>cn_raft := raft\<rparr>;
                Some (self, if proposed then Some (respond True ''Partition PoW received successfully'') else None) } })
        in case status of
            ParticipantOnlyIntake \<Rightarrow> if participant_only info then checked (previous_random_num self) else Some (self, None)
          | AllItemsIntake \<Rightarrow> if \<not> participant_only info then checked (current_random_num self) else Some (self, None)
          | Halted \<Rightarrow> Some (self, Some (respond False ''Partition list complete'')))"

text \<open>The miners without a place on the whitelist, told so one by one.\<close>

fun flush_unauthorized_loop :: "tick \<Rightarrow> SocketAddr list \<Rightarrow> ComputeNode \<Rightarrow> ComputeNode \<times> SocketAddr list" where
  "flush_unauthorized_loop T [] self = (self, [])"
| "flush_unauthorized_loop T (peer # peers) self =
     (if \<not> check_miner_whitelisted peer (get_mining_api_key_entry (cn_raft self) peer) self
      then let self = fst (compute_send T peer ToMinerNotAuthorized self);
               (self, removed) = flush_unauthorized_loop T peers self
           in (self, peer # removed)
      else flush_unauthorized_loop T peers self)"

definition flush_unauthorized_miners ::
    "compute_node_ext \<Rightarrow> tick \<Rightarrow> ComputeNode \<Rightarrow> ComputeNode \<times> SocketAddr list option" where
  "flush_unauthorized_miners E T self =
     (if \<not> get_compute_whitelisting_active (cn_raft self) then (self, None)
      else let (self, removed) = flush_unauthorized_loop T (get_connected_miners E self) self
           in (self\<lparr>cn_node := disconnect_all (Some removed) (cn_node self)\<rparr>, Some removed))"

definition node_flush_stale_miners :: "compute_node_ext \<Rightarrow> SocketAddr list \<Rightarrow> ComputeNode \<Rightarrow> ComputeNode may_panic" where
  "node_flush_stale_miners E stale self =
     do { self \<leftarrow> save_request_list E (self\<lparr>request_list := ffilter (\<lambda>a. a \<notin> set stale) (request_list self)\<rparr>);
          Some (self\<lparr>cn_raft := flush_stale_miners (cn_raft self) stale, miners_changed := True\<rparr>) }"

text \<open>
  The block and the random number sent to the miners. Those that could not be reached, were not
  authorised or asked to be removed are taken out. Nothing is sent while the pipeline is halted.
\<close>

definition flood_rand_and_block_to_partition ::
    "compute_node_ext \<Rightarrow> tick \<Rightarrow> ComputeNode \<Rightarrow> ComputeNode may_panic" where
  "flood_rand_and_block_to_partition E T self =
     (let bp = block_pipeline (consensused (cn_raft self)); status = mining_pipeline_status bp in
      if status = Halted then Some self
      else do {
        let (rnum, only) = (if status = ParticipantOnlyIntake then (previous_random_num self, True)
                            else (current_random_num self, False));
        let win_coinbases = last_mining_transaction_hashes (consensused (cn_raft self));
        blk \<leftarrow> current_block bp;
        let hdr = header blk;
        let reward = current_reward bp;
        let info = \<lparr>participant_only = only, pow_b_num = b_num hdr\<rparr>;
        let removal = miner_removal_list self;
        let all_participants = raft_get_mining_participants (cn_raft self);
        let participants = filter (\<lambda>p. p |\<notin>| removal) (unsorted all_participants);
        let non_participants = sorted_list_of_fset (request_list self |-| lookup all_participants);
        let (self, unauthorized) = flush_unauthorized_miners E T self;
        let unsent = (case unauthorized of None \<Rightarrow> [] | Some l \<Rightarrow> l);
        let (self, _) = compute_send_to_all T (sorted_list_of_fset removal) ToMinerRemovedAck self;
        let (self, unsent1) = compute_send_to_all T participants
              (ToMinerBlock info rnum win_coinbases reward (Some hdr) (b_num hdr)) self;
        let (self, unsent2) = compute_send_to_all T non_participants
              (ToMinerBlock info rnum win_coinbases reward None (b_num hdr)) self;
        let unsent = unsent @ unsent1 @ unsent2;
        self \<leftarrow>
          (if unsent \<noteq> [] \<or> removal \<noteq> {||}
           then let unsent = unsent @ sorted_list_of_fset removal in
             do { self \<leftarrow> node_flush_stale_miners E unsent self;
                  node_propose_runtime_item E (RemoveMiningApiKeys unsent) (self\<lparr>miner_removal_list := {||}\<rparr>) }
           else Some self);
        Some (self\<lparr>miners_changed := False\<rparr>) })"

definition flood_transactions_to_partition :: "tick \<Rightarrow> ComputeNode \<Rightarrow> ComputeNode may_panic" where
  "flood_transactions_to_partition T self =
     do { blk \<leftarrow> current_block (block_pipeline (consensused (cn_raft self)));
          Some (fst (compute_send_to_all T (unsorted (raft_get_mining_participants (cn_raft self)))
            (ToMinerTransactions (transactions blk)) self)) }"

definition flood_block_to_users :: "compute_node_ext \<Rightarrow> tick \<Rightarrow> ComputeNode \<Rightarrow> ComputeNode may_panic" where
  "flood_block_to_users E T self =
     do { blk \<leftarrow> current_block (block_pipeline (consensused (cn_raft self)));
          let (self, unsent) = compute_send_to_all T (sorted_list_of_fset (user_notification_list self)) (ToUserBlockMining blk) self;
          if unsent \<noteq> []
          then save_user_notification_list E
            (self\<lparr>user_notification_list := ffilter (\<lambda>a. a \<notin> set unsent) (user_notification_list self)\<rparr>)
          else Some self }"

definition compute_flood_closing_events :: "tick \<Rightarrow> ComputeNode \<Rightarrow> ComputeNode" where
  "compute_flood_closing_events T self =
     (let self = fst (compute_send_to_all T [storage_addr self] ToStorageClosing self);
          self = fst (compute_send_to_all T (compute_peers self) (ToCompute ComputeClosing) self);
          self = fst (compute_send_to_all T (sorted_list_of_fset (request_list self)) ToMinerClosing self)
      in fst (compute_send_to_all T (sorted_list_of_fset (user_notification_list self)) ToUserClosing self))"

definition handle_request_remove_miner :: "SocketAddr \<Rightarrow> ComputeNode \<Rightarrow> ComputeNode \<times> Response" where
  "handle_request_remove_miner peer self =
     (self\<lparr>miner_removal_list := finsert peer (miner_removal_list self)\<rparr>, respond True ''Miner removal request received'')"

subsection \<open>The mined block\<close>

text \<open>The coinbase has to pay the current reward; without an output, looking at it panics.\<close>

definition compute_receive_pow ::
    "compute_node_ext \<Rightarrow> SocketAddr \<Rightarrow> u64 \<Rightarrow> bytes \<Rightarrow> Transaction \<Rightarrow> ComputeNode \<Rightarrow>
     (ComputeNode \<times> Response option) may_panic" where
  "compute_receive_pow E address bn nonce coinbase self =
     (let bp = block_pipeline (consensused (cn_raft self)) in
      case current_block bp of
        Some mining_block \<Rightarrow>
          if bn = b_num (header mining_block) \<and> Participants_contains (raft_get_mining_participants (cn_raft self)) address
          then do {
            paid \<leftarrow> (if is_coinbase E coinbase
              then case outputs coinbase of
                  [] \<Rightarrow> None
                | tx_out # _ \<Rightarrow> Some (token_amount (naom (cext (craft E))) (txout_value tx_out) = current_reward bp)
              else Some False);
            if \<not> paid then Some (self, Some (respond False ''Coinbase transaction invalid''))
            else do {
              let block_to_check = apply_mining_tx (header mining_block) nonce (construct_tx_hash E coinbase);
              ok \<leftarrow> validate_pow_block E block_to_check;
              if \<not> ok then Some (self, Some (respond False ''Invalid PoW for block''))
              else do {
                let (nonce, coinbase_hash) = nonce_and_mining_tx_hash block_to_check;
                let info = \<lparr>pow_nonce = nonce, mining_tx = (coinbase_hash, coinbase), p_value = 0, d_value = 0\<rparr>;
                (raft, proposed) \<leftarrow> propose_mining_pipeline_item (craft E) (cn_raft self) (WinningPoW address info);
                let self = self\<lparr>cn_raft := raft\<rparr>;
                Some (self, if proposed then Some (respond True ''Received PoW successfully'') else None) } } }
          else Some (self, Some (respond False ''Not block currently mined''))
      | None \<Rightarrow> Some (self, Some (respond False ''Not block currently mined'')))"

definition mining_block_mined :: "ComputeNode \<Rightarrow> ComputeNode may_panic" where
  "mining_block_mined self =
     (let (raft, taken) = raft_take_mining_block (cn_raft self) in
      do { (blk, txs) \<leftarrow> taken;
           (_, winning) \<leftarrow> winning_pow (block_pipeline (consensused raft));
           let u = unicorn_info (block_pipeline (consensused raft));
           let (tx_hash, tx) = mining_tx winning;
           let blk = blk\<lparr>header := apply_mining_tx (header blk) (pow_nonce winning) tx_hash\<rparr>;
           let extra_info = \<lparr>mined_shutdown = (coordinated_shutdown self \<le> b_num (header blk))\<rparr>;
           let common = \<lparr>common_block = blk, block_txs = fmupd tx_hash tx txs, pow_p_value = p_value winning,
                 pow_d_value = d_value winning, common_unicorn = unicorn u, common_unicorn_witness = witness u\<rparr>;
           Some (self\<lparr>cn_raft := raft,
                      current_mined_block := Some \<lparr>mined_common = common, mined_extra_info = extra_info\<rparr>\<rparr>) })"

definition should_pause :: "ComputeNode \<Rightarrow> bool" where
  "should_pause self \<longleftrightarrow>
     (case b_num_to_pause self of Some bn \<Rightarrow> bn \<le> get_current_block_num (cn_raft self) | None \<Rightarrow> False)"

definition reset_mining_block_process :: "tick \<Rightarrow> ComputeNode \<Rightarrow> ComputeNode may_panic" where
  "reset_mining_block_process T self =
     (let self = self\<lparr>previous_random_num := (if current_random_num self \<noteq> [] then current_random_num self else tick_rand T),
                      current_random_num := tick_next_rand T\<rparr>
      in do {
        db \<leftarrow> db_put_cf COMPUTE_DB_COL_INTERNAL (as_bytes POW_PREV_RANDOM_NUM_KEY) (previous_random_num self) (cn_db self);
        db \<leftarrow> db_put_cf COMPUTE_DB_COL_INTERNAL (as_bytes POW_RANDOM_NUM_KEY) (current_random_num self) db;
        let self = self\<lparr>cn_db := db, current_mined_block := None,
                        cn_raft := clear_block_pipeline_proposed_keys (cn_raft self)\<rparr>;
        Some (if should_pause self then self\<lparr>pause_node := True\<rparr> else self) })"

definition receive_block_stored ::
    "compute_node_ext \<Rightarrow> SocketAddr \<Rightarrow> BlockStoredInfo \<Rightarrow> ComputeNode \<Rightarrow> (ComputeNode \<times> Response option) may_panic" where
  "receive_block_stored E peer info self =
     (if peer \<noteq> storage_addr self
      then Some (self, Some (respond False ''Received block stored not from our storage peer''))
      else do {
        (raft, ok) \<leftarrow> propose_block_with_last_info (craft E) (cn_raft self) info;
        Some (if ok then (self\<lparr>cn_raft := raft\<rparr>, Some (respond True ''Received block stored''))
              else (self\<lparr>cn_raft := re_propose_uncommitted_current_b_num raft\<rparr>, None)) })"

definition compute_resend_trigger_message :: "compute_node_ext \<Rightarrow> tick \<Rightarrow> ComputeNode \<Rightarrow> ComputeNode may_panic" where
  "compute_resend_trigger_message E T self =
     (case mining_pipeline_status (block_pipeline (consensused (cn_raft self))) of
        Halted \<Rightarrow> Some (fst (send_block_to_storage T self))
      | ParticipantOnlyIntake \<Rightarrow> flood_rand_and_block_to_partition E T self
      | AllItemsIntake \<Rightarrow> do {
          self \<leftarrow> flood_rand_and_block_to_partition E T self;
          if enable_trigger_messages_pipeline_reset self
          then do {
            let participants = unsorted (raft_get_mining_participants (cn_raft self));
            let disconnected = unconnected_peers participants (cn_node self);
            let self = (if length disconnected = length participants
              then self\<lparr>current_trigger_messages_count := current_trigger_messages_count self + 1\<rparr> else self);
            if RESEND_TRIGGER_MESSAGES_COMPUTE_LIMIT \<le> current_trigger_messages_count self
            then do {
              (raft, _) \<leftarrow> propose_mining_pipeline_item (craft E) (cn_raft self) ResetPipeline;
              Some (self\<lparr>current_trigger_messages_count := 0, cn_raft := raft\<rparr>) }
            else Some self }
          else Some self })"

subsection \<open>Pause, shared configuration, shutdown\<close>

definition compute_receive_closing :: "SocketAddr \<Rightarrow> ComputeNode \<Rightarrow> ComputeNode \<times> Response option" where
  "compute_receive_closing peer self =
     (if peer |\<notin>| compute_shutdown_group self then (self, None)
      else
        let self = self\<lparr>compute_shutdown_group := compute_shutdown_group self |-| {|peer|}\<rparr> in
        (self, Some (respond True (if compute_shutdown_group self \<noteq> {||} then ''Shutdown pending'' else ''Shutdown''))))"

definition apply_shared_config ::
    "compute_node_ext \<Rightarrow> tick \<Rightarrow> ComputeNodeSharedConfig \<Rightarrow> ComputeNode \<Rightarrow> ComputeNode may_panic" where
  "apply_shared_config E T config self =
     (let wl = shared_miner_whitelist config;
          raft = update_mining_event_timeout_duration (cn_raft self) (shared_mining_event_timeout config);
          raft = raft_update_partition_full_size raft (shared_partition_full_size config);
          raft = update_compute_miner_whitelist_active raft (whitelist_active wl);
          raft = update_compute_miner_whitelist_api_keys raft (miner_api_keys wl);
          raft = update_compute_miner_whitelist_addresses raft (miner_addresses wl);
          (self, unauthorized) = flush_unauthorized_miners E T (self\<lparr>cn_raft := raft\<rparr>)
      in do {
        self \<leftarrow> (case unauthorized of
            Some l \<Rightarrow> node_propose_runtime_item E (RemoveMiningApiKeys l) self
          | None \<Rightarrow> Some self);
        Some (self\<lparr>shared_config := config, received_shared_config := None\<rparr>) })"

definition initiate_pause_nodes :: "tick \<Rightarrow> u64 \<Rightarrow> ComputeNode \<Rightarrow> ComputeNode" where
  "initiate_pause_nodes T bn self = fst (compute_send_to_all T (compute_peers self) (ToCompute (CoordinatedPause bn)) self)"

definition initiate_resume_nodes :: "tick \<Rightarrow> ComputeNode \<Rightarrow> ComputeNode" where
  "initiate_resume_nodes T self = fst (compute_send_to_all T (compute_peers self) (ToCompute CoordinatedResume) self)"

definition initiate_send_shared_config :: "tick \<Rightarrow> ComputeNodeSharedConfig \<Rightarrow> ComputeNode \<Rightarrow> ComputeNode" where
  "initiate_send_shared_config T config self =
     fst (compute_send_to_all T (compute_peers self) (ToCompute (SendSharedConfig config)) self)"

definition handle_coordinated_pause ::
    "compute_node_ext \<Rightarrow> tick \<Rightarrow> SocketAddr \<Rightarrow> u64 \<Rightarrow> ComputeNode \<Rightarrow> (ComputeNode \<times> Response) may_panic" where
  "handle_coordinated_pause E T peer bn self =
     do { let initiating = (local_listener_address (cn_node self) = peer);
          let bn = (if initiating then get_current_block_num (cn_raft self) + bn else bn);
          raft \<leftarrow> propose_pause_nodes (craft E) (cn_raft self) bn;
          let self = self\<lparr>cn_raft := raft\<rparr>;
          Some (if initiating then initiate_pause_nodes T bn self else self,
                respond True ''Received coordinated pause request'') }"

definition handle_coordinated_resume ::
    "compute_node_ext \<Rightarrow> tick \<Rightarrow> SocketAddr \<Rightarrow> ComputeNode \<Rightarrow> (ComputeNode \<times> Response) may_panic" where
  "handle_coordinated_resume E T peer self =
     do { raft \<leftarrow> propose_resume_nodes (craft E) (cn_raft self);
          let self = self\<lparr>cn_raft := raft\<rparr>;
          Some (if local_listener_address (cn_node self) = peer then initiate_resume_nodes T self else self,
                respond True ''Received coordinated resume request'') }"

definition handle_shared_config ::
    "compute_node_ext \<Rightarrow> tick \<Rightarrow> SocketAddr \<Rightarrow> ComputeNodeSharedConfig \<Rightarrow> ComputeNode \<Rightarrow> (ComputeNode \<times> Response) may_panic" where
  "handle_shared_config E T peer config self =
     do { raft \<leftarrow> propose_apply_shared_config (craft E) (cn_raft self);
          let self = self\<lparr>cn_raft := raft\<rparr>;
          let self = (if local_listener_address (cn_node self) = peer then initiate_send_shared_config T config self else self);
          Some (self\<lparr>received_shared_config := Some config\<rparr>, respond True ''Received shared config'') }"

definition handle_coordinated_cmd ::
    "compute_node_ext \<Rightarrow> tick \<Rightarrow> CoordinatedCommand \<Rightarrow> ComputeNode \<Rightarrow> (ComputeNode \<times> Response) may_panic" where
  "handle_coordinated_cmd E T cmd self =
     (case cmd of
        PauseNodes bn \<Rightarrow> Some (self\<lparr>b_num_to_pause := Some bn\<rparr>, respond True ''Node pause configuration set'')
      | ResumeNodes \<Rightarrow>
          Some (self\<lparr>b_num_to_pause := None, pause_node := False, disable_trigger_messages := False\<rparr>,
                respond True ''Node resumed'')
      | ApplySharedConfig \<Rightarrow>
          (case received_shared_config self of
             Some config \<Rightarrow> do {
               self \<leftarrow> apply_shared_config E T config (self\<lparr>received_shared_config := None\<rparr>);
               Some (self, respond True ''Shared config applied'') }
           | None \<Rightarrow> Some (self, respond False ''No shared config to apply'')))"

definition handle_receive_runtime_data ::
    "SocketAddr \<Rightarrow> ComputeConsensusedRuntimeData \<Rightarrow> ComputeNode \<Rightarrow> ComputeNode \<times> Response" where
  "handle_receive_runtime_data peer data self =
     (if peer \<notin> set (compute_peers self) then (self, respond False ''Received runtime data from unknown peer'')
      else (self\<lparr>received_runtime_data := Some data\<rparr>, respond True ''Received runtime data from peer''))"

definition handle_receive_request_runtime_data :: "tick \<Rightarrow> SocketAddr \<Rightarrow> ComputeNode \<Rightarrow> ComputeNode \<times> Response" where
  "handle_receive_request_runtime_data T peer self =
     (case compute_send T peer (ToCompute (SendRuntimeData (runtime_data (consensused (cn_raft self))))) self of
        (self, Inl _) \<Rightarrow> (self, respond False ''Failed to send runtime data to peer'')
      | (self, Inr _) \<Rightarrow> (self, respond True ''Sent runtime data to peer''))"

definition receive_block_user_notification_request ::
    "compute_node_ext \<Rightarrow> SocketAddr \<Rightarrow> ComputeNode \<Rightarrow> (ComputeNode \<times> Response) may_panic" where
  "receive_block_user_notification_request E peer self =
     do { self \<leftarrow> save_user_notification_list E
            (self\<lparr>user_notification_list := finsert peer (user_notification_list self)\<rparr>);
          Some (self, respond True ''Received block notification'') }"

text \<open>The outpoints of the addresses by the index, those that are in the set.\<close>

definition utxos_of_addresses :: "TrackedUtxoSet \<Rightarrow> string list \<Rightarrow> UtxoSet" where
  "utxos_of_addresses utxos addresses =
     fmrestrict_fset
       (ffUnion (fset_of_list (map (\<lambda>a. case get_pk_cache_vec utxos a of None \<Rightarrow> {||} | Some ops \<Rightarrow> ops) addresses)))
       (base utxos)"

definition fetch_utxo_set :: "SocketAddr \<Rightarrow> UtxoFetchType \<Rightarrow> NodeType \<Rightarrow> ComputeNode \<Rightarrow> ComputeNode \<times> Response" where
  "fetch_utxo_set peer address_list t self =
     (let utxos = utxo_set (consensused (cn_raft self)) in
      (self\<lparr>fetched_utxo_set := Some (peer, t, case address_list of
           FetchAll \<Rightarrow> base utxos
         | FetchAnyOf addresses \<Rightarrow> utxos_of_addresses utxos addresses)\<rparr>,
       respond True ''Received UTXO fetch request''))"

text \<open>The API calls put a request into the node's own queue.\<close>

definition inject_own_event :: "ComputeRequest \<Rightarrow> ComputeNode \<Rightarrow> ComputeNode" where
  "inject_own_event req self =
     self\<lparr>cn_node := inject_next_event (local_listener_address (cn_node self)) (ToCompute req) (cn_node self)\<rparr>"

definition pause_nodes :: "u64 \<Rightarrow> ComputeNode \<Rightarrow> ComputeNode \<times> Response" where
  "pause_nodes bn self = (inject_own_event (CoordinatedPause bn) self, respond True ''Attempt coordinated node pause'')"

definition resume_nodes :: "ComputeNode \<Rightarrow> ComputeNode \<times> Response" where
  "resume_nodes self = (inject_own_event CoordinatedResume self, respond True ''Attempt coordinated node resume'')"

definition send_shared_config :: "ComputeNodeSharedConfig \<Rightarrow> ComputeNode \<Rightarrow> ComputeNode \<times> Response" where
  "send_shared_config config self =
     (inject_own_event (SendSharedConfig config) self, respond True ''Attempt send shared config'')"

definition get_shared_config :: "ComputeNode \<Rightarrow> ComputeNodeSharedConfig" where
  "get_shared_config self =
     \<lparr>shared_mining_event_timeout = propose_mining_event_timeout_duration (cn_raft self),
      shared_partition_full_size = c_partition_full_size (consensused (cn_raft self)),
      shared_miner_whitelist = miner_whitelist (consensused (cn_raft self))\<rparr>"

definition compute_not_implemented :: Response where
  "compute_not_implemented = respond False ''Not implemented yet''"

subsection \<open>Requests and events\<close>

fun api_call :: "compute_node_ext \<Rightarrow> ComputeApiRequest \<Rightarrow> ComputeNode \<Rightarrow> (ComputeNode \<times> Response option) may_panic" where
  "api_call E (ApiSendCreateReceiptRequest amount script_key pub_key sig spec meta) self =
     (case create_receipt_asset_tx E amount script_key pub_key sig spec meta self of
        Inr (tx, _) \<Rightarrow> do { (self, r) \<leftarrow> receive_transactions E [tx] self; Some (self, Some r) }
      | Inl _ \<Rightarrow> Some (self, None))"
| "api_call E (ApiSendTransactions txs) self = do { (self, r) \<leftarrow> receive_transactions E txs self; Some (self, Some r) }"
| "api_call E (ApiPauseNodes bn) self = (let (self, r) = pause_nodes bn self in Some (self, Some r))"
| "api_call E ApiResumeNodes self = (let (self, r) = resume_nodes self in Some (self, Some r))"
| "api_call E (ApiSendSharedConfig config) self = (let (self, r) = send_shared_config config self in Some (self, Some r))"

definition handle_api_request ::
    "compute_node_ext \<Rightarrow> SocketAddr \<Rightarrow> ComputeApiRequest \<Rightarrow> ComputeNode \<Rightarrow> (ComputeNode \<times> Response option) may_panic" where
  "handle_api_request E peer req self =
     (if peer \<noteq> local_listener_address (cn_node self) then Some (self, None) else api_call E req self)"

fun compute_handle_request ::
    "compute_node_ext \<Rightarrow> tick \<Rightarrow> SocketAddr \<Rightarrow> ComputeRequest \<Rightarrow> ComputeNode \<Rightarrow> (ComputeNode \<times> Response option) may_panic" where
  "compute_handle_request E T peer (ComputeApi req) self = handle_api_request E peer req self"
| "compute_handle_request E T peer (SendUtxoRequest l t) self =
     (let (self, r) = fetch_utxo_set peer l t self in Some (self, Some r))"
| "compute_handle_request E T peer (SendBlockStored info) self = receive_block_stored E peer info self"
| "compute_handle_request E T peer (SendPoW bn nonce coinbase) self = compute_receive_pow E peer bn nonce coinbase self"
| "compute_handle_request E T peer (SendPartitionEntry info entry) self = receive_partition_entry E peer info entry self"
| "compute_handle_request E T peer (SendTransactions txs) self =
     do { (self, r) \<leftarrow> receive_transactions E txs self; Some (self, Some r) }"
| "compute_handle_request E T peer SendUserBlockNotificationRequest self =
     do { (self, r) \<leftarrow> receive_block_user_notification_request E peer self; Some (self, Some r) }"
| "compute_handle_request E T peer (SendPartitionRequest key) self =
     do { (self, r) \<leftarrow> receive_partition_request E T peer key self; Some (self, Some r) }"
| "compute_handle_request E T peer (SendSharedConfig config) self =
     do { (self, r) \<leftarrow> handle_shared_config E T peer config self; Some (self, Some r) }"
| "compute_handle_request E T peer ComputeClosing self = Some (compute_receive_closing peer self)"
| "compute_handle_request E T peer (CoordinatedPause bn) self =
     do { (self, r) \<leftarrow> handle_coordinated_pause E T peer bn self; Some (self, Some r) }"
| "compute_handle_request E T peer CoordinatedResume self =
     do { (self, r) \<leftarrow> handle_coordinated_resume E T peer self; Some (self, Some r) }"
| "compute_handle_request E T peer RequestRemoveMiner self =
     (let (self, r) = handle_request_remove_miner peer self in Some (self, Some r))"
| "compute_handle_request E T peer RequestRuntimeData self =
     (let (self, r) = handle_receive_request_runtime_data T peer self in Some (self, Some r))"
| "compute_handle_request E T peer (SendRuntimeData data) self =
     (let (self, r) = handle_receive_runtime_data peer data self in Some (self, Some r))"
| "compute_handle_request E T peer (SendRaftCmd msg) self =
     Some (self\<lparr>cn_raft := received_message (cn_raft self) msg\<rparr>, None)"

text \<open>A frame that is not a request of a compute node cannot be deserialised.\<close>

definition compute_handle_new_frame ::
    "compute_node_ext \<Rightarrow> tick \<Rightarrow> SocketAddr \<Rightarrow> compute_msg \<Rightarrow> ComputeNode \<Rightarrow>
     (ComputeNode \<times> Response compute_result option) may_panic" where
  "compute_handle_new_frame E T peer frame self =
     (case frame of
        ToCompute req \<Rightarrow> do { (self, r) \<leftarrow> compute_handle_request E T peer req self; Some (self, map_option Inr r) }
      | _ \<Rightarrow> Some (self, Some (Inl Serialization)))"

text \<open>Without a file there is nothing to back up; the check itself may panic.\<close>

definition compute_backup_persistent_dbs :: "ComputeNode \<Rightarrow> ComputeNode may_panic" where
  "compute_backup_persistent_dbs self = do { _ \<leftarrow> need_backup (cn_raft self); Some self }"

definition handle_committed_mining_block ::
    "tick \<Rightarrow> string \<Rightarrow> ComputeNode \<Rightarrow> (ComputeNode \<times> Response option) may_panic" where
  "handle_committed_mining_block T why self =
     do { self \<leftarrow> reset_mining_block_process T self;
          self \<leftarrow> compute_backup_persistent_dbs self;
          Some (self, Some (respond True why)) }"

definition compute_handle_committed_data ::
    "compute_node_ext \<Rightarrow> tick \<Rightarrow> RaftCommit \<Rightarrow> ComputeNode \<Rightarrow> (ComputeNode \<times> Response option) may_panic" where
  "compute_handle_committed_data E T commit self =
     do { (raft, item) \<leftarrow> received_commit (craft E) (tick_now T) (cn_raft self) commit;
          let self = self\<lparr>cn_raft := raft\<rparr>;
          case item of
            Some CommittedFirstBlock \<Rightarrow> handle_committed_mining_block T ''First Block committed'' self
          | Some CommittedBlock \<Rightarrow> handle_committed_mining_block T ''Block committed'' self
          | Some CommittedBlockShutdown \<Rightarrow> handle_committed_mining_block T ''Block shutdown'' self
          | Some CommittedStartPhasePowIntake \<Rightarrow> Some (self, Some (respond True ''Winning PoW intake open''))
          | Some CommittedStartPhaseHalted \<Rightarrow> do {
              self \<leftarrow> mining_block_mined self;
              Some (self, Some (respond True ''Pipeline halted'')) }
          | Some CommittedResetPipeline \<Rightarrow> Some (self, Some (respond True ''Pipeline reset''))
          | Some CommittedTransactions \<Rightarrow> do {
              let (raft, hashes) = take_local_tx_hash_last_commited (cn_raft self);
              db \<leftarrow> delete_local_transactions hashes (cn_db self);
              Some (self\<lparr>cn_raft := raft, cn_db := db\<rparr>, Some (respond True ''Transactions committed'')) }
          | Some CommittedSnapshot \<Rightarrow> Some (self, Some (respond True ''Snapshot applied''))
          | Some (CommittedCoordinatedCmd cmd) \<Rightarrow> do {
              (self, r) \<leftarrow> handle_coordinated_cmd E T cmd self; Some (self, Some r) }
          | None \<Rightarrow> Some (self, None) }"

fun compute_handle_local_event :: "tick \<Rightarrow> LocalEvent \<Rightarrow> ComputeNode \<Rightarrow> ComputeNode \<times> Response option" where
  "compute_handle_local_event T (ExitEvent why) self = (self, Some (respond True why))"
| "compute_handle_local_event T ReconnectionComplete self =
     (send_startup_requests T self, Some (respond True ''Sent startup requests on reconnection''))"
| "compute_handle_local_event T (CoordinatedShutdown shutdown) self =
     (self\<lparr>coordinated_shutdown := shutdown\<rparr>, Some (respond True ''Start coordinated shutdown''))"
| "compute_handle_local_event T IgnoreEvent self = (self, None)"

text \<open>
  What the node selects on, with the conditions under which a branch is enabled. A frame is the next
  one in the queue of the network node; a call is a call of the API in the node's thread.
\<close>

datatype compute_event =
    EventFrame
  | EventCommit RaftCommit
  | EventRaftMsg SocketAddr bytes
  | EventTransactionsTimeout
  | EventMiningTimeout
  | EventLocal LocalEvent
  | EventCall ComputeApiRequest
  | EventExit string

definition compute_event_enabled :: "compute_event \<Rightarrow> ComputeNode \<Rightarrow> bool" where
  "compute_event_enabled ev self \<longleftrightarrow>
     (let ready = (\<not> need_initial_state (cn_raft self)); shutdown = shutdown_no_commit_process (cn_raft self)
      in case ev of
          EventFrame \<Rightarrow> ready \<and> node_events (cn_node self) \<noteq> []
        | EventCommit _ \<Rightarrow> \<not> shutdown
        | EventRaftMsg _ _ \<Rightarrow> ready
        | EventTransactionsTimeout \<Rightarrow> ready \<and> \<not> shutdown
        | EventMiningTimeout \<Rightarrow> ready \<and> \<not> shutdown
        | EventLocal _ \<Rightarrow> ready
        | EventCall _ \<Rightarrow> ready
        | EventExit _ \<Rightarrow> True)"

fun compute_handle_next_event ::
    "compute_node_ext \<Rightarrow> tick \<Rightarrow> compute_event \<Rightarrow> ComputeNode \<Rightarrow>
     (ComputeNode \<times> Response compute_result option) may_panic" where
  "compute_handle_next_event E T EventFrame self =
     (case next_event (cn_node self) of
        Some (n, peer, frame) \<Rightarrow> compute_handle_new_frame E T peer frame (self\<lparr>cn_node := n\<rparr>)
      | None \<Rightarrow> Some (self, None))"
| "compute_handle_next_event E T (EventCommit commit) self =
     do { (self, r) \<leftarrow> compute_handle_committed_data E T commit self; Some (self, map_option Inr r) }"
| "compute_handle_next_event E T (EventRaftMsg addr msg) self =
     Some (fst (compute_send T addr (ToCompute (SendRaftCmd msg)) self), None)"
| "compute_handle_next_event E T EventTransactionsTimeout self =
     do { raft \<leftarrow> propose_local_transactions_at_timeout (craft E) (tick_now T) (cn_raft self);
          raft \<leftarrow> propose_local_druid_transactions (craft E) raft;
          Some (self\<lparr>cn_raft := raft\<rparr>, None) }"
| "compute_handle_next_event E T EventMiningTimeout self =
     do { (raft, proposed) \<leftarrow> propose_mining_event_at_timeout (craft E) (tick_now T) (cn_raft self);
          let self = self\<lparr>cn_raft := raft\<rparr>;
          if \<not> proposed \<and> \<not> disable_trigger_messages self
          then do {
            self \<leftarrow> compute_resend_trigger_message E T
              (self\<lparr>cn_raft := re_propose_uncommitted_current_b_num (cn_raft self)\<rparr>);
            Some (self, None) }
          else Some (self\<lparr>current_trigger_messages_count := 0\<rparr>, None) }"
| "compute_handle_next_event E T (EventLocal ev) self =
     (let (self, r) = compute_handle_local_event T ev self in Some (self, map_option Inr r))"
| "compute_handle_next_event E T (EventCall req) self =
     do { (self, _) \<leftarrow> api_call E req self; Some (self, None) }"
| "compute_handle_next_event E T (EventExit why) self = Some (self, Some (Inr (respond True why)))"

text \<open>The reaction to a response; the others are only logged.\<close>

definition start_mining :: "compute_node_ext \<Rightarrow> tick \<Rightarrow> ComputeNode \<Rightarrow> ComputeNode may_panic" where
  "start_mining E T self =
     (if \<not> pause_node self
      then do { self \<leftarrow> flood_block_to_users E T self; flood_rand_and_block_to_partition E T self }
      else Some (self\<lparr>disable_trigger_messages := True\<rparr>))"

definition compute_handle_next_event_response ::
    "compute_node_ext \<Rightarrow> tick \<Rightarrow> Response compute_result \<Rightarrow> ComputeNode \<Rightarrow> (ComputeNode \<times> ResponseResult) may_panic" where
  "compute_handle_next_event_response E T response self =
     (case response of
        Inl _ \<Rightarrow> Some (self, Continue)
      | Inr r \<Rightarrow>
          if r = respond True ''Received UTXO fetch request'' then Some (fst (send_fetched_utxo_set T self), Continue)
          else if r = respond True ''Shutdown'' then Some (self, Exit)
          else if r = respond True ''Winning PoW intake open''
          then do { self \<leftarrow> flood_rand_and_block_to_partition E T self; Some (self, Continue) }
          else if r = respond True ''Pipeline halted'' then Some (fst (send_block_to_storage T self), Continue)
          else if r = respond True ''Received runtime data from peer'' then
            (case received_runtime_data self of
               Some data \<Rightarrow> do {
                 self \<leftarrow> node_propose_runtime_item E (AddMiningApiKeys (sorted_list_of_fmap (mining_api_keys data)))
                   (self\<lparr>received_runtime_data := None\<rparr>);
                 Some (self, Continue) }
             | None \<Rightarrow> Some (self, Continue))
          else if r = respond True ''First Block committed'' \<or> r = respond True ''Block committed''
          then do { self \<leftarrow> start_mining E T self; Some (self, Continue) }
          else if r = respond True ''Block shutdown'' then Some (compute_flood_closing_events T self, Continue)
          else Some (self, Continue))"

subsection \<open>Construction\<close>

text \<open>The entries of the configuration that the node itself reads.\<close>

record ComputeNodeFullConfig = ComputeNodeConfig +
  compute_storage_nodes :: "SocketAddr list"
  compute_minimum_miner_pool_len :: nat
  config_jurisdiction :: string
  config_sanction_list :: "string list"
  config_enable_trigger_messages_pipeline_reset :: "bool option"
  compute_miner_whitelist :: MinerWhitelist

definition load_addrs :: "compute_node_ext \<Rightarrow> string \<Rightarrow> SocketAddr fset \<Rightarrow> SimpleDb \<Rightarrow> SocketAddr fset option may_panic" where
  "load_addrs E key old db =
     do { list \<leftarrow> db_get_cf COMPUTE_DB_COL_INTERNAL (as_bytes key) db;
          Some (case list of Some l \<Rightarrow> addrs_deserialize E l | None \<Rightarrow> Some old) }"

definition load_random_num :: "bytes \<Rightarrow> string \<Rightarrow> SimpleDb \<Rightarrow> (SimpleDb \<times> bytes) may_panic" where
  "load_random_num rand key db =
     do { stored \<leftarrow> db_get_cf COMPUTE_DB_COL_INTERNAL (as_bytes key) db;
          let num = (case stored of Some n \<Rightarrow> n | None \<Rightarrow> rand);
          db \<leftarrow> db_put_cf COMPUTE_DB_COL_INTERNAL (as_bytes key) num db;
          Some (db, num) }"

definition load_key_run :: "compute_node_ext \<Rightarrow> SimpleDb \<Rightarrow> (SimpleDb \<times> u64) option may_panic" where
  "load_key_run E db =
     do { stored \<leftarrow> db_get_cf COMPUTE_DB_COL_INTERNAL (as_bytes COMPUTE_RAFT_KEY_RUN) db;
          case (case stored of None \<Rightarrow> Some 0 | Some ser \<Rightarrow> map_option (\<lambda>n. n + 1) (run_deserialize E ser)) of
            None \<Rightarrow> Some None
          | Some n \<Rightarrow>
              (case run_serialize E n of
                 None \<Rightarrow> Some None
               | Some ser \<Rightarrow> do {
                   db \<leftarrow> db_put_cf COMPUTE_DB_COL_INTERNAL (as_bytes COMPUTE_RAFT_KEY_RUN) ser db;
                   Some (Some (db, n)) }) }"

definition check_first_flood :: "ComputeNode \<Rightarrow> ComputeNode" where
  "check_first_flood self =
     (case request_list_first_flood self of
        Some first \<Rightarrow>
          if first \<le> fcard (request_list self)
          then self\<lparr>request_list_first_flood := None, cn_raft := set_initial_proposal_done (cn_raft self)\<rparr>
          else self
      | None \<Rightarrow> self)"

definition compute_load_local_db ::
    "compute_node_ext \<Rightarrow> tick \<Rightarrow> ComputeNode \<Rightarrow> ComputeNode compute_result may_panic" where
  "compute_load_local_db E T self =
     do { list \<leftarrow> load_addrs E REQUEST_LIST_KEY (request_list self) (cn_db self);
          case list of
            None \<Rightarrow> Some (Inl Serialization)
          | Some list \<Rightarrow> do {
              let self = self\<lparr>request_list := list\<rparr>;
              let self = check_first_flood self;
              users \<leftarrow> load_addrs E USER_NOTIFY_LIST_KEY (user_notification_list self) (cn_db self);
              case users of
                None \<Rightarrow> Some (Inl Serialization)
              | Some users \<Rightarrow> do {
                  (db, cur) \<leftarrow> load_random_num (tick_rand T) POW_RANDOM_NUM_KEY (cn_db self);
                  (db, prev) \<leftarrow> load_random_num (tick_next_rand T) POW_PREV_RANDOM_NUM_KEY db;
                  run \<leftarrow> load_key_run E db;
                  case run of
                    None \<Rightarrow> Some (Inl Serialization)
                  | Some (db, key_run) \<Rightarrow> do {
                      txs \<leftarrow> get_local_transactions E db;
                      Some (Inr (self\<lparr>user_notification_list := users, current_random_num := cur,
                        previous_random_num := prev, cn_db := db,
                        cn_raft := append_to_tx_pool (set_key_run (cn_raft self) key_run) txs\<rparr>)) } } } }"

text \<open>
  Construction with an in-memory database; \<open>node\<close> is the network node it is given. The whitelist of
  the configuration is kept in the shared configuration only.
\<close>

definition ComputeNode_new ::
    "compute_node_ext \<Rightarrow> tick \<Rightarrow> ComputeNodeFullConfig \<Rightarrow> compute_msg Node \<Rightarrow> SimpleDb option \<Rightarrow>
     ComputeNode compute_result may_panic" where
  "ComputeNode_new E T config node old_db =
     (if \<not> compute_node_idx config < length (compute_nodes config)
      then Some (Inl (ConfigError ''Invalid compute index''))
      else if \<not> compute_node_idx config < length (compute_storage_nodes config)
      then Some (Inl (ConfigError ''Invalid storage index''))
      else do {
        let saddr = compute_storage_nodes config ! compute_node_idx config;
        raft \<leftarrow> ComputeRaft_new (craft E) (gext E) (tick_now T) (ComputeNodeConfig.truncate config);
        db \<leftarrow> new_db (cdb E) COMPUTE_DB_SPEC_columns old_db;
        compute_load_local_db E T
          \<lparr>shared_config = \<lparr>shared_mining_event_timeout = compute_mining_event_timeout config,
              shared_partition_full_size = compute_partition_full_size config,
              shared_miner_whitelist = compute_miner_whitelist config\<rparr>,
           received_shared_config = None, received_runtime_data = None, cn_node = node, cn_raft = raft, cn_db = db,
           b_num_to_pause = None, pause_node = False, disable_trigger_messages = False,
           jurisdiction = config_jurisdiction config, current_mined_block = None, druid_pool = fmempty,
           previous_random_num = [], current_random_num = [], current_trigger_messages_count = 0,
           enable_trigger_messages_pipeline_reset =
             (case config_enable_trigger_messages_pipeline_reset config of None \<Rightarrow> False | Some b \<Rightarrow> b),
           miners_changed = False, partition_full_size = compute_partition_full_size config, request_list = {||},
           request_list_first_flood = Some (compute_minimum_miner_pool_len config), miner_removal_list = {||},
           storage_addr = saddr, sanction_list = config_sanction_list config, user_notification_list = {||},
           coordinated_shutdown = - 1,
           compute_shutdown_group = finsert saddr (fset_of_list (raft_peer_addrs (raft_active raft))),
           fetched_utxo_set = None\<rparr> })"

end
