(* ===== verification/Compute_Inv.thy ===== *)
theory Compute_Inv
  imports Compute_Node
begin

text \<open>
  The invariant of a compute node, from its construction through the events it handles and its
  reactions to their responses: the accounting of the consensus side holds, the pool of DRUID
  transactions holds unfinished sets only, and the database has what a restart needs.
\<close>

section \<open>The consensus side\<close>

text \<open>The accounting holds, and at most \<open>B\<close> proposals were made in this run.\<close>

abbreviation last_id :: "ComputeRaft \<Rightarrow> u64" where
  "last_id r \<equiv> proposed_last_id (in_flight r)"

definition raft_ok :: "compute_raft_ext \<Rightarrow> nat \<Rightarrow> ComputeRaft \<Rightarrow> bool" where
  "raft_ok E B r \<longleftrightarrow> tx_pool_inv E r \<and> unat (last_id r) \<le> B"

lemma raft_ok_mono: "raft_ok E B r \<Longrightarrow> B \<le> C \<Longrightarrow> raft_ok E C r"
  by (simp add: raft_ok_def)

lemma last_id_item:
  "in_flight_propose_item C flight r item dedup = Some (flight', r', ko) \<Longrightarrow>
   proposed_last_id flight' \<in> {proposed_last_id flight, proposed_last_id flight + 1}"
  by (auto elim!: propose_item_cases)

lemma last_id_propose:
  shows "propose_item E s item = Some (t, key) \<Longrightarrow> last_id t \<in> {last_id s, last_id s + 1}"
    and "propose_item_dedup E s item bn = Some (t, ko) \<Longrightarrow> last_id t \<in> {last_id s, last_id s + 1}"
  by (auto simp: propose_item_def propose_item_dedup_def option_bind_Some_iff dest!: last_id_item)

lemma last_id_propose_pipeline:
  "propose_mining_pipeline_item E s pitem = Some (t, b) \<Longrightarrow> last_id t \<in> {last_id s, last_id s + 1}"
  by (auto simp: propose_mining_pipeline_item_def option_bind_Some_iff Let_def dest!: last_id_propose(2)
      split: option.splits)

lemma last_id_proposals:
  shows "propose_initial_item E s = Some t \<Longrightarrow> last_id t \<in> {last_id s, last_id s + 1}"
    and "propose_block_with_last_info E s block = Some (t, b) \<Longrightarrow> last_id t \<in> {last_id s, last_id s + 1}"
    and "propose_mining_event_at_timeout E now s = Some (t, b) \<Longrightarrow> last_id t \<in> {last_id s, last_id s + 1}"
    and "propose_local_transactions_at_timeout E now s = Some t \<Longrightarrow> last_id t \<in> {last_id s, last_id s + 1}"
    and "propose_local_druid_transactions E s = Some t \<Longrightarrow> last_id t \<in> {last_id s, last_id s + 1}"
    and "propose_runtime_item E s ritem = Some t \<Longrightarrow> last_id t \<in> {last_id s, last_id s + 1}"
    and "propose_pause_nodes E s bn = Some t \<Longrightarrow> last_id t \<in> {last_id s, last_id s + 1}"
    and "propose_resume_nodes E s = Some t \<Longrightarrow> last_id t \<in> {last_id s, last_id s + 1}"
    and "propose_apply_shared_config E s = Some t \<Longrightarrow> last_id t \<in> {last_id s, last_id s + 1}"
  subgoal
    by (auto simp: propose_initial_item_def option_bind_Some_iff Let_def dest!: last_id_propose
        split: option.splits InitialProposal.splits)
  subgoal
    by (auto simp: propose_block_with_last_info_def Let_def dest!: last_id_propose(2)
        split: option.splits InitialProposal.splits)
  subgoal
    by (auto simp: propose_mining_event_at_timeout_def set_next_propose_mining_event_timeout_at_def Let_def
        dest!: last_id_propose_pipeline split: option.splits)
  subgoal
    by (auto simp: propose_local_transactions_at_timeout_def set_next_propose_transactions_timeout_at_def Let_def
        dest!: last_id_propose(1) split: option.splits if_splits prod.splits)
  subgoal
    by (auto simp: propose_local_druid_transactions_def Let_def dest!: last_id_propose(1) split: if_splits)
  by (auto simp: propose_runtime_item_def propose_pause_nodes_def propose_resume_nodes_def
      propose_apply_shared_config_def dest!: last_id_propose(1))

lemma last_id_step:
  assumes "unat (last_id s) \<le> B" and "last_id t \<in> {last_id s, last_id s + 1}"
  shows "unat (last_id t) \<le> Suc B"
proof -
  have "unat (last_id s + 1) \<le> Suc (unat (last_id s))"
    by (simp add: unat_word_ariths)
  then show ?thesis using assms by auto
qed

lemma no_wrap:
  assumes "raft_ok E B r" and "Suc B < 2 ^ 64"
  shows "last_id r + 1 \<noteq> 0"
proof -
  have "unat (last_id r) + 1 < 2 ^ 64" using assms by (simp add: raft_ok_def)
  then have "unat (last_id r + 1) = unat (last_id r) + 1" by (simp add: unat_word_ariths)
  then show ?thesis by (metis add_is_0 unat_0 zero_neq_one)
qed

text \<open>An operation of the consensus side that makes at most one proposal.\<close>

lemma raft_ok_step:
  assumes "raft_ok E B s" and "Suc B < 2 ^ 64" and "codec_inverts (codec E)"
    and "last_id s + 1 \<noteq> 0 \<Longrightarrow> compute_raft_step E s t" and "last_id t \<in> {last_id s, last_id s + 1}"
  shows "raft_ok E (Suc B) t"
  using tx_pool_inv_step [OF _ assms(3) assms(4) [OF no_wrap [OF assms(1,2)]]] last_id_step [OF _ assms(5)] assms(1)
  by (simp add: raft_ok_def)

lemma raft_ok_proposals:
  assumes "raft_ok E B s" and "Suc B < 2 ^ 64" and "codec_inverts (codec E)"
  shows "propose_initial_item E s = Some t \<Longrightarrow> raft_ok E (Suc B) t"
    and "propose_block_with_last_info E s block = Some (t, b) \<Longrightarrow> raft_ok E (Suc B) t"
    and "propose_mining_pipeline_item E s pitem = Some (t, b) \<Longrightarrow> raft_ok E (Suc B) t"
    and "propose_mining_event_at_timeout E now s = Some (t, b) \<Longrightarrow> raft_ok E (Suc B) t"
    and "propose_local_transactions_at_timeout E now s = Some t \<Longrightarrow> raft_ok E (Suc B) t"
    and "propose_local_druid_transactions E s = Some t \<Longrightarrow> raft_ok E (Suc B) t"
    and "propose_runtime_item E s ritem = Some t \<Longrightarrow> raft_ok E (Suc B) t"
    and "propose_pause_nodes E s bn = Some t \<Longrightarrow> raft_ok E (Suc B) t"
    and "propose_resume_nodes E s = Some t \<Longrightarrow> raft_ok E (Suc B) t"
    and "propose_apply_shared_config E s = Some t \<Longrightarrow> raft_ok E (Suc B) t"
  by (rule raft_ok_step [OF assms],
      (rule compute_raft_step.intros; assumption),
      (rule last_id_proposals last_id_propose_pipeline; assumption))+

lemma last_id_remove_all_keys [simp]: "proposed_last_id (remove_all_keys flight keys) = proposed_last_id flight"
proof -
  have "proposed_last_id (fold remove_key xs flight) = proposed_last_id flight" for xs
    by (induction xs arbitrary: flight) (simp_all add: remove_key_def)
  then show ?thesis by (simp add: remove_all_keys_def)
qed

lemma acct_last_id: "acct t = acct s \<Longrightarrow> last_id t = last_id s"
  by (simp add: acct_def)

lemma last_id_commit_item:
  assumes "commit_item E now s key item = Some (t, c)"
  shows "last_id t = last_id s"
proof (cases item)
  case (ItemFirstBlock u)
  then show ?thesis using assms acct_last_id [OF acct_first_block] by auto
next
  case (ItemBlock b)
  then show ?thesis using assms acct_last_id [OF acct_commit_block] by auto
next
  case (ItemPipelineItem i n)
  then have p: "commit_pipeline_item E now s key i n = Some (t, c)" using assms by simp
  show ?thesis
  proof (cases "is_current_block (consensused s) n")
    case True
    obtain cons change where "compute_handle_mining_pipeline_item (cext E) (consensused s) i key = Some (cons, change)"
      using p True by (auto simp: commit_pipeline_item_def option_bind_Some_iff)
    then show ?thesis
      using p True by (cases change; cases "the change")
        (auto simp: commit_pipeline_item_def Let_def set_next_propose_mining_event_timeout_at_def)
  qed (use p in \<open>simp add: commit_pipeline_item_def\<close>)
next
  case (ItemCoordinatedCmd cmd)
  then show ?thesis using assms by (auto simp: commit_coordinated_cmd_def Let_def split: if_splits prod.splits)
qed (use assms in auto)

lemma last_id_commit:
  assumes "received_commit E now s rc = Some (t, c)"
  shows "last_id t = last_id s"
proof (cases "commit_data rc")
  case (Proposed data ctx)
  then show ?thesis
    using assms
    by (auto simp: received_commit_def received_commit_proposal_def in_flight_received_commit_proposal_def Let_def
        simp del: commit_item.simps split: option.splits if_splits ComputeRaftItem.splits dest!: last_id_commit_item)
next
  case (CommitSnapshot data)
  then show ?thesis
    using assms acct_last_id [OF acct_ignore]
    by (auto simp: received_commit_def apply_snapshot_def option_bind_Some_iff Let_def
        set_next_propose_mining_event_timeout_at_def set_next_propose_transactions_timeout_at_def split: if_splits)
next
  case NewLeader
  then show ?thesis using assms by (auto simp: received_commit_def)
qed

lemma raft_ok_commit:
  assumes "raft_ok E B s" and "received_commit E now s rc = Some (t, c)"
    and "\<And>data ctx. commit_data rc = Proposed data ctx \<Longrightarrow> log_faithful E s data ctx"
    and "\<And>data. commit_data rc = CommitSnapshot data \<Longrightarrow> snapshot_keys_ok E s data"
  shows "raft_ok E B t"
  using assms(1) tx_pool_inv_commit [OF _ assms(2,3,4)] last_id_commit [OF assms(2)] by (simp add: raft_ok_def)

text \<open>Operations without a proposal.\<close>

lemma raft_ok_quiet:
  assumes "raft_ok E B s" and "codec_inverts (codec E)"
  shows "raft_ok E B (re_propose_uncommitted_current_b_num s)" "raft_ok E B (append_to_tx_pool s txs)"
    "raft_ok E B (append_to_tx_druid_pool s txs)" "raft_ok E B (fst (take_local_tx_hash_last_commited s))"
    "raft_ok E B (fst (raft_take_mining_block s))" "raft_ok E B (clear_block_pipeline_proposed_keys s)"
    "raft_ok E B (flush_stale_miners s miners)" "raft_ok E B (set_initial_proposal_done s)"
    "raft_ok E B (update_mining_event_timeout_duration s ms)" "raft_ok E B (raft_update_partition_full_size s n)"
    "raft_ok E B (update_compute_miner_whitelist_active s active)"
    "raft_ok E B (update_compute_miner_whitelist_api_keys s api_keys)"
    "raft_ok E B (update_compute_miner_whitelist_addresses s addrs)" "raft_ok E B (received_message s msg)"
proof -
  have q: "compute_raft_step E s t \<Longrightarrow> last_id t = last_id s \<Longrightarrow> raft_ok E B t" for t
    using assms tx_pool_inv_step by (auto simp: raft_ok_def)
  show "raft_ok E B (re_propose_uncommitted_current_b_num s)" "raft_ok E B (append_to_tx_pool s txs)"
    "raft_ok E B (append_to_tx_druid_pool s txs)" "raft_ok E B (fst (take_local_tx_hash_last_commited s))"
    "raft_ok E B (fst (raft_take_mining_block s))" "raft_ok E B (clear_block_pipeline_proposed_keys s)"
    "raft_ok E B (flush_stale_miners s miners)" "raft_ok E B (set_initial_proposal_done s)"
    "raft_ok E B (update_mining_event_timeout_duration s ms)" "raft_ok E B (raft_update_partition_full_size s n)"
    "raft_ok E B (update_compute_miner_whitelist_active s active)"
    "raft_ok E B (update_compute_miner_whitelist_api_keys s api_keys)"
    "raft_ok E B (update_compute_miner_whitelist_addresses s addrs)" "raft_ok E B (received_message s msg)"
    by (rule q, rule compute_raft_step.intros,
        simp add: re_propose_uncommitted_current_b_num_def append_to_tx_pool_def append_to_tx_druid_pool_def
          take_local_tx_hash_last_commited_def raft_take_mining_block_def clear_block_pipeline_proposed_keys_def
          flush_stale_miners_def set_initial_proposal_done_def update_mining_event_timeout_duration_def
          raft_update_partition_full_size_def update_compute_miner_whitelist_active_def
          update_compute_miner_whitelist_api_keys_def update_compute_miner_whitelist_addresses_def
          received_message_def split: option.splits prod.splits)+
qed

section \<open>DRUID transactions\<close>

text \<open>
  A set of transactions that waits has the transactions of its DRUID, at least one and fewer than
  the participants its first transaction named. A DRUID without participants waits forever.
\<close>

definition droplet_ok :: "string \<Rightarrow> DruidDroplet \<Rightarrow> bool" where
  "droplet_ok d dr \<longleftrightarrow> droplet_txs dr \<noteq> fmempty \<and>
     (droplet_participants dr = 0 \<or> fmlen (droplet_txs dr) < droplet_participants dr) \<and>
     (\<forall>h tx. fmlookup (droplet_txs dr) h = Some tx \<longrightarrow> map_option druid (druid_info tx) = Some d)"

definition druid_pool_ok :: "DruidPool \<Rightarrow> bool" where
  "druid_pool_ok pool \<longleftrightarrow> (\<forall>d dr. fmlookup pool d = Some dr \<longrightarrow> droplet_ok d dr)"

text \<open>What is handed over: a complete set of one DRUID; it is valid when all agree on its size and their
  expectations are met.\<close>

definition ready_ok :: "compute_node_ext \<Rightarrow> bool \<times> TxMap \<Rightarrow> bool" where
  "ready_ok E r \<longleftrightarrow> (\<exists>d. snd r \<noteq> fmempty \<and>
     (\<forall>h tx. fmlookup (snd r) h = Some tx \<longrightarrow> map_option druid (druid_info tx) = Some d) \<and>
     (fst r \<longleftrightarrow> druid_expectations_are_met E d (fmvalues (snd r)) \<and>
        (\<forall>h tx. fmlookup (snd r) h = Some tx \<longrightarrow> map_option dde_participants (druid_info tx) = Some (fmlen (snd r)))))"

lemma list_all_fmvalues: "list_all P (fmvalues m) \<longleftrightarrow> (\<forall>k v. fmlookup m k = Some v \<longrightarrow> P v)"
  by (auto simp: list_all_iff set_fmvalues)

lemma validate_dde_loop_ok:
  assumes "druid_pool_ok pool" and "\<forall>r \<in> set ready. ready_ok E r"
    and "validate_dde_loop E txs pool ready = (pool', ready')"
  shows "druid_pool_ok pool' \<and> (\<forall>r \<in> set ready'. ready_ok E r)"
  using assms
proof (induction E txs pool ready rule: validate_dde_loop.induct)
  case (2 E h tx rest pool ready)
  show ?case
  proof (cases "druid_info tx")
    case None
    then show ?thesis using 2 by simp
  next
    case (Some info)
    let ?d = "druid info"
    let ?old = "case fmlookup pool ?d of Some dr \<Rightarrow> dr | None \<Rightarrow> DruidDroplet_new (dde_participants info)"
    let ?dr = "?old\<lparr>droplet_txs := fmupd h tx (droplet_txs ?old)\<rparr>"
    have old: "droplet_participants ?old = 0 \<or> fmlen (droplet_txs ?old) < droplet_participants ?old"
      "\<forall>h tx. fmlookup (droplet_txs ?old) h = Some tx \<longrightarrow> map_option druid (druid_info tx) = Some ?d"
      using "2.prems"(1)
      by (auto simp: druid_pool_ok_def droplet_ok_def DruidDroplet_new_def fmlen_def split: option.splits)
    have txs: "fmlookup (droplet_txs ?dr) k = Some x \<longrightarrow> map_option druid (druid_info x) = Some ?d" for k x
      using old(2) Some by (auto split: if_splits)
    have ne: "droplet_txs ?dr \<noteq> fmempty" by (rule notI) (drule arg_cong [where f = "\<lambda>m. fmlookup m h"], simp)
    show ?thesis
    proof (cases "fmlen (droplet_txs ?dr) = droplet_participants ?dr")
      case True
      let ?valid = "druid_expectations_are_met E ?d (fmvalues (droplet_txs ?dr)) \<and> check_druid_participants ?dr"
      have r: "ready_ok E (?valid, droplet_txs ?dr)"
        unfolding ready_ok_def using txs ne True
        by (intro exI [of _ ?d]) (simp add: check_druid_participants_def list_all_fmvalues)
      have "druid_pool_ok (fmdrop ?d pool)" using "2.prems"(1) by (auto simp: druid_pool_ok_def split: if_splits)
      then show ?thesis
        using "2.IH"(2) [OF Some refl refl True refl] "2.prems"(2,3) Some r True by (simp add: Let_def)
    next
      case False
      have "fmlen (droplet_txs ?dr) \<le> Suc (fmlen (droplet_txs ?old))" by (simp add: fmlen_fmupd)
      then have "droplet_ok ?d ?dr" using old(1) txs ne False by (auto simp: droplet_ok_def)
      then have "druid_pool_ok (fmupd ?d ?dr pool)" using "2.prems"(1) by (auto simp: druid_pool_ok_def)
      then show ?thesis using "2.IH"(3) [OF Some refl refl False] "2.prems"(2,3) Some False by (simp add: Let_def)
    qed
  qed
qed simp

section \<open>The database\<close>

subsection \<open>Local transactions\<close>

text \<open>What is relied on of the serialisation, and that a hash is a string.\<close>

definition node_codec_ok :: "compute_node_ext \<Rightarrow> bool" where
  "node_codec_ok E \<longleftrightarrow>
     (\<forall>S b. addrs_serialize E S = Some b \<longrightarrow> addrs_deserialize E b = Some S) \<and>
     (\<forall>tx b. local_tx_serialize E tx = Some b \<longrightarrow> local_tx_deserialize E b = Some tx) \<and>
     (\<forall>tx. utf8_valid (as_bytes (construct_tx_hash E tx)))"

lemma char_of_unat_of_char: "char_of (unat (of_char c :: u8)) = c"
proof -
  have "unat (of_nat (of_char c) :: u8) = of_char c"
    using nat_of_char_less_256 [of c] by (simp only: unat_of_nat) (simp add: take_bit_eq_mod)
  then show ?thesis by (simp only: of_nat_of_char char_of_char)
qed

lemma from_utf8_as_bytes: "utf8_valid (as_bytes s) \<Longrightarrow> from_utf8 (as_bytes s) = Some s"
  by (simp add: from_utf8_def as_bytes_def comp_def char_of_unat_of_char)

lemma of_char_char_of_unat: "of_char (char_of (unat b)) = (b :: u8)"
proof -
  have "unat b < 256" using unsigned_less [where 'a = nat and w = b] by simp
  then have "(of_char (char_of (unat b)) :: nat) = unat b" by (simp only: of_char_of) simp
  then have "of_nat (of_char (char_of (unat b))) = (of_nat (unat b) :: u8)" by simp
  then show ?thesis by (simp only: of_nat_of_char of_nat_unat ucast_id)
qed

lemma from_utf8_Some: "from_utf8 k = Some s \<Longrightarrow> k = as_bytes s"
  by (auto simp: from_utf8_def as_bytes_def comp_def of_char_char_of_unat split: if_splits)

definition local_col_ok :: "compute_node_ext \<Rightarrow> (bytes, bytes) fmap \<Rightarrow> bool" where
  "local_col_ok E kv \<longleftrightarrow>
     (\<forall>k v. fmlookup kv k = Some v \<longrightarrow> from_utf8 k \<noteq> None \<and> local_tx_deserialize E v \<noteq> None)"

lemma decode_local_txs_defined:
  "decode_local_txs E xs m \<noteq> None \<longleftrightarrow> (\<forall>k v. (k, v) \<in> set xs \<longrightarrow> from_utf8 k \<noteq> None \<and> local_tx_deserialize E v \<noteq> None)"
  by (induction E xs m rule: decode_local_txs.induct) (auto split: Option.bind_splits)

lemma decode_local_txs_lookup:
  "decode_local_txs E xs m = Some m' \<Longrightarrow> distinct (map fst xs) \<Longrightarrow>
   fmlookup m' h = (case map_of xs (as_bytes h) of Some v \<Rightarrow> local_tx_deserialize E v | None \<Rightarrow> fmlookup m h)"
proof (induction E xs m rule: decode_local_txs.induct)
  case (2 E k v rest txs)
  obtain key tx where d: "from_utf8 k = Some key" "local_tx_deserialize E v = Some tx"
    and r: "decode_local_txs E rest (fmupd key tx txs) = Some m'"
    using "2.prems"(1) by (auto simp: option_bind_Some_iff)
  have k: "k = as_bytes key" by (rule from_utf8_Some [OF d(1)])
  have "map_of rest (as_bytes key) = None" using "2.prems"(2) k by (simp add: map_of_eq_None_iff)
  then show ?case using "2.IH" [OF d r] "2.prems"(2) d(2) k by (auto split: option.splits)
qed simp

lemma map_of_sorted_list_of_fmap: "map_of (sorted_list_of_fmap m) = fmlookup m"
  by (rule ext) (metis distinct_sorted_list_of_fmap map_of_eq_Some_iff not_Some_eq set_sorted_list_of_fmap)

text \<open>The transactions stored: defined by the column alone.\<close>

lemma get_local_transactions_col:
  assumes "db_inv db" and "db_abs db DB_COL_LOCAL_TXS = Some kv"
  shows "get_local_transactions E db \<noteq> None \<longleftrightarrow> local_col_ok E kv"
    and "get_local_transactions E db = Some m \<Longrightarrow>
      fmlookup m h = Option.bind (fmlookup kv (as_bytes h)) (local_tx_deserialize E)"
proof -
  have g: "get_local_transactions E db = decode_local_txs E (sorted_list_of_fmap kv) fmempty"
    using assms by (simp add: get_local_transactions_def db_iter_cf_abs)
  show "get_local_transactions E db \<noteq> None \<longleftrightarrow> local_col_ok E kv"
    unfolding g decode_local_txs_defined by (auto simp: local_col_ok_def set_sorted_list_of_fmap)
  show "fmlookup m h = Option.bind (fmlookup kv (as_bytes h)) (local_tx_deserialize E)"
    if "get_local_transactions E db = Some m"
    using decode_local_txs_lookup [OF that [unfolded g] distinct_sorted_list_of_fmap, of h]
    by (simp add: map_of_sorted_list_of_fmap split: option.splits)
qed

lemma put_local_txs_puts:
  "put_local_txs E xs b = Some b' \<Longrightarrow>
   \<exists>items. puts batch_put_cf items b = Some b' \<and>
     items = map (\<lambda>(k, tx). (DB_COL_LOCAL_TXS, as_bytes k, the (local_tx_serialize E tx))) xs \<and>
     (\<forall>k tx. (k, tx) \<in> set xs \<longrightarrow> local_tx_serialize E tx \<noteq> None)"
  by (induction E xs b rule: put_local_txs.induct) (auto simp: option_bind_Some_iff)

lemma map_of_as_bytes: "map_of (map (\<lambda>(k, v). (as_bytes k, v)) xs) (as_bytes h) = map_of xs h"
  by (induction xs) auto

lemma last_put_local:
  assumes "distinct (map fst xs)"
  shows "last_put (map (\<lambda>(k, tx). (DB_COL_LOCAL_TXS, as_bytes k, f tx)) xs) cf key =
    (if cf = DB_COL_LOCAL_TXS then map_option f (map_of (map (\<lambda>(k, tx). (as_bytes k, tx)) xs) key) else None)"
  using assms
proof (induction xs)
  case (Cons x xs)
  have "map_of xs (fst x) = None" using Cons.prems by (simp add: map_of_eq_None_iff)
  then have "map_of (map (\<lambda>(k, tx). (as_bytes k, tx)) xs) (as_bytes (fst x)) = None" by (simp add: map_of_as_bytes)
  then show ?case using Cons by (cases x) (auto simp: last_put_Cons split: option.splits)
qed simp

lemma db_get_iff: "db_inv db \<Longrightarrow> db_get_cf cf key db = Some v \<longleftrightarrow> (\<exists>kv. db_abs db cf = Some kv \<and> fmlookup kv key = v)"
  by (auto simp: db_get_cf_abs)

lemma store_local_transactions_gets:
  assumes "db_inv db" and "store_local_transactions E txs db = Some db'"
  shows "db_inv db'" and "(db_abs db' cf \<noteq> None) = (db_abs db cf \<noteq> None)"
    and "db_get_cf cf key db' =
      (if cf = DB_COL_LOCAL_TXS
       then case map_of (map (\<lambda>(k, tx). (as_bytes k, tx)) (sorted_list_of_fmap txs)) key of
           Some tx \<Rightarrow> Some (local_tx_serialize E tx) | None \<Rightarrow> db_get_cf cf key db
       else db_get_cf cf key db)"
proof -
  let ?items = "map (\<lambda>(k, tx). (DB_COL_LOCAL_TXS, as_bytes k, the (local_tx_serialize E tx))) (sorted_list_of_fmap txs)"
  obtain b where b: "put_local_txs E (sorted_list_of_fmap txs) (batch_writer db) = Some b" "db_write (batch_done b) db = Some db'"
    using assms(2) by (auto simp: store_local_transactions_def option_bind_Some_iff)
  have p: "puts batch_put_cf ?items (batch_writer db) = Some b"
    and ser: "\<forall>k tx. fmlookup txs k = Some tx \<longrightarrow> local_tx_serialize E tx \<noteq> None"
    using put_local_txs_puts [OF b(1)] by (auto simp: set_sorted_list_of_fmap)
  have "puts db_put_cf ?items db = Some db'"
    using write_batch_of_puts [OF assms(1), of ?items] p b(2) by simp
  note g = simple_db.puts_get [OF assms(1) this]
  show "db_inv db'" and "(db_abs db' cf \<noteq> None) = (db_abs db cf \<noteq> None)" using g by blast+
  have "map_of (map (\<lambda>(k, tx). (as_bytes k, tx)) (sorted_list_of_fmap txs)) key = Some tx \<Longrightarrow>
      Some (the (local_tx_serialize E tx)) = local_tx_serialize E tx" for tx
    using ser by (auto dest!: map_of_SomeD simp: set_sorted_list_of_fmap)
  then show "db_get_cf cf key db' =
      (if cf = DB_COL_LOCAL_TXS
       then case map_of (map (\<lambda>(k, tx). (as_bytes k, tx)) (sorted_list_of_fmap txs)) key of
           Some tx \<Rightarrow> Some (local_tx_serialize E tx) | None \<Rightarrow> db_get_cf cf key db
       else db_get_cf cf key db)"
    using g by (auto simp: last_put_local split: option.splits)
qed

text \<open>Transactions whose keys are hashes are read back on top of those that were there.\<close>

lemma store_local_transactions_read:
  assumes "node_codec_ok E" and "db_inv db" and "get_local_transactions E db = Some m"
    and "store_local_transactions E txs db = Some db'" and "\<forall>h tx. fmlookup txs h = Some tx \<longrightarrow> utf8_valid (as_bytes h)"
  shows "get_local_transactions E db' = Some (m ++\<^sub>f txs)"
proof -
  note st = store_local_transactions_gets [OF assms(2,4)]
  obtain kv where kv: "db_abs db DB_COL_LOCAL_TXS = Some kv"
    using assms(2,3) by (auto simp: get_local_transactions_def db_iter_cf_abs option_bind_Some_iff)
  then obtain kv' where kv': "db_abs db' DB_COL_LOCAL_TXS = Some kv'" using st(2) by fastforce
  have lk: "fmlookup kv' key = (case map_of (map (\<lambda>(k, tx). (as_bytes k, tx)) (sorted_list_of_fmap txs)) key of
      Some tx \<Rightarrow> local_tx_serialize E tx | None \<Rightarrow> fmlookup kv key)" for key
    using st(3) [of DB_COL_LOCAL_TXS key] kv kv' db_get_cf_abs [OF assms(2)] db_get_cf_abs [OF st(1)]
    by (auto split: option.splits)
  have ok: "local_col_ok E kv" using get_local_transactions_col(1) [OF assms(2) kv] assms(3) by blast
  have "local_col_ok E kv'"
    unfolding local_col_ok_def
  proof (intro allI impI)
    fix k v
    assume v: "fmlookup kv' k = Some v"
    show "from_utf8 k \<noteq> None \<and> local_tx_deserialize E v \<noteq> None"
    proof (cases "map_of (map (\<lambda>(k, tx). (as_bytes k, tx)) (sorted_list_of_fmap txs)) k")
      case None
      then show ?thesis using ok v lk [of k] by (simp add: local_col_ok_def)
    next
      case (Some tx)
      then obtain h where "k = as_bytes h" "fmlookup txs h = Some tx"
        by (auto dest!: map_of_SomeD simp: set_sorted_list_of_fmap)
      moreover have "local_tx_serialize E tx = Some v" using lk [of k] Some v by simp
      ultimately show ?thesis using assms(1,5) by (auto simp: from_utf8_as_bytes node_codec_ok_def)
    qed
  qed
  then obtain m' where m': "get_local_transactions E db' = Some m'"
    using get_local_transactions_col(1) [OF st(1) kv'] by auto
  have "fmlookup m' h = fmlookup (m ++\<^sub>f txs) h" for h
  proof -
    have "fmlookup m' h = Option.bind (fmlookup kv' (as_bytes h)) (local_tx_deserialize E)"
      by (rule get_local_transactions_col(2) [OF st(1) kv' m'])
    moreover have "fmlookup m h = Option.bind (fmlookup kv (as_bytes h)) (local_tx_deserialize E)"
      by (rule get_local_transactions_col(2) [OF assms(2) kv assms(3)])
    moreover have "\<exists>v. local_tx_serialize E tx = Some v \<and> local_tx_deserialize E v = Some tx"
      if "fmlookup txs h = Some tx" for tx
    proof -
      have "db_get_cf DB_COL_LOCAL_TXS (as_bytes h) db' = Some (local_tx_serialize E tx)"
        using st(3) that by (simp add: map_of_as_bytes map_of_sorted_list_of_fmap)
      obtain b where "put_local_txs E (sorted_list_of_fmap txs) (batch_writer db) = Some b"
        using assms(4) by (auto simp: store_local_transactions_def option_bind_Some_iff)
      from put_local_txs_puts [OF this] that obtain v where "local_tx_serialize E tx = Some v"
        by (auto simp: set_sorted_list_of_fmap)
      then show ?thesis using assms(1) by (auto simp: node_codec_ok_def)
    qed
    ultimately show ?thesis
      using lk [of "as_bytes h"] by (auto simp: map_of_as_bytes map_of_sorted_list_of_fmap split: option.splits)
  qed
  then show ?thesis using m' by (simp add: fmap_ext)
qed

lemma delete_local_txs_stands_for:
  assumes "batch_stands_for db b db1" and "delete_local_txs keys b = Some b'" and "db_abs db1 DB_COL_LOCAL_TXS = Some kv"
  shows "\<exists>db2. batch_stands_for db b' db2 \<and>
    db_abs db2 = (db_abs db1)(DB_COL_LOCAL_TXS \<mapsto> fmfilter (\<lambda>k. k \<notin> as_bytes ` set keys) kv)"
  using assms
proof (induction keys arbitrary: b db1 kv)
  case Nil
  then show ?case by (auto simp: fun_upd_idem)
next
  case (Cons key keys)
  obtain b1 where b1: "batch_delete_cf DB_COL_LOCAL_TXS (as_bytes key) b = Some b1" "delete_local_txs keys b1 = Some b'"
    using Cons.prems(2) by (auto simp: option_bind_Some_iff)
  obtain db2 where d: "db_delete_cf DB_COL_LOCAL_TXS (as_bytes key) db1 = Some db2" "batch_stands_for db b1 db2"
    using batch_delete_stands_for [OF Cons.prems(1) b1(1)] by blast
  have "db_inv db1" using Cons.prems(1) by (simp add: batch_stands_for_def)
  then have a: "db_abs db2 = (db_abs db1)(DB_COL_LOCAL_TXS \<mapsto> fmdrop (as_bytes key) kv)"
    using db_delete_cf_abs(1) [of db1 DB_COL_LOCAL_TXS "as_bytes key"] d(1) Cons.prems(3) by (auto simp: abs_delete_def)
  have "fmfilter (\<lambda>k. k \<notin> as_bytes ` set keys) (fmdrop (as_bytes key) kv) =
      fmfilter (\<lambda>k. k \<notin> as_bytes ` set (key # keys)) kv"
    by (rule fmap_ext) auto
  then show ?case using Cons.IH [OF d(2) b1(2)] a by fastforce
qed

lemma delete_local_transactions_abs:
  assumes "db_inv db" and "delete_local_transactions keys db = Some db'" and "db_abs db DB_COL_LOCAL_TXS = Some kv"
  shows "db_inv db'" and "db_abs db' = (db_abs db)(DB_COL_LOCAL_TXS \<mapsto> fmfilter (\<lambda>k. k \<notin> as_bytes ` set keys) kv)"
proof -
  obtain b where b: "delete_local_txs keys (batch_writer db) = Some b" "db_write (batch_done b) db = Some db'"
    using assms(2) by (auto simp: delete_local_transactions_def option_bind_Some_iff)
  show "db_inv db'" and "db_abs db' = (db_abs db)(DB_COL_LOCAL_TXS \<mapsto> fmfilter (\<lambda>k. k \<notin> as_bytes ` set keys) kv)"
    using delete_local_txs_stands_for [OF batch_writer_stands_for [OF assms(1)] b(1) assms(3)] b(2)
    by (auto simp: batch_stands_for_def)
qed

subsection \<open>What a restart loads\<close>

text \<open>The database has the lists of miners and users, the random numbers, and readable transactions.\<close>

definition stored_ok ::
    "compute_node_ext \<Rightarrow> SimpleDb \<Rightarrow> SocketAddr fset \<Rightarrow> SocketAddr fset \<Rightarrow> bytes \<Rightarrow> bytes \<Rightarrow> bool" where
  "stored_ok E db miners users cur prev \<longleftrightarrow>
     db_inv db \<and>
     load_addrs E REQUEST_LIST_KEY {||} db = Some (Some miners) \<and>
     load_addrs E USER_NOTIFY_LIST_KEY {||} db = Some (Some users) \<and>
     db_get_cf COMPUTE_DB_COL_INTERNAL (as_bytes POW_RANDOM_NUM_KEY) db = Some (Some cur) \<and>
     db_get_cf COMPUTE_DB_COL_INTERNAL (as_bytes POW_PREV_RANDOM_NUM_KEY) db = Some (Some prev) \<and>
     get_local_transactions E db \<noteq> None"

lemmas compute_db_keys = REQUEST_LIST_KEY_def USER_NOTIFY_LIST_KEY_def POW_RANDOM_NUM_KEY_def
  POW_PREV_RANDOM_NUM_KEY_def COMPUTE_RAFT_KEY_RUN_def

lemma compute_cols_distinct [simp]:
  "COMPUTE_DB_COL_INTERNAL \<noteq> DB_COL_LOCAL_TXS" "DB_COL_LOCAL_TXS \<noteq> COMPUTE_DB_COL_INTERNAL"
  by (simp_all add: COMPUTE_DB_COL_INTERNAL_def DB_COL_LOCAL_TXS_def)

lemma put_internal:
  assumes "db_inv db" and "db_put_cf COMPUTE_DB_COL_INTERNAL k v db = Some db'"
  shows "db_inv db'" and "get_local_transactions E db' = get_local_transactions E db"
    and "db_get_cf COMPUTE_DB_COL_INTERNAL key db' =
      (if key = k then Some (Some v) else db_get_cf COMPUTE_DB_COL_INTERNAL key db)"
proof -
  show i: "db_inv db'" by (rule db_put_cf_abs(2) [OF assms])
  have "Some (db_abs db') = abs_put COMPUTE_DB_COL_INTERNAL k v (db_abs db)"
    using db_put_cf_abs(1) [OF assms(1), of COMPUTE_DB_COL_INTERNAL k v] assms(2) by simp
  then obtain kv where "db_abs db' = (db_abs db)(COMPUTE_DB_COL_INTERNAL \<mapsto> kv)"
    by (cases "db_abs db COMPUTE_DB_COL_INTERNAL") (auto simp: abs_put_def)
  then show "get_local_transactions E db' = get_local_transactions E db"
    using assms(1) i by (simp add: get_local_transactions_def db_iter_cf_abs)
  show "db_get_cf COMPUTE_DB_COL_INTERNAL key db' =
      (if key = k then Some (Some v) else db_get_cf COMPUTE_DB_COL_INTERNAL key db)"
    using simple_db.get_put [OF assms] by simp
qed

lemma stored_put:
  assumes "stored_ok E db miners users cur prev"
  shows "addrs_serialize E miners' = Some ser \<Longrightarrow> node_codec_ok E \<Longrightarrow>
      db_put_cf COMPUTE_DB_COL_INTERNAL (as_bytes REQUEST_LIST_KEY) ser db = Some db' \<Longrightarrow> stored_ok E db' miners' users cur prev"
    and "addrs_serialize E users' = Some ser \<Longrightarrow> node_codec_ok E \<Longrightarrow>
      db_put_cf COMPUTE_DB_COL_INTERNAL (as_bytes USER_NOTIFY_LIST_KEY) ser db = Some db' \<Longrightarrow> stored_ok E db' miners users' cur prev"
    and "db_put_cf COMPUTE_DB_COL_INTERNAL (as_bytes POW_RANDOM_NUM_KEY) cur' db = Some db' \<Longrightarrow> stored_ok E db' miners users cur' prev"
    and "db_put_cf COMPUTE_DB_COL_INTERNAL (as_bytes POW_PREV_RANDOM_NUM_KEY) prev' db = Some db' \<Longrightarrow> stored_ok E db' miners users cur prev'"
  using assms put_internal [of db _ _ db']
  by (auto simp: stored_ok_def load_addrs_def node_codec_ok_def compute_db_keys)

lemma stored_store:
  assumes "stored_ok E db miners users cur prev" and "node_codec_ok E" and "store_local_transactions E txs db = Some db'"
    and "\<forall>h tx. fmlookup txs h = Some tx \<longrightarrow> utf8_valid (as_bytes h)"
  shows "stored_ok E db' miners users cur prev"
proof -
  have i: "db_inv db" using assms(1) by (simp add: stored_ok_def)
  obtain m where "get_local_transactions E db = Some m" using assms(1) by (auto simp: stored_ok_def)
  from store_local_transactions_read [OF assms(2) i this assms(3,4)]
    store_local_transactions_gets [OF i assms(3)] assms(1) show ?thesis
    by (simp add: stored_ok_def load_addrs_def)
qed

lemma stored_delete:
  assumes "stored_ok E db miners users cur prev" and "delete_local_transactions keys db = Some db'"
  shows "stored_ok E db' miners users cur prev"
proof -
  have i: "db_inv db" using assms(1) by (simp add: stored_ok_def)
  obtain m kv where m: "get_local_transactions E db = Some m" and kv: "db_abs db DB_COL_LOCAL_TXS = Some kv"
    using assms(1) i by (auto simp: stored_ok_def get_local_transactions_def db_iter_cf_abs option_bind_Some_iff)
  note d = delete_local_transactions_abs [OF i assms(2) kv]
  have "local_col_ok E kv" using get_local_transactions_col(1) [OF i kv] m by blast
  then have "local_col_ok E (fmfilter (\<lambda>k. k \<notin> as_bytes ` set keys) kv)" by (auto simp: local_col_ok_def split: if_splits)
  then have "get_local_transactions E db' \<noteq> None"
    using get_local_transactions_col(1) [OF d(1), of "fmfilter (\<lambda>k. k \<notin> as_bytes ` set keys) kv"] d(2) by simp
  moreover have "db_get_cf COMPUTE_DB_COL_INTERNAL key db' = db_get_cf COMPUTE_DB_COL_INTERNAL key db" for key
    using d i by (simp add: db_get_cf_abs)
  ultimately show ?thesis using assms(1) d(1) by (simp add: stored_ok_def load_addrs_def)
qed

section \<open>The invariant\<close>

definition node_inv :: "compute_node_ext \<Rightarrow> nat \<Rightarrow> ComputeNode \<Rightarrow> bool" where
  "node_inv E B s \<longleftrightarrow>
     raft_ok (craft E) B (cn_raft s) \<and> druid_pool_ok (druid_pool s) \<and>
     stored_ok E (cn_db s) (request_list s) (user_notification_list s) (current_random_num s) (previous_random_num s)"

lemma node_inv_mono: "node_inv E B s \<Longrightarrow> B \<le> C \<Longrightarrow> node_inv E C s"
  using raft_ok_mono by (auto simp: node_inv_def)

text \<open>Sending changes the network node only.\<close>

definition same_but_net :: "ComputeNode \<Rightarrow> ComputeNode \<Rightarrow> bool" where
  "same_but_net s t \<longleftrightarrow> (\<exists>n. t = s\<lparr>cn_node := n\<rparr>)"

lemma same_but_net_refl [simp]: "same_but_net s s"
  unfolding same_but_net_def by (rule exI [of _ "cn_node s"]) simp

lemma same_but_net_trans: "same_but_net s t \<Longrightarrow> same_but_net t u \<Longrightarrow> same_but_net s u"
  by (auto simp: same_but_net_def)

lemma node_inv_net: "same_but_net s t \<Longrightarrow> node_inv E B t = node_inv E B s"
  by (auto simp: same_but_net_def node_inv_def)

lemma sends_net:
  "compute_send T peer msg s = (t, r) \<Longrightarrow> same_but_net s t"
  "compute_send_to_all T peers msg s = (t, l) \<Longrightarrow> same_but_net s t"
  by (auto simp: compute_send_def compute_send_to_all_def same_but_net_def split: prod.splits sum.splits)

lemma sends_net_fst [simp]:
  "same_but_net s (fst (compute_send T peer msg s))" "same_but_net s (fst (compute_send_to_all T peers msg s))"
  by (metis prod.collapse sends_net(1)) (metis prod.collapse sends_net(2))

lemma flush_unauthorized_loop_net: "flush_unauthorized_loop T peers s = (t, l) \<Longrightarrow> same_but_net s t"
proof (induction T peers s arbitrary: t l rule: flush_unauthorized_loop.induct)
  case (2 T peer peers s)
  show ?case
  proof (cases "check_miner_whitelisted peer (get_mining_api_key_entry (cn_raft s) peer) s")
    case True
    then show ?thesis using 2 by simp
  next
    case False
    obtain t' l' where r: "flush_unauthorized_loop T peers (fst (compute_send T peer ToMinerNotAuthorized s)) = (t', l')"
      by fastforce
    then have "t' = t" using "2.prems" False by (simp add: Let_def)
    then show ?thesis using "2.IH"(1) [OF False refl r] same_but_net_trans [OF sends_net_fst(1)] by blast
  qed
qed simp

lemma same_but_net_upd: "same_but_net s t \<Longrightarrow> same_but_net s (t\<lparr>cn_node := n\<rparr>)"
  by (auto simp: same_but_net_def)

lemma flush_unauthorized_net: "flush_unauthorized_miners E T s = (t, l) \<Longrightarrow> same_but_net s t"
  by (auto simp: flush_unauthorized_miners_def split: if_splits prod.splits
      intro: same_but_net_upd flush_unauthorized_loop_net)

text \<open>The external code is well-behaved.\<close>

definition ext_ok :: "compute_node_ext \<Rightarrow> bool" where
  "ext_ok E \<longleftrightarrow> node_codec_ok E \<and> codec_inverts (codec (craft E))"

lemma node_inv_raft: "node_inv E B s \<Longrightarrow> raft_ok (craft E) C r \<Longrightarrow> node_inv E C (s\<lparr>cn_raft := r\<rparr>)"
  by (simp add: node_inv_def)

lemma node_inv_quiet:
  assumes "node_inv E B s" and "ext_ok E"
  shows "node_inv E B (s\<lparr>cn_raft := re_propose_uncommitted_current_b_num (cn_raft s)\<rparr>)"
    and "node_inv E B (s\<lparr>cn_raft := append_to_tx_pool (cn_raft s) txs\<rparr>)"
    and "node_inv E B (s\<lparr>cn_raft := flush_stale_miners (cn_raft s) miners\<rparr>)"
    and "node_inv E B (s\<lparr>cn_raft := received_message (cn_raft s) msg\<rparr>)"
    and "node_inv E B (s\<lparr>cn_raft := clear_block_pipeline_proposed_keys (cn_raft s)\<rparr>)"
  using assms raft_ok_quiet by (auto simp: node_inv_def ext_ok_def)

text \<open>Fields the invariant does not read.\<close>

lemma node_inv_fields [simp]:
  "node_inv E B (s\<lparr>miners_changed := b\<rparr>) = node_inv E B s"
  "node_inv E B (s\<lparr>miner_removal_list := l\<rparr>) = node_inv E B s"
  "node_inv E B (s\<lparr>request_list_first_flood := f\<rparr>) = node_inv E B s"
  "node_inv E B (s\<lparr>shared_config := c\<rparr>) = node_inv E B s"
  "node_inv E B (s\<lparr>received_shared_config := rc\<rparr>) = node_inv E B s"
  "node_inv E B (s\<lparr>received_runtime_data := rd\<rparr>) = node_inv E B s"
  "node_inv E B (s\<lparr>b_num_to_pause := bn\<rparr>) = node_inv E B s"
  "node_inv E B (s\<lparr>pause_node := p\<rparr>) = node_inv E B s"
  "node_inv E B (s\<lparr>disable_trigger_messages := p\<rparr>) = node_inv E B s"
  "node_inv E B (s\<lparr>current_mined_block := mb\<rparr>) = node_inv E B s"
  "node_inv E B (s\<lparr>current_trigger_messages_count := n\<rparr>) = node_inv E B s"
  "node_inv E B (s\<lparr>coordinated_shutdown := cs\<rparr>) = node_inv E B s"
  "node_inv E B (s\<lparr>compute_shutdown_group := g\<rparr>) = node_inv E B s"
  "node_inv E B (s\<lparr>fetched_utxo_set := fu\<rparr>) = node_inv E B s"
  "node_inv E B (s\<lparr>cn_node := nd\<rparr>) = node_inv E B s"
  by (simp_all add: node_inv_def)

lemma propose_runtime_inv:
  assumes "node_inv E B s" and "ext_ok E" and "Suc B < 2 ^ 64" and "node_propose_runtime_item E item s = Some t"
  shows "node_inv E (Suc B) t"
  using assms raft_ok_proposals(7) [of "craft E" B "cn_raft s"]
  by (auto simp: node_propose_runtime_item_def option_bind_Some_iff ext_ok_def node_inv_def)

lemma save_inv:
  assumes "node_inv E B s" and "ext_ok E"
  shows "save_request_list E (s\<lparr>request_list := l\<rparr>) = Some t \<Longrightarrow> node_inv E B t"
    and "save_user_notification_list E (s\<lparr>user_notification_list := l\<rparr>) = Some t \<Longrightarrow> node_inv E B t"
  using assms
  by (auto simp: save_request_list_def save_user_notification_list_def option_bind_Some_iff node_inv_def ext_ok_def
      elim: stored_put(1,2))

subsection \<open>Miners\<close>

lemma receive_partition_request_inv:
  assumes "node_inv E B s" and "ext_ok E" and "B + 2 < 2 ^ 64" and "receive_partition_request E T peer key s = Some (t, r)"
  shows "node_inv E (B + 2) t"
proof (cases "get_compute_whitelisting_active (cn_raft s) \<and> \<not> check_miner_whitelisted peer key (s\<lparr>miners_changed := True\<rparr>)")
  case True
  then have "t = (fst (compute_send T peer ToMinerNotAuthorized (s\<lparr>miners_changed := True\<rparr>)))\<lparr>cn_node :=
      disconnect_all (Some [peer]) (cn_node (fst (compute_send T peer ToMinerNotAuthorized (s\<lparr>miners_changed := True\<rparr>))))\<rparr>"
    using assms(4) by (simp add: receive_partition_request_def Let_def)
  moreover have "node_inv E B (fst (compute_send T peer ToMinerNotAuthorized (s\<lparr>miners_changed := True\<rparr>)))"
    using assms(1) node_inv_net [OF sends_net_fst(1)] by simp
  ultimately have "node_inv E B t" by simp
  then show ?thesis by (rule node_inv_mono) simp
next
  case False
  let ?s = "s\<lparr>miners_changed := True\<rparr>"
  obtain s1 s2 where 1: "(case key of Some k \<Rightarrow> node_propose_runtime_item E (AddMiningApiKeys [(peer, k)]) ?s | None \<Rightarrow> Some ?s) = Some s1"
    and 2: "save_request_list E (s1\<lparr>request_list := finsert peer (request_list s1)\<rparr>) = Some s2"
    and t: "t = s2 \<or> (\<exists>raft. propose_initial_item (craft E) (cn_raft s2) = Some raft \<and>
      t = s2\<lparr>request_list_first_flood := None, cn_raft := raft\<rparr>)"
    using assms(4) False by (auto simp: receive_partition_request_def Let_def option_bind_Some_iff split: if_splits)
  have "node_inv E (Suc B) s1"
    using 1 assms propose_runtime_inv [of E B ?s] node_inv_mono by (auto split: option.splits)
  then have i2: "node_inv E (Suc B) s2" using save_inv(1) [OF _ assms(2) 2] by blast
  then have "raft_ok (craft E) (Suc B) (cn_raft s2)" by (simp add: node_inv_def)
  from t raft_ok_proposals(1) [OF this, of] assms(2,3) i2 show ?thesis
    by (auto simp: ext_ok_def node_inv_def intro: raft_ok_mono)
qed

lemma receive_partition_entry_inv:
  assumes "node_inv E B s" and "ext_ok E" and "Suc B < 2 ^ 64" and "receive_partition_entry E peer info entry s = Some (t, r)"
  shows "node_inv E (Suc B) t"
proof -
  have "t = s \<or> (\<exists>item raft ok. propose_mining_pipeline_item (craft E) (cn_raft s) item = Some (raft, ok) \<and> t = s\<lparr>cn_raft := raft\<rparr>)"
    using assms(4)
    by (auto simp: receive_partition_entry_def Let_def option_bind_Some_iff split: if_splits MiningPipelineStatus.splits)
  then show ?thesis
    using assms(1-3) raft_ok_proposals(3) [of "craft E" B "cn_raft s"] node_inv_mono
    by (auto simp: ext_ok_def node_inv_def)
qed

lemma node_flush_stale_miners_inv:
  assumes "node_inv E B s" and "ext_ok E" and "node_flush_stale_miners E stale s = Some t"
  shows "node_inv E B t"
proof -
  obtain s1 where s1: "save_request_list E (s\<lparr>request_list := ffilter (\<lambda>a. a \<notin> set stale) (request_list s)\<rparr>) = Some s1"
    and t: "t = s1\<lparr>cn_raft := flush_stale_miners (cn_raft s1) stale, miners_changed := True\<rparr>"
    using assms(3) by (auto simp: node_flush_stale_miners_def option_bind_Some_iff)
  show ?thesis using save_inv(1) [OF assms(1,2) s1] node_inv_quiet(3) assms(2) t by simp
qed

text \<open>
  The block sent to the miners: the states between. Only the miners that are taken out change more
  than the network node.
\<close>

lemma flood_rand_cases:
  assumes "flood_rand_and_block_to_partition E T s = Some t"
  obtains "t = s"
  | s1 where "same_but_net s s1" "t = s1\<lparr>miners_changed := False\<rparr>"
  | s1 s2 s3 unsent where "same_but_net s s1" "node_flush_stale_miners E unsent s1 = Some s2"
      "node_propose_runtime_item E (RemoveMiningApiKeys unsent) (s2\<lparr>miner_removal_list := {||}\<rparr>) = Some s3"
      "t = s3\<lparr>miners_changed := False\<rparr>"
proof (cases "mining_pipeline_status (block_pipeline (consensused (cn_raft s))) = Halted")
  case True
  then show thesis using that(1) assms by (simp add: flood_rand_and_block_to_partition_def)
next
  case False
  obtain blk where blk: "current_block (block_pipeline (consensused (cn_raft s))) = Some blk"
  proof (cases "current_block (block_pipeline (consensused (cn_raft s)))")
    case None
    then have "flood_rand_and_block_to_partition E T s = None"
      using False by (simp add: flood_rand_and_block_to_partition_def Let_def split_beta)
    then show thesis using assms by simp
  qed
  define rn where "rn = (if mining_pipeline_status (block_pipeline (consensused (cn_raft s))) = ParticipantOnlyIntake
    then (previous_random_num s, True) else (current_random_num s, False))"
  let ?p = "raft_get_mining_participants (cn_raft s)"
  let ?msg = "\<lambda>h. ToMinerBlock \<lparr>participant_only = snd rn, pow_b_num = b_num (header blk)\<rparr> (fst rn)
    (last_mining_transaction_hashes (consensused (cn_raft s))) (current_reward (block_pipeline (consensused (cn_raft s)))) h
    (b_num (header blk))"
  obtain s1 l1 where 1: "flush_unauthorized_miners E T s = (s1, l1)" by fastforce
  obtain s2 l2 where 2: "compute_send_to_all T (sorted_list_of_fset (miner_removal_list s)) ToMinerRemovedAck s1 = (s2, l2)" by fastforce
  obtain s3 l3 where 3: "compute_send_to_all T (filter (\<lambda>p. p |\<notin>| miner_removal_list s) (unsorted ?p)) (?msg (Some (header blk))) s2 = (s3, l3)"
    by fastforce
  obtain s4 l4 where 4: "compute_send_to_all T (sorted_list_of_fset (request_list s |-| lookup ?p)) (?msg None) s3 = (s4, l4)"
    by fastforce
  have n: "same_but_net s s4"
    using flush_unauthorized_net [OF 1] sends_net(2) [OF 2] sends_net(2) [OF 3] sends_net(2) [OF 4] same_but_net_trans by blast
  define unsent where "unsent = (case l1 of None \<Rightarrow> [] | Some l \<Rightarrow> l) @ l3 @ l4"
  have f: "Option.bind (if unsent \<noteq> [] \<or> miner_removal_list s \<noteq> {||}
      then let unsent = unsent @ sorted_list_of_fset (miner_removal_list s) in
        Option.bind (node_flush_stale_miners E unsent s4) (\<lambda>self.
          node_propose_runtime_item E (RemoveMiningApiKeys unsent) (self\<lparr>miner_removal_list := {||}\<rparr>))
      else Some s4) (\<lambda>self. Some (self\<lparr>miners_changed := False\<rparr>)) = Some t"
    using assms False blk 1 2 3 4
    by (cases "mining_pipeline_status (block_pipeline (consensused (cn_raft s))) = ParticipantOnlyIntake")
      (auto simp: flood_rand_and_block_to_partition_def rn_def unsent_def Let_def split: if_splits)
  show thesis
  proof (cases "unsent \<noteq> [] \<or> miner_removal_list s \<noteq> {||}")
    case True
    then show thesis using f that(3) [OF n] by (auto simp: Let_def option_bind_Some_iff)
  next
    case False
    then show thesis using f that(2) [OF n] by auto
  qed
qed

lemma flood_rand_inv:
  assumes "node_inv E B s" and "ext_ok E" and "Suc B < 2 ^ 64" and "flood_rand_and_block_to_partition E T s = Some t"
  shows "node_inv E (Suc B) t"
  using assms(4)
proof (cases rule: flood_rand_cases)
  case (3 s1 s2 s3 unsent)
  have "node_inv E B s2" using node_flush_stale_miners_inv [OF _ assms(2) 3(2)] assms(1) node_inv_net [OF 3(1)] by blast
  then show ?thesis using propose_runtime_inv [OF _ assms(2,3) 3(3)] 3(4) by simp
qed (use assms(1) node_inv_net in \<open>auto intro: node_inv_mono\<close>)

lemma flood_block_to_users_inv:
  assumes "node_inv E B s" and "ext_ok E" and "flood_block_to_users E T s = Some t"
  shows "node_inv E B t"
proof -
  obtain blk where blk: "current_block (block_pipeline (consensused (cn_raft s))) = Some blk"
    using assms(3) by (auto simp: flood_block_to_users_def option_bind_Some_iff)
  obtain s1 l where 1: "compute_send_to_all T (sorted_list_of_fset (user_notification_list s)) (ToUserBlockMining blk) s = (s1, l)"
    by fastforce
  have t: "t = s1 \<or> save_user_notification_list E
      (s1\<lparr>user_notification_list := ffilter (\<lambda>a. a \<notin> set l) (user_notification_list s1)\<rparr>) = Some t"
    using assms(3) blk 1 by (auto simp: flood_block_to_users_def split: if_splits)
  have "node_inv E B s1" using assms(1) node_inv_net [OF sends_net(2) [OF 1]] by blast
  then show ?thesis using t save_inv(2) [OF _ assms(2)] by blast
qed

subsection \<open>The mined block\<close>

lemma compute_receive_pow_inv:
  assumes "node_inv E B s" and "ext_ok E" and "Suc B < 2 ^ 64" and "compute_receive_pow E addr bn nonce cb s = Some (t, r)"
  shows "node_inv E (Suc B) t"
proof -
  have "t = s \<or> (\<exists>item raft ok. propose_mining_pipeline_item (craft E) (cn_raft s) item = Some (raft, ok) \<and> t = s\<lparr>cn_raft := raft\<rparr>)"
    using assms(4)
    by (auto simp: compute_receive_pow_def Let_def option_bind_Some_iff split: if_splits option.splits prod.splits)
  then show ?thesis
    using assms(1-3) raft_ok_proposals(3) [of "craft E" B "cn_raft s"] node_inv_mono
    by (auto simp: ext_ok_def node_inv_def)
qed

lemma mining_block_mined_inv:
  assumes "node_inv E B s" and "ext_ok E" and "mining_block_mined s = Some t"
  shows "node_inv E B t"
proof -
  have "\<exists>mb. t = s\<lparr>cn_raft := fst (raft_take_mining_block (cn_raft s)), current_mined_block := mb\<rparr>"
    using assms(3) by (auto simp: mining_block_mined_def Let_def option_bind_Some_iff split_beta)
  then show ?thesis using assms(1,2) raft_ok_quiet(5) by (auto simp: ext_ok_def node_inv_def)
qed

lemma reset_mining_block_process_inv:
  assumes "node_inv E B s" and "ext_ok E" and "reset_mining_block_process T s = Some t"
  shows "node_inv E B t"
proof -
  let ?prev = "if current_random_num s \<noteq> [] then current_random_num s else tick_rand T"
  obtain db1 db2 where 1: "db_put_cf COMPUTE_DB_COL_INTERNAL (as_bytes POW_PREV_RANDOM_NUM_KEY) ?prev (cn_db s) = Some db1"
    and 2: "db_put_cf COMPUTE_DB_COL_INTERNAL (as_bytes POW_RANDOM_NUM_KEY) (tick_next_rand T) db1 = Some db2"
    and t: "\<exists>p. t = s\<lparr>previous_random_num := ?prev, current_random_num := tick_next_rand T, cn_db := db2,
      current_mined_block := None, cn_raft := clear_block_pipeline_proposed_keys (cn_raft s), pause_node := p\<rparr>"
  proof -
    assume *: "\<And>db1 db2. db_put_cf COMPUTE_DB_COL_INTERNAL (as_bytes POW_PREV_RANDOM_NUM_KEY) ?prev (cn_db s) = Some db1 \<Longrightarrow>
      db_put_cf COMPUTE_DB_COL_INTERNAL (as_bytes POW_RANDOM_NUM_KEY) (tick_next_rand T) db1 = Some db2 \<Longrightarrow>
      \<exists>p. t = s\<lparr>previous_random_num := ?prev, current_random_num := tick_next_rand T, cn_db := db2,
      current_mined_block := None, cn_raft := clear_block_pipeline_proposed_keys (cn_raft s), pause_node := p\<rparr> \<Longrightarrow> thesis"
    obtain db1 db2 where 1: "db_put_cf COMPUTE_DB_COL_INTERNAL (as_bytes POW_PREV_RANDOM_NUM_KEY) ?prev (cn_db s) = Some db1"
      and 2: "db_put_cf COMPUTE_DB_COL_INTERNAL (as_bytes POW_RANDOM_NUM_KEY) (tick_next_rand T) db1 = Some db2"
      using assms(3) by (auto simp: reset_mining_block_process_def Let_def option_bind_Some_iff)
    let ?u = "s\<lparr>previous_random_num := ?prev, current_random_num := tick_next_rand T, cn_db := db2,
      current_mined_block := None, cn_raft := clear_block_pipeline_proposed_keys (cn_raft s)\<rparr>"
    have "t = ?u\<lparr>pause_node := (should_pause ?u \<or> pause_node ?u)\<rparr>"
      using assms(3) 1 2 by (auto simp: reset_mining_block_process_def Let_def)
    then show thesis using * [OF 1 2] by auto
  qed
  have s: "stored_ok E (cn_db s) (request_list s) (user_notification_list s) (current_random_num s) (previous_random_num s)"
    using assms(1) by (simp add: node_inv_def)
  from stored_put(3) [OF stored_put(4) [OF s 1] 2] t assms(1,2) raft_ok_quiet(6) show ?thesis
    by (auto simp: node_inv_def ext_ok_def)
qed

lemma receive_block_stored_inv:
  assumes "node_inv E B s" and "ext_ok E" and "Suc B < 2 ^ 64" and "receive_block_stored E peer info s = Some (t, r)"
  shows "node_inv E (Suc B) t"
  using assms raft_ok_proposals(2) [of "craft E" B "cn_raft s"] raft_ok_quiet(1) node_inv_mono
  by (auto simp: receive_block_stored_def option_bind_Some_iff ext_ok_def node_inv_def split: if_splits)

lemma resend_trigger_inv:
  assumes "node_inv E B s" and "ext_ok E" and "B + 2 < 2 ^ 64" and "compute_resend_trigger_message E T s = Some t"
  shows "node_inv E (B + 2) t"
proof (cases "mining_pipeline_status (block_pipeline (consensused (cn_raft s)))")
  case Halted
  then have "t = fst (send_block_to_storage T s)" using assms(4) by (simp add: compute_resend_trigger_message_def)
  then have "node_inv E B t" using assms(1) node_inv_net [OF sends_net_fst(1)] by (simp add: send_block_to_storage_def)
  then show ?thesis by (rule node_inv_mono) simp
next
  case ParticipantOnlyIntake
  then have "flood_rand_and_block_to_partition E T s = Some t" using assms(4) by (simp add: compute_resend_trigger_message_def)
  then have "node_inv E (Suc B) t" using flood_rand_inv [OF assms(1,2)] assms(3) by simp
  then show ?thesis by (rule node_inv_mono) simp
next
  case AllItemsIntake
  then obtain s1 where 1: "flood_rand_and_block_to_partition E T s = Some s1"
    using assms(4) by (auto simp: compute_resend_trigger_message_def option_bind_Some_iff)
  define c where "c = (if length (unconnected_peers (unsorted (raft_get_mining_participants (cn_raft s1))) (cn_node s1)) =
      length (unsorted (raft_get_mining_participants (cn_raft s1)))
    then s1\<lparr>current_trigger_messages_count := current_trigger_messages_count s1 + 1\<rparr> else s1)"
  have t: "t = s1 \<or> t = c \<or> (\<exists>raft ok. propose_mining_pipeline_item (craft E) (cn_raft c) ResetPipeline = Some (raft, ok) \<and>
      t = c\<lparr>current_trigger_messages_count := 0, cn_raft := raft\<rparr>)"
    using AllItemsIntake assms(4) 1
    by (simp add: compute_resend_trigger_message_def Let_def c_def [symmetric] option_bind_Some_iff split: if_splits) blast+
  have "node_inv E (Suc B) s1" using flood_rand_inv [OF assms(1,2) _ 1] assms(3) by simp
  then have i: "node_inv E (Suc B) s1" "node_inv E (Suc B) c" by (simp_all add: c_def)
  then have "raft_ok (craft E) (Suc B) (cn_raft c)" by (simp add: node_inv_def)
  then have "node_inv E (B + 2) (c\<lparr>current_trigger_messages_count := 0, cn_raft := raft\<rparr>)"
    if "propose_mining_pipeline_item (craft E) (cn_raft c) ResetPipeline = Some (raft, ok)" for raft ok
    using raft_ok_proposals(3) [OF _ _ _ that] assms(2,3) i(2) by (simp add: node_inv_def ext_ok_def)
  then show ?thesis using t i node_inv_mono [of E "Suc B" _ "B + 2"] by auto
qed

subsection \<open>Pause, shared configuration\<close>

lemma apply_shared_config_inv:
  assumes "node_inv E B s" and "ext_ok E" and "Suc B < 2 ^ 64" and "apply_shared_config E T config s = Some t"
  shows "node_inv E (Suc B) t"
proof -
  define raft where "raft = update_compute_miner_whitelist_addresses
    (update_compute_miner_whitelist_api_keys
      (update_compute_miner_whitelist_active
        (raft_update_partition_full_size
          (update_mining_event_timeout_duration (cn_raft s) (shared_mining_event_timeout config))
          (shared_partition_full_size config))
        (whitelist_active (shared_miner_whitelist config)))
      (miner_api_keys (shared_miner_whitelist config)))
    (miner_addresses (shared_miner_whitelist config))"
  obtain s1 l s2 where 1: "flush_unauthorized_miners E T (s\<lparr>cn_raft := raft\<rparr>) = (s1, l)"
    and 2: "(case l of Some l \<Rightarrow> node_propose_runtime_item E (RemoveMiningApiKeys l) s1 | None \<Rightarrow> Some s1) = Some s2"
    and t: "t = s2\<lparr>shared_config := config, received_shared_config := None\<rparr>"
    using assms(4) by (auto simp: apply_shared_config_def Let_def raft_def option_bind_Some_iff split: prod.splits)
  have "raft_ok (craft E) B raft"
    using assms(1,2) unfolding raft_def node_inv_def ext_ok_def by (intro raft_ok_quiet) blast+
  then have "node_inv E B s1" using node_inv_net [OF flush_unauthorized_net [OF 1]] node_inv_raft [OF assms(1)] by blast
  then show ?thesis
    using 2 t propose_runtime_inv [OF _ assms(2,3)] node_inv_mono by (auto split: option.splits)
qed

lemma coordinated_inv:
  assumes "node_inv E B s" and "ext_ok E" and "Suc B < 2 ^ 64"
  shows "handle_coordinated_pause E T peer bn s = Some (t, r) \<Longrightarrow> node_inv E (Suc B) t"
    and "handle_coordinated_resume E T peer s = Some (t, r) \<Longrightarrow> node_inv E (Suc B) t"
    and "handle_shared_config E T peer config s = Some (t, r) \<Longrightarrow> node_inv E (Suc B) t"
    and "handle_coordinated_cmd E T cmd s = Some (t, r) \<Longrightarrow> node_inv E (Suc B) t"
proof -
  have r: "raft_ok (craft E) B (cn_raft s)" and c: "codec_inverts (codec (craft E))"
    using assms(1,2) by (auto simp: node_inv_def ext_ok_def)
  have sent: "node_inv E (Suc B) (fst (compute_send_to_all T l m (s\<lparr>cn_raft := raft\<rparr>)))" "node_inv E (Suc B) (s\<lparr>cn_raft := raft\<rparr>)"
    if "raft_ok (craft E) (Suc B) raft" for raft l m
    using node_inv_net [OF sends_net_fst(2)] node_inv_raft [OF assms(1) that] by auto
  show "node_inv E (Suc B) t" if "handle_coordinated_pause E T peer bn s = Some (t, r)"
    using that raft_ok_proposals(8) [OF r assms(3) c] sent
    by (auto simp: handle_coordinated_pause_def Let_def option_bind_Some_iff initiate_pause_nodes_def split: if_splits)
  show "node_inv E (Suc B) t" if "handle_coordinated_resume E T peer s = Some (t, r)"
    using that raft_ok_proposals(9) [OF r assms(3) c] sent
    by (auto simp: handle_coordinated_resume_def Let_def option_bind_Some_iff initiate_resume_nodes_def split: if_splits)
  show "node_inv E (Suc B) t" if "handle_shared_config E T peer config s = Some (t, r)"
    using that raft_ok_proposals(10) [OF r assms(3) c] sent
    by (auto simp: handle_shared_config_def Let_def option_bind_Some_iff initiate_send_shared_config_def split: if_splits)
  show "node_inv E (Suc B) t" if "handle_coordinated_cmd E T cmd s = Some (t, r)"
    using that assms(1) apply_shared_config_inv [OF _ assms(2,3), of "s\<lparr>received_shared_config := None\<rparr>"]
    by (auto simp: handle_coordinated_cmd_def option_bind_Some_iff split: CoordinatedCommand.splits option.splits
        intro: node_inv_mono)
qed

subsection \<open>Transactions\<close>

lemma raft_ok_druid_fold:
  assumes "raft_ok E B r" and "codec_inverts (codec E)"
  shows "raft_ok E B (fold (\<lambda>(valid, ready) raft. if valid then append_to_tx_druid_pool raft ready else raft) xs r)"
  using assms
proof (induction xs arbitrary: r)
  case (Cons x xs)
  then show ?case using raft_ok_quiet(3) by (cases x) auto
qed simp

text \<open>The transactions of a batch that are valid, by hash: those without and those with a DRUID.\<close>

definition txs_by_hash :: "compute_node_ext \<Rightarrow> bool \<Rightarrow> Transaction list \<Rightarrow> TxMap" where
  "txs_by_hash E dde txs =
     fmextend (filter (\<lambda>p. (druid_info (snd p) \<noteq> None) = dde) (map (\<lambda>tx. (construct_tx_hash E tx, tx)) txs)) fmempty"

lemma fmextend_subset: "fmlookup (fmextend xs m) k = Some v \<Longrightarrow> (k, v) \<in> set xs \<or> fmlookup m k = Some v"
proof (induction xs arbitrary: m)
  case (Cons x xs)
  obtain a b where x: "x = (a, b)" by (cases x)
  then have "fmlookup (fmextend xs (fmupd a b m)) k = Some v" using Cons.prems by (simp add: fmextend_def)
  then show ?case using Cons.IH [of "fmupd a b m"] x by (auto split: if_splits)
qed (simp add: fmextend_def)

lemma txs_by_hash_lookup:
  assumes "fmlookup (txs_by_hash E dde txs) h = Some tx"
  shows "tx \<in> set txs" and "h = construct_tx_hash E tx" and "(druid_info tx \<noteq> None) = dde"
  using fmextend_subset [OF assms [unfolded txs_by_hash_def]] by auto

lemma receive_transactions_cases:
  assumes "receive_transactions E txs s = Some (t, r)"
  obtains (full) "\<not> tx_pool_can_accept (cn_raft s) (length txs)" "t = s"
      "r = respond False ''Transaction pool for this compute node is full''"
  | (none) "tx_pool_can_accept (cn_raft s) (length txs)" "filter_valid_txs E s txs = Some []" "t = s"
      "r = respond False ''No valid transactions provided''"
  | (some) valid db pool ready where "tx_pool_can_accept (cn_raft s) (length txs)"
      "filter_valid_txs E s txs = Some valid" "valid \<noteq> []"
      "store_local_transactions E (txs_by_hash E False valid) (cn_db s) = Some db"
      "validate_dde_loop E (sorted_list_of_fmap (txs_by_hash E True valid)) (druid_pool s) [] = (pool, ready)"
      "t = s\<lparr>cn_db := db, druid_pool := pool,
        cn_raft := fold (\<lambda>(valid, ready) raft. if valid then append_to_tx_druid_pool raft ready else raft) ready
          (append_to_tx_pool (cn_raft s) (txs_by_hash E False valid))\<rparr>"
      "r = respond True
        (if fmlen (txs_by_hash E False valid) + fmlen (txs_by_hash E True valid) < length txs \<or>
            (\<exists>x \<in> set ready. \<not> fst x)
         then ''Some transactions invalid. Adding valid transactions only'' else ''Transactions added to tx pool'')"
proof (cases "tx_pool_can_accept (cn_raft s) (length txs)")
  case False
  then show thesis using that(1) assms by (simp add: receive_transactions_def)
next
  case True
  obtain valid where v: "filter_valid_txs E s txs = Some valid"
    using assms True by (auto simp: receive_transactions_def option_bind_Some_iff)
  have e: "fmlen (txs_by_hash E False valid) + fmlen (txs_by_hash E True valid) = 0 \<longleftrightarrow> valid = []"
  proof
    assume 0: "fmlen (txs_by_hash E False valid) + fmlen (txs_by_hash E True valid) = 0"
    have d: "fmdom (txs_by_hash E b valid) = {||}" for b using 0 by (cases b) (simp_all add: fmlen_def)
    show "valid = []"
    proof (cases valid)
      case (Cons tx rest)
      then have "construct_tx_hash E tx |\<in>| fmdom (txs_by_hash E (druid_info tx \<noteq> None) valid)"
        by (simp add: txs_by_hash_def fmdom_fmextend)
      then show ?thesis by (simp only: d) simp
    qed simp
  qed (simp add: txs_by_hash_def fmextend_def fmlen_def)
  show thesis
  proof (cases "valid = []")
    case True
    then show thesis
      using that(2) assms v e \<open>tx_pool_can_accept (cn_raft s) (length txs)\<close>
      by (simp add: receive_transactions_def Let_def txs_by_hash_def fmextend_def fmlen_def)
  next
    case False
    obtain db where db: "store_local_transactions E (txs_by_hash E False valid) (cn_db s) = Some db"
      using assms v True False e by (auto simp: receive_transactions_def Let_def txs_by_hash_def option_bind_Some_iff)
    obtain pool ready where l: "validate_dde_loop E (sorted_list_of_fmap (txs_by_hash E True valid)) (druid_pool s) [] = (pool, ready)"
      by fastforce
    have f: "filter (\<lambda>(valid, _). \<not> valid) ready = [] \<longleftrightarrow> (\<forall>x \<in> set ready. fst x)"
      by (auto simp: filter_empty_conv split_beta)
    have h: "fmextend (filter (\<lambda>p. druid_info (snd p) \<noteq> None) (map (\<lambda>tx. (construct_tx_hash E tx, tx)) valid)) fmempty =
        txs_by_hash E True valid"
      "fmextend (filter (\<lambda>p. druid_info (snd p) = None) (map (\<lambda>tx. (construct_tx_hash E tx, tx)) valid)) fmempty =
        txs_by_hash E False valid"
      by (simp_all add: txs_by_hash_def)
    show thesis
      by (rule that(3) [OF True v False db l]; use assms True v False e db l in
          \<open>auto simp: receive_transactions_def Let_def h [simplified] validate_dde_txs_def f split: if_splits\<close>)
  qed
qed

lemma receive_transactions_inv:
  assumes "node_inv E B s" and "ext_ok E" and "receive_transactions E txs s = Some (t, r)"
  shows "node_inv E B t"
  using assms(3)
proof (cases rule: receive_transactions_cases)
  case (some valid db pool ready)
  have "stored_ok E db (request_list s) (user_notification_list s) (current_random_num s) (previous_random_num s)"
    by (rule stored_store [OF _ _ some(4)])
      (use assms(1,2) in \<open>auto simp: node_inv_def ext_ok_def node_codec_ok_def dest: txs_by_hash_lookup(2)\<close>)
  moreover have "druid_pool_ok pool"
    using validate_dde_loop_ok [OF _ _ some(5)] assms(1) by (simp add: node_inv_def)
  ultimately show ?thesis
    using some(6) assms(1,2) raft_ok_druid_fold raft_ok_quiet(2) by (simp add: node_inv_def ext_ok_def)
qed (use assms(1) in simp_all)

subsection \<open>Events\<close>

lemma api_call_inv:
  assumes "node_inv E B s" and "ext_ok E" and "api_call E req s = Some (t, r)"
  shows "node_inv E B t"
  using assms receive_transactions_inv [OF assms(1,2)]
  by (cases req)
    (auto simp: option_bind_Some_iff pause_nodes_def resume_nodes_def send_shared_config_def inject_own_event_def
      split: sum.splits prod.splits)

lemma compute_handle_request_inv:
  assumes "node_inv E B s" and "ext_ok E" and "B + 2 < 2 ^ 64" and "compute_handle_request E T peer req s = Some (t, r)"
  shows "node_inv E (B + 2) t"
proof -
  have l: "Suc B < 2 ^ 64" using assms(3) by simp
  note one = node_inv_mono [of E "Suc B" t "B + 2"] and zero = node_inv_mono [of E B t "B + 2"]
  show ?thesis
  proof (cases req)
    case (ComputeApi x)
    then show ?thesis using assms(1,2,4) zero api_call_inv [OF assms(1,2)]
      by (auto simp: handle_api_request_def split: if_splits)
  next
    case (SendBlockStored x)
    then show ?thesis using assms(4) one receive_block_stored_inv [OF assms(1,2) l] by simp
  next
    case (SendPoW a b c)
    then show ?thesis using assms(4) one compute_receive_pow_inv [OF assms(1,2) l] by simp
  next
    case (SendPartitionEntry a b)
    then show ?thesis using assms(4) one receive_partition_entry_inv [OF assms(1,2) l] by simp
  next
    case (SendTransactions a)
    then show ?thesis using assms(4) zero receive_transactions_inv [OF assms(1,2)] by (auto simp: option_bind_Some_iff)
  next
    case (SendPartitionRequest a)
    then show ?thesis using assms(4) receive_partition_request_inv [OF assms(1-3)] by (auto simp: option_bind_Some_iff)
  next
    case (SendSharedConfig a)
    then show ?thesis using assms(4) one coordinated_inv(3) [OF assms(1,2) l] by (auto simp: option_bind_Some_iff)
  next
    case (CoordinatedPause a)
    then show ?thesis using assms(4) one coordinated_inv(1) [OF assms(1,2) l] by (auto simp: option_bind_Some_iff)
  next
    case CoordinatedResume
    then show ?thesis using assms(4) one coordinated_inv(2) [OF assms(1,2) l] by (auto simp: option_bind_Some_iff)
  next
    case SendUserBlockNotificationRequest
    then show ?thesis using assms(4) zero save_inv(2) [OF assms(1,2)]
      by (auto simp: option_bind_Some_iff receive_block_user_notification_request_def)
  next
    case RequestRuntimeData
    obtain u x where u: "compute_send T peer (ToCompute (SendRuntimeData (runtime_data (consensused (cn_raft s))))) s = (u, x)"
      by fastforce
    then have "t = u"
      using RequestRuntimeData assms(4) by (cases x) (simp_all add: handle_receive_request_runtime_data_def)
    then have "same_but_net s t" using sends_net(1) [OF u] by simp
    then show ?thesis using zero assms(1) by (simp add: node_inv_net)
  next
    case (SendRaftCmd m)
    then show ?thesis using assms(4) zero node_inv_quiet(4) [OF assms(1,2)] by auto
  qed (use assms(1,4) zero in \<open>auto simp: fetch_utxo_set_def compute_receive_closing_def handle_request_remove_miner_def
      handle_receive_runtime_data_def Let_def split: if_splits\<close>)
qed

text \<open>A commit is genuine when the log returns what was proposed and a snapshot does not claim
  pending proposals of this node.\<close>

fun genuine_commit :: "compute_node_ext \<Rightarrow> compute_event \<Rightarrow> ComputeNode \<Rightarrow> bool" where
  "genuine_commit E (EventCommit rc) s \<longleftrightarrow>
     (case commit_data rc of
        Proposed data ctx \<Rightarrow> log_faithful (craft E) (cn_raft s) data ctx
      | CommitSnapshot data \<Rightarrow> snapshot_keys_ok (craft E) (cn_raft s) data
      | NewLeader \<Rightarrow> True)"
| "genuine_commit E _ s \<longleftrightarrow> True"

lemma handle_committed_mining_block_inv:
  assumes "node_inv E B s" and "ext_ok E" and "handle_committed_mining_block T why s = Some (t, r)"
  shows "node_inv E B t"
  using assms reset_mining_block_process_inv
  by (auto simp: handle_committed_mining_block_def compute_backup_persistent_dbs_def option_bind_Some_iff)

lemma compute_handle_committed_data_inv:
  assumes "node_inv E B s" and "ext_ok E" and "Suc B < 2 ^ 64" and "genuine_commit E (EventCommit rc) s"
    and "compute_handle_committed_data E T rc s = Some (t, r)"
  shows "node_inv E (Suc B) t"
proof -
  obtain raft item where c: "received_commit (craft E) (tick_now T) (cn_raft s) rc = Some (raft, item)"
    using assms(5) by (auto simp: compute_handle_committed_data_def option_bind_Some_iff)
  have "raft_ok (craft E) B raft"
    by (rule raft_ok_commit [OF _ c]) (use assms(1,4) in \<open>auto simp: node_inv_def\<close>)
  then have i: "node_inv E B (s\<lparr>cn_raft := raft\<rparr>)" by (rule node_inv_raft [OF assms(1)])
  show ?thesis
  proof (cases item)
    case None
    then show ?thesis using assms(5) c node_inv_mono [OF i] by (auto simp: compute_handle_committed_data_def)
  next
    case (Some ci)
    show ?thesis
    proof (cases ci)
      case (CommittedCoordinatedCmd cmd)
      then show ?thesis
        using assms(5) c Some coordinated_inv(4) [OF i assms(2,3)]
        by (auto simp: compute_handle_committed_data_def option_bind_Some_iff)
    next
      case CommittedStartPhaseHalted
      then show ?thesis
        using assms(5) c Some mining_block_mined_inv [OF i assms(2)] node_inv_mono [of E B t "Suc B"]
        by (auto simp: compute_handle_committed_data_def option_bind_Some_iff)
    next
      case CommittedTransactions
      then obtain db where db: "delete_local_transactions (local_tx_hash_last_commited raft) (cn_db s) = Some db"
        and t: "t = s\<lparr>cn_raft := fst (take_local_tx_hash_last_commited raft), cn_db := db\<rparr>"
        using assms(5) c Some
        by (auto simp: compute_handle_committed_data_def option_bind_Some_iff take_local_tx_hash_last_commited_def)
      then show ?thesis
        using i assms(2) stored_delete [OF _ db] raft_ok_quiet(4) raft_ok_mono [of "craft E" B _ "Suc B"]
        by (auto simp: node_inv_def ext_ok_def)
    qed (use assms(2,5) c Some i node_inv_mono [of E B t "Suc B"] in
        \<open>auto simp: compute_handle_committed_data_def dest: handle_committed_mining_block_inv [OF i]\<close>)
  qed
qed

lemma compute_handle_next_event_inv:
  assumes "node_inv E B s" and "ext_ok E" and "B + 3 < 2 ^ 64" and "genuine_commit E ev s"
    and "compute_handle_next_event E T ev s = Some (t, r)"
  shows "node_inv E (B + 3) t"
proof -
  have l: "Suc B < 2 ^ 64" "B + 2 < 2 ^ 64" "Suc (Suc B) < 2 ^ 64" using assms(3) by simp_all
  note two = node_inv_mono [of E "B + 2" t "B + 3"] and one = node_inv_mono [of E "Suc B" t "B + 3"]
    and zero = node_inv_mono [of E B t "B + 3"]
  have r: "raft_ok (craft E) B (cn_raft s)" and c: "codec_inverts (codec (craft E))"
    using assms(1,2) by (auto simp: node_inv_def ext_ok_def)
  show ?thesis
  proof (cases ev)
    case EventFrame
    show ?thesis
    proof (cases "next_event (cn_node s)")
      case None
      then show ?thesis using EventFrame assms(1,5) zero by simp
    next
      case (Some x)
      obtain n peer frame where x: "x = (n, peer, frame)" by (cases x)
      then show ?thesis
        using EventFrame assms(1,5) Some two zero compute_handle_request_inv [OF _ assms(2) l(2), of "s\<lparr>cn_node := n\<rparr>"]
        by (auto simp: compute_handle_new_frame_def option_bind_Some_iff split: compute_msg.splits)
    qed
  next
    case (EventCommit rc)
    then show ?thesis
      using assms(4,5) one compute_handle_committed_data_inv [OF assms(1,2) l(1)] by (auto simp: option_bind_Some_iff)
  next
    case (EventRaftMsg a m)
    then show ?thesis using assms(1,5) zero node_inv_net [OF sends_net_fst(1)] by auto
  next
    case EventTransactionsTimeout
    then obtain r1 r2 where 1: "propose_local_transactions_at_timeout (craft E) (tick_now T) (cn_raft s) = Some r1"
      and 2: "propose_local_druid_transactions (craft E) r1 = Some r2" and t: "t = s\<lparr>cn_raft := r2\<rparr>"
      using assms(5) by (auto simp: option_bind_Some_iff)
    have "raft_ok (craft E) (B + 2) r2"
      using raft_ok_proposals(6) [OF raft_ok_proposals(5) [OF r l(1) c 1] l(3) c 2] by simp
    then show ?thesis using two t node_inv_raft [OF assms(1)] by simp
  next
    case EventMiningTimeout
    then obtain raft ok where 1: "propose_mining_event_at_timeout (craft E) (tick_now T) (cn_raft s) = Some (raft, ok)"
      using assms(5) by (auto simp: option_bind_Some_iff)
    have i: "node_inv E (Suc B) (s\<lparr>cn_raft := raft\<rparr>)"
      by (rule node_inv_raft [OF assms(1) raft_ok_proposals(4) [OF r l(1) c 1]])
    have l3: "Suc B + 2 < 2 ^ 64" using assms(3) by simp
    show ?thesis
    proof (cases "\<not> ok \<and> \<not> disable_trigger_messages s")
      case True
      then have "compute_resend_trigger_message E T (s\<lparr>cn_raft := re_propose_uncommitted_current_b_num raft\<rparr>) = Some t"
        using EventMiningTimeout assms(5) 1 by (auto simp: option_bind_Some_iff)
      then show ?thesis
        using resend_trigger_inv [OF _ assms(2) l3] node_inv_quiet(1) [OF i assms(2)] by (simp add: eval_nat_numeral)
    next
      case False
      then show ?thesis using EventMiningTimeout assms(5) 1 i one by auto
    qed
  next
    case (EventLocal le)
    then show ?thesis
      using assms(1,5) zero node_inv_net [OF sends_net_fst(2)]
      by (cases le) (auto simp: send_startup_requests_def)
  next
    case (EventCall req)
    then show ?thesis using assms(5) zero api_call_inv [OF assms(1,2)] by (auto simp: option_bind_Some_iff)
  next
    case (EventExit why)
    then show ?thesis using assms(1,5) zero by auto
  qed
qed

lemma start_mining_inv:
  assumes "node_inv E B s" and "ext_ok E" and "Suc B < 2 ^ 64" and "start_mining E T s = Some t"
  shows "node_inv E (Suc B) t"
proof (cases "pause_node s")
  case True
  then show ?thesis using assms(1,4) node_inv_mono [OF assms(1), of "Suc B"] by (auto simp: start_mining_def)
next
  case False
  then obtain u where "flood_block_to_users E T s = Some u" "flood_rand_and_block_to_partition E T u = Some t"
    using assms(4) by (auto simp: start_mining_def option_bind_Some_iff)
  then show ?thesis using flood_rand_inv [OF flood_block_to_users_inv [OF assms(1,2)] assms(2,3)] by blast
qed

lemma compute_response_inv:
  assumes "node_inv E B s" and "ext_ok E" and "Suc B < 2 ^ 64"
    and "compute_handle_next_event_response E T response s = Some (t, res)"
  shows "node_inv E (Suc B) t"
proof (cases response)
  case (Inl e)
  then show ?thesis using assms(1,4) node_inv_mono by (auto simp: compute_handle_next_event_response_def)
next
  case (Inr r)
  have net: "node_inv E B (fst (send_fetched_utxo_set T s))" "node_inv E B (fst (send_block_to_storage T s))"
    "node_inv E B (compute_flood_closing_events T s)"
    using assms(1) node_inv_net [OF sends_net_fst(1)] node_inv_net [OF sends_net_fst(2)]
    by (auto simp: send_fetched_utxo_set_def send_block_to_storage_def compute_flood_closing_events_def Let_def
        split: option.splits prod.splits NodeType.splits)
  show ?thesis
    using assms(1,4) Inr net node_inv_mono [of E B _ "Suc B"] flood_rand_inv [OF assms(1-3)] start_mining_inv [OF assms(1-3)]
      propose_runtime_inv [OF _ assms(2,3), of "s\<lparr>received_runtime_data := None\<rparr>"]
    by (auto simp: compute_handle_next_event_response_def option_bind_Some_iff split: if_splits option.splits)
qed

subsection \<open>Construction\<close>

lemma load_random_num_put:
  assumes "load_random_num rand key db = Some (db', num)"
  shows "db_put_cf COMPUTE_DB_COL_INTERNAL (as_bytes key) num db = Some db'"
    and "\<exists>stored. db_get_cf COMPUTE_DB_COL_INTERNAL (as_bytes key) db = Some stored \<and>
      num = (case stored of Some n \<Rightarrow> n | None \<Rightarrow> rand)"
  using assms by (auto simp: load_random_num_def Let_def option_bind_Some_iff)

lemma load_key_run_put:
  assumes "load_key_run E db = Some (Some (db', n))"
  shows "\<exists>ser. db_put_cf COMPUTE_DB_COL_INTERNAL (as_bytes COMPUTE_RAFT_KEY_RUN) ser db = Some db'"
  using assms by (auto simp: load_key_run_def option_bind_Some_iff option_case_eq_iff)

lemma check_first_flood_fields [simp]:
  "request_list (check_first_flood s) = request_list s" "cn_db (check_first_flood s) = cn_db s"
  "user_notification_list (check_first_flood s) = user_notification_list s"
  "druid_pool (check_first_flood s) = druid_pool s"
  by (simp_all add: check_first_flood_def split: option.splits)

lemma check_first_flood_raft: "cn_raft (check_first_flood s) \<in> {cn_raft s, set_initial_proposal_done (cn_raft s)}"
  by (simp add: check_first_flood_def split: option.splits)

text \<open>What loading the local database gives, by what it had.\<close>

definition loaded ::
    "compute_node_ext \<Rightarrow> tick \<Rightarrow> ComputeNode \<Rightarrow> ComputeNode \<Rightarrow> bool" where
  "loaded E T s t \<longleftrightarrow>
     load_addrs E REQUEST_LIST_KEY (request_list s) (cn_db s) = Some (Some (request_list t)) \<and>
     load_addrs E USER_NOTIFY_LIST_KEY (user_notification_list s) (cn_db s) = Some (Some (user_notification_list t)) \<and>
     (\<exists>stored. db_get_cf COMPUTE_DB_COL_INTERNAL (as_bytes POW_RANDOM_NUM_KEY) (cn_db s) = Some stored \<and>
        current_random_num t = (case stored of Some n \<Rightarrow> n | None \<Rightarrow> tick_rand T)) \<and>
     (\<exists>stored. db_get_cf COMPUTE_DB_COL_INTERNAL (as_bytes POW_PREV_RANDOM_NUM_KEY) (cn_db s) = Some stored \<and>
        previous_random_num t = (case stored of Some n \<Rightarrow> n | None \<Rightarrow> tick_next_rand T)) \<and>
     druid_pool t = druid_pool s \<and>
     (\<exists>r run txs. get_local_transactions E (cn_db s) = Some txs \<and> get_local_transactions E (cn_db t) = Some txs \<and>
        r \<in> {cn_raft s, set_initial_proposal_done (cn_raft s)} \<and>
        cn_raft t = append_to_tx_pool (set_key_run r run) txs)"

lemma compute_load_local_db_loaded:
  assumes "db_inv (cn_db s)" and "compute_load_local_db E T s = Some (Inr t)"
  shows "loaded E T s t"
    and "\<lbrakk>request_list s = {||}; user_notification_list s = {||}\<rbrakk> \<Longrightarrow>
      stored_ok E (cn_db t) (request_list t) (user_notification_list t) (current_random_num t) (previous_random_num t)"
proof -
  obtain list users db1 cur db2 prev db3 run txs where
      1: "load_addrs E REQUEST_LIST_KEY (request_list s) (cn_db s) = Some (Some list)"
    and 2: "load_addrs E USER_NOTIFY_LIST_KEY (user_notification_list s) (cn_db s) = Some (Some users)"
    and 3: "load_random_num (tick_rand T) POW_RANDOM_NUM_KEY (cn_db s) = Some (db1, cur)"
    and 4: "load_random_num (tick_next_rand T) POW_PREV_RANDOM_NUM_KEY db1 = Some (db2, prev)"
    and 5: "load_key_run E db2 = Some (Some (db3, run))"
    and 6: "get_local_transactions E db3 = Some txs"
    and t: "t = (check_first_flood (s\<lparr>request_list := list\<rparr>))\<lparr>
      user_notification_list := users, current_random_num := cur, previous_random_num := prev, cn_db := db3,
      cn_raft := append_to_tx_pool (set_key_run (cn_raft (check_first_flood (s\<lparr>request_list := list\<rparr>))) run) txs\<rparr>"
    using assms(2) by (auto simp: compute_load_local_db_def Let_def option_bind_Some_iff option_case_eq_iff)
  note p3 = load_random_num_put [OF 3] and p4 = load_random_num_put [OF 4]
  obtain ser where p5: "db_put_cf COMPUTE_DB_COL_INTERNAL (as_bytes COMPUTE_RAFT_KEY_RUN) ser db2 = Some db3"
    using load_key_run_put [OF 5] by blast
  note i3 = put_internal [OF assms(1) p3(1)]
  note i4 = put_internal [OF i3(1) p4(1)]
  note i5 = put_internal [OF i4(1) p5]
  show "loaded E T s t"
    unfolding loaded_def
    using 1 2 6 t p3(2) p4(2) i3 i4 i5 check_first_flood_raft [of "s\<lparr>request_list := list\<rparr>"] by (auto simp: compute_db_keys)
  show "stored_ok E (cn_db t) (request_list t) (user_notification_list t) (current_random_num t) (previous_random_num t)"
    if "request_list s = {||}" "user_notification_list s = {||}"
    using that 1 2 6 t i3 i4 i5 by (auto simp: stored_ok_def load_addrs_def compute_db_keys)
qed

text \<open>The network node is given at construction; the old database is well-formed.\<close>

lemma tx_pool_inv_started:
  assumes "ComputeRaft_new E G now config = Some r" and "r' \<in> {r, set_initial_proposal_done r}"
  shows "raft_ok E 0 (append_to_tx_pool (set_key_run r' run) txs)"
proof -
  have "tx_pool_inv E (set_key_run r run)" by (rule tx_pool_inv_new [OF assms(1)])
  moreover have "last_id r = 0"
    using assms(1) by (auto simp: ComputeRaft_new_def Let_def option_bind_Some_iff RaftInFlightProposals_default_def split: if_splits)
  ultimately show ?thesis
    using assms(2) by (auto simp: raft_ok_def tx_pool_inv_def set_key_run_def in_flight_set_key_run_def append_to_tx_pool_def
        set_initial_proposal_done_def)
qed

lemma ComputeNode_new_loaded:
  assumes "ComputeNode_new E T config node old_db = Some (Inr s)"
  obtains raft db s0 where "ComputeRaft_new (craft E) (gext E) (tick_now T) (ComputeNodeConfig.truncate config) = Some raft"
    and "new_db (cdb E) COMPUTE_DB_SPEC_columns old_db = Some db"
    and "compute_load_local_db E T s0 = Some (Inr s)" and "cn_raft s0 = raft" and "cn_db s0 = db"
    and "request_list s0 = {||}" and "user_notification_list s0 = {||}" and "druid_pool s0 = fmempty"
  using assms by (auto simp: ComputeNode_new_def option_bind_Some_iff Let_def split: if_splits)

lemma node_inv_new:
  assumes "ComputeNode_new E T config node old_db = Some (Inr s)" and "\<forall>old. old_db = Some old \<longrightarrow> db_inv old"
  shows "node_inv E 0 s"
  using assms(1)
proof (cases rule: ComputeNode_new_loaded)
  case (1 raft db s0)
  have i: "db_inv (cn_db s0)" using new_db_inv [OF assms(2) 1(2)] 1(5) by simp
  note l = compute_load_local_db_loaded [OF i 1(3)]
  have "raft_ok (craft E) 0 (cn_raft s)" using l(1) tx_pool_inv_started [OF 1(1)] 1(4) by (auto simp: loaded_def)
  moreover have "druid_pool_ok (druid_pool s)" using l(1) 1(8) by (simp add: loaded_def druid_pool_ok_def)
  ultimately show ?thesis using l(2) 1(6,7) by (simp add: node_inv_def)
qed

subsection \<open>Reachable states\<close>

text \<open>An event with the reaction to its response, as in the main loop of the node.\<close>

definition compute_node_step :: "compute_node_ext \<Rightarrow> tick \<Rightarrow> compute_event \<Rightarrow> ComputeNode \<Rightarrow> ComputeNode may_panic" where
  "compute_node_step E T ev s =
     do { (s, r) \<leftarrow> compute_handle_next_event E T ev s;
          case r of
            None \<Rightarrow> Some s
          | Some response \<Rightarrow> map_option fst (compute_handle_next_event_response E T response s) }"

text \<open>
  The states of a node from its construction on. Its network node may change in between (peers
  connect and leave, frames arrive). The identifiers of proposals do not wrap around.
\<close>

inductive compute_node_reachable :: "compute_node_ext \<Rightarrow> ComputeNode \<Rightarrow> bool" for E where
  start: "ComputeNode_new E T config node old_db = Some (Inr s) \<Longrightarrow> \<forall>old. old_db = Some old \<longrightarrow> db_inv old \<Longrightarrow>
    compute_node_reachable E s"
| event: "compute_node_reachable E s \<Longrightarrow> compute_event_enabled ev s \<Longrightarrow> genuine_commit E ev s \<Longrightarrow>
    unat (last_id (cn_raft s)) + 4 < 2 ^ 64 \<Longrightarrow> compute_node_step E T ev s = Some t \<Longrightarrow> compute_node_reachable E t"
| network: "compute_node_reachable E s \<Longrightarrow> compute_node_reachable E (s\<lparr>cn_node := n\<rparr>)"

lemma node_inv_own_bound: "node_inv E B s \<Longrightarrow> node_inv E (unat (last_id (cn_raft s))) s"
  by (simp add: node_inv_def raft_ok_def)

lemma compute_node_step_inv:
  assumes "node_inv E B s" and "ext_ok E" and "B + 4 < 2 ^ 64" and "genuine_commit E ev s" and "compute_node_step E T ev s = Some t"
  shows "node_inv E (B + 4) t"
proof -
  obtain u r where u: "compute_handle_next_event E T ev s = Some (u, r)"
    and t: "(case r of None \<Rightarrow> Some u | Some response \<Rightarrow> map_option fst (compute_handle_next_event_response E T response u)) = Some t"
    using assms(5) by (auto simp: compute_node_step_def option_bind_Some_iff)
  have "B + 3 < 2 ^ 64" using assms(3) by simp
  note i = compute_handle_next_event_inv [OF assms(1,2) this assms(4) u]
  have l: "Suc (B + 3) < 2 ^ 64" using assms(3) by simp
  show ?thesis
  proof (cases r)
    case None
    then show ?thesis using t node_inv_mono [OF i] by simp
  next
    case (Some response)
    then obtain res where "compute_handle_next_event_response E T response u = Some (t, res)" using t by auto
    from compute_response_inv [OF i assms(2) l this] show ?thesis by (simp add: eval_nat_numeral)
  qed
qed

lemma reachable_node_inv:
  assumes "compute_node_reachable E s" and "ext_ok E"
  shows "node_inv E (unat (last_id (cn_raft s))) s"
  using assms(1)
proof induction
  case (start T config node old_db s)
  then show ?case using node_inv_own_bound [OF node_inv_new] by blast
next
  case (event s ev T t)
  then show ?case using node_inv_own_bound [OF compute_node_step_inv [OF event.IH assms(2)]] by blast
next
  case (network s n)
  then show ?case by simp
qed

end
