(* ===== verification/Compute_Props.thy ===== *)
theory Compute_Props
  imports Compute_Inv
begin

text \<open>
  The properties of the compute node (\<^verbatim>\<open>src/compute.rs\<close>): its invariant, what a restart brings back,
  the transactions it accepts, DRUID sets, proofs of work, miners, the coordinated pause, and
  the UTXO sets it sends.
\<close>

section \<open>Lemmas\<close>

subsection \<open>Transactions\<close>

lemma filter_valid_txs_valid:
  "filter_valid_txs E s txs = Some valid \<Longrightarrow>
   (\<forall>tx. tx \<in> set valid \<longleftrightarrow> tx \<in> set txs \<and> transactions_validator E s tx = Some True)"
proof (induction txs arbitrary: valid)
  case (Cons tx txs)
  obtain ok rest where o: "transactions_validator E s tx = Some ok" "filter_valid_txs E s txs = Some rest"
      "valid = (if ok then tx # rest else rest)"
    using Cons.prems by (auto simp: option_bind_Some_iff)
  have "y \<in> set valid \<longleftrightarrow> y = tx \<and> ok \<or> y \<in> set txs \<and> transactions_validator E s y = Some True" for y
    using Cons.IH [OF o(2)] o(3) by simp
  then show ?case using o(1) by fastforce
qed simp

lemma local_tx_pool_fold:
  "local_tx_pool (fold (\<lambda>(valid, ready) raft. if valid then append_to_tx_druid_pool raft ready else raft) xs r) = local_tx_pool r"
  "local_tx_druid_pool (fold (\<lambda>(valid, ready) raft. if valid then append_to_tx_druid_pool raft ready else raft) xs r) =
     local_tx_druid_pool r @ map snd (filter fst xs)"
  by (induction xs arbitrary: r) (auto simp: append_to_tx_druid_pool_def)

subsection \<open>Miners\<close>

text \<open>Hash maps are iterated completely.\<close>

definition peer_order_ok :: "compute_node_ext \<Rightarrow> bool" where
  "peer_order_ok E \<longleftrightarrow> (\<forall>S. set (peer_order E S) = fset S)"

lemma check_miner_whitelisted_net: "same_but_net s t \<Longrightarrow> check_miner_whitelisted a k t = check_miner_whitelisted a k s"
  by (auto simp: same_but_net_def check_miner_whitelisted_def)

lemma flush_unauthorized_loop_removed:
  "flush_unauthorized_loop T peers s = (t, removed) \<Longrightarrow>
   removed = filter (\<lambda>a. \<not> check_miner_whitelisted a (get_mining_api_key_entry (cn_raft s) a) s) peers \<and>
   node_peers (cn_node t) = node_peers (cn_node s)"
proof (induction T peers s arbitrary: t removed rule: flush_unauthorized_loop.induct)
  case (2 T peer peers s)
  let ?w = "\<lambda>a s. check_miner_whitelisted a (get_mining_api_key_entry (cn_raft s) a) s"
  show ?case
  proof (cases "?w peer s")
    case True
    then show ?thesis using 2 by simp
  next
    case False
    let ?s = "fst (compute_send T peer ToMinerNotAuthorized s)"
    obtain l where r: "flush_unauthorized_loop T peers ?s = (t, l)" and l: "removed = peer # l"
      using "2.prems" False by (auto simp: Let_def split: prod.splits)
    have n: "same_but_net s ?s" by simp
    have w: "?w a ?s = ?w a s" for a
      using check_miner_whitelisted_net [OF n] n by (auto simp: same_but_net_def)
    have p: "node_peers (cn_node ?s) = node_peers (cn_node s)"
      by (auto simp: compute_send_def send_def send_message_def split: option.splits)
    show ?thesis using "2.IH"(1) [OF False refl r] l False by (simp only: w p) simp
  qed
qed simp

lemma flush_unauthorized_miners_connected:
  assumes "peer_order_ok E" and "flush_unauthorized_miners E T s = (t, Some removed)"
    and "fmlookup (get_peers (cn_node t)) a = Some (Some Miner)"
  shows "check_miner_whitelisted a (get_mining_api_key_entry (cn_raft t) a) t \<and> a \<notin> set removed"
proof -
  obtain u where u: "flush_unauthorized_loop T (get_connected_miners E s) s = (u, removed)"
    and t: "t = u\<lparr>cn_node := disconnect_all (Some removed) (cn_node u)\<rparr>"
    using assms(2) by (auto simp: flush_unauthorized_miners_def split: if_splits prod.splits)
  note r = flush_unauthorized_loop_removed [OF u]
  have "same_but_net s u" by (rule flush_unauthorized_loop_net [OF u])
  then have n: "same_but_net s t" unfolding t by (rule same_but_net_upd)
  have p: "a \<notin> set removed" "fmlookup (get_peers (cn_node s)) a = Some (Some Miner)"
    using assms(3) r t by (auto simp: get_peers_def disconnect_all_def fmlookup_fold_fmdrop split: if_splits)
  then have "a \<in> set (get_connected_miners E s)"
    using assms(1) by (auto simp: get_connected_miners_def peer_order_ok_def fmlookup_dom_iff)
  then show ?thesis
    using p(1) r check_miner_whitelisted_net [OF n] n by (auto simp: same_but_net_def)
qed

subsection \<open>UTXO sets\<close>

lemma utxos_of_addresses_exact:
  assumes "pk_cache_exact utxos"
  shows "fmlookup (utxos_of_addresses utxos addresses) op =
    (case fmlookup (base utxos) op of
       Some out \<Rightarrow> (case script_public_key out of
           Some a \<Rightarrow> if a \<in> set addresses then Some out else None | None \<Rightarrow> None)
     | None \<Rightarrow> None)"
proof -
  let ?ops = "\<lambda>a. case get_pk_cache_vec utxos a of None \<Rightarrow> {||} | Some ops \<Rightarrow> ops"
  have c: "op |\<in>| ?ops a \<longleftrightarrow> op \<in> owned (base utxos) a" for a
  proof -
    have "fset (?ops a) = cached utxos a" by (simp add: cached_def get_pk_cache_vec_def split: option.splits)
    then show ?thesis using assms by (simp add: pk_cache_exact_def)
  qed
  have "op |\<in>| ffUnion (fset_of_list (map ?ops addresses)) \<longleftrightarrow> (\<exists>a \<in> set addresses. op |\<in>| ?ops a)"
    by (auto simp: fset_of_list_elem ffUnion.rep_eq)
  then have "op |\<in>| ffUnion (fset_of_list (map ?ops addresses)) \<longleftrightarrow> (\<exists>a \<in> set addresses. op \<in> owned (base utxos) a)"
    using c by simp
  then show ?thesis
    by (auto simp: utxos_of_addresses_def owned_def fmlookup_restrict_fset split: option.splits)
qed

subsection \<open>Restart\<close>

lemma load_random_num_stored:
  assumes "db_get_cf COMPUTE_DB_COL_INTERNAL (as_bytes key) db = Some (Some n)" and "load_random_num rand key db = Some (db', m)"
  shows "m = n"
  using assms by (auto simp: load_random_num_def option_bind_Some_iff)

lemma ComputeRaft_new_pools:
  assumes "ComputeRaft_new E G now config = Some r"
  shows "local_tx_pool r = fmempty" and "local_tx_druid_pool r = []"
  using assms by (auto simp: ComputeRaft_new_def Let_def option_bind_Some_iff split: if_splits)

lemma node_inv_restart:
  assumes "node_inv E B s" and "ComputeNode_new E T config node (Some (cn_db s)) = Some (Inr t)"
  shows "request_list t = request_list s" and "user_notification_list t = user_notification_list s"
    and "current_random_num t = current_random_num s" and "previous_random_num t = previous_random_num s"
    and "get_local_transactions E (cn_db s) = Some (local_tx_pool (cn_raft t))"
    and "get_local_transactions E (cn_db t) = Some (local_tx_pool (cn_raft t))"
proof -
  have st: "stored_ok E (cn_db s) (request_list s) (user_notification_list s) (current_random_num s) (previous_random_num s)"
    using assms(1) by (simp add: node_inv_def)
  from assms(2)
  have "request_list t = request_list s \<and> user_notification_list t = user_notification_list s \<and>
     current_random_num t = current_random_num s \<and> previous_random_num t = previous_random_num s \<and>
     get_local_transactions E (cn_db s) = Some (local_tx_pool (cn_raft t)) \<and>
     get_local_transactions E (cn_db t) = Some (local_tx_pool (cn_raft t))"
  proof (cases rule: ComputeNode_new_loaded)
    case (1 raft db s0)
    have db: "cn_db s0 = cn_db s" using new_db_old [OF 1(2)] 1(5) by simp
    have "db_inv (cn_db s0)" using st db by (simp add: stored_ok_def)
    note l = compute_load_local_db_loaded(1) [OF this 1(3), unfolded loaded_def db 1(4,6,7)]
    have p: "local_tx_pool (cn_raft t) = txs" if "r \<in> {raft, set_initial_proposal_done raft}"
      "cn_raft t = append_to_tx_pool (set_key_run r run) txs" for r run txs
      using that ComputeRaft_new_pools [OF 1(1)]
      by (auto simp: append_to_tx_pool_def set_key_run_def set_initial_proposal_done_def)
    show ?thesis using l st p by (auto simp: stored_ok_def)
  qed
  then show "request_list t = request_list s" and "user_notification_list t = user_notification_list s"
    and "current_random_num t = current_random_num s" and "previous_random_num t = previous_random_num s"
    and "get_local_transactions E (cn_db s) = Some (local_tx_pool (cn_raft t))"
    and "get_local_transactions E (cn_db t) = Some (local_tx_pool (cn_raft t))" by simp_all
qed

subsection \<open>Received transactions\<close>

lemma fmextend_lookup_pairs:
  assumes "inj_on f (set xs)"
  shows "fmlookup (fmextend (map (\<lambda>x. (f x, x)) xs) m) h =
    (if h \<in> f ` set xs then Some (inv_into (set xs) f h) else fmlookup m h)"
  using assms
proof (induction xs arbitrary: m)
  case (Cons x xs)
  have i: "inj_on f (set xs)" using Cons.prems by simp
  have v: "inv_into (set (x # xs)) f h = inv_into (set xs) f h" if "h \<in> f ` set xs"
    using that Cons.prems by (metis f_inv_into_f i inv_into_f_eq inv_into_into list.set_intros(2))
  have "inv_into (set (x # xs)) f (f x) = x" using Cons.prems by (rule inv_into_f_f) simp
  moreover have "fmextend (map (\<lambda>x. (f x, x)) (x # xs)) m = fmextend (map (\<lambda>x. (f x, x)) xs) (fmupd (f x) x m)"
    by (simp add: fmextend_def)
  ultimately show ?case using Cons.IH [OF i] v by auto
qed (simp add: fmextend_def)

lemma txs_by_hash_exact:
  assumes "inj_on (construct_tx_hash E) (set txs)" and "tx \<in> set txs"
  shows "fmlookup (txs_by_hash E dde txs) (construct_tx_hash E tx) = (if (druid_info tx \<noteq> None) = dde then Some tx else None)"
proof -
  let ?f = "construct_tx_hash E"
  let ?txs = "filter (\<lambda>tx. (druid_info tx \<noteq> None) = dde) txs"
  have e: "txs_by_hash E dde txs = fmextend (map (\<lambda>tx. (?f tx, tx)) ?txs) fmempty"
    by (simp add: txs_by_hash_def filter_map comp_def)
  have i: "inj_on ?f (set ?txs)" using assms(1) by (rule inj_on_subset) auto
  have "?f tx \<in> ?f ` set ?txs \<longleftrightarrow> tx \<in> set ?txs"
    using assms by (auto dest: inj_onD)
  then show ?thesis using assms(2) i by (simp add: e fmextend_lookup_pairs)
qed

lemma txs_by_hash_other: "h \<notin> construct_tx_hash E ` set txs \<Longrightarrow> fmlookup (txs_by_hash E dde txs) h = None"
  using txs_by_hash_lookup [of E dde txs h] by (cases "fmlookup (txs_by_hash E dde txs) h") auto

lemma accepted_pool_and_database:
  assumes "node_inv E B s" and "ext_ok E" and "receive_transactions E txs s = Some (t, r)" and "t \<noteq> s"
  obtains valid m where "filter_valid_txs E s txs = Some valid"
    and "local_tx_pool (cn_raft t) = local_tx_pool (cn_raft s) ++\<^sub>f txs_by_hash E False valid"
    and "get_local_transactions E (cn_db s) = Some m"
    and "get_local_transactions E (cn_db t) = Some (m ++\<^sub>f txs_by_hash E False valid)"
  using assms(3)
proof (cases rule: receive_transactions_cases)
  case (some valid db pool ready)
  have st: "db_inv (cn_db s)" "get_local_transactions E (cn_db s) \<noteq> None" and c: "node_codec_ok E"
    using assms(1,2) by (auto simp: node_inv_def stored_ok_def ext_ok_def)
  then obtain m where m: "get_local_transactions E (cn_db s) = Some m" by blast
  have "\<forall>h tx. fmlookup (txs_by_hash E False valid) h = Some tx \<longrightarrow> utf8_valid (as_bytes h)"
    using c by (auto simp: node_codec_ok_def dest: txs_by_hash_lookup(2))
  then have "get_local_transactions E db = Some (m ++\<^sub>f txs_by_hash E False valid)"
    by (rule store_local_transactions_read [OF c st(1) m some(4)])
  then show thesis using that [OF some(2)] some(6) m local_tx_pool_fold(1) by (simp add: append_to_tx_pool_def)
qed (use assms(4) in simp_all)

subsection \<open>Proof of work\<close>

lemma compute_receive_pow_accepted:
  assumes "compute_receive_pow E a bn nonce coinbase s = Some (t, r)" and "cn_raft t \<noteq> cn_raft s \<or> r = Some (respond True why)"
  obtains blk where "current_block (block_pipeline (consensused (cn_raft s))) = Some blk" and "bn = b_num (header blk)"
    and "Participants_contains (raft_get_mining_participants (cn_raft s)) a" and "is_coinbase E coinbase"
    and "map_option (token_amount (naom (cext (craft E))) \<circ> txout_value) (case outputs coinbase of [] \<Rightarrow> None | o1 # _ \<Rightarrow> Some o1) =
      Some (current_reward (block_pipeline (consensused (cn_raft s))))"
    and "validate_pow_block E (apply_mining_tx (header blk) nonce (construct_tx_hash E coinbase)) = Some True"
proof -
  obtain blk where b: "current_block (block_pipeline (consensused (cn_raft s))) = Some blk"
    and c: "bn = b_num (header blk) \<and> Participants_contains (raft_get_mining_participants (cn_raft s)) a"
    using assms by (auto simp: compute_receive_pow_def Let_def respond_def split: option.splits if_splits)
  obtain paid where p: "(if is_coinbase E coinbase
              then case outputs coinbase of
                  [] \<Rightarrow> None
                | tx_out # _ \<Rightarrow> Some (token_amount (naom (cext (craft E))) (txout_value tx_out) =
                    current_reward (block_pipeline (consensused (cn_raft s))))
              else Some False) = Some paid"
    using assms(1) b c by (auto simp: compute_receive_pow_def Let_def option_bind_Some_iff)
  have paid: "paid"
    by (rule ccontr) (use assms b c p in \<open>auto simp: compute_receive_pow_def Let_def respond_def\<close>)
  obtain ok where ok: "validate_pow_block E (apply_mining_tx (header blk) nonce (construct_tx_hash E coinbase)) = Some ok"
    using assms(1) b c p paid by (auto simp: compute_receive_pow_def Let_def option_bind_Some_iff)
  have "ok"
    by (rule ccontr) (use assms b c p paid ok in \<open>auto simp: compute_receive_pow_def Let_def respond_def\<close>)
  then show thesis using that [OF b] c p paid ok by (auto split: if_splits list.splits)
qed

lemma mining_block_mined_header:
  assumes "mining_block_mined s = Some t" and "current_block (block_pipeline (consensused (cn_raft s))) = Some blk"
    and "winning_pow (block_pipeline (consensused (cn_raft s))) = Some (a, info)"
  shows "\<exists>m. current_mined_block t = Some m \<and>
    header (common_block (mined_common m)) = apply_mining_tx (header blk) (pow_nonce info) (fst (mining_tx info)) \<and>
    fmlookup (block_txs (mined_common m)) (fst (mining_tx info)) = Some (snd (mining_tx info))"
  using assms
  by (auto simp: mining_block_mined_def raft_take_mining_block_def compute_take_mining_block_def pipeline_take_mining_block_def
      Let_def option_bind_Some_iff split: option.splits prod.splits)

section \<open>Properties\<close>

text \<open>C3: in every state a compute node reaches from its construction by events and their responses, the
  count of proposed transactions is that of the pending proposals, every DRUID set that waits has
  transactions of its DRUID only and fewer than its participants (when it names any), and the
  database holds the miners, the users, both random numbers and readable local transactions. It
  rests on decoding being the inverse of encoding, hashes being UTF-8, and commits being what was
  proposed.\<close>

theorem compute_node_invariant:
  assumes "compute_node_reachable E s" and "ext_ok E"
  shows "tx_pool_inv (craft E) (cn_raft s) \<and>
    (\<forall>d dr. fmlookup (druid_pool s) d = Some dr \<longrightarrow>
      (droplet_participants dr = 0 \<or> fmlen (droplet_txs dr) < droplet_participants dr) \<and>
      (\<forall>h tx. fmlookup (droplet_txs dr) h = Some tx \<longrightarrow> map_option druid (druid_info tx) = Some d)) \<and>
    stored_ok E (cn_db s) (request_list s) (user_notification_list s) (current_random_num s) (previous_random_num s)"
  using reachable_node_inv [OF assms] by (auto simp: node_inv_def raft_ok_def druid_pool_ok_def droplet_ok_def)

text \<open>C11: a node that is started again on the database of a node, in whatever state that is, has the same
  miners, users and random numbers, and its pool has the transactions that were stored and not
  committed yet.\<close>

theorem compute_restart_restores:
  assumes "compute_node_reachable E s" and "ext_ok E"
    and "ComputeNode_new E T config node (Some (cn_db s)) = Some (Inr t)"
  shows "request_list t = request_list s \<and> user_notification_list t = user_notification_list s \<and>
    current_random_num t = current_random_num s \<and> previous_random_num t = previous_random_num s \<and>
    get_local_transactions E (cn_db s) = Some (local_tx_pool (cn_raft t)) \<and>
    get_local_transactions E (cn_db t) = Some (local_tx_pool (cn_raft t))"
  using node_inv_restart [OF reachable_node_inv [OF assms(1,2)] assms(3)] by blast

text \<open>C12: a batch of transactions is refused as a whole, leaving the node as it was, or every transaction
  of it without a DRUID that the validator accepts is in the local pool and in the database under its
  hash, no other one is added, and nothing is lost.\<close>

theorem received_transactions_kept:
  assumes "compute_node_reachable E s" and "ext_ok E" and "receive_transactions E txs s = Some (t, r)"
    and "inj_on (construct_tx_hash E) (set txs)"
  shows "t = s \<or>
    (\<exists>old new. get_local_transactions E (cn_db s) = Some old \<and> get_local_transactions E (cn_db t) = Some new \<and>
      (\<forall>tx \<in> set txs. transactions_validator E s tx = Some True \<and> druid_info tx = None \<longrightarrow>
        fmlookup (local_tx_pool (cn_raft t)) (construct_tx_hash E tx) = Some tx \<and>
        fmlookup new (construct_tx_hash E tx) = Some tx) \<and>
      (\<forall>h. (\<forall>tx \<in> set txs. transactions_validator E s tx = Some True \<and> druid_info tx = None \<longrightarrow> h \<noteq> construct_tx_hash E tx) \<longrightarrow>
        fmlookup (local_tx_pool (cn_raft t)) h = fmlookup (local_tx_pool (cn_raft s)) h \<and>
        fmlookup new h = fmlookup old h))"
proof (cases "t = s")
  case False
  note i = reachable_node_inv [OF assms(1,2)]
  obtain valid m where v: "filter_valid_txs E s txs = Some valid"
    and a: "local_tx_pool (cn_raft t) = local_tx_pool (cn_raft s) ++\<^sub>f txs_by_hash E False valid"
      "get_local_transactions E (cn_db s) = Some m" "get_local_transactions E (cn_db t) = Some (m ++\<^sub>f txs_by_hash E False valid)"
    using accepted_pool_and_database [OF i assms(2,3) False] by blast
  note set = filter_valid_txs_valid [OF v, rule_format]
  have inj: "inj_on (construct_tx_hash E) (set valid)" using assms(4) by (rule inj_on_subset) (auto simp: set)
  have 1: "fmlookup (txs_by_hash E False valid) (construct_tx_hash E tx) = Some tx"
    if "tx \<in> set txs" "transactions_validator E s tx = Some True" "druid_info tx = None" for tx
    using that txs_by_hash_exact [OF inj] by (simp add: set)
  have 2: "fmlookup (txs_by_hash E False valid) h = None"
    if "\<forall>tx \<in> set txs. transactions_validator E s tx = Some True \<and> druid_info tx = None \<longrightarrow> h \<noteq> construct_tx_hash E tx" for h
    using that txs_by_hash_lookup [of E False valid h] by (cases "fmlookup (txs_by_hash E False valid) h") (auto simp: set)
  show ?thesis
    by (rule disjI2) (use a 1 2 in \<open>auto simp: fmlookup_add fmlookup_dom_iff\<close>)
qed simp

text \<open>C30: the sets of DRUID transactions that a batch moves to the pool to be proposed are complete: they
  share one DRUID, are as many as each of them says, and meet the expectations.\<close>

theorem druid_sets_complete:
  assumes "compute_node_reachable E s" and "ext_ok E" and "receive_transactions E txs s = Some (t, r)"
  shows "\<exists>new. local_tx_druid_pool (cn_raft t) = local_tx_druid_pool (cn_raft s) @ new \<and>
    (\<forall>ready \<in> set new. \<exists>d. ready \<noteq> fmempty \<and> druid_expectations_are_met E d (fmvalues ready) \<and>
      (\<forall>h tx. fmlookup ready h = Some tx \<longrightarrow>
        map_option druid (druid_info tx) = Some d \<and> map_option dde_participants (druid_info tx) = Some (fmlen ready)))"
  using assms(3)
proof (cases rule: receive_transactions_cases)
  case (some valid db pool ready)
  have "druid_pool_ok (druid_pool s)" using reachable_node_inv [OF assms(1,2)] by (simp add: node_inv_def)
  then have ok: "\<forall>x \<in> set ready. ready_ok E x" using validate_dde_loop_ok [OF _ _ some(5)] by simp
  have "local_tx_druid_pool (cn_raft t) = local_tx_druid_pool (cn_raft s) @ map snd (filter fst ready)"
    by (simp add: some(6) local_tx_pool_fold(2)) (simp add: append_to_tx_pool_def)
  moreover have "\<exists>d. set \<noteq> fmempty \<and> druid_expectations_are_met E d (fmvalues set) \<and>
      (\<forall>h tx. fmlookup set h = Some tx \<longrightarrow>
        map_option druid (druid_info tx) = Some d \<and> map_option dde_participants (druid_info tx) = Some (fmlen set))"
    if "(True, set) \<in> List.set ready" for set
    using bspec [OF ok that] by (auto simp: ready_ok_def)
  ultimately show ?thesis by (intro exI [of _ "map snd (filter fst ready)"]) fastforce
qed simp_all

text \<open>C10: a proof of work is passed on to the other nodes only when it is for the block being mined, comes
  from a selected participant, its coinbase pays the current reward and the header with its nonce
  passes the check; and when it wins, the mined block has that header, which passes the check that the
  storage nodes make, and contains the coinbase.\<close>

theorem accepted_pow_makes_valid_block:
  assumes "compute_receive_pow E a bn nonce coinbase s = Some (t, r)" and "cn_raft t \<noteq> cn_raft s"
    and "winning_pow (block_pipeline (consensused (cn_raft u))) = Some (a, info)"
    and "pow_nonce info = nonce" and "mining_tx info = (construct_tx_hash E coinbase, coinbase)"
    and "current_block (block_pipeline (consensused (cn_raft u))) = current_block (block_pipeline (consensused (cn_raft s)))"
    and "mining_block_mined u = Some v"
  shows "Participants_contains (raft_get_mining_participants (cn_raft s)) a \<and> is_coinbase E coinbase \<and>
    (\<exists>pay. outputs coinbase \<noteq> [] \<and> pay = txout_value (hd (outputs coinbase)) \<and>
      token_amount (naom (cext (craft E))) pay = current_reward (block_pipeline (consensused (cn_raft s)))) \<and>
    (\<exists>m. current_mined_block v = Some m \<and> b_num (header (common_block (mined_common m))) = bn \<and>
      validate_pow_block E (header (common_block (mined_common m))) = Some True \<and>
      fmlookup (block_txs (mined_common m)) (construct_tx_hash E coinbase) = Some coinbase)"
proof -
  obtain blk where b: "current_block (block_pipeline (consensused (cn_raft s))) = Some blk" "bn = b_num (header blk)"
      "Participants_contains (raft_get_mining_participants (cn_raft s)) a" "is_coinbase E coinbase"
    and pay: "map_option (token_amount (naom (cext (craft E))) \<circ> txout_value)
        (case outputs coinbase of [] \<Rightarrow> None | o1 # _ \<Rightarrow> Some o1) =
      Some (current_reward (block_pipeline (consensused (cn_raft s))))"
    and ok: "validate_pow_block E (apply_mining_tx (header blk) nonce (construct_tx_hash E coinbase)) = Some True"
    using compute_receive_pow_accepted [OF assms(1)] assms(2) by blast
  obtain m where m: "current_mined_block v = Some m"
      "header (common_block (mined_common m)) = apply_mining_tx (header blk) nonce (construct_tx_hash E coinbase)"
      "fmlookup (block_txs (mined_common m)) (construct_tx_hash E coinbase) = Some coinbase"
    using mining_block_mined_header [OF assms(7) _ assms(3)] assms(4-6) b(1) by auto
  have "b_num (apply_mining_tx (header blk) nonce (construct_tx_hash E coinbase)) = bn"
    using b(2) by (simp add: apply_mining_tx_def)
  moreover have "outputs coinbase \<noteq> [] \<and> token_amount (naom (cext (craft E))) (txout_value (hd (outputs coinbase))) =
      current_reward (block_pipeline (consensused (cn_raft s)))"
    using pay by (cases "outputs coinbase") auto
  ultimately show ?thesis using b(3,4) m ok by auto
qed

text \<open>C31: once the block to pause at is committed the node starts no mining round and sends nothing: not
  after the commit and not when the mining timer fires, until the nodes are resumed.\<close>

theorem paused_node_sends_nothing:
  assumes "handle_committed_mining_block T why s = Some (t, r)"
    and "b_num_to_pause s = Some bn" and "bn \<le> get_current_block_num (cn_raft s)"
  shows "\<exists>u. start_mining E T t = Some u \<and> pause_node u \<and> cn_node u = cn_node s \<and>
    (\<forall>T' v r'. compute_handle_next_event E T' EventMiningTimeout u = Some (v, r') \<longrightarrow>
      cn_node v = cn_node s \<and> pause_node v \<and> disable_trigger_messages v \<and> r' = None) \<and>
    (\<exists>w r'. handle_coordinated_cmd E T ResumeNodes u = Some (w, r') \<and>
      \<not> pause_node w \<and> \<not> disable_trigger_messages w \<and> b_num_to_pause w = None)"
proof -
  have t: "pause_node t \<and> cn_node t = cn_node s"
    using assms by (auto simp: handle_committed_mining_block_def reset_mining_block_process_def
        compute_backup_persistent_dbs_def should_pause_def get_current_block_num_def clear_block_pipeline_proposed_keys_def
        clear_proposed_keys_def Let_def option_bind_Some_iff split: if_splits)
  show ?thesis
    by (rule exI [of _ "t\<lparr>disable_trigger_messages := True\<rparr>"])
      (use t in \<open>auto simp: start_mining_def handle_coordinated_cmd_def option_bind_Some_iff Let_def\<close>)
qed

text \<open>A request for the outputs of some addresses is answered with exactly the unspent outputs that
  these addresses own, when the index by address is exact.\<close>

lemma fetched_utxos_exact:
  assumes "pk_cache_exact (utxo_set (consensused (cn_raft s)))"
    and "fetch_utxo_set peer (FetchAnyOf addresses) User s = (t, r)"
  shows "\<exists>utxos. send_fetched_utxo_set T t = compute_send T peer (ToUserUtxoSet utxos) (s\<lparr>fetched_utxo_set := None\<rparr>) \<and>
    (\<forall>op. fmlookup utxos op =
      (case fmlookup (base (utxo_set (consensused (cn_raft s)))) op of
         Some out \<Rightarrow> (case script_public_key out of
             Some a \<Rightarrow> if a \<in> set addresses then Some out else None | None \<Rightarrow> None)
       | None \<Rightarrow> None))"
proof -
  have t: "t = s\<lparr>fetched_utxo_set := Some (peer, User, utxos_of_addresses (utxo_set (consensused (cn_raft s))) addresses)\<rparr>"
    using assms(2) by (auto simp: fetch_utxo_set_def Let_def)
  show ?thesis
    by (rule exI [of _ "utxos_of_addresses (utxo_set (consensused (cn_raft s))) addresses"])
      (simp add: t send_fetched_utxo_set_def utxos_of_addresses_exact [OF assms(1)])
qed

text \<open>C32: with an active whitelist a miner that is not on it is never let in: its request leaves the list of
  miners as it is and drops its connection, and a flush leaves no connection to such a miner.\<close>

theorem unauthorised_miners_kept_out:
  assumes "get_compute_whitelisting_active (cn_raft s)" and "peer_order_ok E"
  shows "(\<not> check_miner_whitelisted a key s \<longrightarrow>
      (\<exists>t. receive_partition_request E T a key s = Some (t, respond True ''Removing unauthorized miner'') \<and>
        request_list t = request_list s \<and> cn_raft t = cn_raft s \<and> fmlookup (get_peers (cn_node t)) a = None)) \<and>
    (\<exists>t removed. flush_unauthorized_miners E T s = (t, Some removed) \<and>
      (\<forall>miner. fmlookup (get_peers (cn_node t)) miner = Some (Some Miner) \<longrightarrow>
        check_miner_whitelisted miner (get_mining_api_key_entry (cn_raft t) miner) t))"
proof (intro conjI impI)
  assume n: "\<not> check_miner_whitelisted a key s"
  let ?s = "s\<lparr>miners_changed := True\<rparr>"
  have w: "check_miner_whitelisted a key ?s = check_miner_whitelisted a key s"
    by (simp add: check_miner_whitelisted_def)
  have net: "same_but_net ?s (fst (compute_send T a ToMinerNotAuthorized ?s))" by (rule sends_net_fst)
  show "\<exists>t. receive_partition_request E T a key s = Some (t, respond True ''Removing unauthorized miner'') \<and>
      request_list t = request_list s \<and> cn_raft t = cn_raft s \<and> fmlookup (get_peers (cn_node t)) a = None"
    using n w net assms(1)
    by (auto simp: receive_partition_request_def Let_def same_but_net_def get_peers_def disconnect_all_def)
next
  obtain t removed where f: "flush_unauthorized_miners E T s = (t, Some removed)"
    using assms(1) by (cases "flush_unauthorized_loop T (get_connected_miners E s) s") (simp add: flush_unauthorized_miners_def)
  then show "\<exists>t removed. flush_unauthorized_miners E T s = (t, Some removed) \<and>
      (\<forall>miner. fmlookup (get_peers (cn_node t)) miner = Some (Some Miner) \<longrightarrow>
        check_miner_whitelisted miner (get_mining_api_key_entry (cn_raft t) miner) t)"
    using flush_unauthorized_miners_connected [OF assms(2) f] by blast
qed

section \<open>Witnesses\<close>

text \<open>A node that runs alone, with a small codec.\<close>

definition demo_tick :: tick where
  "demo_tick = \<lparr>tick_now = 0, tick_token = 0, tick_rand = [1], tick_next_rand = [2]\<rparr>"

definition demo_local_tx :: Transaction where
  "demo_local_tx = demo_spend [] 3"

definition demo_coinbase :: Transaction where
  "demo_coinbase = (demo_spend [] 0)\<lparr>tx_version := 1\<rparr>"

definition demo_dde_tx :: "nat \<Rightarrow> Transaction" where
  "demo_dde_tx n = (demo_spend [] (of_nat n))\<lparr>druid_info := Some \<lparr>druid = ''d'', dde_participants = 2, expectations = []\<rparr>\<rparr>"

definition demo_node_ext :: compute_node_ext where
  "demo_node_ext =
     \<lparr>header_serialize = (\<lambda>h. Some [ucast (b_num h)]), sha3_256 = (\<lambda>b. 0 # b),
      encode_hex = map (\<lambda>b. if b = 0 then CHR ''0'' else CHR ''1''), build_hex_txs_hash = (\<lambda>_. []),
      addr_display = (\<lambda>_. []), craft = demo_rext, gext = demo_gext, cdb = demo_db_ext,
      addrs_serialize = (\<lambda>S. if S = {|demo_addr|} then Some [5] else None),
      addrs_deserialize = (\<lambda>b. if b = [5] then Some {|demo_addr|} else None),
      run_serialize = (\<lambda>n. Some [ucast n]), run_deserialize = (\<lambda>b. case b of [n] \<Rightarrow> Some (ucast n) | _ \<Rightarrow> None),
      local_tx_serialize = (\<lambda>tx. if tx = demo_local_tx then Some [7] else None),
      local_tx_deserialize = (\<lambda>b. if b = [7] then Some demo_local_tx else None),
      peer_order = sorted_list_of_fset, is_create_tx = (\<lambda>_. False), is_coinbase = (\<lambda>tx. tx_version tx = 1),
      tx_has_valid_create_script = (\<lambda>_ _. False), tx_is_valid = (\<lambda>_ _. True),
      construct_tx_hash = (\<lambda>tx. if tx = demo_local_tx then ''x'' else if tx = demo_dde_tx 0 then ''d0'' else ''d1''),
      druid_expectations_are_met = (\<lambda>_ _. True), get_drs_tx_hash = (\<lambda>_. None),
      Asset_receipt = (\<lambda>_ _ _. Token 0), construct_tx_in_signable_asset_hash = (\<lambda>_. []),
      TxOut_new_asset = (\<lambda>a _. demo_out 0 a), Signature_from_slice = Some,
      Script_new_create_asset = (\<lambda>_ _ _ _. \<lparr>stack = []\<rparr>), construct_tx_core = (\<lambda>_ _. demo_local_tx)\<rparr>"

definition demo_full_config :: ComputeNodeFullConfig where
  "demo_full_config = ComputeNodeConfig.extend (demo_config\<lparr>compute_raft := 0\<rparr>)
     (ComputeNodeFullConfig.fields [V4 0 9090] 1 ''j'' [] None
       \<lparr>whitelist_active = False, miner_api_keys = None, miner_addresses = None\<rparr>)"

definition demo_net :: "compute_msg Node" where
  "demo_net = Node_new_with_version demo_addr 2 Compute 5"

lemma demo_raft_new:
  "\<exists>r. ComputeRaft_new demo_rext demo_gext 0 (demo_config\<lparr>compute_raft := 0\<rparr>) = Some r \<and>
     local_tx_pool r = fmempty \<and> local_tx_druid_pool r = [] \<and> tx_pool (consensused r) = fmempty \<and> proposed_tx_pool_len r = 0 \<and>
     proposed_tx_pool_len_max r = 2000 \<and> proposed_and_consensused_tx_pool_len_max r = 4000 \<and>
     consensused_snapshot_applied r \<and> in_flight r = RaftInFlightProposals_default"
  by (simp add: ComputeRaft_new_def demo_config_def ActiveRaft_new_def peers_len_def fmlen_def
      make_utxo_set_from_seed_def sorted_list_of_fmap_def sorted_list_of_fset.rep_eq
      compute_init_block_pipeline_status_def init_block_pipeline_status_def compute_with_unicorn_fixed_param_def
      with_partition_full_size_def with_peers_len_def ComputeConsensused_default_def with_unicorn_fixed_param_def
      MiningPipelineInfo_default_def BLOCK_SIZE_IN_TX_eq Let_def)

text \<open>The database of a new node, step by step.\<close>

definition demo_db0 :: SimpleDb where "demo_db0 = the (new_db demo_db_ext COMPUTE_DB_SPEC_columns None)"
definition demo_db1 :: SimpleDb where "demo_db1 = fst (the (load_random_num [1] POW_RANDOM_NUM_KEY demo_db0))"
definition demo_db2 :: SimpleDb where "demo_db2 = fst (the (load_random_num [2] POW_PREV_RANDOM_NUM_KEY demo_db1))"
definition demo_db3 :: SimpleDb where "demo_db3 = fst (the (the (load_key_run demo_node_ext demo_db2)))"
definition demo_db4 :: SimpleDb where
  "demo_db4 = the (store_local_transactions demo_node_ext (fmupd ''x'' demo_local_tx fmempty) demo_db3)"

lemma demo_dbs:
  "new_db demo_db_ext COMPUTE_DB_SPEC_columns None = Some demo_db0"
  "load_addrs demo_node_ext REQUEST_LIST_KEY {||} demo_db0 = Some (Some {||})"
  "load_addrs demo_node_ext USER_NOTIFY_LIST_KEY {||} demo_db0 = Some (Some {||})"
  "load_random_num [1] POW_RANDOM_NUM_KEY demo_db0 = Some (demo_db1, [1])"
  "load_random_num [2] POW_PREV_RANDOM_NUM_KEY demo_db1 = Some (demo_db2, [2])"
  "load_key_run demo_node_ext demo_db2 = Some (Some (demo_db3, 0))"
  "get_local_transactions demo_node_ext demo_db3 = Some fmempty"
  "store_local_transactions demo_node_ext (fmupd ''x'' demo_local_tx fmempty) demo_db3 = Some demo_db4"
  by code_simp+

lemma demo_ext_ok: "ext_ok demo_node_ext"
proof -
  have "utf8_valid (as_bytes ''x'')" "utf8_valid (as_bytes ''d0'')" "utf8_valid (as_bytes ''d1'')" by code_simp+
  then show ?thesis
    using demo_codec_inverts by (simp add: ext_ok_def node_codec_ok_def demo_node_ext_def)
qed

lemma demo_full_config_simps [simp]:
  "compute_node_idx demo_full_config = 0" "compute_nodes demo_full_config = [demo_addr]"
  "compute_storage_nodes demo_full_config = [V4 0 9090]" "compute_minimum_miner_pool_len demo_full_config = 1"
  "ComputeNodeConfig.truncate demo_full_config = demo_config\<lparr>compute_raft := 0\<rparr>"
  by (simp_all add: demo_full_config_def ComputeNodeConfig.defs ComputeNodeFullConfig.defs demo_config_def)

lemma demo_constructed:
  assumes "new_db demo_db_ext COMPUTE_DB_SPEC_columns old = Some db0"
    and "load_addrs demo_node_ext REQUEST_LIST_KEY {||} db0 = Some (Some {||})"
    and "load_addrs demo_node_ext USER_NOTIFY_LIST_KEY {||} db0 = Some (Some {||})"
    and "load_random_num [1] POW_RANDOM_NUM_KEY db0 = Some (db1, cur)"
    and "load_random_num [2] POW_PREV_RANDOM_NUM_KEY db1 = Some (db2, prev)"
    and "load_key_run demo_node_ext db2 = Some (Some (db3, run))"
    and "get_local_transactions demo_node_ext db3 = Some txs"
  shows "\<exists>s. ComputeNode_new demo_node_ext demo_tick demo_full_config demo_net old = Some (Inr s) \<and>
     cn_db s = db3 \<and> druid_pool s = fmempty \<and> \<not> need_initial_state (cn_raft s) \<and>
     combined_tx_pool_len (cn_raft s) = fmlen txs \<and>
     local_tx_pool (cn_raft s) = txs \<and> local_tx_druid_pool (cn_raft s) = [] \<and> last_id (cn_raft s) = 0"
proof -
  obtain r where r: "ComputeRaft_new demo_rext demo_gext 0 (demo_config\<lparr>compute_raft := 0\<rparr>) = Some r"
    and f: "local_tx_pool r = fmempty" "local_tx_druid_pool r = []" "tx_pool (consensused r) = fmempty" "proposed_tx_pool_len r = 0"
     "consensused_snapshot_applied r" "in_flight r = RaftInFlightProposals_default"
    using demo_raft_new by blast
  have e: "craft demo_node_ext = demo_rext" "gext demo_node_ext = demo_gext" "cdb demo_node_ext = demo_db_ext"
    by (simp_all add: demo_node_ext_def)
  have "\<exists>s. ComputeNode_new demo_node_ext demo_tick demo_full_config demo_net old = Some (Inr s) \<and>
     cn_db s = db3 \<and> druid_pool s = fmempty \<and> cn_raft s = append_to_tx_pool (set_key_run r run) txs"
    by (simp add: ComputeNode_new_def demo_tick_def compute_load_local_db_def check_first_flood_def Let_def r e assms)
  then obtain s where s: "ComputeNode_new demo_node_ext demo_tick demo_full_config demo_net old = Some (Inr s)"
     "cn_db s = db3" "druid_pool s = fmempty" "cn_raft s = append_to_tx_pool (set_key_run r run) txs" by blast
  then show ?thesis
    using f by (intro exI [of _ s]) (auto simp: append_to_tx_pool_def set_key_run_def in_flight_set_key_run_def
        combined_tx_pool_len_def need_initial_state_def RaftInFlightProposals_default_def
        proposed_and_consensused_tx_pool_len_def fmlen_def)
qed

lemma demo_node_started:
  "\<exists>s. ComputeNode_new demo_node_ext demo_tick demo_full_config demo_net None = Some (Inr s) \<and>
     compute_node_reachable demo_node_ext s \<and> cn_db s = demo_db3 \<and> druid_pool s = fmempty \<and>
     combined_tx_pool_len (cn_raft s) = 0 \<and> \<not> need_initial_state (cn_raft s) \<and>
     local_tx_pool (cn_raft s) = fmempty \<and> local_tx_druid_pool (cn_raft s) = [] \<and> last_id (cn_raft s) = 0"
proof -
  obtain s where s: "ComputeNode_new demo_node_ext demo_tick demo_full_config demo_net None = Some (Inr s)" "cn_db s = demo_db3"
     "druid_pool s = fmempty" "\<not> need_initial_state (cn_raft s)" "combined_tx_pool_len (cn_raft s) = fmlen (fmempty :: TxMap)"
     "local_tx_pool (cn_raft s) = fmempty" "local_tx_druid_pool (cn_raft s) = []" "last_id (cn_raft s) = 0"
    using demo_constructed [OF demo_dbs(1-7)] by blast
  have "compute_node_reachable demo_node_ext s" by (rule compute_node_reachable.start [OF s(1)]) simp
  then show ?thesis using s by (auto simp: fmlen_def)
qed

text \<open>One transaction received, and the node with it started again.\<close>

lemma demo_received:
  "\<exists>s t. compute_node_reachable demo_node_ext s \<and> compute_node_reachable demo_node_ext t \<and>
    receive_transactions demo_node_ext [demo_local_tx] s = Some (t, respond True ''Transactions added to tx pool'') \<and>
    local_tx_pool (cn_raft s) = fmempty \<and> local_tx_pool (cn_raft t) = fmupd ''x'' demo_local_tx fmempty \<and> cn_db t = demo_db4 \<and>
    transactions_validator demo_node_ext s demo_local_tx = Some True"
proof -
  obtain s where s: "compute_node_reachable demo_node_ext s" "cn_db s = demo_db3" "druid_pool s = fmempty"
      "combined_tx_pool_len (cn_raft s) = 0" "local_tx_pool (cn_raft s) = fmempty" "\<not> need_initial_state (cn_raft s)" "last_id (cn_raft s) = 0"
    using demo_node_started by blast
  have v: "transactions_validator demo_node_ext s demo_local_tx = Some True" and h: "construct_tx_hash demo_node_ext demo_local_tx = ''x''"
    and d: "druid_info demo_local_tx = None"
    by (simp_all add: transactions_validator_def demo_node_ext_def demo_local_tx_def demo_spend_def)
  have "\<exists>t. receive_transactions demo_node_ext [demo_local_tx] s = Some (t, respond True ''Transactions added to tx pool'') \<and>
      local_tx_pool (cn_raft t) = fmupd ''x'' demo_local_tx fmempty \<and> cn_db t = demo_db4"
    using s
    by (simp add: receive_transactions_def tx_pool_can_accept_def TX_POOL_LIMIT_def v h d demo_dbs fmextend_def fmlen_def
        validate_dde_txs_def sorted_list_of_fmap_def sorted_list_of_fset.rep_eq append_to_tx_pool_def)
  then obtain t where t: "receive_transactions demo_node_ext [demo_local_tx] s = Some (t, respond True ''Transactions added to tx pool'')"
      "local_tx_pool (cn_raft t) = fmupd ''x'' demo_local_tx fmempty" "cn_db t = demo_db4" by blast
  have step: "compute_node_step demo_node_ext demo_tick (EventCall (ApiSendTransactions [demo_local_tx])) s = Some t"
    by (simp add: compute_node_step_def t(1))
  have "compute_node_reachable demo_node_ext t"
    by (rule compute_node_reachable.event [OF s(1) _ _ _ step])
      (use s in \<open>simp_all add: compute_event_enabled_def\<close>)
  then show ?thesis using s t v by blast
qed

definition demo_db5 :: SimpleDb where "demo_db5 = fst (the (load_random_num [1] POW_RANDOM_NUM_KEY demo_db4))"
definition demo_db6 :: SimpleDb where "demo_db6 = fst (the (load_random_num [2] POW_PREV_RANDOM_NUM_KEY demo_db5))"
definition demo_db7 :: SimpleDb where "demo_db7 = fst (the (the (load_key_run demo_node_ext demo_db6)))"

lemma demo_restart_dbs:
  "new_db demo_db_ext COMPUTE_DB_SPEC_columns (Some demo_db4) = Some demo_db4"
  "load_addrs demo_node_ext REQUEST_LIST_KEY {||} demo_db4 = Some (Some {||})"
  "load_addrs demo_node_ext USER_NOTIFY_LIST_KEY {||} demo_db4 = Some (Some {||})"
  "load_random_num [1] POW_RANDOM_NUM_KEY demo_db4 = Some (demo_db5, [1])"
  "load_random_num [2] POW_PREV_RANDOM_NUM_KEY demo_db5 = Some (demo_db6, [2])"
  "load_key_run demo_node_ext demo_db6 = Some (Some (demo_db7, 1))"
  "get_local_transactions demo_node_ext demo_db7 = Some (fmupd ''x'' demo_local_tx fmempty)"
  by code_simp+

theorem received_transactions_kept_witness:
  "\<exists>s t r new. compute_node_reachable demo_node_ext s \<and> receive_transactions demo_node_ext [demo_local_tx] s = Some (t, r) \<and>
     fmlookup (local_tx_pool (cn_raft t)) ''x'' = Some demo_local_tx \<and>
     get_local_transactions demo_node_ext (cn_db t) = Some new \<and> fmlookup new ''x'' = Some demo_local_tx"
proof -
  obtain s t where s: "compute_node_reachable demo_node_ext s" "local_tx_pool (cn_raft s) = fmempty"
    and t: "receive_transactions demo_node_ext [demo_local_tx] s = Some (t, respond True ''Transactions added to tx pool'')"
      "local_tx_pool (cn_raft t) = fmupd ''x'' demo_local_tx fmempty" "transactions_validator demo_node_ext s demo_local_tx = Some True"
    using demo_received by blast
  have d: "construct_tx_hash demo_node_ext demo_local_tx = ''x''" "druid_info demo_local_tx = None"
    by (simp_all add: demo_node_ext_def demo_local_tx_def demo_spend_def)
  have "t \<noteq> s" using t(2) s(2) by (metis fmdom_empty fmdom_fmupd finsert_not_fempty)
  then show ?thesis
    using received_transactions_kept [OF s(1) demo_ext_ok t(1)] s(1) t d by auto
qed

theorem compute_node_invariant_witness:
  "\<exists>s. compute_node_reachable demo_node_ext s \<and> fmlookup (local_tx_pool (cn_raft s)) ''x'' = Some demo_local_tx \<and>
     tx_pool_inv demo_rext (cn_raft s) \<and> get_local_transactions demo_node_ext (cn_db s) \<noteq> None"
proof -
  obtain t where r: "compute_node_reachable demo_node_ext t" "local_tx_pool (cn_raft t) = fmupd ''x'' demo_local_tx fmempty"
    using demo_received by blast
  from compute_node_invariant [OF r(1) demo_ext_ok] show ?thesis
    using r by (intro exI [of _ t]) (simp add: stored_ok_def demo_node_ext_def)
qed

theorem compute_restart_restores_witness:
  "\<exists>s t. compute_node_reachable demo_node_ext s \<and>
     ComputeNode_new demo_node_ext demo_tick demo_full_config demo_net (Some (cn_db s)) = Some (Inr t) \<and>
     local_tx_pool (cn_raft t) = fmupd ''x'' demo_local_tx fmempty \<and> current_random_num t = current_random_num s"
proof -
  obtain s where s: "compute_node_reachable demo_node_ext s" "cn_db s = demo_db4" using demo_received by blast
  obtain t where t: "ComputeNode_new demo_node_ext demo_tick demo_full_config demo_net (Some (cn_db s)) = Some (Inr t)"
      "local_tx_pool (cn_raft t) = fmupd ''x'' demo_local_tx fmempty"
    using demo_constructed [OF demo_restart_dbs] s(2) by auto
  from compute_restart_restores [OF s(1) demo_ext_ok t(1)] show ?thesis using s(1) t by blast
qed

lemma demo_dde_loop:
  "(\<lambda>(pool, ready). (fmlen pool, map (\<lambda>(ok, m). (ok, fmkeys m)) ready))
     (validate_dde_loop demo_node_ext (sorted_list_of_fmap (fmupd ''d1'' (demo_dde_tx 1) (fmupd ''d0'' (demo_dde_tx 0) fmempty))) fmempty []) =
   (0, [(True, [''d0'', ''d1''])])"
  by code_simp

lemma demo_store_none: "store_local_transactions demo_node_ext fmempty demo_db3 \<noteq> None"
  by code_simp

theorem druid_sets_complete_witness:
  "\<exists>s t r ready. compute_node_reachable demo_node_ext s \<and>
     receive_transactions demo_node_ext [demo_dde_tx 0, demo_dde_tx 1] s = Some (t, r) \<and>
     local_tx_druid_pool (cn_raft t) = [ready] \<and> fmkeys ready = [''d0'', ''d1''] \<and>
     (\<forall>h tx. fmlookup ready h = Some tx \<longrightarrow> map_option dde_participants (druid_info tx) = Some (fmlen ready))"
proof -
  obtain s where s: "compute_node_reachable demo_node_ext s" "cn_db s = demo_db3" "druid_pool s = fmempty"
      "combined_tx_pool_len (cn_raft s) = 0" "local_tx_druid_pool (cn_raft s) = []"
    using demo_node_started by blast
  let ?txs = "fmupd ''d1'' (demo_dde_tx 1) (fmupd ''d0'' (demo_dde_tx 0) fmempty)"
  have d: "demo_dde_tx 0 \<noteq> demo_local_tx" "demo_dde_tx 1 \<noteq> demo_local_tx" "demo_dde_tx 1 \<noteq> demo_dde_tx 0"
    by code_simp+
  have v: "transactions_validator demo_node_ext s (demo_dde_tx n) = Some True"
    "druid_info (demo_dde_tx n) = Some \<lparr>druid = ''d'', dde_participants = 2, expectations = []\<rparr>" for n
    by (simp_all add: transactions_validator_def demo_node_ext_def demo_dde_tx_def demo_spend_def)
  have h: "construct_tx_hash demo_node_ext (demo_dde_tx 0) = ''d0''" "construct_tx_hash demo_node_ext (demo_dde_tx 1) = ''d1''"
    using d by (simp_all add: demo_node_ext_def)
  obtain db where db: "store_local_transactions demo_node_ext fmempty demo_db3 = Some db" using demo_store_none by blast
  obtain pool ready where l: "validate_dde_loop demo_node_ext (sorted_list_of_fmap ?txs) fmempty [] = (pool, [(True, ready)])"
    and k: "fmkeys ready = [''d0'', ''d1'']"
    using demo_dde_loop
    by (cases "validate_dde_loop demo_node_ext (sorted_list_of_fmap ?txs) fmempty []") auto
  have "\<exists>t r. receive_transactions demo_node_ext [demo_dde_tx 0, demo_dde_tx 1] s = Some (t, r) \<and>
      local_tx_druid_pool (cn_raft t) = [ready]"
    using s v h db l
    by (simp add: receive_transactions_def tx_pool_can_accept_def TX_POOL_LIMIT_def fmextend_def fmlen_def
        validate_dde_txs_def append_to_tx_pool_def append_to_tx_druid_pool_def Let_def)
  then obtain t r where t: "receive_transactions demo_node_ext [demo_dde_tx 0, demo_dde_tx 1] s = Some (t, r)"
      "local_tx_druid_pool (cn_raft t) = [ready]" by blast
  from druid_sets_complete [OF s(1) demo_ext_ok t(1)] show ?thesis using s t k by auto
qed

text \<open>A node in the middle of a round: block 4 is being mined by one miner, who is connected.\<close>

definition demo_miner :: SocketAddr where
  "demo_miner = V4 7 7070"

definition demo_block4 :: Block where
  "demo_block4 = \<lparr>header = \<lparr>header_version = 0, bits = 0, nonce_and_mining_tx_hash = ([], []), b_num = 4, seed_value = [],
     previous_hash = None, txs_merkle_root_and_hash = ([], [])\<rparr>, transactions = []\<rparr>"

definition demo_mining :: ComputeConsensused where
  "demo_mining = demo_cstate\<lparr>block_pipeline := (block_pipeline demo_cstate)\<lparr>
     participants_mining := fmupd 1 \<lparr>unsorted = [demo_miner], lookup = {|demo_miner|}\<rparr> fmempty,
     mining_pipeline_status := AllItemsIntake, current_block := Some demo_block4\<rparr>,
     miner_whitelist := \<lparr>whitelist_active = True, miner_api_keys = Some {|''k''|}, miner_addresses = None\<rparr>\<rparr>"

definition demo_any_codec :: compute_node_ext where
  "demo_any_codec = demo_node_ext\<lparr>craft := demo_rext\<lparr>codec := demo_rcodec\<lparr>item_serialize := \<lambda>_. Some [9]\<rparr>\<rparr>\<rparr>"

definition demo_busy :: ComputeNode where
  "demo_busy = \<lparr>shared_config = \<lparr>shared_mining_event_timeout = 0, shared_partition_full_size = 1,
       shared_miner_whitelist = \<lparr>whitelist_active = True, miner_api_keys = Some {|''k''|}, miner_addresses = None\<rparr>\<rparr>,
     received_shared_config = None, received_runtime_data = None, cn_node = demo_net,
     cn_raft = \<lparr>first_raft_peer = True, raft_active = the (ActiveRaft_new 0 [demo_addr] False), consensused = demo_mining,
        consensused_snapshot_applied = True, local_initial_proposal = None, local_tx_pool = fmempty, local_tx_druid_pool = [],
        local_tx_hash_last_commited = [], propose_transactions_timeout_duration = 0, propose_transactions_timeout_at = 0,
        propose_mining_event_timeout_duration = 0, propose_mining_event_timeout_at = 0,
        in_flight = in_flight_set_key_run RaftInFlightProposals_default 0, proposed_tx_pool_len = 0, proposed_tx_pool_len_max = 9,
        proposed_and_consensused_tx_pool_len_max = 9, shutdown_no_commit_process = False,
        backup_check = \<lparr>backup_modulo_block_num = None\<rparr>, utxo_re_align_check = \<lparr>re_align_modulo_block_num = None\<rparr>\<rparr>,
     cn_db = demo_db3, b_num_to_pause = Some 4, pause_node = False, disable_trigger_messages = False, jurisdiction = [],
     current_mined_block = None, druid_pool = fmempty, previous_random_num = [1], current_random_num = [2],
     current_trigger_messages_count = 0, enable_trigger_messages_pipeline_reset = False, miners_changed = False,
     partition_full_size = 1, request_list = {|demo_miner|}, request_list_first_flood = None, miner_removal_list = {||},
     storage_addr = V4 0 9090, sanction_list = [], user_notification_list = {||}, coordinated_shutdown = - 1,
     compute_shutdown_group = {||}, fetched_utxo_set = None\<rparr>"

lemma demo_pow_received:
  "map_option (\<lambda>(t, r). (r, last_id (cn_raft t))) (compute_receive_pow demo_any_codec demo_miner 4 [3] demo_coinbase demo_busy) =
   Some (Some (respond True ''Received PoW successfully''), 1)"
  by code_simp

definition demo_won :: ComputeNode where
  "demo_won = demo_busy\<lparr>cn_raft := (cn_raft demo_busy)\<lparr>consensused := demo_mining\<lparr>block_pipeline :=
     (block_pipeline demo_mining)\<lparr>winning_pow :=
       Some (demo_miner, \<lparr>pow_nonce = [3], mining_tx = (''d1'', demo_coinbase), p_value = 0, d_value = 0\<rparr>)\<rparr>\<rparr>\<rparr>\<rparr>"

lemma demo_block_mined: "map_option (\<lambda>v. current_mined_block v \<noteq> None) (mining_block_mined demo_won) = Some True"
  by code_simp

lemma demo_pause_committed:
  "map_option (\<lambda>(t, r). pause_node t) (handle_committed_mining_block demo_tick ''Block committed'' demo_busy) = Some True"
  by code_simp

theorem accepted_pow_makes_valid_block_witness:
  "\<exists>t r v m. compute_receive_pow demo_any_codec demo_miner 4 [3] demo_coinbase demo_busy = Some (t, r) \<and>
     mining_block_mined demo_won = Some v \<and> current_mined_block v = Some m \<and>
     validate_pow_block demo_any_codec (header (common_block (mined_common m))) = Some True"
proof -
  obtain t r where t: "compute_receive_pow demo_any_codec demo_miner 4 [3] demo_coinbase demo_busy = Some (t, r)" "last_id (cn_raft t) = 1"
    using demo_pow_received by auto
  have "last_id (cn_raft demo_busy) = 0" by code_simp
  then have "cn_raft t \<noteq> cn_raft demo_busy" using t(2) by (metis zero_neq_one)
  moreover obtain v where v: "mining_block_mined demo_won = Some v" using demo_block_mined by auto
  moreover have "construct_tx_hash demo_any_codec demo_coinbase = ''d1''" by code_simp
  ultimately show ?thesis
    using accepted_pow_makes_valid_block [OF t(1) _ _ _ _ _ v,
        of "\<lparr>pow_nonce = [3], mining_tx = (''d1'', demo_coinbase), p_value = 0, d_value = 0\<rparr>"] t(1)
    by (auto simp: demo_won_def demo_busy_def)
qed

lemma demo_paused_timeout:
  "map_option (\<lambda>(t, r). compute_handle_next_event demo_any_codec demo_tick EventMiningTimeout (t\<lparr>disable_trigger_messages := True\<rparr>) \<noteq> None)
     (handle_committed_mining_block demo_tick ''Block committed'' demo_busy) = Some True"
  by code_simp

theorem paused_node_sends_nothing_witness:
  "\<exists>t r u v r'. handle_committed_mining_block demo_tick ''Block committed'' demo_busy = Some (t, r) \<and>
     start_mining demo_any_codec demo_tick t = Some u \<and>
     compute_handle_next_event demo_any_codec demo_tick EventMiningTimeout u = Some (v, r') \<and>
     cn_node v = cn_node demo_busy \<and> pause_node v"
proof -
  obtain t r where t: "handle_committed_mining_block demo_tick ''Block committed'' demo_busy = Some (t, r)" "pause_node t"
    using demo_pause_committed by auto
  have "b_num_to_pause demo_busy = Some 4" "4 \<le> get_current_block_num (cn_raft demo_busy)" by code_simp+
  from paused_node_sends_nothing [OF t(1) this, of demo_any_codec] obtain u where
      u: "start_mining demo_any_codec demo_tick t = Some u"
      "\<forall>T' v r'. compute_handle_next_event demo_any_codec T' EventMiningTimeout u = Some (v, r') \<longrightarrow>
        cn_node v = cn_node demo_busy \<and> pause_node v \<and> disable_trigger_messages v \<and> r' = None"
    by blast
  have "u = t\<lparr>disable_trigger_messages := True\<rparr>" using u(1) t(2) by (simp add: start_mining_def)
  then obtain v r' where "compute_handle_next_event demo_any_codec demo_tick EventMiningTimeout u = Some (v, r')"
    using demo_paused_timeout t(1) by auto
  then show ?thesis using t(1) u by blast
qed

lemma fetched_utxos_exact_demo:
  "\<exists>utxos. send_fetched_utxo_set demo_tick (fst (fetch_utxo_set demo_miner (FetchAnyOf [''a'']) User demo_busy)) =
       compute_send demo_tick demo_miner (ToUserUtxoSet utxos) (demo_busy\<lparr>fetched_utxo_set := None\<rparr>) \<and>
     fmlookup utxos (demo_op ''t'' 0) = Some (demo_out 3 ''a'')"
proof -
  have u: "utxo_set (consensused (cn_raft demo_busy)) = TrackedUtxoSet_new demo_utxo"
    by (simp add: demo_busy_def demo_mining_def demo_cstate_def)
  then have e: "pk_cache_exact (utxo_set (consensused (cn_raft demo_busy)))" by (simp add: new_exact)
  obtain t r where t: "fetch_utxo_set demo_miner (FetchAnyOf [''a'']) User demo_busy = (t, r)" by fastforce
  have "fmlookup (base (TrackedUtxoSet_new demo_utxo)) (demo_op ''t'' 0) = Some (demo_out 3 ''a'')" by code_simp
  moreover have "script_public_key (demo_out 3 ''a'') = Some ''a''" by code_simp
  ultimately show ?thesis using fetched_utxos_exact [OF e t, of demo_tick] t u by auto
qed

definition demo_guarded :: ComputeNode where
  "demo_guarded = demo_busy\<lparr>cn_node := demo_net\<lparr>node_peers := fmupd demo_miner
     \<lparr>peer_network_version = Some 5, peer_remote_addr = demo_miner, peer_type = Some Miner, peer_public_address = None,
      notify_tx = True, notify_rx = RxWaiting\<rparr> fmempty\<rparr>\<rparr>"

theorem unauthorised_miners_kept_out_witness:
  "fmlookup (get_peers (cn_node demo_guarded)) demo_miner = Some (Some Miner) \<and>
   (\<exists>t r. receive_partition_request demo_any_codec demo_tick demo_miner (Some ''q'') demo_guarded = Some (t, r) \<and>
     fmlookup (get_peers (cn_node t)) demo_miner = None) \<and>
   (\<exists>t removed. flush_unauthorized_miners demo_any_codec demo_tick demo_guarded = (t, Some removed) \<and>
     fmlookup (get_peers (cn_node t)) demo_miner \<noteq> Some (Some Miner))"
proof -
  have a: "get_compute_whitelisting_active (cn_raft demo_guarded)" by code_simp
  have o: "peer_order_ok demo_any_codec"
    by (simp add: peer_order_ok_def demo_any_codec_def demo_node_ext_def)
  have w: "\<not> check_miner_whitelisted demo_miner (Some ''q'') demo_guarded" by code_simp
  have p: "fmlookup (get_peers (cn_node demo_guarded)) demo_miner = Some (Some Miner)" by code_simp
  note x = unauthorised_miners_kept_out [OF a o, of demo_miner "Some ''q''" demo_tick]
  obtain t removed where t: "flush_unauthorized_miners demo_any_codec demo_tick demo_guarded = (t, Some removed)"
    and m: "fmlookup (get_peers (cn_node t)) demo_miner = Some (Some Miner) \<Longrightarrow>
      check_miner_whitelisted demo_miner (get_mining_api_key_entry (cn_raft t) demo_miner) t"
    using x by blast
  have "\<not> check_miner_whitelisted demo_miner (get_mining_api_key_entry (cn_raft demo_guarded) demo_miner) demo_guarded"
    by code_simp
  then have "\<not> check_miner_whitelisted demo_miner (get_mining_api_key_entry (cn_raft t) demo_miner) t"
    using check_miner_whitelisted_net [OF flush_unauthorized_net [OF t]] flush_unauthorized_net [OF t]
    by (auto simp: same_but_net_def)
  then show ?thesis using x w p t m by blast
qed

end
