(* ===== verification/Tx_Gen.thy ===== *)
theory Tx_Gen
  imports Wallet_Db "HOL-Library.Sublist"
begin

text \<open>
  The generator of valid transactions that a user node can run (\<^verbatim>\<open>src/transaction_gen.rs\<close>): the outpoints
  of its addresses that are ready to be spent, and the transactions made of them that are pending until
  their block is seen. The blockchain library and the serialisation of its state are parameters
  (\<open>gen_ext\<close>).
\<close>

section \<open>Model\<close>

type_synonym PendingMap = "(string, Transaction \<times> (string \<times> OutPoint \<times> TokenAmount) list) fmap"
type_synonym ReadyMap = "(string, (OutPoint \<times> TokenAmount) list) fmap"

record TransactionsKeys =
  gen_pk :: bytes
  gen_sk :: bytes
  gen_address :: string
  gen_version :: "u64 option"

record TransactionGen =
  addr_to_keys :: "(string, TransactionsKeys) fmap"
  up_to_date_with_snapshot :: bool
  gen_pending :: PendingMap
  gen_ready :: ReadyMap
  from_to_address :: "(string \<times> string) list"

record gen_ext = wallet_ext +
  NETWORK_VERSION :: u32
  gen_construct_tx_core :: "TxIn list \<Rightarrow> TxOut list \<Rightarrow> Transaction"
  gen_serialize :: "PendingMap \<times> ReadyMap \<Rightarrow> bytes may_panic"
  gen_deserialize :: "bytes \<Rightarrow> (PendingMap \<times> ReadyMap) may_panic"

abbreviation gwallet :: "'e gen_ext_scheme \<Rightarrow> wallet_ext" where
  "gwallet G \<equiv> wallet_ext.truncate G"

subsection \<open>A transaction with given inputs and outputs\<close>

definition create_valid_transaction_with_ins_outs ::
    "'e gen_ext_scheme \<Rightarrow> (i32 \<times> string) list \<Rightarrow> string list \<Rightarrow> bytes \<Rightarrow> bytes \<Rightarrow> TokenAmount \<Rightarrow> u64 option \<Rightarrow>
     string \<times> Transaction" where
  "create_valid_transaction_with_ins_outs G tx_in receivers pk sk amount v =
     (let tx_in_cons = map (\<lambda>(prev_n, hash).
            let signable = \<lparr>t_hash = hash, out_n = prev_n\<rparr>
            in \<lparr>tc_previous_out = signable,
                tc_signatures = [sign_detached G (as_bytes (construct_tx_in_signable_hash G signable)) sk],
                tc_pub_keys = [pk], tc_address_version = v\<rparr>) tx_in;
          tx_ins = construct_payment_tx_ins G tx_in_cons;
          tx_outs = map (\<lambda>addr. \<lparr>txout_value = Token amount, locktime = 0, drs_block_hash = None,
                                 script_public_key = Some addr\<rparr>) receivers;
          payment_tx = gen_construct_tx_core G tx_ins tx_outs
      in (wallet_tx_hash G payment_tx, payment_tx))"

subsection \<open>Construction\<close>

text \<open>The loop over the seeds: keys, ready outpoints, old and new addresses.\<close>

definition add_keys :: "bytes \<Rightarrow> bytes \<Rightarrow> string \<Rightarrow> u64 option \<Rightarrow> (string, TransactionsKeys) fmap \<Rightarrow> (string, TransactionsKeys) fmap" where
  "add_keys pk sk address v keys = fmupd address \<lparr>gen_pk = pk, gen_sk = sk, gen_address = address, gen_version = v\<rparr> keys"

fun gen_seeds ::
    "'e gen_ext_scheme \<Rightarrow> WalletTxSpec list \<Rightarrow> (string, TransactionsKeys) fmap \<Rightarrow> ReadyMap \<Rightarrow> string fset \<Rightarrow> string fset \<Rightarrow>
     ((string, TransactionsKeys) fmap \<times> ReadyMap \<times> string fset \<times> string fset) may_panic" where
  "gen_seeds G [] keys ready old new = Some (keys, ready, old, new)"
| "gen_seeds G (spec # specs) keys ready old new =
     do { (out_p, pk, sk, amount, v) \<leftarrow> make_wallet_tx_info (gwallet G) spec;
          let address = construct_address_for G pk v;
          let current = construct_address (wgen G) pk;
          let (keys, ready, new) =
            (if v \<noteq> None then (add_keys pk sk current None keys, fmentry [] current id ready, finsert current new)
             else (keys, ready, new));
          let (old, new) = (if v \<noteq> None then (finsert address old, new) else (old, finsert address new));
          gen_seeds G specs (add_keys pk sk address v keys) (fmentry [] address (\<lambda>l. l @ [(out_p, amount)]) ready) old new }"

text \<open>\<open>iter().cycle().skip(1)\<close>, as far as it is used.\<close>

definition cycle_skip_1 :: "'a list \<Rightarrow> nat \<Rightarrow> 'a list" where
  "cycle_skip_1 xs n = (if xs = [] then [] else map (\<lambda>i. xs ! (Suc i mod length xs)) [0..<n])"

definition TransactionGen_new :: "'e gen_ext_scheme \<Rightarrow> WalletTxSpec list \<Rightarrow> TransactionGen may_panic" where
  "TransactionGen_new G specs =
     do { (keys, ready, old, new) \<leftarrow> gen_seeds G specs fmempty fmempty {||} {||};
          let new = sorted_list_of_fset new;
          let old = sorted_list_of_fset old;
          Some \<lparr>addr_to_keys = keys, up_to_date_with_snapshot = False, gen_pending = fmempty, gen_ready = ready,
                from_to_address = zip new (cycle_skip_1 new (length new)) @ zip old (cycle_skip_1 new (length old))\<rparr> }"

subsection \<open>Snapshots\<close>

definition snapshot_state :: "'e gen_ext_scheme \<Rightarrow> TransactionGen \<Rightarrow> (TransactionGen \<times> bytes) may_panic" where
  "snapshot_state G self =
     do { let self = self\<lparr>up_to_date_with_snapshot := True\<rparr>;
          ser \<leftarrow> gen_serialize G (gen_pending self, gen_ready self);
          Some (self, ser) }"

fun push_ready :: "(string \<times> OutPoint \<times> TokenAmount) list \<Rightarrow> ReadyMap \<Rightarrow> ReadyMap may_panic" where
  "push_ready [] ready = Some ready"
| "push_ready ((address, out_p, amount) # rest) ready =
     do { l \<leftarrow> fmlookup ready address; push_ready rest (fmupd address (l @ [(out_p, amount)]) ready) }"

text \<open>The loop over the pending transactions: those of another version are ready again.\<close>

fun keep_pending ::
    "'e gen_ext_scheme \<Rightarrow> (string \<times> Transaction \<times> (string \<times> OutPoint \<times> TokenAmount) list) list \<Rightarrow> PendingMap \<Rightarrow> ReadyMap \<Rightarrow>
     (PendingMap \<times> ReadyMap) may_panic" where
  "keep_pending G [] pending ready = Some (pending, ready)"
| "keep_pending G ((tx_hash, tx, src) # rest) pending ready =
     (if tx_version tx = unat (NETWORK_VERSION G) then keep_pending G rest (fmupd tx_hash (tx, src) pending) ready
      else do { ready \<leftarrow> push_ready src ready; keep_pending G rest pending ready })"

definition apply_snapshot_state :: "'e gen_ext_scheme \<Rightarrow> bytes \<Rightarrow> TransactionGen \<Rightarrow> TransactionGen may_panic" where
  "apply_snapshot_state G snapshot self =
     do { (pending, ready) \<leftarrow> gen_deserialize G snapshot;
          (pending, ready) \<leftarrow> keep_pending G (sorted_list_of_fmap pending) fmempty ready;
          Some (self\<lparr>gen_pending := pending, gen_ready := ready, up_to_date_with_snapshot := True\<rparr>) }"

subsection \<open>Transactions\<close>

fun take_pending ::
    "string list \<Rightarrow> PendingMap \<Rightarrow> PendingMap \<times> (string \<times> Transaction) list" where
  "take_pending [] pending = (pending, [])"
| "take_pending (h # hs) pending =
     (case fmlookup pending h of
        None \<Rightarrow> take_pending hs pending
      | Some (tx, _) \<Rightarrow> let (pending, txs) = take_pending hs (fmdrop h pending) in (pending, (h, tx) # txs))"

definition commit_transactions :: "'e gen_ext_scheme \<Rightarrow> string list \<Rightarrow> TransactionGen \<Rightarrow> TransactionGen" where
  "commit_transactions G hashes self =
     (let (pending, txs) = take_pending hashes (gen_pending self)
      in self\<lparr>gen_pending := pending,
              gen_ready := fmmap_keys (\<lambda>addr l. l @
                map (\<lambda>(out_p, tx_out). (out_p, token_amount G (txout_value tx_out)))
                  (filter (\<lambda>(_, tx_out). Some addr = script_public_key tx_out) (tx_outs_of G txs))) (gen_ready self)\<rparr>)"

definition make_transaction ::
    "'e gen_ext_scheme \<Rightarrow> string \<Rightarrow> string \<Rightarrow> nat \<Rightarrow> TransactionGen \<Rightarrow> (TransactionGen \<times> (string \<times> Transaction) option) may_panic" where
  "make_transaction G from to input_len self =
     (case fmlookup (gen_ready self) from of
        None \<Rightarrow> Some (self, None)
      | Some ready \<Rightarrow>
          let input_len = min (length ready) input_len in
          if input_len = 0 then Some (self, None)
          else do {
            let ins = take input_len ready;
            let self = self\<lparr>gen_ready := fmupd from (drop input_len ready) (gen_ready self)\<rparr>;
            let outs = sum_list (map snd ins);
            keys \<leftarrow> fmlookup (addr_to_keys self) from;
            let (hash, tx) = create_valid_transaction_with_ins_outs G (map (\<lambda>(out_p, _). (out_n out_p, t_hash out_p)) ins)
              (replicate (unat outs) to) (gen_pk keys) (gen_sk keys) 1 (gen_version keys);
            Some (self\<lparr>gen_pending := fmupd hash (tx, map (\<lambda>(p, a). (from, p, a)) ins) (gen_pending self)\<rparr>, Some (hash, tx)) })"


definition ready_of :: "TransactionGen \<Rightarrow> string \<Rightarrow> (OutPoint \<times> TokenAmount) list" where
  "ready_of self from = (case fmlookup (gen_ready self) from of None \<Rightarrow> [] | Some l \<Rightarrow> l)"

lemma make_transaction_cases:
  assumes "make_transaction G from to n s = Some (t, r)"
  obtains "r = None" and "t = s"
  | hash tx ins where "r = Some (hash, tx)" and "ready_of s from = ins @ ready_of t from" and "ins \<noteq> []"
    and "from |\<in>| fmdom (gen_ready s)" and "gen_ready t = fmupd from (ready_of t from) (gen_ready s)"
    and "gen_pending t = fmupd hash (tx, map (\<lambda>(p, a). (from, p, a)) ins) (gen_pending s)"
    and "addr_to_keys t = addr_to_keys s" and "from_to_address t = from_to_address s"
    and "\<exists>keys :: TransactionsKeys. (hash, tx) = create_valid_transaction_with_ins_outs G (map (\<lambda>(p, _). (out_n p, t_hash p)) ins)
      (replicate (unat (sum_list (map snd ins))) to) (gen_pk keys) (gen_sk keys) 1 (gen_version keys)"
proof (cases "fmlookup (gen_ready s) from")
  case None
  then show thesis using assms that(1) by (simp add: make_transaction_def)
next
  case (Some ready)
  show thesis
  proof (cases "min (length ready) n = 0")
    case True
    then show thesis using assms that(1) Some by (auto simp: make_transaction_def Let_def)
  next
    case False
    let ?ins = "take (min (length ready) n) ready"
    let ?outs = "replicate (unat (sum_list (map snd ?ins))) to"
    obtain keys where k: "fmlookup (addr_to_keys s) from = Some keys"
      using assms Some False by (auto simp: make_transaction_def Let_def option_bind_Some_iff)
    obtain hash tx where c: "create_valid_transaction_with_ins_outs G (map (\<lambda>(p, _). (out_n p, t_hash p)) ?ins) ?outs (gen_pk keys) (gen_sk keys) 1
        (gen_version keys) = (hash, tx)" by fastforce
    have t: "t = s\<lparr>gen_ready := fmupd from (drop (min (length ready) n) ready) (gen_ready s),
        gen_pending := fmupd hash (tx, map (\<lambda>(p, a). (from, p, a)) ?ins) (gen_pending s)\<rparr>" and r: "r = Some (hash, tx)"
      using assms Some False k c by (simp_all add: make_transaction_def Let_def split: if_splits)
    have k': "\<exists>keys :: TransactionsKeys. (hash, tx) = create_valid_transaction_with_ins_outs G (map (\<lambda>(p, _). (out_n p, t_hash p)) ?ins) ?outs (gen_pk keys)
        (gen_sk keys) 1 (gen_version keys)" using c [symmetric] by (rule exI)
    show thesis by (rule that(2) [OF r _ _ _ _ _ _ _ k']) (use Some False t in \<open>simp_all add: ready_of_def fmdomI\<close>)
  qed
qed

text \<open>
  The inner loop of \<open>make_all_transactions\<close> ends: each turn takes at least one outpoint off the ready ones.
\<close>

function make_from ::
    "'e gen_ext_scheme \<Rightarrow> string \<Rightarrow> string \<Rightarrow> nat \<Rightarrow> nat \<Rightarrow> (string \<times> Transaction) list \<Rightarrow> TransactionGen \<Rightarrow>
     (TransactionGen \<times> (string \<times> Transaction) list) may_panic" where
  "make_from G from to input_len total_tx all_txs self =
     (case make_transaction G from to input_len self of
        None \<Rightarrow> None
      | Some (self', None) \<Rightarrow> Some (self', all_txs)
      | Some (self', Some tx) \<Rightarrow>
          if total_tx \<le> length (all_txs @ [tx]) then Some (self', all_txs @ [tx])
          else make_from G from to input_len total_tx (all_txs @ [tx]) self')"
  by pat_completeness auto

termination
proof (relation "measure (\<lambda>(G, from, to, n, k, txs, self). length (ready_of self from))", goal_cases)
  case (2 G src dst n k txs self p self' r tx)
  then have "make_transaction G src dst n self = Some (self', Some tx)" by simp
  then show ?case by (rule make_transaction_cases) auto
qed simp

declare make_from.simps [simp del]

fun make_all_loop ::
    "'e gen_ext_scheme \<Rightarrow> nat option \<Rightarrow> nat \<Rightarrow> (string \<times> string) list \<Rightarrow> (string \<times> Transaction) list \<Rightarrow> TransactionGen \<Rightarrow>
     (TransactionGen \<times> (string \<times> Transaction) list) may_panic" where
  "make_all_loop G chunk_size total_tx [] all_txs self = Some (self, all_txs)"
| "make_all_loop G chunk_size total_tx ((from, to) # rest) all_txs self =
     (if total_tx \<le> length all_txs then Some (self, all_txs)
      else do {
        let input_len = (case chunk_size of None \<Rightarrow> total_tx - length all_txs | Some n \<Rightarrow> n);
        (self, all_txs) \<leftarrow> make_from G from to input_len total_tx all_txs self;
        make_all_loop G chunk_size total_tx rest all_txs self })"

definition make_all_transactions ::
    "'e gen_ext_scheme \<Rightarrow> nat option \<Rightarrow> nat \<Rightarrow> TransactionGen \<Rightarrow> (TransactionGen \<times> (string \<times> Transaction) list) may_panic" where
  "make_all_transactions G chunk_size total_tx self = make_all_loop G chunk_size total_tx (from_to_address self) [] self"

section \<open>What the generator spends\<close>

text \<open>The outpoints a run takes off the ready ones of each address are taken from the front, each once.\<close>

definition spends_front :: "TransactionGen \<Rightarrow> TransactionGen \<Rightarrow> bool" where
  "spends_front s t \<longleftrightarrow> (\<forall>a. suffix (ready_of t a) (ready_of s a)) \<and> addr_to_keys t = addr_to_keys s \<and>
     from_to_address t = from_to_address s"

lemma spends_front_trans: "spends_front s t \<Longrightarrow> spends_front t u \<Longrightarrow> spends_front s u"
  by (auto simp: spends_front_def intro: suffix_order.trans)

lemma make_transaction_front:
  assumes "make_transaction G src dst n s = Some (t, r)"
  shows "spends_front s t"
  using assms
proof (cases rule: make_transaction_cases)
  case (2 hash tx ins)
  have "suffix (ready_of t a) (ready_of s a)" for a
  proof (cases "a = src")
    case False
    have "fmlookup (gen_ready t) a = fmlookup (gen_ready s) a" by (subst 2(5)) (use False in simp)
    then show ?thesis by (simp add: ready_of_def)
  qed (use 2(2) in \<open>simp add: suffix_def\<close>)
  then show ?thesis using 2(7,8) by (simp add: spends_front_def)
qed (simp add: spends_front_def)

lemma make_from_front:
  assumes "make_from G src dst n k txs s = Some (t, txs')" and "length txs < k"
  shows "spends_front s t \<and> (\<exists>new. txs' = txs @ new) \<and> length txs' \<le> k"
  using assms
proof (induction G src dst n k txs s rule: make_from.induct)
  case (1 G src dst n k txs s)
  obtain s1 r where m: "make_transaction G src dst n s = Some (s1, r)"
    using 1(2) by (subst (asm) make_from.simps) (auto split: option.splits)
  note f = make_transaction_front [OF m]
  show ?case
  proof (cases r)
    case None
    then show ?thesis using 1(2,3) m f by (subst (asm) make_from.simps) auto
  next
    case (Some tx)
    then have e: "(if k \<le> length (txs @ [tx]) then Some (s1, txs @ [tx]) else make_from G src dst n k (txs @ [tx]) s1) = Some (t, txs')"
      using 1(2) m by (subst (asm) make_from.simps) simp
    show ?thesis
    proof (cases "k \<le> length (txs @ [tx])")
      case True
      then show ?thesis using e f 1(3) by auto
    next
      case False
      then have "spends_front s1 t \<and> (\<exists>new. txs' = (txs @ [tx]) @ new) \<and> length txs' \<le> k"
        using 1(1) [OF m refl Some] e by simp
      then show ?thesis using spends_front_trans [OF f] by auto
    qed
  qed
qed

lemma make_all_loop_front:
  assumes "make_all_loop G chunk k pairs txs s = Some (t, txs')" and "length txs \<le> k"
  shows "spends_front s t \<and> length txs' \<le> k"
  using assms
proof (induction pairs arbitrary: txs s)
  case Nil
  then show ?case by (simp add: spends_front_def)
next
  case (Cons p pairs)
  obtain src dst where p: "p = (src, dst)" by (cases p)
  show ?case
  proof (cases "k \<le> length txs")
    case True
    then show ?thesis using Cons.prems p by (auto simp: spends_front_def)
  next
    case False
    then obtain n s1 txs1 where m: "make_from G src dst n k txs s = Some (s1, txs1)" "make_all_loop G chunk k pairs txs1 s1 = Some (t, txs')"
      using Cons.prems(1) p by (auto simp: option_bind_Some_iff Let_def)
    then show ?thesis using make_from_front [OF m(1)] Cons.IH [OF m(2)] spends_front_trans False by fastforce
  qed
qed

lemma make_all_transactions_bounded:
  assumes "make_all_transactions G chunk k s = Some (t, txs)"
  shows "length txs \<le> k" and "suffix (ready_of t a) (ready_of s a)"
  using make_all_loop_front [OF assms [unfolded make_all_transactions_def]] by (auto simp: spends_front_def)

text \<open>How many outpoints are ready: each transaction takes some.\<close>

definition gen_size :: "TransactionGen \<Rightarrow> nat" where
  "gen_size self = (\<Sum>a \<in> fset (fmdom (gen_ready self)). length (ready_of self a))"

lemma make_transaction_size:
  assumes "make_transaction G src dst n s = Some (t, r)"
  shows "gen_size t \<le> gen_size s" and "r \<noteq> None \<Longrightarrow> gen_size t < gen_size s"
proof -
  have "if r = None then t = s else gen_size t < gen_size s"
    using assms
  proof (cases rule: make_transaction_cases)
    case (2 hash tx ins)
    have d: "fmdom (gen_ready t) = fmdom (gen_ready s)" by (subst 2(5)) (use 2(4) in auto)
    have o: "ready_of t a = ready_of s a" if "a \<noteq> src" for a
    proof -
      have "fmlookup (gen_ready t) a = fmlookup (gen_ready s) a" by (subst 2(5)) (use that in simp)
      then show ?thesis by (simp add: ready_of_def)
    qed
    let ?d = "fset (fmdom (gen_ready s))"
    have "(\<Sum>a \<in> ?d. length (ready_of t a)) < (\<Sum>a \<in> ?d. length (ready_of s a))"
    proof (rule sum_strict_mono_ex1)
      show "\<forall>a \<in> ?d. length (ready_of t a) \<le> length (ready_of s a)" using o 2(2) by (metis le_add2 length_append order_refl)
      show "\<exists>a \<in> ?d. length (ready_of t a) < length (ready_of s a)" using 2(2-4) by (intro bexI [of _ src]) auto
    qed simp
    then show ?thesis using 2(1) d by (simp add: gen_size_def)
  qed simp
  then show "gen_size t \<le> gen_size s" and "r \<noteq> None \<Longrightarrow> gen_size t < gen_size s" by (auto split: if_splits)
qed

lemma make_from_size:
  assumes "make_from G src dst n k txs s = Some (t, txs')"
  shows "gen_size t \<le> gen_size s \<and> (txs' = txs \<or> gen_size t < gen_size s)"
  using assms
proof (induction G src dst n k txs s rule: make_from.induct)
  case (1 G src dst n k txs s)
  obtain s1 r where m: "make_transaction G src dst n s = Some (s1, r)"
    using 1(2) by (subst (asm) make_from.simps) (auto split: option.splits)
  show ?case
  proof (cases r)
    case None
    then show ?thesis using 1(2) m make_transaction_size(1) [OF m] by (subst (asm) make_from.simps) auto
  next
    case (Some tx)
    then have e: "(if k \<le> length (txs @ [tx]) then Some (s1, txs @ [tx]) else make_from G src dst n k (txs @ [tx]) s1) = Some (t, txs')"
      using 1(2) m by (subst (asm) make_from.simps) simp
    have "gen_size s1 < gen_size s" using make_transaction_size(2) [OF m] Some by simp
    then show ?thesis using e 1(1) [OF m refl Some] by (auto split: if_splits)
  qed
qed

lemma make_all_loop_size:
  assumes "make_all_loop G chunk k pairs txs s = Some (t, txs')"
  shows "gen_size t \<le> gen_size s \<and> (txs' = txs \<or> gen_size t < gen_size s)"
  using assms
proof (induction pairs arbitrary: txs s)
  case (Cons p pairs)
  obtain src dst where p: "p = (src, dst)" by (cases p)
  show ?case
  proof (cases "k \<le> length txs")
    case False
    then obtain n s1 txs1 where m: "make_from G src dst n k txs s = Some (s1, txs1)" "make_all_loop G chunk k pairs txs1 s1 = Some (t, txs')"
      using Cons.prems(1) p by (auto simp: option_bind_Some_iff Let_def)
    then show ?thesis using make_from_size [OF m(1)] Cons.IH [OF m(2)] by auto
  qed (use Cons.prems p in auto)
qed simp

lemma make_all_transactions_size:
  "make_all_transactions G chunk k s = Some (t, txs) \<Longrightarrow> txs \<noteq> [] \<Longrightarrow> gen_size t < gen_size s"
  using make_all_loop_size [of G chunk k "from_to_address s" "[]" s t txs] by (auto simp: make_all_transactions_def)

end
