(* ===== verification/User_Node.thy ===== *)
theory User_Node
  imports Tx_Gen Compute_Node
begin

text \<open>
  The user node (\<^verbatim>\<open>src/user.rs\<close>): payments to addresses and to peers, receipt-based payments between two
  users, the creation of receipts, the update of the wallet from the UTXO set, the notifications of the
  compute node, and the generator of test transactions. Its state is the wallet (\<open>WalletDb\<close>), its network
  node (\<open>Node\<close>) and the payment in progress. The blockchain library is a parameter (\<open>user_ext\<close>); what the
  network does while a connection is made, and random values, are in the \<open>user_tick\<close> of an event. The
  channel to a user interface is not modelled.
\<close>

section \<open>Model\<close>

subsection \<open>Data\<close>

definition TX_GENERATOR_KEY :: string where "TX_GENERATOR_KEY = ''TxGeneratorKey''"

datatype UserError =
    UserConfigError string | UserNetwork CommsError | UserAsyncTask | UserSerialization | UserWalletError WalletDbError

type_synonym 'a user_result = "UserError + 'a"

record AutoGenTx =
  tx_generator :: TransactionGen
  tx_chunk_size :: "nat option"
  tx_in_per_tx :: "nat option"
  tx_max_count :: nat

record PendingPayment =
  pending_amount :: TokenAmount
  pending_locktime :: "u64 option"

datatype AutoDonate = Disabled | Enabled TokenAmount

record RbPaymentData =
  rb_sender_asset :: Asset
  rb_sender_half_druid :: string
  rb_tx_ins :: "TxIn list"
  rb_tx_outs :: "TxOut list"

record RbPaymentRequestData =
  rq_sender_address :: string
  rq_sender_half_druid :: string
  rq_sender_from_addr :: string
  rq_sender_asset :: Asset
  rq_sender_drs_tx_expectation :: "string option"

record RbPaymentResponseData =
  rs_receiver_address :: string
  rs_receiver_half_druid :: string
  rs_sender_druid_expectation :: DruidExpectation

datatype UserApiRequest =
    UApiSendCreateReceiptRequest u64 DrsTxHashSpec "string option"
  | UpdateWalletFromUtxoSet UtxoFetchType
  | RequestDonation SocketAddr
  | MakeIpPayment SocketAddr TokenAmount "u64 option"
  | MakePayment string TokenAmount "u64 option"
  | MakePaymentWithExcessAddress string TokenAmount string "u64 option"
  | GenerateNewAddress
  | GetConnectionStatus
  | ConnectToCompute
  | DisconnectFromCompute
  | DeleteAddresses "string fset"
  | MergeAddresses "string fset" "string option"

datatype UserRequest =
    UserApi UserApiRequest
  | SendRbPaymentRequest RbPaymentRequestData
  | SendRbPaymentResponse "RbPaymentResponseData option"
  | SendAddressRequest
  | SendPaymentAddress string
  | SendPaymentTransaction Transaction
  | UserSendUtxoSet UtxoSet
  | BlockMining Block
  | UserClosing

text \<open>What a user node sends, by the type of the receiver.\<close>

datatype user_msg = UToCompute ComputeRequest | UToUser UserRequest

record UserNode =
  un_node :: "user_msg Node"
  un_wallet :: WalletDb
  compute_addr :: SocketAddr
  trading_peer :: "SocketAddr option"
  next_payment :: "(SocketAddr option \<times> Transaction) option"
  last_block_notified :: Block
  test_auto_gen_tx :: "AutoGenTx option"
  received_utxo_set :: "UtxoSet option"
  pending_payments :: "(SocketAddr, PendingPayment) fmap \<times> AutoDonate"
  next_rb_payment_response :: "(SocketAddr \<times> RbPaymentResponseData option) option"
  next_rb_payment_data :: "RbPaymentData option"
  next_rb_payment :: "(SocketAddr option \<times> Transaction) option"

record user_ext = gen_ext +
  Block_default :: Block
  user_Asset_receipt :: "u64 \<Rightarrow> string option \<Rightarrow> string option \<Rightarrow> Asset"
  construct_tx_ins_address :: "TxIn list \<Rightarrow> string"
  construct_rb_receive_payment_tx ::
    "TxIn list \<Rightarrow> TxOut list \<Rightarrow> string \<Rightarrow> u64 \<Rightarrow> string \<Rightarrow> DruidExpectation list \<Rightarrow> string option \<Rightarrow> Transaction"
  construct_rb_payments_send_tx ::
    "TxIn list \<Rightarrow> TxOut list \<Rightarrow> string \<Rightarrow> TokenAmount \<Rightarrow> u64 \<Rightarrow> string \<Rightarrow> DruidExpectation list \<Rightarrow> Transaction"
  construct_receipt_create_tx ::
    "u64 \<Rightarrow> bytes \<Rightarrow> bytes \<Rightarrow> u64 \<Rightarrow> DrsTxHashSpec \<Rightarrow> string option \<Rightarrow> Transaction"

abbreviation uwallet :: "user_ext \<Rightarrow> wallet_ext" where
  "uwallet U \<equiv> wallet_ext.truncate U"

text \<open>
  \<open>ut_stream\<close> is the outcome of opening a connection, \<open>ut_wait\<close> the network node when the handshake is
  answered, if it is in time, and \<open>ut_join\<close> whether the tasks of a disconnected peer end well.
  \<open>ut_rand\<close> and \<open>ut_rand2\<close> are for the first and the second address an event generates.
\<close>

record user_tick =
  ut_token :: Token
  ut_stream :: "SocketAddr comms_result"
  ut_wait :: "user_msg Node \<Rightarrow> user_msg Node option"
  ut_join :: bool
  ut_rand :: wallet_rand
  ut_rand2 :: wallet_rand
  ut_half_druid :: string

subsection \<open>The network\<close>

definition user_send :: "user_tick \<Rightarrow> SocketAddr \<Rightarrow> user_msg \<Rightarrow> UserNode \<Rightarrow> UserNode \<times> unit user_result" where
  "user_send T peer msg self =
     (case send (ut_token T) peer msg (un_node self) of
        (n, Inl e) \<Rightarrow> (self\<lparr>un_node := n\<rparr>, Inl (UserNetwork e))
      | (n, Inr _) \<Rightarrow> (self\<lparr>un_node := n\<rparr>, Inr ()))"

text \<open>\<open>Node::connect_to\<close>: connecting, sending the handshake, waiting for its response.\<close>

definition node_connect_to :: "user_tick \<Rightarrow> SocketAddr \<Rightarrow> user_msg Node \<Rightarrow> user_msg Node \<times> unit comms_result" where
  "node_connect_to T peer self =
     (case connect_to_peer (ut_stream T) peer self of
        (self, Inl e) \<Rightarrow> (self, Inl e)
      | (self, Inr _) \<Rightarrow>
          (case send_handshake peer self of
             (self, Inl e) \<Rightarrow> (self, Inl e)
           | (self, Inr _) \<Rightarrow>
               (case take_handshake_receiver peer self of
                  (self, Inl e) \<Rightarrow> (self, Inl e)
                | (self, Inr _) \<Rightarrow>
                    (case ut_wait T self of
                       Some self \<Rightarrow> (self, Inr ())
                     | None \<Rightarrow> handshake_timeout peer self))))"

definition user_connect_to :: "user_tick \<Rightarrow> SocketAddr \<Rightarrow> UserNode \<Rightarrow> UserNode \<times> unit user_result" where
  "user_connect_to T peer self =
     (case node_connect_to T peer (un_node self) of
        (n, Inl e) \<Rightarrow> (self\<lparr>un_node := n\<rparr>, Inl (UserNetwork e))
      | (n, Inr _) \<Rightarrow> (self\<lparr>un_node := n\<rparr>, Inr ()))"

definition user_is_disconnected :: "UserNode \<Rightarrow> bool" where
  "user_is_disconnected self \<longleftrightarrow> unconnected_peers [compute_addr self] (un_node self) \<noteq> []"

definition user_connect_info_peers :: "UserNode \<Rightarrow> SocketAddr list \<times> SocketAddr list" where
  "user_connect_info_peers self = ([compute_addr self], [compute_addr self])"

definition is_test_auto_gen_tx_active :: "UserNode \<Rightarrow> bool" where
  "is_test_auto_gen_tx_active self \<longleftrightarrow> test_auto_gen_tx self \<noteq> None"

definition user_send_transactions_to_compute ::
    "user_tick \<Rightarrow> SocketAddr \<Rightarrow> Transaction list \<Rightarrow> UserNode \<Rightarrow> UserNode \<times> unit user_result" where
  "user_send_transactions_to_compute T peer txs self = user_send T peer (UToCompute (SendTransactions txs)) self"

definition user_send_request_utxo_set ::
    "user_tick \<Rightarrow> UtxoFetchType \<Rightarrow> SocketAddr \<Rightarrow> NodeType \<Rightarrow> UserNode \<Rightarrow> UserNode \<times> unit user_result" where
  "user_send_request_utxo_set T addrs peer t self = user_send T peer (UToCompute (SendUtxoRequest addrs t)) self"

definition send_block_notification_request :: "user_tick \<Rightarrow> UserNode \<Rightarrow> UserNode \<times> unit user_result" where
  "send_block_notification_request T self = user_send T (compute_addr self) (UToCompute SendUserBlockNotificationRequest) self"

definition user_send_startup_requests :: "user_tick \<Rightarrow> UserNode \<Rightarrow> UserNode \<times> unit user_result" where
  "user_send_startup_requests T self =
     (if is_test_auto_gen_tx_active self then send_block_notification_request T self else (self, Inr ()))"

definition send_payment_to_receiver :: "user_tick \<Rightarrow> SocketAddr \<Rightarrow> Transaction \<Rightarrow> UserNode \<Rightarrow> UserNode \<times> unit user_result" where
  "send_payment_to_receiver T peer tx self = user_send T peer (UToUser (SendPaymentTransaction tx)) self"

subsection \<open>Payments\<close>

abbreviation notified_b_num :: "UserNode \<Rightarrow> u64" where
  "notified_b_num self \<equiv> b_num (header (last_block_notified self))"

definition user_store_payment :: "user_ext \<Rightarrow> Transaction \<Rightarrow> UserNode \<Rightarrow> UserNode may_panic" where
  "user_store_payment U tx self =
     do { w \<leftarrow> store_payment_transaction (uwallet U) tx (notified_b_num self) (un_wallet self);
          Some (self\<lparr>un_wallet := w\<rparr>) }"

definition send_next_payment_to_destinations ::
    "user_ext \<Rightarrow> user_tick \<Rightarrow> SocketAddr \<Rightarrow> UserNode \<Rightarrow> (UserNode \<times> unit user_result) may_panic" where
  "send_next_payment_to_destinations U T compute_peer self =
     do { (peer, tx) \<leftarrow> next_payment self;
          let self = self\<lparr>next_payment := None\<rparr>;
          case user_send_transactions_to_compute T compute_peer [tx] self of
            (self, Inl e) \<Rightarrow> Some (self, Inl e)
          | (self, Inr _) \<Rightarrow> do {
              self \<leftarrow> user_store_payment U tx self;
              Some (case peer of Some p \<Rightarrow> send_payment_to_receiver T p tx self | None \<Rightarrow> (self, Inr ())) } }"

definition send_next_rb_transaction_to_destinations ::
    "user_ext \<Rightarrow> user_tick \<Rightarrow> SocketAddr \<Rightarrow> UserNode \<Rightarrow> (UserNode \<times> unit user_result) may_panic" where
  "send_next_rb_transaction_to_destinations U T compute_peer self =
     do { (peer, tx) \<leftarrow> next_rb_payment self;
          let self = self\<lparr>next_rb_payment := None\<rparr>;
          self \<leftarrow> user_store_payment U tx self;
          Some (case user_send T compute_peer (UToCompute (SendTransactions [tx])) self of
              (self, Inl e) \<Rightarrow> (self, Inl e)
            | (self, Inr _) \<Rightarrow>
                (case peer of Some p \<Rightarrow> send_payment_to_receiver T p tx self | None \<Rightarrow> (self, Inr ()))) }"

definition request_utxo_set_for_wallet_update ::
    "user_tick \<Rightarrow> UtxoFetchType \<Rightarrow> UserNode \<Rightarrow> UserNode \<times> Response option" where
  "request_utxo_set_for_wallet_update T address_list self =
     (case user_send_request_utxo_set T address_list (compute_addr self) User self of
        (self, Inl _) \<Rightarrow> (self, None)
      | (self, Inr _) \<Rightarrow> (self, Some (respond True ''Request UTXO set'')))"

definition user_receive_utxo_set :: "UtxoSet \<Rightarrow> UserNode \<Rightarrow> UserNode \<times> Response" where
  "user_receive_utxo_set utxos self =
     (self\<lparr>received_utxo_set := Some utxos\<rparr>, respond True ''Received UTXO set'')"

definition user_update_running_total :: "user_ext \<Rightarrow> UserNode \<Rightarrow> UserNode may_panic" where
  "user_update_running_total U self =
     do { let utxos = (case received_utxo_set self of None \<Rightarrow> [] | Some s \<Rightarrow> sorted_list_of_fmap s);
          let self = self\<lparr>received_utxo_set := None\<rparr>;
          payments \<leftarrow> get_paiments_for_wallet_from_utxo utxos;
          (w, _) \<leftarrow> save_usable_payments_to_wallet (uwallet U) payments (notified_b_num self) (un_wallet self);
          Some (self\<lparr>un_wallet := w\<rparr>) }"

definition user_generate_payment_address ::
    "user_ext \<Rightarrow> wallet_rand \<Rightarrow> UserNode \<Rightarrow> (UserNode \<times> string \<times> AddressStore) may_panic" where
  "user_generate_payment_address U R self =
     do { (w, r) \<leftarrow> generate_payment_address (uwallet U) R (un_wallet self); Some (self\<lparr>un_wallet := w\<rparr>, r) }"

definition send_address_to_trading_peer ::
    "user_ext \<Rightarrow> user_tick \<Rightarrow> UserNode \<Rightarrow> (UserNode \<times> unit user_result) may_panic" where
  "send_address_to_trading_peer U T self =
     do { peer \<leftarrow> trading_peer self;
          let self = self\<lparr>trading_peer := None\<rparr>;
          (self, address, _) \<leftarrow> user_generate_payment_address U (ut_rand T) self;
          Some (user_send T peer (UToUser (SendPaymentAddress address)) self) }"

definition send_donation_address_to_peer ::
    "user_ext \<Rightarrow> user_tick \<Rightarrow> SocketAddr \<Rightarrow> UserNode \<Rightarrow> (UserNode \<times> unit user_result) may_panic" where
  "send_donation_address_to_peer U T peer self = send_address_to_trading_peer U T (self\<lparr>trading_peer := Some peer\<rparr>)"

definition request_donation_from_peer ::
    "user_ext \<Rightarrow> user_tick \<Rightarrow> SocketAddr \<Rightarrow> UserNode \<Rightarrow> (UserNode \<times> Response option) may_panic" where
  "request_donation_from_peer U T peer self =
     (case user_connect_to T peer self of
        (self, Inl _) \<Rightarrow> Some (self, None)
      | (self, Inr _) \<Rightarrow> do {
          (self, r) \<leftarrow> send_donation_address_to_peer U T peer self;
          Some (self, case r of Inl _ \<Rightarrow> None | Inr _ \<Rightarrow> Some (respond True ''Donation Requested'')) })"

definition send_address_request ::
    "user_tick \<Rightarrow> SocketAddr \<Rightarrow> TokenAmount \<Rightarrow> u64 option \<Rightarrow> UserNode \<Rightarrow> UserNode \<times> unit user_result" where
  "send_address_request T peer amount lt self =
     (let (pending, donate) = pending_payments self;
          self = self\<lparr>pending_payments :=
            (fmupd peer \<lparr>pending_amount = amount, pending_locktime = lt\<rparr> pending, donate)\<rparr>
      in user_send T peer (UToUser SendAddressRequest) self)"

definition request_payment_address_for_peer ::
    "user_tick \<Rightarrow> SocketAddr \<Rightarrow> TokenAmount \<Rightarrow> u64 option \<Rightarrow> UserNode \<Rightarrow> UserNode \<times> Response option" where
  "request_payment_address_for_peer T peer amount lt self =
     (case send_address_request T peer amount lt self of
        (self, Inl _) \<Rightarrow> (self, None)
      | (self, Inr _) \<Rightarrow> (self, Some (respond True ''Request Payment Address'')))"

definition receive_payment_transaction :: "user_ext \<Rightarrow> Transaction \<Rightarrow> UserNode \<Rightarrow> (UserNode \<times> Response) may_panic" where
  "receive_payment_transaction U tx self =
     do { self \<leftarrow> user_store_payment U tx self; Some (self, respond True ''Payment transaction received'') }"

definition make_payment_transactions_provided_excess ::
    "user_ext \<Rightarrow> user_tick \<Rightarrow> SocketAddr option \<Rightarrow> string \<Rightarrow> TokenAmount \<Rightarrow> string option \<Rightarrow> u64 option \<Rightarrow> UserNode \<Rightarrow>
     (UserNode \<times> Response) may_panic" where
  "make_payment_transactions_provided_excess U T peer address amount excess_address lt self =
     do { let tx_out = (TxOut_new_token_amount (wgen U) address amount)\<lparr>locktime := (case lt of None \<Rightarrow> 0 | Some n \<Rightarrow> n)\<rparr>;
          (w, r) \<leftarrow> fetch_tx_ins_and_tx_outs_provided_excess (uwallet U) (ut_rand T) (Token amount) [tx_out] excess_address
            (un_wallet self);
          let self = self\<lparr>un_wallet := w\<rparr>;
          Some (case r of
              Inl _ \<Rightarrow> (self, respond False ''Insufficient funds for payment'')
            | Inr (tx_ins, tx_outs) \<Rightarrow>
                (self\<lparr>next_payment := Some (peer, gen_construct_tx_core U tx_ins tx_outs)\<rparr>,
                 respond True ''Next payment transaction ready'')) }"

definition make_payment_transactions ::
    "user_ext \<Rightarrow> user_tick \<Rightarrow> SocketAddr option \<Rightarrow> string \<Rightarrow> TokenAmount \<Rightarrow> u64 option \<Rightarrow> UserNode \<Rightarrow>
     (UserNode \<times> Response) may_panic" where
  "make_payment_transactions U T peer address amount lt self =
     make_payment_transactions_provided_excess U T peer address amount None lt self"

definition make_merged_payment_transaction_from_input_addrs ::
    "user_ext \<Rightarrow> user_tick \<Rightarrow> string fset \<Rightarrow> string option \<Rightarrow> UserNode \<Rightarrow> (UserNode \<times> Response) may_panic" where
  "make_merged_payment_transaction_from_input_addrs U T input_addresses excess_address self =
     do { (w, tx_ins, tx_outs) \<leftarrow>
            fetch_tx_ins_and_tx_outs_merge_input_addrs (uwallet U) (ut_rand T) input_addresses excess_address (un_wallet self);
          Some (self\<lparr>un_wallet := w, next_payment := Some (None, gen_construct_tx_core U tx_ins tx_outs)\<rparr>,
                respond True ''Next payment transaction ready'') }"

definition process_pending_payment_transactions ::
    "user_ext \<Rightarrow> user_tick \<Rightarrow> SocketAddr \<Rightarrow> string \<Rightarrow> UserNode \<Rightarrow> (UserNode \<times> Response option) may_panic" where
  "process_pending_payment_transactions U T peer address self =
     (let (pending, donate) = pending_payments self;
          found = fmlookup pending peer;
          self = self\<lparr>pending_payments := (fmdrop peer pending, donate)\<rparr>
      in case (found, donate) of
          (Some p, _) \<Rightarrow> do {
            (self, r) \<leftarrow> make_payment_transactions U T (Some peer) address (pending_amount p) (pending_locktime p) self;
            Some (self, Some r) }
        | (None, Enabled amount) \<Rightarrow> do {
            (self, r) \<leftarrow> make_payment_transactions U T (Some peer) address amount None self;
            Some (self, Some r) }
        | (None, Disabled) \<Rightarrow> Some (self, Some (respond False ''Ignore unexpected transaction'')))"

subsection \<open>Receipt-based payments\<close>

definition make_rb_payment_send_tx_and_request ::
    "user_ext \<Rightarrow> Asset \<Rightarrow> TxIn list \<times> TxOut list \<Rightarrow> string \<Rightarrow> string \<Rightarrow> string option \<Rightarrow> RbPaymentData \<times> RbPaymentRequestData" where
  "make_rb_payment_send_tx_and_request U asset ins_outs half_druid address drs =
     (let (tx_ins, tx_outs) = ins_outs
      in (\<lparr>rb_sender_asset = asset, rb_sender_half_druid = half_druid, rb_tx_ins = tx_ins, rb_tx_outs = tx_outs\<rparr>,
          \<lparr>rq_sender_address = address, rq_sender_half_druid = half_druid,
           rq_sender_from_addr = construct_tx_ins_address U tx_ins, rq_sender_asset = asset,
           rq_sender_drs_tx_expectation = drs\<rparr>))"

definition make_rb_payment_receipt_tx_and_response ::
    "user_ext \<Rightarrow> RbPaymentRequestData \<Rightarrow> TxIn list \<times> TxOut list \<Rightarrow> string \<Rightarrow> string \<Rightarrow> Transaction \<times> RbPaymentResponseData" where
  "make_rb_payment_receipt_tx_and_response U rq ins_outs half_druid address =
     (let (tx_ins, tx_outs) = ins_outs;
          druid = rq_sender_half_druid rq @ half_druid;
          receiver_from_addr = construct_tx_ins_address U tx_ins;
          sender_expectation = \<lparr>exp_from = receiver_from_addr, exp_to = rq_sender_address rq,
             exp_asset = user_Asset_receipt U 1 (rq_sender_drs_tx_expectation rq) None\<rparr>;
          receiver_expectation = \<lparr>exp_from = rq_sender_from_addr rq, exp_to = address, exp_asset = rq_sender_asset rq\<rparr>
      in (construct_rb_receive_payment_tx U tx_ins tx_outs (rq_sender_address rq) 0 druid [receiver_expectation]
            (rq_sender_drs_tx_expectation rq),
          \<lparr>rs_receiver_address = address, rs_receiver_half_druid = half_druid,
           rs_sender_druid_expectation = sender_expectation\<rparr>))"

definition make_rb_payment_send_transaction :: "user_ext \<Rightarrow> RbPaymentResponseData \<Rightarrow> RbPaymentData \<Rightarrow> Transaction" where
  "make_rb_payment_send_transaction U rs data =
     construct_rb_payments_send_tx U (rb_tx_ins data) (rb_tx_outs data) (rs_receiver_address rs)
       (token_amount U (rb_sender_asset data)) 0 (rb_sender_half_druid data @ rs_receiver_half_druid rs)
       [rs_sender_druid_expectation rs]"

definition send_rb_payment_request ::
    "user_ext \<Rightarrow> user_tick \<Rightarrow> SocketAddr \<Rightarrow> Asset \<Rightarrow> string option \<Rightarrow> UserNode \<Rightarrow> (UserNode \<times> unit user_result) may_panic" where
  "send_rb_payment_request U T peer asset drs self =
     do { (self, address, _) \<leftarrow> user_generate_payment_address U (ut_rand T) self;
          (w, r) \<leftarrow> fetch_tx_ins_and_tx_outs (uwallet U) (ut_rand2 T) asset [] (un_wallet self);
          let self = self\<lparr>un_wallet := w\<rparr>;
          Some (case r of
              Inl e \<Rightarrow> (self, Inl (UserWalletError e))
            | Inr ins_outs \<Rightarrow>
                let (data, rq) = make_rb_payment_send_tx_and_request U asset ins_outs (ut_half_druid T) address drs;
                    self = self\<lparr>next_rb_payment_data := Some data\<rparr>
                in user_send T peer (UToUser (SendRbPaymentRequest rq)) self) }"

definition send_rb_payment_response :: "user_tick \<Rightarrow> UserNode \<Rightarrow> (UserNode \<times> unit user_result) may_panic" where
  "send_rb_payment_response T self =
     do { (peer, r) \<leftarrow> next_rb_payment_response self;
          Some (user_send T peer (UToUser (SendRbPaymentResponse r)) (self\<lparr>next_rb_payment_response := None\<rparr>)) }"

definition receive_rb_payment_request ::
    "user_ext \<Rightarrow> user_tick \<Rightarrow> SocketAddr \<Rightarrow> RbPaymentRequestData \<Rightarrow> UserNode \<Rightarrow> (UserNode \<times> Response) may_panic" where
  "receive_rb_payment_request U T peer rq self =
     do { (self, address, _) \<leftarrow> user_generate_payment_address U (ut_rand T) self;
          let asset_required = user_Asset_receipt U 1 (rq_sender_drs_tx_expectation rq) None;
          (w, r) \<leftarrow> fetch_tx_ins_and_tx_outs (uwallet U) (ut_rand2 T) asset_required [] (un_wallet self);
          let self = self\<lparr>un_wallet := w\<rparr>;
          Some (case r of
              Inl _ \<Rightarrow> (self, respond False ''Insufficient funds for payment'')
            | Inr ins_outs \<Rightarrow>
                let (tx, rs) = make_rb_payment_receipt_tx_and_response U rq ins_outs (ut_half_druid T) address
                in (self\<lparr>next_rb_payment := Some (Some peer, tx), next_rb_payment_response := Some (peer, Some rs)\<rparr>,
                    respond True ''Received receipt-based payment request'')) }"

text \<open>Without a payment that was requested, taking its data panics.\<close>

definition receive_rb_payment_response ::
    "user_ext \<Rightarrow> SocketAddr \<Rightarrow> RbPaymentResponseData option \<Rightarrow> UserNode \<Rightarrow> (UserNode \<times> Response) may_panic" where
  "receive_rb_payment_response U peer rs self =
     do { data \<leftarrow> next_rb_payment_data self;
          let self = self\<lparr>next_rb_payment_data := None\<rparr>;
          let self = (case rs of
              Some rs \<Rightarrow> self\<lparr>next_rb_payment := Some (Some peer, make_rb_payment_send_transaction U rs data)\<rparr>
            | None \<Rightarrow> self);
          Some (self, respond True ''Received receipt-based payment response'') }"

definition generate_receipt_asset_tx ::
    "user_ext \<Rightarrow> user_tick \<Rightarrow> u64 \<Rightarrow> DrsTxHashSpec \<Rightarrow> string option \<Rightarrow> UserNode \<Rightarrow> (UserNode \<times> Response) may_panic" where
  "generate_receipt_asset_tx U T amount spec meta self =
     do { (self, _, keys) \<leftarrow> user_generate_payment_address U (ut_rand T) self;
          let tx = construct_receipt_create_tx U (notified_b_num self) (public_key keys) (secret_key keys) amount spec meta;
          Some (self\<lparr>next_payment := Some (None, tx)\<rparr>, respond True ''Receipt asset create transaction ready'') }"

subsection \<open>Blocks\<close>

definition user_filter_locked_coinbase :: "user_ext \<Rightarrow> u64 \<Rightarrow> UserNode \<Rightarrow> UserNode may_panic" where
  "user_filter_locked_coinbase U bn self =
     do { w \<leftarrow> wallet_filter_locked_coinbase (uwallet U) bn (un_wallet self); Some (self\<lparr>un_wallet := w\<rparr>) }"

definition notified_block_mining :: "user_ext \<Rightarrow> SocketAddr \<Rightarrow> Block \<Rightarrow> UserNode \<Rightarrow> (UserNode \<times> Response) may_panic" where
  "notified_block_mining U peer blk self =
     (if peer = compute_addr self
      then do {
        self \<leftarrow> user_filter_locked_coinbase U (b_num (header blk)) self;
        Some (self\<lparr>last_block_notified := blk\<rparr>, respond True ''Block mining notified'') }
      else Some (self, respond False ''Invalid block mining notifier''))"

text \<open>The loop that makes and sends the next transactions; it ends because each round spends ready outpoints.\<close>

function send_generated ::
    "user_ext \<Rightarrow> user_tick \<Rightarrow> nat \<Rightarrow> AutoGenTx \<Rightarrow> UserNode \<Rightarrow> (AutoGenTx \<times> UserNode) may_panic" where
  "send_generated U T total_txs gen self =
     (case make_all_transactions U (tx_in_per_tx gen)
             (let left = tx_max_count gen - total_txs in case tx_chunk_size gen of None \<Rightarrow> left | Some n \<Rightarrow> min n left)
             (tx_generator gen) of
        None \<Rightarrow> None
      | Some (g, txs) \<Rightarrow>
          if txs = [] then Some (gen\<lparr>tx_generator := g\<rparr>, self)
          else send_generated U T (total_txs + length txs) (gen\<lparr>tx_generator := g\<rparr>)
                 (fst (user_send_transactions_to_compute T (compute_addr self) (map snd txs) self)))"
  by pat_completeness auto

termination
  by (relation "measure (\<lambda>(U, T, n, gen, self). gen_size (tx_generator gen))") (auto dest: make_all_transactions_size)

declare send_generated.simps [simp del]

definition process_mining_notified :: "user_ext \<Rightarrow> user_tick \<Rightarrow> UserNode \<Rightarrow> UserNode may_panic" where
  "process_mining_notified U T self =
     (case test_auto_gen_tx self of
        None \<Rightarrow> Some self
      | Some gen \<Rightarrow> do {
          g \<leftarrow> (if up_to_date_with_snapshot (tx_generator gen) then Some (tx_generator gen)
                else do {
                  v \<leftarrow> get_db_value (uwallet U) TX_GENERATOR_KEY (un_wallet self);
                  case v of None \<Rightarrow> Some (tx_generator gen) | Some v \<Rightarrow> apply_snapshot_state U v (tx_generator gen) });
          let g = commit_transactions U (transactions (last_block_notified self)) g;
          (gen, self) \<leftarrow> send_generated U T 0 (gen\<lparr>tx_generator := g\<rparr>) self;
          (g, ser) \<leftarrow> snapshot_state U (tx_generator gen);
          w \<leftarrow> set_db_value (uwallet U) TX_GENERATOR_KEY ser (un_wallet self);
          Some (self\<lparr>test_auto_gen_tx := Some (gen\<lparr>tx_generator := g\<rparr>), un_wallet := w\<rparr>) })"

subsection \<open>Requests\<close>

definition delete_addresses_from_wallet :: "user_ext \<Rightarrow> string fset \<Rightarrow> UserNode \<Rightarrow> (UserNode \<times> Response) may_panic" where
  "delete_addresses_from_wallet U addresses self =
     do { (w, _) \<leftarrow> wallet_destroy_spent (uwallet U) (Some addresses) (un_wallet self);
          Some (self\<lparr>un_wallet := w\<rparr>, respond True ''Addresses deleted'') }"

definition handle_disconnect_from_compute :: "user_tick \<Rightarrow> UserNode \<Rightarrow> UserNode \<times> Response" where
  "handle_disconnect_from_compute T self =
     (let connected = (fmlookup (node_peers (un_node self)) (compute_addr self) \<noteq> None);
          self = self\<lparr>un_node := disconnect_all (Some [compute_addr self]) (un_node self)\<rparr>
      in (self,
          if \<not> connected then respond False ''Already disconnected from compute''
          else if \<not> ut_join T then respond False ''Failed to disconnect from compute''
          else respond True ''Disconnected from compute''))"

definition handle_connect_to_compute :: "user_tick \<Rightarrow> UserNode \<Rightarrow> UserNode \<times> Response" where
  "handle_connect_to_compute T self =
     (case user_connect_to T (compute_addr self) self of
        (self, Inl _) \<Rightarrow> (self, respond False ''Failed to connect to compute'')
      | (self, Inr _) \<Rightarrow>
          (case send_block_notification_request T self of
             (self, Inl _) \<Rightarrow> (self, respond False ''Failed to send startup requests on reconnection'')
           | (self, Inr _) \<Rightarrow> (self, respond True ''Connected to compute'')))"

definition receive_connection_status_request :: "UserNode \<Rightarrow> Response" where
  "receive_connection_status_request self =
     (if user_is_disconnected self then respond True ''Node is disconnected'' else respond True ''Node is connected'')"

definition user_receive_closing :: "SocketAddr \<Rightarrow> UserNode \<Rightarrow> Response option" where
  "user_receive_closing peer self = (if peer \<noteq> compute_addr self then None else Some (respond True ''Shutdown''))"

definition generate_new_address :: "user_ext \<Rightarrow> user_tick \<Rightarrow> UserNode \<Rightarrow> (UserNode \<times> Response) may_panic" where
  "generate_new_address U T self =
     do { (self, _) \<leftarrow> user_generate_payment_address U (ut_rand T) self; Some (self, respond True ''New address generated'') }"

definition receive_payment_address_request :: "SocketAddr \<Rightarrow> UserNode \<Rightarrow> UserNode \<times> Response" where
  "receive_payment_address_request peer self =
     (self\<lparr>trading_peer := Some peer\<rparr>, respond True ''New address ready to be sent'')"

abbreviation answered :: "(UserNode \<times> Response) may_panic \<Rightarrow> (UserNode \<times> Response option) may_panic" where
  "answered r \<equiv> map_option (\<lambda>(self, a). (self, Some a)) r"

definition user_handle_api_request ::
    "user_ext \<Rightarrow> user_tick \<Rightarrow> SocketAddr \<Rightarrow> UserApiRequest \<Rightarrow> UserNode \<Rightarrow> (UserNode \<times> Response option) may_panic" where
  "user_handle_api_request U T peer req self =
     (if peer \<noteq> local_listener_address (un_node self) then Some (self, None)
      else case req of
          UpdateWalletFromUtxoSet address_list \<Rightarrow> Some (request_utxo_set_for_wallet_update T address_list self)
        | RequestDonation paying_peer \<Rightarrow> request_donation_from_peer U T paying_peer self
        | MakeIpPayment payment_peer amount lt \<Rightarrow> Some (request_payment_address_for_peer T payment_peer amount lt self)
        | MakePayment address amount lt \<Rightarrow> answered (make_payment_transactions U T None address amount lt self)
        | UApiSendCreateReceiptRequest amount spec meta \<Rightarrow> answered (generate_receipt_asset_tx U T amount spec meta self)
        | MakePaymentWithExcessAddress address amount excess lt \<Rightarrow>
            answered (make_payment_transactions_provided_excess U T None address amount (Some excess) lt self)
        | GenerateNewAddress \<Rightarrow> answered (generate_new_address U T self)
        | GetConnectionStatus \<Rightarrow> Some (self, Some (receive_connection_status_request self))
        | ConnectToCompute \<Rightarrow> answered (Some (handle_connect_to_compute T self))
        | DisconnectFromCompute \<Rightarrow> answered (Some (handle_disconnect_from_compute T self))
        | DeleteAddresses addresses \<Rightarrow> answered (delete_addresses_from_wallet U addresses self)
        | MergeAddresses addresses excess \<Rightarrow>
            answered (make_merged_payment_transaction_from_input_addrs U T addresses excess self))"

fun user_handle_request ::
    "user_ext \<Rightarrow> user_tick \<Rightarrow> SocketAddr \<Rightarrow> UserRequest \<Rightarrow> UserNode \<Rightarrow> (UserNode \<times> Response option) may_panic" where
  "user_handle_request U T peer (UserApi req) self = user_handle_api_request U T peer req self"
| "user_handle_request U T peer (UserSendUtxoSet utxos) self = answered (Some (user_receive_utxo_set utxos self))"
| "user_handle_request U T peer SendAddressRequest self = answered (Some (receive_payment_address_request peer self))"
| "user_handle_request U T peer (SendPaymentTransaction tx) self = answered (receive_payment_transaction U tx self)"
| "user_handle_request U T peer (SendPaymentAddress address) self = process_pending_payment_transactions U T peer address self"
| "user_handle_request U T peer (SendRbPaymentRequest rq) self = answered (receive_rb_payment_request U T peer rq self)"
| "user_handle_request U T peer (SendRbPaymentResponse rs) self = answered (receive_rb_payment_response U peer rs self)"
| "user_handle_request U T peer (BlockMining blk) self = answered (notified_block_mining U peer blk self)"
| "user_handle_request U T peer UserClosing self = Some (self, user_receive_closing peer self)"

text \<open>A frame that is not a request of a user node cannot be deserialised.\<close>

definition user_handle_new_frame ::
    "user_ext \<Rightarrow> user_tick \<Rightarrow> SocketAddr \<Rightarrow> user_msg \<Rightarrow> UserNode \<Rightarrow> (UserNode \<times> Response user_result option) may_panic" where
  "user_handle_new_frame U T peer frame self =
     (case frame of
        UToUser req \<Rightarrow> do { (self, r) \<leftarrow> user_handle_request U T peer req self; Some (self, map_option Inr r) }
      | UToCompute _ \<Rightarrow> Some (self, Some (Inl UserSerialization)))"

fun user_handle_local_event :: "user_tick \<Rightarrow> LocalEvent \<Rightarrow> UserNode \<Rightarrow> UserNode \<times> Response option" where
  "user_handle_local_event T (ExitEvent why) self = (self, Some (respond True why))"
| "user_handle_local_event T ReconnectionComplete self =
     (case user_send_startup_requests T self of
        (self, Inl _) \<Rightarrow> (self, Some (respond False ''Failed to send startup requests on reconnection''))
      | (self, Inr _) \<Rightarrow> (self, Some (respond True ''Sent startup requests on reconnection'')))"
| "user_handle_local_event T (CoordinatedShutdown _) self = (self, None)"
| "user_handle_local_event T IgnoreEvent self = (self, None)"

text \<open>
  What the node selects on. A frame is the next one in the queue of the network node; \<open>UEventCallRb\<close> is
  the public method that starts a receipt-based payment, which the owner of the node calls between two events.
\<close>

datatype user_event =
    UEventFrame
  | UEventLocal LocalEvent
  | UEventCallRb SocketAddr Asset "string option"
  | UEventExit string

fun user_handle_next_event ::
    "user_ext \<Rightarrow> user_tick \<Rightarrow> user_event \<Rightarrow> UserNode \<Rightarrow> (UserNode \<times> Response user_result option) may_panic" where
  "user_handle_next_event U T UEventFrame self =
     (case next_event (un_node self) of
        Some (n, peer, frame) \<Rightarrow> user_handle_new_frame U T peer frame (self\<lparr>un_node := n\<rparr>)
      | None \<Rightarrow> Some (self, None))"
| "user_handle_next_event U T (UEventLocal ev) self =
     (let (self, r) = user_handle_local_event T ev self in Some (self, map_option Inr r))"
| "user_handle_next_event U T (UEventCallRb peer asset drs) self =
     do { (self, _) \<leftarrow> send_rb_payment_request U T peer asset drs self; Some (self, None) }"
| "user_handle_next_event U T (UEventExit why) self = Some (self, Some (Inr (respond True why)))"

text \<open>The reaction to a response; the others are only logged. A failure to send is unwrapped and panics.\<close>

definition unwrapped :: "(UserNode \<times> unit user_result) may_panic \<Rightarrow> UserNode may_panic" where
  "unwrapped r = do { (self, r) \<leftarrow> r; case r of Inl _ \<Rightarrow> None | Inr _ \<Rightarrow> Some self }"

definition user_handle_next_event_response ::
    "user_ext \<Rightarrow> user_tick \<Rightarrow> Response user_result \<Rightarrow> UserNode \<Rightarrow> (UserNode \<times> ResponseResult) may_panic" where
  "user_handle_next_event_response U T response self =
     (let continue = map_option (\<lambda>self. (self, Continue)) in
      case response of
        Inl _ \<Rightarrow> Some (self, Continue)
      | Inr r \<Rightarrow>
          if r = respond True ''Shutdown'' then Some (self, Exit)
          else if r = respond True ''Receipt asset create transaction ready''
          then continue (unwrapped (send_next_payment_to_destinations U T (compute_addr self) self))
          else if r = respond True ''Received receipt-based payment request''
          then continue (do { self \<leftarrow> unwrapped (send_rb_payment_response T self);
                 unwrapped (send_next_rb_transaction_to_destinations U T (compute_addr self) self) })
          else if r = respond True ''Received receipt-based payment response''
          then continue (unwrapped (send_next_rb_transaction_to_destinations U T (compute_addr self) self))
          else if r = respond True ''New address ready to be sent''
          then continue (unwrapped (send_address_to_trading_peer U T self))
          else if r = respond True ''Next payment transaction ready''
          then continue (unwrapped (send_next_payment_to_destinations U T (compute_addr self) self))
          else if r = respond True ''Block mining notified'' then continue (process_mining_notified U T self)
          else if r = respond True ''Received UTXO set'' then continue (user_update_running_total U self)
          else Some (self, Continue))"

subsection \<open>Construction\<close>

record UserAutoGenTxSetup =
  user_initial_transactions :: "WalletTxSpec list"
  user_setup_tx_chunk_size :: "nat option"
  user_setup_tx_in_per_tx :: "nat option"
  user_setup_tx_max_count :: nat

text \<open>The entries of the configuration that the node itself reads; each seed comes with a nonce.\<close>

record UserNodeConfig =
  user_compute_node_idx :: nat
  user_compute_nodes :: "SocketAddr list"
  user_wallet_seeds :: "(WalletTxSpec \<times> bytes) list"
  user_passphrase :: "string option"
  user_auto_donate :: u64
  user_test_auto_gen_setup :: UserAutoGenTxSetup

definition make_transaction_gen :: "user_ext \<Rightarrow> UserAutoGenTxSetup \<Rightarrow> AutoGenTx option may_panic" where
  "make_transaction_gen U setup =
     (if user_initial_transactions setup \<noteq> []
      then do {
        g \<leftarrow> TransactionGen_new U (user_initial_transactions setup);
        Some (Some \<lparr>tx_generator = g, tx_chunk_size = user_setup_tx_chunk_size setup,
                    tx_in_per_tx = user_setup_tx_in_per_tx setup, tx_max_count = user_setup_tx_max_count setup\<rparr>) }
      else Some None)"

text \<open>\<open>node\<close> is the network node it is given, \<open>shared\<close> the wallet of the miner it runs with, if it does.\<close>

definition UserNode_new ::
    "user_ext \<Rightarrow> user_tick \<Rightarrow> UserNodeConfig \<Rightarrow> user_msg Node \<Rightarrow> WalletDb option \<Rightarrow> SimpleDb option \<Rightarrow>
     UserNode user_result may_panic" where
  "UserNode_new U T config node shared old_db =
     (if \<not> user_compute_node_idx config < length (user_compute_nodes config)
      then Some (Inl (UserConfigError ''Invalid compute index''))
      else do {
        w \<leftarrow> (case shared of
             Some w \<Rightarrow> Some (Inr w)
           | None \<Rightarrow> WalletDb_new (uwallet U) (ut_rand T) old_db (user_passphrase config));
        case w of
          Inl e \<Rightarrow> Some (Inl (UserWalletError e))
        | Inr w \<Rightarrow> do {
            w \<leftarrow> with_seed (uwallet U) (user_wallet_seeds config) w;
            gen \<leftarrow> make_transaction_gen U (user_test_auto_gen_setup config);
            Some (Inr \<lparr>un_node = node, un_wallet = w,
              compute_addr = user_compute_nodes config ! user_compute_node_idx config, trading_peer = None,
              next_payment = None, last_block_notified = Block_default U, test_auto_gen_tx = gen, received_utxo_set = None,
              pending_payments = (fmempty, if user_auto_donate config = 0 then Disabled else Enabled (user_auto_donate config)),
              next_rb_payment_response = None, next_rb_payment_data = None, next_rb_payment = None\<rparr>) } })"

end
