(* ===== verification/User_Inv.thy ===== *)
theory User_Inv
  imports User_Node Wallet_Inv
begin

text \<open>
  The runs of the user node (\<^verbatim>\<open>src/user.rs\<close>): what each operation does to the wallet, lifted from the
  operations to requests, events, reactions and whole runs, and what it does to the pending payments.
\<close>

section \<open>The wallet of a user\<close>

subsection \<open>What does not touch the wallet\<close>

text \<open>Sending and connecting change the network node only.\<close>

lemma user_send_node: "user_send T p m s = (t, r) \<Longrightarrow> \<exists>n. t = s\<lparr>un_node := n\<rparr>"
  by (auto simp: user_send_def split: prod.splits sum.splits)

lemma user_connect_node: "user_connect_to T p s = (t, r) \<Longrightarrow> \<exists>n. t = s\<lparr>un_node := n\<rparr>"
  by (auto simp: user_connect_to_def split: prod.splits sum.splits)

lemma user_send_fst: "\<exists>n. fst (user_send T p m s) = s\<lparr>un_node := n\<rparr>"
  using user_send_node by (metis prod.collapse)

lemma user_send_wallet [simp]:
  "un_wallet (fst (user_send T p m s)) = un_wallet s"
  "user_send T p m s = (t, r) \<Longrightarrow> un_wallet t = un_wallet s"
  using user_send_fst [of T p m s] by (auto dest: user_send_node)

lemma user_connect_wallet: "user_connect_to T p s = (t, r) \<Longrightarrow> un_wallet t = un_wallet s"
  by (auto dest: user_connect_node)

subsection \<open>What is received\<close>

definition payments_fit :: "wallet_ext \<Rightarrow> WalletDb \<Rightarrow> payment list \<Rightarrow> bool" where
  "payments_fit W w ps \<longleftrightarrow>
     (\<forall>funds known. get_fund_store W (w_db w) = Some funds \<longrightarrow> get_known_key_address W (w_db w) = Some known \<longrightarrow>
        payments_ok W funds (filter (\<lambda>(_, _, a, _). a |\<in>| known) ps))"

definition tx_fits :: "wallet_ext \<Rightarrow> WalletDb \<Rightarrow> Transaction \<Rightarrow> bool" where
  "tx_fits W w tx \<longleftrightarrow> (\<forall>ps. get_paiments_for_wallet W [(wallet_tx_hash W tx, tx)] = Some ps \<longrightarrow> payments_fit W w ps)"

lemma receive_reachable:
  assumes "wallet_reachable W w" and "save_usable_payments_to_wallet W ps bn w = Some (w', usable)" and "payments_fit W w ps"
  shows "wallet_reachable W w'"
proof -
  have "\<forall>funds. get_fund_store W (w_db w) = Some funds \<longrightarrow> payments_ok W funds usable"
    using assms(2,3) by (auto simp: payments_fit_def save_usable_payments_to_wallet_def option_bind_Some_iff Let_def)
  then show ?thesis using wallet_reachable.step [OF assms(1) wallet_step.receive [OF assms(2)]] by blast
qed

lemma store_payment_reachable:
  assumes "wallet_reachable W w" and "store_payment_transaction W tx bn w = Some w'" and "tx_fits W w tx"
  shows "wallet_reachable W w'"
proof -
  obtain ps usable where p: "get_paiments_for_wallet W [(wallet_tx_hash W tx, tx)] = Some ps"
      "save_usable_payments_to_wallet W ps bn w = Some (w', usable)"
    using assms(2) by (auto simp: store_payment_transaction_def option_bind_Some_iff)
  then show ?thesis using receive_reachable [OF assms(1) p(2)] assms(3) by (simp add: tx_fits_def)
qed

subsection \<open>The operations\<close>

abbreviation sound_wallet :: "user_ext \<Rightarrow> UserNode \<Rightarrow> bool" where
  "sound_wallet U s \<equiv> wallet_reachable (uwallet U) (un_wallet s)"

definition user_tick_ok :: "user_ext \<Rightarrow> user_tick \<Rightarrow> bool" where
  "user_tick_ok U T \<longleftrightarrow> length (rand_nonce (ut_rand T)) = NONCE_LEN (uwallet U) \<and> length (rand_nonce (ut_rand2 T)) = NONCE_LEN (uwallet U)"

lemma user_store_payment_sound:
  assumes "sound_wallet U s" and "user_store_payment U tx s = Some t" and "tx_fits (uwallet U) (un_wallet s) tx"
  shows "sound_wallet U t"
  using store_payment_reachable [OF assms(1) _ assms(3)] assms(2) by (auto simp: user_store_payment_def option_bind_Some_iff)

lemma user_generate_sound:
  assumes "sound_wallet U s" and "user_generate_payment_address U R s = Some (t, r)" and "length (rand_nonce R) = NONCE_LEN (uwallet U)"
  shows "sound_wallet U t"
proof -
  obtain w a where "generate_payment_address (uwallet U) R (un_wallet s) = Some (w, a)" "t = s\<lparr>un_wallet := w\<rparr>"
    using assms(2) by (auto simp: user_generate_payment_address_def option_bind_Some_iff)
  then show ?thesis
    using wallet_reachable.step [OF assms(1) wallet_step.address [OF assms(3)]] by (fastforce simp: generate_payment_address_def)
qed

lemma fetch_sound:
  assumes "wallet_reachable W w" and "length (rand_nonce R) = NONCE_LEN W"
  shows "fetch_tx_ins_and_tx_outs_provided_excess W R asset outs excess w = Some (w', p) \<Longrightarrow> wallet_reachable W w'"
    and "fetch_tx_ins_and_tx_outs W R asset outs w = Some (w', p) \<Longrightarrow> wallet_reachable W w'"
    and "fetch_tx_ins_and_tx_outs_merge_input_addrs W R addrs excess w = Some (w', q) \<Longrightarrow> wallet_reachable W w'"
  using wallet_reachable.step [OF assms(1)] wallet_step.pay [OF assms(2)] wallet_step.merge [OF assms(2)]
  by (auto simp: fetch_tx_ins_and_tx_outs_def)

lemma make_payment_sound:
  assumes "sound_wallet U s" and "user_tick_ok U T"
    and "make_payment_transactions_provided_excess U T peer address amount excess lt s = Some (t, r)"
  shows "sound_wallet U t"
proof -
  define out where "out = (TxOut_new_token_amount (wgen U) address amount)\<lparr>locktime := (case lt of None \<Rightarrow> 0 | Some n \<Rightarrow> n)\<rparr>"
  obtain w p where p: "fetch_tx_ins_and_tx_outs_provided_excess (uwallet U) (ut_rand T) (Token amount) [out] excess (un_wallet s) = Some (w, p)"
    using assms(3) by (auto simp: make_payment_transactions_provided_excess_def option_bind_Some_iff Let_def out_def)
  then have "un_wallet t = w"
    using assms(3) by (cases p) (auto simp: make_payment_transactions_provided_excess_def Let_def out_def)
  then show ?thesis using p fetch_sound(1) [OF assms(1)] assms(2) by (auto simp: user_tick_ok_def)
qed

lemma make_merged_sound:
  assumes "sound_wallet U s" and "user_tick_ok U T"
    and "make_merged_payment_transaction_from_input_addrs U T addrs excess s = Some (t, r)"
  shows "sound_wallet U t"
  using assms(2,3) fetch_sound(3) [OF assms(1)]
  by (auto simp: make_merged_payment_transaction_from_input_addrs_def option_bind_Some_iff user_tick_ok_def)

lemma update_running_total_sound:
  assumes "sound_wallet U s" and "user_update_running_total U s = Some t"
    and "\<forall>ps. get_paiments_for_wallet_from_utxo (case received_utxo_set s of None \<Rightarrow> [] | Some u \<Rightarrow> sorted_list_of_fmap u) = Some ps \<longrightarrow>
      payments_fit (uwallet U) (un_wallet s) ps"
  shows "sound_wallet U t"
proof -
  obtain ps w x bn where p: "get_paiments_for_wallet_from_utxo (case received_utxo_set s of None \<Rightarrow> [] | Some u \<Rightarrow> sorted_list_of_fmap u) = Some ps"
      "save_usable_payments_to_wallet (uwallet U) ps bn (un_wallet s) = Some (w, x)" "un_wallet t = w"
    using assms(2) by (auto simp: user_update_running_total_def option_bind_Some_iff Let_def)
  then show ?thesis using receive_reachable [OF assms(1) p(2)] assms(3) by simp
qed

lemma filter_locked_sound:
  assumes "sound_wallet U s" and "user_filter_locked_coinbase U bn s = Some t"
  shows "sound_wallet U t"
  using assms(2) wallet_reachable.step [OF assms(1) wallet_step.unlock]
  by (auto simp: user_filter_locked_coinbase_def option_bind_Some_iff)

lemma delete_addresses_sound:
  assumes "sound_wallet U s" and "delete_addresses_from_wallet U as s = Some (t, r)" and "\<forall>a. a |\<in>| as \<longrightarrow> clean_address (uwallet U) a"
    and "spent_apart (uwallet U) (un_wallet s)"
  shows "sound_wallet U t"
  using assms(2-4) wallet_reachable.step [OF assms(1) wallet_step.purge]
  by (auto simp: delete_addresses_from_wallet_def option_bind_Some_iff)

lemma send_generated_wallet: "send_generated U T n gen s = Some (gen', t) \<Longrightarrow> un_wallet t = un_wallet s"
proof (induction U T n gen s rule: send_generated.induct)
  case (1 U T n gen s)
  then show ?case
    by (subst (asm) (2) send_generated.simps)
      (auto split: option.splits if_splits simp: user_send_transactions_to_compute_def)
qed

lemma process_mining_notified_sound:
  assumes "sound_wallet U s" and "process_mining_notified U T s = Some t"
  shows "sound_wallet U t"
proof (cases "test_auto_gen_tx s")
  case (Some gen)
  obtain gen1 gen2 s1 ser w where g: "send_generated U T 0 gen1 s = Some (gen2, s1)"
      "set_db_value (uwallet U) TX_GENERATOR_KEY ser (un_wallet s1) = Some w" "un_wallet t = w"
    using assms(2) Some by (auto simp: process_mining_notified_def option_bind_Some_iff Let_def)
  have "TX_GENERATOR_KEY \<in> set node_keys" by (simp add: TX_GENERATOR_KEY_def)
  then show ?thesis
    using wallet_reachable.step [OF assms(1) wallet_step.set_value] g(2,3) send_generated_wallet [OF g(1)] by metis
qed (use assms in \<open>simp add: process_mining_notified_def\<close>)

subsection \<open>The exchange of a receipt-based payment\<close>

lemma send_rb_payment_request_sound:
  assumes "sound_wallet U s" and "user_tick_ok U T" and "send_rb_payment_request U T peer asset drs s = Some (t, r)"
  shows "sound_wallet U t"
proof -
  obtain s1 a ks w q where g: "user_generate_payment_address U (ut_rand T) s = Some (s1, a, ks)"
      "fetch_tx_ins_and_tx_outs (uwallet U) (ut_rand2 T) asset [] (un_wallet s1) = Some (w, q)"
    using assms(3) by (auto simp: send_rb_payment_request_def option_bind_Some_iff)
  have "sound_wallet U s1" using user_generate_sound [OF assms(1) g(1)] assms(2) by (simp add: user_tick_ok_def)
  then have "wallet_reachable (uwallet U) w" using fetch_sound(2) [OF _ _ g(2)] assms(2) by (simp add: user_tick_ok_def)
  moreover have "un_wallet t = w" using assms(3) g by (cases q) (auto simp: send_rb_payment_request_def Let_def split: prod.splits)
  ultimately show ?thesis by simp
qed

lemma receive_rb_payment_request_sound:
  assumes "sound_wallet U s" and "user_tick_ok U T" and "receive_rb_payment_request U T peer rq s = Some (t, r)"
  shows "sound_wallet U t"
proof -
  obtain s1 a ks w q where g: "user_generate_payment_address U (ut_rand T) s = Some (s1, a, ks)"
      "fetch_tx_ins_and_tx_outs (uwallet U) (ut_rand2 T) (user_Asset_receipt U 1 (rq_sender_drs_tx_expectation rq) None) []
         (un_wallet s1) = Some (w, q)"
    using assms(3) by (auto simp: receive_rb_payment_request_def option_bind_Some_iff)
  have "sound_wallet U s1" using user_generate_sound [OF assms(1) g(1)] assms(2) by (simp add: user_tick_ok_def)
  then have "wallet_reachable (uwallet U) w" using fetch_sound(2) [OF _ _ g(2)] assms(2) by (simp add: user_tick_ok_def)
  moreover have "un_wallet t = w" using assms(3) g by (cases q) (auto simp: receive_rb_payment_request_def Let_def split: prod.splits)
  ultimately show ?thesis by simp
qed

lemma send_rb_payment_response_wallet:
  "send_rb_payment_response T s = Some (t, r) \<Longrightarrow> un_wallet t = un_wallet s \<and> next_rb_payment t = next_rb_payment s"
  by (auto simp: send_rb_payment_response_def option_bind_Some_iff dest!: user_send_node)

lemma receive_rb_payment_response_wallet:
  "receive_rb_payment_response U peer rs s = Some (t, r) \<Longrightarrow> un_wallet t = un_wallet s"
  by (auto simp: receive_rb_payment_response_def option_bind_Some_iff Let_def split: option.splits)

subsection \<open>Requests and reactions\<close>

lemma send_address_sound:
  assumes "sound_wallet U s" and "user_tick_ok U T" and "send_address_to_trading_peer U T s = Some (t, r)"
  shows "sound_wallet U t"
proof -
  obtain p s1 a ks where g: "user_generate_payment_address U (ut_rand T) (s\<lparr>trading_peer := None\<rparr>) = Some (s1, a, ks)"
      "user_send T p (UToUser (SendPaymentAddress a)) s1 = (t, r)"
    using assms(3) by (auto simp: send_address_to_trading_peer_def option_bind_Some_iff Let_def)
  then show ?thesis using user_generate_sound [of U "s\<lparr>trading_peer := None\<rparr>"] assms(1,2) by (simp add: user_tick_ok_def)
qed

lemma request_donation_sound:
  assumes "sound_wallet U s" and "user_tick_ok U T" and "request_donation_from_peer U T peer s = Some (t, r)"
  shows "sound_wallet U t"
proof -
  obtain s1 c where c: "user_connect_to T peer s = (s1, c)" by (cases "user_connect_to T peer s")
  have s1: "sound_wallet U s1" using user_connect_wallet [OF c] assms(1) by simp
  show ?thesis
  proof (cases c)
    case (Inl e)
    then show ?thesis using assms(3) s1 c by (simp add: request_donation_from_peer_def)
  next
    case (Inr u)
    then obtain q where "send_address_to_trading_peer U T (s1\<lparr>trading_peer := Some peer\<rparr>) = Some (t, q)"
      using assms(3) c by (auto simp: request_donation_from_peer_def send_donation_address_to_peer_def option_bind_Some_iff)
    then show ?thesis using send_address_sound [of U "s1\<lparr>trading_peer := Some peer\<rparr>"] s1 assms(2) by simp
  qed
qed

lemma process_pending_sound:
  assumes "sound_wallet U s" and "user_tick_ok U T" and "process_pending_payment_transactions U T peer address s = Some (t, r)"
  shows "sound_wallet U t"
proof -
  obtain pending donate where p: "pending_payments s = (pending, donate)" by (cases "pending_payments s")
  let ?s = "s\<lparr>pending_payments := (fmdrop peer pending, donate)\<rparr>"
  have m: "sound_wallet U t" if "make_payment_transactions U T q a n lt ?s = Some (t, r')" for q a n lt r'
    using make_payment_sound [of U ?s] assms(1,2) that by (simp add: make_payment_transactions_def)
  show ?thesis
    using assms(1,3) p m
    by (cases "fmlookup pending peer"; cases donate) (auto simp: process_pending_payment_transactions_def option_bind_Some_iff)
qed

lemma notified_block_sound:
  "sound_wallet U s \<Longrightarrow> notified_block_mining U peer blk s = Some (t, r) \<Longrightarrow> sound_wallet U t"
  using filter_locked_sound by (fastforce simp: notified_block_mining_def option_bind_Some_iff split: if_splits)

lemma generate_receipt_sound:
  assumes "sound_wallet U s" and "user_tick_ok U T" and "generate_receipt_asset_tx U T n spec meta s = Some (t, r)"
  shows "sound_wallet U t"
  using assms(2,3) user_generate_sound [OF assms(1)]
  by (fastforce simp: generate_receipt_asset_tx_def option_bind_Some_iff Let_def user_tick_ok_def)

text \<open>
  What is relied on about a request: the payment it announces fits into 64 bits with what the wallet has; the
  addresses to delete are addresses, and are deleted while no outpoint is both spent and unspent.
\<close>

fun user_request_ok :: "user_ext \<Rightarrow> UserNode \<Rightarrow> UserRequest \<Rightarrow> bool" where
  "user_request_ok U s (SendPaymentTransaction tx) \<longleftrightarrow> tx_fits (uwallet U) (un_wallet s) tx"
| "user_request_ok U s (UserApi (DeleteAddresses as)) \<longleftrightarrow>
     (\<forall>a. a |\<in>| as \<longrightarrow> clean_address (uwallet U) a) \<and> spent_apart (uwallet U) (un_wallet s)"
| "user_request_ok U s _ \<longleftrightarrow> True"

lemma user_handle_api_request_sound:
  assumes s: "sound_wallet U s" and T: "user_tick_ok U T" and r: "user_handle_api_request U T peer req s = Some (t, r)"
    and ok: "user_request_ok U s (UserApi req)"
  shows "sound_wallet U t"
proof (cases "peer = local_listener_address (un_node s)")
  case True
  note r = r [unfolded user_handle_api_request_def, simplified True, simplified]
  show ?thesis
  proof (cases req)
    case UpdateWalletFromUtxoSet
    then show ?thesis
      using r s by (auto simp: request_utxo_set_for_wallet_update_def user_send_request_utxo_set_def
          dest!: user_send_node split: prod.splits sum.splits)
  next
    case MakeIpPayment
    then show ?thesis
      using r s by (auto simp: request_payment_address_for_peer_def send_address_request_def Let_def
          dest!: user_send_node split: prod.splits sum.splits)
  next
    case ConnectToCompute
    then show ?thesis
      using r s by (auto simp: handle_connect_to_compute_def send_block_notification_request_def
          dest!: user_send_node user_connect_node split: prod.splits sum.splits)
  next
    case GenerateNewAddress
    then show ?thesis
      using r T user_generate_sound [OF s] by (auto simp: generate_new_address_def option_bind_Some_iff user_tick_ok_def)
  qed (use r s T ok in \<open>auto simp: make_payment_transactions_def handle_disconnect_from_compute_def Let_def
      intro: make_payment_sound request_donation_sound generate_receipt_sound delete_addresses_sound make_merged_sound\<close>)
qed (use assms in \<open>simp add: user_handle_api_request_def\<close>)

lemma user_handle_request_sound:
  assumes "sound_wallet U s" and "user_tick_ok U T" and "user_handle_request U T peer req s = Some (t, r)"
    and "user_request_ok U s req"
  shows "sound_wallet U t"
proof (cases req)
  case (UserApi api)
  then show ?thesis using assms by (auto intro: user_handle_api_request_sound)
next
  case (SendRbPaymentResponse rs)
  then show ?thesis using assms receive_rb_payment_response_wallet by fastforce
next
  case (SendPaymentTransaction tx)
  then show ?thesis
    using assms user_store_payment_sound by (auto simp: receive_payment_transaction_def option_bind_Some_iff)
qed (use assms in \<open>auto simp: user_receive_utxo_set_def receive_payment_address_request_def
    intro: process_pending_sound receive_rb_payment_request_sound notified_block_sound\<close>)

fun user_event_ok :: "user_ext \<Rightarrow> UserNode \<Rightarrow> user_event \<Rightarrow> bool" where
  "user_event_ok U s UEventFrame \<longleftrightarrow>
     (case node_events (un_node s) of (peer, UToUser req) # _ \<Rightarrow> user_request_ok U s req | _ \<Rightarrow> True)"
| "user_event_ok U s _ \<longleftrightarrow> True"

lemma user_request_ok_node [simp]: "user_request_ok U (s\<lparr>un_node := n\<rparr>) req = user_request_ok U s req"
  by (cases "(U, s, req)" rule: user_request_ok.cases) auto

lemma user_same_node: "\<exists>n. s = (s :: UserNode)\<lparr>un_node := n\<rparr>"
  by (rule exI [of _ "un_node s"]) simp

lemma user_handle_local_event_node: "user_handle_local_event T ev s = (t, r) \<Longrightarrow> \<exists>n. t = s\<lparr>un_node := n\<rparr>"
  by (cases ev) (auto simp: user_send_startup_requests_def send_block_notification_request_def
      intro: user_same_node dest!: user_send_node split: prod.splits sum.splits if_splits)

lemma user_handle_next_event_sound:
  assumes s: "sound_wallet U s" and T: "user_tick_ok U T" and r: "user_handle_next_event U T ev s = Some (t, r)"
    and ok: "user_event_ok U s ev"
  shows "sound_wallet U t"
proof (cases ev)
  case UEventFrame
  show ?thesis
  proof (cases "node_events (un_node s)")
    case (Cons e es)
    obtain peer frame where e: "e = (peer, frame)" by (cases e)
    let ?s = "s\<lparr>un_node := (un_node s)\<lparr>node_events := es\<rparr>\<rparr>"
    have h: "user_handle_new_frame U T peer frame ?s = Some (t, r)" using r UEventFrame Cons e by (simp add: next_event_def)
    show ?thesis
    proof (cases frame)
      case (UToUser req)
      then obtain q where "user_handle_request U T peer req ?s = Some (t, q)"
        using h by (auto simp: user_handle_new_frame_def option_bind_Some_iff)
      then show ?thesis using user_handle_request_sound [of U ?s] s T ok UEventFrame Cons e UToUser by simp
    qed (use h s in \<open>auto simp: user_handle_new_frame_def\<close>)
  qed (use r s UEventFrame in \<open>simp add: next_event_def\<close>)
next
  case (UEventLocal l)
  then show ?thesis using r s by (auto split: prod.splits dest!: user_handle_local_event_node)
next
  case (UEventCallRb peer asset drs)
  then show ?thesis using r send_rb_payment_request_sound [OF s T] by (auto simp: option_bind_Some_iff)
qed (use r s in auto)

text \<open>What a reaction stores: the payment that is ready, or the UTXO set that was received.\<close>

definition user_reaction_ok :: "user_ext \<Rightarrow> UserNode \<Rightarrow> bool" where
  "user_reaction_ok U s \<longleftrightarrow>
     (\<forall>p tx. next_payment s = Some (p, tx) \<or> next_rb_payment s = Some (p, tx) \<longrightarrow> tx_fits (uwallet U) (un_wallet s) tx) \<and>
     (\<forall>ps. get_paiments_for_wallet_from_utxo (case received_utxo_set s of None \<Rightarrow> [] | Some u \<Rightarrow> sorted_list_of_fmap u) = Some ps \<longrightarrow>
        payments_fit (uwallet U) (un_wallet s) ps)"

lemma send_next_payment_sound:
  assumes "sound_wallet U s" and "send_next_payment_to_destinations U T p s = Some (t, r)" and "user_reaction_ok U s"
  shows "sound_wallet U t"
proof -
  obtain peer tx where n: "next_payment s = Some (peer, tx)"
    using assms(2) by (auto simp: send_next_payment_to_destinations_def option_bind_Some_iff)
  obtain s1 c where c: "user_send_transactions_to_compute T p [tx] (s\<lparr>next_payment := None\<rparr>) = (s1, c)" by (meson surj_pair)
  then have w: "un_wallet s1 = un_wallet s" by (auto simp: user_send_transactions_to_compute_def)
  show ?thesis
  proof (cases c)
    case (Inl e)
    then show ?thesis using assms(1,2) n c w by (simp add: send_next_payment_to_destinations_def)
  next
    case (Inr u)
    then obtain s2 where s2: "user_store_payment U tx s1 = Some s2"
        "(case peer of Some q \<Rightarrow> send_payment_to_receiver T q tx s2 | None \<Rightarrow> (s2, Inr ())) = (t, r)"
      using assms(2) n c by (auto simp: send_next_payment_to_destinations_def option_bind_Some_iff)
    have "sound_wallet U s2"
      using user_store_payment_sound [OF _ s2(1)] assms(1,3) n w by (auto simp: user_reaction_ok_def)
    then show ?thesis using s2(2) by (auto simp: send_payment_to_receiver_def split: option.splits)
  qed
qed

lemma send_next_rb_sound:
  assumes "sound_wallet U s" and "send_next_rb_transaction_to_destinations U T p s = Some (t, r)" and "user_reaction_ok U s"
  shows "sound_wallet U t"
proof -
  obtain peer tx s1 where n: "next_rb_payment s = Some (peer, tx)" "user_store_payment U tx (s\<lparr>next_rb_payment := None\<rparr>) = Some s1"
    using assms(2) by (auto simp: send_next_rb_transaction_to_destinations_def option_bind_Some_iff)
  have s1: "sound_wallet U s1"
    using user_store_payment_sound [OF _ n(2)] assms(1,3) n(1) by (auto simp: user_reaction_ok_def)
  obtain s2 c where c: "user_send T p (UToCompute (SendTransactions [tx])) s1 = (s2, c)" by (meson surj_pair)
  then show ?thesis
    using assms(2) n s1 by (cases c; cases peer)
      (auto simp: send_next_rb_transaction_to_destinations_def send_payment_to_receiver_def dest!: user_send_node)
qed

lemma unwrapped_Some: "unwrapped r = Some t \<longleftrightarrow> r = Some (t, Inr ())"
proof (cases r)
  case (Some p)
  then show ?thesis by (cases p; cases "snd p") (auto simp: unwrapped_def)
qed (simp add: unwrapped_def)

lemma user_reaction_sound:
  assumes "sound_wallet U s" and "user_tick_ok U T" and "user_handle_next_event_response U T r s = Some (t, c)"
    and "user_reaction_ok U s"
  shows "sound_wallet U t"
proof (cases r)
  case (Inr a)
  have rb: "sound_wallet U t" if "send_rb_payment_response T s = Some (s1, q)"
      "send_next_rb_transaction_to_destinations U T p s1 = Some (t, q')" for s1 q p q'
  proof -
    have "user_reaction_ok U s1" "sound_wallet U s1"
      using that(1) assms(1,4) by (auto simp: send_rb_payment_response_def option_bind_Some_iff user_reaction_ok_def dest!: user_send_node)
    then show ?thesis using send_next_rb_sound that(2) by blast
  qed
  note u = update_running_total_sound [OF assms(1)] process_mining_notified_sound [OF assms(1)]
    send_next_payment_sound [OF assms(1) _ assms(4)] send_next_rb_sound [OF assms(1) _ assms(4)] send_address_sound [OF assms(1,2)]
  have f: "\<forall>ps. get_paiments_for_wallet_from_utxo (case received_utxo_set s of None \<Rightarrow> [] | Some u \<Rightarrow> sorted_list_of_fmap u) = Some ps \<longrightarrow>
      payments_fit (uwallet U) (un_wallet s) ps" using assms(4) by (simp add: user_reaction_ok_def)
  show ?thesis
    using assms(1,3) Inr u f rb
    by (auto simp: user_handle_next_event_response_def Let_def unwrapped_Some option_bind_Some_iff split: if_splits)
qed (use assms in \<open>simp add: user_handle_next_event_response_def\<close>)

subsection \<open>Runs\<close>

text \<open>
  The node handles an event, then reacts to its response, if there is one; the network may act on its
  queue and its peers at any time. The second component is the response that waits for its reaction.
\<close>

inductive user_step :: "user_ext \<Rightarrow> UserNode \<times> Response user_result option \<Rightarrow> UserNode \<times> Response user_result option \<Rightarrow> bool" for U where
  event: "user_handle_next_event U T ev s = Some (t, r) \<Longrightarrow> user_step U (s, None) (t, r)"
| react: "user_handle_next_event_response U T r s = Some (t, c) \<Longrightarrow> user_step U (s, Some r) (t, None)"
| network: "user_step U (s, r) (s\<lparr>un_node := n\<rparr>, r)"

text \<open>The wallet a node starts with: that of the miner it runs with, a new one, or one that is opened again.\<close>

definition user_start_ok :: "user_ext \<Rightarrow> user_tick \<Rightarrow> UserNodeConfig \<Rightarrow> WalletDb option \<Rightarrow> SimpleDb option \<Rightarrow> bool" where
  "user_start_ok U T config shared old_db \<longleftrightarrow> user_wallet_seeds config = [] \<and>
     (case (shared, old_db) of
        (Some w, _) \<Rightarrow> wallet_reachable (uwallet U) w
      | (None, None) \<Rightarrow> Key_from_slice (uwallet U) (rand_key (ut_rand T)) = Some (rand_key (ut_rand T))
      | (None, Some db) \<Rightarrow> user_passphrase config \<noteq> None \<and> (\<exists>w. wallet_reachable (uwallet U) w \<and> db = w_db w))"

text \<open>The runs in which the payments that are stored fit into 64 bits, and deletions are as above.\<close>

inductive user_reachable :: "user_ext \<Rightarrow> UserNode \<times> Response user_result option \<Rightarrow> bool" for U where
  start: "user_start_ok U T config shared old_db \<Longrightarrow> UserNode_new U T config n shared old_db = Some (Inr s) \<Longrightarrow>
    user_reachable U (s, None)"
| event: "user_reachable U (s, None) \<Longrightarrow> user_tick_ok U T \<Longrightarrow> user_event_ok U s ev \<Longrightarrow>
    user_handle_next_event U T ev s = Some (t, r) \<Longrightarrow> user_reachable U (t, r)"
| react: "user_reachable U (s, Some r) \<Longrightarrow> user_tick_ok U T \<Longrightarrow> user_reaction_ok U s \<Longrightarrow>
    user_handle_next_event_response U T r s = Some (t, c) \<Longrightarrow> user_reachable U (t, None)"
| network: "user_reachable U (s, r) \<Longrightarrow> user_reachable U (s\<lparr>un_node := n\<rparr>, r)"

lemma user_start_sound:
  assumes "user_start_ok U T config shared old_db" and "UserNode_new U T config n shared old_db = Some (Inr s)"
  shows "sound_wallet U s"
proof -
  have idx: "user_compute_node_idx config < length (user_compute_nodes config)"
    using assms(2) by (auto simp: UserNode_new_def split: if_splits)
  obtain w where w: "(case shared of Some w \<Rightarrow> Some (Inr w)
      | None \<Rightarrow> WalletDb_new (uwallet U) (ut_rand T) old_db (user_passphrase config)) = Some w"
    using assms(2) idx by (auto simp: UserNode_new_def option_bind_Some_iff)
  obtain x where x: "w = Inr x" using assms(2) idx w by (cases w) (auto simp: UserNode_new_def)
  have "un_wallet s = x"
    using assms idx w x by (auto simp: UserNode_new_def option_bind_Some_iff with_seed_def user_start_ok_def split: if_splits)
  moreover have "wallet_reachable (uwallet U) x"
    using w x assms(1) wallet_reachable.new [of "uwallet U" "ut_rand T"] wallet_reachable.step [OF _ wallet_step.reopen]
    by (cases shared; cases old_db) (auto simp: user_start_ok_def)
  ultimately show ?thesis by simp
qed

lemma user_reachable_sound: "user_reachable U x \<Longrightarrow> sound_wallet U (fst x)"
  by (induction rule: user_reachable.induct)
    (auto intro: user_start_sound user_handle_next_event_sound user_reaction_sound)

subsection \<open>The pending payments\<close>

lemma user_generate_only:
  "user_generate_payment_address U R s = Some (t, r) \<Longrightarrow> \<exists>w. t = s\<lparr>un_wallet := w\<rparr>"
  by (auto simp: user_generate_payment_address_def option_bind_Some_iff)

lemma user_store_only: "user_store_payment U tx s = Some t \<Longrightarrow> \<exists>w. t = s\<lparr>un_wallet := w\<rparr>"
  by (auto simp: user_store_payment_def option_bind_Some_iff)

lemma user_filter_only: "user_filter_locked_coinbase U bn s = Some t \<Longrightarrow> \<exists>w. t = s\<lparr>un_wallet := w\<rparr>"
  by (auto simp: user_filter_locked_coinbase_def option_bind_Some_iff)

lemmas user_only = user_generate_only user_store_only user_filter_only user_send_node user_connect_node

abbreviation same_pending :: "UserNode \<Rightarrow> UserNode \<Rightarrow> bool" where
  "same_pending s t \<equiv> pending_payments t = pending_payments s"

lemma make_payment_pending:
  assumes "make_payment_transactions_provided_excess U T peer address amount excess lt s = Some (t, r)"
  shows "same_pending s t"
proof -
  define out where "out = (TxOut_new_token_amount (wgen U) address amount)\<lparr>locktime := (case lt of None \<Rightarrow> 0 | Some n \<Rightarrow> n)\<rparr>"
  obtain w p where "fetch_tx_ins_and_tx_outs_provided_excess (uwallet U) (ut_rand T) (Token amount) [out] excess (un_wallet s) = Some (w, p)"
    using assms by (auto simp: make_payment_transactions_provided_excess_def option_bind_Some_iff Let_def out_def)
  then show ?thesis
    using assms by (cases p) (auto simp: make_payment_transactions_provided_excess_def Let_def out_def)
qed

lemma send_address_pending: "send_address_to_trading_peer U T s = Some (t, r) \<Longrightarrow> same_pending s t"
  by (auto simp: send_address_to_trading_peer_def option_bind_Some_iff Let_def dest!: user_only)

lemma request_donation_pending:
  assumes "request_donation_from_peer U T peer s = Some (t, r)"
  shows "same_pending s t"
proof -
  obtain s1 c where c: "user_connect_to T peer s = (s1, c)" by (meson surj_pair)
  then show ?thesis
    using assms user_connect_node [OF c]
    by (cases c) (auto simp: request_donation_from_peer_def send_donation_address_to_peer_def option_bind_Some_iff dest!: send_address_pending)
qed

lemma receive_rb_payment_request_pending:
  assumes "receive_rb_payment_request U T peer rq s = Some (t, r)"
  shows "same_pending s t"
proof -
  obtain s1 a ks w q where g: "user_generate_payment_address U (ut_rand T) s = Some (s1, a, ks)"
      "fetch_tx_ins_and_tx_outs (uwallet U) (ut_rand2 T) (user_Asset_receipt U 1 (rq_sender_drs_tx_expectation rq) None) []
         (un_wallet s1) = Some (w, q)"
    using assms by (auto simp: receive_rb_payment_request_def option_bind_Some_iff)
  then show ?thesis
    using assms user_generate_only [OF g(1)]
    by (cases q) (auto simp: receive_rb_payment_request_def Let_def split: prod.splits)
qed

lemma send_rb_payment_request_pending:
  assumes "send_rb_payment_request U T peer asset drs s = Some (t, r)"
  shows "same_pending s t"
proof -
  obtain s1 a ks w q where g: "user_generate_payment_address U (ut_rand T) s = Some (s1, a, ks)"
      "fetch_tx_ins_and_tx_outs (uwallet U) (ut_rand2 T) asset [] (un_wallet s1) = Some (w, q)"
    using assms by (auto simp: send_rb_payment_request_def option_bind_Some_iff)
  then show ?thesis
    using assms user_generate_only [OF g(1)]
    by (cases q) (auto simp: send_rb_payment_request_def Let_def dest!: user_send_node split: prod.splits)
qed

lemma user_handle_api_request_pending:
  assumes "user_handle_api_request U T q req s = Some (t, r)" and "\<forall>n lt. req \<noteq> MakeIpPayment p n lt"
  shows "fmlookup (fst (pending_payments t)) p = fmlookup (fst (pending_payments s)) p \<and>
    snd (pending_payments t) = snd (pending_payments s)"
proof (cases "q = local_listener_address (un_node s)")
  case True
  note r = assms(1) [unfolded user_handle_api_request_def, simplified True, simplified]
  show ?thesis
  proof (cases req)
    case UpdateWalletFromUtxoSet
    then show ?thesis
      using r by (auto simp: request_utxo_set_for_wallet_update_def user_send_request_utxo_set_def
          dest!: user_send_node split: prod.splits sum.splits)
  next
    case (MakeIpPayment q' n lt)
    then show ?thesis
      using r assms(2) by (cases "pending_payments s") (auto simp: request_payment_address_for_peer_def send_address_request_def
          dest!: user_send_node split: prod.splits sum.splits)
  next
    case ConnectToCompute
    then show ?thesis
      using r by (auto simp: handle_connect_to_compute_def send_block_notification_request_def
          dest!: user_only split: prod.splits sum.splits)
  qed (use r in \<open>auto simp: make_payment_transactions_def handle_disconnect_from_compute_def generate_new_address_def
      generate_receipt_asset_tx_def delete_addresses_from_wallet_def make_merged_payment_transaction_from_input_addrs_def
      option_bind_Some_iff Let_def dest!: user_only make_payment_pending request_donation_pending\<close>)
qed (use assms in \<open>simp add: user_handle_api_request_def\<close>)

lemma process_pending_only:
  assumes "process_pending_payment_transactions U T peer address s = Some (t, r)" and "pending_payments s = (pending, donate)"
  shows "pending_payments t = (fmdrop peer pending, donate)"
  using assms by (cases "fmlookup pending peer"; cases donate)
    (auto simp: process_pending_payment_transactions_def option_bind_Some_iff make_payment_transactions_def dest!: make_payment_pending)

lemma user_handle_request_pending:
  assumes "user_handle_request U T q req s = Some (t, r)" and "\<forall>n lt. req \<noteq> UserApi (MakeIpPayment p n lt)"
    and "fmlookup (fst (pending_payments s)) p = None"
  shows "fmlookup (fst (pending_payments t)) p = None \<and> snd (pending_payments t) = snd (pending_payments s)"
proof (cases req)
  case (UserApi api)
  then show ?thesis using assms user_handle_api_request_pending [of U T q api s t r p] by simp
next
  case (SendPaymentAddress a)
  then show ?thesis
    using assms process_pending_only [of U T q a s t r] by (cases "pending_payments s") auto
qed (use assms in \<open>auto simp: user_receive_utxo_set_def receive_payment_address_request_def receive_payment_transaction_def
    receive_rb_payment_response_def notified_block_mining_def option_bind_Some_iff Let_def
    dest!: user_only receive_rb_payment_request_pending split: if_splits option.splits\<close>)

lemma send_generated_pending: "send_generated U T n gen s = Some (gen', t) \<Longrightarrow> same_pending s t"
proof (induction U T n gen s rule: send_generated.induct)
  case (1 U T n gen s)
  have p: "same_pending s (fst (user_send_transactions_to_compute T q txs s))" for q txs
    using user_send_fst [of T q "UToCompute (SendTransactions txs)" s] by (auto simp: user_send_transactions_to_compute_def)
  from 1 show ?case
    by (subst (asm) (2) send_generated.simps) (auto split: option.splits if_splits simp: p)
qed

lemma send_next_payment_pending:
  assumes "send_next_payment_to_destinations U T p s = Some (t, r)"
  shows "same_pending s t"
proof -
  obtain peer tx where n: "next_payment s = Some (peer, tx)"
    using assms by (auto simp: send_next_payment_to_destinations_def option_bind_Some_iff)
  obtain s1 c where c: "user_send_transactions_to_compute T p [tx] (s\<lparr>next_payment := None\<rparr>) = (s1, c)" by (meson surj_pair)
  then obtain m where "s1 = s\<lparr>next_payment := None, un_node := m\<rparr>"
    by (auto simp: user_send_transactions_to_compute_def dest!: user_send_node)
  then show ?thesis
    using assms n c by (cases c; cases peer)
      (auto simp: send_next_payment_to_destinations_def send_payment_to_receiver_def option_bind_Some_iff dest!: user_only)
qed

lemma send_next_rb_pending:
  assumes "send_next_rb_transaction_to_destinations U T p s = Some (t, r)"
  shows "same_pending s t"
proof -
  obtain peer tx s1 where n: "next_rb_payment s = Some (peer, tx)" "user_store_payment U tx (s\<lparr>next_rb_payment := None\<rparr>) = Some s1"
    using assms by (auto simp: send_next_rb_transaction_to_destinations_def option_bind_Some_iff)
  obtain s2 c where c: "user_send T p (UToCompute (SendTransactions [tx])) s1 = (s2, c)" by (meson surj_pair)
  show ?thesis
    using assms n c user_store_only [OF n(2)] user_send_node [OF c] by (cases c; cases peer)
      (auto simp: send_next_rb_transaction_to_destinations_def send_payment_to_receiver_def dest!: user_send_node)
qed

lemma process_mining_notified_pending:
  assumes "process_mining_notified U T s = Some t"
  shows "same_pending s t"
proof (cases "test_auto_gen_tx s")
  case (Some gen)
  then obtain gen1 gen2 s1 where "send_generated U T 0 gen1 s = Some (gen2, s1)" "same_pending s1 t"
    using assms by (auto simp: process_mining_notified_def option_bind_Some_iff Let_def)
  then show ?thesis using send_generated_pending by metis
qed (use assms in \<open>simp add: process_mining_notified_def\<close>)

lemma user_reaction_pending:
  assumes "user_handle_next_event_response U T r s = Some (t, c)"
  shows "same_pending s t"
proof (cases r)
  case (Inr a)
  have "send_rb_payment_response T s = Some (s1, q) \<Longrightarrow> same_pending s s1" for s1 q
    by (auto simp: send_rb_payment_response_def option_bind_Some_iff dest!: user_send_node)
  then have rb: "send_rb_payment_response T s = Some (s1, q) \<Longrightarrow>
      send_next_rb_transaction_to_destinations U T p s1 = Some (t, q') \<Longrightarrow> same_pending s t" for s1 q p q'
    using send_next_rb_pending by metis
  have u: "user_update_running_total U s = Some t \<Longrightarrow> same_pending s t"
    by (auto simp: user_update_running_total_def option_bind_Some_iff Let_def)
  show ?thesis
    using assms Inr u
    by (auto simp: user_handle_next_event_response_def Let_def unwrapped_Some option_bind_Some_iff split: if_splits
        dest: rb send_next_payment_pending send_next_rb_pending process_mining_notified_pending send_address_pending)
qed (use assms in \<open>simp add: user_handle_next_event_response_def\<close>)

text \<open>The next frame in the queue asks to pay \<open>p\<close>.\<close>

definition asks_to_pay :: "SocketAddr \<Rightarrow> UserNode \<Rightarrow> bool" where
  "asks_to_pay p s \<longleftrightarrow> (case node_events (un_node s) of (q, UToUser (UserApi (MakeIpPayment p' n lt))) # _ \<Rightarrow> p' = p | _ \<Rightarrow> False)"

lemma user_event_pending:
  assumes r: "user_handle_next_event U T ev s = Some (t, r)" and a: "\<not> asks_to_pay p s"
    and n: "fmlookup (fst (pending_payments s)) p = None"
  shows "fmlookup (fst (pending_payments t)) p = None \<and> snd (pending_payments t) = snd (pending_payments s)"
proof (cases ev)
  case UEventFrame
  show ?thesis
  proof (cases "node_events (un_node s)")
    case (Cons e es)
    obtain peer frame where e: "e = (peer, frame)" by (cases e)
    let ?s = "s\<lparr>un_node := (un_node s)\<lparr>node_events := es\<rparr>\<rparr>"
    have h: "user_handle_new_frame U T peer frame ?s = Some (t, r)" using r UEventFrame Cons e by (simp add: next_event_def)
    show ?thesis
    proof (cases frame)
      case (UToUser req)
      then obtain q where "user_handle_request U T peer req ?s = Some (t, q)"
        using h by (auto simp: user_handle_new_frame_def option_bind_Some_iff)
      moreover have "\<forall>n lt. req \<noteq> UserApi (MakeIpPayment p n lt)" using a Cons e UToUser by (auto simp: asks_to_pay_def)
      ultimately show ?thesis using user_handle_request_pending [of U T peer req ?s] n by simp
    qed (use h n in \<open>auto simp: user_handle_new_frame_def\<close>)
  qed (use r n UEventFrame in \<open>simp add: next_event_def\<close>)
next
  case (UEventLocal l)
  then show ?thesis using r n by (auto split: prod.splits dest!: user_handle_local_event_node)
next
  case (UEventCallRb peer asset drs)
  then show ?thesis using r n by (auto simp: option_bind_Some_iff dest!: send_rb_payment_request_pending)
qed (use r n in auto)

text \<open>Runs in which nothing asks to pay \<open>p\<close>.\<close>

definition user_run_without :: "user_ext \<Rightarrow> SocketAddr \<Rightarrow> UserNode \<times> Response user_result option \<Rightarrow> UserNode \<times> Response user_result option \<Rightarrow> bool" where
  "user_run_without U p = (\<lambda>x y. user_step U x y \<and> \<not> asks_to_pay p (fst x))\<^sup>*\<^sup>*"

lemma user_run_pending:
  assumes "user_run_without U p x y" and "fmlookup (fst (pending_payments (fst x))) p = None"
  shows "fmlookup (fst (pending_payments (fst y))) p = None \<and> snd (pending_payments (fst y)) = snd (pending_payments (fst x))"
  using assms unfolding user_run_without_def
proof (induction rule: rtranclp_induct)
  case (step y z)
  then show ?case by (auto elim!: user_step.cases dest: user_event_pending user_reaction_pending)
qed simp

end
