(* ===== verification/User_Props.thy ===== *)
theory User_Props
  imports User_Inv Wallet_Props
begin

text \<open>
  The properties of the user node (\<^verbatim>\<open>src/user.rs\<close>): that its wallet stays sound whatever it is asked,
  that a payment to a peer is made once, and that the two sides of a receipt-based payment fit together.
\<close>

section \<open>The two sides of a receipt-based payment\<close>

lemma user_send_outbox:
  "user_send T p m s = (t, Inr ()) \<Longrightarrow> outbox (un_node t) = outbox (un_node s) @ [(p, Direct m (ut_token T))]"
  by (auto simp: user_send_def send_def send_message_def split: prod.splits sum.splits if_splits option.splits)

lemma rb_request_sent:
  assumes "send_rb_payment_request U T bob asset drs a = Some (a1, Inr ())"
  shows "\<exists>wa addr_a ka ins_a outs_a rq. generate_payment_address (uwallet U) (ut_rand T) (un_wallet a) = Some (wa, addr_a, ka) \<and>
    fetch_tx_ins_and_tx_outs (uwallet U) (ut_rand2 T) asset [] wa = Some (un_wallet a1, Inr (ins_a, outs_a)) \<and>
    outbox (un_node a1) = outbox (un_node a) @ [(bob, Direct (UToUser (SendRbPaymentRequest rq)) (ut_token T))] \<and>
    rq = \<lparr>rq_sender_address = addr_a, rq_sender_half_druid = ut_half_druid T,
       rq_sender_from_addr = construct_tx_ins_address U ins_a, rq_sender_asset = asset, rq_sender_drs_tx_expectation = drs\<rparr> \<and>
    next_rb_payment_data a1 = Some \<lparr>rb_sender_asset = asset, rb_sender_half_druid = ut_half_druid T, rb_tx_ins = ins_a, rb_tx_outs = outs_a\<rparr>"
proof -
  obtain wa addr_a ka q w where g: "generate_payment_address (uwallet U) (ut_rand T) (un_wallet a) = Some (wa, addr_a, ka)"
      "fetch_tx_ins_and_tx_outs (uwallet U) (ut_rand2 T) asset [] wa = Some (w, q)"
    using assms by (auto simp: send_rb_payment_request_def user_generate_payment_address_def option_bind_Some_iff)
  obtain ins_a outs_a where q: "q = Inr (ins_a, outs_a)"
    using assms g by (cases q) (auto simp: send_rb_payment_request_def user_generate_payment_address_def)
  define data where "data = \<lparr>rb_sender_asset = asset, rb_sender_half_druid = ut_half_druid T, rb_tx_ins = ins_a, rb_tx_outs = outs_a\<rparr>"
  define rq where "rq = \<lparr>rq_sender_address = addr_a, rq_sender_half_druid = ut_half_druid T,
       rq_sender_from_addr = construct_tx_ins_address U ins_a, rq_sender_asset = asset, rq_sender_drs_tx_expectation = drs\<rparr>"
  have "user_send T bob (UToUser (SendRbPaymentRequest rq)) (a\<lparr>un_wallet := w, next_rb_payment_data := Some data\<rparr>) = (a1, Inr ())"
    using assms g q by (simp add: send_rb_payment_request_def user_generate_payment_address_def
        make_rb_payment_send_tx_and_request_def rq_def data_def)
  then have "un_wallet a1 = w" "next_rb_payment_data a1 = Some data"
      "outbox (un_node a1) = outbox (un_node a) @ [(bob, Direct (UToUser (SendRbPaymentRequest rq)) (ut_token T))]"
    using user_send_outbox by (fastforce dest: user_send_node)+
  then show ?thesis using g q unfolding data_def rq_def by blast
qed

lemma rb_request_answered:
  assumes "receive_rb_payment_request U T peer rq b = Some (b1, respond True ''Received receipt-based payment request'')"
  shows "\<exists>wb addr kb ins outs. generate_payment_address (uwallet U) (ut_rand T) (un_wallet b) = Some (wb, addr, kb) \<and>
    fetch_tx_ins_and_tx_outs (uwallet U) (ut_rand2 T) (user_Asset_receipt U 1 (rq_sender_drs_tx_expectation rq) None) [] wb =
      Some (un_wallet b1, Inr (ins, outs)) \<and>
    b1 = b\<lparr>un_wallet := un_wallet b1,
      next_rb_payment := Some (Some peer, fst (make_rb_payment_receipt_tx_and_response U rq (ins, outs) (ut_half_druid T) addr)),
      next_rb_payment_response := Some (peer, Some (snd (make_rb_payment_receipt_tx_and_response U rq (ins, outs) (ut_half_druid T) addr)))\<rparr>"
proof -
  obtain wb addr kb q w where g: "generate_payment_address (uwallet U) (ut_rand T) (un_wallet b) = Some (wb, addr, kb)"
      "fetch_tx_ins_and_tx_outs (uwallet U) (ut_rand2 T) (user_Asset_receipt U 1 (rq_sender_drs_tx_expectation rq) None) [] wb = Some (w, q)"
    using assms by (auto simp: receive_rb_payment_request_def user_generate_payment_address_def option_bind_Some_iff)
  obtain ins outs where q: "q = Inr (ins, outs)"
    using assms g by (cases q) (auto simp: receive_rb_payment_request_def user_generate_payment_address_def respond_def)
  define m where "m = make_rb_payment_receipt_tx_and_response U rq (ins, outs) (ut_half_druid T) addr"
  have "b1 = b\<lparr>un_wallet := w, next_rb_payment := Some (Some peer, fst m), next_rb_payment_response := Some (peer, Some (snd m))\<rparr>"
    using assms g q by (simp add: receive_rb_payment_request_def user_generate_payment_address_def m_def split: prod.splits)
  then show ?thesis using g q unfolding m_def by (intro exI [of _ wb] exI [of _ addr] exI [of _ kb] exI [of _ ins] exI [of _ outs]) simp
qed

text \<open>
  What the constructors of the library put into the transactions of a receipt-based payment: the inputs, an
  output for what is paid, and the DRUID of two participants with the expectations; the amount of a token
  asset is its tokens.
\<close>

definition rb_constructors_ok :: "user_ext \<Rightarrow> bool" where
  "rb_constructors_ok U \<longleftrightarrow>
     (\<forall>ins outs a n lt d exps. let tx = construct_rb_payments_send_tx U ins outs a n lt d exps in
        inputs tx = ins \<and> (\<exists>out \<in> set (outputs tx). txout_value out = Token n \<and> script_public_key out = Some a) \<and>
        druid_info tx = Some \<lparr>druid = d, dde_participants = 2, expectations = exps\<rparr>) \<and>
     (\<forall>ins outs a lt d exps drs. let tx = construct_rb_receive_payment_tx U ins outs a lt d exps drs in
        inputs tx = ins \<and> (\<exists>out \<in> set (outputs tx). txout_value out = user_Asset_receipt U 1 drs None \<and> script_public_key out = Some a) \<and>
        druid_info tx = Some \<lparr>druid = d, dde_participants = 2, expectations = exps\<rparr>) \<and>
     (\<forall>n. token_amount U (Token n) = n)"

lemma rb_constructors_okD:
  assumes "rb_constructors_ok U"
  shows "inputs (construct_rb_payments_send_tx U ins outs a n lt d exps) = ins"
    "\<exists>out \<in> set (outputs (construct_rb_payments_send_tx U ins outs a n lt d exps)). txout_value out = Token n \<and> script_public_key out = Some a"
    "druid_info (construct_rb_payments_send_tx U ins outs a n lt d exps) = Some \<lparr>druid = d, dde_participants = 2, expectations = exps\<rparr>"
    "inputs (construct_rb_receive_payment_tx U ins outs a lt d exps drs) = ins"
    "\<exists>out \<in> set (outputs (construct_rb_receive_payment_tx U ins outs a lt d exps drs)).
       txout_value out = user_Asset_receipt U 1 drs None \<and> script_public_key out = Some a"
    "druid_info (construct_rb_receive_payment_tx U ins outs a lt d exps drs) = Some \<lparr>druid = d, dde_participants = 2, expectations = exps\<rparr>"
    "token_amount U (Token n) = n"
  using assms by (simp_all add: rb_constructors_ok_def Let_def)

text \<open>A transaction does what an expectation of another one asks for.\<close>

definition expectation_met :: "user_ext \<Rightarrow> DruidExpectation \<Rightarrow> Transaction \<Rightarrow> bool" where
  "expectation_met U e tx \<longleftrightarrow> exp_from e = construct_tx_ins_address U (inputs tx) \<and>
     (\<exists>out \<in> set (outputs tx). txout_value out = exp_asset e \<and> script_public_key out = Some (exp_to e))"

lemma rb_exchange_transactions:
  assumes "send_rb_payment_request U Ta bob asset drs a = Some (a1, Inr ())"
    and "last (outbox (un_node a1)) = (peer, Direct (UToUser (SendRbPaymentRequest rq)) token)"
    and "receive_rb_payment_request U Tb alice rq b = Some (b1, respond True ''Received receipt-based payment request'')"
  shows "\<exists>rs a2 txa txb wa addr_a ka ins_a outs_a wb addr_b kb ins_b outs_b.
    peer = bob \<and> next_rb_payment_response b1 = Some (alice, Some rs) \<and>
    receive_rb_payment_response U bob (Some rs) a1 = Some (a2, respond True ''Received receipt-based payment response'') \<and>
    next_rb_payment a2 = Some (Some bob, txa) \<and> next_rb_payment b1 = Some (Some alice, txb) \<and>
    generate_payment_address (uwallet U) (ut_rand Ta) (un_wallet a) = Some (wa, addr_a, ka) \<and>
    fetch_tx_ins_and_tx_outs (uwallet U) (ut_rand2 Ta) asset [] wa = Some (un_wallet a1, Inr (ins_a, outs_a)) \<and>
    generate_payment_address (uwallet U) (ut_rand Tb) (un_wallet b) = Some (wb, addr_b, kb) \<and>
    fetch_tx_ins_and_tx_outs (uwallet U) (ut_rand2 Tb) (user_Asset_receipt U 1 drs None) [] wb = Some (un_wallet b1, Inr (ins_b, outs_b)) \<and>
    txa = construct_rb_payments_send_tx U ins_a outs_a addr_b (token_amount U asset) 0 (ut_half_druid Ta @ ut_half_druid Tb)
      [\<lparr>exp_from = construct_tx_ins_address U ins_b, exp_to = addr_a, exp_asset = user_Asset_receipt U 1 drs None\<rparr>] \<and>
    txb = construct_rb_receive_payment_tx U ins_b outs_b addr_a 0 (ut_half_druid Ta @ ut_half_druid Tb)
      [\<lparr>exp_from = construct_tx_ins_address U ins_a, exp_to = addr_b, exp_asset = asset\<rparr>] drs"
proof -
  obtain wa addr_a ka ins_a outs_a rq' where g: "generate_payment_address (uwallet U) (ut_rand Ta) (un_wallet a) = Some (wa, addr_a, ka)"
      "fetch_tx_ins_and_tx_outs (uwallet U) (ut_rand2 Ta) asset [] wa = Some (un_wallet a1, Inr (ins_a, outs_a))"
    and a: "outbox (un_node a1) = outbox (un_node a) @ [(bob, Direct (UToUser (SendRbPaymentRequest rq')) (ut_token Ta))]"
    and rq': "rq' = \<lparr>rq_sender_address = addr_a, rq_sender_half_druid = ut_half_druid Ta,
       rq_sender_from_addr = construct_tx_ins_address U ins_a, rq_sender_asset = asset, rq_sender_drs_tx_expectation = drs\<rparr>"
    and d: "next_rb_payment_data a1 = Some \<lparr>rb_sender_asset = asset, rb_sender_half_druid = ut_half_druid Ta, rb_tx_ins = ins_a, rb_tx_outs = outs_a\<rparr>"
    using rb_request_sent [OF assms(1)] by blast
  have rq: "rq = rq'" "peer = bob" using assms(2) a by auto
  obtain wb addr_b kb ins_b outs_b where b: "generate_payment_address (uwallet U) (ut_rand Tb) (un_wallet b) = Some (wb, addr_b, kb)"
      "fetch_tx_ins_and_tx_outs (uwallet U) (ut_rand2 Tb) (user_Asset_receipt U 1 (rq_sender_drs_tx_expectation rq) None) [] wb = Some (un_wallet b1, Inr (ins_b, outs_b))"
      "b1 = b\<lparr>un_wallet := un_wallet b1,
         next_rb_payment := Some (Some alice, fst (make_rb_payment_receipt_tx_and_response U rq (ins_b, outs_b) (ut_half_druid Tb) addr_b)),
         next_rb_payment_response := Some (alice, Some (snd (make_rb_payment_receipt_tx_and_response U rq (ins_b, outs_b) (ut_half_druid Tb) addr_b)))\<rparr>"
    using rb_request_answered [OF assms(3)] by blast
  let ?m = "make_rb_payment_receipt_tx_and_response U rq (ins_b, outs_b) (ut_half_druid Tb) addr_b"
  have n: "next_rb_payment_response b1 = Some (alice, Some (snd ?m))" "next_rb_payment b1 = Some (Some alice, fst ?m)"
    by (subst b(3), simp)+
  let ?a2 = "a1\<lparr>next_rb_payment_data := None, next_rb_payment := Some (Some bob, make_rb_payment_send_transaction U (snd ?m)
      \<lparr>rb_sender_asset = asset, rb_sender_half_druid = ut_half_druid Ta, rb_tx_ins = ins_a, rb_tx_outs = outs_a\<rparr>)\<rparr>"
  have r: "receive_rb_payment_response U bob (Some (snd ?m)) a1 = Some (?a2, respond True ''Received receipt-based payment response'')"
    using d by (simp add: receive_rb_payment_response_def)
  show ?thesis
    by (intro exI conjI, rule rq(2), rule n(1), rule r)
      (use g b(1,2) n(2) rq rq' in \<open>auto simp: make_rb_payment_send_transaction_def make_rb_payment_receipt_tx_and_response_def Let_def\<close>)
qed

section \<open>The payment of a peer\<close>

text \<open>What is to be paid to a peer: what the user asked for, or else the automatic donation.\<close>

definition payment_due :: "(SocketAddr, PendingPayment) fmap \<Rightarrow> AutoDonate \<Rightarrow> SocketAddr \<Rightarrow> (TokenAmount \<times> u64 option) option" where
  "payment_due pending donate peer =
     (case fmlookup pending peer of
        Some p \<Rightarrow> Some (pending_amount p, pending_locktime p)
      | None \<Rightarrow> (case donate of Enabled n \<Rightarrow> Some (n, None) | Disabled \<Rightarrow> None))"

lemma pending_ignored:
  assumes "pending_payments s = (pending, donate)" and "payment_due pending donate peer = None"
  shows "process_pending_payment_transactions U T peer address s = Some (s, Some (respond False ''Ignore unexpected transaction''))"
proof -
  have n: "fmlookup pending peer = None" "donate = Disabled"
    using assms(2) by (auto simp: payment_due_def split: option.splits AutoDonate.splits)
  have d: "fmdrop peer pending = pending" using n(1) by (intro fmap_ext) simp
  have "s\<lparr>pending_payments := pending_payments s\<rparr> = s" by simp
  then have "s\<lparr>pending_payments := (fmdrop peer pending, Disabled)\<rparr> = s" using assms(1) n(2) d by simp
  then show ?thesis using assms(1) n by (simp add: process_pending_payment_transactions_def)
qed

lemma make_payment_made:
  assumes "make_payment_transactions U T peer address amount lt s = Some (t, a)"
  shows "\<exists>paid. fetch_tx_ins_and_tx_outs_provided_excess (uwallet U) (ut_rand T) (Token amount)
      [(TxOut_new_token_amount (wgen U) address amount)\<lparr>locktime := (case lt of None \<Rightarrow> 0 | Some n \<Rightarrow> n)\<rparr>] None (un_wallet s) =
      Some (un_wallet t, paid) \<and>
    (case paid of
       Inl _ \<Rightarrow> next_payment t = next_payment s \<and> a = respond False ''Insufficient funds for payment''
     | Inr (ins, outs) \<Rightarrow> next_payment t = Some (peer, gen_construct_tx_core U ins outs) \<and>
         a = respond True ''Next payment transaction ready'')"
proof -
  define out where "out = (TxOut_new_token_amount (wgen U) address amount)\<lparr>locktime := (case lt of None \<Rightarrow> 0 | Some n \<Rightarrow> n)\<rparr>"
  obtain w p where p: "fetch_tx_ins_and_tx_outs_provided_excess (uwallet U) (ut_rand T) (Token amount) [out] None (un_wallet s) = Some (w, p)"
    using assms by (auto simp: make_payment_transactions_def make_payment_transactions_provided_excess_def option_bind_Some_iff Let_def out_def)
  then show ?thesis
    using assms unfolding out_def
    by (cases p) (auto simp: make_payment_transactions_def make_payment_transactions_provided_excess_def Let_def)
qed

section \<open>Properties\<close>

text \<open>C20: The wallet of a user node. In every run of a user node, from its start with a new wallet, one that
  is opened again, or that of a miner, and without seeds, through requests, blocks, payments and UTXO sets in
  any order and its reactions to them, every unspent outpoint of its wallet has a known address whose
  keys can be decrypted, and the running total is their sum; received payments and UTXO sets may hold
  outpoints that are spent already. Relied on: decoding inverts encoding, opening a box inverts sealing it,
  the arithmetic of assets; that what is stored fits into 64 bits with what is there; and that addresses to
  delete are not named like another entry of the database and are deleted while no outpoint is both spent
  and unspent.\<close>

theorem user_wallet_sound:
  assumes "wallet_ext_ok (uwallet U)" and "asset_arith_ok (wfund (uwallet U))" and "secret_box_ok (uwallet U)"
    and "user_reachable U (s, r)"
  shows "\<exists>funds known. get_fund_store (uwallet U) (w_db (un_wallet s)) = Some funds \<and>
    get_known_key_address (uwallet U) (w_db (un_wallet s)) = Some known \<and> balanced funds \<and>
    (\<forall>op. op |\<in>| fmdom (fs_transactions funds) \<longrightarrow>
       (\<exists>ts keys. get_transaction_store (uwallet U) op (w_db (un_wallet s)) = Some ts \<and> key_address ts |\<in>| known \<and>
          get_address_store (uwallet U) (key_address ts) (encryption_key (un_wallet s)) (w_db (un_wallet s)) = Some keys))"
  using wallet_ok_contents [OF wallet_reachable_ok [OF assms(1-3)]] user_reachable_sound [OF assms(4)] by simp

text \<open>C21: What is paid to a peer that sends its address. It is the amount the user asked to pay that peer, or
  else the automatic donation, if it is on; otherwise the address is ignored and nothing changes. The
  request to pay is used up either way: the wallet provides the inputs of the amount to that address and the
  payment is ready to be sent, or they are refused for lack of funds and nothing is ready. With automatic
  donations off, until the user asks to pay that peer again, all further addresses of that peer are ignored
  and change nothing, whatever else the node does in between.\<close>

theorem pending_payment_once:
  assumes "pending_payments s = (pending, donate)"
    and "user_handle_request U T peer (SendPaymentAddress address) s = Some (t, r)"
  shows "(case payment_due pending donate peer of
       None \<Rightarrow> t = s \<and> r = Some (respond False ''Ignore unexpected transaction'')
     | Some (amount, lt) \<Rightarrow> pending_payments t = (fmdrop peer pending, donate) \<and>
         (\<exists>paid. fetch_tx_ins_and_tx_outs_provided_excess (uwallet U) (ut_rand T) (Token amount)
              [(TxOut_new_token_amount (wgen U) address amount)\<lparr>locktime := (case lt of None \<Rightarrow> 0 | Some n \<Rightarrow> n)\<rparr>] None (un_wallet s) =
              Some (un_wallet t, paid) \<and>
            (case paid of
               Inl _ \<Rightarrow> next_payment t = next_payment s \<and> r = Some (respond False ''Insufficient funds for payment'')
             | Inr (ins, outs) \<Rightarrow> next_payment t = Some (Some peer, gen_construct_tx_core U ins outs) \<and>
                 r = Some (respond True ''Next payment transaction ready'')))) \<and>
    (donate = Disabled \<longrightarrow> user_run_without U peer (t, q) (u, q') \<longrightarrow>
       user_handle_request U T' peer (SendPaymentAddress address') u = Some (u, Some (respond False ''Ignore unexpected transaction'')))"
proof (intro conjI impI)
  have p: "process_pending_payment_transactions U T peer address s = Some (t, r)" using assms(2) by simp
  have t: "pending_payments t = (fmdrop peer pending, donate)" by (rule process_pending_only [OF p assms(1)])
  show "case payment_due pending donate peer of
       None \<Rightarrow> t = s \<and> r = Some (respond False ''Ignore unexpected transaction'')
     | Some (amount, lt) \<Rightarrow> pending_payments t = (fmdrop peer pending, donate) \<and>
         (\<exists>paid. fetch_tx_ins_and_tx_outs_provided_excess (uwallet U) (ut_rand T) (Token amount)
              [(TxOut_new_token_amount (wgen U) address amount)\<lparr>locktime := (case lt of None \<Rightarrow> 0 | Some n \<Rightarrow> n)\<rparr>] None (un_wallet s) =
              Some (un_wallet t, paid) \<and>
            (case paid of
               Inl _ \<Rightarrow> next_payment t = next_payment s \<and> r = Some (respond False ''Insufficient funds for payment'')
             | Inr (ins, outs) \<Rightarrow> next_payment t = Some (Some peer, gen_construct_tx_core U ins outs) \<and>
                 r = Some (respond True ''Next payment transaction ready'')))"
  proof (cases "payment_due pending donate peer")
    case None
    then show ?thesis using pending_ignored [OF assms(1)] p by simp
  next
    case (Some x)
    obtain amount lt where x: "x = (amount, lt)" by (cases x)
    let ?s = "s\<lparr>pending_payments := (fmdrop peer pending, donate)\<rparr>"
    obtain a where a: "r = Some a" "make_payment_transactions U T (Some peer) address amount lt ?s = Some (t, a)"
      using p assms(1) Some x
      by (cases "fmlookup pending peer"; cases donate)
        (auto simp: process_pending_payment_transactions_def payment_due_def option_bind_Some_iff)
    have same: "un_wallet ?s = un_wallet s" "next_payment ?s = next_payment s" by simp_all
    obtain paid where paid: "fetch_tx_ins_and_tx_outs_provided_excess (uwallet U) (ut_rand T) (Token amount)
        [(TxOut_new_token_amount (wgen U) address amount)\<lparr>locktime := (case lt of None \<Rightarrow> 0 | Some n \<Rightarrow> n)\<rparr>] None (un_wallet s) =
        Some (un_wallet t, paid)"
      "case paid of Inl _ \<Rightarrow> next_payment t = next_payment s \<and> a = respond False ''Insufficient funds for payment''
       | Inr (ins, outs) \<Rightarrow> next_payment t = Some (Some peer, gen_construct_tx_core U ins outs) \<and>
           a = respond True ''Next payment transaction ready''"
      using make_payment_made [OF a(2), unfolded same] by blast
    show ?thesis
      unfolding Some x option.case prod.case
      by (intro conjI t exI [of _ paid] paid(1)) (use paid(2) a(1) in \<open>cases paid; auto\<close>)
  qed
  show "user_handle_request U T' peer (SendPaymentAddress address') u = Some (u, Some (respond False ''Ignore unexpected transaction''))"
    if "donate = Disabled" "user_run_without U peer (t, q) (u, q')"
  proof -
    have "fmlookup (fst (pending_payments u)) peer = None" "snd (pending_payments u) = Disabled"
      using user_run_pending [OF that(2)] t that(1) by simp_all
    then show ?thesis
      using pending_ignored [of u "fst (pending_payments u)" Disabled peer U T' address'] by (simp add: payment_due_def prod_eq_iff)
  qed
qed

text \<open>C22: A receipt-based payment of tokens between two users. Alice's request reaches Bob, who can provide the
  receipt; his response reaches Alice. The transactions that are then ready on both sides carry the same
  DRUID, made of a half of each, for two participants; the inputs are those each wallet has provided for
  what it pays. Alice's expects one receipt at her new address, Bob's expects the tokens at his new
  address, and each transaction meets the expectation of the other: it has the inputs the other expects
  it to come from and an output with the expected asset to the expected address. Relied on: the
  constructors of the library put inputs, the paid output, the DRUID and the expectations into the
  transaction.\<close>

theorem rb_payment_exchange:
  assumes "rb_constructors_ok U"
    and "send_rb_payment_request U Ta bob (Token n) drs a = Some (a1, Inr ())"
    and "last (outbox (un_node a1)) = (peer, Direct (UToUser (SendRbPaymentRequest rq)) token)"
    and "receive_rb_payment_request U Tb alice rq b = Some (b1, respond True ''Received receipt-based payment request'')"
  shows "\<exists>rs a2 txa txb da db wa addr_a ka outs_a wb addr_b kb outs_b.
    peer = bob \<and> next_rb_payment_response b1 = Some (alice, Some rs) \<and>
    receive_rb_payment_response U bob (Some rs) a1 = Some (a2, respond True ''Received receipt-based payment response'') \<and>
    next_rb_payment a2 = Some (Some bob, txa) \<and> next_rb_payment b1 = Some (Some alice, txb) \<and>
    generate_payment_address (uwallet U) (ut_rand Ta) (un_wallet a) = Some (wa, addr_a, ka) \<and>
    fetch_tx_ins_and_tx_outs (uwallet U) (ut_rand2 Ta) (Token n) [] wa = Some (un_wallet a1, Inr (inputs txa, outs_a)) \<and>
    generate_payment_address (uwallet U) (ut_rand Tb) (un_wallet b) = Some (wb, addr_b, kb) \<and>
    fetch_tx_ins_and_tx_outs (uwallet U) (ut_rand2 Tb) (user_Asset_receipt U 1 drs None) [] wb =
      Some (un_wallet b1, Inr (inputs txb, outs_b)) \<and>
    druid_info txa = Some da \<and> druid_info txb = Some db \<and>
    druid da = ut_half_druid Ta @ ut_half_druid Tb \<and> druid db = druid da \<and> dde_participants da = 2 \<and> dde_participants db = 2 \<and>
    map (\<lambda>e. (exp_to e, exp_asset e)) (expectations da) = [(addr_a, user_Asset_receipt U 1 drs None)] \<and>
    map (\<lambda>e. (exp_to e, exp_asset e)) (expectations db) = [(addr_b, Token n)] \<and>
    list_all (\<lambda>e. expectation_met U e txb) (expectations da) \<and> list_all (\<lambda>e. expectation_met U e txa) (expectations db)"
proof -
  obtain rs a2 txa txb wa addr_a ka ins_a outs_a wb addr_b kb ins_b outs_b where e:
    "peer = bob" "next_rb_payment_response b1 = Some (alice, Some rs)"
    "receive_rb_payment_response U bob (Some rs) a1 = Some (a2, respond True ''Received receipt-based payment response'')"
    "next_rb_payment a2 = Some (Some bob, txa)" "next_rb_payment b1 = Some (Some alice, txb)"
    "generate_payment_address (uwallet U) (ut_rand Ta) (un_wallet a) = Some (wa, addr_a, ka)"
    "fetch_tx_ins_and_tx_outs (uwallet U) (ut_rand2 Ta) (Token n) [] wa = Some (un_wallet a1, Inr (ins_a, outs_a))"
    "generate_payment_address (uwallet U) (ut_rand Tb) (un_wallet b) = Some (wb, addr_b, kb)"
    "fetch_tx_ins_and_tx_outs (uwallet U) (ut_rand2 Tb) (user_Asset_receipt U 1 drs None) [] wb = Some (un_wallet b1, Inr (ins_b, outs_b))"
    and txa: "txa = construct_rb_payments_send_tx U ins_a outs_a addr_b (token_amount U (Token n)) 0 (ut_half_druid Ta @ ut_half_druid Tb)
      [\<lparr>exp_from = construct_tx_ins_address U ins_b, exp_to = addr_a, exp_asset = user_Asset_receipt U 1 drs None\<rparr>]"
    and txb: "txb = construct_rb_receive_payment_tx U ins_b outs_b addr_a 0 (ut_half_druid Ta @ ut_half_druid Tb)
      [\<lparr>exp_from = construct_tx_ins_address U ins_a, exp_to = addr_b, exp_asset = Token n\<rparr>] drs"
    using rb_exchange_transactions [OF assms(2-4)] by (elim exE conjE) (rule that, assumption+)
  note ca = rb_constructors_okD(1-3) [OF assms(1), of ins_a outs_a addr_b "token_amount U (Token n)" 0 "ut_half_druid Ta @ ut_half_druid Tb"
      "[\<lparr>exp_from = construct_tx_ins_address U ins_b, exp_to = addr_a, exp_asset = user_Asset_receipt U 1 drs None\<rparr>]", folded txa]
  note cb = rb_constructors_okD(4-6) [OF assms(1), of ins_b outs_b addr_a 0 "ut_half_druid Ta @ ut_half_druid Tb"
      "[\<lparr>exp_from = construct_tx_ins_address U ins_a, exp_to = addr_b, exp_asset = Token n\<rparr>]" drs, folded txb]
  show ?thesis
  proof (intro exI conjI)
    show "druid_info txa = Some \<lparr>druid = ut_half_druid Ta @ ut_half_druid Tb, dde_participants = 2,
        expectations = [\<lparr>exp_from = construct_tx_ins_address U ins_b, exp_to = addr_a, exp_asset = user_Asset_receipt U 1 drs None\<rparr>]\<rparr>"
      by (rule ca(3))
    show "druid_info txb = Some \<lparr>druid = ut_half_druid Ta @ ut_half_druid Tb, dde_participants = 2,
        expectations = [\<lparr>exp_from = construct_tx_ins_address U ins_a, exp_to = addr_b, exp_asset = Token n\<rparr>]\<rparr>"
      by (rule cb(3))
    show "fetch_tx_ins_and_tx_outs (uwallet U) (ut_rand2 Ta) (Token n) [] wa = Some (un_wallet a1, Inr (inputs txa, outs_a))"
      "fetch_tx_ins_and_tx_outs (uwallet U) (ut_rand2 Tb) (user_Asset_receipt U 1 drs None) [] wb = Some (un_wallet b1, Inr (inputs txb, outs_b))"
      using e(7,9) ca(1) cb(1) by simp_all
  qed (use e ca cb rb_constructors_okD(7) [OF assms(1)] in \<open>simp_all add: expectation_met_def\<close>)
qed

section \<open>Witnesses\<close>

definition user_demo_addr :: SocketAddr where "user_demo_addr = V4 1 1"
definition compute_demo_addr :: SocketAddr where "compute_demo_addr = V4 2 2"
definition peer_demo_addr :: SocketAddr where "peer_demo_addr = V4 3 3"

definition user_demo_peer :: Peer where
  "user_demo_peer = \<lparr>peer_network_version = Some 6, peer_remote_addr = compute_demo_addr, peer_type = Some Compute,
     peer_public_address = Some compute_demo_addr, notify_tx = False, notify_rx = RxNone\<rparr>"

definition demo_gen :: gen_ext where
  "demo_gen = wallet_ext.extend demo_wallet (gen_ext.fields 6
     (\<lambda>ins outs. \<lparr>inputs = ins, outputs = outs, tx_version = 6, druid_info = None\<rparr>) (\<lambda>_. None) (\<lambda>_. None))"

definition demo_block :: Block where
  "demo_block = \<lparr>header = \<lparr>header_version = 6, bits = 0, nonce_and_mining_tx_hash = ([], []), b_num = 0, seed_value = [],
     previous_hash = None, txs_merkle_root_and_hash = ([], [])\<rparr>, transactions = []\<rparr>"

definition demo_user :: user_ext where
  "demo_user = gen_ext.extend demo_gen (user_ext.fields demo_block
     (\<lambda>n h m. Receipt \<lparr>receipt_amount = n, drs_tx_hash = h, metadata = m\<rparr>)
     (\<lambda>ins. ''from'')
     (\<lambda>ins outs a lt d exps drs. \<lparr>inputs = ins,
        outputs = \<lparr>txout_value = Receipt \<lparr>receipt_amount = 1, drs_tx_hash = drs, metadata = None\<rparr>, locktime = lt, drs_block_hash = None,
          script_public_key = Some a\<rparr> # outs,
        tx_version = 6, druid_info = Some \<lparr>druid = d, dde_participants = 2, expectations = exps\<rparr>\<rparr>)
     (\<lambda>ins outs a n lt d exps. \<lparr>inputs = ins,
        outputs = \<lparr>txout_value = Token n, locktime = lt, drs_block_hash = None, script_public_key = Some a\<rparr> # outs,
        tx_version = 6, druid_info = Some \<lparr>druid = d, dde_participants = 2, expectations = exps\<rparr>\<rparr>)
     (\<lambda>bn pk sk n spec meta. \<lparr>inputs = [], outputs = [], tx_version = 6, druid_info = None\<rparr>))"

lemma demo_user_wallet [simp]: "uwallet demo_user = demo_wallet"
  by (simp add: demo_user_def demo_gen_def gen_ext.defs user_ext.defs wallet_ext.defs)

lemmas [code] = gen_ext.defs user_ext.defs

definition user_demo_tick :: user_tick where
  "user_demo_tick = \<lparr>ut_token = 7, ut_stream = Inr peer_demo_addr, ut_wait = Some, ut_join = True, ut_rand = wallet_rand2,
     ut_rand2 = wallet_rand1, ut_half_druid = ''x''\<rparr>"

definition user_demo_node :: "UserRequest list \<Rightarrow> user_msg Node" where
  "user_demo_node reqs = (Node_new_with_version user_demo_addr 8 User 6)
     \<lparr>node_peers := fmupd peer_demo_addr user_demo_peer (fmupd compute_demo_addr user_demo_peer fmempty),
      node_events := map (\<lambda>r. (user_demo_addr, UToUser r)) reqs\<rparr>"

definition user_demo_config :: UserNodeConfig where
  "user_demo_config = \<lparr>user_compute_node_idx = 0, user_compute_nodes = [compute_demo_addr], user_wallet_seeds = [],
     user_passphrase = Some ''p'', user_auto_donate = 0,
     user_test_auto_gen_setup = \<lparr>user_initial_transactions = [], user_setup_tx_chunk_size = None, user_setup_tx_in_per_tx = None,
       user_setup_tx_max_count = 0\<rparr>\<rparr>"

definition demo_pay_request :: UserRequest where
  "demo_pay_request = UserApi (MakePayment ''bob'' 5 None)"

text \<open>A node that is asked to pay, prepares the payment, and sends it.\<close>

definition user_demo0 :: UserNode where
  "user_demo0 = the (Option.bind (UserNode_new demo_user user_demo_tick user_demo_config (user_demo_node [demo_pay_request])
     (Some wallet_demo3) None) (case_sum (\<lambda>_. None) Some))"

definition user_demo1 :: UserNode where
  "user_demo1 = fst (the (user_handle_next_event demo_user user_demo_tick UEventFrame user_demo0))"

definition user_demo2 :: UserNode where
  "user_demo2 = fst (the (user_handle_next_event_response demo_user user_demo_tick (Inr (respond True ''Next payment transaction ready'')) user_demo1))"

lemma user_demo_runs:
  "UserNode_new demo_user user_demo_tick user_demo_config (user_demo_node [demo_pay_request]) (Some wallet_demo3) None = Some (Inr user_demo0)"
  by code_simp

lemma user_demo_runs2:
  "user_handle_next_event demo_user user_demo_tick UEventFrame user_demo0 =
     Some (user_demo1, Some (Inr (respond True ''Next payment transaction ready'')))"
  by code_simp

lemma user_demo_runs3:
  "user_handle_next_event_response demo_user user_demo_tick (Inr (respond True ''Next payment transaction ready'')) user_demo1 =
     Some (user_demo2, Continue)"
  by code_simp

lemma demo_tick_ok: "user_tick_ok demo_user user_demo_tick"
proof -
  have "NONCE_LEN demo_wallet = 1" by (simp add: demo_wallet_simps)
  then show ?thesis by (simp add: user_tick_ok_def user_demo_tick_def wallet_rand1_def wallet_rand2_def)
qed

lemma user_demo_wallet1: "un_wallet user_demo1 = wallet_demo4"
  by code_simp

lemma user_demo_wallet2: "un_wallet user_demo2 = wallet_demo4"
  by code_simp

lemma user_demo_waiting: "(received_utxo_set user_demo1, next_rb_payment user_demo1) = (None, None)"
  by code_simp

lemmas user_demo_facts = user_demo_wallet1 user_demo_wallet2 user_demo_waiting [unfolded prod.inject]

lemma user_demo_known: "get_known_key_address demo_wallet (w_db wallet_demo4) = Some {|''addr1'', ''addr2''|}"
  by code_simp

lemma user_demo_total: "running_total wallet_funds2 = \<lparr>tokens = 7, receipts = fmempty\<rparr>"
  by code_simp

lemma nothing_fits: "payments_fit demo_wallet wallet_demo4 []"
  by (auto simp: payments_fit_def user_demo_known wallet_demo_funds(3) payments_ok_def user_demo_total asset_total_cases)

lemma user_demo_tx: "get_paiments_for_wallet demo_wallet
    [(wallet_tx_hash demo_wallet (snd (the (next_payment user_demo1))), snd (the (next_payment user_demo1)))] = Some []"
  by code_simp

lemma user_demo_reaction_ok: "user_reaction_ok demo_user user_demo1"
  using user_demo_tx nothing_fits by (auto simp: user_reaction_ok_def tx_fits_def user_demo_facts)

lemma user_demo_reachable: "user_reachable demo_user (user_demo2, None)"
proof -
  have "user_start_ok demo_user user_demo_tick user_demo_config (Some wallet_demo3) None"
    using wallet_demo_reachable(1) by (simp add: user_start_ok_def user_demo_config_def)
  then have 0: "user_reachable demo_user (user_demo0, None)" using user_demo_runs by (rule user_reachable.start)
  have "node_events (un_node user_demo0) = [(user_demo_addr, UToUser demo_pay_request)]" by code_simp
  then have "user_event_ok demo_user user_demo0 UEventFrame" by (simp add: demo_pay_request_def)
  then have 1: "user_reachable demo_user (user_demo1, Some (Inr (respond True ''Next payment transaction ready'')))"
    by (rule user_reachable.event [OF 0 demo_tick_ok _ user_demo_runs2])
  show ?thesis by (rule user_reachable.react [OF 1 demo_tick_ok user_demo_reaction_ok user_demo_runs3])
qed

theorem user_wallet_sound_witness:
  "user_reachable demo_user (user_demo2, None) \<and> balanced wallet_funds2 \<and>
     get_fund_store demo_wallet (w_db (un_wallet user_demo2)) = Some wallet_funds2"
proof -
  have "wallet_ext_ok (uwallet demo_user)" "asset_arith_ok (wfund (uwallet demo_user))" "secret_box_ok (uwallet demo_user)"
    using demo_wallet_ext_ok demo_asset_arith_ok demo_secret_box_ok by simp_all
  then show ?thesis
    using user_wallet_sound [OF _ _ _ user_demo_reachable] user_demo_reachable user_demo_facts(2) wallet_demo_funds(3) by auto
qed

text \<open>A node that is to pay a peer, gets the peer's address, and sends the payment.\<close>

definition pending_demo0 :: UserNode where
  "pending_demo0 = user_demo0\<lparr>pending_payments := (fmupd peer_demo_addr \<lparr>pending_amount = 5, pending_locktime = None\<rparr> fmempty, Disabled)\<rparr>"

definition pending_demo1 :: UserNode where
  "pending_demo1 = fst (the (user_handle_request demo_user user_demo_tick peer_demo_addr (SendPaymentAddress ''bob'') pending_demo0))"

definition pending_demo2 :: UserNode where
  "pending_demo2 = fst (the (user_handle_next_event_response demo_user user_demo_tick
     (Inr (respond True ''Next payment transaction ready'')) pending_demo1))"

lemma pending_demo_pays:
  "user_handle_request demo_user user_demo_tick peer_demo_addr (SendPaymentAddress ''bob'') pending_demo0 =
     Some (pending_demo1, Some (respond True ''Next payment transaction ready''))"
  by code_simp

lemma pending_demo_sends:
  "user_handle_next_event_response demo_user user_demo_tick (Inr (respond True ''Next payment transaction ready'')) pending_demo1 =
     Some (pending_demo2, Continue)"
  by code_simp

theorem pending_payment_once_witness:
  "fmlookup (fst (pending_payments pending_demo0)) peer_demo_addr \<noteq> None \<and> un_wallet pending_demo2 = wallet_demo4 \<and>
     user_handle_request demo_user user_demo_tick peer_demo_addr (SendPaymentAddress ''bob'') pending_demo2 =
       Some (pending_demo2, Some (respond False ''Ignore unexpected transaction''))"
proof -
  have e: "node_events (un_node pending_demo1) = [(user_demo_addr, UToUser demo_pay_request)]" by code_simp
  then have "\<not> asks_to_pay peer_demo_addr pending_demo1" by (simp add: asks_to_pay_def demo_pay_request_def)
  then have run: "user_run_without demo_user peer_demo_addr
      (pending_demo1, Some (Inr (respond True ''Next payment transaction ready''))) (pending_demo2, None)"
    using user_step.react [OF pending_demo_sends] by (auto simp: user_run_without_def intro: r_into_rtranclp)
  have p: "pending_payments pending_demo0 = (fmupd peer_demo_addr \<lparr>pending_amount = 5, pending_locktime = None\<rparr> fmempty, Disabled)"
    by (simp add: pending_demo0_def)
  have "un_wallet pending_demo2 = wallet_demo4" by code_simp
  moreover have "fmlookup (fst (pending_payments pending_demo0)) peer_demo_addr \<noteq> None" using p by simp
  moreover have "user_handle_request demo_user user_demo_tick peer_demo_addr (SendPaymentAddress ''bob'') pending_demo2 =
       Some (pending_demo2, Some (respond False ''Ignore unexpected transaction''))"
    using conjunct2 [OF pending_payment_once [OF p pending_demo_pays]] run by blast
  ultimately show ?thesis by blast
qed

text \<open>Alice pays five tokens for a receipt that Bob holds.\<close>

definition bob_wallet :: WalletDb where
  "bob_wallet = fst (the (save_usable_payments_to_wallet demo_wallet [(demo_outpoint ''a'', one_receipt, ''addr1'', 0)] 1 wallet_demo2))"

definition bob_demo0 :: UserNode where
  "bob_demo0 = user_demo0\<lparr>un_wallet := bob_wallet\<rparr>"

definition alice_demo1 :: UserNode where
  "alice_demo1 = fst (the (send_rb_payment_request demo_user user_demo_tick peer_demo_addr (Token 5) (Some ''r'') user_demo0))"

definition demo_rb_request :: RbPaymentRequestData where
  "demo_rb_request = \<lparr>rq_sender_address = ''addr2'', rq_sender_half_druid = ''x'', rq_sender_from_addr = ''from'',
     rq_sender_asset = Token 5, rq_sender_drs_tx_expectation = Some ''r''\<rparr>"

definition bob_demo1 :: UserNode where
  "bob_demo1 = fst (the (receive_rb_payment_request demo_user (user_demo_tick\<lparr>ut_half_druid := ''y''\<rparr>) user_demo_addr demo_rb_request bob_demo0))"

lemma alice_demo_request:
  "send_rb_payment_request demo_user user_demo_tick peer_demo_addr (Token 5) (Some ''r'') user_demo0 = Some (alice_demo1, Inr ())"
  by code_simp

lemma alice_demo_sent:
  "last (outbox (un_node alice_demo1)) = (peer_demo_addr, Direct (UToUser (SendRbPaymentRequest demo_rb_request)) 7)"
  by code_simp

lemma bob_demo_request:
  "receive_rb_payment_request demo_user (user_demo_tick\<lparr>ut_half_druid := ''y''\<rparr>) user_demo_addr demo_rb_request bob_demo0 =
     Some (bob_demo1, respond True ''Received receipt-based payment request'')"
  by code_simp

lemma demo_rb_constructors_ok: "rb_constructors_ok demo_user"
proof -
  have "token_amount demo_user (Token n) = n" for n
    by (simp add: demo_user_def demo_gen_def gen_ext.defs user_ext.defs demo_wallet_simps demo_funds_def)
  then show ?thesis
    by (simp add: rb_constructors_ok_def Let_def) (simp add: demo_user_def demo_gen_def gen_ext.defs user_ext.defs)
qed

theorem rb_payment_exchange_witness:
  "\<exists>rs a2 txa txb da. next_rb_payment_response bob_demo1 = Some (user_demo_addr, Some rs) \<and>
     receive_rb_payment_response demo_user peer_demo_addr (Some rs) alice_demo1 =
       Some (a2, respond True ''Received receipt-based payment response'') \<and>
     next_rb_payment a2 = Some (Some peer_demo_addr, txa) \<and> next_rb_payment bob_demo1 = Some (Some user_demo_addr, txb) \<and>
     druid_info txa = Some da \<and> druid da = ''xy'' \<and> list_all (\<lambda>e. expectation_met demo_user e txb) (expectations da)"
proof -
  have d: "ut_half_druid user_demo_tick @ ut_half_druid (user_demo_tick\<lparr>ut_half_druid := ''y''\<rparr>) = ''xy''"
    by (simp add: user_demo_tick_def)
  show ?thesis
    using rb_payment_exchange [OF demo_rb_constructors_ok alice_demo_request alice_demo_sent bob_demo_request] unfolding d
    by (elim exE conjE) (intro exI conjI)
qed

end
