(* ===== verification/Spec2Isabelle.thy ===== *)
theory Spec2Isabelle
  imports
    Unicorn Block_Pipeline Raft_Util Tracked_Utxo Genesis Compute_Consensused Compute_Raft
    Storage_Keys Storage_Fetch Db_Utils Storage_Raft Comms Storage_Node Storage_Chain
    Fund_Store Wallet_Db Wallet_Inv Wallet_Props Node_Utils Compute_Node Compute_Inv Compute_Props
    Tx_Gen User_Node User_Inv User_Props
begin

text \<open>
  A verification development for the nodes of the Zenotta network (the crate under
  \<^verbatim>\<open>src/src/\<close>).

  \<^bold>\<open>The program.\<close> Compute nodes collect transactions and let miners compete for the next block;
  storage nodes store the mined blocks; miners and users have wallets. The nodes of one kind form a
  RAFT group: an item is proposed, comes back as a commit in the same order on every node, and only
  then changes the agreed state. A compute node agrees on the pools of transactions, the UTXO set
  and the phases of mining (\<^verbatim>\<open>compute_raft.rs\<close>, \<^verbatim>\<open>block_pipeline.rs\<close>); mined blocks go to
  the storage nodes, which agree on the block that a majority of senders reported
  (\<^verbatim>\<open>storage_raft.rs\<close>), write it to their database (\<^verbatim>\<open>storage.rs\<close>, \<^verbatim>\<open>db_utils.rs\<close>) and fetch
  the blocks they missed from each other (\<^verbatim>\<open>storage_fetch.rs\<close>); the stored block's information
  returns to the compute nodes as votes for the next block. All of them talk through one network
  node (\<^verbatim>\<open>comms_handler/node.rs\<close>).

  \<^bold>\<open>Conventions.\<close> A struct is a record, an enum a datatype, a method a function from the state to
  the new state and the result. A panic is \<open>None\<close> of the type \<open>may_panic\<close>; an error is \<open>Inl\<close> of a
  sum. \<open>u8\<close>, \<open>u32\<close> and \<open>u64\<close> are words, whose arithmetic wraps as in the release build; \<open>usize\<close>
  counts and \<open>rug\<close> integers are \<open>nat\<close> and \<open>int\<close>. Maps and sets are finite maps and sets, iterated
  in key order where the source has a \<open>BTreeMap\<close>. Serialisation, hashing, the random generator, the
  clock and the sockets are outside: records of functions (the types ending in \<open>_ext\<close>) and
  arguments, with what is relied on as named hypotheses. A field or method name that occurs
  twice in the sources carries a prefix.

  \<^bold>\<open>The theories.\<close>
  \<^item> \<open>Prelude\<close>: machine types, panics, Rust's collections, generic lemmas. \<open>Interfaces\<close>: the data of
    \<^verbatim>\<open>interfaces.rs\<close> and \<^verbatim>\<open>upgrade/frozen_last_version.rs\<close>. \<open>Votes\<close>: the locales \<open>vote_box\<close> and
    \<open>hashed_vote_box\<close> for counting votes, with the quorum lemmas; interpreted on the votes for block
    information and coordinated commands (compute) and on the parts of blocks (storage).
  \<^item> \<open>Residues\<close>, \<open>Unicorn\<close> (\<^verbatim>\<open>unicorn.rs\<close>): the verifiable delay function, loop by loop; when
    verification accepts the honest witness, and that it accepts at most one.
  \<^item> \<open>Block_Pipeline\<close> (\<^verbatim>\<open>block_pipeline.rs\<close>): the phases of mining as a state machine; its
    invariant, its transitions, the selection of participants and of the winner, freedom from panics.
  \<^item> \<open>Raft_Util\<close> (\<^verbatim>\<open>raft_util.rs\<close>, \<^verbatim>\<open>active_raft.rs\<close>): proposals in flight. The locale
    \<open>in_flight_log\<close> states that a proposal is recorded under a fresh key until its commit.
  \<^item> \<open>Tracked_Utxo\<close> (\<^verbatim>\<open>tracked_utxo.rs\<close>): the UTXO set with its index by address; the locale
    \<open>utxo_view\<close> is what block generation needs of it. \<open>Genesis\<close>: the genesis transactions
    (\<^verbatim>\<open>utils.rs\<close>).
  \<^item> \<open>Compute_Consensused\<close>, \<open>Compute_Raft\<close> (\<^verbatim>\<open>compute_raft.rs\<close>): the agreed state and the node
    around it. Shown: a block spends each outpoint once and only outpoints of the set, the selection
    equals the greedy reference, quorums, rewards, the accounting of proposed transactions in every
    reachable state, steps of the block number, import and export.
  \<^item> \<open>Storage_Keys\<close>, \<open>Storage_Fetch\<close> (\<^verbatim>\<open>storage_fetch.rs\<close>): keys and version pointers are
    unambiguous; downloads hand over complete consecutive blocks (locale \<open>ordered_download\<close>, interpreted
    on \<open>FetchReceive\<close> and on \<open>StorageFetch\<close>), ignore unrequested items, and complete when every item
    is with some peer.
  \<^item> \<open>Db_Utils\<close> (\<^verbatim>\<open>db_utils.rs\<close>): the in-memory database refines a map of maps, batches included; the locale
    \<open>column_store\<close> is the interface the storage node uses; imports are atomic.
  \<^item> \<open>Storage_Raft\<close> (\<^verbatim>\<open>storage_raft.rs\<close>): a block is complete exactly with a quorum.
  \<^item> \<open>Comms\<close> (\<^verbatim>\<open>comms_handler/node.rs\<close>): the peer table and its invariant, gossip, the sorted list
    of peers.
  \<^item> \<open>Storage_Node\<close> (\<^verbatim>\<open>storage.rs\<close>, proof of work from \<^verbatim>\<open>utils.rs\<close>): the database of blocks and
    all handlers of the node. A stored block can be read back by hash, number and as last block; what
    one node serves another stores identically. \<open>Storage_Chain\<close> composes the parts: the invariant of
    the whole node over any events, and what a committed block does to consensus, database and
    catch-up at once.

  \<^item> \<open>Node_Utils\<close> (\<^verbatim>\<open>utils.rs\<close>, \<^verbatim>\<open>interfaces.rs\<close>): proofs of work, responses and events that the
    nodes share. \<open>Compute_Node\<close> (\<^verbatim>\<open>compute.rs\<close>): the compute node around its consensus side: requests of
    miners, users, storage and the API, commits, timers, the reactions to responses, and the local
    database. \<open>Compute_Inv\<close>: its invariant through every handler, from \<open>ComputeNode_new\<close> over any events
    (\<open>compute_node_step\<close> is a turn of the main loop in \<^verbatim>\<open>bin/node/compute.rs\<close>). \<open>Compute_Props\<close>: what a
    restart brings back, which transactions are kept, that DRUID sets are complete, that an accepted
    proof of work makes a block which passes the check, the coordinated pause, the whitelist, and the
    UTXO sets sent to users.
  \<^item> \<open>Fund_Store\<close> (\<^verbatim>\<open>wallet/fund_store.rs\<close>): the outpoints of a wallet; the running total is the sum of
    what is unspent, and taking out the locked coinbase is exact. \<open>Wallet_Db\<close> (\<^verbatim>\<open>wallet/mod.rs\<close>): the
    wallet, one column of a database with the addresses and their encrypted keys, the outpoints, the
    funds, the locked coinbase and the master key. \<open>Wallet_Inv\<close>: the invariant of its contents and what
    every operation does to it; \<open>wallet_step\<close> are the operations the nodes use, \<open>wallet_reachable\<close> the wallets
    they lead to. \<open>Wallet_Props\<close>: every unspent outpoint can be signed for, the inputs of a payment, that they
    are spent once, the passphrase, restarts, and purging.
  \<^item> \<open>Tx_Gen\<close> (\<^verbatim>\<open>transaction_gen.rs\<close>): the generator of test transactions; its loops end because every
    transaction spends ready outpoints. \<open>User_Node\<close> (\<^verbatim>\<open>user.rs\<close>): the user node with its wallet, network
    node and payment in progress: requests of the API, of other users and of the compute node, and the
    reactions to responses. \<open>User_Inv\<close>: what every handler does to the wallet and to the pending
    payments; \<open>user_step\<close> is an event or a reaction, \<open>user_reachable\<close> the nodes that runs with amounts of
    64 bits lead to. \<open>User_Props\<close>: the wallet stays sound whatever the node receives, a peer is paid once per
    request, and each of the two transactions of a receipt-based payment of tokens meets what the
    other one expects.

  \<^bold>\<open>Loops, fuel and bounds.\<close> The loops over collections are structural or folds. The loops of
  \<open>eval\<close> and \<open>verify\<close> of \<open>Unicorn\<close> run as often as the data says; their inner loop \<open>xor_loop\<close> is a
  partial function, \<open>None\<close> when it does not end, and is shown to end after at most two turns for a
  modulus that passed the check. \<open>catchup_completes\<close> runs the catch-up loop for a number of rounds (\<open>fetch_rounds\<close>) and
  states how many are enough: the number of peers times the number of wanted items. The searches for a
  proof of work (\<open>generate_pow_for_block\<close>, \<open>generate_pow_for_address\<close>) take the nonces they draw as a list
  and give nothing when none of it fits; a list with a fitting nonce is enough. No other definition
  has fuel.

  \<^bold>\<open>Deviations of the code\<close> that the theorems show: the verification of the delay function rejects
  honest witnesses (\<open>verify_eval_iff\<close>), removing an outpoint may drop others from the index
  (\<open>remove_entry_exact_iff\<close>), the de-duplication forgets the current block
  (\<open>ignore_dedup_forgets_current\<close>), the coordinated command taken need not be the one with most votes
  (\<open>coordinated_cmd_votes\<close>), a late handshake response panics (\<open>late_handshake_response_panics\<close>),
  forcing a peer into a full table empties it (\<open>force_add_refuses\<close>), gossip is sent on once more often
  than documented (\<open>gossip_delivered_once\<close>), a purge deletes the entry of an outpoint that was stored
  again after it was spent (\<open>purge_keeps_unspent\<close>), and a DRUID set whose first
  transaction names no participants waits forever (\<open>compute_node_invariant\<close>).

  \<^bold>\<open>Not modelled.\<close> The RAFT loop and its log store (\<^verbatim>\<open>raft.rs\<close>, \<^verbatim>\<open>raft_store.rs\<close>: I/O around a
  third-party library), the file form of the database (RocksDB), sockets and TLS
  (\<^verbatim>\<open>tcp_tls.rs\<close>), the HTTP API (\<^verbatim>\<open>api/\<close>), the executables, configuration parsing and test
  support, the event handlers of the miner (\<^verbatim>\<open>miner.rs\<close>, whose proof of work and wallet are modelled), the
  channel of the user node to a user interface, and the conversions of \<^verbatim>\<open>upgrade/mod.rs\<close>.
  Message delivery between nodes is not a protocol model: each node is proved against arbitrary
  inputs.
\<close>

end
